(* ===== verification/Gabble_Prelude.thy ===== *)
theory Gabble_Prelude
  imports Main "HOL-Library.Word" "HOL-Library.Monad_Syntax"
begin

text \<open>
  Shared ground of the development: names for the C types the code uses, the few library
  helpers every component calls (\<open>tp_strdiff\<close>), runs of event-driven
  components, and the generic lemmas on lists and options the component proofs rest on.

  Conventions used by all theories:
  \<^item> an object of the program is a record, a pointer that may be \<open>NULL\<close> is an option;
  \<^item> an operation takes the record and returns the new one; the D-Bus signals it emits and the
    stanzas it sends are appended, in order, to a trace field of the record;
  \<^item> an operation that can run into a failed \<open>g_assert\<close>, a \<open>NULL\<close> dereference, a use after
    free or a double free has an option result, and \<open>None\<close> stands for that crash;
  \<^item> what the environment decides (whether a write succeeds, what a peer answers) is an argument.
\<close>

section \<open>C types and library helpers\<close>

type_synonym byte = "8 word"
type_synonym bytes = "byte list"
type_synonym guint = "32 word"
type_synonym guint16 = "16 word"
type_synonym guint8 = "8 word"
type_synonym gint8 = "8 word"
type_synonym cstring = "string option"

text \<open>The collections the component proofs use: definitions to unfold when an operation is
  executed symbolically, and facts about the trace fields.\<close>

named_theorems gabble_ops
named_theorems gabble_trace

text \<open>Telepathy's string comparison: true when the two possibly \<open>NULL\<close> strings differ.\<close>

definition tp_strdiff :: "cstring \<Rightarrow> cstring \<Rightarrow> bool" where
  "tp_strdiff a b \<longleftrightarrow> a \<noteq> b"

text \<open>\<open>(int) c\<close> for a \<open>gchar\<close>: plain \<open>char\<close> is signed on the platforms Gabble is built for.\<close>

abbreviation gchar_int :: "byte \<Rightarrow> int" where
  "gchar_int b \<equiv> sint b"

section \<open>Runs of event-driven components\<close>

text \<open>\<open>run step es s\<close> feeds the events \<open>es\<close> to a component, one after the other; it is \<open>None\<close>
  as soon as one of them crashes. \<open>legal_run\<close> says that every event is one the environment may
  deliver in the state it finds.\<close>

primrec run :: "('e \<Rightarrow> 's \<Rightarrow> 's option) \<Rightarrow> 'e list \<Rightarrow> 's \<Rightarrow> 's option" where
  "run step [] s = Some s"
| "run step (e # es) s = Option.bind (step e s) (run step es)"

primrec legal_run ::
  "('e \<Rightarrow> 's \<Rightarrow> bool) \<Rightarrow> ('e \<Rightarrow> 's \<Rightarrow> 's option) \<Rightarrow> 'e list \<Rightarrow> 's \<Rightarrow> bool" where
  "legal_run legal step [] s = True"
| "legal_run legal step (e # es) s =
     (legal e s \<and> (case step e s of None \<Rightarrow> True | Some s' \<Rightarrow> legal_run legal step es s'))"

lemma run_append: "run step (es @ fs) s = Option.bind (run step es s) (run step fs)"
  by (induction es arbitrary: s) (auto split: Option.bind_splits)

text \<open>The contract of a component that never crashes: every legal event, in a state that satisfies
  the invariant, is handled and leads to a state that satisfies it.\<close>

locale safe_system =
  fixes legal :: "'e \<Rightarrow> 's \<Rightarrow> bool"
    and step :: "'e \<Rightarrow> 's \<Rightarrow> 's option"
    and inv :: "'s \<Rightarrow> bool"
  assumes step_safe: "inv s \<Longrightarrow> legal e s \<Longrightarrow> \<exists>s'. step e s = Some s' \<and> inv s'"
begin

lemma step_inv: "inv s \<Longrightarrow> legal e s \<Longrightarrow> step e s = Some s' \<Longrightarrow> inv s'"
  using step_safe by fastforce

lemma run_safe: "inv s \<Longrightarrow> legal_run legal step es s \<Longrightarrow> \<exists>s'. run step es s = Some s' \<and> inv s'"
proof (induction es arbitrary: s)
  case Nil
  then show ?case by simp
next
  case (Cons e es)
  from Cons.prems(2) have "legal e s" by simp
  with Cons.prems(1) obtain s1 where s1: "step e s = Some s1" "inv s1"
    using step_safe by blast
  with Cons.prems(2) have "legal_run legal step es s1" by simp
  with s1 show ?case using Cons.IH by simp
qed

lemma run_inv: "inv s \<Longrightarrow> legal_run legal step es s \<Longrightarrow> run step es s = Some s' \<Longrightarrow> inv s'"
  using run_safe by fastforce

end

section \<open>Generic lemmas\<close>

text \<open>The first element that satisfies a predicate is changed in place.\<close>

fun map_first :: "('a \<Rightarrow> bool) \<Rightarrow> ('a \<Rightarrow> 'a) \<Rightarrow> 'a list \<Rightarrow> 'a list" where
  "map_first P f [] = []"
| "map_first P f (x # xs) = (if P x then f x # xs else x # map_first P f xs)"

lemma remove1_hd [simp]: "xs \<noteq> [] \<Longrightarrow> remove1 (hd xs) xs = tl xs"
  by (cases xs) auto

lemma length_remove1_less: "x \<in> set xs \<Longrightarrow> length (remove1 x xs) < length xs"
  by (induction xs) auto

lemma take_drop_chunk: "take n xs @ drop n xs = xs"
  by simp

lemma find_Some_in: "find P xs = Some x \<Longrightarrow> x \<in> set xs \<and> P x"
  by (induction xs) (auto split: if_splits)

lemma find_None_all: "find P xs = None \<longleftrightarrow> (\<forall>x \<in> set xs. \<not> P x)"
  by (induction xs) auto

lemma count_list_distinct: "distinct xs \<Longrightarrow> count_list xs x = (if x \<in> set xs then 1 else 0)"
  by (induction xs) auto

end
