(* ===== verification/Wocky_Node.thy ===== *)
theory Wocky_Node
  imports Gabble_Prelude
begin

text \<open>
  XML nodes (\<open>lib/ext/wocky/wocky/wocky-node.c\<close>): the tree type every stanza is made of, and the
  attribute and child accessors the other components use. An attribute's namespace and a node's
  namespace are \<open>None\<close> where the code has the quark 0. Strings are taken to be valid UTF-8, so the
  copies made by \<open>strndup_validated\<close> are the strings themselves; the namespace prefix of an
  attribute only matters when a stanza is printed and is left out.
\<close>

record Attribute =
  attr_key :: string
  attr_value :: string
  attr_ns :: cstring

datatype WockyNode = WockyNode
  (node_name: string)
  (node_content: cstring)
  (node_ns: cstring)
  (node_attributes: "Attribute list")
  (node_children: "WockyNode list")

definition attribute_compare :: "string \<Rightarrow> cstring \<Rightarrow> Attribute \<Rightarrow> bool" where
  "attribute_compare key ns a \<longleftrightarrow> \<not> (ns \<noteq> None \<and> attr_ns a \<noteq> ns) \<and> attr_key a = key"

definition wocky_node_get_attribute_ns :: "WockyNode \<Rightarrow> string \<Rightarrow> cstring \<Rightarrow> cstring" where
  "wocky_node_get_attribute_ns node key ns =
     map_option attr_value (find (attribute_compare key ns) (node_attributes node))"

definition wocky_node_get_attribute :: "WockyNode \<Rightarrow> string \<Rightarrow> cstring" where
  "wocky_node_get_attribute node key = wocky_node_get_attribute_ns node key None"

text \<open>\<open>g_slist_find_custom\<close> and \<open>g_slist_delete_link\<close>: the first match is removed, then the new
  attribute is appended.\<close>

primrec delete_first :: "('a \<Rightarrow> bool) \<Rightarrow> 'a list \<Rightarrow> 'a list" where
  "delete_first P [] = []"
| "delete_first P (x # xs) = (if P x then xs else x # delete_first P xs)"

fun wocky_node_set_attribute_n_ns :: "WockyNode \<Rightarrow> string \<Rightarrow> string \<Rightarrow> cstring \<Rightarrow> WockyNode" where
  "wocky_node_set_attribute_n_ns (WockyNode name content ns attrs children) key value ans =
     WockyNode name content ns
       (delete_first (attribute_compare key ans) attrs
          @ [\<lparr>attr_key = key, attr_value = value, attr_ns = ans\<rparr>])
       children"

definition wocky_node_set_attribute :: "WockyNode \<Rightarrow> string \<Rightarrow> string \<Rightarrow> WockyNode" where
  "wocky_node_set_attribute node key value = wocky_node_set_attribute_n_ns node key value None"

definition node_compare_child :: "cstring \<Rightarrow> cstring \<Rightarrow> WockyNode \<Rightarrow> bool" where
  "node_compare_child key ns node \<longleftrightarrow>
     \<not> (ns \<noteq> None \<and> ns \<noteq> node_ns node) \<and> (key = None \<or> key = Some (node_name node))"

definition wocky_node_get_child_ns :: "WockyNode \<Rightarrow> cstring \<Rightarrow> cstring \<Rightarrow> WockyNode option" where
  "wocky_node_get_child_ns node name ns =
     find (node_compare_child name ns) (node_children node)"

definition wocky_node_get_child :: "WockyNode \<Rightarrow> string \<Rightarrow> WockyNode option" where
  "wocky_node_get_child node name = wocky_node_get_child_ns node (Some name) None"

text \<open>\<open>wocky_node_add_child_with_content_ns_q\<close>: the new child is appended; without a namespace of its
  own it gets its parent's.\<close>

fun wocky_node_add_child_with_content_ns ::
    "WockyNode \<Rightarrow> string \<Rightarrow> cstring \<Rightarrow> cstring \<Rightarrow> WockyNode list \<Rightarrow> WockyNode" where
  "wocky_node_add_child_with_content_ns (WockyNode n c ns attrs children) name content child_ns sub =
     WockyNode n c ns attrs
       (children @ [WockyNode name content (case child_ns of None \<Rightarrow> ns | Some x \<Rightarrow> Some x) [] sub])"

definition wocky_node_add_child_with_content :: "WockyNode \<Rightarrow> string \<Rightarrow> string \<Rightarrow> WockyNode" where
  "wocky_node_add_child_with_content node name content =
     wocky_node_add_child_with_content_ns node name (Some content) None []"

definition wocky_node_get_content_from_child :: "WockyNode \<Rightarrow> string \<Rightarrow> cstring" where
  "wocky_node_get_content_from_child node name =
     (case wocky_node_get_child node name of None \<Rightarrow> None | Some child \<Rightarrow> node_content child)"

lemmas wocky_node_defs =
  wocky_node_get_attribute_def wocky_node_get_attribute_ns_def attribute_compare_def
  wocky_node_get_child_def wocky_node_get_child_ns_def node_compare_child_def
  wocky_node_set_attribute_def

section \<open>Attribute lookup\<close>

text \<open>The well-formedness every node built through \<open>wocky_node_set_attribute\<close> has: at most one
  attribute per key when no attribute carries a namespace.\<close>

definition plain_attributes :: "WockyNode \<Rightarrow> bool" where
  "plain_attributes node \<longleftrightarrow>
     (\<forall>a \<in> set (node_attributes node). attr_ns a = None)
     \<and> distinct (map attr_key (node_attributes node))"

lemma delete_first_filter:
  "distinct (map f xs) \<Longrightarrow> delete_first (\<lambda>x. f x = k) xs = filter (\<lambda>x. f x \<noteq> k) xs"
proof (induction xs)
  case (Cons x xs)
  then have "f x = k \<Longrightarrow> filter (\<lambda>y. f y \<noteq> k) xs = xs"
    by (intro filter_True) (auto simp: image_iff)
  with Cons show ?case by simp
qed simp

lemma find_filter_append:
  "find P (filter (\<lambda>x. \<not> P x) xs @ ys) = find P ys"
  by (induction xs) auto

lemma find_filter_other:
  "(\<And>x. P x \<Longrightarrow> Q x) \<Longrightarrow> find P (filter Q xs @ ys) = find P (xs @ ys)"
  by (induction xs) auto

lemma attribute_compare_None [simp]: "attribute_compare key None = (\<lambda>a. attr_key a = key)"
  by (simp add: attribute_compare_def fun_eq_iff)

lemma set_attribute_attrs:
  assumes "plain_attributes node"
  shows "node_attributes (wocky_node_set_attribute node key value) =
    filter (\<lambda>a. attr_key a \<noteq> key) (node_attributes node)
      @ [\<lparr>attr_key = key, attr_value = value, attr_ns = None\<rparr>]"
proof (cases node)
  case (WockyNode name content ns attrs children)
  with assms show ?thesis
    by (simp add: wocky_node_set_attribute_def plain_attributes_def delete_first_filter)
qed

lemma set_attribute_plain:
  "plain_attributes node \<Longrightarrow> plain_attributes (wocky_node_set_attribute node key value)"
  by (auto simp: plain_attributes_def set_attribute_attrs distinct_map_filter)

lemma find_append: "find P (xs @ ys) = (case find P xs of None \<Rightarrow> find P ys | Some x \<Rightarrow> Some x)"
  by (induction xs) auto

lemma get_set_attribute:
  assumes "plain_attributes node"
  shows "wocky_node_get_attribute (wocky_node_set_attribute node key value) k =
    (if k = key then Some value else wocky_node_get_attribute node k)"
proof (cases "k = key")
  case True
  then show ?thesis
    by (simp add: wocky_node_get_attribute_def wocky_node_get_attribute_ns_def
        set_attribute_attrs [OF assms] find_filter_append
        [where P = "\<lambda>a. attr_key a = key" for key, simplified])
next
  case False
  then have "find (\<lambda>a. attr_key a = k)
      (filter (\<lambda>a. attr_key a \<noteq> key) (node_attributes node)
        @ [\<lparr>attr_key = key, attr_value = value, attr_ns = None\<rparr>])
    = find (\<lambda>a. attr_key a = k) (node_attributes node)"
    by (subst find_filter_other) (auto simp: find_append split: option.splits)
  with False show ?thesis
    by (simp add: wocky_node_get_attribute_def wocky_node_get_attribute_ns_def
        set_attribute_attrs [OF assms])
qed

end
