(* ===== verification/Wocky_Stanza.thy ===== *)
theory Wocky_Stanza
  imports Wocky_Node
begin

text \<open>
  Stanzas (\<open>lib/ext/wocky/wocky/wocky-stanza.c\<close>): their types and subtypes, and building them from a
  list of build tags (\<open>wocky_node_add_build_va\<close> of \<open>wocky-node.c\<close>), the way the code of Gabble spells the
  stanzas it sends. A stanza is its top node. A failed assertion (an attribute without a value, a tag
  after the top node was closed) is \<open>None\<close>.
\<close>

section \<open>Types\<close>

datatype WockyStanzaType =
    WOCKY_STANZA_TYPE_NONE | WOCKY_STANZA_TYPE_MESSAGE | WOCKY_STANZA_TYPE_PRESENCE
  | WOCKY_STANZA_TYPE_IQ | WOCKY_STANZA_TYPE_STREAM | WOCKY_STANZA_TYPE_STREAM_FEATURES
  | WOCKY_STANZA_TYPE_AUTH | WOCKY_STANZA_TYPE_CHALLENGE | WOCKY_STANZA_TYPE_RESPONSE
  | WOCKY_STANZA_TYPE_SUCCESS | WOCKY_STANZA_TYPE_FAILURE | WOCKY_STANZA_TYPE_STREAM_ERROR
  | WOCKY_STANZA_TYPE_UNKNOWN

datatype WockyStanzaSubType =
    WOCKY_STANZA_SUB_TYPE_NONE | WOCKY_STANZA_SUB_TYPE_AVAILABLE | WOCKY_STANZA_SUB_TYPE_NORMAL
  | WOCKY_STANZA_SUB_TYPE_CHAT | WOCKY_STANZA_SUB_TYPE_GROUPCHAT | WOCKY_STANZA_SUB_TYPE_HEADLINE
  | WOCKY_STANZA_SUB_TYPE_UNAVAILABLE | WOCKY_STANZA_SUB_TYPE_PROBE | WOCKY_STANZA_SUB_TYPE_SUBSCRIBE
  | WOCKY_STANZA_SUB_TYPE_UNSUBSCRIBE | WOCKY_STANZA_SUB_TYPE_SUBSCRIBED
  | WOCKY_STANZA_SUB_TYPE_UNSUBSCRIBED | WOCKY_STANZA_SUB_TYPE_GET | WOCKY_STANZA_SUB_TYPE_SET
  | WOCKY_STANZA_SUB_TYPE_RESULT | WOCKY_STANZA_SUB_TYPE_ERROR | WOCKY_STANZA_SUB_TYPE_UNKNOWN

definition WOCKY_XMPP_NS_JABBER_CLIENT :: string where
  "WOCKY_XMPP_NS_JABBER_CLIENT = ''jabber:client''"

definition WOCKY_XMPP_NS_STREAM :: string where
  "WOCKY_XMPP_NS_STREAM = ''http://etherx.jabber.org/streams''"

definition WOCKY_XMPP_NS_SASL_AUTH :: string where
  "WOCKY_XMPP_NS_SASL_AUTH = ''urn:ietf:params:xml:ns:xmpp-sasl''"

text \<open>The entries of \<open>type_names\<close> that have a name; the first one, \<open>NONE\<close>, is never looked up.\<close>

definition type_names :: "(WockyStanzaType \<times> string \<times> string) list" where
  "type_names =
     [(WOCKY_STANZA_TYPE_MESSAGE, ''message'', WOCKY_XMPP_NS_JABBER_CLIENT),
      (WOCKY_STANZA_TYPE_PRESENCE, ''presence'', WOCKY_XMPP_NS_JABBER_CLIENT),
      (WOCKY_STANZA_TYPE_IQ, ''iq'', WOCKY_XMPP_NS_JABBER_CLIENT),
      (WOCKY_STANZA_TYPE_STREAM, ''stream'', WOCKY_XMPP_NS_STREAM),
      (WOCKY_STANZA_TYPE_STREAM_FEATURES, ''features'', WOCKY_XMPP_NS_STREAM),
      (WOCKY_STANZA_TYPE_AUTH, ''auth'', WOCKY_XMPP_NS_SASL_AUTH),
      (WOCKY_STANZA_TYPE_CHALLENGE, ''challenge'', WOCKY_XMPP_NS_SASL_AUTH),
      (WOCKY_STANZA_TYPE_RESPONSE, ''response'', WOCKY_XMPP_NS_SASL_AUTH),
      (WOCKY_STANZA_TYPE_SUCCESS, ''success'', WOCKY_XMPP_NS_SASL_AUTH),
      (WOCKY_STANZA_TYPE_FAILURE, ''failure'', WOCKY_XMPP_NS_SASL_AUTH),
      (WOCKY_STANZA_TYPE_STREAM_ERROR, ''error'', WOCKY_XMPP_NS_STREAM)]"

definition sub_type_names :: "(WockyStanzaSubType \<times> cstring \<times> WockyStanzaType) list" where
  "sub_type_names =
     [(WOCKY_STANZA_SUB_TYPE_NONE, None, WOCKY_STANZA_TYPE_NONE),
      (WOCKY_STANZA_SUB_TYPE_AVAILABLE, None, WOCKY_STANZA_TYPE_PRESENCE),
      (WOCKY_STANZA_SUB_TYPE_NORMAL, Some ''normal'', WOCKY_STANZA_TYPE_NONE),
      (WOCKY_STANZA_SUB_TYPE_CHAT, Some ''chat'', WOCKY_STANZA_TYPE_MESSAGE),
      (WOCKY_STANZA_SUB_TYPE_GROUPCHAT, Some ''groupchat'', WOCKY_STANZA_TYPE_MESSAGE),
      (WOCKY_STANZA_SUB_TYPE_HEADLINE, Some ''headline'', WOCKY_STANZA_TYPE_MESSAGE),
      (WOCKY_STANZA_SUB_TYPE_UNAVAILABLE, Some ''unavailable'', WOCKY_STANZA_TYPE_PRESENCE),
      (WOCKY_STANZA_SUB_TYPE_PROBE, Some ''probe'', WOCKY_STANZA_TYPE_PRESENCE),
      (WOCKY_STANZA_SUB_TYPE_SUBSCRIBE, Some ''subscribe'', WOCKY_STANZA_TYPE_PRESENCE),
      (WOCKY_STANZA_SUB_TYPE_UNSUBSCRIBE, Some ''unsubscribe'', WOCKY_STANZA_TYPE_PRESENCE),
      (WOCKY_STANZA_SUB_TYPE_SUBSCRIBED, Some ''subscribed'', WOCKY_STANZA_TYPE_PRESENCE),
      (WOCKY_STANZA_SUB_TYPE_UNSUBSCRIBED, Some ''unsubscribed'', WOCKY_STANZA_TYPE_PRESENCE),
      (WOCKY_STANZA_SUB_TYPE_GET, Some ''get'', WOCKY_STANZA_TYPE_IQ),
      (WOCKY_STANZA_SUB_TYPE_SET, Some ''set'', WOCKY_STANZA_TYPE_IQ),
      (WOCKY_STANZA_SUB_TYPE_RESULT, Some ''result'', WOCKY_STANZA_TYPE_IQ),
      (WOCKY_STANZA_SUB_TYPE_ERROR, Some ''error'', WOCKY_STANZA_TYPE_NONE),
      (WOCKY_STANZA_SUB_TYPE_UNKNOWN, None, WOCKY_STANZA_TYPE_UNKNOWN)]"

definition get_type_from_node :: "WockyNode \<Rightarrow> WockyStanzaType" where
  "get_type_from_node node =
     (case find (\<lambda>(t, name, ns). node_ns node = Some ns \<and> node_name node = name) type_names of
        Some (t, _, _) \<Rightarrow> t
      | None \<Rightarrow> WOCKY_STANZA_TYPE_UNKNOWN)"

definition get_sub_type_from_name :: "cstring \<Rightarrow> WockyStanzaSubType" where
  "get_sub_type_from_name name =
     (case name of
        None \<Rightarrow> WOCKY_STANZA_SUB_TYPE_NONE
      | Some n \<Rightarrow>
          (case find (\<lambda>(t, nm, _). nm = Some n) (tl sub_type_names) of
             Some (t, _, _) \<Rightarrow> t
           | None \<Rightarrow> WOCKY_STANZA_SUB_TYPE_UNKNOWN))"

definition wocky_stanza_get_type_info :: "WockyNode \<Rightarrow> WockyStanzaType \<times> WockyStanzaSubType" where
  "wocky_stanza_get_type_info stanza =
     (get_type_from_node stanza, get_sub_type_from_name (wocky_node_get_attribute stanza ''type''))"

definition get_sub_type_name :: "WockyStanzaSubType \<Rightarrow> cstring" where
  "get_sub_type_name sub_type =
     (case find (\<lambda>(t, _, _). t = sub_type) sub_type_names of Some (_, name, _) \<Rightarrow> name | None \<Rightarrow> None)"

definition check_sub_type :: "WockyStanzaType \<Rightarrow> WockyStanzaSubType \<Rightarrow> bool" where
  "check_sub_type type sub_type =
     (if type = WOCKY_STANZA_TYPE_NONE then False
      else case find (\<lambda>(t, _, _). t = sub_type) sub_type_names of
        Some (_, _, expected_type) \<Rightarrow> expected_type = WOCKY_STANZA_TYPE_NONE \<or> expected_type = type
      | None \<Rightarrow> False)"

definition wocky_stanza_new_with_sub_type ::
    "WockyStanzaType \<Rightarrow> WockyStanzaSubType \<Rightarrow> WockyNode option" where
  "wocky_stanza_new_with_sub_type type sub_type =
     (if \<not> check_sub_type type sub_type then None
      else case find (\<lambda>(t, _, _). t = type) type_names of
        None \<Rightarrow> None
      | Some (_, name, ns) \<Rightarrow>
          let stanza = WockyNode name None (Some ns) [] []
          in Some (case get_sub_type_name sub_type of
                     None \<Rightarrow> stanza
                   | Some sub_type_name \<Rightarrow> wocky_node_set_attribute stanza ''type'' sub_type_name))"

section \<open>Iterating over children\<close>

text \<open>The children \<open>wocky_node_iter_next\<close> returns, one after the other.\<close>

definition wocky_node_iter :: "WockyNode \<Rightarrow> cstring \<Rightarrow> cstring \<Rightarrow> WockyNode list" where
  "wocky_node_iter node name ns =
     filter (\<lambda>ln. \<not> (name \<noteq> None \<and> Some (node_name ln) \<noteq> name) \<and> \<not> (ns \<noteq> None \<and> ns \<noteq> node_ns ln))
       (node_children node)"

section \<open>Building\<close>

datatype WockyNodeBuildTag =
    WOCKY_NODE_ATTRIBUTE string cstring
  | WOCKY_NODE_START string
  | WOCKY_NODE_TEXT cstring
  | WOCKY_NODE_XMLNS string
  | WOCKY_NODE_END

fun set_node_content :: "WockyNode \<Rightarrow> cstring \<Rightarrow> WockyNode" where
  "set_node_content (WockyNode n c ns attrs children) content = WockyNode n content ns attrs children"

fun set_node_ns :: "WockyNode \<Rightarrow> string \<Rightarrow> WockyNode" where
  "set_node_ns (WockyNode n c ns attrs children) new_ns = WockyNode n c (Some new_ns) attrs children"

fun add_child_node :: "WockyNode \<Rightarrow> WockyNode \<Rightarrow> WockyNode" where
  "add_child_node (WockyNode n c ns attrs children) child = WockyNode n c ns attrs (children @ [child])"

text \<open>The nodes on the stack, innermost first; a child joins its parent's children when it is left, which
  is when the code has finished changing it through the pointer on the stack. What is still open at the
  end of the tags is left then.\<close>

fun close_all :: "WockyNode \<Rightarrow> WockyNode list \<Rightarrow> WockyNode" where
  "close_all node [] = node"
| "close_all node (parent # stack) = close_all (add_child_node parent node) stack"

fun add_build :: "WockyNode list \<Rightarrow> WockyNodeBuildTag list \<Rightarrow> WockyNode option" where
  "add_build [] _ = None"
| "add_build (node # stack) [] = Some (close_all node stack)"
| "add_build (node # stack) (WOCKY_NODE_ATTRIBUTE key value # tags) =
     (case value of
        None \<Rightarrow> None
      | Some v \<Rightarrow> add_build (wocky_node_set_attribute node key v # stack) tags)"
| "add_build (node # stack) (WOCKY_NODE_START name # tags) =
     add_build (WockyNode name None (node_ns node) [] [] # node # stack) tags"
| "add_build (node # stack) (WOCKY_NODE_TEXT txt # tags) =
     add_build (set_node_content node txt # stack) tags"
| "add_build (node # stack) (WOCKY_NODE_XMLNS ns # tags) =
     add_build (set_node_ns node ns # stack) tags"
| "add_build (node # stack) (WOCKY_NODE_END # tags) =
     (case stack of
        [] \<Rightarrow> if tags = [] then Some node else None
      | parent # rest \<Rightarrow> add_build (add_child_node parent node # rest) tags)"

definition wocky_node_add_build_va :: "WockyNode \<Rightarrow> WockyNodeBuildTag list \<Rightarrow> WockyNode option" where
  "wocky_node_add_build_va node tags = add_build [node] tags"

definition wocky_stanza_build ::
    "WockyStanzaType \<Rightarrow> WockyStanzaSubType \<Rightarrow> cstring \<Rightarrow> cstring \<Rightarrow> WockyNodeBuildTag list \<Rightarrow>
     WockyNode option" where
  "wocky_stanza_build type sub_type from to tags =
     (case wocky_stanza_new_with_sub_type type sub_type of
        None \<Rightarrow> None
      | Some stanza \<Rightarrow>
          let s1 = (case from of None \<Rightarrow> stanza | Some f \<Rightarrow> wocky_node_set_attribute stanza ''from'' f);
              s2 = (case to of None \<Rightarrow> s1 | Some t \<Rightarrow> wocky_node_set_attribute s1 ''to'' t)
          in wocky_node_add_build_va s2 tags)"

text \<open>The reply to a request; there is none for a request without an \<open>id\<close>.\<close>

definition create_iq_reply ::
    "WockyNode \<Rightarrow> WockyStanzaSubType \<Rightarrow> WockyNodeBuildTag list \<Rightarrow> WockyNode option" where
  "create_iq_reply iq sub_type_reply tags =
     (if fst (wocky_stanza_get_type_info iq) \<noteq> WOCKY_STANZA_TYPE_IQ
         \<or> snd (wocky_stanza_get_type_info iq)
              \<notin> {WOCKY_STANZA_SUB_TYPE_GET, WOCKY_STANZA_SUB_TYPE_SET}
      then None
      else case wocky_node_get_attribute iq ''id'' of
        None \<Rightarrow> None
      | Some iq_id \<Rightarrow>
          map_option (\<lambda>reply. wocky_node_set_attribute reply ''id'' iq_id)
            (wocky_stanza_build WOCKY_STANZA_TYPE_IQ sub_type_reply
               (wocky_node_get_attribute iq ''to'') (wocky_node_get_attribute iq ''from'') tags))"

lemmas stanza_build_defs =
  wocky_stanza_build_def wocky_stanza_new_with_sub_type_def check_sub_type_def get_sub_type_name_def
  type_names_def sub_type_names_def wocky_node_add_build_va_def

lemmas stanza_type_defs =
  wocky_stanza_get_type_info_def get_type_from_node_def get_sub_type_from_name_def type_names_def
  sub_type_names_def

section \<open>Attributes and children of built nodes\<close>

lemma node_of_attribute [simp]:
  "node_ns (wocky_node_set_attribute node k v) = node_ns node"
  "node_name (wocky_node_set_attribute node k v) = node_name node"
  "node_content (wocky_node_set_attribute node k v) = node_content node"
  "node_children (wocky_node_set_attribute node k v) = node_children node"
  by (cases node, simp add: wocky_node_set_attribute_def)+

lemma node_of_built [simp]:
  "node_children (add_child_node node child) = node_children node @ [child]"
  "node_attributes (add_child_node node child) = node_attributes node"
  "node_ns (add_child_node node child) = node_ns node"
  "node_name (add_child_node node child) = node_name node"
  by (cases node, simp)+

lemma built_attribute [simp]:
  "wocky_node_get_attribute (add_child_node node child) k = wocky_node_get_attribute node k"
  "plain_attributes (add_child_node node child) = plain_attributes node"
  "plain_attributes (WockyNode n c ns [] cs)"
  by (simp_all add: wocky_node_get_attribute_def wocky_node_get_attribute_ns_def plain_attributes_def)

lemma get_attribute_plain_none [simp]: "wocky_node_get_attribute (WockyNode n c ns [] cs) k = None"
  by (simp add: wocky_node_get_attribute_def wocky_node_get_attribute_ns_def)

end
