(* ===== verification/Namespaces.thy ===== *)
theory Namespaces
  imports Gabble_Prelude
begin

text \<open>
  The XML namespaces the modelled components use, as \<open>src/namespaces.h\<close> defines them.
\<close>

definition NS_GOOGLE_FEAT_SESSION :: string where
  "NS_GOOGLE_FEAT_SESSION = ''http://www.google.com/xmpp/protocol/session''"

definition NS_JINGLE_TRANSPORT_RAWUDP :: string where
  "NS_JINGLE_TRANSPORT_RAWUDP = ''urn:xmpp:jingle:transports:raw-udp:1''"

definition NS_JINGLE015 :: string where
  "NS_JINGLE015 = ''http://jabber.org/protocol/jingle''"

definition NS_JINGLE032 :: string where
  "NS_JINGLE032 = ''urn:xmpp:jingle:1''"

definition NS_DISCO_INFO :: string where
  "NS_DISCO_INFO = ''http://jabber.org/protocol/disco#info''"

definition NS_CHAT_STATES :: string where
  "NS_CHAT_STATES = ''http://jabber.org/protocol/chatstates''"

definition NS_NICK :: string where
  "NS_NICK = ''http://jabber.org/protocol/nick''"

definition NS_SI :: string where
  "NS_SI = ''http://jabber.org/protocol/si''"

definition NS_IBB :: string where
  "NS_IBB = ''http://jabber.org/protocol/ibb''"

definition NS_TUBES :: string where
  "NS_TUBES = ''http://telepathy.freedesktop.org/xmpp/tubes''"

definition NS_BYTESTREAMS :: string where
  "NS_BYTESTREAMS = ''http://jabber.org/protocol/bytestreams''"

definition NS_VERSION :: string where
  "NS_VERSION = ''jabber:iq:version''"

definition NS_LAST :: string where
  "NS_LAST = ''jabber:iq:last''"

definition NS_RECEIPTS :: string where
  "NS_RECEIPTS = ''urn:xmpp:receipts''"

definition NS_FILE_TRANSFER :: string where
  "NS_FILE_TRANSFER = ''http://jabber.org/protocol/si/profile/file-transfer''"

definition NS_TP_FT_METADATA :: string where
  "NS_TP_FT_METADATA = ''http://telepathy.freedesktop.org/xmpp/file-transfer-metadata''"

definition NS_GOOGLE_TRANSPORT_P2P :: string where
  "NS_GOOGLE_TRANSPORT_P2P = ''http://www.google.com/transport/p2p''"

definition NS_JINGLE_TRANSPORT_ICEUDP :: string where
  "NS_JINGLE_TRANSPORT_ICEUDP = ''urn:xmpp:jingle:transports:ice-udp:1''"

definition NS_GOOGLE_FEAT_SHARE :: string where
  "NS_GOOGLE_FEAT_SHARE = ''http://google.com/xmpp/protocol/share/v1''"

definition NS_GOOGLE_FEAT_VOICE :: string where
  "NS_GOOGLE_FEAT_VOICE = ''http://www.google.com/xmpp/protocol/voice/v1''"

definition NS_GOOGLE_FEAT_VIDEO :: string where
  "NS_GOOGLE_FEAT_VIDEO = ''http://www.google.com/xmpp/protocol/video/v1''"

definition NS_GOOGLE_FEAT_CAMERA :: string where
  "NS_GOOGLE_FEAT_CAMERA = ''http://www.google.com/xmpp/protocol/camera/v1''"

definition NS_JINGLE_DESCRIPTION_AUDIO :: string where
  "NS_JINGLE_DESCRIPTION_AUDIO = ''http://jabber.org/protocol/jingle/description/audio''"

definition NS_JINGLE_DESCRIPTION_VIDEO :: string where
  "NS_JINGLE_DESCRIPTION_VIDEO = ''http://jabber.org/protocol/jingle/description/video''"

definition NS_JINGLE_RTP :: string where
  "NS_JINGLE_RTP = ''urn:xmpp:jingle:apps:rtp:1''"

definition NS_JINGLE_RTP_AUDIO :: string where
  "NS_JINGLE_RTP_AUDIO = ''urn:xmpp:jingle:apps:rtp:audio''"

definition NS_JINGLE_RTP_VIDEO :: string where
  "NS_JINGLE_RTP_VIDEO = ''urn:xmpp:jingle:apps:rtp:video''"

definition NS_OLPC_BUDDY_PROPS :: string where
  "NS_OLPC_BUDDY_PROPS = ''http://laptop.org/xmpp/buddy-properties''"

definition NS_OLPC_ACTIVITIES :: string where
  "NS_OLPC_ACTIVITIES = ''http://laptop.org/xmpp/activities''"

definition NS_OLPC_CURRENT_ACTIVITY :: string where
  "NS_OLPC_CURRENT_ACTIVITY = ''http://laptop.org/xmpp/current-activity''"

definition NS_OLPC_ACTIVITY_PROPS :: string where
  "NS_OLPC_ACTIVITY_PROPS = ''http://laptop.org/xmpp/activity-properties''"

definition NS_GEOLOC :: string where
  "NS_GEOLOC = ''http://jabber.org/protocol/geoloc''"

definition NS_AMP :: string where
  "NS_AMP = ''http://jabber.org/protocol/amp''"

definition NS_MUC_BYTESTREAM :: string where
  "NS_MUC_BYTESTREAM = ''http://telepathy.freedesktop.org/xmpp/protocol/muc-bytestream''"

definition NS_VCARD_TEMP_UPDATE :: string where
  "NS_VCARD_TEMP_UPDATE = ''vcard-temp:x:update''"

definition NS_FEATURENEG :: string where
  "NS_FEATURENEG = ''http://jabber.org/protocol/feature-neg''"

definition NS_SI_MULTIPLE :: string where
  "NS_SI_MULTIPLE = ''http://telepathy.freedesktop.org/xmpp/si-multiple''"

definition NS_X_DATA :: string where
  "NS_X_DATA = ''jabber:x:data''"

end
