(* ===== verification/Stream_Initiation.thy ===== *)
theory Stream_Initiation
  imports Wocky_Stanza Namespaces
begin

text \<open>
  Stream initiation stanzas (XEP-0095) as the bytestream factory builds and reads them
  (\<open>src/bytestream-factory.c\<close>): the request that offers stream methods, the two forms of acceptance,
  and the choice of methods on either side.
\<close>

section \<open>Requests\<close>

definition si_offer_tags :: "string \<Rightarrow> string \<Rightarrow> WockyNodeBuildTag list" where
  "si_offer_tags stream_id profile =
     [WOCKY_NODE_START ''si'',
        WOCKY_NODE_XMLNS NS_SI,
        WOCKY_NODE_ATTRIBUTE ''id'' (Some stream_id),
        WOCKY_NODE_ATTRIBUTE ''profile'' (Some profile),
        WOCKY_NODE_START ''feature'',
          WOCKY_NODE_XMLNS NS_FEATURENEG,
          WOCKY_NODE_START ''x'',
            WOCKY_NODE_XMLNS NS_X_DATA,
            WOCKY_NODE_ATTRIBUTE ''type'' (Some ''form''),
            WOCKY_NODE_START ''field'',
              WOCKY_NODE_ATTRIBUTE ''var'' (Some ''stream-method''),
              WOCKY_NODE_ATTRIBUTE ''type'' (Some ''list-single''),
              WOCKY_NODE_START ''option'',
                WOCKY_NODE_START ''value'', WOCKY_NODE_TEXT (Some NS_BYTESTREAMS),
                WOCKY_NODE_END,
              WOCKY_NODE_END,
              WOCKY_NODE_START ''option'',
                WOCKY_NODE_START ''value'', WOCKY_NODE_TEXT (Some NS_IBB),
                WOCKY_NODE_END,
              WOCKY_NODE_END,
            WOCKY_NODE_END,
          WOCKY_NODE_END,
        WOCKY_NODE_END,
        WOCKY_NODE_START ''si-multiple'',
          WOCKY_NODE_XMLNS NS_SI_MULTIPLE,
        WOCKY_NODE_END,
      WOCKY_NODE_END]"

definition gabble_bytestream_factory_make_stream_init_iq ::
    "string \<Rightarrow> string \<Rightarrow> string \<Rightarrow> WockyNode option" where
  "gabble_bytestream_factory_make_stream_init_iq full_jid stream_id profile =
     wocky_stanza_build WOCKY_STANZA_TYPE_IQ WOCKY_STANZA_SUB_TYPE_SET None (Some full_jid)
       (si_offer_tags stream_id profile)"

record si_request =
  si_profile :: string
  si_from :: string
  si_stream_id :: string
  si_stream_init_id :: cstring
  si_mime_type :: cstring
  si_stream_methods :: "cstring list"
  si_multiple :: bool

text \<open>The methods offered by the options of the field \<open>stream-method\<close>. An option without a \<open>value\<close>, or
  with an empty one, is skipped; a \<open>value\<close> without text is not.\<close>

definition offered_method :: "WockyNode \<Rightarrow> cstring list" where
  "offered_method option_node =
     (case wocky_node_get_child option_node ''value'' of
        None \<Rightarrow> []
      | Some v \<Rightarrow> if \<not> tp_strdiff (node_content v) (Some '''') then [] else [node_content v])"

text \<open>The first field that is \<open>stream-method\<close> decides; \<open>None\<close> when it has the wrong type, no methods when
  there is none.\<close>

primrec parse_stream_method_fields :: "WockyNode list \<Rightarrow> cstring list option" where
  "parse_stream_method_fields [] = Some []"
| "parse_stream_method_fields (field # rest) =
     (if tp_strdiff (wocky_node_get_attribute field ''var'') (Some ''stream-method'')
      then parse_stream_method_fields rest
      else if tp_strdiff (wocky_node_get_attribute field ''type'') (Some ''list-single'') then None
      else Some (concat (map offered_method (wocky_node_iter field None None))))"

definition streaminit_parse_request :: "WockyNode \<Rightarrow> WockyNode \<Rightarrow> si_request option" where
  "streaminit_parse_request iq si =
     do { from \<leftarrow> wocky_node_get_attribute iq ''from'';
          stream_id \<leftarrow> wocky_node_get_attribute si ''id'';
          profile \<leftarrow> wocky_node_get_attribute si ''profile'';
          feature \<leftarrow> wocky_node_get_child_ns si (Some ''feature'') (Some NS_FEATURENEG);
          x \<leftarrow> wocky_node_get_child_ns feature (Some ''x'') (Some NS_X_DATA);
          stream_methods \<leftarrow> parse_stream_method_fields (wocky_node_iter x None None);
          if stream_methods = [] then None
          else Some
            \<lparr>si_profile = profile, si_from = from, si_stream_id = stream_id,
             si_stream_init_id = wocky_node_get_attribute iq ''id'',
             si_mime_type = wocky_node_get_attribute si ''mime-type'',
             si_stream_methods = stream_methods,
             si_multiple =
               wocky_node_get_child_ns si (Some ''si-multiple'') (Some NS_SI_MULTIPLE) \<noteq> None\<rparr> }"

section \<open>Acceptance\<close>

definition stream_method_supported :: "cstring \<Rightarrow> bool" where
  "stream_method_supported stream_method =
     (if \<not> tp_strdiff stream_method (Some NS_IBB) then True
      else if \<not> tp_strdiff stream_method (Some NS_BYTESTREAMS) then True
      else False)"

definition gabble_bytestream_factory_make_accept_iq ::
    "string \<Rightarrow> cstring \<Rightarrow> string \<Rightarrow> WockyNode option" where
  "gabble_bytestream_factory_make_accept_iq full_jid stream_init_id stream_method =
     wocky_stanza_build WOCKY_STANZA_TYPE_IQ WOCKY_STANZA_SUB_TYPE_RESULT None (Some full_jid)
       [WOCKY_NODE_ATTRIBUTE ''id'' stream_init_id,
        WOCKY_NODE_START ''si'',
          WOCKY_NODE_XMLNS NS_SI,
          WOCKY_NODE_START ''feature'',
            WOCKY_NODE_XMLNS NS_FEATURENEG,
            WOCKY_NODE_START ''x'',
              WOCKY_NODE_XMLNS NS_X_DATA,
              WOCKY_NODE_ATTRIBUTE ''type'' (Some ''submit''),
              WOCKY_NODE_START ''field'',
                WOCKY_NODE_ATTRIBUTE ''var'' (Some ''stream-method''),
                WOCKY_NODE_START ''value'', WOCKY_NODE_TEXT (Some stream_method), WOCKY_NODE_END,
              WOCKY_NODE_END,
            WOCKY_NODE_END,
          WOCKY_NODE_END,
        WOCKY_NODE_END]"

text \<open>The methods are added to the node \<open>si-multiple\<close>, in order.\<close>

definition gabble_bytestream_factory_make_multi_accept_iq ::
    "string \<Rightarrow> cstring \<Rightarrow> string list \<Rightarrow> WockyNode option" where
  "gabble_bytestream_factory_make_multi_accept_iq full_jid stream_init_id stream_methods =
     wocky_stanza_build WOCKY_STANZA_TYPE_IQ WOCKY_STANZA_SUB_TYPE_RESULT None (Some full_jid)
       ([WOCKY_NODE_ATTRIBUTE ''id'' stream_init_id,
         WOCKY_NODE_START ''si'',
           WOCKY_NODE_XMLNS NS_SI,
           WOCKY_NODE_START ''si-multiple'',
             WOCKY_NODE_XMLNS NS_SI_MULTIPLE]
        @ concat (map (\<lambda>m. [WOCKY_NODE_START ''value'', WOCKY_NODE_TEXT (Some m), WOCKY_NODE_END])
            stream_methods)
        @ [WOCKY_NODE_END,
         WOCKY_NODE_END])"

text \<open>What the initiator reads from a reply with \<open>si-multiple\<close>: the supported methods, in order; \<open>None\<close> when
  the node is not there.\<close>

definition multiple_reply_methods :: "WockyNode \<Rightarrow> cstring list option" where
  "multiple_reply_methods si =
     map_option (\<lambda>si_multi. filter stream_method_supported
         (map node_content (wocky_node_iter si_multi (Some ''value'') None)))
       (wocky_node_get_child_ns si (Some ''si-multiple'') (Some NS_SI_MULTIPLE))"

text \<open>What the initiator reads from a reply without: the method in the first field \<open>stream-method\<close>.\<close>

primrec reply_field_method :: "WockyNode list \<Rightarrow> cstring option" where
  "reply_field_method [] = None"
| "reply_field_method (field # rest) =
     (if tp_strdiff (wocky_node_get_attribute field ''var'') (Some ''stream-method'')
      then reply_field_method rest
      else map_option node_content (wocky_node_get_child field ''value''))"

definition reply_method :: "WockyNode \<Rightarrow> cstring option" where
  "reply_method si =
     do { feature \<leftarrow> wocky_node_get_child_ns si (Some ''feature'') (Some NS_FEATURENEG);
          x \<leftarrow> wocky_node_get_child_ns feature (Some ''x'') (Some NS_X_DATA);
          reply_field_method (wocky_node_iter x None None) }"

section \<open>Understanding what was built\<close>

text \<open>A stanza on its way: the porter of the sender sets the \<open>id\<close> of a request, and the server sets
  \<open>from\<close>.\<close>

definition delivered :: "string \<Rightarrow> WockyNode \<Rightarrow> WockyNode" where
  "delivered from stanza = wocky_node_set_attribute stanza ''from'' from"

definition sent_iq :: "string \<Rightarrow> string \<Rightarrow> WockyNode \<Rightarrow> WockyNode" where
  "sent_iq iq_id from stanza = delivered from (wocky_node_set_attribute stanza ''id'' iq_id)"

lemma child_of_delivered [simp]:
  "wocky_node_get_child_ns (delivered f n) k ns = wocky_node_get_child_ns n k ns"
  "wocky_node_get_child_ns (sent_iq i f n) k ns = wocky_node_get_child_ns n k ns"
  by (simp_all add: wocky_node_get_child_ns_def delivered_def sent_iq_def)

lemmas build_eval =
  gabble_bytestream_factory_make_stream_init_iq_def gabble_bytestream_factory_make_accept_iq_def
  gabble_bytestream_factory_make_multi_accept_iq_def stanza_build_defs si_offer_tags_def
  wocky_node_set_attribute_def

lemmas parse_eval =
  streaminit_parse_request_def offered_method_def wocky_node_iter_def wocky_node_get_child_def
  wocky_node_get_child_ns_def node_compare_child_def wocky_node_get_attribute_def
  wocky_node_get_attribute_ns_def sent_iq_def delivered_def wocky_node_set_attribute_def tp_strdiff_def

lemma stream_init_iq_parsed:
  assumes "gabble_bytestream_factory_make_stream_init_iq full_jid sid prof = Some iq"
  shows "\<exists>si. wocky_node_get_child_ns (sent_iq iq_id from iq) (Some ''si'') (Some NS_SI) = Some si
    \<and> streaminit_parse_request (sent_iq iq_id from iq) si =
       Some \<lparr>si_profile = prof, si_from = from, si_stream_id = sid, si_stream_init_id = Some iq_id,
         si_mime_type = None, si_stream_methods = [Some NS_BYTESTREAMS, Some NS_IBB], si_multiple = True\<rparr>
    \<and> wocky_node_get_attribute (sent_iq iq_id from iq) ''to'' = Some full_jid"
proof -
  have ns: "NS_BYTESTREAMS \<noteq> []" "NS_IBB \<noteq> []" by (simp_all add: NS_BYTESTREAMS_def NS_IBB_def)
  show ?thesis using assms ns by (simp add: build_eval) (auto simp: parse_eval)
qed

lemma accept_iq_parsed:
  assumes "gabble_bytestream_factory_make_accept_iq full_jid (Some iq_id) m = Some iq"
  shows "\<exists>si. wocky_node_get_child_ns (delivered from iq) (Some ''si'') (Some NS_SI) = Some si
    \<and> multiple_reply_methods si = None \<and> reply_method si = Some (Some m)
    \<and> wocky_node_get_attribute (delivered from iq) ''id'' = Some iq_id"
  using assms by (simp add: build_eval) (auto simp: multiple_reply_methods_def reply_method_def parse_eval)

lemma add_build_values:
  "node_ns node = Some ns \<Longrightarrow>
   add_build (node # stack)
     (concat (map (\<lambda>m. [WOCKY_NODE_START ''value'', WOCKY_NODE_TEXT (Some m), WOCKY_NODE_END]) ms) @ tags) =
   add_build (fold (\<lambda>m n. add_child_node n (WockyNode ''value'' (Some m) (Some ns) [] [])) ms node # stack) tags"
  by (induction ms arbitrary: node) auto

lemma fold_add_child:
  "fold (\<lambda>m n. add_child_node n (f m)) ms (WockyNode a c ns attrs cs) =
   WockyNode a c ns attrs (cs @ map f ms)"
  by (induction ms arbitrary: cs) auto

lemma multi_accept_iq_parsed:
  assumes "gabble_bytestream_factory_make_multi_accept_iq full_jid (Some iq_id) ms = Some iq"
    and "\<forall>m \<in> set ms. stream_method_supported (Some m)"
  shows "\<exists>si. wocky_node_get_child_ns (delivered from iq) (Some ''si'') (Some NS_SI) = Some si
    \<and> multiple_reply_methods si = Some (map Some ms)
    \<and> wocky_node_get_attribute (delivered from iq) ''id'' = Some iq_id
    \<and> wocky_node_get_attribute (delivered from iq) ''from'' = Some from
    \<and> wocky_node_get_attribute (delivered from iq) ''to'' = Some full_jid"
proof -
  have f: "filter stream_method_supported (map Some ms) = map Some ms"
    using assms(2) by (intro filter_True) auto
  with assms(1) show ?thesis
    by (simp add: build_eval add_build_values fold_add_child)
      (auto simp: multiple_reply_methods_def parse_eval comp_def)
qed

lemma acceptance_built:
  "\<exists>iq. gabble_bytestream_factory_make_stream_init_iq j sid prof = Some iq"
  "\<exists>iq. gabble_bytestream_factory_make_multi_accept_iq j (Some i) ms = Some iq"
  "\<exists>iq. gabble_bytestream_factory_make_accept_iq j (Some i) m = Some iq"
  "gabble_bytestream_factory_make_accept_iq j None m = None"
  "gabble_bytestream_factory_make_multi_accept_iq j None ms = None"
  by (simp_all add: build_eval add_build_values fold_add_child)

end
