(* ===== verification/C_Strings.thy ===== *)
theory C_Strings
  imports Gabble_Prelude
begin

text \<open>
  Decimal numbers in strings: what the code uses of the C library and GLib (\<open>strtol\<close>, \<open>atoi\<close>,
  \<open>g_ascii_strtoll\<close>, \<open>g_strdup_printf\<close> with \<open>"%d"\<close>) to read and write them, and that reading gives
  back what was written.
\<close>

text \<open>\<open>strtol (s, &end, 10)\<close> on a platform with 64-bit \<open>long\<close>: leading white space, an optional sign,
  the digits, with the result clamped to the range of \<open>long\<close>; without digits \<open>end\<close> is the start of
  the string.\<close>

definition is_space :: "char \<Rightarrow> bool" where
  "is_space c \<longleftrightarrow> of_char c \<in> {32, 9, 10, 11, 12, 13 :: nat}"

definition is_digit :: "char \<Rightarrow> bool" where
  "is_digit c \<longleftrightarrow> (48 :: nat) \<le> of_char c \<and> of_char c \<le> (57 :: nat)"

definition digits_value :: "string \<Rightarrow> int" where
  "digits_value ds = foldl (\<lambda>v d. v * 10 + (of_char d - 48)) 0 ds"

definition LONG_MAX :: int where
  "LONG_MAX = 2 ^ 63 - 1"

definition strtol :: "string \<Rightarrow> int \<times> string" where
  "strtol s =
     (let s1 = dropWhile is_space s;
          (neg, s2) = (case s1 of c # cs \<Rightarrow> if c = CHR ''-'' then (True, cs)
                                           else if c = CHR ''+'' then (False, cs)
                                           else (False, s1)
                                | [] \<Rightarrow> (False, s1));
          ds = takeWhile is_digit s2;
          v = (if neg then - digits_value ds else digits_value ds)
      in if ds = [] then (0, s)
         else (if v > LONG_MAX then LONG_MAX else if v < - LONG_MAX - 1 then - LONG_MAX - 1 else v,
               dropWhile is_digit s2))"

text \<open>\<open>strtoul (s, NULL, 10)\<close> with a 64-bit \<open>unsigned long\<close>: a negative number wraps around, one that is too
  large gives \<open>ULONG_MAX\<close>.\<close>

definition strtoul :: "string \<Rightarrow> int" where
  "strtoul s =
     (let s1 = dropWhile is_space s;
          (neg, s2) = (case s1 of c # cs \<Rightarrow> if c = CHR ''-'' then (True, cs)
                                           else if c = CHR ''+'' then (False, cs)
                                           else (False, s1)
                                | [] \<Rightarrow> (False, s1));
          v = digits_value (takeWhile is_digit s2)
      in if v > 2 ^ 64 - 1 then 2 ^ 64 - 1 else if neg then (- v) mod 2 ^ 64 else v)"

definition atoi :: "string \<Rightarrow> int" where
  "atoi s = sint (word_of_int (fst (strtol s)) :: 32 word)"

text \<open>\<open>g_strdup_printf ("%d", n)\<close>.\<close>

fun show_nat :: "nat \<Rightarrow> string" where
  "show_nat n =
     (if n < 10 then [char_of (48 + n)] else show_nat (n div 10) @ [char_of (48 + n mod 10)])"

declare show_nat.simps [simp del]

definition show_int :: "int \<Rightarrow> string" where
  "show_int i = (if i < 0 then CHR ''-'' # show_nat (nat (- i)) else show_nat (nat i))"

section \<open>Reading back what was written\<close>

lemma strtol_digits:
  assumes "ds \<noteq> []" and "\<forall>d \<in> set ds. is_digit d" and "digits_value ds \<le> LONG_MAX"
    and "0 \<le> digits_value ds"
  shows "strtol ds = (digits_value ds, [])"
proof -
  from assms(1) obtain d ds' where d: "ds = d # ds'" by (cases ds) auto
  with assms(2) have "is_digit d" by simp
  then have "\<not> is_space d" "d \<noteq> CHR ''-''" "d \<noteq> CHR ''+''" by (auto simp: is_digit_def is_space_def)
  moreover have "takeWhile is_digit ds = ds" "dropWhile is_digit ds = []"
    using assms(2) by (auto simp: takeWhile_eq_all_conv dropWhile_eq_Nil_conv)
  ultimately show ?thesis using assms(3,4) by (auto simp: strtol_def d LONG_MAX_def)
qed

lemma digits_value_nonneg:
  assumes "\<forall>d \<in> set ds. is_digit d" shows "0 \<le> digits_value ds"
proof -
  have "0 \<le> v \<Longrightarrow> \<forall>d \<in> set ds. is_digit d \<Longrightarrow>
      0 \<le> foldl (\<lambda>v d. v * 10 + (of_char d - 48)) v ds" for v :: int
  proof (induction ds arbitrary: v)
    case (Cons d ds)
    then have "(48 :: nat) \<le> of_char d" by (simp add: is_digit_def)
    then have "(48 :: int) \<le> of_char d"
      by (metis of_nat_le_iff of_nat_numeral of_nat_of_char)
    with Cons.prems(1) have "0 \<le> v * 10 + (of_char d - 48)" by simp
    with Cons show ?case by simp
  qed simp
  with assms show ?thesis by (simp add: digits_value_def)
qed

lemma digit_char:
  assumes "n < 10"
  shows "is_digit (char_of (48 + n))" and "of_char (char_of (48 + n) :: char) = int (48 + n)"
proof -
  have "of_char (char_of (48 + n) :: char) = 48 + n" using assms by (simp add: of_char_of)
  then show "is_digit (char_of (48 + n))" and "of_char (char_of (48 + n) :: char) = int (48 + n)"
    using assms by (simp add: is_digit_def, metis of_nat_of_char)
qed

lemma show_nat_digits: "\<forall>c \<in> set (show_nat n). is_digit c"
proof (induction n rule: show_nat.induct)
  case (1 n)
  then show ?case
    using digit_char(1) [of n] digit_char(1) [of "n mod 10"]
    by (auto simp: show_nat.simps [of n])
qed

lemma show_nat_not_Nil: "show_nat n \<noteq> []"
  by (simp add: show_nat.simps [of n])

lemma digits_value_append: "digits_value (xs @ [c]) = digits_value xs * 10 + (of_char c - 48)"
  by (simp add: digits_value_def)

lemma digits_value_show_nat: "digits_value (show_nat n) = int n"
proof (induction n rule: show_nat.induct)
  case (1 n)
  show ?case
  proof (cases "n < 10")
    case True
    then show ?thesis
      by (simp add: show_nat.simps [of n] digits_value_def digit_char(2) [simplified])
  next
    case False
    have "int (n div 10) * 10 + int (n mod 10) = int n" by presburger
    with 1 False show ?thesis
      using digit_char(2) [of "n mod 10"]
      by (simp add: show_nat.simps [of n] digits_value_append)
  qed
qed

lemma strtol_negative:
  assumes "ds \<noteq> []" and "\<forall>d \<in> set ds. is_digit d" and "digits_value ds \<le> LONG_MAX"
  shows "strtol (CHR ''-'' # ds) = (- digits_value ds, [])"
proof -
  have tw: "takeWhile is_digit ds = ds" "dropWhile is_digit ds = []"
    using assms(2) by (auto simp: takeWhile_eq_all_conv dropWhile_eq_Nil_conv)
  have "\<not> is_space (CHR ''-'')" by (simp add: is_space_def)
  moreover have "0 \<le> digits_value ds" using assms(2) by (rule digits_value_nonneg)
  ultimately show ?thesis using assms(1,3) by (simp add: strtol_def LONG_MAX_def tw Let_def)
qed

lemma strtol_show_int:
  assumes "\<bar>i\<bar> \<le> LONG_MAX" shows "strtol (show_int i) = (i, [])"
proof (cases "i < 0")
  case True
  then show ?thesis
    using assms strtol_negative [OF show_nat_not_Nil show_nat_digits, of "nat (- i)"]
    by (simp add: show_int_def digits_value_show_nat)
next
  case False
  then show ?thesis
    using assms strtol_digits [OF show_nat_not_Nil show_nat_digits, of "nat i"]
    by (simp add: show_int_def digits_value_show_nat)
qed

end
