(* ===== verification/Tube_Parameters.thy ===== *)
theory Tube_Parameters
  imports Stream_Initiation C_Strings
begin

text \<open>
  Typed properties in XML (\<open>src/util.c\<close>): the parameters of a tube travel in the offer as nodes with a name,
  a type and a value. Writing them (\<open>lm_message_node_add_children_from_properties\<close>) and reading them
  (\<open>lm_message_node_extract_properties\<close>). The base64 functions of GLib are parameters. A hash table that is
  written is a list of its entries in the order \<open>g_hash_table_foreach\<close> visits them; one that is filled is a map.
\<close>

section \<open>Values\<close>

text \<open>The types the code knows; \<open>G_OTHER\<close> is any other type.\<close>

datatype GValue =
    G_STRING string
  | G_UCHAR_ARRAY bytes
  | G_INT guint
  | G_UINT guint
  | G_BOOLEAN bool
  | G_OTHER

section \<open>Writing\<close>

fun property_type :: "GValue \<Rightarrow> cstring" where
  "property_type (G_STRING s) = Some ''str''"
| "property_type (G_UCHAR_ARRAY b) = Some ''bytes''"
| "property_type (G_INT i) = Some ''int''"
| "property_type (G_UINT u) = Some ''uint''"
| "property_type (G_BOOLEAN b) = Some ''bool''"
| "property_type G_OTHER = None"

fun property_content :: "(bytes \<Rightarrow> string) \<Rightarrow> GValue \<Rightarrow> string" where
  "property_content b64 (G_STRING s) = s"
| "property_content b64 (G_UCHAR_ARRAY b) = b64 b"
| "property_content b64 (G_INT i) = show_int (sint i)"
| "property_content b64 (G_UINT u) = show_nat (unat u)"
| "property_content b64 (G_BOOLEAN b) = (if b then ''1'' else ''0'')"
| "property_content b64 G_OTHER = ''''"

text \<open>The child is appended with the namespace of its parent, then gets its content and its attributes.\<close>

definition set_child_from_property ::
    "(bytes \<Rightarrow> string) \<Rightarrow> string \<Rightarrow> string \<Rightarrow> GValue \<Rightarrow> WockyNode \<Rightarrow> WockyNode" where
  "set_child_from_property b64 prop key value node =
     (case property_type value of
        None \<Rightarrow> node
      | Some type \<Rightarrow>
          add_child_node node
            (wocky_node_set_attribute (wocky_node_set_attribute
               (WockyNode prop (Some (property_content b64 value)) (node_ns node) [] [])
               ''name'' key) ''type'' type))"

definition lm_message_node_add_children_from_properties ::
    "(bytes \<Rightarrow> string) \<Rightarrow> string \<Rightarrow> (string \<times> GValue) list \<Rightarrow> WockyNode \<Rightarrow> WockyNode" where
  "lm_message_node_add_children_from_properties b64 prop properties node =
     foldl (\<lambda>n (key, value). set_child_from_property b64 prop key value n) node properties"

section \<open>Reading\<close>

text \<open>The value of one child; \<open>None\<close> when the child is skipped. \<open>strtol\<close> and \<open>strtoul\<close> are cut to 32 bits.\<close>

definition property_value :: "(string \<Rightarrow> bytes option) \<Rightarrow> string \<Rightarrow> string \<Rightarrow> GValue option" where
  "property_value unb64 type value =
     (if type = ''bytes'' then map_option G_UCHAR_ARRAY (unb64 value)
      else if type = ''str'' then Some (G_STRING value)
      else if type = ''int'' then Some (G_INT (word_of_int (fst (strtol value))))
      else if type = ''uint'' then Some (G_UINT (word_of_int (strtoul value)))
      else if type = ''bool''
      then (if \<not> tp_strdiff (Some value) (Some ''0'') \<or> \<not> tp_strdiff (Some value) (Some ''false'')
            then Some (G_BOOLEAN False)
            else if \<not> tp_strdiff (Some value) (Some ''1'') \<or> \<not> tp_strdiff (Some value) (Some ''true'')
            then Some (G_BOOLEAN True)
            else None)
      else None)"

definition read_property :: "(string \<Rightarrow> bytes option) \<Rightarrow> WockyNode \<Rightarrow> (string \<times> GValue) option" where
  "read_property unb64 child =
     (case (wocky_node_get_attribute child ''name'', wocky_node_get_attribute child ''type'', node_content child) of
        (Some name, Some type, Some value) \<Rightarrow> map_option (Pair name) (property_value unb64 type value)
      | _ \<Rightarrow> None)"

definition lm_message_node_extract_properties ::
    "(string \<Rightarrow> bytes option) \<Rightarrow> WockyNode option \<Rightarrow> string \<Rightarrow> (string \<rightharpoonup> GValue)" where
  "lm_message_node_extract_properties unb64 node prop =
     (case node of
        None \<Rightarrow> Map.empty
      | Some n \<Rightarrow>
          foldl (\<lambda>m child. case read_property unb64 child of None \<Rightarrow> m | Some (k, v) \<Rightarrow> m(k \<mapsto> v)) Map.empty
            (wocky_node_iter n (Some prop) None))"

section \<open>Reading back what was written\<close>

lemma strtoul_show_nat:
  assumes "n < 2 ^ 64" shows "strtoul (show_nat n) = int n"
proof -
  obtain d ds where d: "show_nat n = d # ds" using show_nat_not_Nil by (cases "show_nat n") auto
  have dig: "\<forall>c \<in> set (show_nat n). is_digit c" by (rule show_nat_digits)
  then have "is_digit d" by (simp add: d)
  then have "\<not> is_space d" "d \<noteq> CHR ''-''" "d \<noteq> CHR ''+''" by (auto simp: is_digit_def is_space_def)
  moreover have "takeWhile is_digit (show_nat n) = show_nat n" using dig by (simp add: takeWhile_eq_all_conv)
  moreover have "digits_value (show_nat n) = int n" by (rule digits_value_show_nat)
  ultimately show ?thesis using assms by (auto simp: strtoul_def d)
qed

text \<open>The types the code knows, and what the base64 functions promise.\<close>

definition known_value :: "GValue \<Rightarrow> bool" where
  "known_value v \<longleftrightarrow> property_type v \<noteq> None"

lemma property_value_written:
  assumes "\<forall>b. unb64 (b64 b) = Some b" "property_type v = Some type"
  shows "property_value unb64 type (property_content b64 v) = Some v"
proof (cases v)
  case (G_INT i)
  have "\<bar>sint i\<bar> \<le> 2 ^ 31" using sint_ge [of i] sint_lt [of i] by simp
  then have "strtol (show_int (sint i)) = (sint i, [])" by (intro strtol_show_int) (simp add: LONG_MAX_def)
  with G_INT assms(2) show ?thesis by (auto simp: property_value_def)
next
  case (G_UINT u)
  have "unat u < 2 ^ 64" using unsigned_less [of u, where ?'a = nat] by simp
  from strtoul_show_nat [OF this] G_UINT assms(2) show ?thesis by (auto simp: property_value_def)
qed (use assms in \<open>auto simp: property_value_def tp_strdiff_def\<close>)

text \<open>The nodes that are written, and what is read from one of them.\<close>

definition property_node :: "(bytes \<Rightarrow> string) \<Rightarrow> string \<Rightarrow> cstring \<Rightarrow> string \<times> GValue \<Rightarrow> WockyNode" where
  "property_node b64 prop ns kv =
     WockyNode prop (Some (property_content b64 (snd kv))) ns
       [\<lparr>attr_key = ''name'', attr_value = fst kv, attr_ns = None\<rparr>,
        \<lparr>attr_key = ''type'', attr_value = the (property_type (snd kv)), attr_ns = None\<rparr>] []"

lemma properties_written:
  "lm_message_node_add_children_from_properties b64 prop ps (WockyNode name c ns attrs cs) =
   WockyNode name c ns attrs (cs @ map (property_node b64 prop ns) (filter (known_value \<circ> snd) ps))"
proof (induction ps arbitrary: cs)
  case Nil
  then show ?case by (simp add: lm_message_node_add_children_from_properties_def)
next
  case (Cons p ps)
  obtain k v where p: "p = (k, v)" by fastforce
  have "set_child_from_property b64 prop k v (WockyNode name c ns attrs cs) =
      WockyNode name c ns attrs (cs @ (if known_value v then [property_node b64 prop ns p] else []))"
    by (auto simp: set_child_from_property_def known_value_def property_node_def p wocky_node_set_attribute_def
        split: option.split)
  then show ?case using Cons [of "cs @ (if known_value v then [property_node b64 prop ns p] else [])"]
    by (simp add: lm_message_node_add_children_from_properties_def p known_value_def comp_def)
qed

lemma property_node_read:
  assumes "\<forall>b. unb64 (b64 b) = Some b" "known_value v"
  shows "read_property unb64 (property_node b64 prop ns (k, v)) = Some (k, v)"
proof -
  obtain type where t: "property_type v = Some type" using assms(2) by (auto simp: known_value_def)
  from property_value_written [OF assms(1) t] t show ?thesis
    by (simp add: read_property_def property_node_def wocky_node_defs)
qed

lemma foldl_map_upd:
  assumes "distinct (map fst ps)"
  shows "foldl (\<lambda>m (k, v). m(k \<mapsto> v)) Map.empty ps = map_of ps"
proof -
  have "foldl (\<lambda>m (k, v). m(k \<mapsto> v)) m ps = m ++ map_of ps" for m
    using assms
  proof (induction ps arbitrary: m)
    case (Cons p ps)
    obtain k v where p: "p = (k, v)" by fastforce
    have "map_of ps k = None" using Cons.prems p by (simp add: map_of_eq_None_iff)
    then have "m(k \<mapsto> v) ++ map_of ps = m ++ map_of (p # ps)"
      by (auto simp: p map_add_def fun_eq_iff split: option.split)
    with Cons.IH [of "m(k \<mapsto> v)"] Cons.prems show ?case by (simp add: p del: fun_upd_apply map_of.simps)
  qed simp
  then show ?thesis by simp
qed

text \<open>Reading the properties back from a node with any attributes.\<close>

lemma properties_read:
  assumes "\<forall>b. unb64 (b64 b) = Some b" "distinct (map fst ps)"
  shows "lm_message_node_extract_properties unb64
      (Some (lm_message_node_add_children_from_properties b64 prop ps (WockyNode name c ns attrs []))) prop =
    map_of (filter (known_value \<circ> snd) ps)"
proof -
  let ?ps = "filter (known_value \<circ> snd) ps"
  have d: "distinct (map fst ?ps)" using assms(2) by (simp add: distinct_map_filter)
  have "foldl (\<lambda>m child. case read_property unb64 child of None \<Rightarrow> m | Some (k, v) \<Rightarrow> m(k \<mapsto> v)) m
      (map (property_node b64 prop ns) qs) = foldl (\<lambda>m (k, v). m(k \<mapsto> v)) m qs"
    if "\<forall>(k, v) \<in> set qs. known_value v" for m qs
    using that by (induction qs arbitrary: m) (auto simp: property_node_read [OF assms(1)])
  then have "foldl (\<lambda>m child. case read_property unb64 child of None \<Rightarrow> m | Some (k, v) \<Rightarrow> m(k \<mapsto> v)) Map.empty
      (map (property_node b64 prop ns) ?ps) = map_of ?ps"
    using foldl_map_upd [OF d] by auto
  moreover have "wocky_node_iter (WockyNode name c ns attrs (map (property_node b64 prop ns) ?ps)) (Some prop) None =
      map (property_node b64 prop ns) ?ps"
    by (simp add: wocky_node_iter_def node_compare_child_def property_node_def filter_True)
  ultimately show ?thesis
    by (simp add: lm_message_node_extract_properties_def properties_written)
qed

end
