(* ===== verification/Jids.thy ===== *)
theory Jids
  imports Gabble_Prelude
begin

text \<open>
  Jabber identifiers: decoding, composing and normalising them (\<open>lib/ext/wocky/wocky/wocky-utils.c\<close>) and
  the normalisation of contact and room names on top of it (\<open>src/util.c\<close>). Strings are lists of bytes, as
  the code reads them. \<open>g_utf8_strdown\<close> and \<open>g_utf8_normalize\<close> with \<open>G_NORMALIZE_NFKC\<close> are the arguments
  \<open>strdown\<close> and \<open>nfkc\<close>; what the code relies on is stated as \<open>case_mapping\<close>.
\<close>

text \<open>\<open>strchr\<close>: the string up to the first occurrence, and what is behind it.\<close>

primrec split_at :: "char \<Rightarrow> string \<Rightarrow> string \<times> cstring" where
  "split_at c [] = ([], None)"
| "split_at c (x # xs) =
     (if x = c then ([], Some xs) else (x # fst (split_at c xs), snd (split_at c xs)))"

definition node_excluded :: string where
  "node_excluded = [CHR 0x22, CHR ''&'', CHR 0x27, CHR ''/'', CHR '':'', CHR ''<'', CHR ''>'', CHR ''@'']"

definition validate_jid_node :: "string \<Rightarrow> bool" where
  "validate_jid_node node \<longleftrightarrow> (\<forall>c \<in> set node. c \<notin> set node_excluded)"

definition g_ascii_isalnum :: "char \<Rightarrow> bool" where
  "g_ascii_isalnum c \<longleftrightarrow>
     (let n = of_char c :: nat in 48 \<le> n \<and> n \<le> 57 \<or> 65 \<le> n \<and> n \<le> 90 \<or> 97 \<le> n \<and> n \<le> 122)"

definition validate_jid_domain :: "string \<Rightarrow> bool" where
  "validate_jid_domain domain \<longleftrightarrow>
     (\<forall>c \<in> set domain. 127 \<le> (of_char c :: nat) \<or> g_ascii_isalnum c
        \<or> c \<in> {CHR '':'', CHR ''-'', CHR ''.''})"

text \<open>The parts of a JID, or \<open>None\<close> when it is not valid.\<close>

definition wocky_decode_jid :: "(string \<Rightarrow> string) \<Rightarrow> string \<Rightarrow> (cstring \<times> string \<times> cstring) option" where
  "wocky_decode_jid strdown jid =
     (let (tmp_jid, tmp_resource) = split_at (CHR ''/'') jid;
          (before, after) = split_at (CHR ''@'') tmp_jid;
          tmp_node = (case after of None \<Rightarrow> None | Some _ \<Rightarrow> Some before);
          tmp_domain = (case after of None \<Rightarrow> tmp_jid | Some d \<Rightarrow> d)
      in if tmp_domain = [] \<or> \<not> validate_jid_domain tmp_domain
            \<or> (case tmp_node of None \<Rightarrow> False | Some n \<Rightarrow> n = [] \<or> \<not> validate_jid_node n)
            \<or> tmp_resource = Some []
         then None
         else Some (map_option strdown tmp_node, strdown tmp_domain, tmp_resource))"

definition wocky_compose_jid :: "cstring \<Rightarrow> string \<Rightarrow> cstring \<Rightarrow> string" where
  "wocky_compose_jid node domain resource =
     (let normal = (case node of
                      Some (c # cs) \<Rightarrow> (c # cs) @ CHR ''@'' # domain
                    | _ \<Rightarrow> domain)
      in case resource of
           Some (c # cs) \<Rightarrow> if normal \<noteq> [] then normal @ CHR ''/'' # c # cs else normal
         | _ \<Rightarrow> normal)"

definition wocky_normalise_jid :: "(string \<Rightarrow> string) \<Rightarrow> cstring \<Rightarrow> cstring" where
  "wocky_normalise_jid strdown jid =
     (case jid of
        None \<Rightarrow> None
      | Some j \<Rightarrow>
          (case wocky_decode_jid strdown j of
             None \<Rightarrow> None
           | Some (node, domain, resource) \<Rightarrow> Some (wocky_compose_jid node domain resource)))"

section \<open>Contacts and rooms\<close>

definition gabble_remove_resource :: "string \<Rightarrow> string" where
  "gabble_remove_resource jid = fst (split_at (CHR ''/'') jid)"

definition gabble_encode_jid :: "(string \<Rightarrow> string) \<Rightarrow> cstring \<Rightarrow> string \<Rightarrow> cstring \<Rightarrow> string" where
  "gabble_encode_jid nfkc node domain resource =
     nfkc (case (node, resource) of
             (Some n, Some r) \<Rightarrow> n @ CHR ''@'' # domain @ CHR ''/'' # r
           | (Some n, None) \<Rightarrow> n @ CHR ''@'' # domain
           | (None, Some r) \<Rightarrow> domain @ CHR ''/'' # r
           | (None, None) \<Rightarrow> domain)"

datatype GabbleNormalizeContactJIDMode = GABBLE_JID_ANY | GABBLE_JID_GLOBAL | GABBLE_JID_ROOM_MEMBER

text \<open>\<open>seen\<close> is \<open>tp_dynamic_handle_repo_lookup_exact\<close> on the repository of contacts, constantly false when
  the repository is \<open>NULL\<close>.\<close>

definition gabble_normalize_contact ::
    "(string \<Rightarrow> string) \<Rightarrow> (string \<Rightarrow> string) \<Rightarrow> (string \<Rightarrow> bool) \<Rightarrow> GabbleNormalizeContactJIDMode \<Rightarrow>
     string \<Rightarrow> cstring" where
  "gabble_normalize_contact strdown nfkc seen mode jid =
     (case wocky_decode_jid strdown jid of
        Some (Some username, server, resource) \<Rightarrow>
          if mode = GABBLE_JID_ROOM_MEMBER \<and> resource = None then None
          else
            let ret = gabble_encode_jid nfkc (Some username) server resource
            in if mode \<noteq> GABBLE_JID_GLOBAL \<and> resource \<noteq> None
                  \<and> (mode = GABBLE_JID_ROOM_MEMBER \<or> seen ret)
               then Some ret
               else Some (gabble_encode_jid nfkc (Some username) server None)
      | _ \<Rightarrow> None)"

text \<open>\<open>canonical\<close> is \<open>gabble_connection_get_canonical_room_name\<close>, or \<open>Some\<close> when there is no connection.\<close>

definition gabble_normalize_room :: "(string \<Rightarrow> string) \<Rightarrow> (string \<Rightarrow> cstring) \<Rightarrow> string \<Rightarrow> cstring" where
  "gabble_normalize_room strdown canonical jid =
     (case canonical jid of
        None \<Rightarrow> None
      | Some qualified_name \<Rightarrow>
          (case wocky_decode_jid strdown qualified_name of
             None \<Rightarrow> None
           | Some (_, _, resource) \<Rightarrow> if resource \<noteq> None then None else Some qualified_name))"

text \<open>\<open>lookup\<close> is \<open>tp_handle_lookup\<close> on the repository of rooms.\<close>

definition gabble_get_room_handle_from_jid :: "(string \<Rightarrow> nat) \<Rightarrow> string \<Rightarrow> nat" where
  "gabble_get_room_handle_from_jid lookup jid = lookup (gabble_remove_resource jid)"

section \<open>Decoding what was composed\<close>

text \<open>What is relied on of \<open>g_utf8_strdown\<close>: lower-casing twice changes nothing more, keeps a string empty
  or not, and keeps valid parts of a JID valid.\<close>

definition case_mapping :: "(string \<Rightarrow> string) \<Rightarrow> bool" where
  "case_mapping strdown \<longleftrightarrow>
     (\<forall>s. strdown (strdown s) = strdown s) \<and> (\<forall>s. strdown s = [] \<longleftrightarrow> s = [])
     \<and> (\<forall>s. validate_jid_node s \<longrightarrow> validate_jid_node (strdown s))
     \<and> (\<forall>s. validate_jid_domain s \<longrightarrow> validate_jid_domain (strdown s))"

lemma split_at_append:
  "c \<notin> set a \<Longrightarrow> split_at c (a @ c # b) = (a, Some b)"
  "c \<notin> set a \<Longrightarrow> split_at c a = (a, None)"
  by (induction a) auto

lemma valid_parts:
  "validate_jid_node n \<Longrightarrow> CHR ''/'' \<notin> set n \<and> CHR ''@'' \<notin> set n"
  "validate_jid_domain d \<Longrightarrow> CHR ''/'' \<notin> set d \<and> CHR ''@'' \<notin> set d"
  by (auto simp: validate_jid_node_def node_excluded_def validate_jid_domain_def g_ascii_isalnum_def)

lemma decode_composed:
  assumes "validate_jid_domain d" "d \<noteq> []" "\<And>n. node = Some n \<Longrightarrow> n \<noteq> [] \<and> validate_jid_node n"
    and "r \<noteq> Some []"
  shows "wocky_decode_jid strdown (wocky_compose_jid node d r) =
    Some (map_option strdown node, strdown d, r)"
proof -
  define j where "j = (case node of None \<Rightarrow> d | Some n \<Rightarrow> n @ CHR ''@'' # d)"
  have j: "CHR ''/'' \<notin> set j" "j \<noteq> []" using assms valid_parts by (auto simp: j_def split: option.split)
  have c: "wocky_compose_jid node d r = (case r of None \<Rightarrow> j | Some x \<Rightarrow> j @ CHR ''/'' # x)"
    using assms j by (auto simp: wocky_compose_jid_def j_def Let_def split: option.split list.split)
  then have "split_at (CHR ''/'') (wocky_compose_jid node d r) = (j, r)"
    using j by (auto simp: split_at_append split: option.split)
  moreover have "split_at (CHR ''@'') j = (case node of None \<Rightarrow> (d, None) | Some n \<Rightarrow> (n, Some d))"
    using assms valid_parts by (auto simp: j_def split_at_append split: option.split)
  ultimately show ?thesis
    using assms by (cases node) (auto simp: wocky_decode_jid_def j_def)
qed

lemma decoded_valid:
  assumes "wocky_decode_jid strdown j = Some (n, d, r)" and "case_mapping strdown"
  shows "validate_jid_domain d \<and> d \<noteq> [] \<and> r \<noteq> Some [] \<and> strdown d = d \<and> map_option strdown n = n
    \<and> (\<forall>x. n = Some x \<longrightarrow> x \<noteq> [] \<and> validate_jid_node x)"
  using assms by (auto simp: wocky_decode_jid_def case_mapping_def Let_def split: prod.splits option.splits if_splits)

section \<open>Properties\<close>

text \<open>C31. Normalising a JID is idempotent and keeps its identity: the normalised form decodes to exactly the
  parts the JID was decoded to, so normalising it again changes nothing, and two JIDs have the same
  normal form only if they have the same lower-cased node and domain and the same resource.\<close>

theorem jid_normalisation:
  assumes "case_mapping strdown" and "wocky_normalise_jid strdown (Some j) = Some n"
  shows "wocky_normalise_jid strdown (Some n) = Some n
    \<and> wocky_decode_jid strdown n = wocky_decode_jid strdown j
    \<and> (\<forall>k. wocky_normalise_jid strdown (Some k) = Some n
          \<longleftrightarrow> wocky_decode_jid strdown k = wocky_decode_jid strdown j)"
proof -
  have same: "wocky_decode_jid strdown n = wocky_decode_jid strdown k"
    if "wocky_normalise_jid strdown (Some k) = Some n" for k
  proof -
    from that obtain node d r where k: "wocky_decode_jid strdown k = Some (node, d, r)"
      "n = wocky_compose_jid node d r"
      by (auto simp: wocky_normalise_jid_def split: option.splits)
    with decoded_valid [OF k(1) assms(1)] decode_composed [of d node r strdown] show ?thesis by auto
  qed
  from same [OF assms(2)] assms(2) have "wocky_normalise_jid strdown (Some n) = Some n"
    by (simp add: wocky_normalise_jid_def)
  moreover have "wocky_normalise_jid strdown (Some k) = wocky_normalise_jid strdown (Some j)"
    if "wocky_decode_jid strdown k = wocky_decode_jid strdown j" for k
    using that by (simp add: wocky_normalise_jid_def)
  ultimately show ?thesis using same assms(2) by metis
qed

definition ascii_strdown :: "string \<Rightarrow> string" where
  "ascii_strdown = map (\<lambda>c. let n = of_char c :: nat in
     if 65 \<le> n \<and> n \<le> 90 then char_of (n + 32) else c)"

lemma ascii_case_mapping: "case_mapping ascii_strdown"
proof -
  define f where "f c = (let n = of_char c :: nat in if 65 \<le> n \<and> n \<le> 90 then char_of (n + 32) else c)"
    for c :: char
  have up: "of_char (f c) = (if 65 \<le> (of_char c :: nat) \<and> (of_char c :: nat) \<le> 90
      then of_char c + 32 else (of_char c :: nat))" for c
    by (simp add: f_def Let_def of_char_of)
  have ff: "f (f c) = f c" for c
    using up [of c] by (auto simp: f_def [of "f c"] Let_def split: if_splits)
  have al: "g_ascii_isalnum c \<Longrightarrow> g_ascii_isalnum (f c)" for c
    by (simp add: g_ascii_isalnum_def Let_def up)
  have other: "\<not> g_ascii_isalnum c \<Longrightarrow> f c = c" for c
    by (auto simp: g_ascii_isalnum_def f_def Let_def)
  have spec: "c = f c" if "\<not> g_ascii_isalnum (f c)" for c
    using that al [of c] other [of c] by metis
  have bad: "\<not> g_ascii_isalnum x" if "x \<in> set node_excluded" for x
    using that by (auto simp: node_excluded_def g_ascii_isalnum_def)
  have m: "ascii_strdown = map f" by (simp add: ascii_strdown_def f_def fun_eq_iff)
  have "f c \<notin> set node_excluded" if "c \<notin> set node_excluded" for c
    using that bad [of "f c"] spec [of c] by metis
  then have "validate_jid_node s \<Longrightarrow> validate_jid_node (map f s)" for s
    by (simp add: validate_jid_node_def)
  moreover have "127 \<le> (of_char (f c) :: nat) \<or> g_ascii_isalnum (f c) \<or> f c \<in> {CHR '':'', CHR ''-'', CHR ''.''}"
    if "127 \<le> (of_char c :: nat) \<or> g_ascii_isalnum c \<or> c \<in> {CHR '':'', CHR ''-'', CHR ''.''}" for c
    using that al [of c] other [of c] by (cases "g_ascii_isalnum c") auto
  then have "validate_jid_domain s \<Longrightarrow> validate_jid_domain (map f s)" for s
    by (simp add: validate_jid_domain_def)
  ultimately show ?thesis by (simp add: case_mapping_def m ff comp_def)
qed

theorem jid_normalisation_witness:
  "wocky_normalise_jid ascii_strdown (Some ''Al@X.y/R'') = Some ''al@x.y/R''
   \<and> wocky_normalise_jid ascii_strdown (Some ''al@x.y/R'') = Some ''al@x.y/R''"
proof -
  have n: "wocky_normalise_jid ascii_strdown (Some ''Al@X.y/R'') =
      Some ''al@x.y/R''"
    by (simp add: wocky_normalise_jid_def wocky_decode_jid_def wocky_compose_jid_def ascii_strdown_def
        validate_jid_node_def node_excluded_def validate_jid_domain_def g_ascii_isalnum_def char_of_def bit_simps)
  with jid_normalisation [OF ascii_case_mapping n] show ?thesis by blast
qed

end
