(* ===== verification/Bytestream_Iface.thy ===== *)
theory Bytestream_Iface
  imports Wocky_Node
begin

text \<open>
  The interface all bytestreams implement (\<open>src/bytestream-iface.h\<close>, \<open>src/bytestream-iface.c\<close>):
  the life cycle states and the contract of the virtual methods \<open>send\<close> and \<open>close\<close> that tubes and
  file transfers rely on. The methods are relations here, because what they do depends on the
  environment (whether a socket write succeeds); a relation holds for every outcome the
  environment can produce.
\<close>

datatype GabbleBytestreamState =
    GABBLE_BYTESTREAM_STATE_LOCAL_PENDING
  | GABBLE_BYTESTREAM_STATE_ACCEPTED
  | GABBLE_BYTESTREAM_STATE_INITIATING
  | GABBLE_BYTESTREAM_STATE_OPEN
  | GABBLE_BYTESTREAM_STATE_CLOSING
  | GABBLE_BYTESTREAM_STATE_CLOSED

text \<open>What a client of the interface can do with a bytestream it holds.\<close>

datatype bytestream_call = Call_send bytes | Call_close

text \<open>A client's calls, one after the other, with the answers \<open>send\<close> gave.\<close>

inductive calls :: "(bytes \<Rightarrow> 's \<Rightarrow> bool \<Rightarrow> 's \<Rightarrow> bool) \<Rightarrow> ('s \<Rightarrow> 's \<Rightarrow> bool) \<Rightarrow>
    's \<Rightarrow> bytestream_call list \<Rightarrow> bool list \<Rightarrow> 's \<Rightarrow> bool"
  for send :: "bytes \<Rightarrow> 's \<Rightarrow> bool \<Rightarrow> 's \<Rightarrow> bool" and close :: "'s \<Rightarrow> 's \<Rightarrow> bool" where
  calls_nil: "calls send close s [] [] s"
| calls_send: "send d s r s1 \<Longrightarrow> calls send close s1 cs rs s2 \<Longrightarrow>
    calls send close s (Call_send d # cs) (r # rs) s2"
| calls_close: "close s s1 \<Longrightarrow> calls send close s1 cs rs s2 \<Longrightarrow>
    calls send close s (Call_close # cs) rs s2"

inductive_cases calls_NilE [elim!]: "calls send close s [] rs s'"
inductive_cases calls_SendE: "calls send close s (Call_send d # cs) rs s'"
inductive_cases calls_CloseE: "calls send close s (Call_close # cs) rs s'"

locale bytestream =
  fixes state :: "'s \<Rightarrow> GabbleBytestreamState"
    and send :: "bytes \<Rightarrow> 's \<Rightarrow> bool \<Rightarrow> 's \<Rightarrow> bool"
    and close :: "'s \<Rightarrow> 's \<Rightarrow> bool"
  assumes send_not_open:
      "send d s r s' \<Longrightarrow> state s \<noteq> GABBLE_BYTESTREAM_STATE_OPEN \<Longrightarrow> \<not> r \<and> s' = s"
    and send_open: "send d s r s' \<Longrightarrow> state s = GABBLE_BYTESTREAM_STATE_OPEN \<Longrightarrow>
      state s' \<in> {GABBLE_BYTESTREAM_STATE_OPEN, GABBLE_BYTESTREAM_STATE_CLOSING,
                  GABBLE_BYTESTREAM_STATE_CLOSED}"
    and close_closed: "close s s' \<Longrightarrow> state s = GABBLE_BYTESTREAM_STATE_CLOSED \<Longrightarrow> s' = s"
    and close_shuts: "close s s' \<Longrightarrow>
      state s' \<in> {GABBLE_BYTESTREAM_STATE_CLOSING, GABBLE_BYTESTREAM_STATE_CLOSED}"
begin

lemma calls_shut:
  "calls send close s cs rs s' \<Longrightarrow>
   state s \<in> {GABBLE_BYTESTREAM_STATE_CLOSING, GABBLE_BYTESTREAM_STATE_CLOSED} \<Longrightarrow>
   state s' \<in> {GABBLE_BYTESTREAM_STATE_CLOSING, GABBLE_BYTESTREAM_STATE_CLOSED}
   \<and> True \<notin> set rs"
proof (induction rule: calls.induct)
  case (calls_nil s)
  then show ?case by simp
next
  case (calls_send d s r s1 cs rs s2)
  then have "\<not> r \<and> s1 = s" by (intro send_not_open [of d]) auto
  with calls_send show ?case by simp
next
  case (calls_close s s1 cs rs s2)
  then have "state s1 \<in> {GABBLE_BYTESTREAM_STATE_CLOSING, GABBLE_BYTESTREAM_STATE_CLOSED}"
    using close_shuts by blast
  with calls_close.IH show ?case by simp
qed

text \<open>Once a client has called \<open>close\<close>, no later \<open>send\<close> of its is accepted, and no number of
  further calls brings the stream back to \<open>OPEN\<close>.\<close>

lemma no_send_after_close:
  assumes "close s s1" and "calls send close s1 cs rs s2"
  shows "True \<notin> set rs \<and> state s2 \<noteq> GABBLE_BYTESTREAM_STATE_OPEN"
  using calls_shut [OF assms(2) close_shuts [OF assms(1)]] by auto

lemma closed_is_final:
  "calls send close s cs rs s' \<Longrightarrow> state s = GABBLE_BYTESTREAM_STATE_CLOSED \<Longrightarrow> s' = s"
proof (induction rule: calls.induct)
  case (calls_send d s r s1 cs rs s2)
  then have "s1 = s" using send_not_open [of d s r s1] by simp
  with calls_send show ?case by simp
next
  case (calls_close s s1 cs rs s2)
  then have "s1 = s" using close_closed by blast
  with calls_close show ?case by simp
qed simp

end

end
