(* ===== verification/Wocky_Errors.thy ===== *)
theory Wocky_Errors
  imports Wocky_Stanza C_Strings
begin

text \<open>
  Stanza errors (\<open>lib/ext/wocky/wocky/wocky-xmpp-error.c\<close> and the functions of \<open>wocky-stanza.c\<close> and
  \<open>wocky-porter.c\<close> that build and read error replies): the table of core errors with their types and
  legacy codes, the built-in domains of Jingle and stream initiation errors, writing an error into a
  stanza and reading one that a peer sent, whether it uses named conditions or only a numeric code.
  The nicknames of the enumerations are the ones \<open>glib-mkenums\<close> derives from the constants. Domains that
  plugins register are not modelled.
\<close>

section \<open>Error codes\<close>

datatype WockyXmppErrorType =
    WOCKY_XMPP_ERROR_TYPE_CANCEL | WOCKY_XMPP_ERROR_TYPE_CONTINUE | WOCKY_XMPP_ERROR_TYPE_MODIFY
  | WOCKY_XMPP_ERROR_TYPE_AUTH | WOCKY_XMPP_ERROR_TYPE_WAIT

datatype WockyXmppError =
    WOCKY_XMPP_ERROR_UNDEFINED_CONDITION | WOCKY_XMPP_ERROR_REDIRECT | WOCKY_XMPP_ERROR_GONE
  | WOCKY_XMPP_ERROR_BAD_REQUEST | WOCKY_XMPP_ERROR_UNEXPECTED_REQUEST | WOCKY_XMPP_ERROR_JID_MALFORMED
  | WOCKY_XMPP_ERROR_NOT_AUTHORIZED | WOCKY_XMPP_ERROR_PAYMENT_REQUIRED | WOCKY_XMPP_ERROR_FORBIDDEN
  | WOCKY_XMPP_ERROR_ITEM_NOT_FOUND | WOCKY_XMPP_ERROR_RECIPIENT_UNAVAILABLE
  | WOCKY_XMPP_ERROR_REMOTE_SERVER_NOT_FOUND | WOCKY_XMPP_ERROR_NOT_ALLOWED
  | WOCKY_XMPP_ERROR_NOT_ACCEPTABLE | WOCKY_XMPP_ERROR_REGISTRATION_REQUIRED
  | WOCKY_XMPP_ERROR_SUBSCRIPTION_REQUIRED | WOCKY_XMPP_ERROR_REMOTE_SERVER_TIMEOUT
  | WOCKY_XMPP_ERROR_CONFLICT | WOCKY_XMPP_ERROR_INTERNAL_SERVER_ERROR
  | WOCKY_XMPP_ERROR_RESOURCE_CONSTRAINT | WOCKY_XMPP_ERROR_FEATURE_NOT_IMPLEMENTED
  | WOCKY_XMPP_ERROR_SERVICE_UNAVAILABLE | WOCKY_XMPP_ERROR_POLICY_VIOLATION

datatype WockyJingleError =
    WOCKY_JINGLE_ERROR_OUT_OF_ORDER | WOCKY_JINGLE_ERROR_TIE_BREAK
  | WOCKY_JINGLE_ERROR_UNKNOWN_SESSION | WOCKY_JINGLE_ERROR_UNSUPPORTED_INFO

datatype WockySIError = WOCKY_SI_ERROR_NO_VALID_STREAMS | WOCKY_SI_ERROR_BAD_PROFILE

text \<open>The domain and the code of a \<open>GError\<close>.\<close>

datatype stanza_error =
    XMPP_ERROR WockyXmppError | JINGLE_ERROR WockyJingleError | SI_ERROR WockySIError

definition WOCKY_XMPP_NS_STANZAS :: string where
  "WOCKY_XMPP_NS_STANZAS = ''urn:ietf:params:xml:ns:xmpp-stanzas''"

definition WOCKY_XMPP_NS_JINGLE_ERRORS :: string where
  "WOCKY_XMPP_NS_JINGLE_ERRORS = ''urn:xmpp:jingle:errors:1''"

definition WOCKY_XMPP_NS_SI :: string where
  "WOCKY_XMPP_NS_SI = ''http://jabber.org/protocol/si''"

text \<open>The values of an enumeration with their nicknames.\<close>

definition enum_to_nick :: "('a \<times> string) list \<Rightarrow> 'a \<Rightarrow> string" where
  "enum_to_nick vs v = (case find (\<lambda>(w, _). w = v) vs of Some (_, nick) \<Rightarrow> nick | None \<Rightarrow> [])"

definition wocky_enum_from_nick :: "('a \<times> string) list \<Rightarrow> string \<Rightarrow> 'a option" where
  "wocky_enum_from_nick vs nick = map_option fst (find (\<lambda>(_, n). n = nick) vs)"

definition WOCKY_TYPE_XMPP_ERROR_TYPE :: "(WockyXmppErrorType \<times> string) list" where
  "WOCKY_TYPE_XMPP_ERROR_TYPE =
     [(WOCKY_XMPP_ERROR_TYPE_CANCEL, ''cancel''), (WOCKY_XMPP_ERROR_TYPE_CONTINUE, ''continue''),
      (WOCKY_XMPP_ERROR_TYPE_MODIFY, ''modify''), (WOCKY_XMPP_ERROR_TYPE_AUTH, ''auth''),
      (WOCKY_XMPP_ERROR_TYPE_WAIT, ''wait'')]"

text \<open>\<open>xmpp_errors\<close>: the name of the condition, its type and its legacy codes up to the terminating zero.\<close>

definition xmpp_errors :: "(WockyXmppError \<times> string \<times> WockyXmppErrorType \<times> nat list) list" where
  "xmpp_errors =
     [(WOCKY_XMPP_ERROR_UNDEFINED_CONDITION, ''undefined-condition'', WOCKY_XMPP_ERROR_TYPE_CANCEL, [500]),
      (WOCKY_XMPP_ERROR_REDIRECT, ''redirect'', WOCKY_XMPP_ERROR_TYPE_MODIFY, [302]),
      (WOCKY_XMPP_ERROR_GONE, ''gone'', WOCKY_XMPP_ERROR_TYPE_MODIFY, [302]),
      (WOCKY_XMPP_ERROR_BAD_REQUEST, ''bad-request'', WOCKY_XMPP_ERROR_TYPE_MODIFY, [400]),
      (WOCKY_XMPP_ERROR_UNEXPECTED_REQUEST, ''unexpected-request'', WOCKY_XMPP_ERROR_TYPE_WAIT, [400]),
      (WOCKY_XMPP_ERROR_JID_MALFORMED, ''jid-malformed'', WOCKY_XMPP_ERROR_TYPE_MODIFY, [400]),
      (WOCKY_XMPP_ERROR_NOT_AUTHORIZED, ''not-authorized'', WOCKY_XMPP_ERROR_TYPE_AUTH, [401]),
      (WOCKY_XMPP_ERROR_PAYMENT_REQUIRED, ''payment-required'', WOCKY_XMPP_ERROR_TYPE_AUTH, [402]),
      (WOCKY_XMPP_ERROR_FORBIDDEN, ''forbidden'', WOCKY_XMPP_ERROR_TYPE_AUTH, [403]),
      (WOCKY_XMPP_ERROR_ITEM_NOT_FOUND, ''item-not-found'', WOCKY_XMPP_ERROR_TYPE_CANCEL, [404]),
      (WOCKY_XMPP_ERROR_RECIPIENT_UNAVAILABLE, ''recipient-unavailable'', WOCKY_XMPP_ERROR_TYPE_WAIT, [404]),
      (WOCKY_XMPP_ERROR_REMOTE_SERVER_NOT_FOUND, ''remote-server-not-found'', WOCKY_XMPP_ERROR_TYPE_CANCEL, [404]),
      (WOCKY_XMPP_ERROR_NOT_ALLOWED, ''not-allowed'', WOCKY_XMPP_ERROR_TYPE_CANCEL, [405]),
      (WOCKY_XMPP_ERROR_NOT_ACCEPTABLE, ''not-acceptable'', WOCKY_XMPP_ERROR_TYPE_MODIFY, [406]),
      (WOCKY_XMPP_ERROR_REGISTRATION_REQUIRED, ''registration-required'', WOCKY_XMPP_ERROR_TYPE_AUTH, [407]),
      (WOCKY_XMPP_ERROR_SUBSCRIPTION_REQUIRED, ''subscription-required'', WOCKY_XMPP_ERROR_TYPE_AUTH, [407]),
      (WOCKY_XMPP_ERROR_REMOTE_SERVER_TIMEOUT, ''remote-server-timeout'', WOCKY_XMPP_ERROR_TYPE_WAIT, [504, 408]),
      (WOCKY_XMPP_ERROR_CONFLICT, ''conflict'', WOCKY_XMPP_ERROR_TYPE_CANCEL, [409]),
      (WOCKY_XMPP_ERROR_INTERNAL_SERVER_ERROR, ''internal-server-error'', WOCKY_XMPP_ERROR_TYPE_WAIT, [500]),
      (WOCKY_XMPP_ERROR_RESOURCE_CONSTRAINT, ''resource-constraint'', WOCKY_XMPP_ERROR_TYPE_WAIT, [500]),
      (WOCKY_XMPP_ERROR_FEATURE_NOT_IMPLEMENTED, ''feature-not-implemented'', WOCKY_XMPP_ERROR_TYPE_CANCEL, [501]),
      (WOCKY_XMPP_ERROR_SERVICE_UNAVAILABLE, ''service-unavailable'', WOCKY_XMPP_ERROR_TYPE_CANCEL, [503, 502, 510]),
      (WOCKY_XMPP_ERROR_POLICY_VIOLATION, ''policy-violation'', WOCKY_XMPP_ERROR_TYPE_MODIFY, [406])]"

definition WOCKY_TYPE_XMPP_ERROR :: "(WockyXmppError \<times> string) list" where
  "WOCKY_TYPE_XMPP_ERROR = map (\<lambda>(e, nick, _, _). (e, nick)) xmpp_errors"

definition WOCKY_TYPE_JINGLE_ERROR :: "(WockyJingleError \<times> string) list" where
  "WOCKY_TYPE_JINGLE_ERROR =
     [(WOCKY_JINGLE_ERROR_OUT_OF_ORDER, ''out-of-order''), (WOCKY_JINGLE_ERROR_TIE_BREAK, ''tie-break''),
      (WOCKY_JINGLE_ERROR_UNKNOWN_SESSION, ''unknown-session''),
      (WOCKY_JINGLE_ERROR_UNSUPPORTED_INFO, ''unsupported-info'')]"

definition WOCKY_TYPE_SI_ERROR :: "(WockySIError \<times> string) list" where
  "WOCKY_TYPE_SI_ERROR =
     [(WOCKY_SI_ERROR_NO_VALID_STREAMS, ''no-valid-streams''), (WOCKY_SI_ERROR_BAD_PROFILE, ''bad-profile'')]"

definition xmpp_error_spec :: "WockyXmppError \<Rightarrow> WockyXmppErrorType \<times> nat list" where
  "xmpp_error_spec e =
     (case find (\<lambda>(f, _). f = e) xmpp_errors of
        Some (_, _, type, codes) \<Rightarrow> (type, codes)
      | None \<Rightarrow> (WOCKY_XMPP_ERROR_TYPE_CANCEL, []))"

definition wocky_xmpp_error_string :: "WockyXmppError \<Rightarrow> string" where
  "wocky_xmpp_error_string e = enum_to_nick WOCKY_TYPE_XMPP_ERROR e"

text \<open>The core error an error of the built-in domains specialises, and the type that overrides its own.\<close>

fun jingle_error_codes :: "WockyJingleError \<Rightarrow> WockyXmppError \<times> WockyXmppErrorType option" where
  "jingle_error_codes WOCKY_JINGLE_ERROR_OUT_OF_ORDER = (WOCKY_XMPP_ERROR_UNEXPECTED_REQUEST, None)"
| "jingle_error_codes WOCKY_JINGLE_ERROR_TIE_BREAK = (WOCKY_XMPP_ERROR_CONFLICT, None)"
| "jingle_error_codes WOCKY_JINGLE_ERROR_UNKNOWN_SESSION = (WOCKY_XMPP_ERROR_ITEM_NOT_FOUND, None)"
| "jingle_error_codes WOCKY_JINGLE_ERROR_UNSUPPORTED_INFO = (WOCKY_XMPP_ERROR_FEATURE_NOT_IMPLEMENTED, None)"

fun si_error_codes :: "WockySIError \<Rightarrow> WockyXmppError \<times> WockyXmppErrorType option" where
  "si_error_codes WOCKY_SI_ERROR_NO_VALID_STREAMS =
     (WOCKY_XMPP_ERROR_BAD_REQUEST, Some WOCKY_XMPP_ERROR_TYPE_CANCEL)"
| "si_error_codes WOCKY_SI_ERROR_BAD_PROFILE =
     (WOCKY_XMPP_ERROR_BAD_REQUEST, Some WOCKY_XMPP_ERROR_TYPE_MODIFY)"

fun error_codes :: "stanza_error \<Rightarrow> WockyXmppError \<times> WockyXmppErrorType option" where
  "error_codes (XMPP_ERROR e) = (e, None)"
| "error_codes (JINGLE_ERROR e) = jingle_error_codes e"
| "error_codes (SI_ERROR e) = si_error_codes e"

text \<open>The name and the namespace of the element of an application-specific error.\<close>

fun error_special :: "stanza_error \<Rightarrow> (string \<times> string) option" where
  "error_special (XMPP_ERROR e) = None"
| "error_special (JINGLE_ERROR e) = Some (enum_to_nick WOCKY_TYPE_JINGLE_ERROR e, WOCKY_XMPP_NS_JINGLE_ERRORS)"
| "error_special (SI_ERROR e) = Some (enum_to_nick WOCKY_TYPE_SI_ERROR e, WOCKY_XMPP_NS_SI)"

section \<open>Writing an error\<close>

definition error_type :: "stanza_error \<Rightarrow> WockyXmppErrorType" where
  "error_type e =
     (case snd (error_codes e) of Some type \<Rightarrow> type | None \<Rightarrow> fst (xmpp_error_spec (fst (error_codes e))))"

definition error_node :: "cstring \<Rightarrow> stanza_error \<Rightarrow> string \<Rightarrow> WockyNode" where
  "error_node ns e message =
     (let core_error = fst (error_codes e);
          n0 = WockyNode ''error'' None ns [] [];
          n1 = wocky_node_set_attribute n0 ''code'' (show_nat (hd (snd (xmpp_error_spec core_error))));
          n2 = wocky_node_set_attribute n1 ''type'' (enum_to_nick WOCKY_TYPE_XMPP_ERROR_TYPE (error_type e));
          n3 = wocky_node_add_child_with_content_ns n2 (wocky_xmpp_error_string core_error) None
                 (Some WOCKY_XMPP_NS_STANZAS) [];
          n4 = (case error_special e of
                  None \<Rightarrow> n3
                | Some (name, domain) \<Rightarrow> wocky_node_add_child_with_content_ns n3 name None (Some domain) [])
      in if message = [] then n4
         else wocky_node_add_child_with_content_ns n4 ''text'' (Some message) (Some WOCKY_XMPP_NS_STANZAS) [])"

definition wocky_stanza_error_to_node :: "stanza_error \<Rightarrow> string \<Rightarrow> WockyNode \<Rightarrow> WockyNode" where
  "wocky_stanza_error_to_node e message parent_node =
     add_child_node parent_node (error_node (node_ns parent_node) e message)"

text \<open>The error reply to a request repeats its first child.\<close>

fun prepend_child_node :: "WockyNode \<Rightarrow> WockyNode \<Rightarrow> WockyNode" where
  "prepend_child_node (WockyNode n c ns attrs children) child = WockyNode n c ns attrs (child # children)"

definition wocky_stanza_build_iq_error :: "WockyNode \<Rightarrow> WockyNodeBuildTag list \<Rightarrow> WockyNode option" where
  "wocky_stanza_build_iq_error iq tags =
     map_option
       (\<lambda>reply. case node_children iq of [] \<Rightarrow> reply | query # _ \<Rightarrow> prepend_child_node reply query)
       (create_iq_reply iq WOCKY_STANZA_SUB_TYPE_ERROR tags)"

text \<open>The stanza \<open>wocky_porter_send_iq_gerror\<close> sends; there is none when the request has no id.\<close>

definition iq_gerror_stanza :: "WockyNode \<Rightarrow> stanza_error \<Rightarrow> string \<Rightarrow> WockyNode option" where
  "iq_gerror_stanza iq e message =
     map_option (wocky_stanza_error_to_node e message) (wocky_stanza_build_iq_error iq [])"

section \<open>Reading an error\<close>

definition xmpp_error_from_code :: "WockyNode \<Rightarrow> WockyXmppErrorType \<times> WockyXmppError" where
  "xmpp_error_from_code error =
     (case wocky_node_get_attribute error ''code'' of
        None \<Rightarrow> (WOCKY_XMPP_ERROR_TYPE_CANCEL, WOCKY_XMPP_ERROR_UNDEFINED_CONDITION)
      | Some code \<Rightarrow>
          (case find (\<lambda>(_, _, _, codes). atoi code \<in> int ` set codes) (tl xmpp_errors) of
             Some (e, _, type, _) \<Rightarrow> (type, e)
           | None \<Rightarrow> (WOCKY_XMPP_ERROR_TYPE_CANCEL, WOCKY_XMPP_ERROR_UNDEFINED_CONDITION)))"

text \<open>\<open>xmpp_error_find_domain\<close> and the lookup of the element's name in the domain.\<close>

definition specialized_error :: "WockyNode \<Rightarrow> stanza_error option" where
  "specialized_error child =
     (if node_ns child = Some WOCKY_XMPP_NS_JINGLE_ERRORS
      then map_option JINGLE_ERROR (wocky_enum_from_nick WOCKY_TYPE_JINGLE_ERROR (node_name child))
      else if node_ns child = Some WOCKY_XMPP_NS_SI
      then map_option SI_ERROR (wocky_enum_from_nick WOCKY_TYPE_SI_ERROR (node_name child))
      else None)"

record extracted_error =
  ex_type :: WockyXmppErrorType
  ex_core :: WockyXmppError
  ex_message :: string
  ex_specialized :: "stanza_error option"
  ex_specialized_node :: "WockyNode option"

text \<open>The loop over the children: message, core error, application-specific element and error so far.\<close>

type_synonym extract_state =
  "cstring \<times> WockyXmppError option \<times> WockyNode option \<times> stanza_error option"

fun extract_children :: "WockyNode list \<Rightarrow> extract_state \<Rightarrow> extract_state" where
  "extract_children [] st = st"
| "extract_children (child # l) (message, core, special_node, special) =
     extract_children l
       (if node_ns child = Some WOCKY_XMPP_NS_STANZAS then
          if node_name child = ''text'' then (node_content child, core, special_node, special)
          else if core = None
          then (message, wocky_enum_from_nick WOCKY_TYPE_XMPP_ERROR (node_name child), special_node, special)
          else (message, core, special_node, special)
        else if special_node = None then (message, core, Some child, specialized_error child)
        else (message, core, special_node, special))"

text \<open>\<open>None\<close> when the node is not called \<open>error\<close>: the function returns at once.\<close>

definition wocky_xmpp_error_extract :: "WockyNode \<Rightarrow> extracted_error option" where
  "wocky_xmpp_error_extract error =
     (if node_name error \<noteq> ''error'' then None
      else
        let valid_type = Option.bind (wocky_node_get_attribute error ''type'')
                           (wocky_enum_from_nick WOCKY_TYPE_XMPP_ERROR_TYPE);
            (message, core, special_node, special) =
              extract_children (node_children error) (None, None, None, None);
            (type0, core_code) =
              (case core of
                 Some c \<Rightarrow> (WOCKY_XMPP_ERROR_TYPE_CANCEL, c)
               | None \<Rightarrow> xmpp_error_from_code error)
        in Some \<lparr>ex_type = (case valid_type of Some type \<Rightarrow> type | None \<Rightarrow> type0),
                 ex_core = core_code,
                 ex_message = (case message of None \<Rightarrow> [] | Some m \<Rightarrow> m),
                 ex_specialized = special,
                 ex_specialized_node = special_node\<rparr>)"

text \<open>\<open>None\<close>: the stanza is not an error.\<close>

definition wocky_stanza_extract_errors :: "WockyNode \<Rightarrow> extracted_error option" where
  "wocky_stanza_extract_errors stanza =
     (if snd (wocky_stanza_get_type_info stanza) \<noteq> WOCKY_STANZA_SUB_TYPE_ERROR then None
      else case wocky_node_get_child stanza ''error'' of
        None \<Rightarrow>
          Some \<lparr>ex_type = WOCKY_XMPP_ERROR_TYPE_CANCEL, ex_core = WOCKY_XMPP_ERROR_UNDEFINED_CONDITION,
                ex_message = ''stanza had type='' @ [CHR 0x27] @ ''error'' @ [CHR 0x27] @ '' but no <error/> node'',
                ex_specialized = None, ex_specialized_node = None\<rparr>
      | Some error \<Rightarrow> wocky_xmpp_error_extract error)"

section \<open>Reading back what was written\<close>

lemmas error_enum_defs =
  WOCKY_TYPE_XMPP_ERROR_TYPE_def WOCKY_TYPE_XMPP_ERROR_def WOCKY_TYPE_JINGLE_ERROR_def
  WOCKY_TYPE_SI_ERROR_def xmpp_errors_def enum_to_nick_def wocky_enum_from_nick_def

lemma nick_roundtrip [simp]:
  "wocky_enum_from_nick WOCKY_TYPE_XMPP_ERROR_TYPE (enum_to_nick WOCKY_TYPE_XMPP_ERROR_TYPE t) = Some t"
  "wocky_enum_from_nick WOCKY_TYPE_XMPP_ERROR (enum_to_nick WOCKY_TYPE_XMPP_ERROR e) = Some e"
  "wocky_enum_from_nick WOCKY_TYPE_JINGLE_ERROR (enum_to_nick WOCKY_TYPE_JINGLE_ERROR j) = Some j"
  "wocky_enum_from_nick WOCKY_TYPE_SI_ERROR (enum_to_nick WOCKY_TYPE_SI_ERROR s) = Some s"
  subgoal by (cases t) (simp_all add: error_enum_defs)
  subgoal by (cases e) (simp_all add: error_enum_defs)
  subgoal by (cases j) (simp_all add: error_enum_defs)
  subgoal by (cases s) (simp_all add: error_enum_defs)
  done

lemma core_nick_not_text [simp]: "enum_to_nick WOCKY_TYPE_XMPP_ERROR e \<noteq> ''text''"
  by (cases e) (simp_all add: error_enum_defs)

lemma error_namespaces_differ [simp]:
  "WOCKY_XMPP_NS_JINGLE_ERRORS \<noteq> WOCKY_XMPP_NS_STANZAS" "WOCKY_XMPP_NS_SI \<noteq> WOCKY_XMPP_NS_STANZAS"
  "WOCKY_XMPP_NS_SI \<noteq> WOCKY_XMPP_NS_JINGLE_ERRORS"
  by (simp_all add: WOCKY_XMPP_NS_JINGLE_ERRORS_def WOCKY_XMPP_NS_STANZAS_def WOCKY_XMPP_NS_SI_def)

lemma node_of_content [simp]:
  "node_name (wocky_node_add_child_with_content_ns node name content ns sub) = node_name node"
  "node_attributes (wocky_node_add_child_with_content_ns node name content ns sub) = node_attributes node"
  "node_ns (wocky_node_add_child_with_content_ns node name content ns sub) = node_ns node"
  "node_children (wocky_node_add_child_with_content_ns node name content (Some x) sub) =
     node_children node @ [WockyNode name content (Some x) [] sub]"
  by (cases node; simp)+

definition special_node :: "stanza_error \<Rightarrow> WockyNode option" where
  "special_node e = map_option (\<lambda>(name, ns). WockyNode name None (Some ns) [] []) (error_special e)"

lemma error_node_children:
  "node_children (error_node ns e message) =
     WockyNode (enum_to_nick WOCKY_TYPE_XMPP_ERROR (fst (error_codes e))) None (Some WOCKY_XMPP_NS_STANZAS) [] []
     # (case special_node e of None \<Rightarrow> [] | Some n \<Rightarrow> [n])
     @ (if message = [] then [] else [WockyNode ''text'' (Some message) (Some WOCKY_XMPP_NS_STANZAS) [] []])"
  by (auto simp: error_node_def special_node_def Let_def wocky_xmpp_error_string_def split: option.split)

lemma error_node_shape:
  "node_name (error_node ns e message) = ''error''"
  "wocky_node_get_attribute (error_node ns e message) ''type'' =
     Some (enum_to_nick WOCKY_TYPE_XMPP_ERROR_TYPE (error_type e))"
  by (auto simp: error_node_def Let_def wocky_node_defs attribute_compare_def split: option.split)

lemma extract_error_node:
  "wocky_xmpp_error_extract (error_node ns e message) =
     Some \<lparr>ex_type = error_type e, ex_core = fst (error_codes e), ex_message = message,
           ex_specialized = (if error_special e = None then None else Some e),
           ex_specialized_node = special_node e\<rparr>"
  by (cases e) (auto simp: wocky_xmpp_error_extract_def error_node_shape error_node_children special_node_def
      specialized_error_def Let_def)

lemma node_of_prepended [simp]:
  "node_children (prepend_child_node node child) = child # node_children node"
  "node_attributes (prepend_child_node node child) = node_attributes node"
  "node_ns (prepend_child_node node child) = node_ns node"
  "node_name (prepend_child_node node child) = node_name node"
  by (cases node; simp)+

lemma attribute_of_prepended [simp]:
  "wocky_node_get_attribute (prepend_child_node node child) k = wocky_node_get_attribute node k"
  by (simp add: wocky_node_get_attribute_def wocky_node_get_attribute_ns_def)

text \<open>The stanza type and the attributes of a reply.\<close>

lemma iq_error_reply:
  assumes "create_iq_reply iq WOCKY_STANZA_SUB_TYPE_ERROR [] = Some reply"
  shows "node_children reply = []" "node_name reply = ''iq''" "node_ns reply = Some WOCKY_XMPP_NS_JABBER_CLIENT"
    "wocky_node_get_attribute reply ''type'' = Some ''error''"
    "wocky_node_get_attribute reply ''id'' = wocky_node_get_attribute iq ''id''"
    "wocky_node_get_attribute reply ''to'' = wocky_node_get_attribute iq ''from''"
    "wocky_node_get_attribute reply ''from'' = wocky_node_get_attribute iq ''to''"
  using assms
  by (auto simp: create_iq_reply_def stanza_build_defs Let_def get_set_attribute set_attribute_plain
      split: if_splits option.splits)

lemma error_reply_built:
  assumes "fst (wocky_stanza_get_type_info iq) = WOCKY_STANZA_TYPE_IQ"
    and "snd (wocky_stanza_get_type_info iq) \<in> {WOCKY_STANZA_SUB_TYPE_GET, WOCKY_STANZA_SUB_TYPE_SET}"
    and "wocky_node_get_attribute iq ''id'' \<noteq> None"
  shows "\<exists>reply. create_iq_reply iq WOCKY_STANZA_SUB_TYPE_ERROR [] = Some reply"
  using assms by (auto simp: create_iq_reply_def stanza_build_defs Let_def)

lemma error_subtype [simp]:
  "wocky_node_get_attribute s ''type'' = Some ''error'' \<Longrightarrow>
     snd (wocky_stanza_get_type_info s) = WOCKY_STANZA_SUB_TYPE_ERROR"
  by (simp add: stanza_type_defs)

section \<open>Properties\<close>

text \<open>C12. An error reply tells the peer which error it was: the reply built for a request (an IQ of type get or
  set with an id, whose payload is not itself called error) is addressed to the sender of the request,
  carries its id, and reading it gives back the error, core or application-specific, its type and its
  message.\<close>

theorem stanza_error_roundtrip:
  assumes "fst (wocky_stanza_get_type_info iq) = WOCKY_STANZA_TYPE_IQ"
    and "snd (wocky_stanza_get_type_info iq) \<in> {WOCKY_STANZA_SUB_TYPE_GET, WOCKY_STANZA_SUB_TYPE_SET}"
    and "wocky_node_get_attribute iq ''id'' \<noteq> None"
    and "node_children iq = [] \<or> node_name (hd (node_children iq)) \<noteq> ''error''"
  shows "\<exists>reply. iq_gerror_stanza iq e message = Some reply
    \<and> wocky_stanza_extract_errors reply =
        Some \<lparr>ex_type = error_type e, ex_core = fst (error_codes e), ex_message = message,
              ex_specialized = (if error_special e = None then None else Some e),
              ex_specialized_node = special_node e\<rparr>
    \<and> wocky_node_get_attribute reply ''id'' = wocky_node_get_attribute iq ''id''
    \<and> wocky_node_get_attribute reply ''to'' = wocky_node_get_attribute iq ''from''"
proof -
  obtain reply where r: "create_iq_reply iq WOCKY_STANZA_SUB_TYPE_ERROR [] = Some reply"
    using error_reply_built assms(1-3) by blast
  note shape = iq_error_reply [OF r]
  show ?thesis
  proof (cases "node_children iq")
    case Nil
    with r shape show ?thesis
      by (simp add: iq_gerror_stanza_def wocky_stanza_build_iq_error_def wocky_stanza_error_to_node_def
          wocky_stanza_extract_errors_def wocky_node_get_child_def wocky_node_get_child_ns_def
          node_compare_child_def error_node_shape extract_error_node)
  next
    case (Cons query rest)
    with r shape assms(4) show ?thesis
      by (simp add: iq_gerror_stanza_def wocky_stanza_build_iq_error_def wocky_stanza_error_to_node_def
          wocky_stanza_extract_errors_def wocky_node_get_child_def wocky_node_get_child_ns_def
          node_compare_child_def error_node_shape extract_error_node)
  qed
qed

definition example_error_request :: WockyNode where
  "example_error_request =
     WockyNode ''iq'' None (Some WOCKY_XMPP_NS_JABBER_CLIENT)
       [\<lparr>attr_key = ''type'', attr_value = ''get'', attr_ns = None\<rparr>,
        \<lparr>attr_key = ''id'', attr_value = ''7'', attr_ns = None\<rparr>,
        \<lparr>attr_key = ''from'', attr_value = ''a@b'', attr_ns = None\<rparr>]
       [WockyNode ''query'' None None [] []]"

theorem stanza_error_roundtrip_witness:
  "\<exists>reply. iq_gerror_stanza example_error_request (SI_ERROR WOCKY_SI_ERROR_BAD_PROFILE) ''no'' = Some reply
    \<and> wocky_stanza_extract_errors reply =
        Some \<lparr>ex_type = WOCKY_XMPP_ERROR_TYPE_MODIFY, ex_core = WOCKY_XMPP_ERROR_BAD_REQUEST, ex_message = ''no'',
              ex_specialized = Some (SI_ERROR WOCKY_SI_ERROR_BAD_PROFILE),
              ex_specialized_node = Some (WockyNode ''bad-profile'' None (Some WOCKY_XMPP_NS_SI) [] [])\<rparr>
    \<and> wocky_node_get_attribute reply ''id'' = Some ''7'' \<and> wocky_node_get_attribute reply ''to'' = Some ''a@b''"
proof -
  have a: "wocky_node_get_attribute example_error_request ''id'' = Some ''7''"
    "wocky_node_get_attribute example_error_request ''from'' = Some ''a@b''"
    "fst (wocky_stanza_get_type_info example_error_request) = WOCKY_STANZA_TYPE_IQ"
    "snd (wocky_stanza_get_type_info example_error_request) = WOCKY_STANZA_SUB_TYPE_GET"
    "node_children example_error_request = [WockyNode ''query'' None None [] []]"
    by (simp_all add: example_error_request_def wocky_node_defs stanza_type_defs WOCKY_XMPP_NS_JABBER_CLIENT_def)
  show ?thesis
    using stanza_error_roundtrip
      [where iq = example_error_request and e = "SI_ERROR WOCKY_SI_ERROR_BAD_PROFILE" and message = "''no''"]
    by (simp add: a error_type_def special_node_def error_enum_defs)
qed

text \<open>A request whose payload is called error defeats the reading: the copy of the payload comes first in
  the reply and is taken for the error.\<close>

theorem error_payload_misread:
  "iq_gerror_stanza (WockyNode ''iq'' None (Some WOCKY_XMPP_NS_JABBER_CLIENT)
       [\<lparr>attr_key = ''type'', attr_value = ''get'', attr_ns = None\<rparr>,
        \<lparr>attr_key = ''id'', attr_value = ''7'', attr_ns = None\<rparr>]
       [WockyNode ''error'' None None [] []]) (XMPP_ERROR WOCKY_XMPP_ERROR_FORBIDDEN) [] = Some reply \<Longrightarrow>
   map_option ex_core (wocky_stanza_extract_errors reply) = Some WOCKY_XMPP_ERROR_UNDEFINED_CONDITION"
  by (auto simp: iq_gerror_stanza_def wocky_stanza_build_iq_error_def wocky_stanza_error_to_node_def
      wocky_stanza_extract_errors_def wocky_node_get_child_def wocky_node_get_child_ns_def
      node_compare_child_def iq_error_reply(4) iq_error_reply(1)
      wocky_xmpp_error_extract_def xmpp_error_from_code_def)

text \<open>A legacy code is read as the first error of the table that has it; 500 is an internal server error, and
  unknown or missing codes are an undefined condition.\<close>

lemma legacy_codes:
  "xmpp_error_from_code (WockyNode ''error'' c ns [\<lparr>attr_key = ''code'', attr_value = ''500'', attr_ns = None\<rparr>] [])
     = (WOCKY_XMPP_ERROR_TYPE_WAIT, WOCKY_XMPP_ERROR_INTERNAL_SERVER_ERROR)"
  "xmpp_error_from_code (WockyNode ''error'' c ns [] [])
     = (WOCKY_XMPP_ERROR_TYPE_CANCEL, WOCKY_XMPP_ERROR_UNDEFINED_CONDITION)"
  by (simp_all add: xmpp_error_from_code_def wocky_node_defs atoi_def strtol_def is_space_def is_digit_def
      digits_value_def LONG_MAX_def xmpp_errors_def)

end
