(* ===== verification/Data_Forms.thy ===== *)
theory Data_Forms
  imports Wocky_Errors
begin

text \<open>
  Data forms (\<open>lib/ext/wocky/wocky/wocky-data-form.c\<close>): forms read from a stanza, filled in and submitted,
  results of a submission, and forms attached to service discovery replies. The hash table \<open>fields\<close> of
  a form maps a name to the last field of \<open>fields_list\<close> with that name and is not kept twice. A \<open>GStrv\<close>
  is a list of strings; \<open>NULL\<close> is \<open>None\<close>, which is different from the empty vector. A \<open>NULL\<close> key
  given to a hash table of strings and a failed assertion are the result \<open>None\<close>.
\<close>

section \<open>Fields and forms\<close>

datatype WockyDataFormFieldType =
    WOCKY_DATA_FORM_FIELD_TYPE_UNSPECIFIED | WOCKY_DATA_FORM_FIELD_TYPE_BOOLEAN
  | WOCKY_DATA_FORM_FIELD_TYPE_FIXED | WOCKY_DATA_FORM_FIELD_TYPE_HIDDEN
  | WOCKY_DATA_FORM_FIELD_TYPE_JID_MULTI | WOCKY_DATA_FORM_FIELD_TYPE_JID_SINGLE
  | WOCKY_DATA_FORM_FIELD_TYPE_LIST_MULTI | WOCKY_DATA_FORM_FIELD_TYPE_LIST_SINGLE
  | WOCKY_DATA_FORM_FIELD_TYPE_TEXT_MULTI | WOCKY_DATA_FORM_FIELD_TYPE_TEXT_PRIVATE
  | WOCKY_DATA_FORM_FIELD_TYPE_TEXT_SINGLE

text \<open>\<open>WOCKY_DATA_FORM_FIELD_TYPE_UNSPECIFIED\<close> is left out of the nicknames.\<close>

definition WOCKY_TYPE_DATA_FORM_FIELD_TYPE :: "(WockyDataFormFieldType \<times> string) list" where
  "WOCKY_TYPE_DATA_FORM_FIELD_TYPE =
     [(WOCKY_DATA_FORM_FIELD_TYPE_BOOLEAN, ''boolean''),
      (WOCKY_DATA_FORM_FIELD_TYPE_FIXED, ''fixed''),
      (WOCKY_DATA_FORM_FIELD_TYPE_HIDDEN, ''hidden''),
      (WOCKY_DATA_FORM_FIELD_TYPE_JID_MULTI, ''jid-multi''),
      (WOCKY_DATA_FORM_FIELD_TYPE_JID_SINGLE, ''jid-single''),
      (WOCKY_DATA_FORM_FIELD_TYPE_LIST_MULTI, ''list-multi''),
      (WOCKY_DATA_FORM_FIELD_TYPE_LIST_SINGLE, ''list-single''),
      (WOCKY_DATA_FORM_FIELD_TYPE_TEXT_MULTI, ''text-multi''),
      (WOCKY_DATA_FORM_FIELD_TYPE_TEXT_PRIVATE, ''text-private''),
      (WOCKY_DATA_FORM_FIELD_TYPE_TEXT_SINGLE, ''text-single'')]"

definition type_to_str :: "WockyDataFormFieldType \<Rightarrow> string" where
  "type_to_str type = enum_to_nick WOCKY_TYPE_DATA_FORM_FIELD_TYPE type"

datatype form_value = FV_boolean bool | FV_string cstring | FV_strv "string list"

record WockyDataFormFieldOption =
  option_label :: cstring
  option_value :: string

record WockyDataFormField =
  df_type :: WockyDataFormFieldType
  df_var :: cstring
  df_label :: cstring
  df_desc :: cstring
  df_required :: bool
  df_default_value :: "form_value option"
  df_raw_value_contents :: "string list option"
  df_value :: "form_value option"
  df_options :: "WockyDataFormFieldOption list"

definition wocky_data_form_field_new ::
    "WockyDataFormFieldType \<Rightarrow> cstring \<Rightarrow> cstring \<Rightarrow> cstring \<Rightarrow> bool \<Rightarrow> form_value option \<Rightarrow>
     string list option \<Rightarrow> form_value option \<Rightarrow> WockyDataFormFieldOption list \<Rightarrow> WockyDataFormField" where
  "wocky_data_form_field_new type var label desc required default_value raw_value_contents val options =
     \<lparr>df_type = type, df_var = var, df_label = label, df_desc = desc, df_required = required,
      df_default_value = default_value, df_raw_value_contents = raw_value_contents, df_value = val,
      df_options = options\<rparr>"

record WockyDataForm =
  form_title :: cstring
  form_instructions :: cstring
  fields_list :: "WockyDataFormField list"
  reported :: "(string \<times> WockyDataFormField) list"
  results :: "WockyDataFormField list list"

definition WOCKY_XMPP_NS_DATA :: string where
  "WOCKY_XMPP_NS_DATA = ''jabber:x:data''"

text \<open>\<open>g_hash_table_lookup (self->fields, ...)\<close>.\<close>

definition form_field :: "WockyDataForm \<Rightarrow> string \<Rightarrow> WockyDataFormField option" where
  "form_field form var = find (\<lambda>f. df_var f = Some var) (rev (fields_list form))"

section \<open>Reading a form\<close>

definition extract_options_list :: "WockyNode \<Rightarrow> WockyDataFormFieldOption list" where
  "extract_options_list node =
     List.map_filter (\<lambda>option_node.
       case wocky_node_get_content_from_child option_node ''value'' of
         None \<Rightarrow> None
       | Some v \<Rightarrow> Some \<lparr>option_label = wocky_node_get_attribute option_node ''label'', option_value = v\<rparr>)
       (wocky_node_iter node (Some ''option'') None)"

definition extract_value_list :: "WockyNode \<Rightarrow> string list" where
  "extract_value_list node = List.map_filter node_content (wocky_node_iter node (Some ''value'') None)"

text \<open>\<open>g_strdupv\<close> of the vector with the one given string: it ends at a \<open>NULL\<close>.\<close>

definition strv_of :: "cstring \<Rightarrow> string list" where
  "strv_of s = (case s of None \<Rightarrow> [] | Some x \<Rightarrow> [x])"

text \<open>The value and \<open>raw_value_contents\<close>.\<close>

definition get_field_value ::
    "WockyDataFormFieldType \<Rightarrow> WockyNode \<Rightarrow> form_value option \<times> string list option" where
  "get_field_value type field =
     (if type = WOCKY_DATA_FORM_FIELD_TYPE_UNSPECIFIED then (None, None)
      else case wocky_node_get_child field ''value'' of
        None \<Rightarrow> (None, None)
      | Some node \<Rightarrow>
          let val = node_content node
          in (case type of
                WOCKY_DATA_FORM_FIELD_TYPE_BOOLEAN \<Rightarrow>
                  if val = Some ''true'' \<or> val = Some ''1'' then (Some (FV_boolean True), Some (strv_of val))
                  else if val = Some ''false'' \<or> val = Some ''0'' then (Some (FV_boolean False), Some (strv_of val))
                  else (None, None)
              | WOCKY_DATA_FORM_FIELD_TYPE_JID_MULTI \<Rightarrow>
                  (Some (FV_strv (extract_value_list field)), Some (extract_value_list field))
              | WOCKY_DATA_FORM_FIELD_TYPE_TEXT_MULTI \<Rightarrow>
                  (Some (FV_strv (extract_value_list field)), Some (extract_value_list field))
              | WOCKY_DATA_FORM_FIELD_TYPE_LIST_MULTI \<Rightarrow>
                  (Some (FV_strv (extract_value_list field)), Some (extract_value_list field))
              | _ \<Rightarrow> (Some (FV_string val), Some (strv_of val))))"

definition create_field ::
    "WockyNode \<Rightarrow> cstring \<Rightarrow> WockyDataFormFieldType \<Rightarrow> cstring \<Rightarrow> cstring \<Rightarrow> bool \<Rightarrow> WockyDataFormField option" where
  "create_field field_node var type label desc required =
     (let is_list = (type = WOCKY_DATA_FORM_FIELD_TYPE_LIST_MULTI \<or> type = WOCKY_DATA_FORM_FIELD_TYPE_LIST_SINGLE);
          options = (if is_list then extract_options_list field_node else [])
      in if is_list \<and> options = [] then None
         else
           let (default_value, raw_value_contents) = get_field_value type field_node
           in Some (wocky_data_form_field_new type var label desc required default_value
                raw_value_contents None options))"

definition extract_var_type_label ::
    "WockyNode \<Rightarrow> (cstring \<times> WockyDataFormFieldType \<times> cstring) option" where
  "extract_var_type_label node =
     (if node_name node \<noteq> ''field'' then None
      else
        case (case wocky_node_get_attribute node ''type'' of
                None \<Rightarrow>
                  Some (if 2 \<le> length (wocky_node_iter node (Some ''value'') None)
                        then WOCKY_DATA_FORM_FIELD_TYPE_TEXT_MULTI else WOCKY_DATA_FORM_FIELD_TYPE_TEXT_SINGLE)
              | Some tmp \<Rightarrow> wocky_enum_from_nick WOCKY_TYPE_DATA_FORM_FIELD_TYPE tmp) of
          None \<Rightarrow> None
        | Some type \<Rightarrow>
            let var = wocky_node_get_attribute node ''var''
            in if var = None \<and> type \<noteq> WOCKY_DATA_FORM_FIELD_TYPE_FIXED then None
               else Some (var, type, wocky_node_get_attribute node ''label''))"

definition data_form_parse_form_field :: "WockyNode \<Rightarrow> WockyDataFormField option" where
  "data_form_parse_form_field field_node =
     (case extract_var_type_label field_node of
        None \<Rightarrow> None
      | Some (var, type, label) \<Rightarrow>
          create_field field_node var type label (wocky_node_get_content_from_child field_node ''desc'')
            (wocky_node_get_child field_node ''required'' \<noteq> None))"

definition data_form_add_field :: "WockyDataFormField \<Rightarrow> bool \<Rightarrow> WockyDataForm \<Rightarrow> WockyDataForm" where
  "data_form_add_field field prepend form =
     form\<lparr>fields_list := (if prepend then field # fields_list form else fields_list form @ [field])\<rparr>"

datatype WockyDataFormError = WOCKY_DATA_FORM_ERROR_NOT_FORM | WOCKY_DATA_FORM_ERROR_WRONG_TYPE

definition wocky_data_form_init :: "cstring \<Rightarrow> cstring \<Rightarrow> WockyDataForm" where
  "wocky_data_form_init title instructions =
     \<lparr>form_title = title, form_instructions = instructions, fields_list = [], reported = [], results = []\<rparr>"

definition wocky_node_matches :: "WockyNode \<Rightarrow> string \<Rightarrow> string \<Rightarrow> bool" where
  "wocky_node_matches node name ns \<longleftrightarrow> node_name node = name \<and> node_ns node = Some ns"

text \<open>The fields are prepended one after the other, and the list is reversed in the end.\<close>

definition wocky_data_form_new_from_node :: "WockyNode \<Rightarrow> WockyDataFormError + WockyDataForm" where
  "wocky_data_form_new_from_node x =
     (if \<not> wocky_node_matches x ''x'' WOCKY_XMPP_NS_DATA then Inl WOCKY_DATA_FORM_ERROR_NOT_FORM
      else
        let type = wocky_node_get_attribute x ''type''
        in if type \<noteq> Some ''form'' \<and> type \<noteq> Some ''result'' then Inl WOCKY_DATA_FORM_ERROR_WRONG_TYPE
           else
             let form = wocky_data_form_init (wocky_node_get_content_from_child x ''title'')
                          (wocky_node_get_content_from_child x ''instructions'');
                 form1 = fold (\<lambda>node f.
                     case data_form_parse_form_field node of
                       None \<Rightarrow> f
                     | Some field \<Rightarrow> data_form_add_field field True f)
                   (wocky_node_iter x (Some ''field'') None) form
             in Inr (form1\<lparr>fields_list := rev (fields_list form1)\<rparr>))"

definition wocky_data_form_new_from_form :: "WockyNode \<Rightarrow> WockyDataFormError + WockyDataForm" where
  "wocky_data_form_new_from_form root =
     (case wocky_node_get_child_ns root (Some ''x'') (Some WOCKY_XMPP_NS_DATA) of
        None \<Rightarrow> Inl WOCKY_DATA_FORM_ERROR_NOT_FORM
      | Some x \<Rightarrow> wocky_data_form_new_from_node x)"

section \<open>Filling in and submitting\<close>

text \<open>Returns whether the type was set.\<close>

definition wocky_data_form_set_type :: "string \<Rightarrow> WockyDataForm \<Rightarrow> bool \<times> WockyDataForm" where
  "wocky_data_form_set_type form_type form =
     (case form_field form ''FORM_TYPE'' of
        Some _ \<Rightarrow> (False, form)
      | None \<Rightarrow>
          (True, data_form_add_field
             (wocky_data_form_field_new WOCKY_DATA_FORM_FIELD_TYPE_HIDDEN (Some ''FORM_TYPE'') None None False
                (Some (FV_string (Some form_type))) (Some [form_type]) (Some (FV_string (Some form_type))) [])
             False form))"

fun raw_contents_of :: "form_value \<Rightarrow> string list" where
  "raw_contents_of (FV_string s) = strv_of s"
| "raw_contents_of (FV_boolean b) = [if b then ''1'' else ''0'']"
| "raw_contents_of (FV_strv vs) = vs"

text \<open>The field found by its name is changed in place.\<close>

primrec map_last :: "('a \<Rightarrow> bool) \<Rightarrow> ('a \<Rightarrow> 'a) \<Rightarrow> 'a list \<Rightarrow> 'a list" where
  "map_last P f [] = []"
| "map_last P f (x # xs) =
     (if P x \<and> \<not> list_ex P xs then f x # xs else x # map_last P f xs)"

definition data_form_set_value ::
    "string \<Rightarrow> form_value \<Rightarrow> bool \<Rightarrow> WockyDataForm \<Rightarrow> bool \<times> WockyDataForm" where
  "data_form_set_value field_name val create_if_missing form =
     (let set_value = (\<lambda>f. f\<lparr>fields_list := map_last (\<lambda>field. df_var field = Some field_name)
            (\<lambda>field. field\<lparr>df_value := Some val, df_raw_value_contents := Some (raw_contents_of val)\<rparr>)
            (fields_list f)\<rparr>)
      in case form_field form field_name of
           Some _ \<Rightarrow> (True, set_value form)
         | None \<Rightarrow>
             if create_if_missing
             then (True, set_value (data_form_add_field
                    (wocky_data_form_field_new WOCKY_DATA_FORM_FIELD_TYPE_UNSPECIFIED (Some field_name) None
                       None False None None None []) False form))
             else (False, form))"

definition wocky_data_form_set_boolean :: "string \<Rightarrow> bool \<Rightarrow> bool \<Rightarrow> WockyDataForm \<Rightarrow> bool \<times> WockyDataForm" where
  "wocky_data_form_set_boolean name b = data_form_set_value name (FV_boolean b)"

definition wocky_data_form_set_string :: "string \<Rightarrow> cstring \<Rightarrow> bool \<Rightarrow> WockyDataForm \<Rightarrow> bool \<times> WockyDataForm" where
  "wocky_data_form_set_string name s = data_form_set_value name (FV_string s)"

definition wocky_data_form_set_strv :: "string \<Rightarrow> string list \<Rightarrow> bool \<Rightarrow> WockyDataForm \<Rightarrow> bool \<times> WockyDataForm" where
  "wocky_data_form_set_strv name vs = data_form_set_value name (FV_strv vs)"

text \<open>A child \<open>value\<close> for every string, under a new child \<open>field\<close> of the given node.\<close>

definition form_field_node :: "cstring \<Rightarrow> string \<Rightarrow> WockyDataFormFieldType \<Rightarrow> cstring list \<Rightarrow> WockyNode" where
  "form_field_node ns var type vals =
     (let node = wocky_node_set_attribute (WockyNode ''field'' None ns [] []) ''var'' var;
          node1 = (if type \<noteq> WOCKY_DATA_FORM_FIELD_TYPE_UNSPECIFIED
                   then wocky_node_set_attribute node ''type'' (type_to_str type) else node)
      in fold (\<lambda>v n. wocky_node_add_child_with_content_ns n ''value'' v None []) vals node1)"

fun value_contents :: "form_value \<Rightarrow> cstring list" where
  "value_contents (FV_boolean b) = [Some (if b then ''1'' else ''0'')]"
| "value_contents (FV_string s) = [s]"
| "value_contents (FV_strv vs) = map Some vs"

definition add_field_to_node :: "WockyDataFormField \<Rightarrow> WockyNode \<Rightarrow> WockyNode" where
  "add_field_to_node field node =
     (case df_var field of
        None \<Rightarrow> node
      | Some var \<Rightarrow>
          (case (if df_value field = None \<and> df_type field = WOCKY_DATA_FORM_FIELD_TYPE_HIDDEN
                 then df_default_value field else df_value field) of
             None \<Rightarrow> node
           | Some val \<Rightarrow>
               add_child_node node (form_field_node (node_ns node) var (df_type field) (value_contents val))))"

definition form_node :: "string \<Rightarrow> WockyNode" where
  "form_node type =
     wocky_node_set_attribute (WockyNode ''x'' None (Some WOCKY_XMPP_NS_DATA) [] []) ''type'' type"

definition wocky_data_form_submit :: "WockyDataForm \<Rightarrow> WockyNode \<Rightarrow> WockyNode" where
  "wocky_data_form_submit form node =
     add_child_node node (fold add_field_to_node (fields_list form) (form_node ''submit''))"

definition add_field_to_node_using_default :: "WockyDataFormField \<Rightarrow> WockyNode \<Rightarrow> WockyNode option" where
  "add_field_to_node_using_default field node =
     (case df_var field of
        None \<Rightarrow> Some node
      | Some var \<Rightarrow>
          (case df_raw_value_contents field of
             None \<Rightarrow> None
           | Some vals \<Rightarrow> Some (add_child_node node (form_field_node (node_ns node) var (df_type field) (map Some vals)))))"

primrec add_fields_using_default :: "WockyDataFormField list \<Rightarrow> WockyNode \<Rightarrow> WockyNode option" where
  "add_fields_using_default [] node = Some node"
| "add_fields_using_default (f # fs) node =
     Option.bind (add_field_to_node_using_default f node) (add_fields_using_default fs)"

definition wocky_data_form_add_to_node :: "WockyDataForm \<Rightarrow> WockyNode \<Rightarrow> WockyNode option" where
  "wocky_data_form_add_to_node form node =
     map_option (add_child_node node) (add_fields_using_default (fields_list form) (form_node ''result''))"

section \<open>Results\<close>

text \<open>A field without a name cannot be the key of \<open>priv->reported\<close>.\<close>

definition parse_reported_field :: "WockyNode \<Rightarrow> WockyDataForm \<Rightarrow> WockyDataForm option" where
  "parse_reported_field node form =
     (case extract_var_type_label node of
        None \<Rightarrow> Some form
      | Some (None, _, _) \<Rightarrow> None
      | Some (Some var, type, label) \<Rightarrow>
          Some (form\<lparr>reported :=
            (var, wocky_data_form_field_new type (Some var) label None False None None None [])
              # filter (\<lambda>(v, _). v \<noteq> var) (reported form)\<rparr>))"

primrec data_form_parse_reported :: "WockyNode list \<Rightarrow> WockyDataForm \<Rightarrow> WockyDataForm option" where
  "data_form_parse_reported [] form = Some form"
| "data_form_parse_reported (node # nodes) form =
     Option.bind (parse_reported_field node form) (data_form_parse_reported nodes)"

definition parse_item_field :: "WockyDataForm \<Rightarrow> WockyNode \<Rightarrow> WockyDataFormField option" where
  "parse_item_field form field_node =
     (case wocky_node_get_attribute field_node ''var'' of
        None \<Rightarrow> None
      | Some var \<Rightarrow>
          (case map_of (reported form) var of
             None \<Rightarrow> None
           | Some field \<Rightarrow>
               (case fst (get_field_value (df_type field) field_node) of
                  None \<Rightarrow> None
                | Some val \<Rightarrow>
                    Some (wocky_data_form_field_new (df_type field) (Some var) (df_label field) (df_desc field)
                      (df_required field) (df_default_value field) (df_raw_value_contents field) (Some val) []))))"

definition data_form_parse_item :: "WockyNode \<Rightarrow> WockyDataForm \<Rightarrow> WockyDataForm" where
  "data_form_parse_item item_node form =
     form\<lparr>results := List.map_filter (parse_item_field form) (wocky_node_iter item_node (Some ''field'') None)
       # results form\<rparr>"

definition unique_field :: "WockyNode \<Rightarrow> WockyDataFormField option" where
  "unique_field node =
     (case extract_var_type_label node of
        None \<Rightarrow> None
      | Some (var, type, _) \<Rightarrow>
          (case fst (get_field_value type node) of
             None \<Rightarrow> None
           | Some val \<Rightarrow> Some (wocky_data_form_field_new type var None None False None None (Some val) [])))"

text \<open>The fields are prepended, and this list is not reversed.\<close>

definition parse_unique_result :: "WockyNode \<Rightarrow> WockyDataForm \<Rightarrow> WockyDataForm" where
  "parse_unique_result x form =
     form\<lparr>results := rev (List.map_filter unique_field (node_children x)) # results form\<rparr>"

definition wocky_data_form_parse_result ::
    "WockyNode \<Rightarrow> WockyDataForm \<Rightarrow> (WockyDataFormError + WockyDataForm) option" where
  "wocky_data_form_parse_result node form =
     (case wocky_node_get_child_ns node (Some ''x'') (Some WOCKY_XMPP_NS_DATA) of
        None \<Rightarrow> Some (Inl WOCKY_DATA_FORM_ERROR_NOT_FORM)
      | Some x \<Rightarrow>
          if wocky_node_get_attribute x ''type'' \<noteq> Some ''result'' then Some (Inl WOCKY_DATA_FORM_ERROR_WRONG_TYPE)
          else
            map_option (\<lambda>f. Inr (f\<lparr>results := rev (results f)\<rparr>))
              (case wocky_node_get_child x ''reported'' of
                 Some reported_node \<Rightarrow>
                   map_option (\<lambda>f. fold data_form_parse_item (wocky_node_iter x (Some ''item'') None) f)
                     (data_form_parse_reported (node_children reported_node) form)
               | None \<Rightarrow> Some (parse_unique_result x form)))"

section \<open>Round trips\<close>

text \<open>The values a reader of \<open>wocky_data_form_add_to_node\<close>'s output finds where the writer put them.\<close>

definition field_readable :: "WockyDataFormField \<Rightarrow> bool" where
  "field_readable f \<longleftrightarrow>
     (case df_raw_value_contents f of
        None \<Rightarrow> False
      | Some vals \<Rightarrow>
          (case df_type f of
             WOCKY_DATA_FORM_FIELD_TYPE_BOOLEAN \<Rightarrow>
               \<exists>b \<in> {''true'', ''1'', ''false'', ''0''}. vals = [b]
           | WOCKY_DATA_FORM_FIELD_TYPE_JID_MULTI \<Rightarrow> vals \<noteq> []
           | WOCKY_DATA_FORM_FIELD_TYPE_TEXT_MULTI \<Rightarrow> vals \<noteq> []
           | WOCKY_DATA_FORM_FIELD_TYPE_UNSPECIFIED \<Rightarrow> vals \<noteq> []
           | WOCKY_DATA_FORM_FIELD_TYPE_LIST_MULTI \<Rightarrow> False
           | WOCKY_DATA_FORM_FIELD_TYPE_LIST_SINGLE \<Rightarrow> False
           | _ \<Rightarrow> length vals = 1))"

text \<open>The type a field has once it is read.\<close>

definition type_read :: "WockyDataFormField \<Rightarrow> WockyDataFormFieldType" where
  "type_read f =
     (if df_type f \<noteq> WOCKY_DATA_FORM_FIELD_TYPE_UNSPECIFIED then df_type f
      else if 2 \<le> length (the (df_raw_value_contents f)) then WOCKY_DATA_FORM_FIELD_TYPE_TEXT_MULTI
      else WOCKY_DATA_FORM_FIELD_TYPE_TEXT_SINGLE)"

definition field_view :: "WockyDataFormField \<Rightarrow> cstring \<times> WockyDataFormFieldType \<times> string list option" where
  "field_view f = (df_var f, df_type f, df_raw_value_contents f)"

lemma add_child_node_children [simp]:
  "node_children (add_child_node n c) = node_children n @ [c]"
  "node_name (add_child_node n c) = node_name n"
  "node_ns (add_child_node n c) = node_ns n"
  "node_content (add_child_node n c) = node_content n"
  "node_attributes (add_child_node n c) = node_attributes n"
  by (cases n; simp)+

lemma set_attribute_others [simp]:
  "node_children (wocky_node_set_attribute n k v) = node_children n"
  "node_name (wocky_node_set_attribute n k v) = node_name n"
  "node_ns (wocky_node_set_attribute n k v) = node_ns n"
  "node_content (wocky_node_set_attribute n k v) = node_content n"
  by (cases n; simp add: wocky_node_set_attribute_def)+

lemma add_value_fields:
  "fold (\<lambda>v n. wocky_node_add_child_with_content_ns n ''value'' v None []) vals (WockyNode n c ns as cs) =
     WockyNode n c ns as (cs @ map (\<lambda>v. WockyNode ''value'' v ns [] []) vals)"
  by (induction vals arbitrary: cs) auto

lemma form_field_node_eq:
  "form_field_node ns var type vals =
     WockyNode ''field'' None ns
       (\<lparr>attr_key = ''var'', attr_value = var, attr_ns = None\<rparr>
         # (if type \<noteq> WOCKY_DATA_FORM_FIELD_TYPE_UNSPECIFIED
            then [\<lparr>attr_key = ''type'', attr_value = type_to_str type, attr_ns = None\<rparr>] else []))
       (map (\<lambda>v. WockyNode ''value'' v ns [] []) vals)"
  by (simp add: form_field_node_def wocky_node_set_attribute_def Let_def add_value_fields)

lemma form_field_node_fields [simp]:
  "node_name (form_field_node ns var type vals) = ''field''"
  "node_children (form_field_node ns var type vals) = map (\<lambda>v. WockyNode ''value'' v ns [] []) vals"
  "wocky_node_get_attribute (form_field_node ns var type vals) ''var'' = Some var"
  "wocky_node_get_attribute (form_field_node ns var type vals) ''label'' = None"
  "wocky_node_get_attribute (form_field_node ns var type vals) ''type'' =
     (if type \<noteq> WOCKY_DATA_FORM_FIELD_TYPE_UNSPECIFIED then Some (type_to_str type) else None)"
  by (simp_all add: form_field_node_eq wocky_node_defs)

lemma iter_values [simp]:
  "wocky_node_iter (form_field_node ns var type vals) (Some ''value'') None =
     map (\<lambda>v. WockyNode ''value'' v ns [] []) vals"
  by (auto simp: wocky_node_iter_def filter_map o_def)

lemma from_nick_to_str:
  "type \<noteq> WOCKY_DATA_FORM_FIELD_TYPE_UNSPECIFIED \<Longrightarrow>
   wocky_enum_from_nick WOCKY_TYPE_DATA_FORM_FIELD_TYPE (type_to_str type) = Some type"
  by (cases type)
    (simp_all add: wocky_enum_from_nick_def WOCKY_TYPE_DATA_FORM_FIELD_TYPE_def type_to_str_def enum_to_nick_def)

lemma extract_written:
  assumes "field_readable f" "df_var f = Some var" "df_raw_value_contents f = Some vals"
  shows "extract_var_type_label (form_field_node ns var (df_type f) (map Some vals)) = Some (Some var, type_read f, None)"
  using assms by (auto simp: extract_var_type_label_def type_read_def from_nick_to_str)

lemma extract_value_list_written [simp]:
  "extract_value_list (form_field_node ns var type (map Some vals)) = vals"
proof -
  have "List.map_filter node_content (map (\<lambda>v. WockyNode ''value'' v ns [] []) (map Some vals)) = vals"
    by (induction vals) (simp_all add: map_filter_simps)
  then show ?thesis by (simp only: extract_value_list_def iter_values)
qed

lemma get_value_written:
  "wocky_node_get_child (form_field_node ns var type vals) ''value'' =
     (case vals of [] \<Rightarrow> None | v # _ \<Rightarrow> Some (WockyNode ''value'' v ns [] []))"
  by (cases vals) (simp_all add: wocky_node_defs)

lemma raw_written:
  assumes "field_readable f" "df_raw_value_contents f = Some vals"
  shows "snd (get_field_value (type_read f) (form_field_node ns var (df_type f) (map Some vals))) = Some vals"
proof -
  have e: "extract_value_list (form_field_node ns var t [Some v]) = [v]" for t v
    using extract_value_list_written [of ns var t "[v]"] by simp
  obtain v vs where v: "vals = v # vs"
    using assms by (cases vals; cases "df_type f") (auto simp: field_readable_def)
  have l: "extract_value_list (form_field_node ns var t (Some v # map Some vs)) = v # vs" for t
    using extract_value_list_written [of ns var t "v # vs"] by simp
  show ?thesis
  proof (cases "df_type f")
    case WOCKY_DATA_FORM_FIELD_TYPE_UNSPECIFIED
    then show ?thesis
      using assms v l [of WOCKY_DATA_FORM_FIELD_TYPE_UNSPECIFIED]
      by (cases vs) (simp_all add: get_field_value_def get_value_written type_read_def strv_of_def)
  qed (use assms v in \<open>auto simp: get_field_value_def get_value_written type_read_def strv_of_def l
        field_readable_def\<close>)
qed

lemma parse_written:
  assumes "field_readable f" "df_var f = Some var" "df_raw_value_contents f = Some vals"
  shows "\<exists>g. data_form_parse_form_field (form_field_node ns var (df_type f) (map Some vals)) = Some g
    \<and> field_view g = (Some var, type_read f, Some vals)"
proof -
  have "type_read f \<noteq> WOCKY_DATA_FORM_FIELD_TYPE_LIST_MULTI" "type_read f \<noteq> WOCKY_DATA_FORM_FIELD_TYPE_LIST_SINGLE"
    using assms(1,3) by (auto simp: type_read_def field_readable_def)
  then show ?thesis
    using raw_written [OF assms(1,3)]
    by (auto simp: data_form_parse_form_field_def extract_written [OF assms] create_field_def
        wocky_data_form_field_new_def field_view_def Let_def case_prod_beta)
qed

lemma add_fields_written:
  assumes "\<forall>f \<in> set fs. df_var f \<noteq> None \<longrightarrow> field_readable f"
  shows "add_fields_using_default fs (WockyNode n c ns as cs) =
    Some (WockyNode n c ns as (cs @ map (\<lambda>f. form_field_node ns (the (df_var f)) (df_type f)
      (map Some (the (df_raw_value_contents f)))) (filter (\<lambda>f. df_var f \<noteq> None) fs)))"
  using assms
proof (induction fs arbitrary: cs)
  case (Cons f fs)
  then show ?case
    by (cases "df_var f"; cases "df_raw_value_contents f")
      (auto simp: add_field_to_node_using_default_def field_readable_def)
qed simp

lemma fold_add_fields:
  "fields_list (fold (\<lambda>node f. case data_form_parse_form_field node of
       None \<Rightarrow> f | Some field \<Rightarrow> data_form_add_field field True f) nodes form) =
   rev (List.map_filter data_form_parse_form_field nodes) @ fields_list form"
  by (induction nodes arbitrary: form)
    (auto simp: data_form_add_field_def map_filter_simps split: option.splits)

lemma parse_all_written:
  assumes "\<forall>f \<in> set fs. df_var f \<noteq> None \<and> field_readable f"
  shows "map field_view (List.map_filter data_form_parse_form_field
      (map (\<lambda>f. form_field_node ns (the (df_var f)) (df_type f) (map Some (the (df_raw_value_contents f)))) fs)) =
    map (\<lambda>f. (df_var f, type_read f, df_raw_value_contents f)) fs"
  using assms
proof (induction fs)
  case (Cons f fs)
  then obtain var vals where f: "df_var f = Some var" "df_raw_value_contents f = Some vals" "field_readable f"
    by (auto simp: field_readable_def split: option.splits)
  obtain g where g: "data_form_parse_form_field (form_field_node ns var (df_type f) (map Some vals)) = Some g"
      "field_view g = (Some var, type_read f, Some vals)"
    using parse_written [OF f(3,1,2)] by blast
  with Cons f show ?case by (simp add: map_filter_simps)
qed (simp add: map_filter_simps)

text \<open>A form written into a discovery reply is read back by the peer with the same names and values, in the
  same order; fields without a name are instructions to the user and are left out.\<close>

definition form_readable :: "WockyDataForm \<Rightarrow> bool" where
  "form_readable form \<longleftrightarrow> (\<forall>f \<in> set (fields_list form). df_var f \<noteq> None \<longrightarrow> field_readable f)"

definition form_view :: "WockyDataForm \<Rightarrow> (cstring \<times> WockyDataFormFieldType \<times> string list option) list" where
  "form_view form =
     map (\<lambda>f. (df_var f, type_read f, df_raw_value_contents f)) (filter (\<lambda>f. df_var f \<noteq> None) (fields_list form))"

lemma data_form_written:
  assumes "form_readable form"
  shows "\<exists>x form'. wocky_data_form_add_to_node form node = Some (add_child_node node x)
    \<and> node_name x = ''x'' \<and> node_ns x = Some WOCKY_XMPP_NS_DATA
    \<and> wocky_data_form_new_from_node x = Inr form'
    \<and> map field_view (fields_list form') = form_view form"
proof -
  let ?fs = "filter (\<lambda>f. df_var f \<noteq> None) (fields_list form)"
  let ?nodes = "map (\<lambda>f. form_field_node (Some WOCKY_XMPP_NS_DATA) (the (df_var f)) (df_type f)
      (map Some (the (df_raw_value_contents f)))) ?fs"
  let ?x = "WockyNode ''x'' None (Some WOCKY_XMPP_NS_DATA)
      [\<lparr>attr_key = ''type'', attr_value = ''result'', attr_ns = None\<rparr>] ?nodes"
  have w: "wocky_data_form_add_to_node form node = Some (add_child_node node ?x)"
    using add_fields_written [of "fields_list form"] assms
    by (simp add: wocky_data_form_add_to_node_def form_node_def wocky_node_set_attribute_def form_readable_def)
  have it: "wocky_node_iter ?x (Some ''field'') None = ?nodes"
    by (auto simp: wocky_node_iter_def filter_map o_def)
  have "wocky_node_get_attribute ?x ''type'' = Some ''result''" by (simp add: wocky_node_defs)
  then obtain form' where f': "wocky_data_form_new_from_node ?x = Inr form'"
      "fields_list form' = List.map_filter data_form_parse_form_field ?nodes"
    unfolding wocky_data_form_new_from_node_def wocky_node_matches_def it
    by (simp add: fold_add_fields Let_def wocky_data_form_init_def)
  have "map field_view (fields_list form') = form_view form"
    unfolding f'(2) form_view_def
    by (rule parse_all_written) (use assms in \<open>auto simp: form_readable_def\<close>)
  with w f'(1) show ?thesis by auto
qed

text \<open>A header of a result with an unnamed field makes the parser use \<open>NULL\<close> as the key of a table of
  strings.\<close>

theorem reported_fixed_crashes:
  "wocky_data_form_parse_result
     (WockyNode ''query'' None None [] [WockyNode ''x'' None (Some WOCKY_XMPP_NS_DATA)
       [\<lparr>attr_key = ''type'', attr_value = ''result'', attr_ns = None\<rparr>]
       [WockyNode ''reported'' None (Some WOCKY_XMPP_NS_DATA) []
         [WockyNode ''field'' None (Some WOCKY_XMPP_NS_DATA)
           [\<lparr>attr_key = ''type'', attr_value = ''fixed'', attr_ns = None\<rparr>] []]]]) form = None"
  by (simp add: wocky_data_form_parse_result_def wocky_node_defs parse_reported_field_def
      extract_var_type_label_def wocky_enum_from_nick_def WOCKY_TYPE_DATA_FORM_FIELD_TYPE_def)

section \<open>Filling in\<close>

lemma list_ex_find: "list_ex P xs \<longleftrightarrow> find P xs \<noteq> None"
  by (induction xs) auto

lemma find_rev_map_last:
  "find P (rev xs) \<noteq> None \<Longrightarrow> (\<And>x. P (f x) = P x) \<Longrightarrow>
   find P (rev (map_last P f xs)) = map_option f (find P (rev xs))"
proof (induction xs)
  case (Cons x xs)
  have ex: "list_ex P xs \<longleftrightarrow> find P (rev xs) \<noteq> None"
    by (auto simp: list_ex_iff find_None_iff)
  show ?case
  proof (cases "find P (rev xs)")
    case None
    then have "\<not> list_ex P xs" using ex by simp
    moreover have "P x" using Cons.prems(1) None by (auto simp: find_append split: if_splits)
    ultimately show ?thesis using None Cons.prems(2) by (simp add: find_append)
  next
    case (Some y)
    with Cons ex show ?thesis by (simp add: find_append)
  qed
qed simp

text \<open>After a field has been filled in, the form has it with the new value, and submitting the form sends it.\<close>

lemma set_value_field:
  "fst (data_form_set_value name val create form) \<Longrightarrow>
   \<exists>f. form_field (snd (data_form_set_value name val create form)) name = Some f
     \<and> df_value f = Some val \<and> df_raw_value_contents f = Some (raw_contents_of val)"
proof (cases "form_field form name")
  case (Some g)
  then show ?thesis
    by (auto simp: data_form_set_value_def form_field_def find_rev_map_last Let_def)
next
  case None
  assume "fst (data_form_set_value name val create form)"
  with None have create by (simp add: data_form_set_value_def split: if_splits)
  with None show ?thesis
    by (auto simp: data_form_set_value_def form_field_def find_rev_map_last Let_def data_form_add_field_def
        wocky_data_form_field_new_def)
qed

definition submitted_field :: "cstring \<Rightarrow> WockyDataFormField \<Rightarrow> WockyNode option" where
  "submitted_field ns f =
     (case df_var f of
        None \<Rightarrow> None
      | Some var \<Rightarrow>
          map_option (\<lambda>val. form_field_node ns var (df_type f) (value_contents val))
            (if df_value f = None \<and> df_type f = WOCKY_DATA_FORM_FIELD_TYPE_HIDDEN
             then df_default_value f else df_value f))"

lemma add_field_to_node_eq:
  "add_field_to_node f x = (case submitted_field (node_ns x) f of None \<Rightarrow> x | Some n \<Rightarrow> add_child_node x n)"
  by (auto simp: add_field_to_node_def submitted_field_def split: option.splits)

lemma fold_add_field_children:
  "node_children (fold add_field_to_node fs x) = node_children x @ List.map_filter (submitted_field (node_ns x)) fs"
proof (induction fs arbitrary: x)
  case (Cons f fs)
  have "node_ns (add_field_to_node f x) = node_ns x"
    by (simp add: add_field_to_node_eq split: option.splits)
  with Cons show ?case by (simp add: add_field_to_node_eq map_filter_simps split: option.splits)
qed (simp add: map_filter_simps)

theorem filled_in_is_submitted:
  assumes "fst (data_form_set_value name val create form)"
  shows "\<exists>x type. wocky_data_form_submit (snd (data_form_set_value name val create form)) node = add_child_node node x
    \<and> form_field_node (Some WOCKY_XMPP_NS_DATA) name type (value_contents val) \<in> set (node_children x)"
proof -
  let ?form = "snd (data_form_set_value name val create form)"
  obtain f where f: "form_field ?form name = Some f" "df_value f = Some val"
    using set_value_field [OF assms] by blast
  have "f \<in> set (fields_list ?form)" "df_var f = Some name"
    using f(1) find_Some_in [of _ "rev (fields_list ?form)" f] by (auto simp: form_field_def)
  then have "form_field_node (Some WOCKY_XMPP_NS_DATA) name (df_type f) (value_contents val)
      \<in> set (node_children (fold add_field_to_node (fields_list ?form) (form_node ''submit'')))"
    using f(2) by (force simp: fold_add_field_children form_node_def List.map_filter_def submitted_field_def)
  then show ?thesis unfolding wocky_data_form_submit_def by blast
qed

end
