(* ===== verification/Capabilities.thy ===== *)
theory Capabilities
  imports Wocky_Node Namespaces C_Strings "HOL-Library.List_Lexorder" "HOL-Library.Char_ord"
begin

text \<open>
  Capability sets (\<open>src/capabilities.c\<close>, \<open>gabble/capabilities.h\<close>). A \<open>GabbleCapabilitySet\<close> is a set of
  handles into a pool of interned strings, so a handle is identified with its string and the set is
  a set of strings. The pool (a handle repository of telepathy-glib) and the order in which
  \<open>tp_handle_set_foreach\<close> and \<open>TpIntsetFastIter\<close> visit a set are not part of the program: the order
  is the parameter \<open>iter\<close> of the operations that loop over a set.

  Strings that start with \<open>QUIRK_PREFIX_CHAR\<close> are not features but marks for peers with known bugs.
  The pre-cooked sets (\<open>legacy_caps\<close>, ...) are global variables created by the first connection and
  freed by the last; the build options \<open>ENABLE_VOIP\<close> and \<open>ENABLE_FILE_TRANSFER\<close> are parameters.
\<close>

type_synonym GabbleCapabilitySet = "string set"

section \<open>Quirks\<close>

definition QUIRK_PREFIX_CHAR :: char where
  "QUIRK_PREFIX_CHAR = CHR 0x07"

definition QUIRK_OMITS_CONTENT_CREATORS :: string where
  "QUIRK_OMITS_CONTENT_CREATORS = QUIRK_PREFIX_CHAR # ''omits-content-creators''"

text \<open>\<open>var[0] == QUIRK_PREFIX_CHAR\<close>; the empty string starts with a null character.\<close>

definition is_quirk :: "string \<Rightarrow> bool" where
  "is_quirk var \<longleftrightarrow> (case var of [] \<Rightarrow> False | c # _ \<Rightarrow> c = QUIRK_PREFIX_CHAR)"

section \<open>Operations on sets\<close>

definition gabble_capability_set_update ::
    "GabbleCapabilitySet \<Rightarrow> GabbleCapabilitySet \<Rightarrow> GabbleCapabilitySet" where
  "gabble_capability_set_update target source = target \<union> source"

definition gabble_capability_set_add :: "GabbleCapabilitySet \<Rightarrow> string \<Rightarrow> GabbleCapabilitySet" where
  "gabble_capability_set_add caps cap = insert cap caps"

definition gabble_capability_set_clear :: "GabbleCapabilitySet \<Rightarrow> GabbleCapabilitySet" where
  "gabble_capability_set_clear caps = {}"

definition gabble_capability_set_remove ::
    "GabbleCapabilitySet \<Rightarrow> string \<Rightarrow> bool \<times> GabbleCapabilitySet" where
  "gabble_capability_set_remove caps cap = (cap \<in> caps, caps - {cap})"

text \<open>\<open>intersect_helper\<close> collects what has to go, then it is removed.\<close>

definition intersect_helper :: "GabbleCapabilitySet \<Rightarrow> string \<Rightarrow> string list \<Rightarrow> string list" where
  "intersect_helper intersect_with handle deleted =
     (if handle \<notin> intersect_with then handle # deleted else deleted)"

definition gabble_capability_set_intersect ::
    "(GabbleCapabilitySet \<Rightarrow> string list) \<Rightarrow> GabbleCapabilitySet \<Rightarrow> GabbleCapabilitySet \<Rightarrow>
     GabbleCapabilitySet" where
  "gabble_capability_set_intersect iter target source =
     (let deleted = fold (intersect_helper source) (iter target) []
      in foldl (\<lambda>caps h. snd (gabble_capability_set_remove caps h)) target deleted)"

definition gabble_capability_set_exclude ::
    "(GabbleCapabilitySet \<Rightarrow> string list) \<Rightarrow> GabbleCapabilitySet \<Rightarrow> GabbleCapabilitySet \<Rightarrow>
     GabbleCapabilitySet" where
  "gabble_capability_set_exclude iter caps removed =
     foldl (\<lambda>caps h. snd (gabble_capability_set_remove caps h)) caps (iter removed)"

definition gabble_capability_set_has :: "GabbleCapabilitySet \<Rightarrow> string \<Rightarrow> bool" where
  "gabble_capability_set_has caps cap \<longleftrightarrow> cap \<in> caps"

primrec has_one_loop :: "GabbleCapabilitySet \<Rightarrow> string list \<Rightarrow> bool" where
  "has_one_loop caps [] = False"
| "has_one_loop caps (e # es) = (if e \<in> caps then True else has_one_loop caps es)"

definition gabble_capability_set_has_one ::
    "(GabbleCapabilitySet \<Rightarrow> string list) \<Rightarrow> GabbleCapabilitySet \<Rightarrow> GabbleCapabilitySet \<Rightarrow> bool" where
  "gabble_capability_set_has_one iter caps alternatives = has_one_loop caps (iter alternatives)"

primrec at_least_loop :: "GabbleCapabilitySet \<Rightarrow> string list \<Rightarrow> bool" where
  "at_least_loop caps [] = True"
| "at_least_loop caps (e # es) = (if e \<notin> caps then False else at_least_loop caps es)"

definition gabble_capability_set_at_least ::
    "(GabbleCapabilitySet \<Rightarrow> string list) \<Rightarrow> GabbleCapabilitySet \<Rightarrow> GabbleCapabilitySet \<Rightarrow> bool" where
  "gabble_capability_set_at_least iter caps query = at_least_loop caps (iter query)"

text \<open>\<open>gabble_capability_set_foreach\<close> calls \<open>func\<close> on the features, in this order; quirks are left
  out.\<close>

definition gabble_capability_set_foreach ::
    "(GabbleCapabilitySet \<Rightarrow> string list) \<Rightarrow> GabbleCapabilitySet \<Rightarrow> (string \<Rightarrow> 's \<Rightarrow> 's) \<Rightarrow> 's \<Rightarrow> 's" where
  "gabble_capability_set_foreach iter caps func =
     fold (\<lambda>var s. if \<not> is_quirk var then func var s else s) (iter caps)"

section \<open>Capabilities from a service discovery reply\<close>

definition OMITS_PREFIX :: string where
  "OMITS_PREFIX = ''Telepathy Gabble 0.7.''"

text \<open>The result of \<open>strtol\<close> is stored in an \<open>int\<close>: only its low 32 bits count.\<close>

definition omits_content_creators :: "WockyNode \<Rightarrow> bool" where
  "omits_content_creators identity =
     (case wocky_node_get_attribute identity ''name'' of
        None \<Rightarrow> False
      | Some name \<Rightarrow>
          if take (length OMITS_PREFIX) name \<noteq> OMITS_PREFIX then False
          else
            let (v, end) = strtol (drop (length OMITS_PREFIX) name);
                ver = sint (word_of_int v :: 32 word)
            in if end \<noteq> [] then False
               else 16 \<le> ver \<and> ver < 29)"

definition caps_add_child :: "WockyNode \<Rightarrow> GabbleCapabilitySet \<Rightarrow> GabbleCapabilitySet" where
  "caps_add_child child ret =
     (if \<not> tp_strdiff (Some (node_name child)) (Some ''identity'')
      then (if omits_content_creators child
            then gabble_capability_set_add ret QUIRK_OMITS_CONTENT_CREATORS else ret)
      else if tp_strdiff (Some (node_name child)) (Some ''feature'') then ret
      else case wocky_node_get_attribute child ''var'' of
        None \<Rightarrow> ret
      | Some var \<Rightarrow> if is_quirk var then ret else gabble_capability_set_add ret var)"

definition gabble_capability_set_new_from_stanza :: "WockyNode \<Rightarrow> GabbleCapabilitySet" where
  "gabble_capability_set_new_from_stanza query_result =
     fold caps_add_child (node_children query_result) {}"

section \<open>The pre-cooked sets\<close>

datatype feature_type = FEATURE_FIXED | FEATURE_OPTIONAL | FEATURE_OLPC

type_synonym Feature = "feature_type \<times> string"

definition self_advertised_features :: "bool \<Rightarrow> bool \<Rightarrow> Feature list" where
  "self_advertised_features voip ft =
     [(FEATURE_FIXED, NS_GOOGLE_FEAT_SESSION)]
     @ (if voip then
         [(FEATURE_FIXED, NS_JINGLE_TRANSPORT_RAWUDP),
          (FEATURE_FIXED, NS_JINGLE015),
          (FEATURE_FIXED, NS_JINGLE032)] else [])
     @ [(FEATURE_FIXED, NS_DISCO_INFO),
        (FEATURE_FIXED, NS_CHAT_STATES),
        (FEATURE_FIXED, NS_NICK),
        (FEATURE_FIXED, NS_NICK @ ''+notify''),
        (FEATURE_FIXED, NS_SI),
        (FEATURE_FIXED, NS_IBB),
        (FEATURE_FIXED, NS_TUBES),
        (FEATURE_FIXED, NS_BYTESTREAMS),
        (FEATURE_FIXED, NS_VERSION),
        (FEATURE_FIXED, NS_LAST),
        (FEATURE_FIXED, NS_RECEIPTS)]
     @ (if ft then
         [(FEATURE_OPTIONAL, NS_FILE_TRANSFER),
          (FEATURE_OPTIONAL, NS_TP_FT_METADATA)] else [])
     @ (if voip then
         [(FEATURE_OPTIONAL, NS_GOOGLE_TRANSPORT_P2P),
          (FEATURE_OPTIONAL, NS_JINGLE_TRANSPORT_ICEUDP),
          (FEATURE_OPTIONAL, NS_GOOGLE_FEAT_SHARE),
          (FEATURE_OPTIONAL, NS_GOOGLE_FEAT_VOICE),
          (FEATURE_OPTIONAL, NS_GOOGLE_FEAT_VIDEO),
          (FEATURE_OPTIONAL, NS_GOOGLE_FEAT_CAMERA),
          (FEATURE_OPTIONAL, NS_JINGLE_DESCRIPTION_AUDIO),
          (FEATURE_OPTIONAL, NS_JINGLE_DESCRIPTION_VIDEO),
          (FEATURE_OPTIONAL, NS_JINGLE_RTP),
          (FEATURE_OPTIONAL, NS_JINGLE_RTP_AUDIO),
          (FEATURE_OPTIONAL, NS_JINGLE_RTP_VIDEO)] else [])
     @ [(FEATURE_OLPC, NS_OLPC_BUDDY_PROPS @ ''+notify''),
        (FEATURE_OLPC, NS_OLPC_ACTIVITIES @ ''+notify''),
        (FEATURE_OLPC, NS_OLPC_CURRENT_ACTIVITY @ ''+notify''),
        (FEATURE_OLPC, NS_OLPC_ACTIVITY_PROPS @ ''+notify''),
        (FEATURE_OPTIONAL, NS_GEOLOC @ ''+notify'')]"

text \<open>The static variables of the file; \<open>None\<close> is \<open>NULL\<close>. \<open>caps_pool\<close> is whether \<open>feature_handles\<close>
  has been created.\<close>

record caps_globals =
  feature_handles_refcount :: nat
  caps_pool :: bool
  legacy_caps :: "GabbleCapabilitySet option"
  share_v1_caps :: "GabbleCapabilitySet option"
  voice_v1_caps :: "GabbleCapabilitySet option"
  video_v1_caps :: "GabbleCapabilitySet option"
  camera_v1_caps :: "GabbleCapabilitySet option"
  any_audio_caps :: "GabbleCapabilitySet option"
  any_video_caps :: "GabbleCapabilitySet option"
  any_audio_video_caps :: "GabbleCapabilitySet option"
  any_google_av_caps :: "GabbleCapabilitySet option"
  any_jingle_av_caps :: "GabbleCapabilitySet option"
  any_transport_caps :: "GabbleCapabilitySet option"
  fixed_caps :: "GabbleCapabilitySet option"
  geoloc_caps :: "GabbleCapabilitySet option"
  olpc_caps :: "GabbleCapabilitySet option"

definition caps_globals_start :: caps_globals where
  "caps_globals_start =
     \<lparr>feature_handles_refcount = 0, caps_pool = False, legacy_caps = None, share_v1_caps = None,
      voice_v1_caps = None, video_v1_caps = None, camera_v1_caps = None, any_audio_caps = None,
      any_video_caps = None, any_audio_video_caps = None, any_google_av_caps = None,
      any_jingle_av_caps = None, any_transport_caps = None, fixed_caps = None,
      geoloc_caps = None, olpc_caps = None\<rparr>"

definition gabble_capability_set_new :: "caps_globals \<Rightarrow> GabbleCapabilitySet option" where
  "gabble_capability_set_new g = (if caps_pool g then Some {} else None)"

definition caps_add_all :: "string list \<Rightarrow> GabbleCapabilitySet" where
  "caps_add_all = foldl gabble_capability_set_add {}"

definition caps_add_features :: "(Feature \<Rightarrow> bool) \<Rightarrow> Feature list \<Rightarrow> GabbleCapabilitySet" where
  "caps_add_features P feats =
     foldl (\<lambda>caps feat. if P feat then gabble_capability_set_add caps (snd feat) else caps) {} feats"

text \<open>The part of \<open>gabble_capabilities_init\<close> under \<open>ENABLE_VOIP\<close>.\<close>

definition caps_init_voip ::
    "(GabbleCapabilitySet \<Rightarrow> string list) \<Rightarrow> caps_globals \<Rightarrow> caps_globals" where
  "caps_init_voip iter g =
     (let audio = caps_add_all
            [NS_JINGLE_RTP_AUDIO, NS_JINGLE_DESCRIPTION_AUDIO, NS_GOOGLE_FEAT_VOICE];
          video = caps_add_all
            [NS_JINGLE_RTP_VIDEO, NS_JINGLE_DESCRIPTION_VIDEO, NS_GOOGLE_FEAT_VIDEO];
          google = caps_add_all [NS_GOOGLE_FEAT_VOICE, NS_GOOGLE_FEAT_VIDEO]
      in g\<lparr>share_v1_caps := Some (caps_add_all [NS_GOOGLE_FEAT_SHARE]),
           voice_v1_caps := Some (caps_add_all [NS_GOOGLE_FEAT_VOICE]),
           video_v1_caps := Some (caps_add_all [NS_GOOGLE_FEAT_VIDEO]),
           camera_v1_caps := Some (caps_add_all [NS_GOOGLE_FEAT_CAMERA]),
           any_audio_caps := Some audio,
           any_video_caps := Some video,
           any_audio_video_caps := Some (gabble_capability_set_update audio video),
           any_google_av_caps := Some google,
           any_jingle_av_caps :=
             Some (gabble_capability_set_exclude iter
                     (gabble_capability_set_update audio video) google),
           any_transport_caps := Some (caps_add_all
             [NS_GOOGLE_TRANSPORT_P2P, NS_JINGLE_TRANSPORT_ICEUDP, NS_JINGLE_TRANSPORT_RAWUDP])\<rparr>)"

definition gabble_capabilities_init ::
    "(GabbleCapabilitySet \<Rightarrow> string list) \<Rightarrow> bool \<Rightarrow> bool \<Rightarrow> caps_globals \<Rightarrow> caps_globals option" where
  "gabble_capabilities_init iter voip ft g0 =
     (let g = g0\<lparr>feature_handles_refcount := Suc (feature_handles_refcount g0)\<rparr>;
          feats = self_advertised_features voip ft
      in if feature_handles_refcount g0 = 0
         then (if caps_pool g then None
               else
                 let g1 = g\<lparr>caps_pool := True, legacy_caps := Some (caps_add_features (\<lambda>f. True) feats)\<rparr>;
                     g2 = (if voip then caps_init_voip iter g1 else g1)
                 in Some (g2\<lparr>fixed_caps :=
                              Some (caps_add_features (\<lambda>f. fst f = FEATURE_FIXED) feats),
                            geoloc_caps := Some (caps_add_all [NS_GEOLOC @ ''+notify'']),
                            olpc_caps :=
                              Some (caps_add_features (\<lambda>f. fst f = FEATURE_OLPC) feats)\<rparr>))
         else if caps_pool g then Some g else None)"

definition gabble_capabilities_finalize :: "caps_globals \<Rightarrow> caps_globals option" where
  "gabble_capabilities_finalize g0 =
     (if feature_handles_refcount g0 = 0 then None
      else
        let g = g0\<lparr>feature_handles_refcount := feature_handles_refcount g0 - 1\<rparr>
        in if feature_handles_refcount g = 0
           then Some (g\<lparr>legacy_caps := None, share_v1_caps := None, voice_v1_caps := None,
                        video_v1_caps := None, camera_v1_caps := None, any_audio_caps := None,
                        any_video_caps := None, any_audio_video_caps := None,
                        any_google_av_caps := None, any_jingle_av_caps := None,
                        any_transport_caps := None, fixed_caps := None, geoloc_caps := None,
                        olpc_caps := None, caps_pool := False\<rparr>)
           else Some g)"

section \<open>The loops compute the set operations\<close>

lemma foldl_remove:
  "foldl (\<lambda>caps h. snd (gabble_capability_set_remove caps h)) A hs = A - set hs"
  by (induction hs arbitrary: A) (auto simp: gabble_capability_set_remove_def)

lemma fold_intersect_helper:
  "set (fold (intersect_helper B) hs ds) = set ds \<union> {h \<in> set hs. h \<notin> B}"
  by (induction hs arbitrary: ds) (auto simp: intersect_helper_def)

lemma has_one_loop_iff: "has_one_loop caps es \<longleftrightarrow> set es \<inter> caps \<noteq> {}"
  by (induction es) auto

lemma at_least_loop_iff: "at_least_loop caps es \<longleftrightarrow> set es \<subseteq> caps"
  by (induction es) auto

lemma caps_add_all_set [simp]: "caps_add_all cs = set cs"
proof -
  have "foldl gabble_capability_set_add A cs = A \<union> set cs" for A
    by (induction cs arbitrary: A) (auto simp: gabble_capability_set_add_def)
  then show ?thesis by (simp add: caps_add_all_def)
qed

lemma caps_add_features_set [simp]: "caps_add_features P feats = snd ` {f \<in> set feats. P f}"
proof -
  have "foldl (\<lambda>caps feat. if P feat then gabble_capability_set_add caps (snd feat) else caps) A feats
      = A \<union> snd ` {f \<in> set feats. P f}" for A
    by (induction feats arbitrary: A) (auto simp: gabble_capability_set_add_def)
  then show ?thesis by (simp add: caps_add_features_def)
qed

text \<open>What a client of capability sets relies on, stated for any representation of them; the
  presence of a contact is aggregated with these operations only.\<close>

locale capability_sets =
  fixes clear :: "'c \<Rightarrow> 'c" and update :: "'c \<Rightarrow> 'c \<Rightarrow> 'c" and has :: "'c \<Rightarrow> string \<Rightarrow> bool"
  assumes has_clear: "\<not> has (clear c) f"
    and has_update: "has (update c d) f \<longleftrightarrow> has c f \<or> has d f"
begin

lemma has_aggregate: "has (foldl update c ds) f \<longleftrightarrow> has c f \<or> (\<exists>d \<in> set ds. has d f)"
  by (induction ds arbitrary: c) (auto simp: has_update)

lemma has_refreshed: "has (foldl update (clear c) ds) f \<longleftrightarrow> (\<exists>d \<in> set ds. has d f)"
  by (simp add: has_aggregate has_clear)

end

interpretation caps: capability_sets gabble_capability_set_clear gabble_capability_set_update
  gabble_capability_set_has
  by unfold_locales
    (auto simp: gabble_capability_set_clear_def gabble_capability_set_update_def
      gabble_capability_set_has_def)

section \<open>Life of the global sets\<close>

definition caps_globals_ok :: "bool \<Rightarrow> bool \<Rightarrow> caps_globals \<Rightarrow> bool" where
  "caps_globals_ok voip ft g \<longleftrightarrow>
     (if feature_handles_refcount g = 0 then g = caps_globals_start
      else caps_pool g
        \<and> legacy_caps g = Some (snd ` set (self_advertised_features voip ft))
        \<and> fixed_caps g = Some (snd ` {f \<in> set (self_advertised_features voip ft). fst f = FEATURE_FIXED})
        \<and> olpc_caps g = Some (snd ` {f \<in> set (self_advertised_features voip ft). fst f = FEATURE_OLPC})
        \<and> geoloc_caps g = Some {NS_GEOLOC @ ''+notify''}
        \<and> (voip \<longrightarrow> any_jingle_av_caps g = Some {NS_JINGLE_RTP_AUDIO, NS_JINGLE_DESCRIPTION_AUDIO,
               NS_JINGLE_RTP_VIDEO, NS_JINGLE_DESCRIPTION_VIDEO})
        \<and> (\<not> voip \<longrightarrow> any_jingle_av_caps g = None))"

datatype caps_op = Caps_Init | Caps_Finalize

fun caps_step :: "(GabbleCapabilitySet \<Rightarrow> string list) \<Rightarrow> bool \<Rightarrow> bool \<Rightarrow> caps_op \<Rightarrow> caps_globals \<Rightarrow>
    caps_globals option" where
  "caps_step iter voip ft Caps_Init g = gabble_capabilities_init iter voip ft g"
| "caps_step iter voip ft Caps_Finalize g = gabble_capabilities_finalize g"

text \<open>A connection calls \<open>gabble_capabilities_finalize\<close> once for its call of
  \<open>gabble_capabilities_init\<close>.\<close>

fun caps_legal :: "caps_op \<Rightarrow> caps_globals \<Rightarrow> bool" where
  "caps_legal Caps_Init g \<longleftrightarrow> True"
| "caps_legal Caps_Finalize g \<longleftrightarrow> 0 < feature_handles_refcount g"

lemmas ns_defs = NS_JINGLE_RTP_AUDIO_def NS_JINGLE_DESCRIPTION_AUDIO_def NS_JINGLE_RTP_VIDEO_def
  NS_JINGLE_DESCRIPTION_VIDEO_def NS_GOOGLE_FEAT_VOICE_def NS_GOOGLE_FEAT_VIDEO_def

lemma caps_init_ok:
  assumes "\<And>A. finite A \<Longrightarrow> set (iter A) = A" and "caps_globals_ok voip ft g"
  shows "\<exists>g'. gabble_capabilities_init iter voip ft g = Some g' \<and> caps_globals_ok voip ft g'
    \<and> feature_handles_refcount g' = Suc (feature_handles_refcount g)"
proof (cases "feature_handles_refcount g = 0")
  case True
  with assms(2) have g: "g = caps_globals_start" by (simp add: caps_globals_ok_def)
  have "set (iter {NS_GOOGLE_FEAT_VOICE, NS_GOOGLE_FEAT_VIDEO}) =
      {NS_GOOGLE_FEAT_VOICE, NS_GOOGLE_FEAT_VIDEO}" by (rule assms(1)) simp
  then have jingle: "gabble_capability_set_exclude iter
      {NS_JINGLE_RTP_VIDEO, NS_JINGLE_DESCRIPTION_VIDEO, NS_GOOGLE_FEAT_VIDEO, NS_JINGLE_RTP_AUDIO,
       NS_JINGLE_DESCRIPTION_AUDIO, NS_GOOGLE_FEAT_VOICE} {NS_GOOGLE_FEAT_VOICE, NS_GOOGLE_FEAT_VIDEO} =
      {NS_JINGLE_RTP_AUDIO, NS_JINGLE_DESCRIPTION_AUDIO, NS_JINGLE_RTP_VIDEO, NS_JINGLE_DESCRIPTION_VIDEO}"
    unfolding gabble_capability_set_exclude_def foldl_remove by (auto simp: ns_defs)
  have u: "{NS_JINGLE_RTP_AUDIO, NS_JINGLE_DESCRIPTION_AUDIO, NS_GOOGLE_FEAT_VOICE} \<union>
      {NS_JINGLE_RTP_VIDEO, NS_JINGLE_DESCRIPTION_VIDEO, NS_GOOGLE_FEAT_VIDEO} =
      {NS_JINGLE_RTP_VIDEO, NS_JINGLE_DESCRIPTION_VIDEO, NS_GOOGLE_FEAT_VIDEO, NS_JINGLE_RTP_AUDIO,
       NS_JINGLE_DESCRIPTION_AUDIO, NS_GOOGLE_FEAT_VOICE}" by auto
  show ?thesis
    by (simp add: g gabble_capabilities_init_def caps_globals_start_def caps_globals_ok_def Let_def
        caps_init_voip_def gabble_capability_set_update_def u jingle del: Un_insert_left Un_insert_right)
next
  case False
  with assms(2) show ?thesis
    by (simp add: caps_globals_ok_def gabble_capabilities_init_def)
qed

lemma caps_finalize_ok:
  assumes "0 < feature_handles_refcount g" and "caps_globals_ok voip ft g"
  shows "\<exists>g'. gabble_capabilities_finalize g = Some g' \<and> caps_globals_ok voip ft g'
    \<and> Suc (feature_handles_refcount g') = feature_handles_refcount g"
  using assms
  by (cases g) (auto simp: caps_globals_ok_def gabble_capabilities_finalize_def caps_globals_start_def
      Let_def)

lemma caps_safe:
  assumes "\<And>A. finite A \<Longrightarrow> set (iter A) = A"
  shows "safe_system caps_legal (caps_step iter voip ft) (caps_globals_ok voip ft)"
proof
  fix g x
  assume "caps_globals_ok voip ft g" and "caps_legal x g"
  then show "\<exists>g'. caps_step iter voip ft x g = Some g' \<and> caps_globals_ok voip ft g'"
    using caps_init_ok [OF assms, of voip ft g] caps_finalize_ok [of g voip ft] by (cases x) auto
qed

lemma fold_caps_add_child:
  "f \<in> fold caps_add_child cs A \<longleftrightarrow> f \<in> A
     \<or> (\<exists>c \<in> set cs. node_name c = ''feature'' \<and> wocky_node_get_attribute c ''var'' = Some f
          \<and> \<not> is_quirk f)
     \<or> f = QUIRK_OMITS_CONTENT_CREATORS
       \<and> (\<exists>c \<in> set cs. node_name c = ''identity'' \<and> omits_content_creators c)"
  by (induction cs arbitrary: A)
    (auto simp: caps_add_child_def gabble_capability_set_add_def tp_strdiff_def split: option.splits
      if_splits)

section \<open>Properties\<close>

lemma sorted_iter: "finite A \<Longrightarrow> set (sorted_list_of_set (A :: string set)) = A"
  by simp

text \<open>C38. The operations that loop over a set compute the set operations, whatever the order of
  iteration: intersection, difference, a common element, inclusion.\<close>

theorem capability_set_algebra:
  assumes "\<And>A. finite A \<Longrightarrow> set (iter A) = A" and "finite a" and "finite b"
  shows "gabble_capability_set_intersect iter a b = a \<inter> b
    \<and> gabble_capability_set_exclude iter a b = a - b
    \<and> (gabble_capability_set_has_one iter a b \<longleftrightarrow> a \<inter> b \<noteq> {})
    \<and> (gabble_capability_set_at_least iter a b \<longleftrightarrow> b \<subseteq> a)"
  using assms
  by (auto simp: gabble_capability_set_intersect_def gabble_capability_set_exclude_def
      gabble_capability_set_has_one_def gabble_capability_set_at_least_def foldl_remove
      fold_intersect_helper has_one_loop_iff at_least_loop_iff)

theorem capability_set_algebra_witness:
  "gabble_capability_set_intersect sorted_list_of_set {''a'', ''b''} {''b'', ''c''} = {''b''}
    \<and> gabble_capability_set_exclude sorted_list_of_set {''a'', ''b''} {''b'', ''c''} = {''a''}
    \<and> gabble_capability_set_has_one sorted_list_of_set {''a'', ''b''} {''b'', ''c''}
    \<and> \<not> gabble_capability_set_at_least sorted_list_of_set {''a'', ''b''} {''b'', ''c''}"
  using capability_set_algebra [of sorted_list_of_set "{''a'', ''b''}" "{''b'', ''c''}", OF sorted_iter]
  by (simp add: insert_Diff_if)

text \<open>What a service discovery reply yields: a feature is in the set exactly when a \<open>feature\<close>
  child names it and it is not a quirk, and the one quirk that can come out of a reply is the one for
  an \<open>identity\<close> of an old Gabble. A peer cannot inject quirks by naming them as features.\<close>

theorem caps_from_stanza:
  "f \<in> gabble_capability_set_new_from_stanza q \<longleftrightarrow>
     (\<exists>c \<in> set (node_children q). node_name c = ''feature''
        \<and> wocky_node_get_attribute c ''var'' = Some f \<and> \<not> is_quirk f)
     \<or> f = QUIRK_OMITS_CONTENT_CREATORS
       \<and> (\<exists>c \<in> set (node_children q). node_name c = ''identity'' \<and> omits_content_creators c)"
  by (simp add: gabble_capability_set_new_from_stanza_def fold_caps_add_child)

text \<open>The quirk for Gabble 0.7.\<open>x\<close>: an identity whose name is the prefix and a decimal number
  below \<open>2 ^ 31\<close> is taken for a Gabble that omits content creators exactly when the number is at
  least 16 and less than 29.\<close>

theorem omits_content_creators_versions:
  assumes "ds \<noteq> []" and "\<forall>d \<in> set ds. is_digit d" and "digits_value ds < 2 ^ 31"
    and "wocky_node_get_attribute identity ''name'' = Some (OMITS_PREFIX @ ds)"
  shows "omits_content_creators identity \<longleftrightarrow> 16 \<le> digits_value ds \<and> digits_value ds < 29"
proof -
  have nonneg: "0 \<le> digits_value ds" using assms(2) by (rule digits_value_nonneg)
  then have "strtol ds = (digits_value ds, [])"
    using assms by (intro strtol_digits) (auto simp: LONG_MAX_def)
  moreover have "sint (word_of_int (digits_value ds) :: 32 word) = digits_value ds"
    using nonneg assms(3) by (simp add: sint_sbintrunc' signed_take_bit_int_eq_self)
  ultimately show ?thesis
    using assms(4) by (simp add: omits_content_creators_def Let_def)
qed

theorem omits_content_creators_versions_witness:
  "omits_content_creators (WockyNode ''identity'' None None
     [\<lparr>attr_key = ''name'', attr_value = OMITS_PREFIX @ ''28'', attr_ns = None\<rparr>] [])
   \<and> \<not> omits_content_creators (WockyNode ''identity'' None None
     [\<lparr>attr_key = ''name'', attr_value = OMITS_PREFIX @ ''29'', attr_ns = None\<rparr>] [])"
  using omits_content_creators_versions [of "''28''" "WockyNode ''identity'' None None
     [\<lparr>attr_key = ''name'', attr_value = OMITS_PREFIX @ ''28'', attr_ns = None\<rparr>] []"]
   omits_content_creators_versions [of "''29''" "WockyNode ''identity'' None None
     [\<lparr>attr_key = ''name'', attr_value = OMITS_PREFIX @ ''29'', attr_ns = None\<rparr>] []"]
  by (simp add: is_digit_def digits_value_def wocky_node_defs)

text \<open>The global sets live as long as a connection does: after any sequence of initialisations
  and finalisations, never more of the latter, nothing has failed; while a connection is left the
  sets are there with their contents (the Jingle audio/video set is the four Jingle namespaces, the
  Google ones excluded), and when the last one has gone everything is back in the initial state.\<close>

theorem caps_globals_life:
  assumes "\<And>A. finite A \<Longrightarrow> set (iter A) = A"
    and "legal_run caps_legal (caps_step iter voip ft) xs caps_globals_start"
  shows "\<exists>g. run (caps_step iter voip ft) xs caps_globals_start = Some g \<and> caps_globals_ok voip ft g"
proof -
  have "caps_globals_ok voip ft caps_globals_start"
    by (simp add: caps_globals_ok_def caps_globals_start_def)
  then show ?thesis
    using safe_system.run_safe [OF caps_safe [OF assms(1), of voip ft] _ assms(2)] by simp
qed

theorem caps_globals_life_witness:
  "\<exists>g. run (caps_step sorted_list_of_set True False)
      [Caps_Init, Caps_Init, Caps_Finalize, Caps_Finalize, Caps_Init] caps_globals_start = Some g
    \<and> caps_globals_ok True False g"
proof -
  have l: "legal_run caps_legal (caps_step sorted_list_of_set True False)
      [Caps_Init, Caps_Init, Caps_Finalize, Caps_Finalize, Caps_Init] caps_globals_start"
    by (simp add: gabble_capabilities_init_def gabble_capabilities_finalize_def caps_init_voip_def
        caps_globals_start_def Let_def)
  show ?thesis by (rule caps_globals_life [OF sorted_iter l])
qed

end
