(* ===== verification/Caps_Hash.thy ===== *)
theory Caps_Hash
  imports Data_Forms Capabilities "HOL-Library.Product_Lexorder" "HOL-Library.Option_ord" "HOL-Library.Multiset"
begin

text \<open>
  Entity capability hashes (XEP-0115): \<open>lib/ext/wocky/wocky/wocky-caps-hash.c\<close>, \<open>wocky-disco-identity.c\<close> and
  \<open>src/caps-hash.c\<close>, and the nodes of a service discovery reply as \<open>src/connection.c\<close> writes them. The SHA-1
  checksum of a string, encoded in base64, is the parameter \<open>digest\<close>. Strings are compared byte by byte,
  as \<open>strcmp\<close> does. The language of a node, a field of its own in the code, is represented as its
  attribute \<open>lang\<close> in the namespace of XML, which is where it is in the stanza.
\<close>

section \<open>Identities\<close>

record WockyDiscoIdentity =
  id_category :: string
  id_type :: string
  id_lang :: cstring
  id_name :: cstring

definition wocky_disco_identity_new :: "string \<Rightarrow> string \<Rightarrow> cstring \<Rightarrow> cstring \<Rightarrow> WockyDiscoIdentity" where
  "wocky_disco_identity_new category type lang name =
     \<lparr>id_category = category, id_type = type, id_lang = lang, id_name = name\<rparr>"

definition str_or_empty :: "cstring \<Rightarrow> string" where
  "str_or_empty s = (case s of None \<Rightarrow> [] | Some x \<Rightarrow> x)"

text \<open>\<open>wocky_disco_identity_cmp\<close> orders identities by these four strings; it hands a \<open>NULL\<close> language or name to
  \<open>strcmp\<close> when all that comes before it is equal. The sort is taken to compare any two identities.\<close>

definition wocky_disco_identity_key :: "WockyDiscoIdentity \<Rightarrow> string \<times> string \<times> string \<times> string" where
  "wocky_disco_identity_key i = (id_category i, id_type i, str_or_empty (id_lang i), str_or_empty (id_name i))"

definition wocky_disco_identity_cmp_ok :: "WockyDiscoIdentity \<Rightarrow> WockyDiscoIdentity \<Rightarrow> bool" where
  "wocky_disco_identity_cmp_ok i j \<longleftrightarrow>
     (id_category i = id_category j \<and> id_type i = id_type j \<longrightarrow>
        id_lang i \<noteq> None \<and> id_lang j \<noteq> None
        \<and> (id_lang i = id_lang j \<longrightarrow> id_name i \<noteq> None \<and> id_name j \<noteq> None))"

primrec identities_sortable :: "WockyDiscoIdentity list \<Rightarrow> bool" where
  "identities_sortable [] = True"
| "identities_sortable (i # is) \<longleftrightarrow> (\<forall>j \<in> set is. wocky_disco_identity_cmp_ok i j) \<and> identities_sortable is"

section \<open>The hash\<close>

definition identity_str :: "WockyDiscoIdentity \<Rightarrow> string" where
  "identity_str i =
     id_category i @ ''/'' @ id_type i @ ''/'' @ str_or_empty (id_lang i) @ ''/'' @ str_or_empty (id_name i)"

text \<open>\<open>dataforms_cmp\<close>: forms without \<open>FORM_TYPE\<close> come first, then the ones without a value of it.\<close>

definition dataforms_key :: "WockyDataForm \<Rightarrow> cstring option" where
  "dataforms_key form =
     map_option (\<lambda>f. case df_raw_value_contents f of Some (v # _) \<Rightarrow> Some v | _ \<Rightarrow> None)
       (form_field form ''FORM_TYPE'')"

definition terminated :: "string \<Rightarrow> string" where
  "terminated s = s @ ''<''"

text \<open>The loop over the fields of a form; \<open>None\<close> is the jump to \<open>cleanup\<close>.\<close>

definition hash_field :: "WockyDataFormField \<Rightarrow> string option" where
  "hash_field field =
     (case df_var field of
        None \<Rightarrow> None
      | Some var \<Rightarrow>
          if var = ''FORM_TYPE'' then Some []
          else case df_raw_value_contents field of
            None \<Rightarrow> None
          | Some vals \<Rightarrow> if vals = [] then None else Some (terminated var @ concat (map terminated (sort vals))))"

primrec hash_fields :: "WockyDataFormField list \<Rightarrow> string option" where
  "hash_fields [] = Some []"
| "hash_fields (f # fs) = do { s \<leftarrow> hash_field f; t \<leftarrow> hash_fields fs; Some (s @ t) }"

text \<open>A form that takes part in the hash: it has a hidden field \<open>FORM_TYPE\<close>.\<close>

definition hashed_form :: "WockyDataForm \<Rightarrow> bool" where
  "hashed_form form \<longleftrightarrow>
     (case form_field form ''FORM_TYPE'' of
        None \<Rightarrow> False
      | Some field \<Rightarrow> df_type field = WOCKY_DATA_FORM_FIELD_TYPE_HIDDEN)"

definition form_name :: "WockyDataForm \<Rightarrow> string option" where
  "form_name form =
     (case form_field form ''FORM_TYPE'' of
        None \<Rightarrow> None
      | Some field \<Rightarrow> (case df_raw_value_contents field of Some [name] \<Rightarrow> Some name | _ \<Rightarrow> None))"

text \<open>The loop over the forms, with the names seen before in \<open>form_names\<close>.\<close>

fun hash_forms :: "string list \<Rightarrow> WockyDataForm list \<Rightarrow> string option" where
  "hash_forms form_names [] = Some []"
| "hash_forms form_names (form # forms) =
     (if \<not> hashed_form form then hash_forms form_names forms
      else case form_name form of
        None \<Rightarrow> None
      | Some name \<Rightarrow>
          if name \<in> set form_names then None
          else do {
            fs \<leftarrow> hash_fields (sort_key df_var (fields_list form));
            rest \<leftarrow> hash_forms (name # form_names) forms;
            Some (terminated name @ fs @ rest)
          })"

text \<open>What is fed to the checksum.\<close>

definition caps_hash_input ::
    "string list \<Rightarrow> WockyDiscoIdentity list \<Rightarrow> WockyDataForm list \<Rightarrow> string option" where
  "caps_hash_input features identities dataforms =
     map_option (\<lambda>fs.
         concat (map (\<lambda>i. terminated (identity_str i)) (sort_key wocky_disco_identity_key identities))
         @ concat (map terminated (sort features)) @ fs)
       (hash_forms [] (sort_key dataforms_key dataforms))"

text \<open>The outer option is a crash in the sort, the inner one a returned \<open>NULL\<close>.\<close>

definition wocky_caps_hash_compute_from_lists ::
    "(string \<Rightarrow> string) \<Rightarrow> string list \<Rightarrow> WockyDiscoIdentity list \<Rightarrow> WockyDataForm list \<Rightarrow> cstring option" where
  "wocky_caps_hash_compute_from_lists digest features identities dataforms =
     (if identities_sortable identities
      then Some (map_option digest (caps_hash_input features identities dataforms)) else None)"

section \<open>From a discovery reply\<close>

definition XML_NS :: string where
  "XML_NS = ''http://www.w3.org/XML/1998/namespace''"

definition wocky_node_get_language :: "WockyNode \<Rightarrow> cstring" where
  "wocky_node_get_language node = wocky_node_get_attribute_ns node ''lang'' (Some XML_NS)"

definition node_identity :: "WockyNode \<Rightarrow> WockyDiscoIdentity option" where
  "node_identity child =
     (if node_name child = ''identity'' then
        map_option (\<lambda>category.
            wocky_disco_identity_new category
              (str_or_empty (wocky_node_get_attribute child ''type''))
              (Some (str_or_empty (wocky_node_get_language child)))
              (Some (str_or_empty (wocky_node_get_attribute child ''name''))))
          (wocky_node_get_attribute child ''category'')
      else None)"

definition node_feature :: "WockyNode \<Rightarrow> string option" where
  "node_feature child =
     (if node_name child = ''identity'' then None
      else if node_name child = ''feature'' then wocky_node_get_attribute child ''var'' else None)"

text \<open>The loop over the forms ends at the first one that cannot be parsed.\<close>

primrec parse_dataforms :: "WockyNode list \<Rightarrow> WockyDataForm list option" where
  "parse_dataforms [] = Some []"
| "parse_dataforms (x # xs) =
     (case wocky_data_form_new_from_node x of
        Inl _ \<Rightarrow> None
      | Inr form \<Rightarrow> map_option ((#) form) (parse_dataforms xs))"

definition wocky_caps_hash_compute_from_node :: "(string \<Rightarrow> string) \<Rightarrow> WockyNode \<Rightarrow> cstring option" where
  "wocky_caps_hash_compute_from_node digest node =
     (case parse_dataforms (wocky_node_iter node (Some ''x'') (Some WOCKY_XMPP_NS_DATA)) of
        None \<Rightarrow> Some None
      | Some dataforms \<Rightarrow>
          wocky_caps_hash_compute_from_lists digest
            (List.map_filter node_feature (node_children node))
            (List.map_filter node_identity (node_children node)) dataforms)"

section \<open>Our own hash\<close>

definition set_features :: "(GabbleCapabilitySet \<Rightarrow> string list) \<Rightarrow> GabbleCapabilitySet \<Rightarrow> string list" where
  "set_features iter cap_set = gabble_capability_set_foreach iter cap_set (\<lambda>f fs. fs @ [f]) []"

text \<open>\<open>CLIENT_TYPE\<close> and \<open>PACKAGE_STRING\<close> come from the build.\<close>

definition own_identity :: "string \<Rightarrow> string \<Rightarrow> WockyDiscoIdentity" where
  "own_identity client_type package = wocky_disco_identity_new ''client'' client_type None (Some package)"

definition caps_hash_compute_from_self_presence ::
    "(string \<Rightarrow> string) \<Rightarrow> (GabbleCapabilitySet \<Rightarrow> string list) \<Rightarrow> string \<Rightarrow> string \<Rightarrow> GabbleCapabilitySet \<Rightarrow>
     WockyDataForm list \<Rightarrow> cstring option" where
  "caps_hash_compute_from_self_presence digest iter client_type package cap_set data_forms =
     wocky_caps_hash_compute_from_lists digest (set_features iter cap_set)
       [own_identity client_type package] data_forms"

definition gabble_caps_hash_compute_full ::
    "(string \<Rightarrow> string) \<Rightarrow> (GabbleCapabilitySet \<Rightarrow> string list) \<Rightarrow> GabbleCapabilitySet \<Rightarrow>
     WockyDiscoIdentity list option \<Rightarrow> WockyDataForm list \<Rightarrow> cstring option" where
  "gabble_caps_hash_compute_full digest iter cap_set identities data_forms =
     wocky_caps_hash_compute_from_lists digest (set_features iter cap_set)
       (case identities of None \<Rightarrow> [] | Some is \<Rightarrow> is) data_forms"

definition gabble_caps_hash_compute ::
    "(string \<Rightarrow> string) \<Rightarrow> (GabbleCapabilitySet \<Rightarrow> string list) \<Rightarrow> GabbleCapabilitySet \<Rightarrow>
     WockyDiscoIdentity list option \<Rightarrow> cstring option" where
  "gabble_caps_hash_compute digest iter cap_set identities =
     gabble_caps_hash_compute_full digest iter cap_set identities []"

section \<open>The discovery reply\<close>

definition add_feature_node :: "string \<Rightarrow> WockyNode \<Rightarrow> WockyNode" where
  "add_feature_node namespace result_query =
     add_child_node result_query
       (wocky_node_set_attribute (WockyNode ''feature'' None (node_ns result_query) [] []) ''var'' namespace)"

definition set_opt_attribute :: "string \<Rightarrow> cstring \<Rightarrow> WockyNode \<Rightarrow> WockyNode" where
  "set_opt_attribute key val node =
     (case val of None \<Rightarrow> node | Some v \<Rightarrow> wocky_node_set_attribute node key v)"

definition add_identity_node :: "WockyDiscoIdentity \<Rightarrow> WockyNode \<Rightarrow> WockyNode" where
  "add_identity_node identity result_query =
     add_child_node result_query
       (set_opt_attribute ''name'' (id_name identity)
         (set_opt_attribute ''lang'' (id_lang identity)
           (wocky_node_set_attribute
             (wocky_node_set_attribute (WockyNode ''identity'' None (node_ns result_query) [] [])
               ''category'' (id_category identity)) ''type'' (id_type identity))))"

text \<open>The identity Gabble publishes when it has no other.\<close>

definition add_default_identity :: "string \<Rightarrow> string \<Rightarrow> WockyNode \<Rightarrow> WockyNode" where
  "add_default_identity client_type package result_query =
     add_child_node result_query
       (wocky_node_set_attribute
         (wocky_node_set_attribute
           (wocky_node_set_attribute (WockyNode ''identity'' None (node_ns result_query) [] [])
             ''category'' ''client'') ''name'' package) ''type'' client_type)"

primrec add_forms :: "WockyDataForm list \<Rightarrow> WockyNode \<Rightarrow> WockyNode option" where
  "add_forms [] node = Some node"
| "add_forms (form # forms) node = Option.bind (wocky_data_form_add_to_node form node) (add_forms forms)"

text \<open>The contents of the reply of \<open>iq_disco_cb\<close>: identities, forms, features.\<close>

definition fill_disco_reply ::
    "(GabbleCapabilitySet \<Rightarrow> string list) \<Rightarrow> string \<Rightarrow> string \<Rightarrow> GabbleCapabilitySet option \<Rightarrow>
     WockyDiscoIdentity list \<Rightarrow> WockyDataForm list \<Rightarrow> WockyNode \<Rightarrow> WockyNode option" where
  "fill_disco_reply iter client_type package features identities data_forms query =
     do {
       q \<leftarrow> add_forms data_forms
              (if identities \<noteq> [] then fold add_identity_node identities query
               else add_default_identity client_type package query);
       Some (case features of
               None \<Rightarrow> q
             | Some caps \<Rightarrow> gabble_capability_set_foreach iter caps add_feature_node q)
     }"

section \<open>The hash does not depend on the order\<close>

lemma sort_key_cong_on: "(\<And>x. x \<in> set xs \<Longrightarrow> f x = g x) \<Longrightarrow> sort_key f xs = sort_key g xs"
proof (induction xs)
  case (Cons x xs)
  have "insort_key f x ys = insort_key g x ys" if "set ys \<subseteq> set (x # xs)" for ys
    using that Cons.prems by (induction ys) auto
  then have "insort_key f x (sort_key g xs) = insort_key g x (sort_key g xs)" by (simp add: subset_insertI)
  with Cons show ?case by simp
qed simp

lemma insort_key_map: "insort_key f (g x) (map g xs) = map g (insort_key (\<lambda>x. f (g x)) x xs)"
  by (induction xs) auto

lemma sort_key_map: "sort_key f (map g xs) = map g (sort_key (\<lambda>x. f (g x)) xs)"
  by (induction xs) (simp_all add: insort_key_map)

lemma map_sort_key: "map f (sort_key f xs) = sort (map f xs)"
  by (simp add: sort_key_map)

lemma sort_mset_eq: "mset xs = mset ys \<Longrightarrow> sort xs = sort (ys :: 'a :: linorder list)"
  by (metis mset_sort properties_for_sort sorted_sort)

definition form_piece :: "WockyDataForm \<Rightarrow> string" where
  "form_piece form = terminated (the (form_name form)) @ the (hash_fields (sort_key df_var (fields_list form)))"

definition form_hashable :: "WockyDataForm \<Rightarrow> bool" where
  "form_hashable form \<longleftrightarrow> form_name form \<noteq> None \<and> hash_fields (sort_key df_var (fields_list form)) \<noteq> None"

lemma hash_forms_eq:
  "hash_forms names forms =
     (if (\<forall>f \<in> set (filter hashed_form forms). form_hashable f \<and> the (form_name f) \<notin> set names)
         \<and> distinct (map (\<lambda>f. the (form_name f)) (filter hashed_form forms))
      then Some (concat (map form_piece (filter hashed_form forms))) else None)"
proof (induction names forms rule: hash_forms.induct)
  case (2 names form forms)
  show ?case
  proof (cases "hashed_form form")
    case True
    show ?thesis
    proof (cases "form_hashable form")
      case hashable: True
      then obtain name fs where "form_name form = Some name"
          "hash_fields (sort_key df_var (fields_list form)) = Some fs" by (auto simp: form_hashable_def)
      with True hashable "2.IH"(2) [OF _ this(1)] show ?thesis
        by (auto simp: form_piece_def [of form] bind_eq_Some_conv)
    next
      case False
      with True show ?thesis by (auto simp: form_hashable_def split: option.splits)
    qed
  qed (use "2.IH"(1) in simp)
qed simp

lemma hashed_key: "hashed_form f \<Longrightarrow> form_hashable f \<Longrightarrow> dataforms_key f = Some (Some (the (form_name f)))"
  by (auto simp: hashed_form_def form_hashable_def dataforms_key_def form_name_def split: option.splits list.splits)

lemma hash_forms_mset:
  assumes "mset forms = mset forms'"
  shows "hash_forms [] (sort_key dataforms_key forms) = hash_forms [] (sort_key dataforms_key forms')"
proof -
  let ?H = "filter hashed_form forms" and ?H' = "filter hashed_form forms'"
  have m: "mset ?H = mset ?H'" using assms by (simp add: mset_filter)
  have s: "set ?H = set ?H'" using m by (metis set_mset_mset)
  let ?n = "\<lambda>f. the (form_name f)"
  have "mset (map ?n ?H) = mset (map ?n ?H')" using m by simp
  then have d: "distinct (map ?n ?H) = distinct (map ?n ?H')" by (rule mset_eq_imp_distinct_iff)
  have d_sort: "distinct (map ?n (sort_key dataforms_key hs)) = distinct (map ?n hs)" for hs
    by (rule mset_eq_imp_distinct_iff) simp
  show ?thesis
  proof (cases "(\<forall>f \<in> set ?H. form_hashable f) \<and> distinct (map ?n ?H)")
    case True
    then have "inj_on dataforms_key (set ?H)"
      by (auto simp: inj_on_def hashed_key distinct_map)
    then have "sort_key dataforms_key ?H = sort_key dataforms_key ?H'"
      by (intro sort_key_inj_key_eq) (use m in simp_all)
    then show ?thesis using True s d d_sort by (simp add: hash_forms_eq filter_sort)
  next
    case False
    with s d d_sort show ?thesis unfolding hash_forms_eq filter_sort by auto
  qed
qed

lemma identity_str_key:
  "identity_str i = (case wocky_disco_identity_key i of (c, t, l, n) \<Rightarrow> c @ ''/'' @ t @ ''/'' @ l @ ''/'' @ n)"
  by (simp add: identity_str_def wocky_disco_identity_key_def)

definition identities_str :: "WockyDiscoIdentity list \<Rightarrow> string" where
  "identities_str is = concat (map (\<lambda>i. terminated (identity_str i)) (sort_key wocky_disco_identity_key is))"

lemma identities_str_keys:
  "identities_str is = concat (map (\<lambda>k. terminated (case k of (c, t, l, n) \<Rightarrow> c @ ''/'' @ t @ ''/'' @ l @ ''/'' @ n))
     (sort (map wocky_disco_identity_key is)))"
  by (simp add: identities_str_def identity_str_key map_sort_key [symmetric] o_def)

lemma cmp_ok_sym: "wocky_disco_identity_cmp_ok i j = wocky_disco_identity_cmp_ok j i"
  by (auto simp: wocky_disco_identity_cmp_ok_def)

lemma pair_subset: "{#i, j#} \<subseteq># M \<longleftrightarrow> (if i = j then 2 \<le> count M i else i \<in># M \<and> j \<in># M)"
  by (auto simp: subseteq_mset_def numeral_2_eq_2 Suc_le_eq)

lemma identities_sortable_mset:
  "identities_sortable is \<longleftrightarrow> (\<forall>i j. {#i, j#} \<subseteq># mset is \<longrightarrow> wocky_disco_identity_cmp_ok i j)"
proof (induction "is")
  case (Cons a "is")
  have "{#i, j#} \<subseteq># mset (a # is) \<longleftrightarrow>
      {#i, j#} \<subseteq># mset is \<or> (i = a \<and> j \<in> set is) \<or> (j = a \<and> i \<in> set is)" for i j
    unfolding pair_subset by (auto simp: Suc_le_eq numeral_2_eq_2 dest: Suc_lessD)
  with Cons show ?case using cmp_ok_sym by auto
qed (simp add: pair_subset)

lemma caps_hash_input_split:
  "caps_hash_input features identities forms =
     map_option (\<lambda>fs. identities_str identities @ concat (map terminated (sort features)) @ fs)
       (hash_forms [] (sort_key dataforms_key forms))"
  by (simp add: caps_hash_input_def identities_str_def)

text \<open>C16. The capability hash is canonical: whatever order features, identities and data forms are given in, the
  hash is the same, and so is the answer whether there is one.\<close>

theorem caps_hash_order:
  assumes "mset features = mset features'" "mset identities = mset identities'" "mset forms = mset forms'"
  shows "wocky_caps_hash_compute_from_lists digest features identities forms =
    wocky_caps_hash_compute_from_lists digest features' identities' forms'"
proof -
  have "identities_sortable identities = identities_sortable identities'"
    using assms(2) by (simp add: identities_sortable_mset)
  moreover have "identities_str identities = identities_str identities'"
    using assms(2) by (simp add: identities_str_keys sort_mset_eq [of "map wocky_disco_identity_key identities"
          "map wocky_disco_identity_key identities'"])
  moreover have "sort features = sort features'" using assms(1) by (rule sort_mset_eq)
  ultimately show ?thesis
    using hash_forms_mset [OF assms(3)]
    by (simp add: wocky_caps_hash_compute_from_lists_def caps_hash_input_split)
qed

section \<open>A peer that checks our hash accepts it\<close>

text \<open>The parts of a form that the hash depends on.\<close>

definition same_hash :: "WockyDataForm \<Rightarrow> WockyDataForm \<Rightarrow> bool" where
  "same_hash form form' \<longleftrightarrow>
     hashed_form form' = hashed_form form \<and> form_name form' = form_name form
     \<and> dataforms_key form' = dataforms_key form
     \<and> (\<forall>s. hash_fields (sort_key df_var (fields_list form)) = Some s \<longrightarrow>
            hash_fields (sort_key df_var (fields_list form')) = Some s)"

lemma hash_forms_same:
  "list_all2 same_hash forms forms' \<Longrightarrow> hash_forms names forms = Some s \<Longrightarrow> hash_forms names forms' = Some s"
proof (induction forms forms' arbitrary: names s rule: list_all2_induct)
  case (Cons f fs f' fs')
  then show ?case
    by (auto simp: same_hash_def bind_eq_Some_conv split: if_splits option.splits)
qed simp

lemma sort_forms_same:
  assumes "list_all2 same_hash forms forms'"
  shows "list_all2 same_hash (sort_key dataforms_key forms) (sort_key dataforms_key forms')"
proof -
  let ?ps = "zip forms forms'"
  have l: "length forms = length forms'" using assms by (rule list_all2_lengthD)
  have r: "\<forall>(f, g) \<in> set ?ps. same_hash f g" using assms by (auto simp: list_all2_iff)
  have "sort_key dataforms_key (map snd ?ps) = map snd (sort_key (\<lambda>p. dataforms_key (fst p)) ?ps)"
    unfolding sort_key_map by (rule arg_cong [where f = "map snd"], rule sort_key_cong_on)
      (use r in \<open>auto simp: same_hash_def\<close>)
  moreover have "sort_key dataforms_key (map fst ?ps) = map fst (sort_key (\<lambda>p. dataforms_key (fst p)) ?ps)"
    by (rule sort_key_map)
  ultimately show ?thesis
    using r l by (auto simp: list_all2_map1 list_all2_map2 list_all2_same)
qed

lemma hash_field_cong: "df_var f = df_var g \<Longrightarrow> df_raw_value_contents f = df_raw_value_contents g \<Longrightarrow>
    hash_field f = hash_field g"
  by (simp add: hash_field_def split: option.splits)

lemma hash_fields_cong:
  "list_all2 (\<lambda>f g. df_var f = df_var g \<and> df_raw_value_contents f = df_raw_value_contents g) fs gs \<Longrightarrow>
   hash_fields fs = hash_fields gs"
  by (induction rule: list_all2_induct) (auto dest: hash_field_cong)

lemma hash_fields_named: "hash_fields fs \<noteq> None \<Longrightarrow> \<forall>f \<in> set fs. df_var f \<noteq> None"
  by (induction fs) (auto simp: hash_field_def split: option.splits Option.bind_splits)

lemma map_eq_list_all2: "map h xs = map h' ys \<Longrightarrow> list_all2 (\<lambda>x y. h x = h' y) xs ys"
proof (induction xs arbitrary: ys)
  case (Cons x xs)
  then show ?case by (cases ys) auto
qed simp

lemma sort_fields_related:
  assumes "map (\<lambda>f. (df_var f, h f)) fs = map (\<lambda>f. (df_var f, h' f)) gs"
  shows "map (\<lambda>f. (df_var f, h f)) (sort_key df_var fs) = map (\<lambda>f. (df_var f, h' f)) (sort_key df_var gs)"
  using sort_key_map [of fst "\<lambda>f. (df_var f, h f)" fs] sort_key_map [of fst "\<lambda>f. (df_var f, h' f)" gs] assms
  by simp

lemma find_map: "find P (map f xs) = map_option f (find (\<lambda>x. P (f x)) xs)"
  by (induction xs) auto

lemma find_filter_imp: "(\<And>x. P x \<Longrightarrow> Q x) \<Longrightarrow> find P (filter Q xs) = find P xs"
  by (induction xs) auto

lemma form_field_view:
  assumes "map field_view (fields_list form') = form_view form"
  shows "map_option field_view (form_field form' var) =
    map_option (\<lambda>f. (df_var f, type_read f, df_raw_value_contents f)) (form_field form var)"
proof -
  let ?v = "\<lambda>f. (df_var f, type_read f, df_raw_value_contents f)"
  have "map_option field_view (form_field form' var) = find (\<lambda>v. fst v = Some var) (rev (map field_view (fields_list form')))"
    by (simp add: form_field_def rev_map find_map field_view_def)
  also have "\<dots> = find (\<lambda>v. fst v = Some var) (rev (form_view form))" using assms by simp
  also have "\<dots> = map_option ?v (form_field form var)"
    using find_filter_imp [of "\<lambda>f. df_var f = Some var" "\<lambda>f. df_var f \<noteq> None" "rev (fields_list form)"]
    by (simp add: form_field_def form_view_def rev_map find_map rev_filter)
  finally show ?thesis .
qed

lemma written_same_hash:
  assumes "map field_view (fields_list form') = form_view form"
  shows "same_hash form form'"
proof -
  note ff = form_field_view [OF assms, of "''FORM_TYPE''"]
  have hid: "type_read f = WOCKY_DATA_FORM_FIELD_TYPE_HIDDEN \<longleftrightarrow> df_type f = WOCKY_DATA_FORM_FIELD_TYPE_HIDDEN" for f
    by (auto simp: type_read_def)
  have "hashed_form form' = hashed_form form" "form_name form' = form_name form"
      "dataforms_key form' = dataforms_key form"
    using ff hid
    by (cases "form_field form ''FORM_TYPE''"; cases "form_field form' ''FORM_TYPE''";
        simp add: hashed_form_def form_name_def dataforms_key_def field_view_def)+
  moreover have "hash_fields (sort_key df_var (fields_list form')) = Some s"
    if s: "hash_fields (sort_key df_var (fields_list form)) = Some s" for s
  proof -
    have "\<forall>f \<in> set (fields_list form). df_var f \<noteq> None"
      using hash_fields_named [of "sort_key df_var (fields_list form)"] s by simp
    then have "filter (\<lambda>f. df_var f \<noteq> None) (fields_list form) = fields_list form" by (intro filter_True) blast
    then have "map (\<lambda>f. (df_var f, df_type f, df_raw_value_contents f)) (fields_list form') =
        map (\<lambda>f. (df_var f, type_read f, df_raw_value_contents f)) (fields_list form)"
      using assms by (simp add: form_view_def field_view_def [abs_def])
    then have "map (\<lambda>f. (df_var f, df_type f, df_raw_value_contents f)) (sort_key df_var (fields_list form')) =
        map (\<lambda>f. (df_var f, type_read f, df_raw_value_contents f)) (sort_key df_var (fields_list form))"
      by (rule sort_fields_related)
    from map_eq_list_all2 [OF this]
    have "list_all2 (\<lambda>f g. df_var f = df_var g \<and> df_raw_value_contents f = df_raw_value_contents g)
        (sort_key df_var (fields_list form')) (sort_key df_var (fields_list form))"
      by (rule list_all2_mono) simp
    then show ?thesis using s by (simp add: hash_fields_cong)
  qed
  ultimately show ?thesis by (simp add: same_hash_def)
qed

definition plain_lang :: "WockyDiscoIdentity \<Rightarrow> bool" where
  "plain_lang i \<longleftrightarrow> str_or_empty (id_lang i) = []"

definition identity_node :: "cstring \<Rightarrow> WockyDiscoIdentity \<Rightarrow> WockyNode" where
  "identity_node ns identity =
     (set_opt_attribute ''name'' (id_name identity)
         (set_opt_attribute ''lang'' (id_lang identity)
           (wocky_node_set_attribute
             (wocky_node_set_attribute (WockyNode ''identity'' None ns [] [])
               ''category'' (id_category identity)) ''type'' (id_type identity))))"

lemma identity_node_attributes:
  "node_name (identity_node ns i) = ''identity''"
  "wocky_node_get_attribute (identity_node ns i) ''category'' = Some (id_category i)"
  "wocky_node_get_attribute (identity_node ns i) ''type'' = Some (id_type i)"
  "wocky_node_get_attribute (identity_node ns i) ''name'' = id_name i"
  "wocky_node_get_attribute_ns (identity_node ns i) ''lang'' (Some XML_NS) = None"
  by (cases "id_name i"; cases "id_lang i";
      simp add: identity_node_def set_opt_attribute_def wocky_node_defs)+

lemma read_identity:
  "node_identity (identity_node ns i) =
     Some (wocky_disco_identity_new (id_category i) (id_type i) (Some []) (Some (str_or_empty (id_name i))))"
  by (simp add: node_identity_def identity_node_attributes wocky_node_get_language_def str_or_empty_def)

lemma add_identities:
  "fold add_identity_node is node = foldl add_child_node node (map (identity_node (node_ns node)) is)"
proof (induction "is" arbitrary: node)
  case (Cons i "is")
  then show ?case by (simp add: add_identity_node_def identity_node_def)
qed simp

lemma foldl_add_children [simp]:
  "node_children (foldl add_child_node node cs) = node_children node @ cs"
  "node_ns (foldl add_child_node node cs) = node_ns node"
  by (induction cs arbitrary: node) auto

definition feature_node :: "cstring \<Rightarrow> string \<Rightarrow> WockyNode" where
  "feature_node ns f = wocky_node_set_attribute (WockyNode ''feature'' None ns [] []) ''var'' f"

lemma read_feature: "node_feature (feature_node ns f) = Some f" "node_identity (feature_node ns f) = None"
    "node_name (feature_node ns f) = ''feature''" "wocky_node_get_attribute (feature_node ns f) ''var'' = Some f"
  by (simp_all add: node_feature_def node_identity_def feature_node_def wocky_node_defs)

lemma set_features_eq: "set_features iter caps = filter (\<lambda>f. \<not> is_quirk f) (iter caps)"
proof -
  have "fold (\<lambda>var s. if \<not> is_quirk var then s @ [var] else s) fs ys = ys @ filter (\<lambda>f. \<not> is_quirk f) fs" for fs ys
    by (induction fs arbitrary: ys) auto
  then show ?thesis by (simp add: set_features_def gabble_capability_set_foreach_def)
qed

lemma add_features:
  "gabble_capability_set_foreach iter caps add_feature_node node =
     foldl add_child_node node (map (feature_node (node_ns node)) (set_features iter caps))"
proof -
  have "fold (\<lambda>var s. if \<not> is_quirk var then add_feature_node var s else s) fs n =
      foldl add_child_node n (map (feature_node (node_ns n)) (filter (\<lambda>f. \<not> is_quirk f) fs))" for fs n
    by (induction fs arbitrary: n) (auto simp: add_feature_node_def feature_node_def)
  then show ?thesis by (simp add: gabble_capability_set_foreach_def set_features_eq)
qed

lemma add_forms_written:
  assumes "\<forall>form \<in> set forms. form_readable form"
  shows "\<exists>xs forms'. add_forms forms node = Some (foldl add_child_node node xs)
    \<and> (\<forall>x \<in> set xs. node_name x = ''x'' \<and> node_ns x = Some WOCKY_XMPP_NS_DATA)
    \<and> parse_dataforms xs = Some forms' \<and> list_all2 same_hash forms forms'"
  using assms
proof (induction forms arbitrary: node)
  case Nil
  show ?case by (intro exI [of _ "[]"]) simp
next
  case (Cons form forms)
  obtain x form' where x: "wocky_data_form_add_to_node form node = Some (add_child_node node x)"
      "node_name x = ''x''" "node_ns x = Some WOCKY_XMPP_NS_DATA" "wocky_data_form_new_from_node x = Inr form'"
      "same_hash form form'"
    using data_form_written [of form node] Cons.prems written_same_hash by auto
  obtain xs forms' where xs: "add_forms forms (add_child_node node x) = Some (foldl add_child_node (add_child_node node x) xs)"
      "\<forall>x \<in> set xs. node_name x = ''x'' \<and> node_ns x = Some WOCKY_XMPP_NS_DATA"
      "parse_dataforms xs = Some forms'" "list_all2 same_hash forms forms'"
    using Cons.IH [of "add_child_node node x"] Cons.prems by auto
  show ?case by (rule exI [of _ "x # xs"], rule exI [of _ "form' # forms'"]) (use x xs in simp)
qed

lemma map_filter_append: "List.map_filter f (xs @ ys) = List.map_filter f xs @ List.map_filter f ys"
  by (simp add: List.map_filter_def)

lemma map_filter_all: "\<forall>x \<in> set xs. f x = Some (g x) \<Longrightarrow> List.map_filter f xs = map g xs"
  by (induction xs) (auto simp: map_filter_simps)

lemma map_filter_none: "\<forall>x \<in> set xs. f x = None \<Longrightarrow> List.map_filter f xs = []"
  by (induction xs) (auto simp: map_filter_simps)

lemma map_filter_map: "List.map_filter f (map g xs) = List.map_filter (\<lambda>x. f (g x)) xs"
  by (induction xs) (auto simp: map_filter_simps split: option.splits)

definition read_back :: "WockyDiscoIdentity \<Rightarrow> WockyDiscoIdentity" where
  "read_back i = wocky_disco_identity_new (id_category i) (id_type i) (Some []) (Some (str_or_empty (id_name i)))"

lemma identities_str_read_back:
  "\<forall>i \<in> set is. plain_lang i \<Longrightarrow> identities_str (map read_back is) = identities_str is"
proof -
  assume "\<forall>i \<in> set is. plain_lang i"
  then have "map wocky_disco_identity_key (map read_back is) = map wocky_disco_identity_key is"
    by (auto simp: wocky_disco_identity_key_def read_back_def wocky_disco_identity_new_def plain_lang_def str_or_empty_def)
  then show ?thesis by (simp only: identities_str_keys)
qed

lemma sortable_read_back: "identities_sortable (map read_back is)"
  by (induction "is") (auto simp: wocky_disco_identity_cmp_ok_def read_back_def wocky_disco_identity_new_def)

lemma default_identity_node:
  "add_default_identity client_type package node =
     add_child_node node (WockyNode ''identity'' None (node_ns node)
       [\<lparr>attr_key = ''category'', attr_value = ''client'', attr_ns = None\<rparr>,
        \<lparr>attr_key = ''name'', attr_value = package, attr_ns = None\<rparr>,
        \<lparr>attr_key = ''type'', attr_value = client_type, attr_ns = None\<rparr>] [])"
  by (simp add: add_default_identity_def wocky_node_defs)

text \<open>The identities of the reply, and what the hash is computed from.\<close>

lemma reply_identities:
  "\<exists>ns. (if identities \<noteq> [] then fold add_identity_node identities query
          else add_default_identity client_type package query) = foldl add_child_node query ns
    \<and> (\<forall>n \<in> set ns. node_name n = ''identity'')
    \<and> List.map_filter node_identity ns =
        map read_back (if identities = [] then [own_identity client_type package] else identities)"
proof (cases "identities = []")
  case True
  then show ?thesis
    by (intro exI [of _ "node_children (add_default_identity client_type package (WockyNode [] None (node_ns query) [] []))"])
      (simp add: default_identity_node map_filter_simps node_identity_def wocky_node_defs own_identity_def
        wocky_node_get_language_def read_back_def str_or_empty_def wocky_disco_identity_new_def)
next
  case False
  then show ?thesis
    by (intro exI [of _ "map (identity_node (node_ns query)) identities"])
      (auto simp: add_identities identity_node_attributes map_filter_map read_identity read_back_def map_filter_all)
qed

lemma caps_features_read:
  "{f \<in> fold caps_add_child cs A. \<not> is_quirk f} =
     {f \<in> A. \<not> is_quirk f}
     \<union> {f. \<not> is_quirk f \<and> (\<exists>c \<in> set cs. node_name c = ''feature'' \<and> wocky_node_get_attribute c ''var'' = Some f)}"
proof (induction cs arbitrary: A)
  case (Cons c cs)
  have "{f \<in> caps_add_child c A. \<not> is_quirk f} = {f \<in> A. \<not> is_quirk f}
      \<union> {f. \<not> is_quirk f \<and> node_name c = ''feature'' \<and> wocky_node_get_attribute c ''var'' = Some f}"
    by (auto simp: caps_add_child_def tp_strdiff_def gabble_capability_set_add_def QUIRK_OMITS_CONTENT_CREATORS_def
        is_quirk_def split: if_splits option.splits)
  with Cons show ?case by auto
qed simp

text \<open>The verification string a connection advertises.\<close>

definition own_caps_hash ::
    "(string \<Rightarrow> string) \<Rightarrow> (GabbleCapabilitySet \<Rightarrow> string list) \<Rightarrow> string \<Rightarrow> string \<Rightarrow> GabbleCapabilitySet \<Rightarrow>
     WockyDiscoIdentity list \<Rightarrow> WockyDataForm list \<Rightarrow> cstring option" where
  "own_caps_hash digest iter client_type package caps identities forms =
     (if identities = [] then caps_hash_compute_from_self_presence digest iter client_type package caps forms
      else gabble_caps_hash_compute_full digest iter caps (Some identities) forms)"

lemma own_caps_hash_eq:
  "own_caps_hash digest iter client_type package caps identities forms =
     wocky_caps_hash_compute_from_lists digest (set_features iter caps)
       (if identities = [] then [own_identity client_type package] else identities) forms"
  by (simp add: own_caps_hash_def caps_hash_compute_from_self_presence_def gabble_caps_hash_compute_full_def)

text \<open>A peer that checks our capabilities accepts them: whenever Gabble has a verification string to
  advertise, the reply it sends when that string is looked up exists, the hash another instance computes
  from this reply is the advertised string, and it reads exactly our features from it. The identities must
  have no language, and the fields of the data forms must have values of their type and not be lists.\<close>

lemma own_caps_reply:
  assumes caps: "set (iter caps) = caps"
    and lang: "\<forall>i \<in> set identities. plain_lang i" and forms: "\<forall>form \<in> set forms. form_readable form"
    and query: "node_children query = []"
    and ver: "own_caps_hash digest iter client_type package caps identities forms = Some (Some ver)"
  shows "\<exists>reply. fill_disco_reply iter client_type package (Some caps) identities forms query = Some reply
    \<and> wocky_caps_hash_compute_from_node digest reply = Some (Some ver)
    \<and> {f \<in> gabble_capability_set_new_from_stanza reply. \<not> is_quirk f} = {f \<in> caps. \<not> is_quirk f}"
proof -
  let ?is = "if identities = [] then [own_identity client_type package] else identities"
  let ?q = "if identities \<noteq> [] then fold add_identity_node identities query
          else add_default_identity client_type package query"
  obtain ns where ns: "?q = foldl add_child_node query ns" "\<forall>n \<in> set ns. node_name n = ''identity''"
      "List.map_filter node_identity ns = map read_back ?is"
    using reply_identities [of identities query client_type package] by blast
  obtain xs forms' where xs: "add_forms forms ?q = Some (foldl add_child_node ?q xs)"
      "\<forall>x \<in> set xs. node_name x = ''x'' \<and> node_ns x = Some WOCKY_XMPP_NS_DATA"
      "parse_dataforms xs = Some forms'" "list_all2 same_hash forms forms'"
    using add_forms_written [OF forms, of ?q] by blast
  let ?fs = "map (feature_node (node_ns query)) (set_features iter caps)"
  let ?reply = "foldl add_child_node (foldl add_child_node (foldl add_child_node query ns) xs) ?fs"
  have r: "fill_disco_reply iter client_type package (Some caps) identities forms query = Some ?reply"
    using xs(1) [unfolded ns(1)] unfolding fill_disco_reply_def ns(1) by (simp add: add_features)
  have ch: "node_children ?reply = ns @ xs @ ?fs" using query by simp
  have ids: "List.map_filter node_identity (node_children ?reply) = map read_back ?is"
    unfolding ch map_filter_append using xs(2)
    by (simp add: ns(3) map_filter_none map_filter_map read_feature node_identity_def)
  have feats: "List.map_filter node_feature (node_children ?reply) = set_features iter caps"
    unfolding ch map_filter_append using ns(2) xs(2)
    by (simp add: map_filter_none map_filter_map map_filter_all [of _ Some id] read_feature node_feature_def)
  have it: "wocky_node_iter ?reply (Some ''x'') (Some WOCKY_XMPP_NS_DATA) = xs"
    unfolding wocky_node_iter_def ch using ns(2) xs(2) by (auto simp: filter_map o_def read_feature intro: filter_True)
  obtain inp where inp: "caps_hash_input (set_features iter caps) ?is forms = Some inp" "ver = digest inp"
    using ver by (auto simp: own_caps_hash_eq wocky_caps_hash_compute_from_lists_def split: if_splits)
  have pl: "\<forall>i \<in> set ?is. plain_lang i"
    using lang by (auto simp: own_identity_def wocky_disco_identity_new_def plain_lang_def str_or_empty_def)
  have "caps_hash_input (set_features iter caps) (map read_back ?is) forms' = Some inp"
    using inp(1) hash_forms_same [OF sort_forms_same [OF xs(4)], of "[]"]
    by (auto simp: caps_hash_input_split identities_str_read_back [OF pl])
  then have "wocky_caps_hash_compute_from_node digest ?reply = Some (Some ver)"
    unfolding wocky_caps_hash_compute_from_node_def it ids feats
    by (simp add: xs(3) wocky_caps_hash_compute_from_lists_def sortable_read_back inp(2) del: map_map)
  moreover have "{f \<in> gabble_capability_set_new_from_stanza ?reply. \<not> is_quirk f} = {f \<in> caps. \<not> is_quirk f}"
    unfolding gabble_capability_set_new_from_stanza_def caps_features_read ch
    using ns(2) xs(2) caps
    by (auto simp: set_features_eq read_feature intro!: bexI [of _ "feature_node (node_ns query) _"])
  ultimately show ?thesis using r by blast
qed

definition example_caps_form :: WockyDataForm where
  "example_caps_form =
     (wocky_data_form_init None None)
       \<lparr>fields_list :=
          [wocky_data_form_field_new WOCKY_DATA_FORM_FIELD_TYPE_HIDDEN (Some ''FORM_TYPE'') None None False None
             (Some [''urn:x'']) None [],
           wocky_data_form_field_new WOCKY_DATA_FORM_FIELD_TYPE_TEXT_MULTI (Some ''os'') None None False None
             (Some [''b'', ''a'']) None []]\<rparr>"

theorem caps_hash_order_witness:
  "wocky_caps_hash_compute_from_lists rev [''urn:b'', ''urn:a''] [own_identity ''pc'' ''Gabble''] [example_caps_form] =
   wocky_caps_hash_compute_from_lists rev [''urn:a'', ''urn:b''] [own_identity ''pc'' ''Gabble''] [example_caps_form]"
  by (rule caps_hash_order) simp_all

section \<open>Limits of the hash\<close>

text \<open>What is hashed is not a code of the reply: names may contain the separator, so a reply that hides all
  features in the name of its identity has the hash of an honest one, whatever the checksum. A contact that
  copies the verification string of a common client can thus have it taken for a client without features.\<close>

definition honest_reply :: WockyNode where
  "honest_reply = WockyNode ''query'' None (Some NS_DISCO_INFO) []
     [WockyNode ''identity'' None (Some NS_DISCO_INFO)
        [\<lparr>attr_key = ''category'', attr_value = ''client'', attr_ns = None\<rparr>,
         \<lparr>attr_key = ''type'', attr_value = ''pc'', attr_ns = None\<rparr>,
         \<lparr>attr_key = ''name'', attr_value = ''A'', attr_ns = None\<rparr>] [],
      WockyNode ''feature'' None (Some NS_DISCO_INFO) [\<lparr>attr_key = ''var'', attr_value = ''urn:f'', attr_ns = None\<rparr>] []]"

definition forged_reply :: WockyNode where
  "forged_reply = WockyNode ''query'' None (Some NS_DISCO_INFO) []
     [WockyNode ''identity'' None (Some NS_DISCO_INFO)
        [\<lparr>attr_key = ''category'', attr_value = ''client'', attr_ns = None\<rparr>,
         \<lparr>attr_key = ''type'', attr_value = ''pc'', attr_ns = None\<rparr>,
         \<lparr>attr_key = ''name'', attr_value = ''A<urn:f'', attr_ns = None\<rparr>] []]"

lemma iter_none: "wocky_node_iter node (Some n) ns = [] \<longleftrightarrow>
    (\<forall>c \<in> set (node_children node). node_name c \<noteq> n \<or> ns \<noteq> None \<and> ns \<noteq> node_ns c)"
  by (auto simp: wocky_node_iter_def filter_empty_conv)

theorem caps_hash_ambiguous:
  "wocky_caps_hash_compute_from_node digest forged_reply = wocky_caps_hash_compute_from_node digest honest_reply
   \<and> wocky_caps_hash_compute_from_node digest honest_reply = Some (Some (digest ''client/pc//A<urn:f<''))
   \<and> gabble_capability_set_new_from_stanza honest_reply = {''urn:f''}
   \<and> gabble_capability_set_new_from_stanza forged_reply = {}"
proof -
  have i: "wocky_node_iter honest_reply (Some ''x'') (Some WOCKY_XMPP_NS_DATA) = []"
      "wocky_node_iter forged_reply (Some ''x'') (Some WOCKY_XMPP_NS_DATA) = []"
    by (auto simp: iter_none honest_reply_def forged_reply_def)
  show ?thesis
    unfolding wocky_caps_hash_compute_from_node_def i
    by (simp add: honest_reply_def forged_reply_def map_filter_simps node_identity_def node_feature_def
        wocky_node_defs wocky_node_get_language_def str_or_empty_def wocky_disco_identity_new_def
        wocky_caps_hash_compute_from_lists_def caps_hash_input_def identity_str_def terminated_def
        gabble_capability_set_new_from_stanza_def caps_add_child_def tp_strdiff_def omits_content_creators_def
        OMITS_PREFIX_def is_quirk_def gabble_capability_set_add_def QUIRK_PREFIX_CHAR_def)
qed

text \<open>An identity with a language is written with the attribute \<open>lang\<close>, but a reader looks for \<open>xml:lang\<close>: the
  advertised hash is not the hash of the reply.\<close>

theorem identity_language_lost:
  "own_caps_hash rev (\<lambda>_. []) ''pc'' ''Gabble'' {} [wocky_disco_identity_new ''client'' ''pc'' (Some ''en'') (Some ''X'')] []
     = Some (Some (rev ''client/pc/en/X<''))
   \<and> (\<exists>reply. fill_disco_reply (\<lambda>_. []) ''pc'' ''Gabble'' (Some {})
          [wocky_disco_identity_new ''client'' ''pc'' (Some ''en'') (Some ''X'')] []
          (WockyNode ''query'' None (Some NS_DISCO_INFO) [] []) = Some reply
        \<and> wocky_caps_hash_compute_from_node rev reply = Some (Some (rev ''client/pc//X<'')))"
proof
  show "\<exists>reply. fill_disco_reply (\<lambda>_. []) ''pc'' ''Gabble'' (Some {})
          [wocky_disco_identity_new ''client'' ''pc'' (Some ''en'') (Some ''X'')] []
          (WockyNode ''query'' None (Some NS_DISCO_INFO) [] []) = Some reply
        \<and> wocky_caps_hash_compute_from_node rev reply = Some (Some (rev ''client/pc//X<''))"
    by (rule exI [of _ "add_identity_node (wocky_disco_identity_new ''client'' ''pc'' (Some ''en'') (Some ''X''))
          (WockyNode ''query'' None (Some NS_DISCO_INFO) [] [])"]) code_simp
qed code_simp

text \<open>A field that is a list is written without its options, and a reader drops it.\<close>

theorem list_field_lost:
  "data_form_parse_form_field
     (form_field_node ns var WOCKY_DATA_FORM_FIELD_TYPE_LIST_SINGLE [Some v]) = None"
  by (simp add: data_form_parse_form_field_def extract_var_type_label_def from_nick_to_str create_field_def
      extract_options_list_def form_field_node_eq wocky_node_iter_def map_filter_simps wocky_node_defs)

end
