(* ===== verification/Presence.thy ===== *)
theory Presence
  imports Caps_Hash
begin

text \<open>
  A contact's presence (\<open>src/presence.c\<close>): the resources it is online with, the aggregated status,
  capabilities and client types, and the choice of the resource to talk to.

  The state \<open>presence\<close> is \<open>struct _GabblePresence\<close> with its private part. The status message of the
  presence is not a string of its own: the pointer \<open>presence->status_message\<close> always points to the
  message of a resource, to \<open>no_resource_status_message\<close>, or is \<open>NULL\<close>. Because \<open>aggregate_resources\<close>
  frees that pointer, the model keeps the aliasing: a message is a slot that can be empty, hold a
  string or have been freed, and the presence holds a reference to a slot. Reading or freeing a freed
  slot is the crash value \<open>None\<close>.
\<close>

section \<open>Status and client types\<close>

text \<open>\<open>GabblePresenceId\<close>, in increasing order of presence; plugins may define larger values, so it is
  a number.\<close>

definition GABBLE_PRESENCE_OFFLINE :: nat where "GABBLE_PRESENCE_OFFLINE = 0"
definition GABBLE_PRESENCE_UNKNOWN :: nat where "GABBLE_PRESENCE_UNKNOWN = 1"
definition GABBLE_PRESENCE_LAST_UNAVAILABLE :: nat where "GABBLE_PRESENCE_LAST_UNAVAILABLE = 2"
definition GABBLE_PRESENCE_HIDDEN :: nat where "GABBLE_PRESENCE_HIDDEN = 3"
definition GABBLE_PRESENCE_XA :: nat where "GABBLE_PRESENCE_XA = 4"
definition GABBLE_PRESENCE_AWAY :: nat where "GABBLE_PRESENCE_AWAY = 5"
definition GABBLE_PRESENCE_DND :: nat where "GABBLE_PRESENCE_DND = 6"
definition GABBLE_PRESENCE_AVAILABLE :: nat where "GABBLE_PRESENCE_AVAILABLE = 7"
definition GABBLE_PRESENCE_CHAT :: nat where "GABBLE_PRESENCE_CHAT = 8"

definition GABBLE_CLIENT_TYPE_PC :: guint where "GABBLE_CLIENT_TYPE_PC = 16"

lemmas presence_ids =
  GABBLE_PRESENCE_OFFLINE_def GABBLE_PRESENCE_UNKNOWN_def GABBLE_PRESENCE_LAST_UNAVAILABLE_def
  GABBLE_PRESENCE_HIDDEN_def GABBLE_PRESENCE_XA_def GABBLE_PRESENCE_AWAY_def
  GABBLE_PRESENCE_DND_def GABBLE_PRESENCE_AVAILABLE_def GABBLE_PRESENCE_CHAT_def

unbundle bit_operations_syntax

definition has_client_type :: "guint \<Rightarrow> guint \<Rightarrow> bool" where
  "has_client_type types flag \<longleftrightarrow> types AND flag \<noteq> 0"

section \<open>Allocated messages\<close>

datatype msg_slot = MsgNull | MsgStr string | MsgFreed

definition g_strdup :: "cstring \<Rightarrow> msg_slot" where
  "g_strdup s = (case s of None \<Rightarrow> MsgNull | Some x \<Rightarrow> MsgStr x)"

fun msg_read :: "msg_slot \<Rightarrow> cstring option" where
  "msg_read MsgNull = Some None"
| "msg_read (MsgStr s) = Some (Some s)"
| "msg_read MsgFreed = None"

fun g_free :: "msg_slot \<Rightarrow> msg_slot option" where
  "g_free MsgNull = Some MsgNull"
| "g_free (MsgStr s) = Some MsgFreed"
| "g_free MsgFreed = None"

datatype msg_ref = Ref_null | Ref_bare | Ref_resource string

section \<open>The state\<close>

record Resource =
  res_name :: string
  res_client_type :: guint
  res_cap_set :: GabbleCapabilitySet
  res_data_forms :: "WockyDataForm list"
  res_caps_serial :: guint
  res_status :: nat
  res_status_message :: msg_slot
  res_priority :: gint8
  res_last_available :: int

record presence =
  pres_status :: nat
  pres_status_message :: msg_ref
  pres_avatar_sha1 :: cstring
  pres_client_types :: guint
  pres_cap_set :: GabbleCapabilitySet
  pres_data_forms :: "WockyDataForm list"
  pres_no_resource_status_message :: msg_slot
  pres_resources :: "Resource list"
  pres_olpc_views :: guint
  pres_active_resource :: cstring

definition resource_new :: "string \<Rightarrow> Resource" where
  "resource_new name =
     \<lparr>res_name = name, res_client_type = 0, res_cap_set = {}, res_data_forms = [],
      res_caps_serial = 0, res_status = GABBLE_PRESENCE_OFFLINE, res_status_message = MsgNull,
      res_priority = 0, res_last_available = 0\<rparr>"

text \<open>\<open>_resource_free\<close>: all that can go wrong is that the message was freed before.\<close>

definition resource_free :: "Resource \<Rightarrow> unit option" where
  "resource_free r = map_option (\<lambda>_. ()) (g_free (res_status_message r))"

primrec resources_free :: "Resource list \<Rightarrow> unit option" where
  "resources_free [] = Some ()"
| "resources_free (r # rs) = Option.bind (resource_free r) (\<lambda>_. resources_free rs)"

definition gabble_presence_finalize :: "presence \<Rightarrow> unit option" where
  "gabble_presence_finalize p =
     do { resources_free (pres_resources p);
          map_option (\<lambda>_. ()) (g_free (pres_no_resource_status_message p)) }"

definition gabble_presence_init :: presence where
  "gabble_presence_init =
     \<lparr>pres_status = GABBLE_PRESENCE_UNKNOWN, pres_status_message = Ref_null,
      pres_avatar_sha1 = None, pres_client_types = 0, pres_cap_set = {}, pres_data_forms = [],
      pres_no_resource_status_message = MsgNull, pres_resources = [], pres_olpc_views = 0,
      pres_active_resource = None\<rparr>"

definition find_resource :: "presence \<Rightarrow> string \<Rightarrow> Resource option" where
  "find_resource p resource = find (\<lambda>r. res_name r = resource) (pres_resources p)"

text \<open>What \<open>presence->status_message\<close> reads as.\<close>

definition presence_message :: "presence \<Rightarrow> cstring option" where
  "presence_message p =
     (case pres_status_message p of
        Ref_null \<Rightarrow> Some None
      | Ref_bare \<Rightarrow> msg_read (pres_no_resource_status_message p)
      | Ref_resource name \<Rightarrow>
          (case find_resource p name of
             None \<Rightarrow> None
           | Some r \<Rightarrow> msg_read (res_status_message r)))"

text \<open>Changes the resource with the given name in place.\<close>

definition update_resource :: "string \<Rightarrow> (Resource \<Rightarrow> Resource) \<Rightarrow> Resource list \<Rightarrow> Resource list" where
  "update_resource name f = map (\<lambda>r. if res_name r = name then f r else r)"

text \<open>\<open>g_free (presence->status_message); presence->status_message = NULL;\<close>\<close>

definition free_presence_message :: "presence \<Rightarrow> presence option" where
  "free_presence_message p =
     (case pres_status_message p of
        Ref_null \<Rightarrow> Some p
      | Ref_bare \<Rightarrow>
          map_option
            (\<lambda>m. p\<lparr>pres_no_resource_status_message := m, pres_status_message := Ref_null\<rparr>)
            (g_free (pres_no_resource_status_message p))
      | Ref_resource name \<Rightarrow>
          (case find_resource p name of
             None \<Rightarrow> None
           | Some r \<Rightarrow>
               map_option
                 (\<lambda>m. p\<lparr>pres_resources :=
                          update_resource name (\<lambda>r. r\<lparr>res_status_message := m\<rparr>) (pres_resources p),
                        pres_status_message := Ref_null\<rparr>)
                 (g_free (res_status_message r))))"

section \<open>Choosing a resource\<close>

definition resource_better_than :: "Resource \<Rightarrow> Resource option \<Rightarrow> guint \<Rightarrow> bool" where
  "resource_better_than a b preferred_client_type =
     (if sint (res_priority a) < 0 then False
      else case b of
        None \<Rightarrow> True
      | Some b \<Rightarrow>
          let a_p = has_client_type (res_client_type a) preferred_client_type;
              b_p = has_client_type (res_client_type b) preferred_client_type
          in if preferred_client_type \<noteq> 0 \<and> a_p \<and> \<not> b_p then True
             else if preferred_client_type \<noteq> 0 \<and> \<not> a_p \<and> b_p then False
             else if res_status a < res_status b then False
             else if res_status a > res_status b then True
             else if res_last_available a < res_last_available b then False
             else if res_last_available a > res_last_available b then True
             else sint (res_priority a) > sint (res_priority b))"

definition gabble_presence_has_cap :: "presence \<Rightarrow> string \<Rightarrow> bool" where
  "gabble_presence_has_cap p ns = gabble_capability_set_has (pres_cap_set p) ns"

text \<open>The predicate is \<open>NULL\<close> when capabilities do not matter.\<close>

definition pick_step ::
    "guint \<Rightarrow> (GabbleCapabilitySet \<Rightarrow> bool) option \<Rightarrow> Resource option \<Rightarrow> Resource \<Rightarrow> Resource option" where
  "pick_step preferred predicate chosen res =
     (if (case predicate of None \<Rightarrow> False | Some P \<Rightarrow> \<not> P (res_cap_set res)) then chosen
      else if resource_better_than res chosen preferred then Some res else chosen)"

definition gabble_presence_pick_resource_by_caps ::
    "presence \<Rightarrow> guint \<Rightarrow> (GabbleCapabilitySet \<Rightarrow> bool) option \<Rightarrow> cstring" where
  "gabble_presence_pick_resource_by_caps p preferred predicate =
     map_option res_name (foldl (pick_step preferred predicate) None (pres_resources p))"

definition gabble_presence_resource_has_caps ::
    "presence \<Rightarrow> string \<Rightarrow> (GabbleCapabilitySet \<Rightarrow> bool) \<Rightarrow> bool" where
  "gabble_presence_resource_has_caps p resource P =
     (case find (\<lambda>r. res_name r = resource) (pres_resources p) of
        None \<Rightarrow> False
      | Some r \<Rightarrow> P (res_cap_set r))"

section \<open>Capabilities\<close>

text \<open>The part of the loop of \<open>gabble_presence_set_capabilities\<close> that changes the resource.\<close>

definition resource_set_capabilities ::
    "GabbleCapabilitySet \<Rightarrow> WockyDataForm list \<Rightarrow> guint \<Rightarrow> Resource \<Rightarrow> Resource" where
  "resource_set_capabilities cap_set data_forms serial r =
     (let r1 = (if serial > res_caps_serial r
                then r\<lparr>res_caps_serial := serial,
                       res_cap_set := gabble_capability_set_clear (res_cap_set r),
                       res_data_forms := []\<rparr>
                else r)
      in if serial \<ge> res_caps_serial r1
         then r1\<lparr>res_cap_set := gabble_capability_set_update (res_cap_set r1) cap_set,
                 res_data_forms := res_data_forms r1 @ data_forms\<rparr>
         else r1)"

text \<open>Returns whether \<open>capabilities-changed\<close> was emitted.\<close>

definition gabble_presence_set_capabilities ::
    "cstring \<Rightarrow> GabbleCapabilitySet \<Rightarrow> WockyDataForm list \<Rightarrow> guint \<Rightarrow> presence \<Rightarrow> bool \<times> presence" where
  "gabble_presence_set_capabilities resource cap_set data_forms serial p =
     (case resource of
        None \<Rightarrow>
          if pres_resources p \<noteq> [] then (False, p)
          else (False, p\<lparr>pres_cap_set := gabble_capability_set_update
                           (gabble_capability_set_clear (pres_cap_set p)) cap_set,
                         pres_data_forms := data_forms\<rparr>)
      | Some name \<Rightarrow>
          let rs = map (\<lambda>r. if res_name r = name
                            then resource_set_capabilities cap_set data_forms serial r else r)
                     (pres_resources p)
          in (True,
              p\<lparr>pres_resources := rs,
                pres_cap_set := foldl gabble_capability_set_update
                  (gabble_capability_set_clear (pres_cap_set p)) (map res_cap_set rs),
                pres_data_forms := concat (map res_data_forms rs)\<rparr>))"

section \<open>Aggregation\<close>

definition trumps :: "Resource \<Rightarrow> Resource \<Rightarrow> bool" where
  "trumps r best \<longleftrightarrow>
     res_status r > res_status best
     \<or> (res_status r = res_status best
        \<and> (res_last_available r > res_last_available best
           \<or> sint (res_priority r) > sint (res_priority best)))
     \<or> (has_client_type (res_client_type r) GABBLE_CLIENT_TYPE_PC
        \<and> \<not> has_client_type (res_client_type best) GABBLE_CLIENT_TYPE_PC)"

definition best_step :: "Resource option \<Rightarrow> Resource \<Rightarrow> Resource option" where
  "best_step best r =
     (case best of None \<Rightarrow> Some r | Some b \<Rightarrow> if trumps r b then Some r else Some b)"

definition best_resource :: "Resource list \<Rightarrow> Resource option" where
  "best_resource = foldl best_step None"

text \<open>Returns whether the client types changed.\<close>

definition aggregate_resources :: "presence \<Rightarrow> (bool \<times> presence) option" where
  "aggregate_resources p =
     (let old_client_types = pres_client_types p;
          p1 = p\<lparr>pres_cap_set := foldl gabble_capability_set_update
                   (gabble_capability_set_clear (pres_cap_set p))
                   (map res_cap_set (pres_resources p)),
                 pres_status := GABBLE_PRESENCE_OFFLINE\<rparr>;
          p2 = (case best_resource (pres_resources p1) of
                  None \<Rightarrow> p1
                | Some best \<Rightarrow>
                    p1\<lparr>pres_status := res_status best,
                       pres_status_message := Ref_resource (res_name best),
                       pres_client_types := res_client_type best,
                       pres_active_resource := Some (res_name best)\<rparr>)
      in map_option (\<lambda>p3. (old_client_types \<noteq> pres_client_types p3, p3))
           (if pres_status p2 \<le> GABBLE_PRESENCE_HIDDEN \<and> 0 < pres_olpc_views p2
            then free_presence_message (p2\<lparr>pres_status := GABBLE_PRESENCE_AVAILABLE\<rparr>)
            else Some p2))"

section \<open>Updates\<close>

text \<open>\<open>if (tp_strdiff (slot, msg)) \{ g_free (slot); slot = g_strdup (msg); \}\<close>\<close>

definition msg_set :: "msg_slot \<Rightarrow> cstring \<Rightarrow> msg_slot option" where
  "msg_set slot msg =
     (case msg_read slot of
        None \<Rightarrow> None
      | Some old \<Rightarrow>
          if tp_strdiff old msg then map_option (\<lambda>_. g_strdup msg) (g_free slot) else Some slot)"

definition resource_update ::
    "nat \<Rightarrow> cstring \<Rightarrow> gint8 \<Rightarrow> int \<Rightarrow> Resource \<Rightarrow> Resource option" where
  "resource_update status msg priority now r =
     (case msg_set (res_status_message r) msg of
        None \<Rightarrow> None
      | Some m \<Rightarrow>
          let r1 = r\<lparr>res_status := status, res_status_message := m, res_priority := priority\<rparr>
          in Some (if res_status r1 \<ge> GABBLE_PRESENCE_AVAILABLE
                   then r1\<lparr>res_last_available := now\<rparr> else r1))"

text \<open>The first match is replaced, as \<open>_find_resource\<close> finds it.\<close>

fun replace_resource :: "string \<Rightarrow> Resource \<Rightarrow> Resource list \<Rightarrow> Resource list" where
  "replace_resource name r [] = []"
| "replace_resource name r (x # xs) =
     (if res_name x = name then r # xs else x # replace_resource name r xs)"

text \<open>The branch of \<open>gabble_presence_update\<close> for a presence from a bare JID.\<close>

definition presence_update_bare :: "nat \<Rightarrow> cstring \<Rightarrow> presence \<Rightarrow> presence option" where
  "presence_update_bare status msg p =
     do { resources_free (pres_resources p);
          m \<leftarrow> msg_set (pres_no_resource_status_message p) msg;
          Some (p\<lparr>pres_resources := [], pres_no_resource_status_message := m,
                  pres_status := status, pres_status_message := Ref_bare\<rparr>) }"

text \<open>The branch for a presence from a resource up to the call of \<open>aggregate_resources\<close>.\<close>

definition presence_update_resource ::
    "string \<Rightarrow> nat \<Rightarrow> cstring \<Rightarrow> gint8 \<Rightarrow> int \<Rightarrow> presence \<Rightarrow> presence option" where
  "presence_update_resource resource status msg priority now p =
     (let res = find_resource p resource
      in if status \<le> GABBLE_PRESENCE_LAST_UNAVAILABLE
         then (case res of
                 None \<Rightarrow> Some (p\<lparr>pres_status_message := Ref_null\<rparr>)
               | Some r \<Rightarrow>
                   let rs = remove1 r (pres_resources p)
                   in do { resource_free r;
                           Some (p\<lparr>pres_resources := rs,
                                   pres_cap_set := foldl gabble_capability_set_update
                                     (gabble_capability_set_clear (pres_cap_set p))
                                     (map res_cap_set rs),
                                   pres_status_message := Ref_null\<rparr>) })
         else
           let p1 = (if res = None
                     then p\<lparr>pres_resources := pres_resources p @ [resource_new resource]\<rparr> else p);
               r = (case res of None \<Rightarrow> resource_new resource | Some r \<Rightarrow> r)
           in do { r1 \<leftarrow> resource_update status msg priority now r;
                   Some (p1\<lparr>pres_resources := replace_resource resource r1 (pres_resources p1),
                            pres_status_message := Ref_resource resource\<rparr>) })"

text \<open>Returns whether status or message changed, and \<open>update_client_types\<close>, which the branch for a
  bare JID does not set.\<close>

definition gabble_presence_update ::
    "cstring \<Rightarrow> nat \<Rightarrow> cstring \<Rightarrow> gint8 \<Rightarrow> int \<Rightarrow> presence \<Rightarrow>
     (bool \<times> bool option \<times> presence) option" where
  "gabble_presence_update resource status msg priority now p =
     do { old_message \<leftarrow> presence_message p;
          (uct, p') \<leftarrow>
            (case resource of
               None \<Rightarrow> map_option (\<lambda>q. (None, q)) (presence_update_bare status msg p)
             | Some name \<Rightarrow>
                 do { q \<leftarrow> presence_update_resource name status msg priority now p;
                      (b, q') \<leftarrow> aggregate_resources
                         (q\<lparr>pres_cap_set := gabble_capability_set_clear (pres_cap_set q),
                            pres_status := GABBLE_PRESENCE_OFFLINE\<rparr>);
                      Some (Some b, q') });
          new_message \<leftarrow> presence_message p';
          Some (pres_status p' \<noteq> pres_status p \<or> tp_strdiff new_message old_message, uct, p') }"

text \<open>\<open>gabble_presence_added_to_view\<close> and \<open>gabble_presence_removed_from_view\<close>.\<close>

definition presence_change_views :: "guint \<Rightarrow> presence \<Rightarrow> (bool \<times> presence) option" where
  "presence_change_views d p =
     do { old_message \<leftarrow> presence_message p;
          (_, p') \<leftarrow> aggregate_resources (p\<lparr>pres_olpc_views := pres_olpc_views p + d\<rparr>);
          new_message \<leftarrow> presence_message p';
          Some (pres_status p' \<noteq> pres_status p \<or> tp_strdiff new_message old_message, p') }"

definition gabble_presence_added_to_view :: "presence \<Rightarrow> (bool \<times> presence) option" where
  "gabble_presence_added_to_view = presence_change_views 1"

definition gabble_presence_removed_from_view :: "presence \<Rightarrow> (bool \<times> presence) option" where
  "gabble_presence_removed_from_view = presence_change_views (- 1)"

definition gabble_presence_update_client_types ::
    "cstring \<Rightarrow> guint \<Rightarrow> presence \<Rightarrow> (bool \<times> presence) option" where
  "gabble_presence_update_client_types resource client_types p =
     (case resource of
        None \<Rightarrow>
          if pres_resources p \<noteq> [] then Some (False, p)
          else Some (pres_client_types p \<noteq> client_types, p\<lparr>pres_client_types := client_types\<rparr>)
      | Some name \<Rightarrow>
          (case find_resource p name of
             None \<Rightarrow> Some (False, p)
           | Some r \<Rightarrow>
               aggregate_resources
                 (p\<lparr>pres_resources := replace_resource name
                      (r\<lparr>res_client_type := client_types\<rparr>) (pres_resources p)\<rparr>)))"

section \<open>Picking a feature\<close>

record 'a GabbleFeatureFallback =
  considered :: bool
  check_data :: 'a
  fallback_result :: nat

primrec fallback_loop ::
    "(GabbleCapabilitySet \<Rightarrow> 'a \<Rightarrow> bool) \<Rightarrow> GabbleCapabilitySet \<Rightarrow> 'a GabbleFeatureFallback list \<Rightarrow>
     nat option" where
  "fallback_loop predicate caps [] = None"
| "fallback_loop predicate caps (row # rows) =
     (if considered row \<and> predicate caps (check_data row) then Some (fallback_result row)
      else fallback_loop predicate caps rows)"

definition gabble_presence_resource_pick_best_feature ::
    "presence \<Rightarrow> string \<Rightarrow> 'a GabbleFeatureFallback list \<Rightarrow> (GabbleCapabilitySet \<Rightarrow> 'a \<Rightarrow> bool) \<Rightarrow>
     nat option" where
  "gabble_presence_resource_pick_best_feature p resource table predicate =
     (case find_resource p resource of
        None \<Rightarrow> None
      | Some r \<Rightarrow> fallback_loop predicate (res_cap_set r) table)"

definition gabble_presence_pick_best_feature ::
    "presence \<Rightarrow> 'a GabbleFeatureFallback list \<Rightarrow> (GabbleCapabilitySet \<Rightarrow> 'a \<Rightarrow> bool) \<Rightarrow> nat option" where
  "gabble_presence_pick_best_feature p table predicate =
     fallback_loop predicate (pres_cap_set p) table"

definition gabble_presence_has_resources :: "presence \<Rightarrow> bool" where
  "gabble_presence_has_resources p \<longleftrightarrow> pres_resources p \<noteq> []"

text \<open>\<open>GabbleClientType\<close> with the nicks of its values.\<close>

definition client_type_values :: "(guint \<times> string) list" where
  "client_type_values =
     [(1, ''bot''), (2, ''console''), (4, ''game''), (8, ''handheld''), (16, ''pc''),
      (32, ''phone''), (64, ''web''), (128, ''sms'')]"

definition gabble_presence_get_client_types_array :: "presence \<Rightarrow> string list \<times> cstring" where
  "gabble_presence_get_client_types_array p =
     (map snd (filter (\<lambda>v. has_client_type (pres_client_types p) (fst v)) client_type_values),
      pres_active_resource p)"

section \<open>The operations as one step function\<close>

datatype presence_op =
    Presence_Update cstring nat cstring gint8 int
  | Presence_SetCaps cstring GabbleCapabilitySet "WockyDataForm list" guint
  | Presence_ClientTypes cstring guint
  | Presence_AddView
  | Presence_RemoveView

fun presence_step :: "presence_op \<Rightarrow> presence \<Rightarrow> presence option" where
  "presence_step (Presence_Update res st msg prio now) p =
     map_option (\<lambda>x. snd (snd x)) (gabble_presence_update res st msg prio now p)"
| "presence_step (Presence_SetCaps res caps forms serial) p =
     Some (snd (gabble_presence_set_capabilities res caps forms serial p))"
| "presence_step (Presence_ClientTypes res types) p =
     map_option snd (gabble_presence_update_client_types res types p)"
| "presence_step Presence_AddView p = map_option snd (gabble_presence_added_to_view p)"
| "presence_step Presence_RemoveView p = map_option snd (gabble_presence_removed_from_view p)"

text \<open>Contacts that are in no OLPC view.\<close>

fun presence_legal :: "presence_op \<Rightarrow> presence \<Rightarrow> bool" where
  "presence_legal Presence_AddView p \<longleftrightarrow> False"
| "presence_legal Presence_RemoveView p \<longleftrightarrow> False"
| "presence_legal _ p \<longleftrightarrow> True"

section \<open>The invariant\<close>

definition resources_ok :: "presence \<Rightarrow> bool" where
  "resources_ok p \<longleftrightarrow>
     distinct (map res_name (pres_resources p))
     \<and> (\<forall>r \<in> set (pres_resources p).
          GABBLE_PRESENCE_LAST_UNAVAILABLE < res_status r \<and> res_status_message r \<noteq> MsgFreed)
     \<and> pres_no_resource_status_message p \<noteq> MsgFreed
     \<and> pres_olpc_views p = 0"

definition aggregate_ok :: "presence \<Rightarrow> bool" where
  "aggregate_ok p \<longleftrightarrow>
     (case best_resource (pres_resources p) of
        None \<Rightarrow> pres_status_message p = Ref_null \<or> pres_status_message p = Ref_bare
      | Some b \<Rightarrow> pres_status p = res_status b \<and> pres_status_message p = Ref_resource (res_name b)
          \<and> pres_client_types p = res_client_type b
          \<and> pres_active_resource p = Some (res_name b)
          \<and> pres_cap_set p = \<Union> (res_cap_set ` set (pres_resources p)))"

definition presence_ok :: "presence \<Rightarrow> bool" where
  "presence_ok p \<longleftrightarrow> resources_ok p \<and> aggregate_ok p"

lemma presence_ok_init: "presence_ok gabble_presence_init"
  by (simp add: presence_ok_def resources_ok_def aggregate_ok_def gabble_presence_init_def
      best_resource_def)

lemma best_step_Some: "\<exists>b. best_step best r = Some b"
  by (auto simp: best_step_def split: option.splits)

lemma foldl_best_step:
  "best = Some b \<Longrightarrow> \<exists>c. foldl best_step best rs = Some c \<and> (c = b \<or> c \<in> set rs)"
proof (induction rs arbitrary: best b)
  case (Cons r rs)
  then obtain b' where "best_step best r = Some b'" "b' = b \<or> b' = r"
    by (cases "trumps r b") (auto simp: best_step_def)
  with Cons.IH [of "best_step best r" b'] show ?case by auto
qed simp

lemma best_resource_None: "best_resource rs = None \<longleftrightarrow> rs = []"
  using foldl_best_step [of "Some (hd rs)" "hd rs" "tl rs"]
  by (cases rs) (auto simp: best_resource_def best_step_def)

lemma best_resource_in: "best_resource rs = Some b \<Longrightarrow> b \<in> set rs"
  using foldl_best_step [of "Some (hd rs)" "hd rs" "tl rs"]
  by (cases rs) (auto simp: best_resource_def best_step_def)

lemma best_resource_map:
  assumes "\<And>r. res_status (f r) = res_status r \<and> res_last_available (f r) = res_last_available r
    \<and> res_priority (f r) = res_priority r \<and> res_client_type (f r) = res_client_type r"
  shows "best_resource (map f rs) = map_option f (best_resource rs)"
proof -
  have "foldl best_step (map_option f best) (map f rs) = map_option f (foldl best_step best rs)" for best
  proof (induction rs arbitrary: best)
    case (Cons r rs)
    have "best_step (map_option f best) (f r) = map_option f (best_step best r)"
      using assms by (auto simp: best_step_def trumps_def split: option.splits)
    with Cons show ?case by simp
  qed simp
  from this [of None] show ?thesis by (simp add: best_resource_def)
qed

lemma foldl_caps_update:
  "foldl gabble_capability_set_update (gabble_capability_set_clear c) (map res_cap_set rs) =
     \<Union> (res_cap_set ` set rs)"
proof -
  have "f \<in> foldl gabble_capability_set_update (gabble_capability_set_clear c) ds \<longleftrightarrow>
      (\<exists>d \<in> set ds. f \<in> d)" for f ds
    using caps.has_refreshed [of c ds f] by (simp add: gabble_capability_set_has_def)
  then show ?thesis by auto
qed

text \<open>With no views, aggregation cannot fail and establishes the aggregate.\<close>

lemma aggregate_resources_ok:
  assumes "resources_ok p"
    and "pres_resources p = [] \<Longrightarrow> pres_status_message p = Ref_null \<or> pres_status_message p = Ref_bare"
  shows "\<exists>b p'. aggregate_resources p = Some (b, p') \<and> presence_ok p'
    \<and> pres_resources p' = pres_resources p \<and> (pres_resources p = [] \<longrightarrow> pres_status p' = 0)"
proof -
  have v: "pres_olpc_views p = 0" using assms(1) by (simp add: resources_ok_def)
  show ?thesis
  proof (cases "best_resource (pres_resources p)")
    case None
    then have "pres_resources p = []" by (simp add: best_resource_None)
    with None v assms show ?thesis
      by (auto simp: aggregate_resources_def presence_ok_def resources_ok_def aggregate_ok_def
          presence_ids)
  next
    case (Some b)
    then have "pres_resources p \<noteq> []" by (auto simp: best_resource_def)
    with Some v assms show ?thesis
      by (simp add: aggregate_resources_def presence_ok_def resources_ok_def aggregate_ok_def
          foldl_caps_update)
  qed
qed

lemma find_distinct:
  "distinct (map res_name rs) \<Longrightarrow> r \<in> set rs \<Longrightarrow> find (\<lambda>x. res_name x = res_name r) rs = Some r"
  by (induction rs) auto

lemma presence_message_ok:
  assumes "presence_ok p" shows "\<exists>m. presence_message p = Some m"
proof (cases "best_resource (pres_resources p)")
  case None
  with assms show ?thesis
    by (cases "pres_no_resource_status_message p")
      (auto simp: presence_ok_def resources_ok_def aggregate_ok_def presence_message_def)
next
  case (Some b)
  have "b \<in> set (pres_resources p)" using Some by (rule best_resource_in)
  with assms Some find_distinct [of "pres_resources p" b] show ?thesis
    by (cases "res_status_message b")
      (auto simp: presence_ok_def resources_ok_def aggregate_ok_def presence_message_def
        find_resource_def)
qed

lemma resources_free_ok:
  "\<forall>r \<in> set rs. res_status_message r \<noteq> MsgFreed \<Longrightarrow> resources_free rs = Some ()"
proof (induction rs)
  case (Cons r rs)
  then show ?case by (cases "res_status_message r") (auto simp: resource_free_def)
qed simp

lemma msg_set_ok: "slot \<noteq> MsgFreed \<Longrightarrow> \<exists>m. msg_set slot msg = Some m \<and> m \<noteq> MsgFreed
    \<and> msg_read m = Some msg"
  by (cases slot; cases msg) (auto simp: msg_set_def tp_strdiff_def g_strdup_def)

lemma presence_update_bare_ok:
  assumes "presence_ok p"
  shows "\<exists>q. presence_update_bare status msg p = Some q \<and> presence_ok q \<and> pres_resources q = []
    \<and> pres_status q = status \<and> presence_message q = Some msg"
proof -
  from assms obtain m where m: "msg_set (pres_no_resource_status_message p) msg = Some m"
      "m \<noteq> MsgFreed" "msg_read m = Some msg"
    using msg_set_ok [of "pres_no_resource_status_message p" msg]
    by (auto simp: presence_ok_def resources_ok_def)
  moreover have "resources_free (pres_resources p) = Some ()"
    using assms by (auto intro: resources_free_ok simp: presence_ok_def resources_ok_def)
  ultimately show ?thesis
    using assms by (simp add: presence_update_bare_def presence_ok_def resources_ok_def
        aggregate_ok_def best_resource_def presence_message_def)
qed

lemma replace_resource_names:
  "res_name r = name \<Longrightarrow> map res_name (replace_resource name r rs) = map res_name rs"
  by (induction rs) auto

lemma set_replace_resource:
  "set (replace_resource name r rs) \<subseteq> insert r (set rs)"
  by (induction rs) auto

lemma replace_resource_mem:
  "name \<in> res_name ` set rs \<Longrightarrow> r \<in> set (replace_resource name r rs)"
  by (induction rs) auto

lemma replace_resource_other:
  "distinct (map res_name rs) \<Longrightarrow> x \<in> set (replace_resource name r rs) \<Longrightarrow>
   x = r \<or> x \<in> set rs \<and> res_name x \<noteq> name"
  by (induction rs) (auto simp: image_iff split: if_splits)

lemma remove1_by_name:
  "distinct (map res_name rs) \<Longrightarrow> r \<in> set rs \<Longrightarrow>
   remove1 r rs = filter (\<lambda>x. res_name x \<noteq> res_name r) rs"
  by (induction rs) (auto simp: image_iff intro!: filter_True [symmetric])

lemma resource_update_ok:
  assumes "res_status_message r \<noteq> MsgFreed"
  shows "\<exists>r'. resource_update status msg priority now r = Some r' \<and> res_name r' = res_name r
    \<and> res_status r' = status \<and> msg_read (res_status_message r') = Some msg
    \<and> res_priority r' = priority \<and> res_cap_set r' = res_cap_set r
    \<and> res_caps_serial r' = res_caps_serial r \<and> res_client_type r' = res_client_type r
    \<and> res_last_available r' =
        (if GABBLE_PRESENCE_AVAILABLE \<le> status then now else res_last_available r)"
proof -
  from msg_set_ok [OF assms, of msg] obtain m where
    "msg_set (res_status_message r) msg = Some m" "msg_read m = Some msg" by blast
  then show ?thesis by (simp add: resource_update_def Let_def)
qed

lemma find_resource_Some:
  "find_resource p name = Some r \<Longrightarrow> r \<in> set (pres_resources p) \<and> res_name r = name"
  unfolding find_resource_def by (drule find_Some_in) auto

lemma find_resource_None:
  "find_resource p name = None \<longleftrightarrow> name \<notin> res_name ` set (pres_resources p)"
  unfolding find_resource_def find_None_all by auto

lemma presence_update_resource_ok:
  assumes "presence_ok p"
  shows "\<exists>q. presence_update_resource name status msg priority now p = Some q \<and> resources_ok q
    \<and> (pres_resources q = [] \<longrightarrow> pres_status_message q = Ref_null)
    \<and> (if status \<le> GABBLE_PRESENCE_LAST_UNAVAILABLE
       then pres_resources q = filter (\<lambda>r. res_name r \<noteq> name) (pres_resources p)
       else \<exists>r'. resource_update status msg priority now
                (case find_resource p name of None \<Rightarrow> resource_new name | Some r \<Rightarrow> r) = Some r'
              \<and> pres_resources q = replace_resource name r'
                  (pres_resources p @ (if find_resource p name = None then [resource_new name] else [])))"
proof -
  have ok: "resources_ok p" and d: "distinct (map res_name (pres_resources p))"
    using assms by (auto simp: presence_ok_def resources_ok_def)
  show ?thesis
  proof (cases "status \<le> GABBLE_PRESENCE_LAST_UNAVAILABLE")
    case True
    show ?thesis
    proof (cases "find_resource p name")
      case None
      then have "filter (\<lambda>r. res_name r \<noteq> name) (pres_resources p) = pres_resources p"
        by (auto simp: find_resource_None intro!: filter_True)
      with None True ok show ?thesis
        by (simp add: presence_update_resource_def resources_ok_def)
    next
      case (Some r)
      note r = find_resource_Some [OF Some]
      then have "resource_free r = Some ()"
        using ok by (cases "res_status_message r") (auto simp: resources_ok_def resource_free_def)
      moreover have "remove1 r (pres_resources p) = filter (\<lambda>x. res_name x \<noteq> name) (pres_resources p)"
        using remove1_by_name [OF d] r by blast
      ultimately show ?thesis
        using Some True ok 
          by (auto simp: presence_update_resource_def resources_ok_def distinct_map_filter Let_def)
    qed
  next
    case False
    define r where "r = (case find_resource p name of None \<Rightarrow> resource_new name | Some r \<Rightarrow> r)"
    have rn: "res_name r = name" "res_status_message r \<noteq> MsgFreed"
      using ok find_resource_Some [of p name]
      by (auto simp: r_def resource_new_def resources_ok_def split: option.splits)
    from resource_update_ok [OF rn(2), of status msg priority now] obtain r' where
      r': "resource_update status msg priority now r = Some r'" "res_name r' = name"
        "res_status r' = status" "msg_read (res_status_message r') = Some msg" using rn(1) by auto
    let ?rs = "pres_resources p @ (if find_resource p name = None then [resource_new name] else [])"
    have nf: "res_status_message r' \<noteq> MsgFreed" using r'(4) by auto
    have dist: "distinct (map res_name ?rs)"
      using d by (auto simp: find_resource_None resource_new_def)
    have "res_status_message x \<noteq> MsgFreed \<and> GABBLE_PRESENCE_LAST_UNAVAILABLE < res_status x"
      if "x \<in> set (replace_resource name r' ?rs)" for x
    proof -
      have "x = r' \<or> x \<in> set (pres_resources p)"
        using that dist replace_resource_other [of ?rs x name r'] by (auto simp: resource_new_def)
      with nf r'(3) False ok show ?thesis by (auto simp: resources_ok_def)
    qed
    then have "resources_ok (p\<lparr>pres_resources := replace_resource name r' ?rs,
        pres_status_message := Ref_resource name\<rparr>)"
      using ok dist r'(2) by (simp add: resources_ok_def replace_resource_names)
    moreover have "replace_resource name r' ?rs \<noteq> []"
      by (cases "pres_resources p") (auto simp: find_resource_None resource_new_def)
    ultimately show ?thesis
      using False r'(1) by (auto simp: presence_update_resource_def Let_def r_def split: option.splits)
  qed
qed

text \<open>An update never fails, and does to the list of resources what it should.\<close>

lemma presence_update_ok:
  assumes "presence_ok p"
  shows "\<exists>ret uct q. gabble_presence_update resource status msg priority now p = Some (ret, uct, q)
    \<and> presence_ok q
    \<and> (ret \<longleftrightarrow> pres_status q \<noteq> pres_status p \<or> presence_message q \<noteq> presence_message p)
    \<and> (case resource of
         None \<Rightarrow> pres_resources q = [] \<and> pres_status q = status \<and> presence_message q = Some msg
       | Some name \<Rightarrow>
           if status \<le> GABBLE_PRESENCE_LAST_UNAVAILABLE
           then pres_resources q = filter (\<lambda>r. res_name r \<noteq> name) (pres_resources p)
           else \<exists>r'. resource_update status msg priority now
                  (case find_resource p name of None \<Rightarrow> resource_new name | Some r \<Rightarrow> r) = Some r'
                \<and> pres_resources q = replace_resource name r'
                    (pres_resources p
                       @ (if find_resource p name = None then [resource_new name] else [])))"
proof -
  obtain m where m: "presence_message p = Some m" using presence_message_ok [OF assms] by blast
  show ?thesis
  proof (cases resource)
    case None
    obtain q where q: "presence_update_bare status msg p = Some q" "presence_ok q"
        "pres_resources q = []" "pres_status q = status" "presence_message q = Some msg"
      using presence_update_bare_ok [OF assms] by blast
    with m None show ?thesis by (auto simp: gabble_presence_update_def tp_strdiff_def)
  next
    case (Some name)
    obtain q where q: "presence_update_resource name status msg priority now p = Some q"
        "resources_ok q" "pres_resources q = [] \<Longrightarrow> pres_status_message q = Ref_null"
      and rs: "if status \<le> GABBLE_PRESENCE_LAST_UNAVAILABLE
           then pres_resources q = filter (\<lambda>r. res_name r \<noteq> name) (pres_resources p)
           else \<exists>r'. resource_update status msg priority now
                  (case find_resource p name of None \<Rightarrow> resource_new name | Some r \<Rightarrow> r) = Some r'
                \<and> pres_resources q = replace_resource name r'
                    (pres_resources p
                       @ (if find_resource p name = None then [resource_new name] else []))"
      using presence_update_resource_ok [OF assms, of name status msg priority now] by blast
    let ?q = "q\<lparr>pres_cap_set := gabble_capability_set_clear (pres_cap_set q),
                pres_status := GABBLE_PRESENCE_OFFLINE\<rparr>"
    have "resources_ok ?q" using q(2) by (simp add: resources_ok_def)
    with q(3) obtain b q' where q': "aggregate_resources ?q = Some (b, q')" "presence_ok q'"
        "pres_resources q' = pres_resources q"
      using aggregate_resources_ok [of ?q] by auto
    obtain m' where m': "presence_message q' = Some m'" using presence_message_ok [OF q'(2)] by blast
    have "gabble_presence_update resource status msg priority now p =
        Some (pres_status q' \<noteq> pres_status p \<or> m' \<noteq> m, Some b, q')"
      using Some m q(1) q'(1) m' by (simp add: gabble_presence_update_def tp_strdiff_def)
    with Some q'(2,3) m m' rs show ?thesis by auto
  qed
qed

lemma resource_set_capabilities_fields [simp]:
  "res_name (resource_set_capabilities c d n r) = res_name r"
  "res_status (resource_set_capabilities c d n r) = res_status r"
  "res_status_message (resource_set_capabilities c d n r) = res_status_message r"
  "res_priority (resource_set_capabilities c d n r) = res_priority r"
  "res_last_available (resource_set_capabilities c d n r) = res_last_available r"
  "res_client_type (resource_set_capabilities c d n r) = res_client_type r"
  by (simp_all add: resource_set_capabilities_def Let_def)

lemma presence_set_capabilities_ok:
  assumes "presence_ok p"
  shows "presence_ok (snd (gabble_presence_set_capabilities resource c d n p))"
proof (cases resource)
  case None
  with assms show ?thesis
    by (cases "pres_resources p") (auto simp: gabble_presence_set_capabilities_def presence_ok_def
        resources_ok_def aggregate_ok_def best_resource_def split: option.splits)
next
  case (Some name)
  let ?f = "\<lambda>r. if res_name r = name then resource_set_capabilities c d n r else r"
  have best: "best_resource (map ?f (pres_resources p)) =
      map_option ?f (best_resource (pres_resources p))"
    by (rule best_resource_map) simp
  have names: "res_name \<circ> ?f = res_name" by auto
  have "resources_ok (snd (gabble_presence_set_capabilities resource c d n p))"
    using assms Some
    by (auto simp: gabble_presence_set_capabilities_def presence_ok_def resources_ok_def Let_def names)
  moreover have "aggregate_ok (snd (gabble_presence_set_capabilities resource c d n p))"
    using assms Some best
    by (auto simp: gabble_presence_set_capabilities_def presence_ok_def aggregate_ok_def Let_def
        foldl_caps_update split: option.splits)
  ultimately show ?thesis by (simp add: presence_ok_def)
qed

lemma presence_update_client_types_ok:
  assumes "presence_ok p"
  shows "\<exists>b q. gabble_presence_update_client_types resource types p = Some (b, q) \<and> presence_ok q"
proof (cases resource)
  case None
  with assms show ?thesis
    by (auto simp: gabble_presence_update_client_types_def presence_ok_def resources_ok_def
        aggregate_ok_def best_resource_def)
next
  case (Some name)
  show ?thesis
  proof (cases "find_resource p name")
    case None
    with Some assms show ?thesis by (auto simp: gabble_presence_update_client_types_def)
  next
    case found: (Some r)
    note r = find_resource_Some [OF found]
    let ?r = "r\<lparr>res_client_type := types\<rparr>"
    let ?p = "p\<lparr>pres_resources := replace_resource name ?r (pres_resources p)\<rparr>"
    have ok: "resources_ok p" using assms by (simp add: presence_ok_def)
    have "res_status_message x \<noteq> MsgFreed \<and> GABBLE_PRESENCE_LAST_UNAVAILABLE < res_status x"
      if "x \<in> set (pres_resources ?p)" for x
      using that ok r set_replace_resource [of name ?r "pres_resources p"]
      by (auto simp: resources_ok_def)
    then have "resources_ok ?p"
      using ok r replace_resource_names [of ?r name "pres_resources p"] by (simp add: resources_ok_def)
    moreover have "pres_resources ?p \<noteq> []"
      using r by (cases "pres_resources p") auto
    ultimately obtain b q where "aggregate_resources ?p = Some (b, q)" "presence_ok q"
      using aggregate_resources_ok [of ?p] by auto
    with Some found show ?thesis by (simp add: gabble_presence_update_client_types_def)
  qed
qed

interpretation presence_sys: safe_system presence_legal presence_step presence_ok
proof
  fix p x
  assume ok: "presence_ok p" and "presence_legal x p"
  then show "\<exists>p'. presence_step x p = Some p' \<and> presence_ok p'"
  proof (cases x)
    case (Presence_Update res st msg prio now)
    then show ?thesis using presence_update_ok [OF ok, of res st msg prio now] by fastforce
  next
    case (Presence_ClientTypes res types)
    then show ?thesis using presence_update_client_types_ok [OF ok, of res types] by fastforce
  qed (auto simp: presence_set_capabilities_ok)
qed

section \<open>Properties\<close>

definition presence_demo :: "presence_op list" where
  "presence_demo =
     [Presence_Update None 7 (Some ''hi'') 0 1,
      Presence_Update (Some ''home'') 5 (Some ''lunch'') 3 10,
      Presence_Update (Some ''work'') 7 None 5 20,
      Presence_SetCaps (Some ''home'') {''jingle''} [] 2,
      Presence_ClientTypes (Some ''work'') 16,
      Presence_Update (Some ''phone'') 7 (Some ''out'') (- 1) 30,
      Presence_Update (Some ''phone'') 0 None 0 40]"

lemmas presence_exec = gabble_presence_update_def presence_update_bare_def
  presence_update_resource_def resource_update_def msg_set_def g_strdup_def tp_strdiff_def
  presence_message_def find_resource_def aggregate_resources_def best_resource_def best_step_def
  trumps_def has_client_type_def GABBLE_CLIENT_TYPE_PC_def resource_new_def resource_free_def
  gabble_presence_set_capabilities_def resource_set_capabilities_def
  gabble_presence_update_client_types_def gabble_presence_init_def presence_ids
  gabble_capability_set_update_def gabble_capability_set_clear_def Let_def

lemma presence_demo_legal: "legal_run presence_legal presence_step presence_demo gabble_presence_init"
  by (simp add: presence_demo_def split: option.splits)

lemma presence_demo_run: "\<exists>p. run presence_step presence_demo gabble_presence_init = Some p
    \<and> map res_name (pres_resources p) = [''home'', ''work'']"
  by (simp add: presence_demo_def presence_exec)

lemma find_filter_names:
  "find (\<lambda>r. res_name r = n) (filter (\<lambda>r. res_name r \<noteq> name) rs) =
     (if n = name then None else find (\<lambda>r. res_name r = n) rs)"
  by (induction rs) auto

lemma find_replaced:
  "res_name r = name \<Longrightarrow> name \<in> res_name ` set rs \<Longrightarrow>
   find (\<lambda>x. res_name x = name) (replace_resource name r rs) = Some r"
  by (induction rs) auto

lemma find_replaced_other:
  "n \<noteq> name \<Longrightarrow> res_name r = name \<Longrightarrow>
   find (\<lambda>x. res_name x = n) (replace_resource name r rs) = find (\<lambda>x. res_name x = n) rs"
  by (induction rs) auto

text \<open>C36. The aggregated presence of a contact (outside OLPC views): after any history of presence
  updates, capability and client type changes nothing has crashed and the presence can be freed; the
  resources have distinct names and are all available; and while there are resources, status,
  message, client types and active resource are those of one of them, the one the aggregation
  chooses, and the contact has a capability exactly when one of its resources has it.\<close>

theorem presence_aggregation:
  assumes "legal_run presence_legal presence_step xs gabble_presence_init"
  shows "\<exists>p. run presence_step xs gabble_presence_init = Some p
    \<and> gabble_presence_finalize p = Some ()
    \<and> distinct (map res_name (pres_resources p))
    \<and> (\<forall>r \<in> set (pres_resources p). GABBLE_PRESENCE_LAST_UNAVAILABLE < res_status r)
    \<and> (pres_resources p \<noteq> [] \<longrightarrow>
        (\<exists>b \<in> set (pres_resources p). best_resource (pres_resources p) = Some b
           \<and> pres_status p = res_status b \<and> presence_message p = msg_read (res_status_message b)
           \<and> pres_client_types p = res_client_type b \<and> pres_active_resource p = Some (res_name b))
        \<and> (\<forall>f. gabble_presence_has_cap p f \<longleftrightarrow>
             (\<exists>r \<in> set (pres_resources p). gabble_capability_set_has (res_cap_set r) f)))"
proof -
  from presence_sys.run_safe [OF presence_ok_init assms] obtain p where
    p: "run presence_step xs gabble_presence_init = Some p" "presence_ok p" by blast
  have ok: "resources_ok p" "aggregate_ok p" using p(2) by (auto simp: presence_ok_def)
  have "resources_free (pres_resources p) = Some ()"
    using ok(1) by (auto intro: resources_free_ok simp: resources_ok_def)
  then have fin: "gabble_presence_finalize p = Some ()"
    using ok(1) by (cases "pres_no_resource_status_message p")
      (auto simp: gabble_presence_finalize_def resources_ok_def)
  have "(\<exists>b \<in> set (pres_resources p). best_resource (pres_resources p) = Some b
           \<and> pres_status p = res_status b \<and> presence_message p = msg_read (res_status_message b)
           \<and> pres_client_types p = res_client_type b \<and> pres_active_resource p = Some (res_name b))
        \<and> (\<forall>f. gabble_presence_has_cap p f \<longleftrightarrow>
             (\<exists>r \<in> set (pres_resources p). gabble_capability_set_has (res_cap_set r) f))"
    if ne: "pres_resources p \<noteq> []"
  proof -
    obtain b where b: "best_resource (pres_resources p) = Some b"
      using ne best_resource_None [of "pres_resources p"] by fastforce
    have mem: "b \<in> set (pres_resources p)" using b by (rule best_resource_in)
    with b ok find_distinct [of "pres_resources p" b] show ?thesis
      by (auto simp: aggregate_ok_def resources_ok_def presence_message_def find_resource_def
          gabble_presence_has_cap_def gabble_capability_set_has_def)
  qed
  with p(1) fin ok(1) show ?thesis by (auto simp: resources_ok_def)
qed

theorem presence_aggregation_witness:
  "\<exists>p. run presence_step presence_demo gabble_presence_init = Some p
    \<and> map res_name (pres_resources p) = [''home'', ''work'']
    \<and> gabble_presence_has_cap p ''jingle'' \<and> gabble_presence_finalize p = Some ()"
proof -
  obtain p where p: "run presence_step presence_demo gabble_presence_init = Some p"
      "map res_name (pres_resources p) = [''home'', ''work'']"
      "\<exists>r \<in> set (pres_resources p). gabble_capability_set_has (res_cap_set r) ''jingle''"
    by (simp add: presence_demo_def presence_exec gabble_capability_set_has_def)
  from p(2) have "pres_resources p \<noteq> []" by auto
  with presence_aggregation [OF presence_demo_legal] p show ?thesis by auto
qed

lemma find_after_update:
  assumes ok: "presence_ok p"
    and r: "resource_update status msg priority now
      (case find_resource p name of None \<Rightarrow> resource_new name | Some r \<Rightarrow> r) = Some r"
    and q: "pres_resources q = replace_resource name r (pres_resources p
      @ (if find_resource p name = None then [resource_new name] else []))"
  shows "find_resource q name = Some r \<and> res_status r = status
    \<and> msg_read (res_status_message r) = Some msg \<and> res_priority r = priority
    \<and> (GABBLE_PRESENCE_AVAILABLE \<le> status \<longrightarrow> res_last_available r = now)
    \<and> (\<forall>r0. find_resource p name = Some r0 \<longrightarrow> res_cap_set r = res_cap_set r0)
    \<and> (\<forall>n. n \<noteq> name \<longrightarrow> find_resource q n = find_resource p n)"
proof -
  define r0 where "r0 = (case find_resource p name of None \<Rightarrow> resource_new name | Some r \<Rightarrow> r)"
  have r0: "res_name r0 = name" "res_status_message r0 \<noteq> MsgFreed"
    using ok find_resource_Some [of p name]
    by (auto simp: r0_def resource_new_def presence_ok_def resources_ok_def split: option.splits)
  from resource_update_ok [OF r0(2), of status msg priority now] r r0(1) have
    up: "res_name r = name" "res_status r = status" "msg_read (res_status_message r) = Some msg"
      "res_priority r = priority" "res_cap_set r = res_cap_set r0"
      "GABBLE_PRESENCE_AVAILABLE \<le> status \<longrightarrow> res_last_available r = now"
    by (auto simp: r0_def)
  have "name \<in> res_name ` set (pres_resources p
      @ (if find_resource p name = None then [resource_new name] else []))"
    using find_resource_Some [of p name] by (cases "find_resource p name") (auto simp: resource_new_def)
  then have "find_resource q name = Some r"
    using find_replaced [OF up(1)] by (simp add: find_resource_def [of q] q)
  moreover have "find_resource q n = find_resource p n" if "n \<noteq> name" for n
    using that up(1)
    by (simp add: find_resource_def [of _ n] q find_replaced_other find_append resource_new_def
        split: option.splits)
  moreover have "find_resource p name = Some r1 \<Longrightarrow> res_cap_set r = res_cap_set r1" for r1
    using up(5) by (simp add: r0_def)
  ultimately show ?thesis using up by blast
qed

text \<open>What an update does: from a resource that becomes unavailable it removes that resource and
  no other; from an available one it records status, message and priority (and the time, when at
  least available) for that resource, keeping its capabilities, and leaves the others as they are;
  from a bare JID it replaces all resources. It returns \<open>TRUE\<close> exactly when the aggregated status or
  message changed.\<close>

theorem presence_update_effect:
  assumes "legal_run presence_legal presence_step xs gabble_presence_init"
    and "run presence_step xs gabble_presence_init = Some p"
  shows "\<exists>ret uct q. gabble_presence_update resource status msg priority now p = Some (ret, uct, q)
    \<and> (ret \<longleftrightarrow> pres_status q \<noteq> pres_status p \<or> presence_message q \<noteq> presence_message p)
    \<and> (case resource of
         None \<Rightarrow> pres_resources q = [] \<and> pres_status q = status \<and> presence_message q = Some msg
       | Some name \<Rightarrow>
           (\<forall>n. n \<noteq> name \<longrightarrow> find_resource q n = find_resource p n)
           \<and> (if status \<le> GABBLE_PRESENCE_LAST_UNAVAILABLE then find_resource q name = None
              else \<exists>r. find_resource q name = Some r \<and> res_status r = status
                \<and> msg_read (res_status_message r) = Some msg \<and> res_priority r = priority
                \<and> (GABBLE_PRESENCE_AVAILABLE \<le> status \<longrightarrow> res_last_available r = now)
                \<and> (\<forall>r0. find_resource p name = Some r0 \<longrightarrow> res_cap_set r = res_cap_set r0)))"
proof -
  have ok: "presence_ok p" by (rule presence_sys.run_inv [OF presence_ok_init assms])
  from presence_update_ok [OF ok, of resource status msg priority now] obtain ret uct q where
    u: "gabble_presence_update resource status msg priority now p = Some (ret, uct, q)"
      "ret \<longleftrightarrow> pres_status q \<noteq> pres_status p \<or> presence_message q \<noteq> presence_message p" and
    rs: "case resource of
         None \<Rightarrow> pres_resources q = [] \<and> pres_status q = status \<and> presence_message q = Some msg
       | Some name \<Rightarrow>
           if status \<le> GABBLE_PRESENCE_LAST_UNAVAILABLE
           then pres_resources q = filter (\<lambda>r. res_name r \<noteq> name) (pres_resources p)
           else \<exists>r'. resource_update status msg priority now
                  (case find_resource p name of None \<Rightarrow> resource_new name | Some r \<Rightarrow> r) = Some r'
                \<and> pres_resources q = replace_resource name r'
                    (pres_resources p
                       @ (if find_resource p name = None then [resource_new name] else []))"
    by blast
  show ?thesis
  proof (cases resource)
    case None
    with u rs show ?thesis by simp
  next
    case (Some name)
    show ?thesis
    proof (cases "status \<le> GABBLE_PRESENCE_LAST_UNAVAILABLE")
      case True
      with rs Some have "pres_resources q = filter (\<lambda>r. res_name r \<noteq> name) (pres_resources p)" by simp
      then have "find_resource q name = None \<and> (\<forall>n. n \<noteq> name \<longrightarrow> find_resource q n = find_resource p n)"
        by (simp add: find_resource_def find_filter_names)
      with u Some True show ?thesis by simp
    next
      case False
      with rs Some obtain r where r: "resource_update status msg priority now
          (case find_resource p name of None \<Rightarrow> resource_new name | Some r \<Rightarrow> r) = Some r"
          "pres_resources q = replace_resource name r (pres_resources p
             @ (if find_resource p name = None then [resource_new name] else []))" by auto
      from find_after_update [OF ok r] u Some False show ?thesis by auto
    qed
  qed
qed

theorem presence_update_effect_witness:
  "\<exists>p ret uct q. run presence_step presence_demo gabble_presence_init = Some p
    \<and> gabble_presence_update (Some ''home'') 8 None 4 50 p = Some (ret, uct, q)
    \<and> (\<exists>r. find_resource q ''home'' = Some r \<and> res_status r = 8 \<and> res_last_available r = 50)
    \<and> find_resource q ''work'' = find_resource p ''work''"
proof -
  obtain p where p: "run presence_step presence_demo gabble_presence_init = Some p"
    using presence_demo_run by blast
  from presence_update_effect [OF presence_demo_legal p, of "Some ''home''" 8 None 4 50]
  obtain ret uct q where "gabble_presence_update (Some ''home'') 8 None 4 50 p = Some (ret, uct, q)"
      "\<forall>n. n \<noteq> ''home'' \<longrightarrow> find_resource q n = find_resource p n"
      "\<exists>r. find_resource q ''home'' = Some r \<and> res_status r = 8 \<and> res_last_available r = 50"
    by (auto simp: presence_ids)
  then show ?thesis using p by (intro exI [of _ p] exI [of _ ret] exI [of _ uct] exI [of _ q]) simp
qed

text \<open>The order \<open>resource_better_than\<close> decides by, compared lexicographically.\<close>

definition resource_key :: "guint \<Rightarrow> Resource \<Rightarrow> nat \<times> nat \<times> int \<times> int" where
  "resource_key preferred r =
     (if preferred \<noteq> 0 \<and> has_client_type (res_client_type r) preferred then 1 else 0,
      res_status r, res_last_available r, sint (res_priority r))"

lemma resource_better_than_key:
  "resource_better_than a (Some b) preferred \<longleftrightarrow>
     0 \<le> sint (res_priority a) \<and> resource_key preferred b < resource_key preferred a"
  by (auto simp: resource_better_than_def resource_key_def Let_def less_prod_simp)

definition eligible :: "(GabbleCapabilitySet \<Rightarrow> bool) option \<Rightarrow> Resource \<Rightarrow> bool" where
  "eligible predicate r \<longleftrightarrow>
     0 \<le> sint (res_priority r) \<and> (case predicate of None \<Rightarrow> True | Some P \<Rightarrow> P (res_cap_set r))"

lemma foldl_pick_step:
  "(case chosen of None \<Rightarrow> True | Some c \<Rightarrow> eligible predicate c) \<Longrightarrow>
   (case foldl (pick_step preferred predicate) chosen rs of
      None \<Rightarrow> chosen = None \<and> (\<forall>r \<in> set rs. \<not> eligible predicate r)
    | Some c \<Rightarrow> eligible predicate c \<and> (chosen = Some c \<or> c \<in> set rs)
        \<and> (\<forall>r \<in> set rs \<union> set_option chosen. eligible predicate r \<longrightarrow>
             \<not> resource_key preferred c < resource_key preferred r))"
proof (induction rs arbitrary: chosen)
  case Nil
  then show ?case by (auto split: option.splits)
next
  case (Cons r rs)
  let ?c = "pick_step preferred predicate chosen r"
  have step: "case ?c of
      None \<Rightarrow> chosen = None \<and> \<not> eligible predicate r
    | Some c \<Rightarrow> eligible predicate c \<and> (chosen = Some c \<or> c = r)
        \<and> (\<forall>x \<in> {r} \<union> set_option chosen. eligible predicate x \<longrightarrow>
             \<not> resource_key preferred c < resource_key preferred x)"
    using Cons.prems
    by (cases chosen)
      (auto simp: pick_step_def resource_better_than_key eligible_def
        resource_better_than_def [of _ None] split: option.splits)
  then have "case ?c of None \<Rightarrow> True | Some c \<Rightarrow> eligible predicate c" by (auto split: option.splits)
  from Cons.IH [OF this] step show ?case
    by (auto split: option.splits simp: not_less intro: order_trans)
qed

text \<open>The resource picked for a capability: there is none exactly when no resource with a
  non-negative priority satisfies the predicate; otherwise it is such a resource, and no other such
  resource is better in the order: preferred client type first, then status, then the last time it
  was available, then priority.\<close>

theorem pick_resource_maximal:
  "case gabble_presence_pick_resource_by_caps p preferred predicate of
     None \<Rightarrow> filter (eligible predicate) (pres_resources p) = []
   | Some name \<Rightarrow> \<exists>c \<in> set (pres_resources p). res_name c = name \<and> eligible predicate c
       \<and> filter (\<lambda>r. eligible predicate r
             \<and> resource_key preferred c < resource_key preferred r) (pres_resources p) = []"
  using foldl_pick_step [where chosen = None and predicate = predicate and preferred = preferred
    and rs = "pres_resources p"]
  by (auto simp: gabble_presence_pick_resource_by_caps_def filter_empty_conv split: option.splits)

lemma resource_set_capabilities_caps:
  "res_caps_serial (resource_set_capabilities caps forms serial r) = max (res_caps_serial r) serial"
  "res_cap_set (resource_set_capabilities caps forms serial r) =
     (if serial > res_caps_serial r then caps
      else if serial = res_caps_serial r then res_cap_set r \<union> caps else res_cap_set r)"
  by (auto simp: resource_set_capabilities_def Let_def gabble_capability_set_update_def
      gabble_capability_set_clear_def max_def)

text \<open>Capabilities and serials: setting capabilities for a resource leaves the other resources
  alone; with a newer serial the resource's old capabilities are forgotten, with the same serial the
  new ones are added, with an older serial nothing changes, and the serial never decreases.
  Capabilities for the bare JID are ignored as soon as there are resources.\<close>

theorem set_capabilities_serial:
  assumes "find_resource p name = Some r"
  shows "gabble_presence_set_capabilities None caps forms serial p = (False, p)
    \<and> (\<exists>r' q. gabble_presence_set_capabilities (Some name) caps forms serial p = (True, q)
      \<and> find_resource q name = Some r'
      \<and> (\<forall>n. n \<noteq> name \<longrightarrow> find_resource q n = find_resource p n)
      \<and> res_caps_serial r' = max (res_caps_serial r) serial
      \<and> res_cap_set r' = (if serial > res_caps_serial r then caps
                          else if serial = res_caps_serial r then res_cap_set r \<union> caps
                          else res_cap_set r)
      \<and> (\<forall>f. gabble_presence_has_cap q f \<longleftrightarrow>
           (\<exists>x \<in> set (pres_resources q). f \<in> res_cap_set x)))"
proof -
  let ?f = "\<lambda>x. if res_name x = name then resource_set_capabilities caps forms serial x else x"
  let ?q = "snd (gabble_presence_set_capabilities (Some name) caps forms serial p)"
  have q: "pres_resources ?q = map ?f (pres_resources p)"
      "pres_cap_set ?q = \<Union> (res_cap_set ` set (pres_resources ?q))"
      "gabble_presence_set_capabilities (Some name) caps forms serial p = (True, ?q)"
    by (simp_all add: gabble_presence_set_capabilities_def Let_def foldl_caps_update)
  have find: "find (\<lambda>x. res_name x = n) (map ?f rs) = map_option ?f (find (\<lambda>x. res_name x = n) rs)"
    for n rs by (induction rs) auto
  then have fq: "find_resource ?q n = map_option ?f (find_resource p n)" for n
    by (simp add: find_resource_def q(1))
  have "find_resource ?q n = find_resource p n" if "n \<noteq> name" for n
    using that find_resource_Some [of p n] by (cases "find_resource p n") (auto simp: fq)
  moreover have "find_resource ?q name = Some (resource_set_capabilities caps forms serial r)"
    using assms find_resource_Some [OF assms] by (simp add: fq)
  moreover have "pres_resources p \<noteq> []" using find_resource_Some [OF assms] by auto
  moreover have "gabble_presence_has_cap ?q f \<longleftrightarrow> (\<exists>x \<in> set (pres_resources ?q). f \<in> res_cap_set x)"
    for f by (simp add: gabble_presence_has_cap_def gabble_capability_set_has_def q(2))
  ultimately show ?thesis
    using q(3) resource_set_capabilities_caps [of caps forms serial r]
    by (intro conjI exI [of _ "resource_set_capabilities caps forms serial r"] exI [of _ ?q])
      (simp_all add: gabble_presence_set_capabilities_def [of None])
qed

theorem set_capabilities_serial_witness:
  "\<exists>p q r. run presence_step presence_demo gabble_presence_init = Some p
    \<and> gabble_presence_set_capabilities (Some ''home'') {''ft''} [] 3 p = (True, q)
    \<and> find_resource q ''home'' = Some r \<and> res_cap_set r = {''ft''}"
proof -
  obtain p r where p: "run presence_step presence_demo gabble_presence_init = Some p"
      "find_resource p ''home'' = Some r" "res_caps_serial r = 2"
    by (simp add: presence_demo_def presence_exec)
  obtain r' q where q: "gabble_presence_set_capabilities (Some ''home'') {''ft''} [] 3 p = (True, q)"
      "find_resource q ''home'' = Some r'"
      "res_cap_set r' = (if 3 > res_caps_serial r then {''ft''}
         else if 3 = res_caps_serial r then res_cap_set r \<union> {''ft''} else res_cap_set r)"
    using set_capabilities_serial [OF p(2), of "{''ft''}" "[]" 3]
    by (elim conjE exE) (rule that; assumption)
  moreover from q(3) p(3) have "res_cap_set r' = {''ft''}" by simp
  ultimately show ?thesis using p(1) by (intro exI [of _ p] exI [of _ q] exI [of _ r']) simp
qed

text \<open>In the aggregation a PC resource wins over a resource that is not a PC whatever their
  statuses, if it comes later in the list; if it comes first it wins only when the other does not
  trump it, so the aggregated presence depends on the order in which the resources appeared.\<close>

theorem pc_trumps_status:
  assumes "has_client_type (res_client_type r) GABBLE_CLIENT_TYPE_PC"
    and "\<not> has_client_type (res_client_type s) GABBLE_CLIENT_TYPE_PC"
    and "res_status r < res_status s"
  shows "best_resource [s, r] = Some r \<and> best_resource [r, s] = Some s"
  using assms by (simp add: best_resource_def best_step_def trumps_def)

theorem pc_trumps_status_witness:
  "let pc = (resource_new ''pc'')\<lparr>res_client_type := 16, res_status := GABBLE_PRESENCE_XA\<rparr>;
       phone = (resource_new ''phone'')\<lparr>res_client_type := 32, res_status := GABBLE_PRESENCE_CHAT\<rparr>
   in best_resource [phone, pc] = Some pc \<and> best_resource [pc, phone] = Some phone"
  using pc_trumps_status [of "(resource_new ''pc'')\<lparr>res_client_type := 16, res_status := GABBLE_PRESENCE_XA\<rparr>"
      "(resource_new ''phone'')\<lparr>res_client_type := 32, res_status := GABBLE_PRESENCE_CHAT\<rparr>"]
  by (simp add: has_client_type_def GABBLE_CLIENT_TYPE_PC_def presence_ids)

text \<open>A contact whose last presence came from its bare JID with a message, and that is then added
  to an OLPC view: the message is freed through \<open>presence->status_message\<close> while
  \<open>no_resource_status_message\<close> still points to it, so the next presence from the bare JID reads freed
  memory, and freeing the presence frees the message a second time.\<close>

theorem view_frees_bare_message:
  assumes "legal_run presence_legal presence_step xs gabble_presence_init"
    and "run presence_step xs gabble_presence_init = Some p0"
  shows "\<exists>ret uct p ret' p'. gabble_presence_update None status (Some msg) prio now p0 = Some (ret, uct, p)
    \<and> gabble_presence_added_to_view p = Some (ret', p')
    \<and> gabble_presence_update None status' msg' prio' now' p' = None
    \<and> gabble_presence_finalize p' = None"
proof -
  have ok: "presence_ok p0" by (rule presence_sys.run_inv [OF presence_ok_init assms])
  from presence_message_ok [OF ok] obtain m0 where m0: "presence_message p0 = Some m0" by blast
  from ok obtain m where m: "msg_set (pres_no_resource_status_message p0) (Some msg) = Some m"
      "m \<noteq> MsgFreed" "msg_read m = Some (Some msg)"
    using msg_set_ok [of "pres_no_resource_status_message p0" "Some msg"]
    by (auto simp: presence_ok_def resources_ok_def)
  have m': "m = MsgStr msg" using m(2,3) by (cases m) auto
  have free: "resources_free (pres_resources p0) = Some ()" "pres_olpc_views p0 = 0"
    using ok by (auto intro: resources_free_ok simp: presence_ok_def resources_ok_def)
  let ?p = "p0\<lparr>pres_resources := [], pres_no_resource_status_message := MsgStr msg,
              pres_status := status, pres_status_message := Ref_bare\<rparr>"
  let ?p' = "?p\<lparr>pres_olpc_views := 1, pres_cap_set := {}, pres_status := GABBLE_PRESENCE_AVAILABLE,
               pres_no_resource_status_message := MsgFreed, pres_status_message := Ref_null\<rparr>"
  have "\<exists>ret. gabble_presence_update None status (Some msg) prio now p0 = Some (ret, None, ?p)"
    using m m' free m0
    by (simp add: gabble_presence_update_def presence_update_bare_def presence_message_def [of ?p])
  moreover have "\<exists>ret'. gabble_presence_added_to_view ?p = Some (ret', ?p')"
    using free(2)
    by (simp add: gabble_presence_added_to_view_def presence_change_views_def presence_message_def
        aggregate_resources_def best_resource_def free_presence_message_def presence_ids
        gabble_capability_set_clear_def)
  moreover have "gabble_presence_update None status' msg' prio' now' ?p' = None"
    by (simp add: gabble_presence_update_def presence_message_def presence_update_bare_def msg_set_def)
  moreover have "gabble_presence_finalize ?p' = None"
    by (simp add: gabble_presence_finalize_def)
  ultimately show ?thesis by blast
qed

theorem view_frees_bare_message_witness:
  "\<exists>ret uct p ret' p'. gabble_presence_update None 0 (Some ''bye'') 0 1 gabble_presence_init
      = Some (ret, uct, p)
    \<and> gabble_presence_added_to_view p = Some (ret', p')
    \<and> gabble_presence_update None 0 None 0 2 p' = None
    \<and> gabble_presence_finalize p' = None"
  by (rule view_frees_bare_message [of "[]"]) simp_all

end
