(* ===== verification/Tube_DBus.thy ===== *)
theory Tube_DBus
  imports Tube_Parameters Jids Bytestream_Iface Presence "HOL-Library.AList"
begin

text \<open>
  D-Bus tubes (\<open>src/tube-dbus.c\<close>): a private D-Bus connection whose messages travel over a bytestream, to
  one contact or to a room. Messages from a contact arrive as a byte stream and are put together again;
  messages from a room arrive one by one and are checked against the D-Bus names the participants
  announced. Until the local application connects they are queued.

  libdbus is a parameter (\<open>dbus_lib\<close>), and so are the checksum and base64 functions of GLib. The tube
  sees its bytestream as the state it is in; whether closing it closes it at once or leaves it
  \<open>CLOSING\<close> (an in-band bytestream with unsent data) is an argument.
\<close>

unbundle bit_operations_syntax

section \<open>State\<close>

text \<open>What the code uses of libdbus. \<open>dbus_disconnected\<close>: the message is the local signal
  \<open>Disconnected\<close> of \<open>org.freedesktop.DBus.Local\<close>.\<close>

record 'm dbus_lib =
  dbus_message_demarshal :: "bytes \<Rightarrow> 'm option"
  dbus_message_marshal :: "'m \<Rightarrow> bytes option"
  dbus_message_get_sender :: "'m \<Rightarrow> cstring"
  dbus_message_get_destination :: "'m \<Rightarrow> cstring"
  dbus_message_set_sender :: "string \<Rightarrow> 'm \<Rightarrow> 'm option"
  dbus_disconnected :: "'m \<Rightarrow> bool"
  DBUS_MAXIMUM_MESSAGE_LENGTH :: guint
  DBUS_MAXIMUM_ARRAY_LENGTH :: guint

definition MAX_QUEUE_SIZE :: nat where
  "MAX_QUEUE_SIZE = 4096 * 1024"

datatype TpTubeChannelState =
    TP_TUBE_CHANNEL_STATE_LOCAL_PENDING
  | TP_TUBE_CHANNEL_STATE_REMOTE_PENDING
  | TP_TUBE_CHANNEL_STATE_OPEN
  | TP_TUBE_CHANNEL_STATE_NOT_OFFERED

datatype TpSocketAccessControl =
    TP_SOCKET_ACCESS_CONTROL_LOCALHOST
  | TP_SOCKET_ACCESS_CONTROL_PORT
  | TP_SOCKET_ACCESS_CONTROL_NETMASK
  | TP_SOCKET_ACCESS_CONTROL_CREDENTIALS

datatype 'm tube_event =
    TB_deliver 'm
  | TB_send bytes
  | TB_send_to nat bytes
  | TB_bytestream_close
  | TB_bytestream_accept
  | TB_bytestream_open
  | TB_negotiate WockyNode
  | TB_query_proxies
  | TB_send_presence
  | TB_opened
  | TB_closed
  | TB_offered
  | TB_destroyed
  | TB_state_changed TpTubeChannelState
  | TB_names_changed "(nat \<times> string) list" "nat list"

text \<open>\<open>tb_room\<close>: the target is a room, and the bytestream a room bytestream. The socket address and path
  are not kept; what only matters for the offer is in \<open>tube_offer\<close> below.\<close>

record 'm tube =
  tb_room :: bool
  tb_self_handle :: nat
  tb_bytestream :: "GabbleBytestreamState option"
  tb_access_control :: TpSocketAccessControl
  tb_offered :: bool
  tb_dbus_local_name :: cstring
  tb_dbus_srv :: bool
  tb_dbus_conn :: bool
  tb_dbus_msg_queue :: "'m list"
  tb_dbus_msg_queue_size :: nat
  tb_dbus_names :: "(nat \<times> string) list"
  tb_dbus_name_to_handle :: "(string \<times> nat) list"
  tb_reassembly_buffer :: bytes
  tb_reassembly_bytes_needed :: guint
  tb_dispose_has_run :: bool
  tb_trace :: "'m tube_event list"

definition tb_emit :: "'m tube_event \<Rightarrow> 'm tube \<Rightarrow> 'm tube" where
  "tb_emit e t = t\<lparr>tb_trace := tb_trace t @ [e]\<rparr>"

section \<open>Names in a room\<close>

text \<open>\<open>b64\<close> is \<open>g_base64_encode\<close>, \<open>sha1\<close> the binary checksum.\<close>

definition sha1_bin :: "(bytes \<Rightarrow> bytes) \<Rightarrow> bytes \<Rightarrow> bytes option" where
  "sha1_bin sha1 b = (if length (sha1 b) = 20 then Some (sha1 b) else None)"

definition dbus_name_char :: "char \<Rightarrow> char" where
  "dbus_name_char c =
     (if c = CHR ''+'' then CHR ''_''
      else if c = CHR ''/'' then CHR ''-''
      else if c = CHR ''='' then CHR ''A''
      else c)"

definition gabble_generate_dbus_unique_name ::
    "(bytes \<Rightarrow> string) \<Rightarrow> (bytes \<Rightarrow> bytes) \<Rightarrow> string \<Rightarrow> string option" where
  "gabble_generate_dbus_unique_name b64 sha1 nick =
     (let b = map of_char nick
      in do { encoded \<leftarrow> (if length b \<le> 186 then Some (b64 b)
                          else map_option (\<lambda>digest. b64 (take 169 b @ digest)) (sha1_bin sha1 b));
              Some ('':2.'' @ map dbus_name_char encoded) })"

text \<open>\<open>nick_of\<close> is the resource of the JID a contact handle stands for, as \<open>wocky_decode_jid\<close> finds it; \<open>gen\<close> the
  function above with its parameters.\<close>

definition gabble_tube_dbus_add_name ::
    "(string \<Rightarrow> string option) \<Rightarrow> (nat \<Rightarrow> cstring) \<Rightarrow> nat \<Rightarrow> string \<Rightarrow> 'm tube \<Rightarrow> (bool \<times> 'm tube) option" where
  "gabble_tube_dbus_add_name gen nick_of handle name t =
     (if \<not> tb_room t \<or> length (tb_dbus_names t) \<noteq> length (tb_dbus_name_to_handle t) then None
      else if map_of (tb_dbus_names t) handle \<noteq> None then Some (False, t)
      else if map_of (tb_dbus_name_to_handle t) name \<noteq> None then Some (False, t)
      else
        let add = t\<lparr>tb_dbus_names := AList.update handle name (tb_dbus_names t),
                    tb_dbus_name_to_handle := AList.update name handle (tb_dbus_name_to_handle t)\<rparr>;
            ok = Some (True, tb_emit (TB_names_changed [(handle, name)] []) add)
        in if take 3 name = '':2.''
           then do { nick \<leftarrow> nick_of handle;
                     supposed_name \<leftarrow> gen nick;
                     if tp_strdiff (Some name) (Some supposed_name) then Some (False, t) else ok }
           else ok)"

definition gabble_tube_dbus_remove_name :: "nat \<Rightarrow> 'm tube \<Rightarrow> (bool \<times> 'm tube) option" where
  "gabble_tube_dbus_remove_name handle t =
     (if \<not> tb_room t then None
      else case map_of (tb_dbus_names t) handle of
        None \<Rightarrow> Some (False, t)
      | Some name \<Rightarrow>
          let t1 = t\<lparr>tb_dbus_name_to_handle := AList.delete name (tb_dbus_name_to_handle t),
                     tb_dbus_names := AList.delete handle (tb_dbus_names t)\<rparr>
          in if length (tb_dbus_names t1) \<noteq> length (tb_dbus_name_to_handle t1) then None
             else Some (True, tb_emit (TB_names_changed [] [handle]) t1))"

definition gabble_tube_dbus_handle_in_names :: "nat \<Rightarrow> 'm tube \<Rightarrow> bool option" where
  "gabble_tube_dbus_handle_in_names handle t =
     (if \<not> tb_room t then None else Some (map_of (tb_dbus_names t) handle \<noteq> None))"

section \<open>Closing and opening\<close>

text \<open>The branch \<open>CLOSED\<close> of \<open>bytestream_state_changed_cb\<close>.\<close>

definition tube_bytestream_closed :: "'m tube \<Rightarrow> 'm tube" where
  "tube_bytestream_closed t =
     (let t1 = tb_emit TB_closed (t\<lparr>tb_bytestream := None\<rparr>)
      in if tb_room t then tb_emit TB_send_presence t1 else t1)"

text \<open>\<open>gabble_bytestream_iface_close\<close> on the bytestream of the tube, with the callback it runs.\<close>

definition close_bytestream :: "bool \<Rightarrow> 'm tube \<Rightarrow> 'm tube" where
  "close_bytestream at_once t =
     (let t1 = tb_emit TB_bytestream_close t
      in if tb_bytestream t = Some GABBLE_BYTESTREAM_STATE_CLOSED then t1
         else if at_once then tube_bytestream_closed t1
         else t1\<lparr>tb_bytestream := Some GABBLE_BYTESTREAM_STATE_CLOSING\<rparr>)"

definition gabble_tube_dbus_close :: "bool \<Rightarrow> 'm tube \<Rightarrow> 'm tube" where
  "gabble_tube_dbus_close at_once t =
     tb_emit TB_destroyed
       (if tb_bytestream t \<noteq> None then close_bytestream at_once t else tb_emit TB_closed t)"

text \<open>\<open>listens\<close> are the results of \<open>dbus_server_listen\<close>, one per try.\<close>

definition SERVER_LISTEN_MAX_TRIES :: nat where
  "SERVER_LISTEN_MAX_TRIES = 5"

definition create_dbus_server :: "bool list \<Rightarrow> 'm tube \<Rightarrow> bool \<times> 'm tube" where
  "create_dbus_server listens t =
     (if tb_dbus_srv t then (True, t)
      else if True \<in> set (take SERVER_LISTEN_MAX_TRIES listens) then (True, t\<lparr>tb_dbus_srv := True\<rparr>)
      else (False, t))"

text \<open>What the surroundings decide: the tries to listen, whether closing the bytestream closes it at once,
  the names, and whether the acceptance of the bytestream could be sent.\<close>

record tube_env =
  te_listens :: "bool list"
  te_at_once :: bool
  te_gen :: "string \<Rightarrow> string option"
  te_nick_of :: "nat \<Rightarrow> cstring"
  te_accept_sent :: bool

definition tube_dbus_open :: "tube_env \<Rightarrow> 'm tube \<Rightarrow> 'm tube option" where
  "tube_dbus_open env t =
     (let (ok, t1) = create_dbus_server (te_listens env) t;
          t2 = (if ok then t1 else gabble_tube_dbus_close (te_at_once env) t1)
      in if tb_room t2
         then do { name \<leftarrow> tb_dbus_local_name t2;
                   (_, t3) \<leftarrow> gabble_tube_dbus_add_name (te_gen env) (te_nick_of env) (tb_self_handle t2)
                               name t2;
                   Some (tb_emit TB_send_presence t3) }
         else Some t2)"

definition bytestream_state_changed_cb ::
    "tube_env \<Rightarrow> GabbleBytestreamState \<Rightarrow> 'm tube \<Rightarrow> 'm tube option" where
  "bytestream_state_changed_cb env state t =
     (if state = GABBLE_BYTESTREAM_STATE_CLOSED then Some (tube_bytestream_closed t)
      else if state = GABBLE_BYTESTREAM_STATE_OPEN
      then map_option (\<lambda>t1. tb_emit TB_opened (tb_emit (TB_state_changed TP_TUBE_CHANNEL_STATE_OPEN) t1))
             (tube_dbus_open env (t\<lparr>tb_bytestream := Some state\<rparr>))
      else Some (t\<lparr>tb_bytestream := Some state\<rparr>))"

text \<open>\<open>gabble_tube_dbus_set_property\<close>, \<open>PROP_BYTESTREAM\<close>.\<close>

definition tube_set_bytestream :: "tube_env \<Rightarrow> GabbleBytestreamState \<Rightarrow> 'm tube \<Rightarrow> 'm tube option" where
  "tube_set_bytestream env state t =
     (if tb_bytestream t = None
      then let t1 = t\<lparr>tb_bytestream := Some state\<rparr>
           in if state = GABBLE_BYTESTREAM_STATE_OPEN then tube_dbus_open env t1 else Some t1
      else Some t)"

text \<open>\<open>None\<close> for the states in which \<open>g_return_val_if_reached\<close> complains.\<close>

definition get_tube_state :: "'m tube \<Rightarrow> TpTubeChannelState option" where
  "get_tube_state t =
     (if \<not> tb_offered t then Some TP_TUBE_CHANNEL_STATE_NOT_OFFERED
      else case tb_bytestream t of
        None \<Rightarrow> Some TP_TUBE_CHANNEL_STATE_REMOTE_PENDING
      | Some GABBLE_BYTESTREAM_STATE_OPEN \<Rightarrow> Some TP_TUBE_CHANNEL_STATE_OPEN
      | Some GABBLE_BYTESTREAM_STATE_LOCAL_PENDING \<Rightarrow> Some TP_TUBE_CHANNEL_STATE_LOCAL_PENDING
      | Some GABBLE_BYTESTREAM_STATE_ACCEPTED \<Rightarrow> Some TP_TUBE_CHANNEL_STATE_LOCAL_PENDING
      | Some GABBLE_BYTESTREAM_STATE_INITIATING \<Rightarrow> Some TP_TUBE_CHANNEL_STATE_REMOTE_PENDING
      | Some _ \<Rightarrow> None)"

text \<open>\<open>gabble_tube_dbus_constructed\<close>. \<open>initiated\<close>: we are the initiator; \<open>nick\<close>: our name in the room.\<close>

definition gabble_tube_dbus_constructed ::
    "tube_env \<Rightarrow> bool \<Rightarrow> nat \<Rightarrow> bool \<Rightarrow> bool \<Rightarrow> 'm tube option" where
  "gabble_tube_dbus_constructed env room self_handle initiated requested =
     (let t = \<lparr>tb_room = room, tb_self_handle = self_handle, tb_bytestream = None,
               tb_access_control = TP_SOCKET_ACCESS_CONTROL_CREDENTIALS,
               tb_offered = \<not> (initiated \<and> requested), tb_dbus_local_name = None,
               tb_dbus_srv = False, tb_dbus_conn = False, tb_dbus_msg_queue = [],
               tb_dbus_msg_queue_size = 0, tb_dbus_names = [], tb_dbus_name_to_handle = [],
               tb_reassembly_buffer = [], tb_reassembly_bytes_needed = 0,
               tb_dispose_has_run = False, tb_trace = []\<rparr>
      in if self_handle = 0 then None
         else if room
         then do { nick \<leftarrow> te_nick_of env self_handle;
                   name \<leftarrow> te_gen env nick;
                   tube_set_bytestream env GABBLE_BYTESTREAM_STATE_LOCAL_PENDING
                     (t\<lparr>tb_dbus_local_name := Some name\<rparr>) }
         else Some (if requested then tb_emit TB_query_proxies t else t))"

section \<open>Messages of the local application\<close>

definition filter_cb :: "'m dbus_lib \<Rightarrow> 'm \<Rightarrow> 'm tube \<Rightarrow> 'm tube" where
  "filter_cb lib msg t =
     (if dbus_disconnected lib msg then t\<lparr>tb_dbus_conn := False\<rparr>
      else
        let msg1 = (case tb_dbus_local_name t of
                      None \<Rightarrow> msg
                    | Some name \<Rightarrow> (case dbus_message_set_sender lib name msg of
                                       Some m \<Rightarrow> m | None \<Rightarrow> msg))
        in case dbus_message_marshal lib msg1 of
             None \<Rightarrow> t
           | Some marshalled \<Rightarrow>
               (case (if tb_room t then dbus_message_get_destination lib msg1 else None) of
                  Some dest \<Rightarrow>
                    (case map_of (tb_dbus_name_to_handle t) dest of
                       None \<Rightarrow> t
                     | Some handle \<Rightarrow> tb_emit (TB_send_to handle marshalled) t)
                | None \<Rightarrow> tb_emit (TB_send marshalled) t))"

definition tube_new_connection_cb :: "'m tube \<Rightarrow> 'm tube" where
  "tube_new_connection_cb t =
     (if tb_dbus_conn t then t
      else t\<lparr>tb_dbus_conn := True, tb_trace := tb_trace t @ map TB_deliver (rev (tb_dbus_msg_queue t)),
             tb_dbus_msg_queue := [], tb_dbus_msg_queue_size := 0\<rparr>)"

section \<open>Messages of the peers\<close>

definition message_received :: "'m dbus_lib \<Rightarrow> nat \<Rightarrow> bytes \<Rightarrow> 'm tube \<Rightarrow> 'm tube" where
  "message_received lib sender data t =
     (case dbus_message_demarshal lib data of
        None \<Rightarrow> t
      | Some msg \<Rightarrow>
          if tb_room t \<and> dbus_message_get_destination lib msg \<noteq> None
             \<and> tp_strdiff (tb_dbus_local_name t) (dbus_message_get_destination lib msg) then t
          else if tb_room t \<and> tp_strdiff (map_of (tb_dbus_names t) sender) (dbus_message_get_sender lib msg)
          then t
          else if \<not> tb_dbus_conn t
          then (if tb_dbus_msg_queue_size t + length data > MAX_QUEUE_SIZE then t
                else t\<lparr>tb_dbus_msg_queue := msg # tb_dbus_msg_queue t,
                       tb_dbus_msg_queue_size := tb_dbus_msg_queue_size t + length data\<rparr>)
          else tb_emit (TB_deliver msg) t)"

definition collect_le32 :: "bytes \<Rightarrow> guint" where
  "collect_le32 b =
     ucast (b ! 0) OR push_bit 8 (ucast (b ! 1)) OR push_bit 16 (ucast (b ! 2)) OR push_bit 24 (ucast (b ! 3))"

text \<open>As written: the third byte is shifted by 24, not by 8.\<close>

definition collect_be32 :: "bytes \<Rightarrow> guint" where
  "collect_be32 b =
     push_bit 24 (ucast (b ! 0)) OR push_bit 16 (ucast (b ! 1)) OR push_bit 24 (ucast (b ! 2)) OR ucast (b ! 3)"

definition DBUS_BIG_ENDIAN :: byte where
  "DBUS_BIG_ENDIAN = 66"

definition DBUS_LITTLE_ENDIAN :: byte where
  "DBUS_LITTLE_ENDIAN = 108"

text \<open>The length of the body and of the array of header fields; \<open>None\<close> for an unknown endianness.\<close>

definition message_lengths :: "bytes \<Rightarrow> (guint \<times> guint) option" where
  "message_lengths buf =
     (if buf ! 0 = DBUS_BIG_ENDIAN then Some (collect_be32 (drop 4 buf), collect_be32 (drop 12 buf))
      else if buf ! 0 = DBUS_LITTLE_ENDIAN then Some (collect_le32 (drop 4 buf), collect_le32 (drop 12 buf))
      else None)"

definition params_padded :: "guint \<Rightarrow> guint" where
  "params_padded m = m + ((8 - (m mod 8)) mod 8)"

lemma message_received_buffer [simp]:
  "tb_reassembly_buffer (message_received lib sender data t) = tb_reassembly_buffer t"
  "tb_reassembly_bytes_needed (message_received lib sender data t) = tb_reassembly_bytes_needed t"
  by (simp_all add: message_received_def tb_emit_def split: option.split)

text \<open>The loop of \<open>data_received_cb\<close> for a contact.\<close>

function data_received_loop :: "'m dbus_lib \<Rightarrow> bool \<Rightarrow> nat \<Rightarrow> 'm tube \<Rightarrow> 'm tube option" where
  "data_received_loop lib at_once sender t =
     (if length (tb_reassembly_buffer t) < 16 then Some t
      else if tb_reassembly_bytes_needed t \<noteq> 0
              \<and> length (tb_reassembly_buffer t) < unat (tb_reassembly_bytes_needed t) then Some t
      else
        let n = unat (tb_reassembly_bytes_needed t);
            buf = drop n (tb_reassembly_buffer t);
            t1 = (if n \<noteq> 0
                  then (message_received lib sender (take n (tb_reassembly_buffer t)) t)
                         \<lparr>tb_reassembly_buffer := buf, tb_reassembly_bytes_needed := 0\<rparr>
                  else t)
        in if length buf < 16 then Some t1
           else case message_lengths buf of
             None \<Rightarrow> Some (gabble_tube_dbus_close at_once t1)
           | Some (body_length, m) \<Rightarrow>
               let params_length = params_padded m;
                   needed = params_length + body_length + 16;
                   t2 = t1\<lparr>tb_reassembly_bytes_needed := needed\<rparr>
               in if \<not> (params_length mod 8 = 0 \<and> m \<le> params_length \<and> params_length < m + 8) then None
                  else if DBUS_MAXIMUM_MESSAGE_LENGTH lib < body_length
                          \<or> DBUS_MAXIMUM_ARRAY_LENGTH lib < params_length
                          \<or> DBUS_MAXIMUM_MESSAGE_LENGTH lib < needed
                  then Some (gabble_tube_dbus_close at_once t2)
                  else if needed = 0 then None
                  else data_received_loop lib at_once sender t2)"
  by pat_completeness auto

termination
  by (relation "measure (\<lambda>(lib, at_once, sender, t). 2 * length (tb_reassembly_buffer t)
        + (if tb_reassembly_bytes_needed t = 0 then 1 else 0))")
    (auto simp: Let_def unat_eq_zero unat_gt_0 intro!: diff_less split: if_splits)

declare data_received_loop.simps [simp del]

text \<open>In a room, messages arrive whole.\<close>

definition data_received_cb :: "'m dbus_lib \<Rightarrow> bool \<Rightarrow> nat \<Rightarrow> bytes \<Rightarrow> 'm tube \<Rightarrow> 'm tube option" where
  "data_received_cb lib at_once sender data t =
     (if tb_room t then Some (message_received lib sender data t)
      else data_received_loop lib at_once sender
             (t\<lparr>tb_reassembly_buffer := tb_reassembly_buffer t @ data\<rparr>))"

section \<open>Offering and accepting\<close>

text \<open>What goes into the offer, as \<open>gabble_tube_iface_publish_in_node\<close> of \<open>src/tube-iface.c\<close> writes it for a
  D-Bus tube; \<open>b64\<close> is \<open>g_base64_encode\<close>.\<close>

record tube_offer =
  to_service :: string
  to_id :: nat
  to_stream_id :: string
  to_initiator :: string
  to_parameters :: "(string \<times> GValue) list"

fun set_children :: "WockyNode list \<Rightarrow> WockyNode \<Rightarrow> WockyNode" where
  "set_children cs (WockyNode name content ns attrs _) = WockyNode name content ns attrs cs"

definition gabble_tube_iface_publish_in_node ::
    "(bytes \<Rightarrow> string) \<Rightarrow> tube_offer \<Rightarrow> cstring \<Rightarrow> WockyNode \<Rightarrow> WockyNode" where
  "gabble_tube_iface_publish_in_node b64 off dbus_name node =
     (let n1 = wocky_node_set_attribute (wocky_node_set_attribute node ''service'' (to_service off))
                 ''id'' (show_nat (to_id off));
          n2 = wocky_node_set_attribute (wocky_node_set_attribute (wocky_node_set_attribute n1
                 ''type'' ''dbus'') ''stream-id'' (to_stream_id off)) ''initiator'' (to_initiator off);
          n3 = (case dbus_name of None \<Rightarrow> n2 | Some name \<Rightarrow> wocky_node_set_attribute n2 ''dbus-name'' name)
      in add_child_node n3
           (lm_message_node_add_children_from_properties b64 ''parameter'' (to_parameters off)
              (WockyNode ''parameters'' None (node_ns n3) [] [])))"

text \<open>The child \<open>si\<close> of the request gets the node \<open>tube\<close> appended.\<close>

definition add_tube_node :: "(bytes \<Rightarrow> string) \<Rightarrow> tube_offer \<Rightarrow> cstring \<Rightarrow> WockyNode \<Rightarrow> WockyNode" where
  "add_tube_node b64 off dbus_name si =
     set_children (node_children si
       @ [gabble_tube_iface_publish_in_node b64 off dbus_name (WockyNode ''tube'' None (Some NS_TUBES) [] [])]) si"

definition tube_offer_iq :: "(bytes \<Rightarrow> string) \<Rightarrow> tube_offer \<Rightarrow> string \<Rightarrow> WockyNode option" where
  "tube_offer_iq b64 off full_jid =
     do { msg \<leftarrow> gabble_bytestream_factory_make_stream_init_iq full_jid (to_stream_id off) NS_TUBES;
          si \<leftarrow> wocky_node_get_child_ns msg (Some ''si'') (Some NS_SI);
          Some (set_children (map_first (node_compare_child (Some ''si'') (Some NS_SI))
                  (add_tube_node b64 off None) (node_children msg)) msg) }"

datatype tube_error = Already_offered | No_presence | No_tube_caps | No_server | Bad_access_control

text \<open>\<open>jid\<close> and \<open>presence\<close> of the contact, as the connection knows them.\<close>

definition gabble_tube_dbus_offer ::
    "(bytes \<Rightarrow> string) \<Rightarrow> tube_env \<Rightarrow> tube_offer \<Rightarrow> string \<Rightarrow> presence option \<Rightarrow> 'm tube \<Rightarrow> (tube_error option \<times> 'm tube) option" where
  "gabble_tube_dbus_offer b64 env off jid pres t =
     (let finish = (\<lambda>t1. let (ok, t2) = create_dbus_server (te_listens env) t1
                         in if ok then (None, tb_emit TB_offered t2) else (Some No_server, t2))
      in if tb_offered t then Some (Some Already_offered, t)
         else if \<not> tb_room t
         then (case pres of
                 None \<Rightarrow> Some (Some No_presence, t)
               | Some p \<Rightarrow>
                   (case gabble_presence_pick_resource_by_caps p 0 (Some (\<lambda>caps. gabble_capability_set_has caps NS_TUBES)) of
                      None \<Rightarrow> Some (Some No_tube_caps, t)
                    | Some resource \<Rightarrow>
                        do { msg \<leftarrow> tube_offer_iq b64 off (jid @ CHR ''/'' # resource);
                             Some (finish (tb_emit (TB_state_changed TP_TUBE_CHANNEL_STATE_REMOTE_PENDING)
                               (tb_emit (TB_negotiate msg) (t\<lparr>tb_offered := True\<rparr>)))) }))
         else
           let t1 = tb_emit TB_bytestream_open (t\<lparr>tb_offered := True\<rparr>)
           in do { t2 \<leftarrow> (if tb_bytestream t1 = Some GABBLE_BYTESTREAM_STATE_OPEN then Some t1
                          else bytestream_state_changed_cb env GABBLE_BYTESTREAM_STATE_OPEN t1);
                   Some (finish (tb_emit TB_send_presence t2)) })"

definition gabble_tube_dbus_accept :: "tube_env \<Rightarrow> 'm tube \<Rightarrow> (tube_error option \<times> 'm tube) option" where
  "gabble_tube_dbus_accept env t =
     (case tb_bytestream t of
        None \<Rightarrow> None
      | Some state \<Rightarrow>
          if state \<noteq> GABBLE_BYTESTREAM_STATE_LOCAL_PENDING then Some (None, t)
          else
            do { t1 \<leftarrow> (if \<not> tb_room t
                        then Some (tb_emit TB_bytestream_accept
                                     (if te_accept_sent env
                                      then t\<lparr>tb_bytestream := Some GABBLE_BYTESTREAM_STATE_ACCEPTED\<rparr>
                                      else t))
                        else bytestream_state_changed_cb env GABBLE_BYTESTREAM_STATE_OPEN
                               (tb_emit TB_bytestream_open t));
                 let (ok, t2) = create_dbus_server (te_listens env) t1
                 in Some (if ok then None else Some No_server, t2) })"

definition gabble_tube_dbus_check_access_control :: "TpSocketAccessControl \<Rightarrow> bool" where
  "gabble_tube_dbus_check_access_control access_control =
     (case access_control of
        TP_SOCKET_ACCESS_CONTROL_CREDENTIALS \<Rightarrow> True
      | TP_SOCKET_ACCESS_CONTROL_LOCALHOST \<Rightarrow> True
      | _ \<Rightarrow> False)"

definition gabble_tube_dbus_offer_async ::
    "(bytes \<Rightarrow> string) \<Rightarrow> tube_env \<Rightarrow> tube_offer \<Rightarrow> string \<Rightarrow> presence option \<Rightarrow> TpSocketAccessControl \<Rightarrow> 'm tube \<Rightarrow>
     (tube_error option \<times> 'm tube) option" where
  "gabble_tube_dbus_offer_async b64 env off jid pres access_control t =
     (if \<not> gabble_tube_dbus_check_access_control access_control then Some (Some Bad_access_control, t)
      else gabble_tube_dbus_offer b64 env off jid pres (t\<lparr>tb_access_control := access_control\<rparr>))"

definition gabble_tube_dbus_accept_async ::
    "tube_env \<Rightarrow> TpSocketAccessControl \<Rightarrow> 'm tube \<Rightarrow> (tube_error option \<times> 'm tube) option" where
  "gabble_tube_dbus_accept_async env access_control t =
     (if \<not> gabble_tube_dbus_check_access_control access_control then Some (Some Bad_access_control, t)
      else gabble_tube_dbus_accept env t)"

text \<open>\<open>result\<close>: the state of the bytestream the negotiation gave, \<open>None\<close> when the offer was declined.\<close>

definition bytestream_negotiate_cb ::
    "tube_env \<Rightarrow> GabbleBytestreamState option \<Rightarrow> 'm tube \<Rightarrow> 'm tube option" where
  "bytestream_negotiate_cb env result t =
     (case result of
        None \<Rightarrow> Some (gabble_tube_dbus_close (te_at_once env) t)
      | Some state \<Rightarrow>
          do { t1 \<leftarrow> tube_set_bytestream env state t;
               map_option snd (gabble_tube_dbus_accept env t1) })"

definition gabble_tube_dbus_dispose :: "bool \<Rightarrow> 'm tube \<Rightarrow> 'm tube" where
  "gabble_tube_dbus_dispose at_once t =
     (if tb_dispose_has_run t then t
      else
        let t1 = t\<lparr>tb_dispose_has_run := True\<rparr>;
            t2 = (if tb_bytestream t1 \<noteq> None then close_bytestream at_once t1 else t1)
        in t2\<lparr>tb_dbus_conn := False, tb_dbus_srv := False, tb_dbus_msg_queue := [],
              tb_dbus_msg_queue_size := 0, tb_dbus_local_name := None, tb_dbus_names := [],
              tb_dbus_name_to_handle := []\<rparr>)"

end
