(* ===== verification/Bytestream_MUC.thy ===== *)
theory Bytestream_MUC
  imports Bytestream_Iface Namespaces
begin

text \<open>
  Bytestreams in chat rooms (\<open>src/bytestream-muc.c\<close>): data is sent to all members of a room in
  base64 encoded message stanzas. A message longer than \<open>MAX_BLOCK_SIZE\<close> is cut into fragments
  marked \<open>first\<close>, \<open>middle\<close> and \<open>last\<close>; the receiver keeps one buffer per sender and reassembles
  them.

  The state \<open>muc\<close> is \<open>struct _GabbleBytestreamMucPrivate\<close>. The stanzas are \<open>WockyNode\<close> trees.
  \<open>g_base64_encode\<close>, \<open>g_base64_decode\<close> and \<open>tp_handle_lookup\<close> (0 for an unknown contact) are the
  parameters \<open>enc\<close>, \<open>dec\<close> and \<open>lookup\<close>; whether the connection could send a stanza is given by
  \<open>send_ok\<close>, indexed by the number of the stanza.
\<close>

definition MAX_BLOCK_SIZE :: nat where
  "MAX_BLOCK_SIZE = 1024 * 45"

datatype muc_frag = FRAG_COMPLETE | FRAG_FIRST | FRAG_MIDDLE | FRAG_LAST

datatype muc_event =
    MUC_send_stanza WockyNode
  | MUC_state_changed GabbleBytestreamState
  | MUC_data_received nat bytes

record muc =
  muc_state :: GabbleBytestreamState
  muc_stream_id :: string
  muc_peer_jid :: string
  muc_buffers :: "string \<rightharpoonup> bytes"
  muc_dispose_has_run :: bool
  muc_trace :: "muc_event list"

definition gabble_bytestream_muc_init :: "string \<Rightarrow> string \<Rightarrow> GabbleBytestreamState \<Rightarrow> muc" where
  "gabble_bytestream_muc_init sid jid st =
     \<lparr>muc_state = st, muc_stream_id = sid, muc_peer_jid = jid, muc_buffers = Map.empty,
      muc_dispose_has_run = False, muc_trace = []\<rparr>"

definition muc_emit :: "muc_event \<Rightarrow> muc \<Rightarrow> muc" where
  "muc_emit e s = s\<lparr>muc_trace := muc_trace s @ [e]\<rparr>"

text \<open>\<open>g_object_set (self, "state", st, NULL)\<close>.\<close>

definition muc_set_state :: "GabbleBytestreamState \<Rightarrow> muc \<Rightarrow> muc" where
  "muc_set_state st s =
     (if muc_state s \<noteq> st then muc_emit (MUC_state_changed st) (s\<lparr>muc_state := st\<rparr>) else s)"

text \<open>\<open>GABBLE_AMP_DO_NOT_STORE_SPEC\<close>: the node that asks the server not to store the message.\<close>

definition amp_rule :: "string \<Rightarrow> string \<Rightarrow> WockyNode" where
  "amp_rule cond val =
     foldl (\<lambda>n (k, v). wocky_node_set_attribute n k v)
       (WockyNode ''rule'' None (Some NS_AMP) [] [])
       [(''condition'', cond), (''value'', val), (''action'', ''error'')]"

definition GABBLE_AMP_DO_NOT_STORE_SPEC :: WockyNode where
  "GABBLE_AMP_DO_NOT_STORE_SPEC =
     WockyNode ''amp'' None (Some NS_AMP) []
       [amp_rule ''deliver-at'' ''stored'', amp_rule ''match-resource'' ''exact'']"

text \<open>The stanza built for one block: the \<open>message\<close> node with its attributes, its \<open>data\<close> child with
  the encoded content and the fragment mark.\<close>

definition muc_frag_attribute :: "muc_frag \<Rightarrow> WockyNode \<Rightarrow> WockyNode" where
  "muc_frag_attribute frag data =
     (case frag of
        FRAG_COMPLETE \<Rightarrow> data
      | FRAG_FIRST \<Rightarrow> wocky_node_set_attribute data ''frag'' ''first''
      | FRAG_MIDDLE \<Rightarrow> wocky_node_set_attribute data ''frag'' ''middle''
      | FRAG_LAST \<Rightarrow> wocky_node_set_attribute data ''frag'' ''last'')"

definition muc_data_stanza ::
    "(bytes \<Rightarrow> string) \<Rightarrow> string \<Rightarrow> string \<Rightarrow> bool \<Rightarrow> muc_frag \<Rightarrow> bytes \<Rightarrow> WockyNode" where
  "muc_data_stanza enc sid to groupchat frag block =
     (let data = muc_frag_attribute frag
            (wocky_node_set_attribute
               (WockyNode ''data'' (Some (enc block)) (Some NS_MUC_BYTESTREAM) [] []) ''sid'' sid);
          msg = wocky_node_set_attribute
            (WockyNode ''message'' None (Some ''jabber:client'') []
               [data, GABBLE_AMP_DO_NOT_STORE_SPEC]) ''to'' to
      in if groupchat then wocky_node_set_attribute msg ''type'' ''groupchat'' else msg)"

text \<open>The loop of \<open>send_data_to\<close>: \<open>rest\<close> is what is left of the data.\<close>

function muc_send_loop ::
    "(bytes \<Rightarrow> string) \<Rightarrow> (nat \<Rightarrow> bool) \<Rightarrow> string \<Rightarrow> bool \<Rightarrow> bytes \<Rightarrow> nat \<Rightarrow> muc \<Rightarrow> bool \<times> muc" where
  "muc_send_loop enc send_ok to groupchat rest stanza_count s =
     (if rest = [] then (True, s)
      else
        let (send_now, frag) =
              (if MAX_BLOCK_SIZE < length rest
               then (MAX_BLOCK_SIZE, if stanza_count = 0 then FRAG_FIRST else FRAG_MIDDLE)
               else (length rest, if stanza_count = 0 then FRAG_COMPLETE else FRAG_LAST));
            msg = muc_data_stanza enc (muc_stream_id s) to groupchat frag (take send_now rest)
        in if \<not> send_ok stanza_count then (False, s)
           else muc_send_loop enc send_ok to groupchat (drop send_now rest) (Suc stanza_count)
                  (muc_emit (MUC_send_stanza msg) s))"
  by pat_completeness auto
termination
  by (relation "measure (\<lambda>(enc, send_ok, to, groupchat, rest, stanza_count, s). length rest)")
    (auto simp: MAX_BLOCK_SIZE_def split: if_splits)

declare muc_send_loop.simps [simp del]

definition send_data_to ::
    "(bytes \<Rightarrow> string) \<Rightarrow> (nat \<Rightarrow> bool) \<Rightarrow> string \<Rightarrow> bool \<Rightarrow> bytes \<Rightarrow> muc \<Rightarrow> bool \<times> muc" where
  "send_data_to enc send_ok to groupchat str s =
     (if muc_state s \<noteq> GABBLE_BYTESTREAM_STATE_OPEN then (False, s)
      else muc_send_loop enc send_ok to groupchat str 0 s)"

definition gabble_bytestream_muc_send ::
    "(bytes \<Rightarrow> string) \<Rightarrow> (nat \<Rightarrow> bool) \<Rightarrow> bytes \<Rightarrow> muc \<Rightarrow> bool \<times> muc" where
  "gabble_bytestream_muc_send enc send_ok str s =
     send_data_to enc send_ok (muc_peer_jid s) True str s"

text \<open>The fragment kind of an incoming \<open>data\<close> node; \<open>None\<close> for an invalid mark.\<close>

definition muc_parse_frag :: "WockyNode \<Rightarrow> muc_frag option" where
  "muc_parse_frag data =
     (case wocky_node_get_attribute data ''frag'' of
        None \<Rightarrow> Some FRAG_COMPLETE
      | Some v \<Rightarrow>
          if \<not> tp_strdiff (Some v) (Some ''first'') then Some FRAG_FIRST
          else if \<not> tp_strdiff (Some v) (Some ''middle'') then Some FRAG_MIDDLE
          else if \<not> tp_strdiff (Some v) (Some ''last'') then Some FRAG_LAST
          else if \<not> tp_strdiff (Some v) (Some ''complete'') then Some FRAG_COMPLETE
          else None)"

text \<open>\<open>gabble_bytestream_muc_receive\<close> from the decoding on: what happens to the sender's buffer, and
  the data delivered, if any.\<close>

definition muc_reassemble :: "muc_frag \<Rightarrow> bytes \<Rightarrow> bytes option \<Rightarrow> bytes option \<times> bytes option" where
  "muc_reassemble frag str buffer =
     (case frag of
        FRAG_COMPLETE \<Rightarrow> (None, Some str)
      | FRAG_FIRST \<Rightarrow> (Some str, None)
      | FRAG_MIDDLE \<Rightarrow>
          (case buffer of None \<Rightarrow> (None, None) | Some b \<Rightarrow> (Some (b @ str), None))
      | FRAG_LAST \<Rightarrow>
          (case buffer of None \<Rightarrow> (None, None) | Some b \<Rightarrow> (None, Some (b @ str))))"

definition gabble_bytestream_muc_receive ::
    "(string \<Rightarrow> bytes) \<Rightarrow> (string \<Rightarrow> nat) \<Rightarrow> WockyNode \<Rightarrow> muc \<Rightarrow> muc option" where
  "gabble_bytestream_muc_receive dec lookup msg s =
     (case wocky_node_get_child_ns msg (Some ''data'') (Some NS_MUC_BYTESTREAM) of
        None \<Rightarrow> None
      | Some data \<Rightarrow>
          if muc_state s \<noteq> GABBLE_BYTESTREAM_STATE_OPEN then Some s
          else case wocky_node_get_attribute msg ''from'' of
            None \<Rightarrow> Some s
          | Some from \<Rightarrow>
              if lookup from = 0 then Some s
              else case muc_parse_frag data of
                None \<Rightarrow> Some s
              | Some frag \<Rightarrow>
                  (case node_content data of
                     None \<Rightarrow> None
                   | Some txt \<Rightarrow>
                       let (buffer, received) =
                             muc_reassemble frag (dec txt) (muc_buffers s from);
                           s1 = s\<lparr>muc_buffers := (muc_buffers s)(from := buffer)\<rparr>
                       in Some (case received of
                                  None \<Rightarrow> s1
                                | Some str \<Rightarrow>
                                    muc_emit (MUC_data_received (lookup from) str) s1)))"

definition gabble_bytestream_muc_close :: "muc \<Rightarrow> muc" where
  "gabble_bytestream_muc_close s =
     (if muc_state s = GABBLE_BYTESTREAM_STATE_CLOSED then s
      else muc_set_state GABBLE_BYTESTREAM_STATE_CLOSED s)"

text \<open>\<open>gabble_bytestream_muc_send_to\<close>: \<open>to\<close> is the JID of the contact. The two
  \<open>g_return_val_if_fail\<close> check that it is a member of the room.\<close>

definition gabble_bytestream_muc_send_to ::
    "(bytes \<Rightarrow> string) \<Rightarrow> (nat \<Rightarrow> bool) \<Rightarrow> string \<Rightarrow> bytes \<Rightarrow> muc \<Rightarrow> bool \<times> muc" where
  "gabble_bytestream_muc_send_to enc send_ok to str s =
     (let n = length (muc_peer_jid s)
      in if take n to \<noteq> muc_peer_jid s then (False, s)
         else if \<not> (n < length to \<and> to ! n = CHR ''/'') then (False, s)
         else send_data_to enc send_ok to False str s)"

definition gabble_bytestream_muc_dispose :: "muc \<Rightarrow> muc" where
  "gabble_bytestream_muc_dispose s =
     (if muc_dispose_has_run s then s
      else
        let s1 = s\<lparr>muc_dispose_has_run := True\<rparr>
        in if muc_state s1 \<noteq> GABBLE_BYTESTREAM_STATE_CLOSED
           then gabble_bytestream_muc_close s1 else s1)"

section \<open>Fragmentation\<close>

text \<open>The fragments of a message, as a function of its data alone.\<close>

function muc_fragments :: "nat \<Rightarrow> bytes \<Rightarrow> (muc_frag \<times> bytes) list" where
  "muc_fragments n rest =
     (if rest = [] then []
      else if MAX_BLOCK_SIZE < length rest
      then (if n = 0 then FRAG_FIRST else FRAG_MIDDLE, take MAX_BLOCK_SIZE rest)
             # muc_fragments (Suc n) (drop MAX_BLOCK_SIZE rest)
      else [(if n = 0 then FRAG_COMPLETE else FRAG_LAST, rest)])"
  by pat_completeness auto
termination
  by (relation "measure (\<lambda>(n, rest). length rest)") (auto simp: MAX_BLOCK_SIZE_def)

declare muc_fragments.simps [simp del]

definition muc_stanza_of :: "(bytes \<Rightarrow> string) \<Rightarrow> string \<Rightarrow> string \<Rightarrow> bool \<Rightarrow> muc_frag \<times> bytes \<Rightarrow> WockyNode"
  where "muc_stanza_of enc sid to groupchat = (\<lambda>(frag, block). muc_data_stanza enc sid to groupchat frag block)"

lemma muc_send_loop_fragments:
  "\<exists>k. muc_send_loop enc send_ok to gc rest n s =
     (length (muc_fragments n rest) \<le> k,
      s\<lparr>muc_trace := muc_trace s @
        map (\<lambda>f. MUC_send_stanza (muc_stanza_of enc (muc_stream_id s) to gc f))
          (take k (muc_fragments n rest))\<rparr>)"
proof (induction enc send_ok to gc rest n s rule: muc_send_loop.induct)
  case (1 enc send_ok to gc rest n s)
  consider (none) "rest = []" | (fail) "rest \<noteq> []" "\<not> send_ok n"
    | (long) "rest \<noteq> []" "send_ok n" "MAX_BLOCK_SIZE < length rest"
    | (short) "rest \<noteq> []" "send_ok n" "\<not> MAX_BLOCK_SIZE < length rest" by blast
  then show ?case
  proof cases
    case long
    let ?f = "if n = 0 then FRAG_FIRST else FRAG_MIDDLE"
    let ?m = "muc_data_stanza enc (muc_stream_id s) to gc ?f (take MAX_BLOCK_SIZE rest)"
    let ?s = "muc_emit (MUC_send_stanza ?m) s"
    obtain k where
      k: "muc_send_loop enc send_ok to gc (drop MAX_BLOCK_SIZE rest) (Suc n) ?s =
       (length (muc_fragments (Suc n) (drop MAX_BLOCK_SIZE rest)) \<le> k,
        ?s\<lparr>muc_trace := muc_trace ?s @
         map (\<lambda>f. MUC_send_stanza (muc_stanza_of enc (muc_stream_id ?s) to gc f))
          (take k (muc_fragments (Suc n) (drop MAX_BLOCK_SIZE rest)))\<rparr>)"
      using 1 [OF long(1), of "(MAX_BLOCK_SIZE, ?f)" MAX_BLOCK_SIZE ?f ?m] long by auto
    then show ?thesis
      using long
      by (intro exI [of _ "Suc k"])
        (simp add: muc_send_loop.simps [of enc send_ok to gc rest n s] muc_fragments.simps [of n rest]
          muc_emit_def muc_stanza_of_def)
  next
    case short
    then show ?thesis
      by (intro exI [of _ 1])
        (simp add: muc_send_loop.simps [of enc send_ok to gc rest n s]
          muc_send_loop.simps [of enc send_ok to gc "[]" "Suc n"] muc_fragments.simps [of n rest]
          muc_emit_def muc_stanza_of_def)
  next
    case none
    then show ?thesis by (simp add: muc_send_loop.simps muc_fragments.simps)
  next
    case fail
    then show ?thesis
      by (intro exI [of _ 0])
        (simp add: muc_send_loop.simps [of enc send_ok to gc rest n s] muc_fragments.simps [of n rest])
  qed
qed

section \<open>Reassembly\<close>

text \<open>What the receiver does with a sequence of fragments of one sender: the buffer it ends with and
  the messages it delivers.\<close>

primrec muc_feed :: "(muc_frag \<times> bytes) list \<Rightarrow> bytes option \<Rightarrow> bytes option \<times> bytes list" where
  "muc_feed [] b = (b, [])"
| "muc_feed (f # fs) b =
     (let (b', d) = muc_reassemble (fst f) (snd f) b; (b'', ds) = muc_feed fs b'
      in (b'', (case d of None \<Rightarrow> [] | Some x \<Rightarrow> [x]) @ ds))"

lemma muc_feed_append:
  "muc_feed (fs @ gs) b =
     (let (b', ds) = muc_feed fs b; (b'', es) = muc_feed gs b' in (b'', ds @ es))"
  by (induction fs arbitrary: b) (auto simp: split_def Let_def)

lemma muc_feed_rest:
  "rest \<noteq> [] \<Longrightarrow> 0 < n \<Longrightarrow>
   snd (muc_feed (take k (muc_fragments n rest)) (Some b)) =
     (if length (muc_fragments n rest) \<le> k then [b @ rest] else [])"
proof (induction n rest arbitrary: b k rule: muc_fragments.induct)
  case (1 n rest)
  show ?case
  proof (cases "MAX_BLOCK_SIZE < length rest")
    case True
    with 1 show ?thesis
      by (cases k) (auto simp: muc_fragments.simps [of n rest] muc_reassemble_def split_def)
  next
    case False
    with 1 show ?thesis
      by (cases k) (auto simp: muc_fragments.simps [of n rest] muc_reassemble_def split_def)
  qed
qed

text \<open>Whatever was buffered before, the fragments of a message deliver it if they are all there, and
  nothing if only some were sent.\<close>

lemma muc_feed_message:
  assumes "rest \<noteq> []"
  shows "snd (muc_feed (take k (muc_fragments 0 rest)) b) =
     (if length (muc_fragments 0 rest) \<le> k then [rest] else [])"
proof (cases "MAX_BLOCK_SIZE < length rest")
  case True
  then have "drop MAX_BLOCK_SIZE rest \<noteq> []" by simp
  with True assms muc_feed_rest [of "drop MAX_BLOCK_SIZE rest" 1] show ?thesis
    by (cases k) (auto simp: muc_fragments.simps [of 0 rest] muc_reassemble_def split_def)
next
  case False
  with assms show ?thesis
    by (cases k) (auto simp: muc_fragments.simps [of 0 rest] muc_reassemble_def split_def)
qed

section \<open>From stanza to fragment\<close>

lemma muc_parse_data_stanza:
  "wocky_node_get_attribute
     (wocky_node_set_attribute (muc_data_stanza enc sid to gc frag block) ''from'' from) ''from''
   = Some from"
  "\<exists>data. wocky_node_get_child_ns
       (wocky_node_set_attribute (muc_data_stanza enc sid to gc frag block) ''from'' from)
       (Some ''data'') (Some NS_MUC_BYTESTREAM) = Some data
     \<and> node_content data = Some (enc block) \<and> muc_parse_frag data = Some frag"
  by (cases frag; simp add: muc_data_stanza_def muc_frag_attribute_def Let_def
      wocky_node_defs muc_parse_frag_def tp_strdiff_def)+

fun muc_delivered :: "nat \<Rightarrow> muc_event list \<Rightarrow> bytes list" where
  "muc_delivered h [] = []"
| "muc_delivered h (MUC_data_received g d # es) =
     (if g = h then d # muc_delivered h es else muc_delivered h es)"
| "muc_delivered h (e # es) = muc_delivered h es"

lemma muc_delivered_append [simp]:
  "muc_delivered h (es @ fs) = muc_delivered h es @ muc_delivered h fs"
  by (induction h es rule: muc_delivered.induct) auto

lemma muc_receive_data:
  assumes "\<And>x. dec (enc x) = x" and "muc_state s = GABBLE_BYTESTREAM_STATE_OPEN"
    and "\<And>f g. lookup f \<noteq> 0 \<Longrightarrow> lookup f = lookup g \<Longrightarrow> f = g"
  obtains s' where
    "gabble_bytestream_muc_receive dec lookup
       (wocky_node_set_attribute (muc_data_stanza enc sid to gc frag block) ''from'' g) s = Some s'"
    "muc_state s' = GABBLE_BYTESTREAM_STATE_OPEN"
    "\<And>f. lookup f \<noteq> 0 \<Longrightarrow> muc_buffers s' f =
       (if f = g then fst (muc_reassemble frag block (muc_buffers s f)) else muc_buffers s f)"
    "\<And>f. lookup f \<noteq> 0 \<Longrightarrow> muc_delivered (lookup f) (muc_trace s') =
       muc_delivered (lookup f) (muc_trace s) @
       (if f = g then (case snd (muc_reassemble frag block (muc_buffers s f)) of
                         None \<Rightarrow> [] | Some x \<Rightarrow> [x]) else [])"
proof -
  let ?m = "wocky_node_set_attribute (muc_data_stanza enc sid to gc frag block) ''from'' g"
  obtain data where data: "wocky_node_get_child_ns ?m (Some ''data'') (Some NS_MUC_BYTESTREAM) = Some data"
      "node_content data = Some (enc block)" "muc_parse_frag data = Some frag"
    using muc_parse_data_stanza(2) by blast
  note [simp] = data muc_parse_data_stanza(1) assms(1)
  show ?thesis
  proof (cases "lookup g = 0")
    case True
    then show ?thesis
      by (intro that [of s]) (auto simp: gabble_bytestream_muc_receive_def assms(2))
  next
    case False
    obtain buf d where r: "muc_reassemble frag block (muc_buffers s g) = (buf, d)" by fastforce
    show ?thesis
    proof (rule that)
      show "gabble_bytestream_muc_receive dec lookup ?m s =
        Some (case d of
                None \<Rightarrow> s\<lparr>muc_buffers := (muc_buffers s)(g := buf)\<rparr>
              | Some str \<Rightarrow> muc_emit (MUC_data_received (lookup g) str)
                             (s\<lparr>muc_buffers := (muc_buffers s)(g := buf)\<rparr>))"
        using False r by (simp add: gabble_bytestream_muc_receive_def assms(2) Let_def)
    qed (use r assms(2,3) in \<open>auto simp: muc_emit_def split: option.splits\<close>)
  qed
qed

section \<open>A room of members\<close>

text \<open>One member's calls to \<open>send\<close>, each with what the connection does with its stanzas, and the
  answers; the stanzas that went out; a receiver that gets stanzas the room tagged with the address
  of their sender.\<close>

primrec muc_sends ::
    "(bytes \<Rightarrow> string) \<Rightarrow> ((nat \<Rightarrow> bool) \<times> bytes) list \<Rightarrow> muc \<Rightarrow> bool list \<times> muc" where
  "muc_sends enc [] s = ([], s)"
| "muc_sends enc (x # xs) s =
     (let (r, s1) = gabble_bytestream_muc_send enc (fst x) (snd x) s;
          (rs, s2) = muc_sends enc xs s1
      in (r # rs, s2))"

fun muc_stanzas :: "muc_event list \<Rightarrow> WockyNode list" where
  "muc_stanzas [] = []"
| "muc_stanzas (MUC_send_stanza m # es) = m # muc_stanzas es"
| "muc_stanzas (e # es) = muc_stanzas es"

definition muc_arrival ::
    "(string \<Rightarrow> bytes) \<Rightarrow> (string \<Rightarrow> nat) \<Rightarrow> string \<times> WockyNode \<Rightarrow> muc \<Rightarrow> muc option" where
  "muc_arrival dec lookup a =
     gabble_bytestream_muc_receive dec lookup (wocky_node_set_attribute (snd a) ''from'' (fst a))"

text \<open>The messages a member sent successfully; empty ones need no stanza.\<close>

definition muc_accepted :: "((nat \<Rightarrow> bool) \<times> bytes) list \<Rightarrow> bool list \<Rightarrow> bytes list" where
  "muc_accepted xs rs = [snd x. (x, r) \<leftarrow> zip xs rs, r \<and> snd x \<noteq> []]"

lemma muc_stanzas_append [simp]: "muc_stanzas (es @ fs) = muc_stanzas es @ muc_stanzas fs"
  by (induction es rule: muc_stanzas.induct) auto

lemma muc_stanzas_map [simp]: "muc_stanzas (map (\<lambda>f. MUC_send_stanza (g f)) fs) = map g fs"
  by (induction fs) auto

lemma muc_sends_fragments:
  "muc_state s = GABBLE_BYTESTREAM_STATE_OPEN \<Longrightarrow>
   \<exists>fs. muc_stanzas (muc_trace (snd (muc_sends enc xs s))) =
       muc_stanzas (muc_trace s) @ map (muc_stanza_of enc (muc_stream_id s) (muc_peer_jid s) True) fs
     \<and> (\<forall>b. snd (muc_feed fs b) = muc_accepted xs (fst (muc_sends enc xs s)))"
proof (induction xs arbitrary: s)
  case Nil
  then show ?case by (intro exI [of _ "[]"]) (simp add: muc_accepted_def)
next
  case (Cons x xs)
  let ?F = "muc_fragments 0 (snd x)"
  obtain k where k: "gabble_bytestream_muc_send enc (fst x) (snd x) s =
     (length ?F \<le> k, s\<lparr>muc_trace := muc_trace s @
        map (\<lambda>f. MUC_send_stanza (muc_stanza_of enc (muc_stream_id s) (muc_peer_jid s) True f))
          (take k ?F)\<rparr>)"
    using muc_send_loop_fragments [of enc "fst x" "muc_peer_jid s" True "snd x" 0 s] Cons.prems
    by (auto simp: gabble_bytestream_muc_send_def send_data_to_def)
  define s1 where "s1 = snd (gabble_bytestream_muc_send enc (fst x) (snd x) s)"
  have s1: "muc_stanzas (muc_trace s1) = muc_stanzas (muc_trace s) @
       map (muc_stanza_of enc (muc_stream_id s) (muc_peer_jid s) True) (take k ?F)"
      "muc_state s1 = muc_state s" "muc_stream_id s1 = muc_stream_id s"
      "muc_peer_jid s1 = muc_peer_jid s"
    by (simp_all add: s1_def k)
  with Cons obtain fs where fs: "muc_stanzas (muc_trace (snd (muc_sends enc xs s1))) =
       muc_stanzas (muc_trace s1) @ map (muc_stanza_of enc (muc_stream_id s) (muc_peer_jid s) True) fs"
     "\<forall>b. snd (muc_feed fs b) = muc_accepted xs (fst (muc_sends enc xs s1))" by metis
  have e: "snd (muc_sends enc (x # xs) s) = snd (muc_sends enc xs s1)"
    "fst (muc_sends enc (x # xs) s) = (length ?F \<le> k) # fst (muc_sends enc xs s1)"
    using k by (simp_all add: s1_def split_def Let_def)
  have "snd (muc_feed (take k ?F) b) = (if length ?F \<le> k \<and> snd x \<noteq> [] then [snd x] else [])" for b
    using muc_feed_message [of "snd x" k b]
    by (cases "snd x = []") (simp_all add: muc_fragments.simps [of 0 "[]"])
  then have "snd (muc_feed (take k ?F @ fs) b) =
      muc_accepted (x # xs) (fst (muc_sends enc (x # xs) s))" for b
    using fs(2) e(2) by (auto simp: muc_feed_append split_def muc_accepted_def)
  with e fs s1(1) show ?case by (intro exI [of _ "take k ?F @ fs"]) simp
qed

text \<open>The receiver treats the members independently: each member's buffer and deliveries are what
  \<open>muc_feed\<close> makes of that member's own fragments.\<close>

definition muc_from :: "string \<Rightarrow> (string \<times> 'a) list \<Rightarrow> 'a list" where
  "muc_from f arr = map snd (filter (\<lambda>a. fst a = f) arr)"

lemma muc_from_pair: "muc_from g (map (Pair h) ms) = (if g = h then ms else [])"
  by (induction ms) (auto simp: muc_from_def)

lemma muc_from_append: "muc_from g (xs @ ys) = muc_from g xs @ muc_from g ys"
  by (simp add: muc_from_def)

lemma muc_receive_run:
  assumes "\<And>x. dec (enc x) = x" and "\<And>f g. lookup f \<noteq> 0 \<Longrightarrow> lookup f = lookup g \<Longrightarrow> f = g"
  shows "muc_state s = GABBLE_BYTESTREAM_STATE_OPEN \<Longrightarrow>
    \<exists>r. run (muc_arrival dec lookup) (map (apsnd (muc_stanza_of enc sid to gc)) arr) s = Some r
      \<and> (\<forall>f. lookup f \<noteq> 0 \<longrightarrow> muc_delivered (lookup f) (muc_trace r) =
           muc_delivered (lookup f) (muc_trace s) @ snd (muc_feed (muc_from f arr) (muc_buffers s f)))"
proof (induction arr arbitrary: s)
  case Nil
  then show ?case by (simp add: muc_from_def)
next
  case (Cons a arr)
  obtain g frag block where a: "a = (g, frag, block)" by (cases a) auto
  obtain s1 where r1: "gabble_bytestream_muc_receive dec lookup
       (wocky_node_set_attribute (muc_data_stanza enc sid to gc frag block) ''from'' g) s = Some s1"
    and s1: "muc_state s1 = GABBLE_BYTESTREAM_STATE_OPEN"
    "\<And>f. lookup f \<noteq> 0 \<Longrightarrow> muc_buffers s1 f =
       (if f = g then fst (muc_reassemble frag block (muc_buffers s f)) else muc_buffers s f)"
    "\<And>f. lookup f \<noteq> 0 \<Longrightarrow> muc_delivered (lookup f) (muc_trace s1) =
       muc_delivered (lookup f) (muc_trace s) @
       (if f = g then (case snd (muc_reassemble frag block (muc_buffers s f)) of
                         None \<Rightarrow> [] | Some x \<Rightarrow> [x]) else [])"
    by (rule muc_receive_data [of dec enc s lookup sid to gc frag block g])
      (use assms Cons.prems in auto)
  have "muc_arrival dec lookup (g, muc_stanza_of enc sid to gc (frag, block)) s = Some s1"
    using r1 by (simp add: muc_arrival_def muc_stanza_of_def)
  moreover from Cons.IH [OF s1(1)] obtain r where
    r: "run (muc_arrival dec lookup) (map (apsnd (muc_stanza_of enc sid to gc)) arr) s1 = Some r"
      "\<forall>f. lookup f \<noteq> 0 \<longrightarrow> muc_delivered (lookup f) (muc_trace r) =
         muc_delivered (lookup f) (muc_trace s1) @ snd (muc_feed (muc_from f arr) (muc_buffers s1 f))"
    by blast
  moreover have "muc_delivered (lookup f) (muc_trace r) = muc_delivered (lookup f) (muc_trace s) @
      snd (muc_feed (muc_from f (a # arr)) (muc_buffers s f))" if "lookup f \<noteq> 0" for f
    using r(2) s1(2,3) that by (auto simp: muc_from_def a split_def Let_def)
  ultimately show ?case using r(1) by (intro exI [of _ r]) (simp add: a)
qed

text \<open>A sequence of arrivals whose per-member parts are stanzas of fragments is the image of a
  sequence of fragments.\<close>

lemma muc_arrivals_fragments:
  "(\<And>g. muc_from g arr = map st (F g)) \<Longrightarrow>
   \<exists>arr'. arr = map (apsnd st) arr' \<and> (\<forall>g. muc_from g arr' = F g)"
proof (induction arr arbitrary: F)
  case Nil
  then show ?case by (intro exI [of _ "[]"]) (simp add: muc_from_def)
next
  case (Cons a arr)
  obtain g m where a: "a = (g, m)" by fastforce
  from Cons.prems [of g] obtain f fs where f: "F g = f # fs" "m = st f" "muc_from g arr = map st fs"
    by (auto simp: muc_from_def a)
  have "muc_from h arr = map st ((F(g := fs)) h)" for h
    using Cons.prems [of h] f by (auto simp: muc_from_def a)
  from Cons.IH [OF this] obtain arr' where
    "arr = map (apsnd st) arr'" "\<forall>h. muc_from h arr' = (F(g := fs)) h" by blast
  with f show ?case by (intro exI [of _ "(g, f) # arr'"]) (auto simp: a muc_from_def)
qed

section \<open>The bytestream contract\<close>

lemma muc_send_loop_state:
  "muc_state (snd (muc_send_loop enc send_ok to gc rest n s)) = muc_state s"
  using muc_send_loop_fragments [of enc send_ok to gc rest n s] by auto

interpretation muc_stream: bytestream muc_state
  "\<lambda>d s r s'. gabble_bytestream_muc_send enc send_ok d s = (r, s')"
  "\<lambda>s s'. s' = gabble_bytestream_muc_close s"
  for enc :: "bytes \<Rightarrow> string" and send_ok :: "nat \<Rightarrow> bool"
proof
  fix d s r s'
  assume a: "gabble_bytestream_muc_send enc send_ok d s = (r, s')"
  then show "muc_state s \<noteq> GABBLE_BYTESTREAM_STATE_OPEN \<Longrightarrow> \<not> r \<and> s' = s"
    by (auto simp: gabble_bytestream_muc_send_def send_data_to_def)
  show "muc_state s' \<in> {GABBLE_BYTESTREAM_STATE_OPEN, GABBLE_BYTESTREAM_STATE_CLOSING,
      GABBLE_BYTESTREAM_STATE_CLOSED}" if "muc_state s = GABBLE_BYTESTREAM_STATE_OPEN"
    using muc_send_loop_state [of enc send_ok "muc_peer_jid s" True d 0 s] a that
    by (simp add: gabble_bytestream_muc_send_def send_data_to_def)
qed (auto simp: gabble_bytestream_muc_close_def muc_set_state_def muc_emit_def)

section \<open>Properties\<close>

text \<open>C2. Reliable delivery in a room: let every member make any number of calls to \<open>send\<close>, some of
  which fail half way because the connection refuses a stanza, and let the room deliver the stanzas
  of all members in any interleaving that keeps each member's own order. Then no stanza makes the
  receiver crash, and from each member it delivers exactly the messages whose \<open>send\<close> returned
  \<open>TRUE\<close>, whole, in order, and never mixed up with a message that was only partly sent or with
  another member's.\<close>

theorem muc_room_delivery:
  assumes "\<And>x. dec (enc x) = x"
    and "\<And>f g. lookup f \<noteq> 0 \<Longrightarrow> lookup f = lookup g \<Longrightarrow> f = g"
    and "\<And>g. muc_from g arr = muc_stanzas (muc_trace (snd (muc_sends enc (sends g)
           (gabble_bytestream_muc_init sid jid GABBLE_BYTESTREAM_STATE_OPEN))))"
  shows "\<exists>r. run (muc_arrival dec lookup) arr
           (gabble_bytestream_muc_init sid jid GABBLE_BYTESTREAM_STATE_OPEN) = Some r
    \<and> (\<forall>f. lookup f \<noteq> 0 \<longrightarrow> muc_delivered (lookup f) (muc_trace r) =
         muc_accepted (sends f) (fst (muc_sends enc (sends f)
           (gabble_bytestream_muc_init sid jid GABBLE_BYTESTREAM_STATE_OPEN))))"
proof -
  let ?i = "gabble_bytestream_muc_init sid jid GABBLE_BYTESTREAM_STATE_OPEN"
  let ?st = "muc_stanza_of enc sid jid True"
  have i: "muc_state ?i = GABBLE_BYTESTREAM_STATE_OPEN" "muc_stream_id ?i = sid"
    "muc_peer_jid ?i = jid" "muc_trace ?i = []" by (simp_all add: gabble_bytestream_muc_init_def)
  have "\<forall>g. \<exists>fs. muc_from g arr = map ?st fs
      \<and> (\<forall>b. snd (muc_feed fs b) = muc_accepted (sends g) (fst (muc_sends enc (sends g) ?i)))"
    using muc_sends_fragments [OF i(1), of enc] assms(3) i by simp
  then obtain F where F: "\<And>g. muc_from g arr = map ?st (F g)"
      "\<And>g b. snd (muc_feed (F g) b) = muc_accepted (sends g) (fst (muc_sends enc (sends g) ?i))"
    by metis
  obtain arr' where arr': "arr = map (apsnd ?st) arr'" "\<And>g. muc_from g arr' = F g"
    using muc_arrivals_fragments [of arr ?st F] F(1) by metis
  from muc_receive_run [OF assms(1,2) i(1), of lookup sid jid True arr'] F(2) arr' i show ?thesis
    by auto
qed

text \<open>Two members: one sends a message of three fragments after a failed attempt, the other a short
  one. The bytes are encoded as unary words.\<close>

definition muc_demo_sends :: "string \<Rightarrow> ((nat \<Rightarrow> bool) \<times> bytes) list" where
  "muc_demo_sends g =
     (if g = ''r/a'' then [(\<lambda>n. n = 0, replicate 100000 7), (\<lambda>n. True, replicate 100000 8)]
      else if g = ''r/b'' then [(\<lambda>n. True, [1, 2])] else [])"

definition muc_demo_lookup :: "string \<Rightarrow> nat" where
  "muc_demo_lookup g = (if g = ''r/a'' then 1 else if g = ''r/b'' then 2 else 0)"

definition muc_demo_encode :: "bytes \<Rightarrow> string" where
  "muc_demo_encode bs = concat (map (\<lambda>b. replicate (unat b) CHR ''x'' @ ''.'') bs)"

fun muc_demo_decode_from :: "nat \<Rightarrow> string \<Rightarrow> bytes" where
  "muc_demo_decode_from n [] = []"
| "muc_demo_decode_from n (c # cs) =
     (if c = CHR ''x'' then muc_demo_decode_from (Suc n) cs
      else of_nat n # muc_demo_decode_from 0 cs)"

lemma muc_demo_decode_x:
  "muc_demo_decode_from n (replicate k CHR ''x'' @ cs) = muc_demo_decode_from (n + k) cs"
  by (induction k arbitrary: n) auto

lemma muc_demo_decode: "muc_demo_decode_from 0 (muc_demo_encode bs) = bs"
  by (induction bs) (auto simp: muc_demo_encode_def muc_demo_decode_x)

theorem muc_room_delivery_witness:
  "\<exists>arr r. run (muc_arrival (muc_demo_decode_from 0) muc_demo_lookup) arr
        (gabble_bytestream_muc_init ''s'' ''r'' GABBLE_BYTESTREAM_STATE_OPEN) = Some r
    \<and> muc_delivered 1 (muc_trace r) = [replicate 100000 8]
    \<and> muc_delivered 2 (muc_trace r) = [[1, 2]]"
proof -
  let ?i = "gabble_bytestream_muc_init ''s'' ''r'' GABBLE_BYTESTREAM_STATE_OPEN"
  let ?sent = "\<lambda>g. muc_stanzas (muc_trace (snd (muc_sends muc_demo_encode (muc_demo_sends g) ?i)))"
  let ?arr = "map (Pair ''r/b'') (?sent ''r/b'') @ map (Pair ''r/a'') (?sent ''r/a'')"
  have others: "g \<noteq> ''r/a'' \<Longrightarrow> g \<noteq> ''r/b'' \<Longrightarrow> ?sent g = []" for g
    by (simp add: muc_demo_sends_def gabble_bytestream_muc_init_def)
  then have arr: "muc_from g ?arr = ?sent g" for g by (auto simp: muc_from_pair muc_from_append)
  have inj: "muc_demo_lookup f \<noteq> 0 \<Longrightarrow> muc_demo_lookup f = muc_demo_lookup g \<Longrightarrow> f = g" for f g
    by (auto simp: muc_demo_lookup_def split: if_splits)
  have acc: "muc_accepted (muc_demo_sends ''r/a'')
      (fst (muc_sends muc_demo_encode (muc_demo_sends ''r/a'') ?i)) = [replicate 100000 8]"
    "muc_accepted (muc_demo_sends ''r/b'')
      (fst (muc_sends muc_demo_encode (muc_demo_sends ''r/b'') ?i)) = [[1, 2]]"
    by (simp_all add: muc_demo_sends_def muc_accepted_def gabble_bytestream_muc_send_def
        send_data_to_def gabble_bytestream_muc_init_def muc_send_loop.simps MAX_BLOCK_SIZE_def
        muc_emit_def)
  obtain r where r: "run (muc_arrival (muc_demo_decode_from 0) muc_demo_lookup) ?arr ?i = Some r"
    "\<forall>f. muc_demo_lookup f \<noteq> 0 \<longrightarrow> muc_delivered (muc_demo_lookup f) (muc_trace r) =
       muc_accepted (muc_demo_sends f) (fst (muc_sends muc_demo_encode (muc_demo_sends f) ?i))"
    using muc_room_delivery [OF muc_demo_decode inj arr] by blast
  have "muc_delivered 1 (muc_trace r) = [replicate 100000 8]"
    using r(2) [rule_format, of "''r/a''"] acc(1) by (simp add: muc_demo_lookup_def)
  moreover have "muc_delivered 2 (muc_trace r) = [[1, 2]]"
    using r(2) [rule_format, of "''r/b''"] acc(2) by (simp add: muc_demo_lookup_def)
  ultimately show ?thesis using r(1) by blast
qed

end
