(* ===== verification/Bytestream_Multiple.thy ===== *)
theory Bytestream_Multiple
  imports Bytestream_Iface
begin

text \<open>
  Bytestreams with fallback (\<open>src/bytestream-multiple.c\<close>): one bytestream in front of several stream
  methods. The first method's bytestream is the active one; when it reports \<open>connection-error\<close> the next
  method takes its place, and everything else the active bytestream signals is passed on.

  The active bytestream is reached through \<open>GabbleBytestreamIface\<close> only: its type is a parameter \<open>'b\<close>
  and its virtual methods are the fields of \<open>'b iface\<close>, each of which returns the new bytestream and
  the signals it emitted, in order, or \<open>None\<close> when it aborts. \<open>create\<close> is
  \<open>gabble_bytestream_factory_create_from_method\<close>. A failed \<open>g_assert\<close> is \<open>None\<close>.
\<close>

datatype bytestream_signal =
    Sig_state_changed GabbleBytestreamState
  | Sig_data_received bytes
  | Sig_write_blocked bool
  | Sig_connection_error

record 'b iface =
  bs_initiate :: "'b \<Rightarrow> (bool \<times> 'b \<times> bytestream_signal list) option"
  bs_send :: "bytes \<Rightarrow> 'b \<Rightarrow> (bool \<times> 'b \<times> bytestream_signal list) option"
  bs_close :: "cstring \<Rightarrow> 'b \<Rightarrow> 'b \<times> bytestream_signal list"
  bs_block_reading :: "bool \<Rightarrow> 'b \<Rightarrow> ('b \<times> bytestream_signal list) option"
  bs_set_state :: "GabbleBytestreamState \<Rightarrow> 'b \<Rightarrow> 'b \<times> bytestream_signal list"
  bs_protocol :: "'b \<Rightarrow> string"

text \<open>What the bytestream signals and sends itself.\<close>

datatype mult_event =
    MU_signal bytestream_signal
  | MU_send_accept "string list"

record 'b mult =
  mu_state :: GabbleBytestreamState
  mu_fallback_stream_methods :: "string list"
  mu_active_bytestream :: "'b option"
  mu_read_blocked :: bool
  mu_dispose_has_run :: bool
  mu_trace :: "mult_event list"

type_synonym 'b factory = "string \<Rightarrow> GabbleBytestreamState \<Rightarrow> 'b option"

definition gabble_bytestream_multiple_init :: "GabbleBytestreamState \<Rightarrow> 'b mult" where
  "gabble_bytestream_multiple_init st =
     \<lparr>mu_state = st, mu_fallback_stream_methods = [], mu_active_bytestream = None,
      mu_read_blocked = False, mu_dispose_has_run = False, mu_trace = []\<rparr>"

definition mu_emit :: "mult_event \<Rightarrow> 'b mult \<Rightarrow> 'b mult" where
  "mu_emit e m = m\<lparr>mu_trace := mu_trace m @ [e]\<rparr>"

definition mu_set_state :: "GabbleBytestreamState \<Rightarrow> 'b mult \<Rightarrow> 'b mult" where
  "mu_set_state st m =
     (if mu_state m \<noteq> st
      then mu_emit (MU_signal (Sig_state_changed st)) (m\<lparr>mu_state := st\<rparr>) else m)"

text \<open>The handlers are connected after \<open>block_reading\<close> has been called, so what the new bytestream
  signals during that call is not seen.\<close>

definition bytestream_activate_next :: "'b iface \<Rightarrow> 'b factory \<Rightarrow> 'b mult \<Rightarrow> 'b mult option" where
  "bytestream_activate_next ops create m =
     (if mu_active_bytestream m \<noteq> None then Some m
      else case mu_fallback_stream_methods m of
        [] \<Rightarrow> Some m
      | stream_method # rest \<Rightarrow>
          do { b \<leftarrow> create stream_method (mu_state m);
               (b1, _) \<leftarrow> bs_block_reading ops (mu_read_blocked m) b;
               Some (m\<lparr>mu_fallback_stream_methods := rest, mu_active_bytestream := Some b1\<rparr>) })"

lemma activate_next_fallback:
  "bytestream_activate_next ops create m = Some m' \<Longrightarrow> mu_active_bytestream m = None \<Longrightarrow>
   mu_fallback_stream_methods m \<noteq> [] \<Longrightarrow>
   mu_fallback_stream_methods m' = tl (mu_fallback_stream_methods m)"
  by (auto simp: bytestream_activate_next_def split: list.splits bind_splits)

lemma mu_set_state_fields [simp]:
  "mu_fallback_stream_methods (mu_set_state st m) = mu_fallback_stream_methods m"
  "mu_active_bytestream (mu_set_state st m) = mu_active_bytestream m"
  "mu_read_blocked (mu_set_state st m) = mu_read_blocked m"
  "mu_dispose_has_run (mu_set_state st m) = mu_dispose_has_run m"
  "mu_state (mu_set_state st m) = st"
  by (simp_all add: mu_set_state_def mu_emit_def)

lemma mu_emit_fields [simp]:
  "mu_fallback_stream_methods (mu_emit e m) = mu_fallback_stream_methods m"
  "mu_active_bytestream (mu_emit e m) = mu_active_bytestream m"
  "mu_read_blocked (mu_emit e m) = mu_read_blocked m"
  "mu_dispose_has_run (mu_emit e m) = mu_dispose_has_run m"
  "mu_state (mu_emit e m) = mu_state m"
  "mu_trace (mu_emit e m) = mu_trace m @ [e]"
  by (simp_all add: mu_emit_def)

text \<open>The signals of the active bytestream, handled one after the other: \<open>bytestream_data_received_cb\<close>,
  \<open>bytestream_state_changed_cb\<close>, \<open>bytestream_write_blocked_cb\<close> and \<open>bytestream_connection_error_cb\<close>.
  The last one disconnects the handlers, so the rest of the signals is lost, and may make the next
  bytestream active and initiate it, whose signals are handled in turn.\<close>

function handle_signals ::
    "'b iface \<Rightarrow> 'b factory \<Rightarrow> bytestream_signal list \<Rightarrow> 'b mult \<Rightarrow> 'b mult option" where
  "handle_signals ops create [] m = Some m"
| "handle_signals ops create (Sig_data_received d # sigs) m =
     handle_signals ops create sigs (mu_emit (MU_signal (Sig_data_received d)) m)"
| "handle_signals ops create (Sig_state_changed st # sigs) m =
     handle_signals ops create sigs (mu_set_state st m)"
| "handle_signals ops create (Sig_write_blocked b # sigs) m =
     handle_signals ops create sigs (mu_emit (MU_signal (Sig_write_blocked b)) m)"
| "handle_signals ops create (Sig_connection_error # sigs) m =
     (if mu_active_bytestream m = None then None
      else if mu_state m \<noteq> GABBLE_BYTESTREAM_STATE_INITIATING
            \<and> mu_state m \<noteq> GABBLE_BYTESTREAM_STATE_ACCEPTED
      then None
      else
        let m1 = m\<lparr>mu_active_bytestream := None\<rparr>
        in if mu_fallback_stream_methods m1 = [] then Some m1
           else case bytestream_activate_next ops create m1 of
             None \<Rightarrow> None
           | Some m2 \<Rightarrow>
               if mu_state m2 = GABBLE_BYTESTREAM_STATE_INITIATING
               then (case mu_active_bytestream m2 of
                       None \<Rightarrow> None
                     | Some b \<Rightarrow>
                         (case bs_initiate ops b of
                            None \<Rightarrow> None
                          | Some (r, b1, new_sigs) \<Rightarrow>
                              handle_signals ops create new_sigs
                                (m2\<lparr>mu_active_bytestream := Some b1\<rparr>)))
               else Some m2)"
  by pat_completeness auto

termination
proof (relation "measures [\<lambda>(ops, create, sigs, m). length (mu_fallback_stream_methods m),
    \<lambda>(ops, create, sigs, m). length sigs]", goal_cases)
  case (5 ops create sigs m m1 m2 b x r y b1 new_sigs)
  then have "mu_fallback_stream_methods m2 = tl (mu_fallback_stream_methods m)"
    using activate_next_fallback [of ops create m1 m2] by simp
  with 5 show ?case by (cases "mu_fallback_stream_methods m") auto
qed auto

text \<open>A call of a virtual method of the active bytestream: it is replaced by the new one, and its signals
  are handled.\<close>

definition mu_update :: "'b iface \<Rightarrow> 'b factory \<Rightarrow> 'b \<times> bytestream_signal list \<Rightarrow> 'b mult \<Rightarrow> 'b mult option"
  where
  "mu_update ops create r m =
     handle_signals ops create (snd r) (m\<lparr>mu_active_bytestream := Some (fst r)\<rparr>)"

definition gabble_bytestream_multiple_send ::
    "'b iface \<Rightarrow> 'b factory \<Rightarrow> bytes \<Rightarrow> 'b mult \<Rightarrow> (bool \<times> 'b mult) option" where
  "gabble_bytestream_multiple_send ops create str m =
     (if mu_state m \<noteq> GABBLE_BYTESTREAM_STATE_OPEN then Some (False, m)
      else case mu_active_bytestream m of
        None \<Rightarrow> None
      | Some b \<Rightarrow>
          do { (r, b1, sigs) \<leftarrow> bs_send ops str b;
               m1 \<leftarrow> mu_update ops create (b1, sigs) m;
               Some (r, m1) })"

text \<open>\<open>sent\<close> is what \<open>_gabble_connection_send\<close> returns for the acceptance with all methods.\<close>

definition gabble_bytestream_multiple_accept ::
    "'b iface \<Rightarrow> 'b factory \<Rightarrow> bool \<Rightarrow> 'b mult \<Rightarrow> 'b mult option" where
  "gabble_bytestream_multiple_accept ops create sent m =
     (if mu_state m \<noteq> GABBLE_BYTESTREAM_STATE_LOCAL_PENDING then Some m
      else case mu_active_bytestream m of
        None \<Rightarrow> Some m
      | Some b \<Rightarrow>
          if sent
          then mu_update ops create (bs_set_state ops GABBLE_BYTESTREAM_STATE_ACCEPTED b)
                 (mu_emit (MU_send_accept (bs_protocol ops b # mu_fallback_stream_methods m)) m)
          else Some m)"

definition gabble_bytestream_multiple_close ::
    "'b iface \<Rightarrow> 'b factory \<Rightarrow> cstring \<Rightarrow> 'b mult \<Rightarrow> 'b mult option" where
  "gabble_bytestream_multiple_close ops create err m =
     (if mu_state m = GABBLE_BYTESTREAM_STATE_CLOSED then Some m
      else case mu_active_bytestream m of
        Some b \<Rightarrow> mu_update ops create (bs_close ops err b) m
      | None \<Rightarrow> Some (mu_set_state GABBLE_BYTESTREAM_STATE_CLOSED m))"

definition gabble_bytestream_multiple_initiate ::
    "'b iface \<Rightarrow> 'b factory \<Rightarrow> 'b mult \<Rightarrow> (bool \<times> 'b mult) option" where
  "gabble_bytestream_multiple_initiate ops create m =
     (if mu_state m \<noteq> GABBLE_BYTESTREAM_STATE_INITIATING then Some (False, m)
      else case mu_active_bytestream m of
        None \<Rightarrow> Some (False, m)
      | Some b \<Rightarrow>
          do { (r, b1, sigs) \<leftarrow> bs_initiate ops b;
               m1 \<leftarrow> mu_update ops create (b1, sigs) m;
               Some (r, m1) })"

definition gabble_bytestream_multiple_add_stream_method ::
    "'b iface \<Rightarrow> 'b factory \<Rightarrow> string \<Rightarrow> 'b mult \<Rightarrow> 'b mult option" where
  "gabble_bytestream_multiple_add_stream_method ops create method m =
     (let m1 = m\<lparr>mu_fallback_stream_methods := mu_fallback_stream_methods m @ [method]\<rparr>
      in if mu_active_bytestream m1 = None then bytestream_activate_next ops create m1 else Some m1)"

definition gabble_bytestream_multiple_has_stream_method :: "'b mult \<Rightarrow> bool" where
  "gabble_bytestream_multiple_has_stream_method m =
     (if mu_active_bytestream m \<noteq> None then True else length (mu_fallback_stream_methods m) \<noteq> 0)"

definition gabble_bytestream_multiple_block_reading ::
    "'b iface \<Rightarrow> 'b factory \<Rightarrow> bool \<Rightarrow> 'b mult \<Rightarrow> 'b mult option" where
  "gabble_bytestream_multiple_block_reading ops create block m =
     (if mu_read_blocked m = block then Some m
      else
        let m1 = m\<lparr>mu_read_blocked := block\<rparr>
        in case mu_active_bytestream m1 of
             None \<Rightarrow> None
           | Some b \<Rightarrow>
               do { r \<leftarrow> bs_block_reading ops block b; mu_update ops create r m1 })"

definition gabble_bytestream_multiple_dispose ::
    "'b iface \<Rightarrow> 'b factory \<Rightarrow> 'b mult \<Rightarrow> 'b mult option" where
  "gabble_bytestream_multiple_dispose ops create m =
     (if mu_dispose_has_run m then Some m
      else
        let m1 = m\<lparr>mu_dispose_has_run := True\<rparr>
        in if mu_state m1 \<noteq> GABBLE_BYTESTREAM_STATE_CLOSED
           then gabble_bytestream_multiple_close ops create None m1 else Some m1)"

section \<open>What the active bytestream promises\<close>

text \<open>The state a listener sees after some signals; \<open>connection-error\<close> ends the listening.\<close>

fun state_after :: "bytestream_signal list \<Rightarrow> GabbleBytestreamState \<Rightarrow> GabbleBytestreamState" where
  "state_after [] st = st"
| "state_after (Sig_state_changed st' # sigs) st = state_after sigs st'"
| "state_after (_ # sigs) st = state_after sigs st"

text \<open>The interface as its clients see it: a contract for \<open>send\<close> and \<open>close\<close> as in \<open>bytestream\<close>, for
  bytestreams that satisfy an invariant \<open>ok\<close>, and signals that tell every change of the state. An
  open bytestream does not report \<open>connection-error\<close> any more.\<close>

locale signalling_bytestream =
  fixes ops :: "'b iface" and st :: "'b \<Rightarrow> GabbleBytestreamState" and ok :: "'b \<Rightarrow> bool"
  assumes send_works: "ok b \<Longrightarrow> bs_send ops d b \<noteq> None"
    and send_tells: "ok b \<Longrightarrow> bs_send ops d b = Some (r, b', sigs) \<Longrightarrow>
      ok b' \<and> state_after sigs (st b) = st b'"
    and send_no_error: "ok b \<Longrightarrow> st b = GABBLE_BYTESTREAM_STATE_OPEN \<Longrightarrow>
      bs_send ops d b = Some (r, b', sigs) \<Longrightarrow> Sig_connection_error \<notin> set sigs"
    and send_open_states: "ok b \<Longrightarrow> st b = GABBLE_BYTESTREAM_STATE_OPEN \<Longrightarrow>
      bs_send ops d b = Some (r, b', sigs) \<Longrightarrow>
      st b' \<in> {GABBLE_BYTESTREAM_STATE_OPEN, GABBLE_BYTESTREAM_STATE_CLOSING,
               GABBLE_BYTESTREAM_STATE_CLOSED}"
    and close_tells: "ok b \<Longrightarrow> bs_close ops e b = (b', sigs) \<Longrightarrow>
      ok b' \<and> state_after sigs (st b) = st b' \<and> Sig_connection_error \<notin> set sigs"
    and close_shuts: "ok b \<Longrightarrow> bs_close ops e b = (b', sigs) \<Longrightarrow>
      st b' \<in> {GABBLE_BYTESTREAM_STATE_CLOSING, GABBLE_BYTESTREAM_STATE_CLOSED}"

lemma handle_signals_plain:
  "Sig_connection_error \<notin> set sigs \<Longrightarrow>
   \<exists>m'. handle_signals ops create sigs m = Some m' \<and> mu_state m' = state_after sigs (mu_state m)
     \<and> mu_active_bytestream m' = mu_active_bytestream m
     \<and> mu_fallback_stream_methods m' = mu_fallback_stream_methods m
     \<and> mu_read_blocked m' = mu_read_blocked m \<and> mu_dispose_has_run m' = mu_dispose_has_run m"
proof (induction sigs arbitrary: m)
  case (Cons x sigs)
  then show ?case by (cases x) (force+)
qed simp

definition mu_synced :: "('b \<Rightarrow> GabbleBytestreamState) \<Rightarrow> ('b \<Rightarrow> bool) \<Rightarrow> 'b mult \<Rightarrow> bool" where
  "mu_synced st ok m \<longleftrightarrow>
     (case mu_active_bytestream m of
        None \<Rightarrow> mu_state m \<noteq> GABBLE_BYTESTREAM_STATE_OPEN
      | Some b \<Rightarrow> ok b \<and> st b = mu_state m)"

context signalling_bytestream
begin

text \<open>While the active bytestream and the one in front of it agree, \<open>send\<close> and \<open>close\<close> succeed and
  leave them in agreement.\<close>

lemma multiple_send_synced:
  assumes "mu_synced st ok m"
  obtains r m' where "gabble_bytestream_multiple_send ops create d m = Some (r, m')"
    "mu_synced st ok m'"
    "mu_state m \<noteq> GABBLE_BYTESTREAM_STATE_OPEN \<Longrightarrow> \<not> r \<and> m' = m"
    "mu_state m = GABBLE_BYTESTREAM_STATE_OPEN \<Longrightarrow>
      mu_state m' \<in> {GABBLE_BYTESTREAM_STATE_OPEN, GABBLE_BYTESTREAM_STATE_CLOSING,
        GABBLE_BYTESTREAM_STATE_CLOSED}"
proof (cases "mu_state m = GABBLE_BYTESTREAM_STATE_OPEN")
  case False
  with assms that show thesis by (simp add: gabble_bytestream_multiple_send_def)
next
  case True
  with assms obtain b where b: "mu_active_bytestream m = Some b" "ok b" "st b = mu_state m"
    by (auto simp: mu_synced_def split: option.splits)
  obtain r b1 sigs where s: "bs_send ops d b = Some (r, b1, sigs)"
    using send_works [OF b(2), of d] by auto
  have "Sig_connection_error \<notin> set sigs" using send_no_error [OF b(2) _ s] b(3) True by simp
  from handle_signals_plain [OF this, of ops create "m\<lparr>mu_active_bytestream := Some b1\<rparr>"]
  obtain m' where m': "mu_update ops create (b1, sigs) m = Some m'"
    "mu_state m' = state_after sigs (mu_state m)" "mu_active_bytestream m' = Some b1"
    by (auto simp: mu_update_def)
  with that [of r m'] b s send_tells [OF b(2) s] send_open_states [OF b(2) _ s] True show thesis
    by (simp add: gabble_bytestream_multiple_send_def mu_synced_def)
qed

lemma multiple_close_synced:
  assumes "mu_synced st ok m"
  obtains m' where "gabble_bytestream_multiple_close ops create e m = Some m'" "mu_synced st ok m'"
    "mu_state m' \<in> {GABBLE_BYTESTREAM_STATE_CLOSING, GABBLE_BYTESTREAM_STATE_CLOSED}"
proof (cases "mu_state m = GABBLE_BYTESTREAM_STATE_CLOSED \<or> mu_active_bytestream m = None")
  case True
  then show thesis
    using assms that [of m] that [of "mu_set_state GABBLE_BYTESTREAM_STATE_CLOSED m"]
    by (cases "mu_state m = GABBLE_BYTESTREAM_STATE_CLOSED")
      (simp_all add: gabble_bytestream_multiple_close_def mu_synced_def)
next
  case False
  with assms obtain b where b: "mu_active_bytestream m = Some b" "ok b" "st b = mu_state m"
    by (auto simp: mu_synced_def split: option.splits)
  obtain b1 sigs where s: "bs_close ops e b = (b1, sigs)" by (cases "bs_close ops e b") auto
  from close_tells [OF b(2) s] have t: "ok b1" "state_after sigs (st b) = st b1"
    "Sig_connection_error \<notin> set sigs" by auto
  from handle_signals_plain [OF t(3), of ops create "m\<lparr>mu_active_bytestream := Some b1\<rparr>"]
  obtain m' where m': "mu_update ops create (b1, sigs) m = Some m'"
    "mu_state m' = state_after sigs (mu_state m)" "mu_active_bytestream m' = Some b1"
    by (auto simp: mu_update_def)
  with that [of m'] b s t close_shuts [OF b(2) s] False show thesis
    by (simp add: gabble_bytestream_multiple_close_def mu_synced_def)
qed

text \<open>So the bytestream in front keeps the contract of the interface.\<close>

lemma multiple_is_bytestream:
  "bytestream mu_state
     (\<lambda>d m r m'. mu_synced st ok m \<and> gabble_bytestream_multiple_send ops create d m = Some (r, m'))
     (\<lambda>m m'. mu_synced st ok m \<and> gabble_bytestream_multiple_close ops create e m = Some m')"
proof
  fix d m r m'
  assume *: "mu_synced st ok m \<and> gabble_bytestream_multiple_send ops create d m = Some (r, m')"
  show "mu_state m \<noteq> GABBLE_BYTESTREAM_STATE_OPEN \<Longrightarrow> \<not> r \<and> m' = m"
    using * by (simp add: gabble_bytestream_multiple_send_def)
  show "mu_state m = GABBLE_BYTESTREAM_STATE_OPEN \<Longrightarrow>
      mu_state m' \<in> {GABBLE_BYTESTREAM_STATE_OPEN, GABBLE_BYTESTREAM_STATE_CLOSING,
        GABBLE_BYTESTREAM_STATE_CLOSED}"
    using multiple_send_synced [of m create d] * by (metis option.inject prod.inject)
next
  fix m m'
  assume *: "mu_synced st ok m \<and> gabble_bytestream_multiple_close ops create e m = Some m'"
  show "mu_state m = GABBLE_BYTESTREAM_STATE_CLOSED \<Longrightarrow> m' = m"
    using * by (simp add: gabble_bytestream_multiple_close_def)
  show "mu_state m' \<in> {GABBLE_BYTESTREAM_STATE_CLOSING, GABBLE_BYTESTREAM_STATE_CLOSED}"
    using multiple_close_synced [of m create e] * by (metis option.inject)
qed

end

section \<open>Falling back\<close>

text \<open>The active bytestream reports \<open>connection-error\<close>, again and again.\<close>

primrec keeps_failing :: "'b iface \<Rightarrow> 'b factory \<Rightarrow> nat \<Rightarrow> 'b mult \<Rightarrow> 'b mult option" where
  "keeps_failing ops create 0 m = Some m"
| "keeps_failing ops create (Suc n) m =
     Option.bind (handle_signals ops create [Sig_connection_error] m) (keeps_failing ops create n)"

text \<open>A new bytestream with method \<open>x\<close>, blocked as the one in front of it is and initiated.\<close>

definition started :: "'b iface \<Rightarrow> 'b factory \<Rightarrow> bool \<Rightarrow> string \<Rightarrow> 'b option" where
  "started ops create blocked x =
     do { b \<leftarrow> create x GABBLE_BYTESTREAM_STATE_INITIATING;
          (b1, _) \<leftarrow> bs_block_reading ops blocked b;
          (_, b2, sigs) \<leftarrow> bs_initiate ops b1;
          if sigs = [] then Some b2 else None }"

lemma one_failure:
  assumes "mu_state m = GABBLE_BYTESTREAM_STATE_INITIATING" "mu_active_bytestream m \<noteq> None"
    and "mu_fallback_stream_methods m = x # xs" "started ops create (mu_read_blocked m) x = Some b"
  shows "handle_signals ops create [Sig_connection_error] m =
    Some (m\<lparr>mu_fallback_stream_methods := xs, mu_active_bytestream := Some b\<rparr>)"
  using assms
  by (auto simp: started_def bytestream_activate_next_def split: bind_splits if_splits)

lemma failures:
  assumes "mu_state m = GABBLE_BYTESTREAM_STATE_INITIATING" "mu_active_bytestream m \<noteq> None"
    and "mu_fallback_stream_methods m = xs @ ys"
    and "\<forall>x \<in> set xs. started ops create (mu_read_blocked m) x \<noteq> None"
  shows "keeps_failing ops create (length xs) m = Some (m\<lparr>mu_fallback_stream_methods := ys,
      mu_active_bytestream := (if xs = [] then mu_active_bytestream m
        else started ops create (mu_read_blocked m) (last xs))\<rparr>)"
  using assms
proof (induction xs arbitrary: m)
  case (Cons x xs)
  then obtain b where b: "started ops create (mu_read_blocked m) x = Some b" by auto
  let ?m = "m\<lparr>mu_fallback_stream_methods := xs @ ys, mu_active_bytestream := Some b\<rparr>"
  have "keeps_failing ops create (length xs) ?m = Some (?m\<lparr>mu_fallback_stream_methods := ys,
      mu_active_bytestream := (if xs = [] then mu_active_bytestream ?m
        else started ops create (mu_read_blocked ?m) (last xs))\<rparr>)"
    using Cons.prems by (intro Cons.IH) auto
  with one_failure [OF Cons.prems(1,2), of x "xs @ ys" ops create b] Cons.prems(3) b show ?case
    by simp
qed simp

lemma fallback_order:
  assumes "mu_state m = GABBLE_BYTESTREAM_STATE_INITIATING" "mu_active_bytestream m \<noteq> None"
    and "mu_fallback_stream_methods m = xs"
    and "\<forall>x \<in> set xs. started ops create (mu_read_blocked m) x \<noteq> None"
  shows "(\<forall>k < length xs. \<exists>b. started ops create (mu_read_blocked m) (xs ! k) = Some b
      \<and> keeps_failing ops create (Suc k) m =
        Some (m\<lparr>mu_fallback_stream_methods := drop (Suc k) xs, mu_active_bytestream := Some b\<rparr>))
    \<and> keeps_failing ops create (Suc (length xs)) m =
        Some (m\<lparr>mu_fallback_stream_methods := [], mu_active_bytestream := None\<rparr>)"
proof (intro conjI allI impI)
  fix k
  assume k: "k < length xs"
  then obtain b where b: "started ops create (mu_read_blocked m) (xs ! k) = Some b"
    using assms(4) by fastforce
  have "last (take (Suc k) xs) = xs ! k" "take (Suc k) xs \<noteq> []" "length (take (Suc k) xs) = Suc k"
    using k by (auto simp: take_Suc_conv_app_nth)
  moreover have "\<forall>x \<in> set (take (Suc k) xs). started ops create (mu_read_blocked m) x \<noteq> None"
    using assms(4) by (meson in_set_takeD)
  ultimately have "keeps_failing ops create (Suc k) m =
        Some (m\<lparr>mu_fallback_stream_methods := drop (Suc k) xs, mu_active_bytestream := Some b\<rparr>)"
    using failures [OF assms(1,2), of "take (Suc k) xs" "drop (Suc k) xs" ops create] assms(3) b
    by (simp del: keeps_failing.simps)
  with b
  show "\<exists>b. started ops create (mu_read_blocked m) (xs ! k) = Some b
      \<and> keeps_failing ops create (Suc k) m =
        Some (m\<lparr>mu_fallback_stream_methods := drop (Suc k) xs, mu_active_bytestream := Some b\<rparr>)"
    by (simp del: keeps_failing.simps)
next
  have snoc: "keeps_failing ops create (Suc n) m
      = Option.bind (keeps_failing ops create n m) (handle_signals ops create [Sig_connection_error])"
    for n and m
  proof (induction n arbitrary: m)
    case 0
    show ?case by (cases "handle_signals ops create [Sig_connection_error] m") simp_all
  next
    case (Suc n)
    then show ?case by (cases "handle_signals ops create [Sig_connection_error] m") simp_all
  qed
  obtain a where "(if xs = [] then mu_active_bytestream m
      else started ops create (mu_read_blocked m) (last xs)) = Some a"
    using assms(2,4) last_in_set [of xs] by (cases "xs = []") fastforce+
  then have a: "keeps_failing ops create (length xs) m =
      Some (m\<lparr>mu_fallback_stream_methods := [], mu_active_bytestream := Some a\<rparr>)"
    using failures [OF assms(1,2), of xs "[]" ops create] assms(3,4) by simp
  show "keeps_failing ops create (Suc (length xs)) m =
        Some (m\<lparr>mu_fallback_stream_methods := [], mu_active_bytestream := None\<rparr>)"
    unfolding snoc a using assms(1) by simp
qed

end
