(* ===== verification/Bytestream_IBB.thy ===== *)
theory Bytestream_IBB
  imports Bytestream_Iface "HOL-Library.Sublist"
begin

text \<open>
  In-band bytestreams (\<open>src/bytestream-ibb.c\<close>): data travels in base64 encoded IQ stanzas. The
  sender keeps at most \<open>WINDOW_SIZE\<close> stanzas unacknowledged and buffers the rest; the receiver can
  block reading, in which case incoming data is buffered up to \<open>READ_BUFFER_MAX_SIZE\<close> bytes.

  The state \<open>ibb\<close> is \<open>struct _GabbleBytestreamIBBPrivate\<close>. A stanza is named by a number: for an
  outgoing stanza the pointer kept in \<open>sent_stanzas_not_acked\<close>, drawn from a counter so that it is
  fresh; for an incoming one the IQ to acknowledge. \<open>g_base64_encode\<close> and \<open>g_base64_decode\<close> are the
  parameters \<open>enc\<close> and \<open>dec\<close>.
\<close>

definition READ_BUFFER_MAX_SIZE :: nat where
  "READ_BUFFER_MAX_SIZE = 512 * 1024"

definition WINDOW_SIZE :: nat where
  "WINDOW_SIZE = 10"

datatype ibb_error = IBB_BAD_REQUEST | IBB_NOT_ACCEPTABLE | IBB_ITEM_NOT_FOUND

text \<open>What the bytestream sends and signals, in order.\<close>

datatype ibb_event =
    IBB_send_data nat guint16 string
  | IBB_send_open guint
  | IBB_send_close
  | IBB_send_accept
  | IBB_send_decline cstring
  | IBB_ack_iq nat
  | IBB_iq_error nat ibb_error
  | IBB_state_changed GabbleBytestreamState
  | IBB_write_blocked_changed bool
  | IBB_data_received bytes

record ibb =
  ibb_state :: GabbleBytestreamState
  ibb_block_size :: guint
  ibb_seq :: guint16
  ibb_close_iq_to_ack :: "nat option"
  ibb_read_blocked :: bool
  ibb_read_buffer :: "bytes option"
  ibb_received_stanzas_not_acked :: "nat list"
  ibb_sent_stanzas_not_acked :: "nat list"
  ibb_write_buffer :: "bytes option"
  ibb_write_blocked :: bool
  ibb_dispose_has_run :: bool
  ibb_next_stanza :: nat
  ibb_trace :: "ibb_event list"

definition gabble_bytestream_ibb_init :: "guint \<Rightarrow> GabbleBytestreamState \<Rightarrow> ibb" where
  "gabble_bytestream_ibb_init block_size st =
     \<lparr>ibb_state = st, ibb_block_size = block_size, ibb_seq = 0, ibb_close_iq_to_ack = None,
      ibb_read_blocked = False, ibb_read_buffer = None, ibb_received_stanzas_not_acked = [],
      ibb_sent_stanzas_not_acked = [], ibb_write_buffer = None, ibb_write_blocked = False,
      ibb_dispose_has_run = False, ibb_next_stanza = 0, ibb_trace = []\<rparr>"

definition ibb_emit :: "ibb_event \<Rightarrow> ibb \<Rightarrow> ibb" where
  "ibb_emit e s = s\<lparr>ibb_trace := ibb_trace s @ [e]\<rparr>"

text \<open>\<open>g_object_set (self, "state", st, NULL)\<close>.\<close>

definition ibb_set_state :: "GabbleBytestreamState \<Rightarrow> ibb \<Rightarrow> ibb" where
  "ibb_set_state st s =
     (if ibb_state s \<noteq> st then ibb_emit (IBB_state_changed st) (s\<lparr>ibb_state := st\<rparr>) else s)"

definition ibb_change_write_blocked_state :: "bool \<Rightarrow> ibb \<Rightarrow> ibb" where
  "ibb_change_write_blocked_state blocked s =
     (if ibb_write_blocked s = blocked then s
      else ibb_emit (IBB_write_blocked_changed blocked) (s\<lparr>ibb_write_blocked := blocked\<rparr>))"

definition send_close_stanza :: "ibb \<Rightarrow> ibb" where
  "send_close_stanza s =
     ibb_emit IBB_send_close
       (case ibb_close_iq_to_ack s of
          Some iq \<Rightarrow> (ibb_emit (IBB_ack_iq iq) s)\<lparr>ibb_close_iq_to_ack := None\<rparr>
        | None \<Rightarrow> s)"

text \<open>The body of the loop of \<open>send_data\<close>: one stanza with the given bytes.\<close>

definition ibb_send_one :: "(bytes \<Rightarrow> string) \<Rightarrow> bytes \<Rightarrow> ibb \<Rightarrow> ibb" where
  "ibb_send_one enc chunk s =
     (ibb_emit (IBB_send_data (ibb_next_stanza s) (ibb_seq s) (enc chunk)) s)
       \<lparr>ibb_seq := ibb_seq s + 1,
        ibb_sent_stanzas_not_acked := ibb_next_stanza s # ibb_sent_stanzas_not_acked s,
        ibb_next_stanza := Suc (ibb_next_stanza s)\<rparr>"

lemma ibb_send_one_fields [simp]:
  "ibb_sent_stanzas_not_acked (ibb_send_one enc c s) =
     ibb_next_stanza s # ibb_sent_stanzas_not_acked s"
  "ibb_block_size (ibb_send_one enc c s) = ibb_block_size s"
  "ibb_state (ibb_send_one enc c s) = ibb_state s"
  "ibb_write_buffer (ibb_send_one enc c s) = ibb_write_buffer s"
  "ibb_write_blocked (ibb_send_one enc c s) = ibb_write_blocked s"
  "ibb_read_blocked (ibb_send_one enc c s) = ibb_read_blocked s"
  "ibb_read_buffer (ibb_send_one enc c s) = ibb_read_buffer s"
  "ibb_received_stanzas_not_acked (ibb_send_one enc c s) = ibb_received_stanzas_not_acked s"
  "ibb_close_iq_to_ack (ibb_send_one enc c s) = ibb_close_iq_to_ack s"
  "ibb_dispose_has_run (ibb_send_one enc c s) = ibb_dispose_has_run s"
  "ibb_next_stanza (ibb_send_one enc c s) = Suc (ibb_next_stanza s)"
  "ibb_seq (ibb_send_one enc c s) = ibb_seq s + 1"
  "ibb_trace (ibb_send_one enc c s) =
     ibb_trace s @ [IBB_send_data (ibb_next_stanza s) (ibb_seq s) (enc c)]"
  by (simp_all add: ibb_send_one_def ibb_emit_def)

text \<open>\<open>send_data\<close>: the bytes still to send and the number already sent.\<close>

function send_data_loop :: "(bytes \<Rightarrow> string) \<Rightarrow> ibb \<Rightarrow> bytes \<Rightarrow> nat \<Rightarrow> ibb \<times> nat" where
  "send_data_loop enc s rest sent =
     (if rest = [] then (s, sent)
      else if WINDOW_SIZE \<le> length (ibb_sent_stanzas_not_acked s) then (s, sent)
      else
        let send_now = (if unat (ibb_block_size s) < length rest
                        then unat (ibb_block_size s) else length rest)
        in send_data_loop enc (ibb_send_one enc (take send_now rest) s)
             (drop send_now rest) (sent + send_now))"
  by pat_completeness auto
termination
  by (relation "measure (\<lambda>(enc, s, rest, sent).
        WINDOW_SIZE - length (ibb_sent_stanzas_not_acked s))") auto

declare send_data_loop.simps [simp del]

definition send_data :: "(bytes \<Rightarrow> string) \<Rightarrow> ibb \<Rightarrow> bytes \<Rightarrow> ibb \<times> nat" where
  "send_data enc s str = send_data_loop enc s str 0"

text \<open>The length of a \<open>GString\<close> is a \<open>gsize\<close> but the parameter of \<open>send_data\<close> is a \<open>guint\<close>.\<close>

definition guint_prefix :: "bytes \<Rightarrow> bytes" where
  "guint_prefix xs = take (length xs mod 2 ^ 32) xs"

definition gabble_bytestream_ibb_decline :: "cstring \<Rightarrow> ibb \<Rightarrow> ibb" where
  "gabble_bytestream_ibb_decline err s =
     (if ibb_state s \<noteq> GABBLE_BYTESTREAM_STATE_LOCAL_PENDING then s
      else ibb_set_state GABBLE_BYTESTREAM_STATE_CLOSED (ibb_emit (IBB_send_decline err) s))"

definition gabble_bytestream_ibb_close :: "cstring \<Rightarrow> ibb \<Rightarrow> ibb" where
  "gabble_bytestream_ibb_close err s =
     (if ibb_state s = GABBLE_BYTESTREAM_STATE_CLOSED then s
      else
        let s1 = (fold (\<lambda>iq. ibb_emit (IBB_iq_error iq IBB_ITEM_NOT_FOUND))
                    (rev (ibb_received_stanzas_not_acked s)) s)
                   \<lparr>ibb_received_stanzas_not_acked := []\<rparr>
        in if ibb_state s1 = GABBLE_BYTESTREAM_STATE_LOCAL_PENDING
           then gabble_bytestream_ibb_decline err s1
           else if ibb_write_buffer s1 \<noteq> None
           then ibb_set_state GABBLE_BYTESTREAM_STATE_CLOSING s1
           else ibb_set_state GABBLE_BYTESTREAM_STATE_CLOSED (send_close_stanza s1))"

text \<open>\<open>iq_reply_cb\<close>: \<open>ok\<close> is whether \<open>conn_util_send_iq_finish\<close> reported success.\<close>

definition iq_reply_cb :: "(bytes \<Rightarrow> string) \<Rightarrow> nat \<Rightarrow> bool \<Rightarrow> ibb \<Rightarrow> ibb" where
  "iq_reply_cb enc sent_msg ok s0 =
     (let s = s0\<lparr>ibb_sent_stanzas_not_acked :=
                   remove1 sent_msg (ibb_sent_stanzas_not_acked s0)\<rparr>
      in if \<not> ok then gabble_bytestream_ibb_close None s
         else case ibb_write_buffer s of
           None \<Rightarrow> s
         | Some buf \<Rightarrow>
             (let (s1, sent) = send_data enc s (guint_prefix buf)
              in if sent = length buf
                 then
                   let s2 = ibb_change_write_blocked_state False
                              (s1\<lparr>ibb_write_buffer := None\<rparr>)
                   in if ibb_state s2 = GABBLE_BYTESTREAM_STATE_CLOSING
                      then ibb_set_state GABBLE_BYTESTREAM_STATE_CLOSED (send_close_stanza s2)
                      else s2
                 else s1\<lparr>ibb_write_buffer := Some (drop sent buf)\<rparr>))"

definition gabble_bytestream_ibb_send ::
    "(bytes \<Rightarrow> string) \<Rightarrow> bytes \<Rightarrow> ibb \<Rightarrow> bool \<times> ibb" where
  "gabble_bytestream_ibb_send enc str s =
     (if ibb_state s \<noteq> GABBLE_BYTESTREAM_STATE_OPEN then (False, s)
      else case ibb_write_buffer s of
        Some buf \<Rightarrow> (True, s\<lparr>ibb_write_buffer := Some (buf @ str)\<rparr>)
      | None \<Rightarrow>
          (let (s1, sent) = send_data enc s str
           in if sent < length str
              then (True, ibb_change_write_blocked_state True
                      (s1\<lparr>ibb_write_buffer := Some (drop sent str)\<rparr>))
              else (True, s1)))"

text \<open>\<open>gabble_bytestream_ibb_receive\<close> from the call of \<open>g_string_new_len\<close> on, with the decoded
  bytes \<open>str\<close>; \<open>iq\<close> is the stanza if it is an IQ. The branch for a \<open>NULL\<close> result of
  \<open>g_string_new_len\<close> cannot be reached, since that function always returns a string.\<close>

definition ibb_receive_bytes :: "bytes \<Rightarrow> nat option \<Rightarrow> ibb \<Rightarrow> ibb" where
  "ibb_receive_bytes str iq s =
          (if ibb_read_blocked s
           then
             let current_buffer_len =
                   (case ibb_read_buffer s of None \<Rightarrow> 0 | Some b \<Rightarrow> length b)
             in if READ_BUFFER_MAX_SIZE < current_buffer_len + length str
                then gabble_bytestream_ibb_close None
                       (case iq of Some m \<Rightarrow> ibb_emit (IBB_iq_error m IBB_NOT_ACCEPTABLE) s
                                 | None \<Rightarrow> s)
                else
                  let s1 = s\<lparr>ibb_read_buffer :=
                             Some (case ibb_read_buffer s of None \<Rightarrow> str | Some b \<Rightarrow> b @ str)\<rparr>
                  in (case iq of
                        Some m \<Rightarrow> s1\<lparr>ibb_received_stanzas_not_acked :=
                                      m # ibb_received_stanzas_not_acked s1\<rparr>
                      | None \<Rightarrow> s1)
           else
             let s1 = ibb_emit (IBB_data_received str) s
             in (case iq of Some m \<Rightarrow> ibb_emit (IBB_ack_iq m) s1 | None \<Rightarrow> s1))"

text \<open>\<open>content\<close> is the text of the \<open>data\<close> node, \<open>NULL\<close> for an empty element. Given \<open>NULL\<close>,
  \<open>g_base64_decode\<close> returns \<open>NULL\<close> and leaves \<open>outlen\<close> unset, and the code goes on to read it:
  the crash value.\<close>

definition gabble_bytestream_ibb_receive ::
    "(string \<Rightarrow> bytes) \<Rightarrow> cstring \<Rightarrow> nat option \<Rightarrow> ibb \<Rightarrow> ibb option" where
  "gabble_bytestream_ibb_receive dec content iq s =
     (if ibb_state s \<noteq> GABBLE_BYTESTREAM_STATE_OPEN
      then Some (case iq of Some m \<Rightarrow> ibb_emit (IBB_iq_error m IBB_BAD_REQUEST) s | None \<Rightarrow> s)
      else case content of
        None \<Rightarrow> None
      | Some txt \<Rightarrow> Some (ibb_receive_bytes (dec txt) iq s))"

definition gabble_bytestream_ibb_accept :: "bool \<Rightarrow> ibb \<Rightarrow> ibb" where
  "gabble_bytestream_ibb_accept sent_ok s =
     (if ibb_state s \<noteq> GABBLE_BYTESTREAM_STATE_LOCAL_PENDING then s
      else if sent_ok
      then ibb_set_state GABBLE_BYTESTREAM_STATE_ACCEPTED (ibb_emit IBB_send_accept s)
      else s)"

text \<open>\<open>ibb_init_reply_cb\<close>: \<open>is_error\<close> is what \<open>wocky_stanza_extract_errors\<close> returns.\<close>

definition ibb_init_reply_cb :: "bool \<Rightarrow> ibb \<Rightarrow> ibb" where
  "ibb_init_reply_cb is_error s =
     (if \<not> is_error then ibb_set_state GABBLE_BYTESTREAM_STATE_OPEN s
      else ibb_set_state GABBLE_BYTESTREAM_STATE_CLOSED s)"

definition gabble_bytestream_ibb_initiate :: "bool \<Rightarrow> ibb \<Rightarrow> bool \<times> ibb" where
  "gabble_bytestream_ibb_initiate sent_ok s =
     (if ibb_state s \<noteq> GABBLE_BYTESTREAM_STATE_INITIATING then (False, s)
      else if \<not> sent_ok then (False, s)
      else (True, ibb_emit (IBB_send_open (ibb_block_size s)) s))"

text \<open>What the bytestream factory does with the bytestream an \<open>open\<close> request is for, in
  \<open>handle_ibb_open_iq\<close>: \<open>iq\<close> is the request and \<open>block_size\<close> the value \<open>strtoul\<close> read from its
  \<open>block-size\<close> attribute, \<open>None\<close> when there is no such attribute.\<close>

definition ibb_handle_open :: "nat \<Rightarrow> guint option \<Rightarrow> ibb \<Rightarrow> ibb" where
  "ibb_handle_open iq block_size s =
     (if ibb_state s \<noteq> GABBLE_BYTESTREAM_STATE_ACCEPTED
      then ibb_emit (IBB_iq_error iq IBB_BAD_REQUEST) s
      else
        let s1 = (case block_size of
                    Some b \<Rightarrow> if 0 < b then s\<lparr>ibb_block_size := b\<rparr> else s
                  | None \<Rightarrow> s)
        in ibb_emit (IBB_ack_iq iq) (ibb_set_state GABBLE_BYTESTREAM_STATE_OPEN s1))"

definition gabble_bytestream_ibb_block_reading :: "bool \<Rightarrow> ibb \<Rightarrow> ibb" where
  "gabble_bytestream_ibb_block_reading block s =
     (if ibb_read_blocked s = block then s
      else
        let s1 = s\<lparr>ibb_read_blocked := block\<rparr>
        in case ibb_read_buffer s1 of
             Some buf \<Rightarrow>
               if \<not> block
               then
                 let s2 = (ibb_emit (IBB_data_received buf) s1)\<lparr>ibb_read_buffer := None\<rparr>
                 in (fold (\<lambda>iq. ibb_emit (IBB_ack_iq iq))
                       (rev (ibb_received_stanzas_not_acked s2)) s2)
                      \<lparr>ibb_received_stanzas_not_acked := []\<rparr>
               else s1
           | None \<Rightarrow> s1)"

definition gabble_bytestream_ibb_close_received :: "nat \<Rightarrow> ibb \<Rightarrow> ibb" where
  "gabble_bytestream_ibb_close_received iq s =
     gabble_bytestream_ibb_close None (s\<lparr>ibb_close_iq_to_ack := Some iq\<rparr>)"

definition gabble_bytestream_ibb_dispose :: "ibb \<Rightarrow> ibb" where
  "gabble_bytestream_ibb_dispose s =
     (if ibb_dispose_has_run s then s
      else
        let s1 = s\<lparr>ibb_dispose_has_run := True\<rparr>;
            s2 = (if ibb_state s1 \<noteq> GABBLE_BYTESTREAM_STATE_CLOSED
                  then gabble_bytestream_ibb_close None s1 else s1)
        in (case ibb_close_iq_to_ack s2 of
              Some iq \<Rightarrow> (ibb_emit (IBB_ack_iq iq) s2)\<lparr>ibb_close_iq_to_ack := None\<rparr>
            | None \<Rightarrow> s2))"

section \<open>The operations as one step function\<close>

datatype ibb_op =
    IBB_Send bytes
  | IBB_Close cstring
  | IBB_Accept bool
  | IBB_Initiate bool
  | IBB_Block bool
  | IBB_Receive cstring "nat option"
  | IBB_CloseReceived nat
  | IBB_InitReply bool
  | IBB_Open nat "guint option"
  | IBB_IqReply nat bool
  | IBB_Dispose

fun ibb_step :: "(bytes \<Rightarrow> string) \<Rightarrow> (string \<Rightarrow> bytes) \<Rightarrow> ibb_op \<Rightarrow> ibb \<Rightarrow> ibb option" where
  "ibb_step enc dec (IBB_Send d) s = Some (snd (gabble_bytestream_ibb_send enc d s))"
| "ibb_step enc dec (IBB_Close e) s = Some (gabble_bytestream_ibb_close e s)"
| "ibb_step enc dec (IBB_Accept ok) s = Some (gabble_bytestream_ibb_accept ok s)"
| "ibb_step enc dec (IBB_Initiate ok) s = Some (snd (gabble_bytestream_ibb_initiate ok s))"
| "ibb_step enc dec (IBB_Block b) s = Some (gabble_bytestream_ibb_block_reading b s)"
| "ibb_step enc dec (IBB_Receive c iq) s = gabble_bytestream_ibb_receive dec c iq s"
| "ibb_step enc dec (IBB_CloseReceived iq) s = Some (gabble_bytestream_ibb_close_received iq s)"
| "ibb_step enc dec (IBB_InitReply e) s = Some (ibb_init_reply_cb e s)"
| "ibb_step enc dec (IBB_Open iq b) s = Some (ibb_handle_open iq b s)"
| "ibb_step enc dec (IBB_IqReply m ok) s = Some (iq_reply_cb enc m ok s)"
| "ibb_step enc dec IBB_Dispose s = Some (gabble_bytestream_ibb_dispose s)"

text \<open>Events the environment may deliver: a \<open>data\<close> element has text, and the answer to the \<open>open\<close>
  request arrives while the bytestream is still being initiated.\<close>

fun ibb_legal :: "ibb_op \<Rightarrow> ibb \<Rightarrow> bool" where
  "ibb_legal (IBB_Receive c iq) s \<longleftrightarrow> c \<noteq> None"
| "ibb_legal (IBB_InitReply e) s \<longleftrightarrow> ibb_state s = GABBLE_BYTESTREAM_STATE_INITIATING"
| "ibb_legal _ s \<longleftrightarrow> True"

text \<open>The bytes accepted from the user during a run: those of the calls to \<open>send\<close> that returned
  \<open>TRUE\<close>.\<close>

fun ibb_accepts :: "(bytes \<Rightarrow> string) \<Rightarrow> ibb_op \<Rightarrow> ibb \<Rightarrow> bytes" where
  "ibb_accepts enc (IBB_Send d) s = (if fst (gabble_bytestream_ibb_send enc d s) then d else [])"
| "ibb_accepts enc _ s = []"

primrec ibb_accepted ::
    "(bytes \<Rightarrow> string) \<Rightarrow> (string \<Rightarrow> bytes) \<Rightarrow> ibb_op list \<Rightarrow> ibb \<Rightarrow> bytes" where
  "ibb_accepted enc dec [] s = []"
| "ibb_accepted enc dec (x # xs) s =
     ibb_accepts enc x s
     @ (case ibb_step enc dec x s of None \<Rightarrow> [] | Some s' \<Rightarrow> ibb_accepted enc dec xs s')"

text \<open>The bytes that reached the open bytestream in \<open>data\<close> elements during a run.\<close>

fun ibb_arrives :: "(string \<Rightarrow> bytes) \<Rightarrow> ibb_op \<Rightarrow> ibb \<Rightarrow> bytes" where
  "ibb_arrives dec (IBB_Receive (Some c) iq) s =
     (if ibb_state s = GABBLE_BYTESTREAM_STATE_OPEN then dec c else [])"
| "ibb_arrives dec _ s = []"

primrec ibb_arrived ::
    "(bytes \<Rightarrow> string) \<Rightarrow> (string \<Rightarrow> bytes) \<Rightarrow> ibb_op list \<Rightarrow> ibb \<Rightarrow> bytes" where
  "ibb_arrived enc dec [] s = []"
| "ibb_arrived enc dec (x # xs) s =
     ibb_arrives dec x s
     @ (case ibb_step enc dec x s of None \<Rightarrow> [] | Some s' \<Rightarrow> ibb_arrived enc dec xs s')"

text \<open>The bytes waiting in the two buffers.\<close>

definition ibb_unsent :: "ibb \<Rightarrow> bytes" where
  "ibb_unsent s = (case ibb_write_buffer s of None \<Rightarrow> [] | Some b \<Rightarrow> b)"

definition ibb_unread :: "ibb \<Rightarrow> bytes" where
  "ibb_unread s = (case ibb_read_buffer s of None \<Rightarrow> [] | Some b \<Rightarrow> b)"

lemmas ibb_op_defs =
  ibb_set_state_def ibb_change_write_blocked_state_def send_close_stanza_def
  gabble_bytestream_ibb_decline_def gabble_bytestream_ibb_close_def
  gabble_bytestream_ibb_accept_def ibb_init_reply_cb_def gabble_bytestream_ibb_initiate_def
  ibb_handle_open_def
  gabble_bytestream_ibb_block_reading_def gabble_bytestream_ibb_close_received_def
  gabble_bytestream_ibb_dispose_def gabble_bytestream_ibb_receive_def ibb_receive_bytes_def
  Let_def

section \<open>Reading the trace\<close>

fun ibb_payloads :: "ibb_event list \<Rightarrow> string list" where
  "ibb_payloads [] = []"
| "ibb_payloads (IBB_send_data i q p # es) = p # ibb_payloads es"
| "ibb_payloads (e # es) = ibb_payloads es"

fun ibb_seqs :: "ibb_event list \<Rightarrow> guint16 list" where
  "ibb_seqs [] = []"
| "ibb_seqs (IBB_send_data i q p # es) = q # ibb_seqs es"
| "ibb_seqs (e # es) = ibb_seqs es"

fun ibb_delivered :: "ibb_event list \<Rightarrow> bytes" where
  "ibb_delivered [] = []"
| "ibb_delivered (IBB_data_received d # es) = d @ ibb_delivered es"
| "ibb_delivered (e # es) = ibb_delivered es"

lemma ibb_payloads_append [simp]: "ibb_payloads (es @ fs) = ibb_payloads es @ ibb_payloads fs"
  by (induction es rule: ibb_payloads.induct) auto

lemma ibb_seqs_append [simp]: "ibb_seqs (es @ fs) = ibb_seqs es @ ibb_seqs fs"
  by (induction es rule: ibb_seqs.induct) auto

lemma ibb_delivered_append [simp]:
  "ibb_delivered (es @ fs) = ibb_delivered es @ ibb_delivered fs"
  by (induction es rule: ibb_delivered.induct) auto

lemma ibb_answers_silent [simp]:
  "ibb_payloads (map (\<lambda>iq. IBB_iq_error iq e) iqs) = []"
  "ibb_payloads (map IBB_ack_iq iqs) = []"
  "ibb_seqs (map (\<lambda>iq. IBB_iq_error iq e) iqs) = []"
  "ibb_seqs (map IBB_ack_iq iqs) = []"
  "ibb_delivered (map (\<lambda>iq. IBB_iq_error iq e) iqs) = []"
  "ibb_delivered (map IBB_ack_iq iqs) = []"
  by (induction iqs) auto

lemma ibb_emit_fields [simp]:
  "ibb_state (ibb_emit e s) = ibb_state s"
  "ibb_block_size (ibb_emit e s) = ibb_block_size s"
  "ibb_seq (ibb_emit e s) = ibb_seq s"
  "ibb_close_iq_to_ack (ibb_emit e s) = ibb_close_iq_to_ack s"
  "ibb_read_blocked (ibb_emit e s) = ibb_read_blocked s"
  "ibb_read_buffer (ibb_emit e s) = ibb_read_buffer s"
  "ibb_received_stanzas_not_acked (ibb_emit e s) = ibb_received_stanzas_not_acked s"
  "ibb_sent_stanzas_not_acked (ibb_emit e s) = ibb_sent_stanzas_not_acked s"
  "ibb_write_buffer (ibb_emit e s) = ibb_write_buffer s"
  "ibb_write_blocked (ibb_emit e s) = ibb_write_blocked s"
  "ibb_next_stanza (ibb_emit e s) = ibb_next_stanza s"
  "ibb_dispose_has_run (ibb_emit e s) = ibb_dispose_has_run s"
  "ibb_trace (ibb_emit e s) = ibb_trace s @ [e]"
  by (simp_all add: ibb_emit_def)

lemma fold_ibb_emit [simp]:
  "fold (\<lambda>x. ibb_emit (f x)) xs s = s\<lparr>ibb_trace := ibb_trace s @ map f xs\<rparr>"
  by (induction xs arbitrary: s) (auto simp: ibb_emit_def)

section \<open>The sending loop\<close>

text \<open>Everything \<open>send_data\<close> does to the bytestream is to send some chunks; \<open>ibb_chunks\<close> says which
  lists of chunks it can be.\<close>

definition ibb_chunks :: "ibb \<Rightarrow> bytes \<Rightarrow> bytes list \<Rightarrow> bool" where
  "ibb_chunks s rest cs \<longleftrightarrow>
     (\<exists>tl. rest = concat cs @ tl
        \<and> (tl = [] \<or> WINDOW_SIZE \<le> length (ibb_sent_stanzas_not_acked s) + length cs))
     \<and> (\<forall>c \<in> set cs. length c \<le> unat (ibb_block_size s))
     \<and> (cs = [] \<or> length (ibb_sent_stanzas_not_acked s) + length cs \<le> WINDOW_SIZE)
     \<and> (0 < ibb_block_size s \<longrightarrow> [] \<notin> set cs)"

lemma send_data_loop_chunks:
  "send_data_loop enc s rest sent = (s', n) \<Longrightarrow>
   \<exists>cs. s' = fold (ibb_send_one enc) cs s \<and> n = sent + length (concat cs) \<and> ibb_chunks s rest cs"
proof (induction enc s rest sent arbitrary: s' n rule: send_data_loop.induct)
  case (1 enc s rest sent)
  let ?w = "length (ibb_sent_stanzas_not_acked s)"
  show ?case
  proof (cases "rest = [] \<or> WINDOW_SIZE \<le> ?w")
    case True
    with "1.prems" have "s' = s \<and> n = sent"
      by (auto simp: send_data_loop.simps [of enc s rest sent] split: if_splits)
    with True show ?thesis
      by (intro exI [of _ "[]"]) (auto simp: ibb_chunks_def)
  next
    case False
    define k where "k = (if unat (ibb_block_size s) < length rest
                         then unat (ibb_block_size s) else length rest)"
    have k: "k \<le> unat (ibb_block_size s)" "k \<le> length rest" by (auto simp: k_def)
    from False "1.prems" have
      "send_data_loop enc (ibb_send_one enc (take k rest) s) (drop k rest) (sent + k) = (s', n)"
      by (simp add: send_data_loop.simps [of enc s rest sent] k_def Let_def)
    with "1.IH" False k_def obtain cs where cs:
        "s' = fold (ibb_send_one enc) cs (ibb_send_one enc (take k rest) s)"
        "n = sent + k + length (concat cs)"
        "ibb_chunks (ibb_send_one enc (take k rest) s) (drop k rest) cs"
      by blast
    from cs(3) obtain tl where tl: "drop k rest = concat cs @ tl"
        "tl = [] \<or> WINDOW_SIZE \<le> Suc ?w + length cs"
        "\<forall>c \<in> set cs. length c \<le> unat (ibb_block_size s)"
        "cs = [] \<or> Suc ?w + length cs \<le> WINDOW_SIZE"
        "0 < ibb_block_size s \<longrightarrow> [] \<notin> set cs"
      by (auto simp: ibb_chunks_def)
    from tl(1) have "rest = concat (take k rest # cs) @ tl"
      by (metis append_assoc append_take_drop_id concat.simps(2))
    moreover have "Suc ?w + length cs \<le> WINDOW_SIZE" using tl(4) False by auto
    moreover have "0 < ibb_block_size s \<longrightarrow> take k rest \<noteq> []"
      using False by (auto simp: k_def unat_gt_0)
    ultimately have "ibb_chunks s rest (take k rest # cs)"
      unfolding ibb_chunks_def using tl k by auto
    with cs k show ?thesis
      by (intro exI [of _ "take k rest # cs"]) auto
  qed
qed

lemma fold_ibb_send_one_fields [simp]:
  "ibb_state (fold (ibb_send_one enc) cs s) = ibb_state s"
  "ibb_block_size (fold (ibb_send_one enc) cs s) = ibb_block_size s"
  "ibb_write_buffer (fold (ibb_send_one enc) cs s) = ibb_write_buffer s"
  "ibb_write_blocked (fold (ibb_send_one enc) cs s) = ibb_write_blocked s"
  "ibb_read_blocked (fold (ibb_send_one enc) cs s) = ibb_read_blocked s"
  "ibb_read_buffer (fold (ibb_send_one enc) cs s) = ibb_read_buffer s"
  "ibb_received_stanzas_not_acked (fold (ibb_send_one enc) cs s) =
     ibb_received_stanzas_not_acked s"
  "ibb_close_iq_to_ack (fold (ibb_send_one enc) cs s) = ibb_close_iq_to_ack s"
  "ibb_seq (fold (ibb_send_one enc) cs s) = ibb_seq s + of_nat (length cs)"
  "length (ibb_sent_stanzas_not_acked (fold (ibb_send_one enc) cs s)) =
     length (ibb_sent_stanzas_not_acked s) + length cs"
  "ibb_payloads (ibb_trace (fold (ibb_send_one enc) cs s)) =
     ibb_payloads (ibb_trace s) @ map enc cs"
  "ibb_seqs (ibb_trace (fold (ibb_send_one enc) cs s)) =
     ibb_seqs (ibb_trace s) @ map (\<lambda>i. ibb_seq s + of_nat i) [0..<length cs]"
  "ibb_delivered (ibb_trace (fold (ibb_send_one enc) cs s)) = ibb_delivered (ibb_trace s)"
  by (induction cs arbitrary: s)
    (simp_all add: map_upt_Suc algebra_simps del: upt_Suc)


lemma set_fold_ibb_send_one_trace [simp]:
  "IBB_send_close \<in> set (ibb_trace (fold (ibb_send_one enc) cs s))
     \<longleftrightarrow> IBB_send_close \<in> set (ibb_trace s)"
  by (induction cs arbitrary: s) auto

section \<open>The invariant\<close>

definition ibb_window_ok :: "ibb \<Rightarrow> bool" where
  "ibb_window_ok s \<longleftrightarrow> length (ibb_sent_stanzas_not_acked s) \<le> WINDOW_SIZE"

definition ibb_write_ok :: "ibb \<Rightarrow> bool" where
  "ibb_write_ok s \<longleftrightarrow>
     (ibb_write_blocked s \<longleftrightarrow> ibb_write_buffer s \<noteq> None)
     \<and> (ibb_write_buffer s \<noteq> None \<longrightarrow>
          ibb_state s = GABBLE_BYTESTREAM_STATE_OPEN \<or> ibb_state s = GABBLE_BYTESTREAM_STATE_CLOSING)
     \<and> (IBB_send_close \<in> set (ibb_trace s) \<longrightarrow> ibb_state s = GABBLE_BYTESTREAM_STATE_CLOSED)"

definition ibb_read_ok :: "ibb \<Rightarrow> bool" where
  "ibb_read_ok s \<longleftrightarrow>
     (case ibb_read_buffer s of
        None \<Rightarrow> ibb_received_stanzas_not_acked s = []
      | Some b \<Rightarrow> ibb_read_blocked s \<and> length b \<le> READ_BUFFER_MAX_SIZE)"

definition ibb_seq_ok :: "ibb \<Rightarrow> bool" where
  "ibb_seq_ok s \<longleftrightarrow>
     ibb_seqs (ibb_trace s) = map of_nat [0..<length (ibb_seqs (ibb_trace s))]
     \<and> ibb_seq s = of_nat (length (ibb_seqs (ibb_trace s)))"

definition ibb_inv :: "ibb \<Rightarrow> bool" where
  "ibb_inv s \<longleftrightarrow> ibb_window_ok s \<and> ibb_write_ok s \<and> ibb_read_ok s \<and> ibb_seq_ok s"

lemmas ibb_inv_defs = ibb_inv_def ibb_window_ok_def ibb_write_ok_def ibb_read_ok_def ibb_seq_ok_def

lemma ibb_inv_init: "ibb_inv (gabble_bytestream_ibb_init n st)"
  by (simp add: ibb_inv_defs gabble_bytestream_ibb_init_def)

lemma seqs_extend:
  assumes "qs = map of_nat [0..<length qs]"
  shows "qs @ map (\<lambda>i. of_nat (length qs) + of_nat i) [0..<k] =
         map (of_nat :: nat \<Rightarrow> guint16) [0..<length qs + k]"
proof -
  have "map (\<lambda>i. of_nat (length qs) + of_nat i) [0..<k] =
        map (of_nat :: nat \<Rightarrow> guint16) [length qs..<length qs + k]"
    by (rule nth_equalityI) auto
  moreover have "map (of_nat :: nat \<Rightarrow> guint16) [0..<length qs + k] =
      map of_nat [0..<length qs] @ map of_nat [length qs..<length qs + k]"
    by (simp add: upt_add_eq_append [of 0])
  ultimately show ?thesis using assms by metis
qed

lemma ibb_seq_ok_sent:
  assumes "ibb_seq_ok s" shows "ibb_seq_ok (fold (ibb_send_one enc) cs s)"
proof -
  let ?qs = "ibb_seqs (ibb_trace s)"
  from assms have "?qs = map of_nat [0..<length ?qs]" and q: "ibb_seq s = of_nat (length ?qs)"
    by (auto simp: ibb_seq_ok_def)
  from seqs_extend [OF this(1), of "length cs"] q show ?thesis
    unfolding ibb_seq_ok_def by simp
qed

text \<open>What \<open>send_data\<close> guarantees to its two callers.\<close>

lemma send_data_spec:
  assumes "send_data enc s str = (s', n)" and "ibb_window_ok s"
  obtains cs where "s' = fold (ibb_send_one enc) cs s" and "n = length (concat cs)"
    and "concat cs = take n str" and "n \<le> length str"
    and "\<forall>c \<in> set cs. length c \<le> unat (ibb_block_size s)"
    and "ibb_window_ok s'"
    and "n < length str \<Longrightarrow> length (ibb_sent_stanzas_not_acked s') = WINDOW_SIZE"
    and "0 < ibb_block_size s \<Longrightarrow> cs \<noteq> [] \<Longrightarrow> 0 < n"
proof -
  from assms(1) obtain cs where cs: "s' = fold (ibb_send_one enc) cs s" "n = length (concat cs)"
      "ibb_chunks s str cs"
    using send_data_loop_chunks [of enc s str 0] unfolding send_data_def by fastforce
  from cs(3) obtain tl where tl: "str = concat cs @ tl"
      "tl = [] \<or> WINDOW_SIZE \<le> length (ibb_sent_stanzas_not_acked s) + length cs"
    by (auto simp: ibb_chunks_def)
  have win: "ibb_window_ok s'"
    using cs assms(2) by (auto simp: ibb_chunks_def ibb_window_ok_def)
  show ?thesis
  proof (rule that)
    show "n < length str \<Longrightarrow> length (ibb_sent_stanzas_not_acked s') = WINDOW_SIZE"
      using tl cs win by (auto simp: ibb_window_ok_def)
    show "0 < ibb_block_size s \<Longrightarrow> cs \<noteq> [] \<Longrightarrow> 0 < n"
      using cs by (cases cs) (auto simp: ibb_chunks_def)
  qed (use cs tl win in \<open>auto simp: ibb_chunks_def\<close>)
qed
section \<open>Every operation keeps the invariant\<close>

lemma ibb_close_inv: "ibb_inv s \<Longrightarrow> ibb_inv (gabble_bytestream_ibb_close err s)"
  by (cases "ibb_state s")
    (auto simp: ibb_inv_defs ibb_op_defs split: option.splits)

lemma ibb_block_inv: "ibb_inv s \<Longrightarrow> ibb_inv (gabble_bytestream_ibb_block_reading b s)"
  by (auto simp: ibb_inv_defs ibb_op_defs split: option.splits)

lemma ibb_state_inv:
  "ibb_inv s \<Longrightarrow> ibb_inv (gabble_bytestream_ibb_accept ok s)"
  "ibb_inv s \<Longrightarrow> ibb_inv (snd (gabble_bytestream_ibb_initiate ok s))"
  "ibb_inv s \<Longrightarrow> ibb_state s = GABBLE_BYTESTREAM_STATE_INITIATING \<Longrightarrow>
     ibb_inv (ibb_init_reply_cb e s)"
  "ibb_inv s \<Longrightarrow> ibb_inv (ibb_handle_open iq bs s)"
  by (auto simp: ibb_inv_defs ibb_op_defs split: option.splits)

lemma ibb_inv_more:
  "ibb_inv s \<Longrightarrow> ibb_inv (s\<lparr>ibb_close_iq_to_ack := c\<rparr>)"
  "ibb_inv s \<Longrightarrow> ibb_inv (s\<lparr>ibb_dispose_has_run := b\<rparr>)"
  "ibb_inv s \<Longrightarrow>
     ibb_inv (s\<lparr>ibb_sent_stanzas_not_acked := remove1 m (ibb_sent_stanzas_not_acked s)\<rparr>)"
  "ibb_inv s \<Longrightarrow> ibb_inv (ibb_emit (IBB_ack_iq iq) s)"
  "ibb_inv s \<Longrightarrow> ibb_inv (ibb_emit (IBB_iq_error iq e) s)"
  "ibb_inv s \<Longrightarrow> ibb_inv (ibb_emit (IBB_data_received d) s)"
  by (auto simp: ibb_inv_defs length_remove1 split: option.splits)

lemma ibb_dispose_inv: "ibb_inv s \<Longrightarrow> ibb_inv (gabble_bytestream_ibb_dispose s)"
  by (auto simp: gabble_bytestream_ibb_dispose_def Let_def
      intro!: ibb_inv_more ibb_close_inv split: option.splits)

lemma ibb_receive_inv:
  assumes "ibb_inv s" shows "ibb_inv (ibb_receive_bytes d iq s)"
proof (cases "ibb_read_blocked s \<and>
    \<not> READ_BUFFER_MAX_SIZE < (case ibb_read_buffer s of None \<Rightarrow> 0 | Some b \<Rightarrow> length b) + length d")
  case True
  with assms show ?thesis
    by (auto simp: ibb_receive_bytes_def Let_def ibb_inv_defs split: option.splits)
next
  case False
  with assms show ?thesis
    by (auto simp: ibb_receive_bytes_def Let_def intro!: ibb_inv_more ibb_close_inv
        split: option.splits)
qed

lemma ibb_send_inv:
  assumes "ibb_inv s" shows "ibb_inv (snd (gabble_bytestream_ibb_send enc d s))"
proof (cases "ibb_state s = GABBLE_BYTESTREAM_STATE_OPEN \<and> ibb_write_buffer s = None")
  case True
  obtain s1 n where e: "send_data enc s d = (s1, n)" by fastforce
  from assms have w: "ibb_window_ok s" by (simp add: ibb_inv_def)
  from send_data_spec [OF e w] obtain cs where
    cs: "s1 = fold (ibb_send_one enc) cs s" "ibb_window_ok s1" by metis
  with ibb_seq_ok_sent [of s enc cs] assms True e show ?thesis
    by (auto simp: gabble_bytestream_ibb_send_def ibb_inv_defs ibb_change_write_blocked_state_def
        split: option.splits)
next
  case False
  with assms show ?thesis
    by (auto simp: gabble_bytestream_ibb_send_def ibb_inv_defs split: option.splits)
qed

lemma ibb_reply_inv:
  assumes "ibb_inv s" shows "ibb_inv (iq_reply_cb enc m ok s)"
proof -
  let ?s = "s\<lparr>ibb_sent_stanzas_not_acked := remove1 m (ibb_sent_stanzas_not_acked s)\<rparr>"
  have inv: "ibb_inv ?s" using assms by (rule ibb_inv_more)
  show ?thesis
  proof (cases "ok \<and> ibb_write_buffer s \<noteq> None")
    case True
    then obtain buf where buf: "ibb_write_buffer s = Some buf" by blast
    obtain s1 n where e: "send_data enc ?s (guint_prefix buf) = (s1, n)" by fastforce
    from inv have w: "ibb_window_ok ?s" by (simp add: ibb_inv_def)
    from send_data_spec [OF e w] obtain cs where
      cs: "s1 = fold (ibb_send_one enc) cs ?s" "ibb_window_ok s1" by metis
    with ibb_seq_ok_sent [of ?s enc cs] inv True e buf show ?thesis
      by (auto simp: iq_reply_cb_def ibb_inv_defs ibb_op_defs split: option.splits)
  next
    case False
    with inv show ?thesis by (auto simp: iq_reply_cb_def ibb_close_inv Let_def)
  qed
qed

interpretation ibb_sys: safe_system ibb_legal "ibb_step enc dec" ibb_inv
  for enc :: "bytes \<Rightarrow> string" and dec :: "string \<Rightarrow> bytes"
proof
  fix s x
  assume "ibb_inv s" and "ibb_legal x s"
  then show "\<exists>s'. ibb_step enc dec x s = Some s' \<and> ibb_inv s'"
    by (cases x)
      (auto simp: gabble_bytestream_ibb_receive_def gabble_bytestream_ibb_close_received_def
        intro!: ibb_send_inv ibb_close_inv ibb_state_inv ibb_block_inv ibb_receive_inv
          ibb_reply_inv ibb_dispose_inv ibb_inv_more split: option.splits)
qed

section \<open>The bytestream contract\<close>

lemma ibb_send_open_state:
  "gabble_bytestream_ibb_send enc d s = (r, s') \<Longrightarrow>
   ibb_state s = GABBLE_BYTESTREAM_STATE_OPEN \<Longrightarrow> ibb_state s' = GABBLE_BYTESTREAM_STATE_OPEN"
  using send_data_loop_chunks [of enc s d 0]
  by (fastforce simp: gabble_bytestream_ibb_send_def send_data_def
      ibb_change_write_blocked_state_def split: option.splits prod.splits if_splits)

interpretation ibb_stream: bytestream ibb_state
  "\<lambda>d s r s'. gabble_bytestream_ibb_send enc d s = (r, s')"
  "\<lambda>s s'. s' = gabble_bytestream_ibb_close err s"
  for enc :: "bytes \<Rightarrow> string" and err :: cstring
proof
  fix d s r s'
  assume "gabble_bytestream_ibb_send enc d s = (r, s')"
    and "ibb_state s \<noteq> GABBLE_BYTESTREAM_STATE_OPEN"
  then show "\<not> r \<and> s' = s" by (auto simp: gabble_bytestream_ibb_send_def)
next
  fix s s'
  assume "s' = gabble_bytestream_ibb_close err s"
  then show "ibb_state s' \<in> {GABBLE_BYTESTREAM_STATE_CLOSING, GABBLE_BYTESTREAM_STATE_CLOSED}"
    by (auto simp: ibb_op_defs split: option.splits)
qed (auto simp: ibb_send_open_state gabble_bytestream_ibb_close_def)

section \<open>What the operations do to the two byte streams\<close>

definition ibb_sent :: "(string \<Rightarrow> bytes) \<Rightarrow> ibb \<Rightarrow> bytes" where
  "ibb_sent dec s = concat (map dec (ibb_payloads (ibb_trace s)))"

lemma ibb_sent_fold:
  assumes "\<And>x. dec (enc x) = x"
  shows "ibb_sent dec (fold (ibb_send_one enc) cs s) = ibb_sent dec s @ concat cs"
proof -
  have "map (dec \<circ> enc) cs = cs" using assms by (simp add: map_idI)
  then show ?thesis by (simp add: ibb_sent_def)
qed

lemma ibb_close_streams [simp]:
  "ibb_payloads (ibb_trace (gabble_bytestream_ibb_close err s)) = ibb_payloads (ibb_trace s)"
  "ibb_write_buffer (gabble_bytestream_ibb_close err s) = ibb_write_buffer s"
  "ibb_delivered (ibb_trace (gabble_bytestream_ibb_close err s)) = ibb_delivered (ibb_trace s)"
  "ibb_read_buffer (gabble_bytestream_ibb_close err s) = ibb_read_buffer s"
  "ibb_block_size (gabble_bytestream_ibb_close err s) = ibb_block_size s"
  by (auto simp: ibb_op_defs split: option.splits)

lemma ibb_send_stream:
  assumes "\<And>x. dec (enc x) = x" and "ibb_inv s"
    and "gabble_bytestream_ibb_send enc d s = (r, s')"
  shows "ibb_sent dec s' @ ibb_unsent s' =
         ibb_sent dec s @ ibb_unsent s @ (if r then d else [])"
proof (cases "ibb_state s = GABBLE_BYTESTREAM_STATE_OPEN \<and> ibb_write_buffer s = None")
  case True
  obtain s1 n where e: "send_data enc s d = (s1, n)" by fastforce
  from assms(2) have "ibb_window_ok s" by (simp add: ibb_inv_def)
  from send_data_spec [OF e this] obtain cs where
    cs: "s1 = fold (ibb_send_one enc) cs s" "concat cs = take n d" "n \<le> length d" by metis
  have "ibb_sent dec s1 = ibb_sent dec s @ take n d"
    using ibb_sent_fold [of dec enc cs s] assms(1) cs by simp
  with True e cs assms(3) show ?thesis
    by (auto simp: gabble_bytestream_ibb_send_def ibb_sent_def ibb_unsent_def
        ibb_change_write_blocked_state_def split: if_splits)
next
  case False
  with assms(3) show ?thesis
    by (auto simp: gabble_bytestream_ibb_send_def ibb_sent_def ibb_unsent_def
        split: if_splits option.splits)
qed

lemma guint_prefix_take: "n \<le> length (guint_prefix b) \<Longrightarrow> take n (guint_prefix b) = take n b"
  unfolding guint_prefix_def by (simp add: min.absorb1)

lemma ibb_reply_stream:
  assumes "\<And>x. dec (enc x) = x" and "ibb_inv s"
  shows "ibb_sent dec (iq_reply_cb enc m ok s) @ ibb_unsent (iq_reply_cb enc m ok s) =
         ibb_sent dec s @ ibb_unsent s"
proof -
  let ?s = "s\<lparr>ibb_sent_stanzas_not_acked := remove1 m (ibb_sent_stanzas_not_acked s)\<rparr>"
  show ?thesis
  proof (cases "ok \<and> ibb_write_buffer s \<noteq> None")
    case True
    then obtain buf where buf: "ibb_write_buffer s = Some buf" by blast
    obtain s1 n where e: "send_data enc ?s (guint_prefix buf) = (s1, n)" by fastforce
    have w: "ibb_window_ok ?s" using ibb_inv_more(3) [OF assms(2), of m] by (simp add: ibb_inv_def)
    from send_data_spec [OF e w] obtain cs where
      cs: "s1 = fold (ibb_send_one enc) cs ?s" "concat cs = take n (guint_prefix buf)"
        "n \<le> length (guint_prefix buf)" by metis
    then have c: "concat cs = take n buf" using guint_prefix_take by metis
    have "ibb_sent dec s1 = ibb_sent dec s @ take n buf"
      using ibb_sent_fold [of dec enc cs ?s] assms(1) cs(1) c by (simp add: ibb_sent_def)
    with True e cs buf show ?thesis
      by (auto simp: iq_reply_cb_def ibb_sent_def ibb_unsent_def ibb_op_defs split: option.splits)
  next
    case False
    then show ?thesis by (auto simp: iq_reply_cb_def Let_def ibb_sent_def ibb_unsent_def)
  qed
qed

lemma ibb_step_stream:
  assumes "\<And>x. dec (enc x) = x" and "ibb_inv s" and "ibb_step enc dec x s = Some s'"
  shows "ibb_sent dec s' @ ibb_unsent s' = ibb_sent dec s @ ibb_unsent s @ ibb_accepts enc x s"
proof (cases x)
  case (IBB_Send d)
  with assms show ?thesis
    using ibb_send_stream [of dec enc s d] by (cases "gabble_bytestream_ibb_send enc d s") auto
next
  case (IBB_IqReply m ok)
  with assms show ?thesis using ibb_reply_stream [of dec enc s m ok] by auto
next
  case (IBB_Receive c iq)
  with assms(3) show ?thesis
    by (auto simp: gabble_bytestream_ibb_receive_def ibb_receive_bytes_def Let_def ibb_sent_def
        ibb_unsent_def split: if_splits option.splits)
qed (use assms(3) in \<open>auto simp: ibb_op_defs ibb_sent_def ibb_unsent_def
      split: if_splits option.splits\<close>)

lemma ibb_run_stream:
  assumes "\<And>x. dec (enc x) = x"
  shows "ibb_inv s \<Longrightarrow> legal_run ibb_legal (ibb_step enc dec) xs s \<Longrightarrow>
     run (ibb_step enc dec) xs s = Some s' \<Longrightarrow>
     ibb_sent dec s' @ ibb_unsent s' =
     ibb_sent dec s @ ibb_unsent s @ ibb_accepted enc dec xs s"
proof (induction xs arbitrary: s)
  case Nil
  then show ?case by simp
next
  case (Cons x xs)
  from Cons.prems obtain s1 where s1: "ibb_step enc dec x s = Some s1"
      "run (ibb_step enc dec) xs s1 = Some s'"
    by (auto simp: bind_eq_Some_conv)
  moreover have "ibb_inv s1"
    using Cons.prems s1 ibb_sys.step_inv [of s x enc dec s1] by simp
  ultimately show ?case
    using Cons.prems Cons.IH [of s1] ibb_step_stream [of dec enc s x s1] assms by auto
qed

text \<open>The receiving side: bytes are delivered in the order they arrived, and only a full buffer,
  which shuts the bytestream, makes the code drop any.\<close>

lemma send_data_is_fold:
  obtains cs where "fst (send_data enc s d) = fold (ibb_send_one enc) cs s"
  using send_data_loop_chunks [of enc s d 0]
  by (cases "send_data enc s d") (auto simp: send_data_def)

lemma ibb_send_read [simp]:
  "ibb_read_buffer (snd (gabble_bytestream_ibb_send enc d s)) = ibb_read_buffer s"
  "ibb_delivered (ibb_trace (snd (gabble_bytestream_ibb_send enc d s))) =
     ibb_delivered (ibb_trace s)"
  "ibb_received_stanzas_not_acked (snd (gabble_bytestream_ibb_send enc d s)) =
     ibb_received_stanzas_not_acked s"
proof -
  obtain cs where "fst (send_data enc s d) = fold (ibb_send_one enc) cs s"
    by (rule send_data_is_fold)
  then show
    "ibb_read_buffer (snd (gabble_bytestream_ibb_send enc d s)) = ibb_read_buffer s"
    "ibb_delivered (ibb_trace (snd (gabble_bytestream_ibb_send enc d s))) =
       ibb_delivered (ibb_trace s)"
    "ibb_received_stanzas_not_acked (snd (gabble_bytestream_ibb_send enc d s)) =
       ibb_received_stanzas_not_acked s"
    by (auto simp: gabble_bytestream_ibb_send_def ibb_change_write_blocked_state_def
        split: option.splits prod.splits)
qed

lemma ibb_reply_read [simp]:
  "ibb_read_buffer (iq_reply_cb enc m ok s) = ibb_read_buffer s"
  "ibb_delivered (ibb_trace (iq_reply_cb enc m ok s)) = ibb_delivered (ibb_trace s)"
proof -
  let ?s = "s\<lparr>ibb_sent_stanzas_not_acked := remove1 m (ibb_sent_stanzas_not_acked s)\<rparr>"
  obtain cs where "ibb_write_buffer s = Some buf \<Longrightarrow>
      fst (send_data enc ?s (guint_prefix buf)) = fold (ibb_send_one enc) cs ?s" for buf
    using send_data_is_fold [of enc ?s "guint_prefix (the (ibb_write_buffer s))"]
    by (metis option.sel)
  then show
    "ibb_read_buffer (iq_reply_cb enc m ok s) = ibb_read_buffer s"
    "ibb_delivered (ibb_trace (iq_reply_cb enc m ok s)) = ibb_delivered (ibb_trace s)"
    by (auto simp: iq_reply_cb_def Let_def ibb_set_state_def ibb_change_write_blocked_state_def
        send_close_stanza_def split: option.splits prod.splits)
qed

lemma ibb_step_read:
  assumes "ibb_inv s" and "ibb_step enc dec x s = Some s'"
  shows "ibb_delivered (ibb_trace s') @ ibb_unread s' =
           ibb_delivered (ibb_trace s) @ ibb_unread s @ ibb_arrives dec x s
       \<or> ibb_delivered (ibb_trace s') @ ibb_unread s' =
           ibb_delivered (ibb_trace s) @ ibb_unread s
         \<and> ibb_state s' \<in> {GABBLE_BYTESTREAM_STATE_CLOSING, GABBLE_BYTESTREAM_STATE_CLOSED}"
proof (cases x)
  case (IBB_Receive c iq)
  have "ibb_state (gabble_bytestream_ibb_close None t) \<in>
      {GABBLE_BYTESTREAM_STATE_CLOSING, GABBLE_BYTESTREAM_STATE_CLOSED}" for t
    by (rule ibb_stream.close_shuts) simp
  moreover have "ibb_read_ok s" using assms(1) by (simp add: ibb_inv_def)
  ultimately show ?thesis using IBB_Receive assms(2)
    by (cases c) (auto simp: gabble_bytestream_ibb_receive_def ibb_receive_bytes_def Let_def
      ibb_unread_def ibb_read_ok_def split: if_splits option.splits)
next
  case (IBB_Send d)
  with assms show ?thesis by (auto simp: ibb_unread_def)
next
  case (IBB_IqReply m ok)
  with assms show ?thesis by (auto simp: ibb_unread_def)
qed (use assms(2) in \<open>auto simp: ibb_op_defs ibb_unread_def
      split: if_splits option.splits\<close>)

text \<open>A bytestream that has started to shut down stays shut, and takes no more data.\<close>

definition ibb_shut :: "ibb \<Rightarrow> bool" where
  "ibb_shut s \<longleftrightarrow>
     ibb_state s = GABBLE_BYTESTREAM_STATE_CLOSING \<or> ibb_state s = GABBLE_BYTESTREAM_STATE_CLOSED"

lemma ibb_reply_state:
  "ibb_state (iq_reply_cb enc m ok s) = ibb_state s \<or> ibb_shut (iq_reply_cb enc m ok s)"
proof -
  let ?s = "s\<lparr>ibb_sent_stanzas_not_acked := remove1 m (ibb_sent_stanzas_not_acked s)\<rparr>"
  obtain cs where "ibb_write_buffer s = Some buf \<Longrightarrow>
      fst (send_data enc ?s (guint_prefix buf)) = fold (ibb_send_one enc) cs ?s" for buf
    using send_data_is_fold [of enc ?s "guint_prefix (the (ibb_write_buffer s))"]
    by (metis option.sel)
  moreover have "ibb_shut (gabble_bytestream_ibb_close None ?s)"
    using ibb_stream.close_shuts [of "gabble_bytestream_ibb_close None ?s" None ?s]
    by (auto simp: ibb_shut_def)
  ultimately show ?thesis
    by (auto simp: iq_reply_cb_def Let_def ibb_set_state_def ibb_change_write_blocked_state_def
        send_close_stanza_def ibb_shut_def split: option.splits prod.splits)
qed

lemma ibb_step_shut:
  assumes "ibb_shut s" and "ibb_legal x s" and "ibb_step enc dec x s = Some s'"
  shows "ibb_shut s' \<and> ibb_arrives dec x s = [] \<and> ibb_accepts enc x s = []"
proof (cases x)
  case (IBB_IqReply m ok)
  with assms show ?thesis using ibb_reply_state [of enc m ok s] by (auto simp: ibb_shut_def)
next
  case (IBB_Send d)
  with assms show ?thesis by (auto simp: ibb_shut_def gabble_bytestream_ibb_send_def)
next
  case (IBB_Receive c iq)
  with assms show ?thesis
    by (cases c) (auto simp: ibb_shut_def gabble_bytestream_ibb_receive_def split: if_splits option.splits)
qed (use assms in \<open>auto simp: ibb_op_defs ibb_shut_def split: if_splits option.splits\<close>)

lemma ibb_shut_arrives: "ibb_shut s \<Longrightarrow> ibb_arrives dec x s = []"
  by (cases "(dec, x, s)" rule: ibb_arrives.cases) (auto simp: ibb_shut_def)

lemma ibb_shut_arrived:
  "ibb_shut s \<Longrightarrow> legal_run ibb_legal (ibb_step enc dec) xs s \<Longrightarrow> ibb_arrived enc dec xs s = []"
  by (induction xs arbitrary: s) (auto simp: ibb_shut_arrives dest: ibb_step_shut split: option.splits)

lemma ibb_run_read:
  "ibb_inv s \<Longrightarrow> legal_run ibb_legal (ibb_step enc dec) xs s \<Longrightarrow>
   run (ibb_step enc dec) xs s = Some s' \<Longrightarrow>
   \<exists>d. ibb_delivered (ibb_trace s') @ ibb_unread s' = ibb_delivered (ibb_trace s) @ ibb_unread s @ d
     \<and> prefix d (ibb_arrived enc dec xs s)
     \<and> (\<not> ibb_shut s' \<longrightarrow> d = ibb_arrived enc dec xs s)"
proof (induction xs arbitrary: s)
  case Nil
  then show ?case by simp
next
  case (Cons x xs)
  from Cons.prems obtain s1 where s1: "ibb_step enc dec x s = Some s1"
      "run (ibb_step enc dec) xs s1 = Some s'" "ibb_legal x s"
      "legal_run ibb_legal (ibb_step enc dec) xs s1"
    by (auto simp: bind_eq_Some_conv)
  have "ibb_inv s1" using Cons.prems s1 ibb_sys.step_inv [of s x enc dec s1] by simp
  with Cons.IH [of s1] s1 obtain d where d:
      "ibb_delivered (ibb_trace s') @ ibb_unread s' =
         ibb_delivered (ibb_trace s1) @ ibb_unread s1 @ d"
      "prefix d (ibb_arrived enc dec xs s1)" "\<not> ibb_shut s' \<longrightarrow> d = ibb_arrived enc dec xs s1"
    by auto
  from ibb_step_read [OF Cons.prems(1) s1(1)] show ?case
  proof
    assume "ibb_delivered (ibb_trace s1) @ ibb_unread s1 =
        ibb_delivered (ibb_trace s) @ ibb_unread s @ ibb_arrives dec x s"
    with d s1 show ?thesis by (intro exI [of _ "ibb_arrives dec x s @ d"]) auto
  next
    assume a: "ibb_delivered (ibb_trace s1) @ ibb_unread s1 =
        ibb_delivered (ibb_trace s) @ ibb_unread s
      \<and> ibb_state s1 \<in> {GABBLE_BYTESTREAM_STATE_CLOSING, GABBLE_BYTESTREAM_STATE_CLOSED}"
    then have shut: "ibb_shut s1" by (auto simp: ibb_shut_def)
    have "ibb_shut s'"
      using shut s1(2,4)
      by (induction xs arbitrary: s1) (auto dest: ibb_step_shut simp: bind_eq_Some_conv)
    moreover have "d = []" using d(2) ibb_shut_arrived [OF shut s1(4)] by simp
    ultimately show ?thesis using a d(1) by (intro exI [of _ "[]"]) auto
  qed
qed

section \<open>Answers to incoming requests\<close>

text \<open>The data stanzas that asked for an answer, and the answers given, as the identifiers of the
  stanzas.\<close>

fun ibb_answers :: "ibb_event list \<Rightarrow> nat list" where
  "ibb_answers [] = []"
| "ibb_answers (IBB_ack_iq i # es) = i # ibb_answers es"
| "ibb_answers (IBB_iq_error i e # es) = i # ibb_answers es"
| "ibb_answers (e # es) = ibb_answers es"

lemma ibb_answers_append [simp]: "ibb_answers (es @ fs) = ibb_answers es @ ibb_answers fs"
  by (induction es rule: ibb_answers.induct) auto

lemma ibb_answers_map [simp]:
  "ibb_answers (map (\<lambda>iq. IBB_iq_error iq e) iqs) = iqs"
  "ibb_answers (map IBB_ack_iq iqs) = iqs"
  by (induction iqs) auto

lemma ibb_answers_sent [simp]:
  "ibb_answers (ibb_trace (fold (ibb_send_one enc) cs s)) = ibb_answers (ibb_trace s)"
  by (induction cs arbitrary: s) auto

text \<open>The number of data requests with identifier \<open>i\<close> among the events of a run, and of the requests
  of other kinds (\<open>open\<close>, \<open>close\<close>).\<close>

fun ibb_is_data_request :: "nat \<Rightarrow> ibb_op \<Rightarrow> bool" where
  "ibb_is_data_request i (IBB_Receive c (Some j)) \<longleftrightarrow> i = j"
| "ibb_is_data_request i _ \<longleftrightarrow> False"

fun ibb_is_other_request :: "nat \<Rightarrow> ibb_op \<Rightarrow> bool" where
  "ibb_is_other_request i (IBB_Open j b) \<longleftrightarrow> i = j"
| "ibb_is_other_request i (IBB_CloseReceived j) \<longleftrightarrow> i = j"
| "ibb_is_other_request i _ \<longleftrightarrow> False"

definition ibb_answer_count :: "nat \<Rightarrow> ibb \<Rightarrow> nat" where
  "ibb_answer_count i s =
     count_list (ibb_answers (ibb_trace s)) i + count_list (ibb_received_stanzas_not_acked s) i"

lemma ibb_close_count:
  assumes "ibb_close_iq_to_ack s \<noteq> Some i"
  shows "ibb_answer_count i (gabble_bytestream_ibb_close err s) = ibb_answer_count i s
    \<and> ibb_close_iq_to_ack (gabble_bytestream_ibb_close err s) \<noteq> Some i"
  using assms
  by (auto simp: ibb_answer_count_def ibb_op_defs count_list_rev count_list_append split: option.splits)

lemma ibb_send_count:
  "ibb_answer_count i (snd (gabble_bytestream_ibb_send enc d s)) = ibb_answer_count i s"
  "ibb_close_iq_to_ack (snd (gabble_bytestream_ibb_send enc d s)) = ibb_close_iq_to_ack s"
proof -
  obtain cs where "fst (send_data enc s d) = fold (ibb_send_one enc) cs s"
    by (rule send_data_is_fold)
  then show
    "ibb_answer_count i (snd (gabble_bytestream_ibb_send enc d s)) = ibb_answer_count i s"
    "ibb_close_iq_to_ack (snd (gabble_bytestream_ibb_send enc d s)) = ibb_close_iq_to_ack s"
    by (auto simp: gabble_bytestream_ibb_send_def ibb_change_write_blocked_state_def
        ibb_answer_count_def split: option.splits prod.splits)
qed

lemma ibb_reply_count:
  assumes "ibb_close_iq_to_ack s \<noteq> Some i"
  shows "ibb_answer_count i (iq_reply_cb enc m ok s) = ibb_answer_count i s
    \<and> ibb_close_iq_to_ack (iq_reply_cb enc m ok s) \<noteq> Some i"
proof -
  let ?s = "s\<lparr>ibb_sent_stanzas_not_acked := remove1 m (ibb_sent_stanzas_not_acked s)\<rparr>"
  obtain cs where "ibb_write_buffer s = Some buf \<Longrightarrow>
      fst (send_data enc ?s (guint_prefix buf)) = fold (ibb_send_one enc) cs ?s" for buf
    using send_data_is_fold [of enc ?s "guint_prefix (the (ibb_write_buffer s))"]
    by (metis option.sel)
  moreover have "ibb_answer_count i ?s = ibb_answer_count i s" by (simp add: ibb_answer_count_def)
  ultimately show ?thesis
    using ibb_close_count [of ?s i] assms
    by (auto simp: iq_reply_cb_def Let_def ibb_set_state_def ibb_change_write_blocked_state_def
        send_close_stanza_def ibb_answer_count_def split: option.splits prod.splits)
qed

lemma ibb_receive_count:
  assumes "ibb_close_iq_to_ack s \<noteq> Some i"
    and "gabble_bytestream_ibb_receive dec c iq s = Some s'"
  shows "ibb_answer_count i s' = ibb_answer_count i s + (if iq = Some i then 1 else 0)
    \<and> ibb_close_iq_to_ack s' \<noteq> Some i"
proof -
  have "ibb_answer_count i (ibb_emit (IBB_iq_error m e) s) =
      ibb_answer_count i s + (if m = i then 1 else 0)" for m e
    by (simp add: ibb_answer_count_def)
  moreover have "ibb_close_iq_to_ack (ibb_emit (IBB_iq_error m e) s) \<noteq> Some i" for m e
    using assms(1) by simp
  ultimately show ?thesis
    using assms ibb_close_count [of _ i]
    by (auto simp: gabble_bytestream_ibb_receive_def ibb_receive_bytes_def Let_def
        ibb_answer_count_def split: if_splits option.splits)
qed

lemma ibb_step_count:
  assumes "ibb_inv s" and "ibb_close_iq_to_ack s \<noteq> Some i" and "\<not> ibb_is_other_request i x"
    and "ibb_step enc dec x s = Some s'"
  shows "ibb_answer_count i s' = ibb_answer_count i s + (if ibb_is_data_request i x then 1 else 0)
    \<and> ibb_close_iq_to_ack s' \<noteq> Some i"
proof (cases x)
  case (IBB_Receive c iq)
  with assms ibb_receive_count [of s i dec c iq s'] show ?thesis by (cases iq) auto
next
  case (IBB_Block b)
  with assms show ?thesis
    by (auto simp: gabble_bytestream_ibb_block_reading_def ibb_answer_count_def Let_def
        count_list_rev split: if_splits option.splits)
next
  case IBB_Dispose
  with assms ibb_close_count [of "s\<lparr>ibb_dispose_has_run := True\<rparr>" i] show ?thesis
    by (auto simp: gabble_bytestream_ibb_dispose_def Let_def ibb_answer_count_def
        split: if_splits option.splits)
next
  case (IBB_CloseReceived j)
  with assms ibb_close_count [of "s\<lparr>ibb_close_iq_to_ack := Some j\<rparr>" i] show ?thesis
    by (auto simp: gabble_bytestream_ibb_close_received_def ibb_answer_count_def)
qed (use assms ibb_close_count [of s i] ibb_send_count ibb_reply_count [of s i] in
   \<open>auto simp: ibb_answer_count_def gabble_bytestream_ibb_accept_def ibb_set_state_def
     gabble_bytestream_ibb_initiate_def ibb_init_reply_cb_def ibb_handle_open_def Let_def
     split: if_splits option.splits\<close>)

lemma ibb_run_count:
  "ibb_inv s \<Longrightarrow> legal_run ibb_legal (ibb_step enc dec) xs s \<Longrightarrow>
   run (ibb_step enc dec) xs s = Some s' \<Longrightarrow> ibb_close_iq_to_ack s \<noteq> Some i \<Longrightarrow>
   filter (ibb_is_other_request i) xs = [] \<Longrightarrow>
   ibb_answer_count i s' = ibb_answer_count i s + length (filter (ibb_is_data_request i) xs)"
proof (induction xs arbitrary: s)
  case Nil
  then show ?case by simp
next
  case (Cons x xs)
  from Cons.prems obtain s1 where s1: "ibb_step enc dec x s = Some s1"
      "run (ibb_step enc dec) xs s1 = Some s'"
    by (auto simp: bind_eq_Some_conv)
  have "ibb_inv s1" using Cons.prems s1 ibb_sys.step_inv [of s x enc dec s1] by simp
  moreover have "\<not> ibb_is_other_request i x" using Cons.prems by (auto split: if_splits)
  ultimately show ?case
    using Cons.prems Cons.IH [of s1] s1 ibb_step_count [of s i x enc dec s1]
    by (auto split: if_splits)
qed

section \<open>Progress\<close>

lemma ibb_reply_progress:
  fixes enc :: "bytes \<Rightarrow> string"
  assumes "ibb_inv s" and buf: "ibb_write_buffer s = Some buf" and "length buf < 2 ^ 32"
    and "0 < ibb_block_size s" and m: "m \<in> set (ibb_sent_stanzas_not_acked s)"
  defines "s' \<equiv> iq_reply_cb enc m True s"
  shows "ibb_write_buffer s' = None
       \<and> (ibb_state s = GABBLE_BYTESTREAM_STATE_CLOSING \<longrightarrow>
            ibb_state s' = GABBLE_BYTESTREAM_STATE_CLOSED \<and> IBB_send_close \<in> set (ibb_trace s'))
    \<or> (\<exists>buf'. ibb_write_buffer s' = Some buf' \<and> length buf' < length buf
       \<and> ibb_state s' = ibb_state s \<and> ibb_block_size s' = ibb_block_size s
       \<and> length (ibb_sent_stanzas_not_acked s') = WINDOW_SIZE)"
proof -
  let ?s = "s\<lparr>ibb_sent_stanzas_not_acked := remove1 m (ibb_sent_stanzas_not_acked s)\<rparr>"
  have p: "guint_prefix buf = buf" using assms(3) by (simp add: guint_prefix_def)
  obtain s1 n where e: "send_data enc ?s buf = (s1, n)" by fastforce
  have "ibb_window_ok s" using assms(1) by (simp add: ibb_inv_def)
  with m have less: "length (ibb_sent_stanzas_not_acked ?s) < WINDOW_SIZE"
    using length_remove1_less [OF m] by (simp add: ibb_window_ok_def)
  then have w: "ibb_window_ok ?s" by (simp add: ibb_window_ok_def)
  from send_data_spec [OF e w] obtain cs where
    cs: "s1 = fold (ibb_send_one enc) cs ?s" "n \<le> length buf"
      "n < length buf \<Longrightarrow> length (ibb_sent_stanzas_not_acked s1) = WINDOW_SIZE"
      "0 < ibb_block_size ?s \<Longrightarrow> cs \<noteq> [] \<Longrightarrow> 0 < n" by metis
  show ?thesis
  proof (cases "n = length buf")
    case True
    with e buf p cs(1) show ?thesis
      by (auto simp: s'_def iq_reply_cb_def ibb_op_defs split: option.splits)
  next
    case False
    with cs have "length (ibb_sent_stanzas_not_acked s1) = WINDOW_SIZE" by simp
    with less cs(1) have "cs \<noteq> []" by auto
    with cs(4) assms(4) have "0 < n" by simp
    with False e buf p cs show ?thesis by (auto simp: s'_def iq_reply_cb_def)
  qed
qed

lemma ibb_drain_run:
  "ibb_inv s \<Longrightarrow> ibb_write_buffer s = Some buf \<Longrightarrow> length buf < 2 ^ 32 \<Longrightarrow>
   0 < ibb_block_size s \<Longrightarrow> ibb_sent_stanzas_not_acked s \<noteq> [] \<Longrightarrow>
   ibb_state s = GABBLE_BYTESTREAM_STATE_CLOSING \<Longrightarrow>
   \<exists>ms s'. run (ibb_step enc dec) (map (\<lambda>m. IBB_IqReply m True) ms) s = Some s'
     \<and> ibb_write_buffer s' = None
     \<and> ibb_state s' = GABBLE_BYTESTREAM_STATE_CLOSED \<and> IBB_send_close \<in> set (ibb_trace s')"
proof (induction "length buf" arbitrary: buf s rule: less_induct)
  case less
  define m where "m = hd (ibb_sent_stanzas_not_acked s)"
  define t where "t = iq_reply_cb enc m True s"
  have m: "m \<in> set (ibb_sent_stanzas_not_acked s)" using less.prems(5) by (simp add: m_def)
  have inv: "ibb_inv t" unfolding t_def using less.prems(1) by (rule ibb_reply_inv)
  have cons: "run (ibb_step enc dec) (map (\<lambda>m. IBB_IqReply m True) (m # ms)) s =
      run (ibb_step enc dec) (map (\<lambda>m. IBB_IqReply m True) ms) t" for ms
    by (simp add: t_def)
  from ibb_reply_progress [OF less.prems(1-4) m, of enc, folded t_def] less.prems(6)
  consider (flushed) "ibb_write_buffer t = None" "ibb_state t = GABBLE_BYTESTREAM_STATE_CLOSED"
        "IBB_send_close \<in> set (ibb_trace t)"
    | (partial) buf' where "ibb_write_buffer t = Some buf'" "length buf' < length buf"
        "ibb_state t = ibb_state s" "ibb_block_size t = ibb_block_size s"
        "length (ibb_sent_stanzas_not_acked t) = WINDOW_SIZE"
    by metis
  then show ?case
  proof cases
    case flushed
    with cons [of "[]"] show ?thesis by (intro exI [of _ "[m]"]) simp
  next
    case partial
    have "ibb_sent_stanzas_not_acked t \<noteq> []" using partial(5) by (auto simp: WINDOW_SIZE_def)
    with less.hyps [of buf' t] partial inv less.prems obtain ms s' where
      "run (ibb_step enc dec) (map (\<lambda>m. IBB_IqReply m True) ms) t = Some s'"
      "ibb_write_buffer s' = None" "ibb_state s' = GABBLE_BYTESTREAM_STATE_CLOSED"
      "IBB_send_close \<in> set (ibb_trace s')" by auto
    with cons [of ms] show ?thesis by metis
  qed
qed

section \<open>Properties\<close>

text \<open>A concrete encoding, one character per byte, for the witnesses.\<close>

definition latin1_encode :: "bytes \<Rightarrow> string" where
  "latin1_encode = map (\<lambda>b. char_of (unat b))"

definition latin1_decode :: "string \<Rightarrow> bytes" where
  "latin1_decode = map (\<lambda>c. of_nat (of_char c))"

lemma latin1_decode_encode: "latin1_decode (latin1_encode xs) = xs"
proof (induction xs)
  case (Cons x xs)
  have "unat x < 2 ^ LENGTH(8)" by (rule unsigned_less)
  then have "unat x mod 256 = unat x" by simp
  then have "(of_nat (of_char (char_of (unat x) :: char)) :: byte) = x"
    by (simp add: of_char_of)
  with Cons show ?case by (simp add: latin1_encode_def latin1_decode_def)
qed (simp add: latin1_encode_def latin1_decode_def)


text \<open>A run that opens a bytestream with blocks of 1 byte, fills the window, buffers two bytes,
  closes, and gets the acknowledgements that let it flush.\<close>

lemmas ibb_exec = ibb_op_defs gabble_bytestream_ibb_init_def gabble_bytestream_ibb_send_def
  iq_reply_cb_def send_data_def send_data_loop.simps ibb_send_one_def ibb_emit_def
  guint_prefix_def WINDOW_SIZE_def READ_BUFFER_MAX_SIZE_def

definition ibb_demo :: "ibb_op list" where
  "ibb_demo = [IBB_Initiate True, IBB_InitReply False, IBB_Send [1,2,3,4,5,6,7,8,9,10,11,12],
     IBB_Close None, IBB_Send [13], IBB_IqReply 0 True, IBB_IqReply 1 True]"

lemma ibb_demo_legal:
  "legal_run ibb_legal (ibb_step latin1_encode latin1_decode) ibb_demo
     (gabble_bytestream_ibb_init 1 GABBLE_BYTESTREAM_STATE_INITIATING)"
  by (simp add: ibb_demo_def ibb_exec)


text \<open>C35. Flow control of an in-band bytestream: in every state a run can reach, at most
  \<open>WINDOW_SIZE\<close> data stanzas are unacknowledged, the write-blocked state last signalled is accurate
  (it holds exactly when there is a write buffer), and the read buffer of a blocked bytestream never
  exceeds \<open>READ_BUFFER_MAX_SIZE\<close>.\<close>

theorem ibb_flow_control:
  assumes "legal_run ibb_legal (ibb_step enc dec) xs (gabble_bytestream_ibb_init n st)"
    and "run (ibb_step enc dec) xs (gabble_bytestream_ibb_init n st) = Some s"
  shows "length (ibb_sent_stanzas_not_acked s) \<le> WINDOW_SIZE
    \<and> (ibb_write_blocked s \<longleftrightarrow> ibb_write_buffer s \<noteq> None)
    \<and> length (ibb_unread s) \<le> READ_BUFFER_MAX_SIZE"
proof -
  have "ibb_inv s" by (rule ibb_sys.run_inv [OF ibb_inv_init assms])
  then show ?thesis
    by (auto simp: ibb_inv_def ibb_window_ok_def ibb_write_ok_def ibb_read_ok_def ibb_unread_def
        split: option.splits)
qed

theorem ibb_flow_control_witness:
  "\<exists>s. run (ibb_step latin1_encode latin1_decode) (take 3 ibb_demo)
      (gabble_bytestream_ibb_init 1 GABBLE_BYTESTREAM_STATE_INITIATING) = Some s
    \<and> length (ibb_sent_stanzas_not_acked s) = WINDOW_SIZE
    \<and> length (ibb_sent_stanzas_not_acked s) \<le> WINDOW_SIZE
    \<and> (ibb_write_blocked s \<longleftrightarrow> ibb_write_buffer s \<noteq> None)
    \<and> length (ibb_unread s) \<le> READ_BUFFER_MAX_SIZE"
proof -
  have l: "legal_run ibb_legal (ibb_step latin1_encode latin1_decode) (take 3 ibb_demo)
      (gabble_bytestream_ibb_init 1 GABBLE_BYTESTREAM_STATE_INITIATING)"
    by (simp add: ibb_demo_def ibb_exec)
  obtain s where s: "run (ibb_step latin1_encode latin1_decode) (take 3 ibb_demo)
      (gabble_bytestream_ibb_init 1 GABBLE_BYTESTREAM_STATE_INITIATING) = Some s"
      "length (ibb_sent_stanzas_not_acked s) = WINDOW_SIZE"
    by (simp add: ibb_demo_def ibb_exec)
  with ibb_flow_control [OF l s(1)] show ?thesis by auto
qed

text \<open>Sequence numbers: the data stanzas of a run carry the numbers 0, 1, 2, ... in the order
  they are sent, modulo \<open>2 ^ 16\<close>.\<close>

theorem ibb_sequence_numbers:
  assumes "legal_run ibb_legal (ibb_step enc dec) xs (gabble_bytestream_ibb_init n st)"
    and "run (ibb_step enc dec) xs (gabble_bytestream_ibb_init n st) = Some s"
    and "i < length (ibb_seqs (ibb_trace s))"
  shows "unat (ibb_seqs (ibb_trace s) ! i) = i mod 2 ^ 16"
proof -
  have "ibb_inv s" by (rule ibb_sys.run_inv [OF ibb_inv_init assms(1,2)])
  then have "ibb_seqs (ibb_trace s) = map of_nat [0..<length (ibb_seqs (ibb_trace s))]"
    by (simp add: ibb_inv_def ibb_seq_ok_def)
  then have "ibb_seqs (ibb_trace s) ! i = of_nat i"
    using assms(3) by (metis add_0 diff_zero nth_map nth_upt length_map length_upt)
  then show ?thesis by (simp add: unat_of_nat take_bit_eq_mod)
qed

theorem ibb_sequence_numbers_witness:
  "\<exists>s. run (ibb_step latin1_encode latin1_decode) ibb_demo
      (gabble_bytestream_ibb_init 1 GABBLE_BYTESTREAM_STATE_INITIATING) = Some s
    \<and> unat (ibb_seqs (ibb_trace s) ! 11) = 11 mod 2 ^ 16"
proof -
  obtain s where s: "run (ibb_step latin1_encode latin1_decode) ibb_demo
      (gabble_bytestream_ibb_init 1 GABBLE_BYTESTREAM_STATE_INITIATING) = Some s"
      "length (ibb_seqs (ibb_trace s)) = 12"
    by (simp add: ibb_demo_def ibb_exec)
  with ibb_sequence_numbers [OF ibb_demo_legal s(1), of 11] show ?thesis by simp
qed


definition ibb_read_demo :: "ibb_op list" where
  "ibb_read_demo = [IBB_Accept True, IBB_Open 1 (Some 4096), IBB_Receive (Some ''ab'') (Some 2),
     IBB_Block True, IBB_Receive (Some ''cd'') (Some 3), IBB_Receive (Some ''e'') None]"

lemma ibb_read_demo_legal:
  "legal_run ibb_legal (ibb_step latin1_encode latin1_decode) ibb_read_demo
     (gabble_bytestream_ibb_init 1 GABBLE_BYTESTREAM_STATE_LOCAL_PENDING)"
  by (simp add: ibb_read_demo_def ibb_exec latin1_decode_def)


text \<open>Every data request gets exactly one answer: for a request identifier that is not also used
  by an \<open>open\<close> or \<open>close\<close> request, the answers sent plus the copies held back in
  \<open>received_stanzas_not_acked\<close> are as many as the data requests received with it; when nothing is
  held back every request has been answered.\<close>

theorem ibb_requests_answered_once:
  assumes "legal_run ibb_legal (ibb_step enc dec) xs (gabble_bytestream_ibb_init n st)"
    and "run (ibb_step enc dec) xs (gabble_bytestream_ibb_init n st) = Some s"
    and "filter (ibb_is_other_request i) xs = []"
  shows "count_list (ibb_answers (ibb_trace s)) i
           + count_list (ibb_received_stanzas_not_acked s) i =
         length (filter (ibb_is_data_request i) xs)"
  using ibb_run_count [OF ibb_inv_init assms(1,2) _ assms(3)]
  by (simp add: ibb_answer_count_def gabble_bytestream_ibb_init_def)

theorem ibb_requests_answered_once_witness:
  "\<exists>s. run (ibb_step latin1_encode latin1_decode) (ibb_read_demo @ [IBB_Close None])
      (gabble_bytestream_ibb_init 1 GABBLE_BYTESTREAM_STATE_LOCAL_PENDING) = Some s
    \<and> count_list (ibb_answers (ibb_trace s)) 3
        + count_list (ibb_received_stanzas_not_acked s) 3 = 1"
proof -
  let ?xs = "ibb_read_demo @ [IBB_Close None]"
  let ?s = "gabble_bytestream_ibb_init 1 GABBLE_BYTESTREAM_STATE_LOCAL_PENDING"
  have l: "legal_run ibb_legal (ibb_step latin1_encode latin1_decode) ?xs ?s"
    by (simp add: ibb_read_demo_def ibb_exec latin1_decode_def)
  then obtain s where s: "run (ibb_step latin1_encode latin1_decode) ?xs ?s = Some s"
    using ibb_sys.run_safe [OF ibb_inv_init] by blast
  with ibb_requests_answered_once [OF l s, of 3] show ?thesis
    by (simp add: ibb_read_demo_def)
qed

text \<open>A close that has to wait for the write buffer completes: as long as one data stanza is
  outstanding and the block size is not zero, there is a sequence of successful replies after which
  the buffer is empty, the \<open>close\<close> stanza has been sent and the bytestream is closed.\<close>

theorem ibb_closing_completes:
  assumes "legal_run ibb_legal (ibb_step enc dec) xs (gabble_bytestream_ibb_init n st)"
    and "run (ibb_step enc dec) xs (gabble_bytestream_ibb_init n st) = Some s"
    and "ibb_state s = GABBLE_BYTESTREAM_STATE_CLOSING" and "ibb_write_buffer s = Some buf"
    and "length buf < 2 ^ 32" and "0 < ibb_block_size s" and "ibb_sent_stanzas_not_acked s \<noteq> []"
  shows "\<exists>ms s'. run (ibb_step enc dec) (map (\<lambda>m. IBB_IqReply m True) ms) s = Some s'
    \<and> ibb_write_buffer s' = None \<and> ibb_state s' = GABBLE_BYTESTREAM_STATE_CLOSED
    \<and> IBB_send_close \<in> set (ibb_trace s')"
  by (rule ibb_drain_run [OF _ assms(4-7,3)]) (rule ibb_sys.run_inv [OF ibb_inv_init assms(1,2)])

theorem ibb_closing_completes_witness:
  "\<exists>s. run (ibb_step latin1_encode latin1_decode) (take 4 ibb_demo)
      (gabble_bytestream_ibb_init 1 GABBLE_BYTESTREAM_STATE_INITIATING) = Some s
    \<and> (\<exists>ms s'. run (ibb_step latin1_encode latin1_decode) (map (\<lambda>m. IBB_IqReply m True) ms) s
          = Some s'
      \<and> ibb_write_buffer s' = None \<and> ibb_state s' = GABBLE_BYTESTREAM_STATE_CLOSED
      \<and> IBB_send_close \<in> set (ibb_trace s'))"
proof -
  let ?s = "gabble_bytestream_ibb_init 1 GABBLE_BYTESTREAM_STATE_INITIATING"
  have l: "legal_run ibb_legal (ibb_step latin1_encode latin1_decode) (take 4 ibb_demo) ?s"
    by (simp add: ibb_demo_def ibb_exec)
  obtain s where s: "run (ibb_step latin1_encode latin1_decode) (take 4 ibb_demo) ?s = Some s"
      "ibb_state s = GABBLE_BYTESTREAM_STATE_CLOSING" "ibb_write_buffer s = Some [11, 12]"
      "0 < ibb_block_size s" "ibb_sent_stanzas_not_acked s \<noteq> []"
    by (simp add: ibb_demo_def ibb_exec)
  with ibb_closing_completes [OF l s(1,2,3)] show ?thesis by simp
qed

text \<open>C39. When the replies to the outstanding stanzas are errors instead, the bytestream never gets
  there: with data in the write buffer, any number of error replies leaves it in the state
  \<open>CLOSING\<close> with the same write buffer.\<close>

theorem ibb_error_replies_stall:
  assumes "ibb_write_buffer s = Some buf" and "ibb_state s = GABBLE_BYTESTREAM_STATE_CLOSING"
  shows "\<exists>s'. run (ibb_step enc dec) (map (\<lambda>m. IBB_IqReply m False) ms) s = Some s'
    \<and> ibb_state s' = GABBLE_BYTESTREAM_STATE_CLOSING \<and> ibb_write_buffer s' = Some buf"
  using assms
proof (induction ms arbitrary: s)
  case Nil
  then show ?case by simp
next
  case (Cons m ms)
  let ?s1 = "iq_reply_cb enc m False s"
  have "ibb_write_buffer ?s1 = Some buf" "ibb_state ?s1 = GABBLE_BYTESTREAM_STATE_CLOSING"
    using Cons.prems by (auto simp: iq_reply_cb_def ibb_op_defs)
  from Cons.IH [OF this] show ?case by simp
qed

theorem ibb_error_replies_stall_witness:
  "\<exists>s. run (ibb_step latin1_encode latin1_decode) (take 4 ibb_demo)
      (gabble_bytestream_ibb_init 1 GABBLE_BYTESTREAM_STATE_INITIATING) = Some s
    \<and> (\<exists>s'. run (ibb_step latin1_encode latin1_decode)
          (map (\<lambda>m. IBB_IqReply m False) [0,1,2,3,4,5,6,7,8,9]) s = Some s'
      \<and> ibb_state s' = GABBLE_BYTESTREAM_STATE_CLOSING \<and> ibb_write_buffer s' = Some [11, 12])"
proof -
  obtain s where s: "run (ibb_step latin1_encode latin1_decode) (take 4 ibb_demo)
      (gabble_bytestream_ibb_init 1 GABBLE_BYTESTREAM_STATE_INITIATING) = Some s"
      "ibb_write_buffer s = Some [11, 12]" "ibb_state s = GABBLE_BYTESTREAM_STATE_CLOSING"
    by (simp add: ibb_demo_def ibb_exec)
  from ibb_error_replies_stall [OF s(2,3)] s(1) show ?thesis by blast
qed

end
