(* ===== verification/Bytestream_Socks5.thy ===== *)
theory Bytestream_Socks5
  imports Bytestream_Iface Namespaces C_Strings
begin

text \<open>
  SOCKS5 bytestreams (\<open>src/bytestream-socks5.c\<close>): the target of a bytestream tries the streamhosts the
  initiator offered, one after the other; the initiator listens itself or connects to the proxy the
  target chose. Both sides negotiate SOCKS5 on the connection, and what follows is data.

  The state \<open>s5\<close> is \<open>struct _GabbleBytestreamSocks5Private\<close>. Of a \<open>GibberTransport\<close> the code uses
  whether it is connected, whether its output buffer is empty and whether receiving is blocked; what
  a write to the socket does is the argument \<open>w\<close>: everything is written, or only a part, or the write
  fails, in which case the transport disconnects and \<open>transport_disconnected_cb\<close> runs before the
  write returns. A failed \<open>g_assert\<close>, the use of a \<open>NULL\<close> transport and a read beyond the
  terminator of a string are \<open>None\<close>. \<open>ck\<close> stands for GLib's
  \<open>g_compute_checksum_for_string (G_CHECKSUM_SHA1, ...)\<close>. Handlers of the signals do not call
  back into the bytestream while it emits them.
\<close>

datatype Socks5State =
    SOCKS5_STATE_INVALID
  | SOCKS5_STATE_TARGET_TRYING_CONNECT
  | SOCKS5_STATE_TARGET_AUTH_REQUEST_SENT
  | SOCKS5_STATE_TARGET_CONNECT_REQUESTED
  | SOCKS5_STATE_CONNECTED
  | SOCKS5_STATE_INITIATOR_OFFER_SENT
  | SOCKS5_STATE_INITIATOR_AWAITING_AUTH_REQUEST
  | SOCKS5_STATE_INITIATOR_AWAITING_COMMAND
  | SOCKS5_STATE_INITIATOR_TRYING_CONNECT
  | SOCKS5_STATE_INITIATOR_AUTH_REQUEST_SENT
  | SOCKS5_STATE_INITIATOR_CONNECT_REQUESTED
  | SOCKS5_STATE_INITIATOR_ACTIVATION_SENT
  | SOCKS5_STATE_ERROR

definition SOCKS5_VERSION :: byte where "SOCKS5_VERSION = 0x05"
definition SOCKS5_CMD_CONNECT :: byte where "SOCKS5_CMD_CONNECT = 0x01"
definition SOCKS5_RESERVED :: byte where "SOCKS5_RESERVED = 0x00"
definition SOCKS5_ATYP_DOMAIN :: byte where "SOCKS5_ATYP_DOMAIN = 0x03"
definition SOCKS5_STATUS_OK :: byte where "SOCKS5_STATUS_OK = 0x00"
definition SOCKS5_AUTH_NONE :: byte where "SOCKS5_AUTH_NONE = 0x00"
definition SHA1_LENGTH :: nat where "SHA1_LENGTH = 40"
definition SOCKS5_MIN_LENGTH :: nat where "SOCKS5_MIN_LENGTH = 6"

lemmas socks5_constants = SOCKS5_VERSION_def SOCKS5_CMD_CONNECT_def SOCKS5_RESERVED_def
  SOCKS5_ATYP_DOMAIN_def SOCKS5_STATUS_OK_def SOCKS5_AUTH_NONE_def SHA1_LENGTH_def
  SOCKS5_MIN_LENGTH_def

record Streamhost =
  sh_jid :: string
  sh_host :: string
  sh_port :: guint16

datatype write_outcome = W_all | W_partial | W_failed

text \<open>What the bytestream sends and signals, in order.\<close>

datatype s5_event =
    S5_write bytes
  | S5_state_changed GabbleBytestreamState
  | S5_write_blocked bool
  | S5_connection_error
  | S5_data_received bytes
  | S5_connect_to string guint16
  | S5_iq_ack WockyNode
  | S5_iq_error
  | S5_send_activation cstring string string
  | S5_send_accept
  | S5_send_decline cstring
  | S5_send_offer WockyNode

record s5_transport =
  tr_connected :: bool
  tr_empty :: bool
  tr_blocked :: bool

record s5 =
  s5_bytestream_state :: GabbleBytestreamState
  s5_stream_id :: string
  s5_peer_jid :: string
  s5_self_full_jid :: string
  s5_proxy_jid :: cstring
  s5_muc_contact :: bool
  s5_streamhosts :: "Streamhost list"
  s5_msg_for_acknowledge_connection :: bool
  s5_state :: Socks5State
  s5_transport :: "s5_transport option"
  s5_write_blocked :: bool
  s5_read_blocked :: bool
  s5_listener :: bool
  s5_timer :: bool
  s5_read_buffer :: "bytes option"
  s5_dispose_has_run :: bool
  s5_trace :: "s5_event list"

definition gabble_bytestream_socks5_init ::
    "GabbleBytestreamState \<Rightarrow> string \<Rightarrow> string \<Rightarrow> string \<Rightarrow> bool \<Rightarrow> s5" where
  "gabble_bytestream_socks5_init st sid peer self muc =
     \<lparr>s5_bytestream_state = st, s5_stream_id = sid, s5_peer_jid = peer, s5_self_full_jid = self,
      s5_proxy_jid = None, s5_muc_contact = muc, s5_streamhosts = [],
      s5_msg_for_acknowledge_connection = False, s5_state = SOCKS5_STATE_INVALID,
      s5_transport = None, s5_write_blocked = False, s5_read_blocked = False,
      s5_listener = False, s5_timer = False, s5_read_buffer = None, s5_dispose_has_run = False,
      s5_trace = []\<rparr>"

definition s5_emit :: "s5_event \<Rightarrow> s5 \<Rightarrow> s5" where
  "s5_emit e s = s\<lparr>s5_trace := s5_trace s @ [e]\<rparr>"

definition stop_timer :: "s5 \<Rightarrow> s5" where
  "stop_timer s = s\<lparr>s5_timer := False\<rparr>"

definition start_timer :: "s5 \<Rightarrow> s5 option" where
  "start_timer s = (if s5_timer s then None else Some (s\<lparr>s5_timer := True\<rparr>))"

text \<open>\<open>g_object_set (self, "state", st, NULL)\<close>.\<close>

definition s5_set_state :: "GabbleBytestreamState \<Rightarrow> s5 \<Rightarrow> s5" where
  "s5_set_state st s =
     (if s5_bytestream_state s \<noteq> st
      then s5_emit (S5_state_changed st) (s\<lparr>s5_bytestream_state := st\<rparr>) else s)"

definition s5_change_write_blocked_state :: "bool \<Rightarrow> s5 \<Rightarrow> s5" where
  "s5_change_write_blocked_state blocked s =
     (if s5_write_blocked s = blocked then s
      else s5_emit (S5_write_blocked blocked) (s\<lparr>s5_write_blocked := blocked\<rparr>))"

definition socks5_close_transport :: "s5 \<Rightarrow> s5" where
  "socks5_close_transport s = s\<lparr>s5_read_buffer := None, s5_transport := None\<rparr>"

definition bytestream_closed :: "s5 \<Rightarrow> s5" where
  "bytestream_closed s = s5_set_state GABBLE_BYTESTREAM_STATE_CLOSED (socks5_close_transport s)"

definition transport_buffer_empty_cb :: "s5 \<Rightarrow> s5" where
  "transport_buffer_empty_cb s =
     (if s5_bytestream_state s = GABBLE_BYTESTREAM_STATE_CLOSING then bytestream_closed s
      else if s5_write_blocked s then s5_change_write_blocked_state False s
      else s)"

text \<open>A new transport has nothing to write and receives; the listener's are connected already.\<close>

definition set_transport :: "bool \<Rightarrow> s5 \<Rightarrow> s5 option" where
  "set_transport connected s =
     (let s1 = s\<lparr>s5_transport :=
                   Some \<lparr>tr_connected = connected, tr_empty = True, tr_blocked = False\<rparr>\<rparr>
      in if s5_read_buffer s1 \<noteq> None then None else Some (s1\<lparr>s5_read_buffer := Some []\<rparr>))"

text \<open>\<open>gibber_transport_block_receiving (priv->transport, block)\<close>.\<close>

definition block_receiving :: "bool \<Rightarrow> s5 \<Rightarrow> s5 option" where
  "block_receiving block s =
     (case s5_transport s of
        None \<Rightarrow> None
      | Some t \<Rightarrow> Some (s\<lparr>s5_transport := Some (t\<lparr>tr_blocked := block\<rparr>)\<rparr>))"

definition gabble_bytestream_socks5_decline :: "cstring \<Rightarrow> s5 \<Rightarrow> s5" where
  "gabble_bytestream_socks5_decline err s =
     (if s5_bytestream_state s \<noteq> GABBLE_BYTESTREAM_STATE_LOCAL_PENDING then s
      else s5_set_state GABBLE_BYTESTREAM_STATE_CLOSED (s5_emit (S5_send_decline err) s))"

definition gabble_bytestream_socks5_close :: "cstring \<Rightarrow> s5 \<Rightarrow> s5" where
  "gabble_bytestream_socks5_close err s =
     (if s5_bytestream_state s = GABBLE_BYTESTREAM_STATE_CLOSED then s
      else if s5_bytestream_state s = GABBLE_BYTESTREAM_STATE_LOCAL_PENDING
      then gabble_bytestream_socks5_decline err s
      else
        let s1 = s5_set_state GABBLE_BYTESTREAM_STATE_CLOSING s
        in (case s5_transport s1 of
              Some t \<Rightarrow> if \<not> tr_empty t then s1 else bytestream_closed s1
            | None \<Rightarrow> bytestream_closed s1))"

text \<open>\<open>socks5_connect\<close> with a streamhost to try.\<close>

definition socks5_connect_first :: "s5 \<Rightarrow> s5 option" where
  "socks5_connect_first s =
     (case s5_streamhosts s of
        [] \<Rightarrow> None
      | h # _ \<Rightarrow>
          do { s1 \<leftarrow> set_transport False (s\<lparr>s5_state := SOCKS5_STATE_TARGET_TRYING_CONNECT\<rparr>);
               s2 \<leftarrow> start_timer s1;
               Some (s5_emit (S5_connect_to (sh_host h) (sh_port h)) s2) })"

definition socks5_error :: "s5 \<Rightarrow> s5 option" where
  "socks5_error s0 =
     (let s = (stop_timer s0)\<lparr>s5_state := SOCKS5_STATE_ERROR\<rparr>
      in case s5_state s0 of
           SOCKS5_STATE_INITIATOR_AWAITING_AUTH_REQUEST \<Rightarrow> Some s
         | SOCKS5_STATE_INITIATOR_AWAITING_COMMAND \<Rightarrow> Some s
         | st \<Rightarrow>
             if st = SOCKS5_STATE_TARGET_TRYING_CONNECT
                \<or> st = SOCKS5_STATE_TARGET_AUTH_REQUEST_SENT
                \<or> st = SOCKS5_STATE_TARGET_CONNECT_REQUESTED
             then
               let s1 = socks5_close_transport s;
                   s2 = s1\<lparr>s5_streamhosts := tl (s5_streamhosts s1)\<rparr>
               in if s5_streamhosts s2 \<noteq> [] then socks5_connect_first s2
                  else
                    let s3 = s5_emit S5_connection_error s2
                    in if \<not> s5_msg_for_acknowledge_connection s3 then None
                       else Some ((s5_emit S5_iq_error s3)
                                    \<lparr>s5_msg_for_acknowledge_connection := False\<rparr>)
             else Some (gabble_bytestream_socks5_close None s))"

definition socks5_connect :: "s5 \<Rightarrow> s5 option" where
  "socks5_connect s =
     (if s5_streamhosts s \<noteq> [] then socks5_connect_first s
      else socks5_error (s\<lparr>s5_state := SOCKS5_STATE_TARGET_TRYING_CONNECT\<rparr>))"

definition transport_disconnected_cb :: "s5 \<Rightarrow> s5 option" where
  "transport_disconnected_cb s = socks5_error (stop_timer s)"

definition socks5_timer_cb :: "s5 \<Rightarrow> s5 option" where
  "socks5_timer_cb s = socks5_error s"

text \<open>\<open>gibber_transport_send\<close> and \<open>_writeout\<close>: the socket is only written to when nothing is buffered;
  \<open>buffer-empty\<close> is emitted when the data of this call has been written. A write of which nothing
  or a part succeeds leaves the rest in the buffer. Disconnecting discards the buffer.\<close>

definition write_to_transport :: "write_outcome \<Rightarrow> bytes \<Rightarrow> s5 \<Rightarrow> (bool \<times> s5) option" where
  "write_to_transport w data s =
     (case s5_transport s of
        None \<Rightarrow> None
      | Some t \<Rightarrow>
          if \<not> tr_connected t then None
          else if tr_empty t \<and> w = W_failed
          then map_option (Pair False)
                 (transport_disconnected_cb (s\<lparr>s5_transport := Some (t\<lparr>tr_connected := False\<rparr>)\<rparr>))
          else if data = [] \<or> tr_empty t \<and> w = W_all
          then Some (True, transport_buffer_empty_cb (s5_emit (S5_write data) s))
          else Some (True, s5_emit (S5_write data)
                 (s\<lparr>s5_transport := Some (t\<lparr>tr_empty := False\<rparr>)\<rparr>)))"

definition transport_connected_cb :: "write_outcome \<Rightarrow> s5 \<Rightarrow> s5 option" where
  "transport_connected_cb w s0 =
     (let s = stop_timer s0
      in if s5_state s = SOCKS5_STATE_TARGET_TRYING_CONNECT
            \<or> s5_state s = SOCKS5_STATE_INITIATOR_TRYING_CONNECT
         then do { (_, s1) \<leftarrow> write_to_transport w [SOCKS5_VERSION, 1, SOCKS5_AUTH_NONE] s;
                   Some (if s5_state s1 = SOCKS5_STATE_TARGET_TRYING_CONNECT
                         then s1\<lparr>s5_state := SOCKS5_STATE_TARGET_AUTH_REQUEST_SENT\<rparr>
                         else s1\<lparr>s5_state := SOCKS5_STATE_INITIATOR_AUTH_REQUEST_SENT\<rparr>) }
         else Some s)"

section \<open>Domains\<close>

definition SHA1_HASH_SIZE :: nat where "SHA1_HASH_SIZE = 20"

definition g_ascii_tolower :: "byte \<Rightarrow> byte" where
  "g_ascii_tolower c = (if 65 \<le> c \<and> c \<le> 90 then c + 32 else c)"

definition sha1_hex :: "(bytes \<Rightarrow> bytes) \<Rightarrow> bytes \<Rightarrow> bytes option" where
  "sha1_hex ck b =
     (let hex = ck b
      in if length hex = SHA1_HASH_SIZE * 2 \<and> 0 \<notin> set hex
         then Some (map g_ascii_tolower hex) else None)"

definition compute_domain :: "(bytes \<Rightarrow> bytes) \<Rightarrow> string \<Rightarrow> string \<Rightarrow> string \<Rightarrow> bytes option" where
  "compute_domain ck sid initiator target =
     sha1_hex ck (map of_char (sid @ initiator @ target))"

text \<open>\<open>strncmp (a, b, n) == 0\<close> for strings that end in a \<open>NUL\<close>.\<close>

definition c_at :: "bytes \<Rightarrow> byte" where
  "c_at xs = (case xs of [] \<Rightarrow> 0 | x # _ \<Rightarrow> x)"

primrec strncmp_eq :: "nat \<Rightarrow> bytes \<Rightarrow> bytes \<Rightarrow> bool" where
  "strncmp_eq 0 a b = True"
| "strncmp_eq (Suc n) a b =
     (c_at a = c_at b \<and> (c_at a = 0 \<or> strncmp_eq n (tl a) (tl b)))"

definition check_domain :: "bytes \<Rightarrow> guint8 \<Rightarrow> bytes \<Rightarrow> bool" where
  "check_domain domain len expected =
     (if unat len \<noteq> SHA1_LENGTH \<or> \<not> strncmp_eq SHA1_LENGTH domain expected then False else True)"

section \<open>The negotiation\<close>

definition streamhost_used_query :: "string \<Rightarrow> WockyNode" where
  "streamhost_used_query jid =
     WockyNode ''query'' None (Some NS_BYTESTREAMS) []
       [wocky_node_set_attribute (WockyNode ''streamhost-used'' None (Some NS_BYTESTREAMS) [] [])
          ''jid'' jid]"

definition target_got_connect_reply :: "s5 \<Rightarrow> s5 option" where
  "target_got_connect_reply s0 =
     (let s = s5_set_state GABBLE_BYTESTREAM_STATE_OPEN (s0\<lparr>s5_state := SOCKS5_STATE_CONNECTED\<rparr>)
      in case s5_streamhosts s of
           [] \<Rightarrow> None
         | current_streamhost # _ \<Rightarrow>
             let s1 = (if s5_msg_for_acknowledge_connection s
                       then s5_emit (S5_iq_ack (streamhost_used_query (sh_jid current_streamhost))) s
                       else s)
             in if s5_read_blocked s1 then block_receiving True s1 else Some s1)"

definition initiator_got_connect_reply :: "s5 \<Rightarrow> s5 option" where
  "initiator_got_connect_reply s =
     map_option (s5_emit (S5_send_activation (s5_proxy_jid s) (s5_stream_id s) (s5_peer_jid s)))
       (block_receiving True (s\<lparr>s5_state := SOCKS5_STATE_INITIATOR_ACTIVATION_SENT\<rparr>))"

definition connect_message :: "byte \<Rightarrow> bytes \<Rightarrow> bytes" where
  "connect_message cmd domain =
     [SOCKS5_VERSION, cmd, SOCKS5_RESERVED, SOCKS5_ATYP_DOMAIN, 40] @ take 40 domain @ [0x00, 0x00]"

text \<open>\<open>string->str[i]\<close>: a \<open>GString\<close> has a \<open>NUL\<close> after its last byte.\<close>

definition str_at :: "bytes \<Rightarrow> nat \<Rightarrow> byte option" where
  "str_at b i = (if i < length b then Some (b ! i) else if i = length b then Some 0 else None)"

text \<open>The two ways the code computes the domain: the peer is the initiator, or we are.\<close>

definition domain_for :: "(bytes \<Rightarrow> bytes) \<Rightarrow> bool \<Rightarrow> s5 \<Rightarrow> bytes option" where
  "domain_for ck target s =
     (if target then compute_domain ck (s5_stream_id s) (s5_peer_jid s) (s5_self_full_jid s)
      else compute_domain ck (s5_stream_id s) (s5_self_full_jid s) (s5_peer_jid s))"

definition handle_auth_reply ::
    "(bytes \<Rightarrow> bytes) \<Rightarrow> write_outcome \<Rightarrow> bytes \<Rightarrow> s5 \<Rightarrow> (int \<times> s5) option" where
  "handle_auth_reply ck w str s =
     (if length str < 2 then Some (0, s)
      else do {
        c0 \<leftarrow> str_at str 0; c1 \<leftarrow> str_at str 1;
        if c0 \<noteq> SOCKS5_VERSION \<or> c1 \<noteq> SOCKS5_STATUS_OK
        then map_option (Pair (- 1)) (socks5_error s)
        else do {
          domain \<leftarrow> domain_for ck (s5_state s = SOCKS5_STATE_TARGET_AUTH_REQUEST_SENT) s;
          (_, s1) \<leftarrow> write_to_transport w (connect_message SOCKS5_CMD_CONNECT domain) s;
          s2 \<leftarrow> start_timer
            (if s5_state s1 = SOCKS5_STATE_TARGET_AUTH_REQUEST_SENT
             then s1\<lparr>s5_state := SOCKS5_STATE_TARGET_CONNECT_REQUESTED\<rparr>
             else s1\<lparr>s5_state := SOCKS5_STATE_INITIATOR_CONNECT_REQUESTED\<rparr>);
          Some (2, s2) } })"

text \<open>The length of the address field, a \<open>guint8\<close>; \<open>None\<close> for a wrong address type.\<close>

definition reply_addr_len :: "byte \<Rightarrow> byte \<Rightarrow> guint8 option" where
  "reply_addr_len atyp len =
     (if atyp = SOCKS5_ATYP_DOMAIN then Some (len + 1)
      else if atyp = 0x00 then Some 0
      else None)"

text \<open>\<open>(guint8) string->len < SOCKS5_MIN_LENGTH + addr_len\<close>, compared as \<open>int\<close>.\<close>

definition packet_incomplete :: "bytes \<Rightarrow> guint8 \<Rightarrow> bool" where
  "packet_incomplete str addr_len \<longleftrightarrow>
     unat (of_nat (length str) :: guint8) < SOCKS5_MIN_LENGTH + unat addr_len"

definition handle_connect_reply ::
    "(bytes \<Rightarrow> bytes) \<Rightarrow> bytes \<Rightarrow> s5 \<Rightarrow> (int \<times> s5) option" where
  "handle_connect_reply ck str s =
     (if length str < SOCKS5_MIN_LENGTH then Some (0, s)
      else do {
        c0 \<leftarrow> str_at str 0; c1 \<leftarrow> str_at str 1; c2 \<leftarrow> str_at str 2;
        if c0 \<noteq> SOCKS5_VERSION \<or> c1 \<noteq> SOCKS5_STATUS_OK \<or> c2 \<noteq> SOCKS5_RESERVED
        then map_option (Pair (- 1)) (socks5_error s)
        else do {
          c3 \<leftarrow> str_at str 3; c4 \<leftarrow> str_at str 4;
          case reply_addr_len c3 c4 of
            None \<Rightarrow> map_option (Pair (- 1)) (socks5_error s)
          | Some addr_len \<Rightarrow>
              if packet_incomplete str addr_len then Some (0, s)
              else do {
                let s1 = stop_timer s;
                p0 \<leftarrow> str_at str (4 + unat addr_len);
                p1 \<leftarrow> str_at str (5 + unat addr_len);
                if p0 \<noteq> 0 \<or> p1 \<noteq> 0 then map_option (Pair (- 1)) (socks5_error s1)
                else do {
                  let target = (s5_state s1 = SOCKS5_STATE_TARGET_CONNECT_REQUESTED);
                  _ \<leftarrow> domain_for ck target s1;
                  s2 \<leftarrow> (if target then target_got_connect_reply s1
                        else initiator_got_connect_reply s1);
                  Some (int (SOCKS5_MIN_LENGTH + unat addr_len), s2) } } } })"

text \<open>\<open>auth_len = string->str[1] + 2\<close>: a \<open>gchar\<close> is signed, the sum is stored in a \<open>guint\<close>.\<close>

definition auth_request_len :: "byte \<Rightarrow> guint" where
  "auth_request_len c = word_of_int (gchar_int c + 2)"

definition handle_auth_request ::
    "write_outcome \<Rightarrow> bytes \<Rightarrow> s5 \<Rightarrow> (int \<times> s5) option" where
  "handle_auth_request w str s =
     (if length str < 2 then Some (0, s)
      else do {
        c0 \<leftarrow> str_at str 0;
        if c0 \<noteq> SOCKS5_VERSION then map_option (Pair (- 1)) (socks5_error s)
        else do {
          c1 \<leftarrow> str_at str 1;
          let auth_len = unat (auth_request_len c1);
          if length str < auth_len then Some (0, s)
          else if SOCKS5_AUTH_NONE \<in> set (drop 2 (take auth_len str))
          then do {
            (_, s1) \<leftarrow> write_to_transport w [SOCKS5_VERSION, SOCKS5_AUTH_NONE] s;
            Some (int auth_len, s1\<lparr>s5_state := SOCKS5_STATE_INITIATOR_AWAITING_COMMAND\<rparr>) }
          else map_option (Pair (- 1)) (socks5_error s) } })"

definition handle_connect_command ::
    "(bytes \<Rightarrow> bytes) \<Rightarrow> write_outcome \<Rightarrow> bytes \<Rightarrow> s5 \<Rightarrow> (int \<times> s5) option" where
  "handle_connect_command ck w str s =
     (if length str < SOCKS5_MIN_LENGTH then Some (0, s)
      else do {
        c4 \<leftarrow> str_at str 4;
        let addr_len = c4 + 1;
        if packet_incomplete str addr_len then Some (0, s)
        else do {
          c0 \<leftarrow> str_at str 0; c1 \<leftarrow> str_at str 1; c2 \<leftarrow> str_at str 2; c3 \<leftarrow> str_at str 3;
          p0 \<leftarrow> str_at str (4 + unat addr_len);
          p1 \<leftarrow> str_at str (5 + unat addr_len);
          if c0 \<noteq> SOCKS5_VERSION \<or> c1 \<noteq> SOCKS5_CMD_CONNECT \<or> c2 \<noteq> SOCKS5_RESERVED
             \<or> c3 \<noteq> SOCKS5_ATYP_DOMAIN \<or> p0 \<noteq> 0 \<or> p1 \<noteq> 0
          then map_option (Pair (- 1)) (socks5_error s)
          else do {
            domain \<leftarrow> domain_for ck False s;
            if \<not> check_domain (drop 5 str) (addr_len - 1) domain
            then map_option (Pair (- 1)) (socks5_error (socks5_close_transport s))
            else do {
              (_, s1) \<leftarrow> write_to_transport w (connect_message SOCKS5_STATUS_OK domain) s;
              s2 \<leftarrow> block_receiving True (s1\<lparr>s5_state := SOCKS5_STATE_CONNECTED\<rparr>);
              if \<not> s5_listener s2 then None
              else Some (int (SOCKS5_MIN_LENGTH + unat addr_len), s2\<lparr>s5_listener := False\<rparr>) } } } })"

definition socks5_handle_received_data ::
    "(bytes \<Rightarrow> bytes) \<Rightarrow> write_outcome \<Rightarrow> bytes \<Rightarrow> s5 \<Rightarrow> (int \<times> s5) option" where
  "socks5_handle_received_data ck w str s =
     (case s5_state s of
        SOCKS5_STATE_TARGET_AUTH_REQUEST_SENT \<Rightarrow> handle_auth_reply ck w str s
      | SOCKS5_STATE_INITIATOR_AUTH_REQUEST_SENT \<Rightarrow> handle_auth_reply ck w str s
      | SOCKS5_STATE_TARGET_CONNECT_REQUESTED \<Rightarrow> handle_connect_reply ck str s
      | SOCKS5_STATE_INITIATOR_CONNECT_REQUESTED \<Rightarrow> handle_connect_reply ck str s
      | SOCKS5_STATE_INITIATOR_AWAITING_AUTH_REQUEST \<Rightarrow> handle_auth_request w str s
      | SOCKS5_STATE_INITIATOR_AWAITING_COMMAND \<Rightarrow> handle_connect_command ck w str s
      | SOCKS5_STATE_CONNECTED \<Rightarrow> Some (int (length str), s5_emit (S5_data_received str) s)
      | SOCKS5_STATE_ERROR \<Rightarrow> Some (int (length str), s)
      | _ \<Rightarrow> None)"

text \<open>What the operations leave in the read buffer: the buffer that was processed, a new and empty one
  of the next connection, or none.\<close>

lemmas s5_simple_ops = s5_emit_def stop_timer_def s5_set_state_def s5_change_write_blocked_state_def
  socks5_close_transport_def bytestream_closed_def transport_buffer_empty_cb_def

lemma simple_ops_read_buffer [simp]:
  "s5_read_buffer (s5_emit e s) = s5_read_buffer s"
  "s5_read_buffer (stop_timer s) = s5_read_buffer s"
  "s5_read_buffer (s5_set_state st s) = s5_read_buffer s"
  "s5_read_buffer (s5_change_write_blocked_state b s) = s5_read_buffer s"
  "s5_read_buffer (socks5_close_transport s) = None"
  "s5_read_buffer (bytestream_closed s) = None"
  by (simp_all add: s5_simple_ops)

lemma start_timer_read_buffer: "start_timer s = Some s' \<Longrightarrow> s5_read_buffer s' = s5_read_buffer s"
  by (auto simp: start_timer_def split: if_splits)

lemma block_receiving_read_buffer:
  "block_receiving b s = Some s' \<Longrightarrow> s5_read_buffer s' = s5_read_buffer s"
  by (auto simp: block_receiving_def split: option.splits)

definition buffer_kept :: "s5 \<Rightarrow> s5 \<Rightarrow> bool" where
  "buffer_kept s s' \<longleftrightarrow> s5_read_buffer s' \<in> {s5_read_buffer s, None, Some []}"

lemma buffer_keptI: "s5_read_buffer s' = s5_read_buffer s \<Longrightarrow> buffer_kept s s'"
  by (simp add: buffer_kept_def)

lemma buffer_kept_cong:
  "s5_read_buffer s1 = s5_read_buffer s \<Longrightarrow> buffer_kept s1 s' = buffer_kept s s'"
  "s5_read_buffer s1' = s5_read_buffer s' \<Longrightarrow> buffer_kept s s1' = buffer_kept s s'"
  by (simp_all add: buffer_kept_def)

lemma close_buffer_kept: "buffer_kept s (gabble_bytestream_socks5_close e s)"
  by (auto simp: buffer_kept_def gabble_bytestream_socks5_close_def
      gabble_bytestream_socks5_decline_def Let_def split: option.splits)

lemma connect_first_buffer:
  "socks5_connect_first s = Some s' \<Longrightarrow> s5_read_buffer s' = Some []"
  by (auto simp: socks5_connect_first_def set_transport_def start_timer_def Let_def
      split: list.splits if_splits bind_splits)

lemma socks5_error_buffer_kept: 
  assumes "socks5_error s = Some s'" shows "buffer_kept s s'"
proof -
  have "buffer_kept s (gabble_bytestream_socks5_close e ((stop_timer s)\<lparr>s5_state := st\<rparr>))" for e st
    using close_buffer_kept [of "(stop_timer s)\<lparr>s5_state := st\<rparr>"] by (simp add: buffer_kept_def)
  with assms show ?thesis
    by (auto simp: socks5_error_def Let_def buffer_kept_def dest!: connect_first_buffer
        split: Socks5State.splits if_splits)
qed

lemma write_buffer_kept:
  assumes "write_to_transport w d s = Some (r, s')" shows "buffer_kept s s'"
  using assms
  by (auto simp: write_to_transport_def transport_disconnected_cb_def buffer_kept_def
      transport_buffer_empty_cb_def dest!: socks5_error_buffer_kept split: option.splits if_splits)

lemma handle_auth_reply_buffer:
  assumes "handle_auth_reply ck w str s = Some (n, s')"
  shows "buffer_kept s s' \<and> n \<le> int (length str)"
proof -
  have "buffer_kept s s2" if "write_to_transport w d s = Some (r, s1)"
    "start_timer (s1\<lparr>s5_state := st\<rparr>) = Some s2" for d r s1 s2 st
    using write_buffer_kept [OF that(1)] start_timer_read_buffer [OF that(2)]
    by (simp add: buffer_kept_def)
  with assms show ?thesis
    by (auto simp: handle_auth_reply_def intro: buffer_keptI dest: socks5_error_buffer_kept
        split: if_splits bind_splits)
qed

lemma target_reply_buffer:
  "target_got_connect_reply s = Some s' \<Longrightarrow> s5_read_buffer s' = s5_read_buffer s"
  by (auto simp: target_got_connect_reply_def Let_def dest!: block_receiving_read_buffer
      split: list.splits if_splits)

lemma initiator_reply_buffer:
  "initiator_got_connect_reply s = Some s' \<Longrightarrow> s5_read_buffer s' = s5_read_buffer s"
  by (auto simp: initiator_got_connect_reply_def dest!: block_receiving_read_buffer)

lemma uint_le_of_unat_le: "unat x \<le> n \<Longrightarrow> uint x \<le> int n" for x :: "'a :: len word"
proof -
  assume "unat x \<le> n"
  then have "int (unat x) \<le> int n" by (simp only: of_nat_le_iff)
  then show ?thesis by (simp only: uint_nat)
qed

lemma guint8_length_le: "unat (of_nat n :: guint8) \<le> n"
  by (simp add: unat_of_nat)

lemma packet_complete_length:
  "\<not> packet_incomplete str addr_len \<Longrightarrow> SOCKS5_MIN_LENGTH + unat addr_len \<le> length str"
  using guint8_length_le [of "length str"] by (simp add: packet_incomplete_def)

lemma packet_complete_int:
  "\<not> packet_incomplete str addr_len \<Longrightarrow> int SOCKS5_MIN_LENGTH + uint addr_len \<le> int (length str)"
  using packet_complete_length [of str addr_len]
    uint_le_of_unat_le [of addr_len "length str - SOCKS5_MIN_LENGTH"] by linarith

lemma handle_connect_reply_buffer:
  assumes "handle_connect_reply ck str s = Some (n, s')"
  shows "buffer_kept s s' \<and> n \<le> int (length str)"
proof -
  have e: "buffer_kept s s'" if "socks5_error s = Some s' \<or> socks5_error (stop_timer s) = Some s'"
    using that socks5_error_buffer_kept [of "stop_timer s"] socks5_error_buffer_kept [of s]
    by (auto simp: buffer_kept_def)
  have r: "buffer_kept s s'" if "target_got_connect_reply (stop_timer s) = Some s'
      \<or> initiator_got_connect_reply (stop_timer s) = Some s'"
    using that by (auto intro!: buffer_keptI dest: target_reply_buffer initiator_reply_buffer)
  show ?thesis using assms
    by (auto simp: handle_connect_reply_def Let_def intro: buffer_keptI e r
        dest!: packet_complete_int split: if_splits bind_splits option.splits)
qed

lemma handle_auth_request_buffer:
  assumes "handle_auth_request w str s = Some (n, s')"
  shows "buffer_kept s s' \<and> n \<le> int (length str)"
proof -
  have b: "buffer_kept s (s1\<lparr>s5_state := st\<rparr>)" if "write_to_transport w d s = Some (r, s1)"
    for d r s1 st
    using write_buffer_kept [OF that] by (simp add: buffer_kept_def)
  show ?thesis using assms
    by (auto simp: handle_auth_request_def Let_def not_less intro: buffer_keptI b
        dest: uint_le_of_unat_le socks5_error_buffer_kept split: if_splits bind_splits)
qed

lemma handle_connect_command_buffer:
  assumes "handle_connect_command ck w str s = Some (n, s')"
  shows "buffer_kept s s' \<and> n \<le> int (length str)"
proof -
  have e: "buffer_kept s s'"
    if "socks5_error s = Some s' \<or> socks5_error (socks5_close_transport s) = Some s'"
    using that socks5_error_buffer_kept [of "socks5_close_transport s"]
      socks5_error_buffer_kept [of s] by (auto simp: buffer_kept_def)
  have b: "buffer_kept s (s2\<lparr>s5_listener := l\<rparr>)" if "write_to_transport w d s = Some (r, s1)"
    "block_receiving x (s1\<lparr>s5_state := st\<rparr>) = Some s2" for d r s1 s2 st x l
    using write_buffer_kept [OF that(1)] block_receiving_read_buffer [OF that(2)]
    by (simp add: buffer_kept_def)
  show ?thesis using assms
    by (auto simp: handle_connect_command_def Let_def intro: buffer_keptI e b
        dest!: packet_complete_int split: if_splits bind_splits option.splits)
qed

lemma handle_received_buffer:
  assumes "socks5_handle_received_data ck w str s = Some (n, s')"
  shows "buffer_kept s s' \<and> n \<le> int (length str)"
  using assms handle_auth_reply_buffer handle_connect_reply_buffer handle_auth_request_buffer
    handle_connect_command_buffer
  by (auto simp: socks5_handle_received_data_def intro: buffer_keptI split: Socks5State.splits)

text \<open>\<open>g_string_erase (string, 0, len)\<close>: a negative length erases everything, one that is too large is
  refused.\<close>

definition g_string_erase :: "int \<Rightarrow> bytes \<Rightarrow> bytes" where
  "g_string_erase len b =
     (if len < 0 then [] else if nat len > length b then b else drop (nat len) b)"

lemma g_string_erase_shorter:
  "b = str \<or> b = [] \<Longrightarrow> 0 < n \<Longrightarrow> n \<le> int (length str) \<Longrightarrow>
   g_string_erase n b \<noteq> [] \<Longrightarrow> length (g_string_erase n b) < length str"
  by (auto simp: g_string_erase_def split: if_splits)

text \<open>The loop of \<open>transport_handler\<close>; \<open>ws\<close> holds the outcomes of the writes, one for each iteration.\<close>

definition next_outcome :: "write_outcome list \<Rightarrow> write_outcome" where
  "next_outcome ws = (case ws of [] \<Rightarrow> W_all | w # _ \<Rightarrow> w)"

function transport_handler_loop ::
    "(bytes \<Rightarrow> bytes) \<Rightarrow> write_outcome list \<Rightarrow> s5 \<Rightarrow> s5 option" where
  "transport_handler_loop ck ws s =
     (case s5_read_buffer s of
        None \<Rightarrow> None
      | Some str \<Rightarrow>
          Option.bind (socks5_handle_received_data ck (next_outcome ws) str s) (\<lambda>(used_bytes, s1).
            case s5_read_buffer s1 of
              None \<Rightarrow> Some s1
            | Some b \<Rightarrow>
                let b1 = g_string_erase used_bytes b; s2 = s1\<lparr>s5_read_buffer := Some b1\<rparr>
                in if used_bytes > 0 \<and> b1 \<noteq> [] then transport_handler_loop ck (tl ws) s2
                   else Some s2))"
  by pat_completeness auto

termination
proof (relation "measure (\<lambda>(ck, ws, s). case s5_read_buffer s of None \<Rightarrow> 0 | Some b \<Rightarrow> length b)")
  fix ck ws s str p used_bytes s1 b b1 s2
  assume str: "s5_read_buffer s = Some str"
    and h: "socks5_handle_received_data ck (next_outcome ws) str s = Some p" "(used_bytes, s1) = p"
    and b: "s5_read_buffer s1 = Some b"
    and b1: "b1 = g_string_erase used_bytes b" "s2 = s1\<lparr>s5_read_buffer := Some b1\<rparr>"
    and c: "0 < used_bytes \<and> b1 \<noteq> []"
  from handle_received_buffer [of ck _ str s used_bytes s1] h str b
  have "(b = str \<or> b = []) \<and> used_bytes \<le> int (length str)"
    by (auto simp: buffer_kept_def)
  then have "length b1 < length str" using c b1(1) g_string_erase_shorter by blast
  with str b1(2) show "((ck, tl ws, s2), ck, ws, s)
      \<in> measure (\<lambda>(ck, ws, s). case s5_read_buffer s of None \<Rightarrow> 0 | Some b \<Rightarrow> length b)"
    by simp
qed simp

declare transport_handler_loop.simps [simp del]

definition transport_handler ::
    "(bytes \<Rightarrow> bytes) \<Rightarrow> write_outcome list \<Rightarrow> bytes \<Rightarrow> s5 \<Rightarrow> s5 option" where
  "transport_handler ck ws data s =
     (case s5_read_buffer s of
        None \<Rightarrow> None
      | Some b \<Rightarrow> transport_handler_loop ck ws (s\<lparr>s5_read_buffer := Some (b @ data)\<rparr>))"

section \<open>The operations of the bytestream\<close>

text \<open>\<open>GabbleSocks5Proxy\<close> and \<open>Streamhost\<close> have the same fields; the factory's list of proxies is the
  argument \<open>proxies\<close>.\<close>

type_synonym GabbleSocks5Proxy = Streamhost

definition gabble_bytestream_socks5_add_streamhost :: "WockyNode \<Rightarrow> s5 \<Rightarrow> s5" where
  "gabble_bytestream_socks5_add_streamhost streamhost_node s =
     (if tp_strdiff (Some (node_name streamhost_node)) (Some ''streamhost'') then s
      else if wocky_node_get_attribute streamhost_node ''zeroconf'' \<noteq> None then s
      else case wocky_node_get_attribute streamhost_node ''jid'' of
        None \<Rightarrow> s
      | Some jid \<Rightarrow>
          (case wocky_node_get_attribute streamhost_node ''host'' of
            None \<Rightarrow> s
          | Some host \<Rightarrow>
              (case wocky_node_get_attribute streamhost_node ''port'' of
                None \<Rightarrow> s
              | Some portstr \<Rightarrow>
                  let port = fst (strtol portstr)
                  in if port \<le> 0 \<or> port > 65535 then s
                     else if tp_strdiff (Some jid) (Some (s5_peer_jid s)) \<and> s5_muc_contact s then s
                     else s\<lparr>s5_streamhosts := s5_streamhosts s
                              @ [\<lparr>sh_jid = jid, sh_host = host, sh_port = word_of_int port\<rparr>]\<rparr>)))"

definition gabble_bytestream_socks5_connect_to_streamhost :: "s5 \<Rightarrow> s5 option" where
  "gabble_bytestream_socks5_connect_to_streamhost s =
     socks5_connect (s\<lparr>s5_msg_for_acknowledge_connection := True\<rparr>)"

definition gabble_bytestream_socks5_send ::
    "write_outcome \<Rightarrow> bytes \<Rightarrow> s5 \<Rightarrow> (bool \<times> s5) option" where
  "gabble_bytestream_socks5_send w str s =
     (if s5_bytestream_state s \<noteq> GABBLE_BYTESTREAM_STATE_OPEN then Some (False, s)
      else do {
        (ok, s1) \<leftarrow> write_to_transport w str s;
        if \<not> ok then Some (False, gabble_bytestream_socks5_close None s1)
        else case s5_transport s1 of
          None \<Rightarrow> Some (False, s1)
        | Some t \<Rightarrow>
            Some (True, if \<not> tr_empty t then s5_change_write_blocked_state True s1 else s1) })"

text \<open>\<open>sent\<close> is what \<open>_gabble_connection_send\<close> returns.\<close>

definition gabble_bytestream_socks5_accept :: "bool \<Rightarrow> s5 \<Rightarrow> s5" where
  "gabble_bytestream_socks5_accept sent s =
     (if s5_bytestream_state s \<noteq> GABBLE_BYTESTREAM_STATE_LOCAL_PENDING then s
      else if sent
      then s5_set_state GABBLE_BYTESTREAM_STATE_ACCEPTED (s5_emit S5_send_accept s)
      else s)"

definition s5_fail :: "s5 \<Rightarrow> s5" where
  "s5_fail s = s5_set_state GABBLE_BYTESTREAM_STATE_CLOSED (s5_emit S5_connection_error s)"

definition initiator_connected_to_proxy :: "GabbleSocks5Proxy list \<Rightarrow> s5 \<Rightarrow> s5 option" where
  "initiator_connected_to_proxy proxies s =
     (case find (\<lambda>p. \<not> tp_strdiff (Some (sh_jid p)) (s5_proxy_jid s)) proxies of
        None \<Rightarrow> Some (s5_fail s)
      | Some proxy \<Rightarrow>
          map_option (s5_emit (S5_connect_to (sh_host proxy) (sh_port proxy)))
            (set_transport False (s\<lparr>s5_state := SOCKS5_STATE_INITIATOR_TRYING_CONNECT\<rparr>)))"

text \<open>\<open>reply\<close> is the top node of the reply, or \<open>None\<close> when sending the query failed or the reply is an
  error.\<close>

definition socks5_init_reply_cb ::
    "GabbleSocks5Proxy list \<Rightarrow> WockyNode option \<Rightarrow> s5 \<Rightarrow> s5 option" where
  "socks5_init_reply_cb proxies reply s =
     (case reply of
        None \<Rightarrow> Some (s5_fail s)
      | Some top_node \<Rightarrow>
          (case Option.bind (wocky_node_get_child_ns top_node (Some ''query'') (Some NS_BYTESTREAMS))
                 (\<lambda>query. wocky_node_get_child query ''streamhost-used'') of
            None \<Rightarrow> Some (s5_fail s)
          | Some streamhost \<Rightarrow>
              (case wocky_node_get_attribute streamhost ''jid'' of
                None \<Rightarrow> Some (s5_fail s)
              | Some jid \<Rightarrow>
                  if tp_strdiff (Some jid) (Some (s5_self_full_jid s))
                  then if s5_state s \<noteq> SOCKS5_STATE_INITIATOR_OFFER_SENT then Some (s5_fail s)
                       else initiator_connected_to_proxy proxies (s\<lparr>s5_proxy_jid := Some jid\<rparr>)
                  else if s5_state s \<noteq> SOCKS5_STATE_CONNECTED then Some (s5_fail s)
                  else block_receiving False (s5_set_state GABBLE_BYTESTREAM_STATE_OPEN s))))"

definition socks5_activation_reply_cb :: "bool \<Rightarrow> s5 \<Rightarrow> s5 option" where
  "socks5_activation_reply_cb ok s =
     (if \<not> ok then Some (s5_fail s)
      else if s5_state s \<noteq> SOCKS5_STATE_INITIATOR_ACTIVATION_SENT then Some (s5_fail s)
      else block_receiving False
             (s5_set_state GABBLE_BYTESTREAM_STATE_OPEN (s\<lparr>s5_state := SOCKS5_STATE_CONNECTED\<rparr>)))"

definition new_connection_cb :: "s5 \<Rightarrow> s5 option" where
  "new_connection_cb s =
     set_transport True (s\<lparr>s5_state := SOCKS5_STATE_INITIATOR_AWAITING_AUTH_REQUEST\<rparr>)"

definition streamhost_node :: "string \<Rightarrow> string \<Rightarrow> string \<Rightarrow> WockyNode" where
  "streamhost_node jid host port =
     wocky_node_set_attribute (wocky_node_set_attribute (wocky_node_set_attribute
       (WockyNode ''streamhost'' None (Some NS_BYTESTREAMS) [] []) ''jid'' jid) ''host'' host)
       ''port'' port"

text \<open>The children of the query: our own addresses when we listen, then the proxies.\<close>

definition offered_streamhosts ::
    "GabbleSocks5Proxy list \<Rightarrow> string list \<Rightarrow> nat \<Rightarrow> s5 \<Rightarrow> WockyNode list" where
  "offered_streamhosts proxies ips port_num s =
     (if port_num \<noteq> 0
      then map (\<lambda>ip. streamhost_node (s5_self_full_jid s) ip (show_int (int port_num))) ips else [])
     @ (if \<not> s5_muc_contact s
        then map (\<lambda>p. streamhost_node (sh_jid p) (sh_host p) (show_int (uint (sh_port p)))) proxies
        else [])"

definition send_streamhosts ::
    "GabbleSocks5Proxy list \<Rightarrow> string list \<Rightarrow> nat \<Rightarrow> s5 \<Rightarrow> s5" where
  "send_streamhosts proxies ips port_num s =
     s5_emit
       (S5_send_offer
         (wocky_node_set_attribute (wocky_node_set_attribute
            (WockyNode ''query'' None (Some NS_BYTESTREAMS) []
               (offered_streamhosts proxies ips port_num s))
            ''sid'' (s5_stream_id s)) ''mode'' ''tcp''))
       (s\<lparr>s5_state := SOCKS5_STATE_INITIATOR_OFFER_SENT\<rparr>)"

text \<open>\<open>ips\<close> is what \<open>get_local_interfaces_ips\<close> finds, \<open>port\<close> the port the listener got, \<open>None\<close> when it
  cannot listen.\<close>

definition gabble_bytestream_socks5_initiate ::
    "GabbleSocks5Proxy list \<Rightarrow> string list \<Rightarrow> guint16 option \<Rightarrow> s5 \<Rightarrow> (bool \<times> s5) option" where
  "gabble_bytestream_socks5_initiate proxies ips port s =
     (if s5_bytestream_state s \<noteq> GABBLE_BYTESTREAM_STATE_INITIATING then Some (False, s)
      else if ips = [] then Some (True, send_streamhosts proxies [] 0 s)
      else if s5_listener s then None
      else
        let s1 = s\<lparr>s5_listener := True\<rparr>
        in Some (True, case port of
                         None \<Rightarrow> send_streamhosts proxies [] 0 s1
                       | Some p \<Rightarrow> send_streamhosts proxies ips (unat p) s1))"

definition gabble_bytestream_socks5_block_reading :: "bool \<Rightarrow> s5 \<Rightarrow> s5 option" where
  "gabble_bytestream_socks5_block_reading block s =
     (if s5_read_blocked s = block then Some s
      else
        let s1 = s\<lparr>s5_read_blocked := block\<rparr>
        in if s5_transport s1 \<noteq> None then block_receiving block s1 else Some s1)"

definition gabble_bytestream_socks5_dispose :: "s5 \<Rightarrow> s5" where
  "gabble_bytestream_socks5_dispose s =
     (if s5_dispose_has_run s then s
      else
        let s1 = stop_timer (s\<lparr>s5_dispose_has_run := True\<rparr>);
            s2 = (if s5_bytestream_state s1 \<noteq> GABBLE_BYTESTREAM_STATE_CLOSED
                  then gabble_bytestream_socks5_close None s1 else s1)
        in s2\<lparr>s5_transport := None, s5_listener := False\<rparr>)"

section \<open>The bytestream and its environment\<close>

text \<open>The callbacks the bytestream gets and the calls its clients make. The transport's own state
  changes before its signals: it is connected when \<open>connected\<close> is emitted, has dropped its buffer at
  \<open>disconnected\<close>, and has written everything at \<open>buffer-empty\<close>.\<close>

datatype s5_input =
    In_add_streamhost WockyNode
  | In_connect_to_streamhost
  | In_initiate "GabbleSocks5Proxy list" "string list" "guint16 option"
  | In_accept bool
  | In_send write_outcome bytes
  | In_close
  | In_block_reading bool
  | In_connected write_outcome
  | In_disconnected
  | In_received "write_outcome list" bytes
  | In_buffer_empty
  | In_new_connection
  | In_timeout
  | In_init_reply "GabbleSocks5Proxy list" "WockyNode option"
  | In_activation_reply bool
  | In_dispose

definition with_transport :: "(s5_transport \<Rightarrow> s5_transport) \<Rightarrow> s5 \<Rightarrow> s5" where
  "with_transport f s = s\<lparr>s5_transport := map_option f (s5_transport s)\<rparr>"

definition s5_step :: "(bytes \<Rightarrow> bytes) \<Rightarrow> s5_input \<Rightarrow> s5 \<Rightarrow> s5 option" where
  "s5_step ck i s =
     (case i of
        In_add_streamhost n \<Rightarrow> Some (gabble_bytestream_socks5_add_streamhost n s)
      | In_connect_to_streamhost \<Rightarrow> gabble_bytestream_socks5_connect_to_streamhost s
      | In_initiate proxies ips port \<Rightarrow>
          map_option snd (gabble_bytestream_socks5_initiate proxies ips port s)
      | In_accept sent \<Rightarrow> Some (gabble_bytestream_socks5_accept sent s)
      | In_send w d \<Rightarrow> map_option snd (gabble_bytestream_socks5_send w d s)
      | In_close \<Rightarrow> Some (gabble_bytestream_socks5_close None s)
      | In_block_reading b \<Rightarrow> gabble_bytestream_socks5_block_reading b s
      | In_connected w \<Rightarrow> transport_connected_cb w (with_transport (tr_connected_update (\<lambda>_. True)) s)
      | In_disconnected \<Rightarrow>
          transport_disconnected_cb
            (with_transport (tr_connected_update (\<lambda>_. False) \<circ> tr_empty_update (\<lambda>_. True)) s)
      | In_received ws d \<Rightarrow> transport_handler ck ws d s
      | In_buffer_empty \<Rightarrow>
          Some (transport_buffer_empty_cb (with_transport (tr_empty_update (\<lambda>_. True)) s))
      | In_new_connection \<Rightarrow> new_connection_cb s
      | In_timeout \<Rightarrow> socks5_timer_cb s
      | In_init_reply proxies r \<Rightarrow> socks5_init_reply_cb proxies r s
      | In_activation_reply ok \<Rightarrow> socks5_activation_reply_cb ok s
      | In_dispose \<Rightarrow> Some (gabble_bytestream_socks5_dispose s))"

end
