(* ===== verification/Socks5_Safety.thy ===== *)
theory Socks5_Safety
  imports Bytestream_Socks5
begin

text \<open>
  SOCKS5 bytestreams do not abort: the invariant of a bytestream, the events its environment may
  deliver, and the proof, operation by operation, that every legal event is handled and keeps the
  invariant; the interpretation \<open>s5_sys\<close> of \<open>safe_system\<close> sums it up for whole runs. Wherever the
  code asserts something, dereferences a transport or indexes the read buffer, the invariant says
  why this is all right.
\<close>

section \<open>Crash freedom\<close>

abbreviation target_negotiating :: "Socks5State \<Rightarrow> bool" where
  "target_negotiating st \<equiv> st = SOCKS5_STATE_TARGET_TRYING_CONNECT
     \<or> st = SOCKS5_STATE_TARGET_AUTH_REQUEST_SENT \<or> st = SOCKS5_STATE_TARGET_CONNECT_REQUESTED"

abbreviation trying_connect :: "Socks5State \<Rightarrow> bool" where
  "trying_connect st \<equiv> st = SOCKS5_STATE_TARGET_TRYING_CONNECT
     \<or> st = SOCKS5_STATE_INITIATOR_TRYING_CONNECT"

abbreviation awaiting_peer :: "Socks5State \<Rightarrow> bool" where
  "awaiting_peer st \<equiv> st = SOCKS5_STATE_INITIATOR_AWAITING_AUTH_REQUEST
     \<or> st = SOCKS5_STATE_INITIATOR_AWAITING_COMMAND"

abbreviation no_connection_yet :: "Socks5State \<Rightarrow> bool" where
  "no_connection_yet st \<equiv> st = SOCKS5_STATE_INVALID \<or> st = SOCKS5_STATE_INITIATOR_OFFER_SENT"

text \<open>The invariant of a bytestream that is neither closed nor disposed of.\<close>

definition s5_transport_ok :: "s5 \<Rightarrow> bool" where
  "s5_transport_ok s \<longleftrightarrow>
     (case s5_transport s of
        None \<Rightarrow> s5_read_buffer s = None
          \<and> (no_connection_yet (s5_state s) \<or> s5_state s = SOCKS5_STATE_ERROR)
      | Some t \<Rightarrow> s5_read_buffer s \<noteq> None
          \<and> \<not> no_connection_yet (s5_state s)
          \<and> (s5_state s \<noteq> SOCKS5_STATE_ERROR \<longrightarrow> (tr_connected t \<longleftrightarrow> \<not> trying_connect (s5_state s)))
          \<and> (s5_state s = SOCKS5_STATE_INITIATOR_ACTIVATION_SENT \<longrightarrow> tr_blocked t)
          \<and> (s5_bytestream_state s = GABBLE_BYTESTREAM_STATE_CLOSING \<longrightarrow> tr_connected t \<longrightarrow>
             tr_empty t \<longrightarrow> s5_state s = SOCKS5_STATE_INITIATOR_AWAITING_AUTH_REQUEST
               \<or> s5_state s = SOCKS5_STATE_ERROR))"

definition s5_negotiation_ok :: "s5 \<Rightarrow> bool" where
  "s5_negotiation_ok s \<longleftrightarrow>
     (target_negotiating (s5_state s) \<longrightarrow>
        s5_streamhosts s \<noteq> [] \<and> s5_msg_for_acknowledge_connection s)
     \<and> (s5_timer s \<longrightarrow> s5_state s = SOCKS5_STATE_TARGET_TRYING_CONNECT
        \<or> s5_state s = SOCKS5_STATE_TARGET_CONNECT_REQUESTED
        \<or> s5_state s = SOCKS5_STATE_INITIATOR_CONNECT_REQUESTED)
     \<and> (awaiting_peer (s5_state s) \<longrightarrow> s5_listener s)
     \<and> (s5_bytestream_state s = GABBLE_BYTESTREAM_STATE_OPEN \<longrightarrow> s5_state s = SOCKS5_STATE_CONNECTED)"

definition s5_gone :: "s5 \<Rightarrow> bool" where
  "s5_gone s \<longleftrightarrow> s5_dispose_has_run s \<or> s5_bytestream_state s = GABBLE_BYTESTREAM_STATE_CLOSED"

definition s5_inv :: "s5 \<Rightarrow> bool" where
  "s5_inv s \<longleftrightarrow> s5_gone s \<or> s5_transport_ok s \<and> s5_negotiation_ok s"

text \<open>A proxy relays nothing before it is told to activate the bytestream: it sends no more than its two
  replies.\<close>

definition connect_reply_only :: "bytes \<Rightarrow> bool" where
  "connect_reply_only b \<longleftrightarrow> length b < 5 \<or>
     (case reply_addr_len (b ! 3) (b ! 4) of
        None \<Rightarrow> True
      | Some addr_len \<Rightarrow> length b \<le> SOCKS5_MIN_LENGTH + unat addr_len)"

definition proxy_quiet :: "Socks5State \<Rightarrow> bytes \<Rightarrow> bool" where
  "proxy_quiet st b \<longleftrightarrow>
     (st = SOCKS5_STATE_INITIATOR_AUTH_REQUEST_SENT \<longrightarrow> connect_reply_only (drop 2 b))
     \<and> (st = SOCKS5_STATE_INITIATOR_CONNECT_REQUESTED \<longrightarrow> connect_reply_only b)"

text \<open>What the environment may do. The factory drops a closed bytestream, so that nothing but calls of
  the clients reaches it any more. Excluded are, beside what cannot happen: a second query or
  connection while there is a transport, a write that fails during the negotiation, a proxy that
  sends data too early, and unblocking while the activation is pending.\<close>

definition s5_legal :: "s5_input \<Rightarrow> s5 \<Rightarrow> bool" where
  "s5_legal i s \<longleftrightarrow>
     (case i of
        In_send w d \<Rightarrow> \<not> s5_dispose_has_run s
      | In_close \<Rightarrow> True
      | In_accept _ \<Rightarrow> True
      | In_add_streamhost _ \<Rightarrow> True
      | In_dispose \<Rightarrow> True
      | In_block_reading b \<Rightarrow> b \<or> s5_state s \<noteq> SOCKS5_STATE_INITIATOR_ACTIVATION_SENT
      | In_connect_to_streamhost \<Rightarrow> \<not> s5_gone s \<and> s5_state s = SOCKS5_STATE_INVALID
          \<and> \<not> s5_listener s
      | In_initiate _ _ _ \<Rightarrow> \<not> s5_gone s \<and> s5_state s = SOCKS5_STATE_INVALID \<and> \<not> s5_listener s
      | In_connected w \<Rightarrow> \<not> s5_gone s \<and> trying_connect (s5_state s) \<and> w \<noteq> W_failed
      | In_disconnected \<Rightarrow> \<not> s5_gone s \<and> s5_transport s \<noteq> None
      | In_received ws d \<Rightarrow> \<not> s5_gone s \<and> W_failed \<notin> set ws
          \<and> (case (s5_transport s, s5_read_buffer s) of
               (Some t, Some b) \<Rightarrow> tr_connected t \<and> \<not> tr_blocked t \<and> proxy_quiet (s5_state s) (b @ d)
             | _ \<Rightarrow> False)
      | In_buffer_empty \<Rightarrow> \<not> s5_gone s \<and> s5_transport s \<noteq> None
      | In_new_connection \<Rightarrow> \<not> s5_gone s \<and> s5_listener s \<and> s5_transport s = None
          \<and> s5_state s \<noteq> SOCKS5_STATE_INVALID
      | In_timeout \<Rightarrow> \<not> s5_gone s \<and> s5_timer s
      | In_init_reply _ _ \<Rightarrow> \<not> s5_gone s
      | In_activation_reply _ \<Rightarrow> \<not> s5_gone s)"

lemmas s5_inv_defs = s5_inv_def s5_gone_def s5_transport_ok_def s5_negotiation_ok_def

lemma s5_init_inv: "s5_inv (gabble_bytestream_socks5_init st sid peer self muc)"
  if "st \<noteq> GABBLE_BYTESTREAM_STATE_OPEN"
  using that by (simp add: s5_inv_defs gabble_bytestream_socks5_init_def)

text \<open>The fields the small operations leave alone.\<close>

lemma s5_emit_fields [simp]:
  "s5_bytestream_state (s5_emit e s) = s5_bytestream_state s" "s5_state (s5_emit e s) = s5_state s"
  "s5_transport (s5_emit e s) = s5_transport s" "s5_timer (s5_emit e s) = s5_timer s"
  "s5_streamhosts (s5_emit e s) = s5_streamhosts s" "s5_listener (s5_emit e s) = s5_listener s"
  "s5_msg_for_acknowledge_connection (s5_emit e s) = s5_msg_for_acknowledge_connection s"
  "s5_dispose_has_run (s5_emit e s) = s5_dispose_has_run s"
  "s5_read_blocked (s5_emit e s) = s5_read_blocked s"
  "s5_trace (s5_emit e s) = s5_trace s @ [e]"
  by (simp_all add: s5_emit_def)

lemma s5_set_state_fields [simp]:
  "s5_bytestream_state (s5_set_state st s) = st" "s5_state (s5_set_state st s) = s5_state s"
  "s5_transport (s5_set_state st s) = s5_transport s" "s5_timer (s5_set_state st s) = s5_timer s"
  "s5_streamhosts (s5_set_state st s) = s5_streamhosts s"
  "s5_listener (s5_set_state st s) = s5_listener s"
  "s5_msg_for_acknowledge_connection (s5_set_state st s) = s5_msg_for_acknowledge_connection s"
  "s5_dispose_has_run (s5_set_state st s) = s5_dispose_has_run s"
  "s5_read_blocked (s5_set_state st s) = s5_read_blocked s"
  by (simp_all add: s5_set_state_def)

lemma stop_timer_fields [simp]:
  "s5_bytestream_state (stop_timer s) = s5_bytestream_state s" "s5_state (stop_timer s) = s5_state s"
  "s5_transport (stop_timer s) = s5_transport s" "s5_timer (stop_timer s) = False"
  "s5_streamhosts (stop_timer s) = s5_streamhosts s" "s5_listener (stop_timer s) = s5_listener s"
  "s5_msg_for_acknowledge_connection (stop_timer s) = s5_msg_for_acknowledge_connection s"
  "s5_dispose_has_run (stop_timer s) = s5_dispose_has_run s"
  "s5_read_blocked (stop_timer s) = s5_read_blocked s" "s5_trace (stop_timer s) = s5_trace s"
  by (simp_all add: stop_timer_def)

lemma write_blocked_fields [simp]:
  "s5_bytestream_state (s5_change_write_blocked_state b s) = s5_bytestream_state s"
  "s5_state (s5_change_write_blocked_state b s) = s5_state s"
  "s5_transport (s5_change_write_blocked_state b s) = s5_transport s"
  "s5_timer (s5_change_write_blocked_state b s) = s5_timer s"
  "s5_streamhosts (s5_change_write_blocked_state b s) = s5_streamhosts s"
  "s5_listener (s5_change_write_blocked_state b s) = s5_listener s"
  "s5_msg_for_acknowledge_connection (s5_change_write_blocked_state b s)
     = s5_msg_for_acknowledge_connection s"
  "s5_dispose_has_run (s5_change_write_blocked_state b s) = s5_dispose_has_run s"
  by (simp_all add: s5_change_write_blocked_state_def)

lemma close_transport_fields [simp]:
  "s5_bytestream_state (socks5_close_transport s) = s5_bytestream_state s"
  "s5_state (socks5_close_transport s) = s5_state s"
  "s5_transport (socks5_close_transport s) = None" "s5_timer (socks5_close_transport s) = s5_timer s"
  "s5_streamhosts (socks5_close_transport s) = s5_streamhosts s"
  "s5_listener (socks5_close_transport s) = s5_listener s"
  "s5_msg_for_acknowledge_connection (socks5_close_transport s)
     = s5_msg_for_acknowledge_connection s"
  "s5_dispose_has_run (socks5_close_transport s) = s5_dispose_has_run s"
  by (simp_all add: socks5_close_transport_def)

lemma bytestream_closed_closed [simp]:
  "s5_bytestream_state (bytestream_closed s) = GABBLE_BYTESTREAM_STATE_CLOSED"
  by (simp add: bytestream_closed_def)

text \<open>\<open>s5_inv\<close> looks at few fields.\<close>

lemma s5_inv_gone: "s5_gone s \<Longrightarrow> s5_inv s"
  by (simp add: s5_inv_def)

lemma s5_inv_cong:
  assumes "s5_bytestream_state s' = s5_bytestream_state s" "s5_state s' = s5_state s"
    "s5_transport s' = s5_transport s" "s5_timer s' = s5_timer s"
    "s5_streamhosts s' = s5_streamhosts s" "s5_listener s' = s5_listener s"
    "s5_msg_for_acknowledge_connection s' = s5_msg_for_acknowledge_connection s"
    "s5_dispose_has_run s' = s5_dispose_has_run s"
    "s5_read_buffer s' = None \<longleftrightarrow> s5_read_buffer s = None"
  shows "s5_inv s' = s5_inv s"
  unfolding s5_inv_defs assms ..

lemma s5_inv_emit [simp]: "s5_inv (s5_emit e s) = s5_inv s"
  by (rule s5_inv_cong) simp_all

lemma s5_inv_write_blocked [simp]: "s5_inv (s5_change_write_blocked_state b s) = s5_inv s"
  by (rule s5_inv_cong) simp_all

lemma s5_inv_closed [simp]: "s5_inv (s5_set_state GABBLE_BYTESTREAM_STATE_CLOSED s)"
  by (simp add: s5_inv_gone s5_gone_def)

lemma s5_inv_bytestream_closed [simp]: "s5_inv (bytestream_closed s)"
  by (simp add: s5_inv_gone s5_gone_def)

lemma close_cases:
  obtains (closed) "s5_bytestream_state s = GABBLE_BYTESTREAM_STATE_CLOSED"
      "gabble_bytestream_socks5_close e s = s"
  | (closes) "s5_bytestream_state (gabble_bytestream_socks5_close e s)
       = GABBLE_BYTESTREAM_STATE_CLOSED"
  | (waits) t where "s5_transport s = Some t" "\<not> tr_empty t"
      "s5_bytestream_state s \<noteq> GABBLE_BYTESTREAM_STATE_CLOSED"
      "gabble_bytestream_socks5_close e s = s5_set_state GABBLE_BYTESTREAM_STATE_CLOSING s"
proof -
  let ?c = "gabble_bytestream_socks5_close e s"
  have "s5_bytestream_state s = GABBLE_BYTESTREAM_STATE_CLOSED \<and> ?c = s
      \<or> s5_bytestream_state ?c = GABBLE_BYTESTREAM_STATE_CLOSED
      \<or> (\<exists>t. s5_transport s = Some t \<and> \<not> tr_empty t
           \<and> s5_bytestream_state s \<noteq> GABBLE_BYTESTREAM_STATE_CLOSED
           \<and> ?c = s5_set_state GABBLE_BYTESTREAM_STATE_CLOSING s)"
    by (cases "s5_transport s")
      (simp_all add: gabble_bytestream_socks5_close_def gabble_bytestream_socks5_decline_def Let_def)
  then show ?thesis using that by blast
qed

lemma s5_close_ok:
  assumes "s5_gone s \<or> s5_transport_ok s \<and> s5_negotiation_ok (s5_set_state GABBLE_BYTESTREAM_STATE_CLOSING s)"
  shows "s5_inv (gabble_bytestream_socks5_close e s)"
proof (cases rule: close_cases [of s e])
  case closed
  then show ?thesis by (simp add: s5_inv_gone s5_gone_def)
next
  case closes
  then show ?thesis by (simp add: s5_inv_gone s5_gone_def)
next
  case (waits t)
  with assms show ?thesis
    by (auto simp: s5_inv_def s5_gone_def s5_transport_ok_def)
qed

lemma s5_close_inv: "s5_inv s \<Longrightarrow> s5_inv (gabble_bytestream_socks5_close e s)"
  by (rule s5_close_ok) (auto simp: s5_inv_def s5_negotiation_ok_def)

text \<open>Errors are handled in every state, also when the transport has just gone.\<close>

lemma connect_first_safe:
  assumes "s5_streamhosts s \<noteq> []" "s5_read_buffer s = None" "\<not> s5_timer s"
    "s5_msg_for_acknowledge_connection s" "s5_bytestream_state s \<noteq> GABBLE_BYTESTREAM_STATE_OPEN"
  shows "\<exists>s'. socks5_connect_first s = Some s' \<and> s5_inv s'"
  using assms
  by (cases "s5_streamhosts s")
    (simp_all add: socks5_connect_first_def set_transport_def start_timer_def Let_def s5_inv_def
      s5_transport_ok_def s5_negotiation_ok_def)

lemma socks5_error_safe:
  assumes "s5_transport s = None \<longleftrightarrow> s5_read_buffer s = None" and n: "s5_negotiation_ok s"
  shows "\<exists>s'. socks5_error s = Some s' \<and> s5_inv s'"
proof -
  let ?s = "(stop_timer s)\<lparr>s5_state := SOCKS5_STATE_ERROR\<rparr>"
  have t: "s5_transport_ok ?s"
    using assms(1) by (auto simp: s5_transport_ok_def split: option.splits)
  consider (target) "target_negotiating (s5_state s)" | (awaiting) "awaiting_peer (s5_state s)"
    | (other) "\<not> target_negotiating (s5_state s)" "\<not> awaiting_peer (s5_state s)" by blast
  then show ?thesis
  proof cases
    case target
    then have m: "s5_msg_for_acknowledge_connection s"
      and o: "s5_bytestream_state s \<noteq> GABBLE_BYTESTREAM_STATE_OPEN"
      using n by (auto simp: s5_negotiation_ok_def)
    let ?n = "(socks5_close_transport ?s)\<lparr>s5_streamhosts := tl (s5_streamhosts s)\<rparr>"
    show ?thesis
    proof (cases "tl (s5_streamhosts s) = []")
      case True
      with target m o show ?thesis
        by (elim disjE) (simp_all add: socks5_error_def Let_def s5_inv_def s5_transport_ok_def
          s5_negotiation_ok_def)
    next
      case False
      from connect_first_safe [of ?n] False m o
      have "\<exists>s'. socks5_connect_first ?n = Some s' \<and> s5_inv s'" by simp
      with target False show ?thesis
        by (elim disjE) (simp_all add: socks5_error_def Let_def)
    qed
  next
    case awaiting
    then have "s5_inv ?s" using n t by (auto simp: s5_inv_def s5_negotiation_ok_def)
    with awaiting show ?thesis by (auto simp: socks5_error_def Let_def)
  next
    case other
    have "s5_inv (gabble_bytestream_socks5_close None ?s)"
      by (rule s5_close_ok) (use t in \<open>simp add: s5_negotiation_ok_def\<close>)
    with other show ?thesis
      by (cases "s5_state s") (simp_all add: socks5_error_def Let_def)
  qed
qed

lemma s5_inv_live:
  "s5_inv s \<Longrightarrow> \<not> s5_gone s \<Longrightarrow>
   s5_negotiation_ok s \<and> s5_transport_ok s \<and> (s5_transport s = None \<longleftrightarrow> s5_read_buffer s = None)"
  by (auto simp: s5_inv_def s5_transport_ok_def split: option.splits)

lemma live_error_safe:
  "s5_inv s \<Longrightarrow> \<not> s5_gone s \<Longrightarrow> \<exists>s'. socks5_error s = Some s' \<and> s5_inv s'"
  using s5_inv_live socks5_error_safe by blast

lemma disconnected_safe:
  assumes "s5_inv s" "\<not> s5_gone s"
  shows "\<exists>s'. transport_disconnected_cb (with_transport f s) = Some s' \<and> s5_inv s'"
proof -
  from s5_inv_live [OF assms] have "s5_negotiation_ok (stop_timer (with_transport f s))"
    and "s5_transport (stop_timer (with_transport f s)) = None
       \<longleftrightarrow> s5_read_buffer (stop_timer (with_transport f s)) = None"
    by (auto simp: s5_negotiation_ok_def with_transport_def)
  then show ?thesis unfolding transport_disconnected_cb_def by (intro socks5_error_safe)
qed

text \<open>A write that does not fail: it is done, and either closes a stream that was waiting for that, or
  changes nothing but the transport's buffer.\<close>

lemma write_cases:
  assumes t: "s5_transport s = Some t" "tr_connected t" and w: "w \<noteq> W_failed \<or> \<not> tr_empty t"
  obtains (closing) s' where "write_to_transport w d s = Some (True, s')"
      "s5_bytestream_state s = GABBLE_BYTESTREAM_STATE_CLOSING" "s' = bytestream_closed (s5_emit (S5_write d) s)"
      "d = [] \<or> tr_empty t"
  | (written) s' where "write_to_transport w d s = Some (True, s')"
      "s' = s5_emit (S5_write d) s
        \<or> s' = s5_change_write_blocked_state False (s5_emit (S5_write d) s)"
      "s5_bytestream_state s \<noteq> GABBLE_BYTESTREAM_STATE_CLOSING"
  | (buffered) s' where "write_to_transport w d s = Some (True, s')"
      "s' = s5_emit (S5_write d) (s\<lparr>s5_transport := Some (t\<lparr>tr_empty := False\<rparr>)\<rparr>)"
proof (cases "d = [] \<or> tr_empty t \<and> w = W_all")
  case True
  then have "write_to_transport w d s
      = Some (True, transport_buffer_empty_cb (s5_emit (S5_write d) s))"
    using t w by (auto simp: write_to_transport_def)
  with True show ?thesis
    using closing written by (fastforce simp: transport_buffer_empty_cb_def split: if_splits)
next
  case False
  then have "write_to_transport w d s = Some (True,
      s5_emit (S5_write d) (s\<lparr>s5_transport := Some (t\<lparr>tr_empty := False\<rparr>)\<rparr>))"
    using t w by (auto simp: write_to_transport_def)
  then show ?thesis using buffered by blast
qed

definition only_buffered :: "s5 \<Rightarrow> s5 \<Rightarrow> bool" where
  "only_buffered s s1 \<longleftrightarrow>
     s5_bytestream_state s1 = s5_bytestream_state s \<and> s5_state s1 = s5_state s
     \<and> s5_timer s1 = s5_timer s \<and> s5_streamhosts s1 = s5_streamhosts s
     \<and> s5_listener s1 = s5_listener s
     \<and> s5_msg_for_acknowledge_connection s1 = s5_msg_for_acknowledge_connection s
     \<and> s5_dispose_has_run s1 = s5_dispose_has_run s \<and> s5_read_buffer s1 = s5_read_buffer s
     \<and> (\<exists>t. s5_transport s = Some t
          \<and> (s5_transport s1 = Some (t\<lparr>tr_empty := False\<rparr>)
             \<or> s5_transport s1 = Some t \<and> s5_bytestream_state s \<noteq> GABBLE_BYTESTREAM_STATE_CLOSING))"

lemma write_safe:
  assumes "s5_transport s = Some t" "tr_connected t" "w \<noteq> W_failed \<or> \<not> tr_empty t"
  obtains s1 where "write_to_transport w d s = Some (True, s1)"
    "only_buffered s s1
     \<or> s5_bytestream_state s1 = GABBLE_BYTESTREAM_STATE_CLOSED \<and> s5_transport s1 = None
       \<and> s5_read_buffer s1 = None \<and> s5_timer s1 = s5_timer s
       \<and> s5_bytestream_state s = GABBLE_BYTESTREAM_STATE_CLOSING \<and> (d = [] \<or> tr_empty t)"
proof (cases rule: write_cases [OF assms, of d, case_names closing written buffered])
  case (closing s')
  with that show ?thesis by (simp add: bytestream_closed_def)
next
  case (written s')
  then have "only_buffered s s'" using assms(1) by (auto simp: only_buffered_def)
  with written that show ?thesis by blast
next
  case (buffered s')
  then have "only_buffered s s'" using assms(1) by (auto simp: only_buffered_def)
  with buffered that show ?thesis by blast
qed

text \<open>The state before \<open>socks5_handle_received_data\<close> is called, and what it leaves.\<close>

definition ready_to_handle :: "bytes \<Rightarrow> s5 \<Rightarrow> bool" where
  "ready_to_handle str s \<longleftrightarrow>
     s5_inv s \<and> \<not> s5_gone s \<and> s5_read_buffer s = Some str
     \<and> (\<exists>t. s5_transport s = Some t \<and> tr_connected t)
     \<and> s5_state s \<noteq> SOCKS5_STATE_INITIATOR_ACTIVATION_SENT \<and> proxy_quiet (s5_state s) str"

definition handled_ok :: "bytes \<Rightarrow> int \<Rightarrow> s5 \<Rightarrow> bool" where
  "handled_ok str n s \<longleftrightarrow>
     s5_inv s
     \<and> (0 < n \<longrightarrow> s5_read_buffer s \<noteq> None \<longrightarrow> drop (nat n) str \<noteq> [] \<longrightarrow>
          \<not> s5_gone s \<and> s5_read_buffer s = Some str
          \<and> (\<exists>t. s5_transport s = Some t \<and> tr_connected t)
          \<and> s5_state s \<noteq> SOCKS5_STATE_INITIATOR_ACTIVATION_SENT
          \<and> proxy_quiet (s5_state s) (drop (nat n) str))"

lemma handled_ok_nothing: "s5_inv s \<Longrightarrow> n \<le> 0 \<Longrightarrow> handled_ok str n s"
  by (simp add: handled_ok_def)

lemma error_handled:
  assumes "ready_to_handle str s"
  shows "\<exists>n s'. map_option (Pair (- 1)) (socks5_error s) = Some (n, s') \<and> handled_ok str n s'"
  using live_error_safe [of s] assms by (auto simp: ready_to_handle_def handled_ok_nothing)

lemma ready_state:
  assumes "ready_to_handle str s"
  shows "\<not> trying_connect (s5_state s) \<and> \<not> no_connection_yet (s5_state s)
    \<or> s5_state s = SOCKS5_STATE_ERROR"
  using assms by (auto simp: ready_to_handle_def s5_inv_def s5_transport_ok_def)

lemma str_at_header:
  "\<not> length str < 2 \<Longrightarrow> str_at str 0 = Some (str ! 0)"
  "\<not> length str < 2 \<Longrightarrow> str_at str (Suc 0) = Some (str ! 1)"
  "\<not> length str < SOCKS5_MIN_LENGTH \<Longrightarrow> str_at str 0 = Some (str ! 0)"
  "\<not> length str < SOCKS5_MIN_LENGTH \<Longrightarrow> str_at str (Suc 0) = Some (str ! 1)"
  "\<not> length str < SOCKS5_MIN_LENGTH \<Longrightarrow> str_at str 2 = Some (str ! 2)"
  "\<not> length str < SOCKS5_MIN_LENGTH \<Longrightarrow> str_at str 3 = Some (str ! 3)"
  "\<not> length str < SOCKS5_MIN_LENGTH \<Longrightarrow> str_at str 4 = Some (str ! 4)"
  by (auto simp: SOCKS5_MIN_LENGTH_def str_at_def)

definition sha1_like :: "(bytes \<Rightarrow> bytes) \<Rightarrow> bool" where
  "sha1_like ck \<longleftrightarrow> (\<forall>b. length (ck b) = 40 \<and> 0 \<notin> set (ck b))"

lemma sha1_hex_defined: "sha1_like ck \<Longrightarrow> \<exists>h. sha1_hex ck b = Some h"
  by (auto simp: sha1_hex_def sha1_like_def SHA1_HASH_SIZE_def)

lemma domain_for_defined: "sha1_like ck \<Longrightarrow> \<exists>h. domain_for ck tgt s = Some h"
  using sha1_hex_defined by (simp add: domain_for_def compute_domain_def)

lemma handle_auth_reply_safe:
  assumes ck: "sha1_like ck" and r: "ready_to_handle str s" and w: "w \<noteq> W_failed"
    and st: "s5_state s = SOCKS5_STATE_TARGET_AUTH_REQUEST_SENT
      \<or> s5_state s = SOCKS5_STATE_INITIATOR_AUTH_REQUEST_SENT"
  shows "\<exists>n s'. handle_auth_reply ck w str s = Some (n, s') \<and> handled_ok str n s'"
proof (cases "2 \<le> length str \<and> str ! 0 = SOCKS5_VERSION \<and> str ! 1 = SOCKS5_STATUS_OK")
  case False
  with r error_handled [OF r] show ?thesis
    by (auto simp: handle_auth_reply_def str_at_header handled_ok_nothing ready_to_handle_def)
next
  case True
  obtain domain where d: "domain_for ck (s5_state s = SOCKS5_STATE_TARGET_AUTH_REQUEST_SENT) s
      = Some domain" using domain_for_defined [OF ck] by blast
  from r obtain t where t: "s5_transport s = Some t" "tr_connected t"
    by (auto simp: ready_to_handle_def)
  from r st t have live: "s5_transport_ok s" "s5_negotiation_ok s" "\<not> s5_timer s" "\<not> s5_gone s"
    by (auto simp: ready_to_handle_def s5_inv_def s5_negotiation_ok_def)
  obtain s1 where s1: "write_to_transport w (connect_message SOCKS5_CMD_CONNECT domain) s
      = Some (True, s1)" "only_buffered s s1
     \<or> s5_bytestream_state s1 = GABBLE_BYTESTREAM_STATE_CLOSED \<and> s5_transport s1 = None
       \<and> s5_read_buffer s1 = None \<and> s5_timer s1 = s5_timer s"
    using write_safe [OF t, of w] w by metis
  let ?s = "if s5_state s1 = SOCKS5_STATE_TARGET_AUTH_REQUEST_SENT
     then s1\<lparr>s5_state := SOCKS5_STATE_TARGET_CONNECT_REQUESTED\<rparr>
     else s1\<lparr>s5_state := SOCKS5_STATE_INITIATOR_CONNECT_REQUESTED\<rparr>"
  have e: "handle_auth_reply ck w str s = Some (2, ?s\<lparr>s5_timer := True\<rparr>)"
    using True d s1 live(3)
    by (auto simp: handle_auth_reply_def str_at_header start_timer_def only_buffered_def)
  have "handled_ok str 2 (?s\<lparr>s5_timer := True\<rparr>)"
    using s1(2)
  proof
    assume b: "only_buffered s s1"
    with st t live r show ?thesis
      by (elim disjE; auto simp: only_buffered_def handled_ok_def ready_to_handle_def
        s5_inv_def s5_gone_def s5_transport_ok_def s5_negotiation_ok_def proxy_quiet_def)
  next
    assume "s5_bytestream_state s1 = GABBLE_BYTESTREAM_STATE_CLOSED \<and> s5_transport s1 = None
       \<and> s5_read_buffer s1 = None \<and> s5_timer s1 = s5_timer s"
    then show ?thesis by (auto simp: handled_ok_def s5_inv_def s5_gone_def)
  qed
  with e show ?thesis by blast
qed


lemma block_receiving_some:
  "s5_transport s = Some t \<Longrightarrow>
   block_receiving b s = Some (s\<lparr>s5_transport := Some (t\<lparr>tr_blocked := b\<rparr>)\<rparr>)"
  by (simp add: block_receiving_def)

lemma target_reply_safe:
  assumes "ready_to_handle str s" "s5_state s = SOCKS5_STATE_TARGET_CONNECT_REQUESTED"
  shows "\<exists>s'. target_got_connect_reply (stop_timer s) = Some s' \<and> handled_ok str n s'"
proof -
  from assms obtain t h hs where t: "s5_transport s = Some t" "tr_connected t"
    and h: "s5_streamhosts s = h # hs" and "\<not> s5_gone s" "s5_transport_ok s" "s5_read_buffer s = Some str"
    by (cases "s5_streamhosts s")
      (auto simp: ready_to_handle_def s5_inv_def s5_negotiation_ok_def)
  then show ?thesis
    by (simp add: target_got_connect_reply_def Let_def block_receiving_some handled_ok_def
        s5_inv_def s5_gone_def s5_transport_ok_def s5_negotiation_ok_def proxy_quiet_def assms(2))
qed

lemma initiator_reply_safe:
  assumes "ready_to_handle str s" "s5_state s = SOCKS5_STATE_INITIATOR_CONNECT_REQUESTED"
    and "drop (nat n) str = []"
  shows "\<exists>s'. initiator_got_connect_reply (stop_timer s) = Some s' \<and> handled_ok str n s'"
proof -
  from assms(1) obtain t where t: "s5_transport s = Some t" "tr_connected t"
    and "\<not> s5_gone s" "s5_transport_ok s" "s5_negotiation_ok s" "s5_read_buffer s = Some str"
    by (auto simp: ready_to_handle_def s5_inv_def)
  with assms(2,3) show ?thesis
    by (auto simp: initiator_got_connect_reply_def block_receiving_some handled_ok_def
        s5_inv_def s5_gone_def s5_transport_ok_def s5_negotiation_ok_def)
qed

lemma reply_is_all:
  assumes "proxy_quiet SOCKS5_STATE_INITIATOR_CONNECT_REQUESTED str"
    and "\<not> length str < SOCKS5_MIN_LENGTH" and "reply_addr_len (str ! 3) (str ! 4) = Some a"
  shows "drop (nat (int SOCKS5_MIN_LENGTH + uint a)) str = []"
proof -
  have "length str \<le> SOCKS5_MIN_LENGTH + unat a"
    using assms by (auto simp: proxy_quiet_def connect_reply_only_def SOCKS5_MIN_LENGTH_def)
  moreover have "nat (int SOCKS5_MIN_LENGTH + uint a) = SOCKS5_MIN_LENGTH + unat a"
    by (simp only: uint_nat of_nat_add [symmetric] nat_int)
  ultimately show ?thesis by simp
qed

lemma str_at_port:
  "\<not> packet_incomplete str a \<Longrightarrow> \<exists>x. str_at str (4 + unat a) = Some x"
  "\<not> packet_incomplete str a \<Longrightarrow> \<exists>x. str_at str (5 + unat a) = Some x"
  by (auto dest!: packet_complete_length simp: str_at_def SOCKS5_MIN_LENGTH_def)

lemma stop_timer_ok:
  "s5_transport_ok (stop_timer s) = s5_transport_ok s"
  "s5_negotiation_ok s \<Longrightarrow> s5_negotiation_ok (stop_timer s)"
  "s5_gone (stop_timer s) = s5_gone s"
  by (simp_all add: s5_transport_ok_def s5_negotiation_ok_def s5_gone_def split: option.split)

lemma ready_stop_timer: "ready_to_handle str s \<Longrightarrow> ready_to_handle str (stop_timer s)"
  by (auto simp: ready_to_handle_def s5_inv_def stop_timer_ok)

lemma handle_connect_reply_safe:
  assumes ck: "sha1_like ck" and r: "ready_to_handle str s"
    and st: "s5_state s = SOCKS5_STATE_TARGET_CONNECT_REQUESTED
      \<or> s5_state s = SOCKS5_STATE_INITIATOR_CONNECT_REQUESTED"
  shows "\<exists>n s'. handle_connect_reply ck str s = Some (n, s') \<and> handled_ok str n s'"
proof (cases "length str < SOCKS5_MIN_LENGTH \<or> str ! 0 \<noteq> SOCKS5_VERSION \<or> str ! 1 \<noteq> SOCKS5_STATUS_OK
    \<or> str ! 2 \<noteq> SOCKS5_RESERVED \<or> reply_addr_len (str ! 3) (str ! 4) = None")
  case True
  with r error_handled [OF r] show ?thesis
    by (auto simp: handle_connect_reply_def str_at_header handled_ok_nothing ready_to_handle_def)
next
  case False
  then obtain a where a: "reply_addr_len (str ! 3) (str ! 4) = Some a"
    and l: "\<not> length str < SOCKS5_MIN_LENGTH" by blast
  obtain x where x: "domain_for ck (s5_state s = SOCKS5_STATE_TARGET_CONNECT_REQUESTED) (stop_timer s)
      = Some x" using domain_for_defined [OF ck] by blast
  show ?thesis
  proof (cases "packet_incomplete str a")
    case True
    with False a r show ?thesis
      by (simp add: handle_connect_reply_def str_at_header handled_ok_nothing ready_to_handle_def)
  next
    case complete: False
    obtain p q where pq: "str_at str (4 + unat a) = Some p" "str_at str (5 + unat a) = Some q"
      using str_at_port [OF complete] by blast
    let ?n = "int (SOCKS5_MIN_LENGTH + unat a)"
    have e: "handle_connect_reply ck str s =
      (if p \<noteq> 0 \<or> q \<noteq> 0 then map_option (Pair (- 1)) (socks5_error (stop_timer s))
       else map_option (Pair ?n)
         (if s5_state s = SOCKS5_STATE_TARGET_CONNECT_REQUESTED
          then target_got_connect_reply (stop_timer s)
          else initiator_got_connect_reply (stop_timer s)))"
      using False a complete pq x
      by (simp add: handle_connect_reply_def str_at_header Let_def map_option_bind comp_def
          map_conv_bind_option)
    have "drop (nat ?n) str = []" if "s5_state s = SOCKS5_STATE_INITIATOR_CONNECT_REQUESTED"
      using reply_is_all [OF _ l a] r that by (simp add: ready_to_handle_def)
    with st target_reply_safe [OF r, of ?n] initiator_reply_safe [OF r, of ?n]
      error_handled [OF ready_stop_timer [OF r]]
    show ?thesis unfolding e by (auto split: if_splits)
  qed
qed

lemma only_buffered_inv:
  assumes "only_buffered s s1" "ready_to_handle str s" "awaiting_peer (s5_state s)"
    and "st = SOCKS5_STATE_INITIATOR_AWAITING_COMMAND \<or> st = SOCKS5_STATE_CONNECTED"
  shows "handled_ok str n (s1\<lparr>s5_state := st\<rparr>)"
proof -
  from assms(1,2) obtain t where t: "s5_transport s1 = Some t" "tr_connected t"
    and c: "s5_bytestream_state s1 = GABBLE_BYTESTREAM_STATE_CLOSING \<Longrightarrow> \<not> tr_empty t"
    by (auto simp: only_buffered_def ready_to_handle_def)
  have "s5_transport_ok (s1\<lparr>s5_state := st\<rparr>)"
    using assms t c by (auto simp: only_buffered_def ready_to_handle_def s5_transport_ok_def)
  moreover have "s5_negotiation_ok s" "\<not> s5_gone s" "s5_read_buffer s = Some str"
    using assms(2) by (auto simp: ready_to_handle_def s5_inv_def)
  ultimately show ?thesis
    using assms(1,3,4) t
    by (auto simp: handled_ok_def s5_inv_def s5_gone_def only_buffered_def s5_negotiation_ok_def
        proxy_quiet_def)
qed

lemma handle_auth_request_safe:
  assumes r: "ready_to_handle str s" and w: "w \<noteq> W_failed"
    and st: "s5_state s = SOCKS5_STATE_INITIATOR_AWAITING_AUTH_REQUEST"
  shows "\<exists>n s'. handle_auth_request w str s = Some (n, s') \<and> handled_ok str n s'"
proof (cases "\<not> length str < 2 \<and> str ! 0 = SOCKS5_VERSION
    \<and> \<not> length str < unat (auth_request_len (str ! 1))
    \<and> SOCKS5_AUTH_NONE \<in> set (drop 2 (take (unat (auth_request_len (str ! 1))) str))")
  case False
  with r error_handled [OF r] show ?thesis
    by (auto simp: handle_auth_request_def str_at_header Let_def handled_ok_nothing
        ready_to_handle_def)
next
  case True
  from r obtain t where t: "s5_transport s = Some t" "tr_connected t"
    by (auto simp: ready_to_handle_def)
  obtain s1 where s1: "write_to_transport w [SOCKS5_VERSION, SOCKS5_AUTH_NONE] s = Some (True, s1)"
    "only_buffered s s1 \<or> s5_bytestream_state s1 = GABBLE_BYTESTREAM_STATE_CLOSED
       \<and> s5_read_buffer s1 = None"
    using write_safe [OF t, of w] w by metis
  let ?n = "int (unat (auth_request_len (str ! 1)))"
  let ?s = "s1\<lparr>s5_state := SOCKS5_STATE_INITIATOR_AWAITING_COMMAND\<rparr>"
  have "handle_auth_request w str s = Some (?n, ?s)"
    using True s1 by (simp add: handle_auth_request_def str_at_header Let_def)
  moreover have "handled_ok str ?n ?s"
    using s1(2)
  proof
    assume "only_buffered s s1"
    then show ?thesis by (rule only_buffered_inv [OF _ r]) (simp_all add: st)
  next
    assume "s5_bytestream_state s1 = GABBLE_BYTESTREAM_STATE_CLOSED \<and> s5_read_buffer s1 = None"
    then show ?thesis by (simp add: handled_ok_def s5_inv_def s5_gone_def)
  qed
  ultimately show ?thesis by blast
qed

lemma rejected_handled:
  assumes "ready_to_handle str s" "awaiting_peer (s5_state s)"
  shows "\<exists>n s'. map_option (Pair (- 1)) (socks5_error (socks5_close_transport s)) = Some (n, s')
    \<and> handled_ok str n s'"
proof -
  have "s5_negotiation_ok (socks5_close_transport s)"
    using assms(1) by (auto simp: ready_to_handle_def s5_inv_def s5_negotiation_ok_def)
  then show ?thesis
    using socks5_error_safe [of "socks5_close_transport s"] by (auto simp: handled_ok_nothing)
qed

lemma connected_handled:
  assumes b: "only_buffered s s1" and r: "ready_to_handle str s" and a: "awaiting_peer (s5_state s)"
    and t: "s5_transport s1 = Some t"
  shows "handled_ok str n
    (s1\<lparr>s5_state := SOCKS5_STATE_CONNECTED, s5_transport := Some (t\<lparr>tr_blocked := True\<rparr>),
        s5_listener := False\<rparr>)"
proof -
  have h: "handled_ok str n (s1\<lparr>s5_state := SOCKS5_STATE_CONNECTED\<rparr>)"
    by (rule only_buffered_inv [OF b r a]) simp
  have "\<not> s5_gone s1" using b r by (simp add: only_buffered_def s5_gone_def ready_to_handle_def)
  with h t show ?thesis
    by (auto simp: handled_ok_def s5_inv_def s5_gone_def s5_transport_ok_def s5_negotiation_ok_def)
qed

lemma handle_connect_command_safe:
  assumes ck: "sha1_like ck" and r: "ready_to_handle str s" and w: "w \<noteq> W_failed"
    and st: "s5_state s = SOCKS5_STATE_INITIATOR_AWAITING_COMMAND"
  shows "\<exists>n s'. handle_connect_command ck w str s = Some (n, s') \<and> handled_ok str n s'"
proof (cases "length str < SOCKS5_MIN_LENGTH \<or> packet_incomplete str (str ! 4 + 1)")
  case True
  with r show ?thesis
    by (auto simp: handle_connect_command_def str_at_header Let_def handled_ok_nothing
        ready_to_handle_def)
next
  case False
  let ?a = "str ! 4 + 1"
  obtain p q where pq: "str_at str (4 + unat ?a) = Some p" "str_at str (5 + unat ?a) = Some q"
    using str_at_port [of str ?a] False by blast
  obtain x where x: "domain_for ck False s = Some x" using domain_for_defined [OF ck] by blast
  from r obtain t where t: "s5_transport s = Some t" "tr_connected t"
    and e: "s5_bytestream_state s = GABBLE_BYTESTREAM_STATE_CLOSING \<Longrightarrow> \<not> tr_empty t"
    and l: "s5_listener s"
    using st by (auto simp: ready_to_handle_def s5_inv_def s5_transport_ok_def s5_negotiation_ok_def)
  obtain s1 where s1: "write_to_transport w (connect_message SOCKS5_STATUS_OK x) s = Some (True, s1)"
    "only_buffered s s1"
    using write_safe [OF t, of w "connect_message SOCKS5_STATUS_OK x"] w e
    by (auto simp: connect_message_def)
  then obtain t1 where t1: "s5_transport s1 = Some t1" and l1: "s5_listener s1"
    using l by (auto simp: only_buffered_def)
  let ?bad = "str ! 0 \<noteq> SOCKS5_VERSION \<or> str ! 1 \<noteq> SOCKS5_CMD_CONNECT \<or> str ! 2 \<noteq> SOCKS5_RESERVED
      \<or> str ! 3 \<noteq> SOCKS5_ATYP_DOMAIN \<or> p \<noteq> 0 \<or> q \<noteq> 0"
  let ?s = "s1\<lparr>s5_state := SOCKS5_STATE_CONNECTED, s5_transport := Some (t1\<lparr>tr_blocked := True\<rparr>),
        s5_listener := False\<rparr>"
  have "handle_connect_command ck w str s =
    (if ?bad then map_option (Pair (- 1)) (socks5_error s)
     else if \<not> check_domain (drop 5 str) (str ! 4) x
     then map_option (Pair (- 1)) (socks5_error (socks5_close_transport s))
     else Some (int (SOCKS5_MIN_LENGTH + unat ?a), ?s))"
    using False pq x s1 t1 l1
    by (simp add: handle_connect_command_def str_at_header Let_def block_receiving_some)
  then show ?thesis
    using error_handled [OF r] rejected_handled [OF r] connected_handled [OF s1(2) r _ t1] st by simp
qed

lemma handle_received_safe:
  assumes "sha1_like ck" and r: "ready_to_handle str s" and "w \<noteq> W_failed"
  shows "\<exists>n s'. socks5_handle_received_data ck w str s = Some (n, s') \<and> handled_ok str n s'"
proof -
  have fin: "handled_ok str (int (length str)) s"
    "handled_ok str (int (length str)) (s5_emit (S5_data_received str) s)"
    using r by (auto simp: handled_ok_def ready_to_handle_def)
  show ?thesis
    using ready_state [OF r] r fin handle_auth_reply_safe [OF assms]
      handle_connect_reply_safe [OF assms(1,2)] handle_auth_request_safe [OF assms(2,3)]
      handle_connect_command_safe [OF assms]
    by (cases "s5_state s") (simp_all add: socks5_handle_received_data_def ready_to_handle_def)
qed

lemma loop_safe:
  assumes "sha1_like ck" and "ready_to_handle str s" and "W_failed \<notin> set ws"
  shows "\<exists>s'. transport_handler_loop ck ws s = Some s' \<and> s5_inv s'"
  using assms
proof (induction ck ws s arbitrary: str rule: transport_handler_loop.induct)
  case (1 ck ws s)
  from "1.prems"(2) have b: "s5_read_buffer s = Some str" by (simp add: ready_to_handle_def)
  have w: "next_outcome ws \<noteq> W_failed" using "1.prems"(3)
    by (auto simp: next_outcome_def split: list.split)
  from handle_received_safe [OF "1.prems"(1,2) w] obtain n s1 where
    h: "socks5_handle_received_data ck (next_outcome ws) str s = Some (n, s1)"
    and ok: "handled_ok str n s1" by blast
  have inv: "s5_inv s1" using ok by (simp add: handled_ok_def)
  have n: "n \<le> int (length str)" and k: "buffer_kept s s1"
    using handle_received_buffer [OF h] by auto
  show ?case
  proof (cases "s5_read_buffer s1")
    case None
    with b h inv show ?thesis by (simp add: transport_handler_loop.simps [of ck ws s])
  next
    case (Some c)
    let ?c = "g_string_erase n c" and ?s = "s1\<lparr>s5_read_buffer := Some (g_string_erase n c)\<rparr>"
    have i: "s5_inv ?s" using inv Some by (subst s5_inv_cong [of _ s1]) simp_all
    show ?thesis
    proof (cases "0 < n \<and> ?c \<noteq> []")
      case False
      with b h Some i show ?thesis by (auto simp: transport_handler_loop.simps [of ck ws s] Let_def)
    next
      case True
      with k b Some n have c: "c = str" "?c = drop (nat n) str"
        by (auto simp: buffer_kept_def g_string_erase_def split: if_splits)
      have "ready_to_handle ?c ?s"
        using ok True Some c i by (auto simp: handled_ok_def ready_to_handle_def s5_gone_def)
      moreover have "W_failed \<notin> set (tl ws)" using "1.prems"(3) by (cases ws) auto
      ultimately have "\<exists>s'. transport_handler_loop ck (tl ws) ?s = Some s' \<and> s5_inv s'"
        using "1.IH" [OF b h refl Some refl refl True "1.prems"(1)] by blast
      with b h Some True show ?thesis by (simp add: transport_handler_loop.simps [of ck ws s] Let_def)
    qed
  qed
qed


lemma received_safe:
  assumes "sha1_like ck" "s5_inv s" "s5_legal (In_received ws d) s"
  shows "\<exists>s'. transport_handler ck ws d s = Some s' \<and> s5_inv s'"
proof -
  from assms(3) obtain t b where t: "s5_transport s = Some t" "s5_read_buffer s = Some b"
    "tr_connected t" "\<not> tr_blocked t" "proxy_quiet (s5_state s) (b @ d)" "\<not> s5_gone s"
    "W_failed \<notin> set ws"
    by (auto simp: s5_legal_def split: option.splits)
  let ?s = "s\<lparr>s5_read_buffer := Some (b @ d)\<rparr>"
  have "s5_inv ?s" using assms(2) t by (subst s5_inv_cong [of _ s]) simp_all
  moreover have "s5_state s \<noteq> SOCKS5_STATE_INITIATOR_ACTIVATION_SENT"
    using assms(2) t by (auto simp: s5_inv_def s5_transport_ok_def)
  ultimately have "ready_to_handle (b @ d) ?s" using t by (simp add: ready_to_handle_def s5_gone_def)
  then show ?thesis
    using loop_safe [OF assms(1)] t by (simp add: transport_handler_def)
qed

lemma s5_fail_inv [simp]: "s5_inv (s5_fail s)"
  by (simp add: s5_fail_def)

lemma block_safe:
  assumes "s5_inv s" and "b \<or> s5_state s \<noteq> SOCKS5_STATE_INITIATOR_ACTIVATION_SENT"
    and "s5_transport s \<noteq> None"
  shows "\<exists>s'. block_receiving b s = Some s' \<and> s5_inv s'"
proof -
  from assms(3) obtain t where t: "s5_transport s = Some t" by blast
  let ?s = "s\<lparr>s5_transport := Some (t\<lparr>tr_blocked := b\<rparr>)\<rparr>"
  have "s5_gone ?s = s5_gone s" "s5_negotiation_ok ?s = s5_negotiation_ok s"
    by (simp_all add: s5_gone_def s5_negotiation_ok_def)
  moreover have "s5_transport_ok s \<Longrightarrow> s5_transport_ok ?s"
    using assms(2) t by (auto simp: s5_transport_ok_def)
  ultimately have "s5_inv ?s" using assms(1) by (simp only: s5_inv_def) blast
  with t show ?thesis by (simp add: block_receiving_some)
qed

lemma open_safe:
  assumes "s5_inv s" "\<not> s5_gone s" "s5_state s = SOCKS5_STATE_CONNECTED"
  shows "\<exists>s'. block_receiving False (s5_set_state GABBLE_BYTESTREAM_STATE_OPEN s) = Some s' \<and> s5_inv s'"
proof (rule block_safe)
  show "s5_inv (s5_set_state GABBLE_BYTESTREAM_STATE_OPEN s)"
    using assms by (auto simp: s5_inv_def s5_gone_def s5_transport_ok_def s5_negotiation_ok_def
        split: option.splits)
  show "s5_transport (s5_set_state GABBLE_BYTESTREAM_STATE_OPEN s) \<noteq> None"
    using assms by (auto simp: s5_inv_def s5_transport_ok_def split: option.splits)
qed (simp add: assms)

lemma proxy_safe:
  assumes "s5_inv s" "\<not> s5_gone s" "s5_state s = SOCKS5_STATE_INITIATOR_OFFER_SENT"
  shows "\<exists>s'. initiator_connected_to_proxy proxies (s\<lparr>s5_proxy_jid := p\<rparr>) = Some s' \<and> s5_inv s'"
proof -
  have "s5_read_buffer s = None" "s5_negotiation_ok s" using assms
    by (auto simp: s5_inv_def s5_transport_ok_def split: option.splits)
  then show ?thesis using assms
    by (auto simp: initiator_connected_to_proxy_def set_transport_def Let_def s5_inv_def
        s5_gone_def s5_transport_ok_def s5_negotiation_ok_def s5_fail_def split: option.split)
qed

lemma init_reply_safe:
  assumes "s5_inv s" "\<not> s5_gone s"
  shows "\<exists>s'. socks5_init_reply_cb proxies r s = Some s' \<and> s5_inv s'"
  using open_safe [OF assms] proxy_safe [OF assms]
  by (auto simp: socks5_init_reply_cb_def split: option.split)

lemma activation_safe:
  assumes "s5_inv s" "\<not> s5_gone s"
  shows "\<exists>s'. socks5_activation_reply_cb ok s = Some s' \<and> s5_inv s'"
proof (cases "ok \<and> s5_state s = SOCKS5_STATE_INITIATOR_ACTIVATION_SENT")
  case True
  have "s5_inv (s\<lparr>s5_state := SOCKS5_STATE_CONNECTED\<rparr>)"
    using assms True by (auto simp: s5_inv_def s5_gone_def s5_transport_ok_def s5_negotiation_ok_def
        split: option.splits)
  moreover have "\<not> s5_gone (s\<lparr>s5_state := SOCKS5_STATE_CONNECTED\<rparr>)"
    using assms(2) by (simp add: s5_gone_def)
  ultimately show ?thesis
    using True open_safe [of "s\<lparr>s5_state := SOCKS5_STATE_CONNECTED\<rparr>"]
    by (simp add: socks5_activation_reply_cb_def)
next
  case False
  then show ?thesis by (auto simp: socks5_activation_reply_cb_def)
qed


lemma connect_to_streamhost_safe:
  assumes "s5_inv s" "\<not> s5_gone s" "s5_state s = SOCKS5_STATE_INVALID"
  shows "\<exists>s'. gabble_bytestream_socks5_connect_to_streamhost s = Some s' \<and> s5_inv s'"
proof -
  let ?s = "s\<lparr>s5_msg_for_acknowledge_connection := True\<rparr>"
  have "s5_read_buffer s = None" "\<not> s5_timer s"
    "s5_bytestream_state s \<noteq> GABBLE_BYTESTREAM_STATE_OPEN"
    using assms by (auto simp: s5_inv_def s5_transport_ok_def s5_negotiation_ok_def
        split: option.splits)
  then show ?thesis
    using connect_first_safe [of ?s]
    by (auto simp: gabble_bytestream_socks5_connect_to_streamhost_def socks5_connect_def
        socks5_error_def Let_def s5_inv_def s5_transport_ok_def s5_negotiation_ok_def)
qed

lemma initiate_safe:
  assumes "s5_inv s" "\<not> s5_gone s" "s5_state s = SOCKS5_STATE_INVALID" "\<not> s5_listener s"
  shows "\<exists>s'. map_option snd (gabble_bytestream_socks5_initiate proxies ips port s) = Some s'
    \<and> s5_inv s'"
proof -
  have "s5_transport_ok s" "s5_negotiation_ok s" "s5_transport s = None"
    using assms by (auto simp: s5_inv_def s5_transport_ok_def split: option.splits)
  then have "s5_inv (send_streamhosts proxies xs n (s\<lparr>s5_listener := l\<rparr>))"
    "s5_inv (send_streamhosts proxies xs n s)" for xs n l
    using assms by (auto simp: send_streamhosts_def s5_inv_def s5_transport_ok_def
        s5_negotiation_ok_def)
  with assms show ?thesis
    by (auto simp: gabble_bytestream_socks5_initiate_def Let_def split: option.split)
qed

lemma connected_safe:
  assumes i: "s5_inv s" and g: "\<not> s5_gone s" and st: "trying_connect (s5_state s)"
    and w: "w \<noteq> W_failed"
  shows "\<exists>s'. transport_connected_cb w (with_transport (tr_connected_update (\<lambda>_. True)) s) = Some s'
    \<and> s5_inv s'"
proof -
  from i g st obtain t where t: "s5_transport s = Some t"
    by (auto simp: s5_inv_def s5_transport_ok_def split: option.splits)
  let ?s = "stop_timer (with_transport (tr_connected_update (\<lambda>_. True)) s)"
  let ?t = "t\<lparr>tr_connected := True\<rparr>"
  have ts: "s5_transport ?s = Some ?t" "tr_connected ?t" using t by (simp_all add: with_transport_def)
  obtain s1 where s1: "write_to_transport w [SOCKS5_VERSION, 1, SOCKS5_AUTH_NONE] ?s = Some (True, s1)"
    "only_buffered ?s s1 \<or> s5_bytestream_state s1 = GABBLE_BYTESTREAM_STATE_CLOSED"
    using write_safe [OF ts, of w] w by metis
  let ?r = "if s5_state s1 = SOCKS5_STATE_TARGET_TRYING_CONNECT
     then s1\<lparr>s5_state := SOCKS5_STATE_TARGET_AUTH_REQUEST_SENT\<rparr>
     else s1\<lparr>s5_state := SOCKS5_STATE_INITIATOR_AUTH_REQUEST_SENT\<rparr>"
  have "transport_connected_cb w (with_transport (tr_connected_update (\<lambda>_. True)) s) = Some ?r"
    using s1(1) st by (auto simp: transport_connected_cb_def Let_def with_transport_def)
  moreover have "s5_inv ?r"
    using s1(2)
  proof
    assume b: "only_buffered ?s s1"
    then obtain t1 where t1: "s5_transport s1 = Some t1" "tr_connected t1"
      "s5_bytestream_state s1 = GABBLE_BYTESTREAM_STATE_CLOSING \<longrightarrow> \<not> tr_empty t1"
      using t by (auto simp: only_buffered_def with_transport_def)
    have f: "s5_state s1 = s5_state s" "s5_read_buffer s1 = s5_read_buffer s" "\<not> s5_timer s1"
      "s5_streamhosts s1 = s5_streamhosts s" "s5_bytestream_state s1 = s5_bytestream_state s"
      "s5_msg_for_acknowledge_connection s1 = s5_msg_for_acknowledge_connection s"
      using b by (simp_all add: only_buffered_def with_transport_def)
    have ok: "s5_read_buffer s \<noteq> None" "s5_negotiation_ok s"
      using i g t by (auto simp: s5_inv_def s5_transport_ok_def)
    from st show ?thesis
    proof
      assume "s5_state s = SOCKS5_STATE_TARGET_TRYING_CONNECT"
      with f t1 ok show ?thesis by (simp add: s5_inv_def s5_transport_ok_def s5_negotiation_ok_def)
    next
      assume "s5_state s = SOCKS5_STATE_INITIATOR_TRYING_CONNECT"
      with f t1 ok show ?thesis by (simp add: s5_inv_def s5_transport_ok_def s5_negotiation_ok_def)
    qed
  qed (simp add: s5_inv_def s5_gone_def)
  ultimately show ?thesis by blast
qed

lemma connected_inv:
  "s5_state s = SOCKS5_STATE_CONNECTED \<Longrightarrow> s5_transport s = Some t \<Longrightarrow> tr_connected t \<Longrightarrow>
   s5_read_buffer s \<noteq> None \<Longrightarrow> \<not> s5_timer s \<Longrightarrow>
   s5_bytestream_state s \<noteq> GABBLE_BYTESTREAM_STATE_CLOSING \<Longrightarrow> s5_inv s"
  by (simp add: s5_inv_def s5_transport_ok_def s5_negotiation_ok_def)

lemma send_safe:
  assumes i: "s5_inv s" and g: "\<not> s5_dispose_has_run s"
  shows "\<exists>r s'. gabble_bytestream_socks5_send w d s = Some (r, s') \<and> s5_inv s'"
proof (cases "s5_bytestream_state s = GABBLE_BYTESTREAM_STATE_OPEN")
  case False
  with i show ?thesis by (auto simp: gabble_bytestream_socks5_send_def)
next
  case True
  have gone: "\<not> s5_gone s" using True g by (simp add: s5_gone_def)
  with i True obtain t where t: "s5_transport s = Some t" "tr_connected t"
    by (auto simp: s5_inv_def s5_transport_ok_def s5_negotiation_ok_def split: option.splits)
  show ?thesis
  proof (cases "w = W_failed \<and> tr_empty t")
    case failed: True
    have e: "s\<lparr>s5_transport := Some (t\<lparr>tr_connected := False\<rparr>)\<rparr>
        = with_transport (tr_connected_update (\<lambda>_. False)) s" using t by (simp add: with_transport_def)
    obtain s1 where "transport_disconnected_cb (with_transport (tr_connected_update (\<lambda>_. False)) s)
        = Some s1" "s5_inv s1" using disconnected_safe [OF i gone] by blast
    with failed t True show ?thesis
      by (auto simp: gabble_bytestream_socks5_send_def write_to_transport_def e intro: s5_close_inv)
  next
    case False
    then have w: "w \<noteq> W_failed \<or> \<not> tr_empty t" by blast
    obtain s1 where s1: "write_to_transport w d s = Some (True, s1)"
      "only_buffered s s1"
      using write_safe [OF t w, of d] True by auto
    have "s5_read_buffer s \<noteq> None" "\<not> s5_timer s" "s5_state s = SOCKS5_STATE_CONNECTED"
      using i gone True t by (auto simp: s5_inv_def s5_transport_ok_def s5_negotiation_ok_def)
    with s1(2) t True have "s5_inv s1"
      by (auto simp: only_buffered_def intro: connected_inv)
    with s1 True show ?thesis
      by (auto simp: gabble_bytestream_socks5_send_def split: option.split)
  qed
qed


lemma buffer_empty_safe:
  assumes "s5_inv s" "\<not> s5_gone s" "s5_transport s \<noteq> None"
  shows "s5_inv (transport_buffer_empty_cb (with_transport (tr_empty_update (\<lambda>_. True)) s))"
proof (cases "s5_bytestream_state s = GABBLE_BYTESTREAM_STATE_CLOSING")
  case True
  then show ?thesis by (simp add: transport_buffer_empty_cb_def with_transport_def)
next
  case False
  let ?s = "with_transport (tr_empty_update (\<lambda>_. True)) s"
  have "s5_transport_ok ?s" "s5_negotiation_ok ?s" using s5_inv_live [OF assms(1,2)] False assms(3)
    by (auto simp: s5_transport_ok_def s5_negotiation_ok_def with_transport_def)
  then have "s5_inv ?s" by (simp add: s5_inv_def)
  with False show ?thesis by (simp add: transport_buffer_empty_cb_def)
qed

lemma new_connection_safe:
  assumes "s5_inv s" "s5_legal In_new_connection s"
  shows "\<exists>s'. new_connection_cb s = Some s' \<and> s5_inv s'"
proof -
  have l: "\<not> s5_gone s" "s5_listener s" "s5_transport s = None" "s5_state s \<noteq> SOCKS5_STATE_INVALID"
    using assms(2) by (simp_all add: s5_legal_def)
  with assms(1) have s: "s5_read_buffer s = None" "\<not> s5_timer s"
      "s5_bytestream_state s \<noteq> GABBLE_BYTESTREAM_STATE_OPEN"
    by (auto simp: s5_inv_def s5_transport_ok_def s5_negotiation_ok_def)
  with l show ?thesis
    by (simp add: new_connection_cb_def set_transport_def s5_inv_def s5_transport_ok_def
        s5_negotiation_ok_def)
qed

lemma add_streamhost_inv:
  assumes "s5_inv s" shows "s5_inv (gabble_bytestream_socks5_add_streamhost n s)"
proof -
  have "s5_inv (s\<lparr>s5_streamhosts := s5_streamhosts s @ [x]\<rparr>)" for x
  proof (cases "s5_gone s")
    case False
    have "s5_transport_ok (s\<lparr>s5_streamhosts := hs\<rparr>) = s5_transport_ok s" for hs
      by (simp add: s5_transport_ok_def split: option.split)
    moreover have "s5_negotiation_ok s \<Longrightarrow> s5_negotiation_ok (s\<lparr>s5_streamhosts := s5_streamhosts s @ [x]\<rparr>)"
      by (simp add: s5_negotiation_ok_def)
    ultimately show ?thesis using s5_inv_live [OF assms False] by (simp add: s5_inv_def)
  qed (simp add: s5_inv_def s5_gone_def)
  with assms show ?thesis
    by (auto simp: gabble_bytestream_socks5_add_streamhost_def Let_def split: option.split)
qed

lemma accept_inv:
  assumes "s5_inv s" shows "s5_inv (gabble_bytestream_socks5_accept sent s)"
proof (cases "s5_gone s \<or> s5_bytestream_state s \<noteq> GABBLE_BYTESTREAM_STATE_LOCAL_PENDING")
  case True
  with assms show ?thesis
    by (auto simp: gabble_bytestream_socks5_accept_def s5_gone_def intro: s5_inv_gone)
next
  case False
  with assms have "s5_transport_ok s" "s5_negotiation_ok s" by (auto simp: s5_inv_def)
  then have "s5_inv (s5_set_state GABBLE_BYTESTREAM_STATE_ACCEPTED (s5_emit e s))" for e
    by (auto simp: s5_inv_def s5_transport_ok_def s5_negotiation_ok_def split: option.splits)
  with assms show ?thesis by (simp add: gabble_bytestream_socks5_accept_def)
qed

lemma block_reading_safe:
  assumes "s5_inv s" "s5_legal (In_block_reading b) s"
  shows "\<exists>s'. gabble_bytestream_socks5_block_reading b s = Some s' \<and> s5_inv s'"
proof -
  have "s5_inv (s\<lparr>s5_read_blocked := b\<rparr>)" using assms(1) by (subst s5_inv_cong [of _ s]) simp_all
  with assms show ?thesis
    using block_safe [of "s\<lparr>s5_read_blocked := b\<rparr>" b]
    by (auto simp: gabble_bytestream_socks5_block_reading_def Let_def s5_legal_def)
qed

lemma dispose_inv: "s5_inv s \<Longrightarrow> s5_inv (gabble_bytestream_socks5_dispose s)"
proof -
  have "s5_dispose_has_run (gabble_bytestream_socks5_close e s) = s5_dispose_has_run s" for e s
    by (auto simp: gabble_bytestream_socks5_close_def gabble_bytestream_socks5_decline_def Let_def
        bytestream_closed_def split: option.split)
  then show "s5_inv (gabble_bytestream_socks5_dispose s)" if "s5_inv s"
    using that by (auto simp: gabble_bytestream_socks5_dispose_def Let_def s5_inv_def s5_gone_def)
qed

lemma send_step_safe:
  assumes "s5_inv s" "\<not> s5_dispose_has_run s"
  shows "\<exists>s'. s5_step ck (In_send w d) s = Some s' \<and> s5_inv s'"
  using send_safe [OF assms, of w d] by (auto simp: s5_step_def)

lemma s5_step_safe:
  assumes ck: "sha1_like ck" and i: "s5_inv s" and l: "s5_legal x s"
  shows "\<exists>s'. s5_step ck x s = Some s' \<and> s5_inv s'"
proof (cases "s5_gone s \<or> (\<exists>w d. x = In_send w d)")
  case True
  with i l show ?thesis
    using send_step_safe [OF i, of ck] block_reading_safe [OF i]
    by (cases x)
      (simp_all add: s5_step_def [of ck "In_close"] s5_step_def [of ck "In_dispose"]
        s5_step_def [of ck "In_add_streamhost n" for n] s5_step_def [of ck "In_accept n" for n]
        s5_step_def [of ck "In_block_reading n" for n]
        s5_legal_def s5_close_inv add_streamhost_inv accept_inv dispose_inv)
next
  case False
  then have g: "\<not> s5_gone s" by blast
  from l g False show ?thesis
    using block_reading_safe [OF i] connect_to_streamhost_safe [OF i g]
      initiate_safe [OF i g] connected_safe [OF i g] disconnected_safe [OF i g]
      received_safe [OF ck i] new_connection_safe [OF i] live_error_safe [OF i g]
      init_reply_safe [OF i g] activation_safe [OF i g]
    by (cases x)
      (auto simp: s5_step_def s5_legal_def s5_close_inv [OF i]
        add_streamhost_inv [OF i] accept_inv [OF i] dispose_inv [OF i] buffer_empty_safe [OF i g]
        socks5_timer_cb_def)
qed


text \<open>\<open>safe_system\<close> has no assumption about its parameters, so the checksum is replaced by a fixed one
  where it does not behave like SHA-1; for one that does, this is \<open>s5_step ck\<close>.\<close>

interpretation s5_sys: safe_system s5_legal "s5_step (if sha1_like ck then ck else (\<lambda>_. replicate 40 1))"
  s5_inv for ck :: "bytes \<Rightarrow> bytes"
proof
  fix s x
  assume "s5_inv s" and "s5_legal x s"
  then show "\<exists>s'. s5_step (if sha1_like ck then ck else (\<lambda>_. replicate 40 1)) x s = Some s' \<and> s5_inv s'"
    by (intro s5_step_safe) (auto simp: sha1_like_def)
qed

end
