(* ===== verification/Socks5_Negotiation.thy ===== *)
theory Socks5_Negotiation
  imports Socks5_Safety
begin

text \<open>
  What SOCKS5 bytestreams achieve: the negotiation of two instances of the code succeeds however the
  bytes are cut into pieces (\<open>socks5_handshake\<close>), a wrong domain is refused, all streamhosts are
  tried, an offer is read back as it was written; the interpretation \<open>s5_stream\<close> of the bytestream
  contract; and the cases in which the code aborts or waits for ever.
\<close>

section \<open>The negotiation, however the bytes arrive\<close>

definition feed :: "(bytes \<Rightarrow> bytes) \<Rightarrow> bytes list \<Rightarrow> s5 \<Rightarrow> s5 option" where
  "feed ck cs s = run (transport_handler ck []) cs s"

lemma write_plain:
  "s5_transport s = Some t \<Longrightarrow> tr_connected t \<Longrightarrow> tr_empty t \<Longrightarrow> \<not> s5_write_blocked s \<Longrightarrow>
   s5_bytestream_state s \<noteq> GABBLE_BYTESTREAM_STATE_CLOSING \<Longrightarrow>
   write_to_transport W_all d s = Some (True, s5_emit (S5_write d) s)"
  by (simp add: write_to_transport_def transport_buffer_empty_cb_def s5_emit_def)

lemma g_ascii_tolower_zero: "g_ascii_tolower x = 0 \<longleftrightarrow> x = 0"
proof (rule iffI, rule ccontr)
  assume e: "g_ascii_tolower x = 0" and x: "x \<noteq> 0"
  then have "65 \<le> x" "x \<le> 90" "x + 32 = 0" by (auto simp: g_ascii_tolower_def split: if_splits)
  moreover from this(3) have "x = - 32" by (simp add: eq_neg_iff_add_eq_0)
  ultimately show False by simp
qed (simp add: g_ascii_tolower_def)

lemma domain_length: "domain_for ck tgt s = Some d \<Longrightarrow> length d = 40 \<and> 0 \<notin> set d"
  by (auto simp: domain_for_def compute_domain_def sha1_hex_def SHA1_HASH_SIZE_def Let_def
      g_ascii_tolower_zero split: if_splits)

lemma strncmp_eq_refl: "strncmp_eq n a a"
  by (induction n arbitrary: a) simp_all

lemma strncmp_eq_append: "length d = n \<Longrightarrow> strncmp_eq n (d @ x) d"
  by (induction n arbitrary: d) (auto simp: length_Suc_conv c_at_def)

lemma connect_message_length: "length d = 40 \<Longrightarrow> length (connect_message c d) = 47"
  by (simp add: connect_message_def)

lemma connect_message_header:
  assumes "connect_message c d = r @ q" and "6 \<le> length r"
  shows "r ! 0 = SOCKS5_VERSION" "r ! 1 = c" "r ! 2 = SOCKS5_RESERVED" "r ! 3 = SOCKS5_ATYP_DOMAIN"
    "r ! 4 = 40"
proof -
  have "r ! i = connect_message c d ! i" if "i < 5" for i
    using assms that by (simp add: nth_append)
  then show "r ! 0 = SOCKS5_VERSION" "r ! 1 = c" "r ! 2 = SOCKS5_RESERVED"
    "r ! 3 = SOCKS5_ATYP_DOMAIN" "r ! 4 = 40" by (simp_all add: connect_message_def)
qed

lemma connect_message_port:
  "length d = 40 \<Longrightarrow> connect_message c d ! 45 = 0 \<and> connect_message c d ! 46 = 0"
  by (simp add: connect_message_def nth_append)

lemma packet_incomplete_connect:
  "length r \<le> 47 \<Longrightarrow> packet_incomplete r 41 = (length r < 47)"
  by (simp add: packet_incomplete_def SOCKS5_MIN_LENGTH_def unat_of_nat)

lemma loop_waits:
  "s5_read_buffer s = Some str \<Longrightarrow> socks5_handle_received_data ck W_all str s = Some (0, s) \<Longrightarrow>
   transport_handler_loop ck [] s = Some s"
  by (simp add: transport_handler_loop.simps [of ck "[]" s] next_outcome_def g_string_erase_def)

lemma loop_consumes:
  "s5_read_buffer s = Some str \<Longrightarrow>
   socks5_handle_received_data ck W_all str s = Some (int n, s1) \<Longrightarrow>
   s5_read_buffer s1 = Some str \<Longrightarrow> 0 < n \<Longrightarrow> n \<le> length str \<Longrightarrow>
   transport_handler_loop ck [] s =
     (if drop n str = [] then Some (s1\<lparr>s5_read_buffer := Some []\<rparr>)
      else transport_handler_loop ck [] (s1\<lparr>s5_read_buffer := Some (drop n str)\<rparr>))"
  by (simp add: transport_handler_loop.simps [of ck "[]" s] next_outcome_def g_string_erase_def Let_def)

subsection \<open>The initiator\<close>

text \<open>A connection has come in and the target negotiates as it should: the three states of the
  initiator, with what is left in the read buffer.\<close>

definition initiator_ready :: "s5_transport \<Rightarrow> s5 \<Rightarrow> bool" where
  "initiator_ready t s \<longleftrightarrow>
     s5_state s = SOCKS5_STATE_INITIATOR_AWAITING_AUTH_REQUEST \<and> s5_transport s = Some t
     \<and> tr_connected t \<and> tr_empty t \<and> \<not> s5_write_blocked s \<and> s5_listener s
     \<and> s5_bytestream_state s \<noteq> GABBLE_BYTESTREAM_STATE_CLOSING \<and> s5_read_buffer s = Some []"

definition initiator_authed :: "s5 \<Rightarrow> s5" where
  "initiator_authed s =
     (s5_emit (S5_write [SOCKS5_VERSION, SOCKS5_AUTH_NONE]) s)
       \<lparr>s5_state := SOCKS5_STATE_INITIATOR_AWAITING_COMMAND\<rparr>"

definition initiator_done :: "s5_transport \<Rightarrow> bytes \<Rightarrow> s5 \<Rightarrow> s5" where
  "initiator_done t d s =
     (s5_emit (S5_write (connect_message SOCKS5_STATUS_OK d)) (initiator_authed s))
       \<lparr>s5_state := SOCKS5_STATE_CONNECTED, s5_transport := Some (t\<lparr>tr_blocked := True\<rparr>),
        s5_listener := False\<rparr>"

definition initiator_after :: "s5_transport \<Rightarrow> bytes \<Rightarrow> bytes \<Rightarrow> s5 \<Rightarrow> s5" where
  "initiator_after t d p s =
     (if length p < 3 then s\<lparr>s5_read_buffer := Some p\<rparr>
      else if length p < 50 then (initiator_authed s)\<lparr>s5_read_buffer := Some (drop 3 p)\<rparr>
      else initiator_done t d s)"

lemma initiator_authed_fields [simp]:
  "s5_transport (initiator_authed s) = s5_transport s" "s5_listener (initiator_authed s) = s5_listener s"
  "s5_write_blocked (initiator_authed s) = s5_write_blocked s"
  "s5_bytestream_state (initiator_authed s) = s5_bytestream_state s"
  "s5_read_buffer (initiator_authed s) = s5_read_buffer s"
  "s5_state (initiator_authed s) = SOCKS5_STATE_INITIATOR_AWAITING_COMMAND"
  by (simp_all add: initiator_authed_def s5_emit_def)

lemma domain_for_other [simp]:
  "domain_for ck tgt (s5_emit e s) = domain_for ck tgt s"
  "domain_for ck tgt (s\<lparr>s5_read_buffer := b\<rparr>) = domain_for ck tgt s"
  "domain_for ck tgt (s\<lparr>s5_state := st\<rparr>) = domain_for ck tgt s"
  "domain_for ck tgt (s\<lparr>s5_timer := x\<rparr>) = domain_for ck tgt s"
  "domain_for ck tgt (stop_timer s) = domain_for ck tgt s"
  "domain_for ck tgt (initiator_authed s) = domain_for ck tgt s"
  by (simp_all add: domain_for_def s5_emit_def stop_timer_def initiator_authed_def)

lemma initiator_command_loop:
  assumes s: "initiator_ready t s" and d: "domain_for ck False s = Some d"
    and r: "connect_message SOCKS5_CMD_CONNECT d = r @ q"
  shows "transport_handler_loop ck [] ((initiator_authed s)\<lparr>s5_read_buffer := Some r\<rparr>) =
    Some (if length r < 47 then (initiator_authed s)\<lparr>s5_read_buffer := Some r\<rparr>
          else initiator_done t d s)"
proof -
  let ?s = "(initiator_authed s)\<lparr>s5_read_buffer := Some r\<rparr>"
  have l: "length d = 40" using domain_length [OF d] by simp
  have lr: "length r + length q = 47" using r connect_message_length [OF l, of SOCKS5_CMD_CONNECT]
    by simp
  show ?thesis
  proof (cases "length r < 47")
    case True
    have "socks5_handle_received_data ck W_all r ?s = Some (0, ?s)"
    proof (cases "length r < 6")
      case False
      then have "r ! 4 = 40" "\<not> length r < SOCKS5_MIN_LENGTH"
        using connect_message_header(5) [OF r] by (auto simp: SOCKS5_MIN_LENGTH_def)
      with packet_incomplete_connect [of r] lr True show ?thesis
        by (simp add: socks5_handle_received_data_def handle_connect_command_def str_at_header Let_def)
    qed (simp add: socks5_handle_received_data_def handle_connect_command_def SOCKS5_MIN_LENGTH_def)
    with True show ?thesis by (simp add: loop_waits)
  next
    case False
    then have l47: "length r = 47" and "length q = 0" using lr by linarith+
    then have m: "r = connect_message SOCKS5_CMD_CONNECT d" using r by simp
    have h: "r ! 0 = SOCKS5_VERSION" "r ! 1 = SOCKS5_CMD_CONNECT" "r ! 2 = SOCKS5_RESERVED"
      "r ! 3 = SOCKS5_ATYP_DOMAIN" "r ! 4 = 40" "\<not> length r < SOCKS5_MIN_LENGTH"
      using connect_message_header [OF r] l47 by (auto simp: SOCKS5_MIN_LENGTH_def)
    have p: "str_at r 45 = Some 0" "str_at r 46 = Some 0"
      using connect_message_port [OF l] l47 by (simp_all add: str_at_def m)
    have c: "check_domain (drop 5 r) 40 d"
      using strncmp_eq_append [OF l] l
      by (simp add: check_domain_def m connect_message_def SHA1_LENGTH_def)
    have i: "\<not> packet_incomplete r 41" using packet_incomplete_connect [of r] lr l47 by simp
    have "socks5_handle_received_data ck W_all r ?s
        = Some (int 47, (initiator_done t d s)\<lparr>s5_read_buffer := Some r\<rparr>)"
      using s d h p c i
      by (simp add: socks5_handle_received_data_def handle_connect_command_def str_at_header Let_def
          write_plain initiator_ready_def block_receiving_some initiator_done_def SOCKS5_MIN_LENGTH_def
          s5_emit_def)
    moreover have "(initiator_done t d s)\<lparr>s5_read_buffer := Some []\<rparr> = initiator_done t d s"
      using s by (simp add: initiator_done_def initiator_authed_def initiator_ready_def s5_emit_def)
    ultimately show ?thesis using l47
      by (simp add: loop_consumes [where n = 47 and str = r])
  qed
qed


lemma initiator_auth_loop:
  assumes s: "initiator_ready t s" and d: "domain_for ck False s = Some d"
    and p: "[SOCKS5_VERSION, 1, SOCKS5_AUTH_NONE] @ connect_message SOCKS5_CMD_CONNECT d = p @ q"
  shows "transport_handler_loop ck [] (s\<lparr>s5_read_buffer := Some p\<rparr>) = Some (initiator_after t d p s)"
proof -
  let ?m = "connect_message SOCKS5_CMD_CONNECT d"
  let ?s = "s\<lparr>s5_read_buffer := Some p\<rparr>"
  have l: "length d = 40" using domain_length [OF d] by simp
  have a: "unat (auth_request_len 1) = 3" by (simp add: auth_request_len_def)
  show ?thesis
  proof (cases "length p < 3")
    case True
    have "p ! 0 = SOCKS5_VERSION \<and> p ! 1 = 1" if "\<not> length p < 2"
    proof -
      have "p = [SOCKS5_VERSION, 1]" using p True that by (auto simp: Cons_eq_append_conv)
      then show ?thesis by simp
    qed
    then have "socks5_handle_received_data ck W_all p ?s = Some (0, ?s)"
      using s True a
      by (simp add: socks5_handle_received_data_def handle_auth_request_def initiator_ready_def
          str_at_header Let_def)
    with True show ?thesis by (simp add: loop_waits initiator_after_def)
  next
    case False
    obtain r where r: "p = [SOCKS5_VERSION, 1, SOCKS5_AUTH_NONE] @ r" "?m = r @ q"
      using p False by (auto simp: Cons_eq_append_conv)
    have h: "socks5_handle_received_data ck W_all p ?s
        = Some (int 3, (initiator_authed s)\<lparr>s5_read_buffer := Some p\<rparr>)"
      using s a False
      by (simp add: socks5_handle_received_data_def handle_auth_request_def initiator_ready_def
          str_at_header Let_def r(1) write_plain initiator_authed_def s5_emit_def)
    have n: "length r + length q = 47" using r(2) connect_message_length [OF l, of SOCKS5_CMD_CONNECT]
      by simp
    show ?thesis
      using h r(1) initiator_command_loop [OF s d r(2)] n
      by (simp add: loop_consumes [where n = 3 and str = p] initiator_after_def)
  qed
qed

lemma initiator_feed_one:
  assumes s: "initiator_ready t s" and d: "domain_for ck False s = Some d"
    and m: "m = [SOCKS5_VERSION, 1, SOCKS5_AUTH_NONE] @ connect_message SOCKS5_CMD_CONNECT d"
    and p: "m = p @ c @ q" and c: "c \<noteq> []"
  shows "transport_handler ck [] c (initiator_after t d p s) = Some (initiator_after t d (p @ c) s)"
proof -
  have l: "length d = 40" using domain_length [OF d] by simp
  have "length m = 50" using connect_message_length [OF l, of SOCKS5_CMD_CONNECT] by (simp add: m)
  then have "length p + length c + length q = 50" by (simp add: p)
  then have n: "length p < 50" using c by (cases c) auto
  show ?thesis
  proof (cases "length p < 3")
    case True
    then show ?thesis
      using initiator_auth_loop [OF s d, of "p @ c" q] p m
      by (simp add: transport_handler_def initiator_after_def)
  next
    case False
    obtain r where r: "p = [SOCKS5_VERSION, 1, SOCKS5_AUTH_NONE] @ r"
        "connect_message SOCKS5_CMD_CONNECT d = (r @ c) @ q"
      using p False by (auto simp: m Cons_eq_append_conv)
    from initiator_command_loop [OF s d r(2)] r(1) n show ?thesis
      by (simp add: transport_handler_def initiator_after_def)
  qed
qed

lemma initiator_feed:
  assumes s: "initiator_ready t s" and d: "domain_for ck False s = Some d"
    and m: "m = [SOCKS5_VERSION, 1, SOCKS5_AUTH_NONE] @ connect_message SOCKS5_CMD_CONNECT d"
    and "m = p @ concat cs @ q" and "[] \<notin> set cs"
  shows "feed ck cs (initiator_after t d p s) = Some (initiator_after t d (p @ concat cs) s)"
  using assms(4,5)
proof (induction cs arbitrary: p)
  case Nil
  then show ?case by (simp add: feed_def)
next
  case (Cons c cs)
  then have "transport_handler ck [] c (initiator_after t d p s) = Some (initiator_after t d (p @ c) s)"
    by (intro initiator_feed_one [OF s d m, where q = "concat cs @ q"]) auto
  then show ?case using Cons.IH [of "p @ c"] Cons.prems by (simp add: feed_def)
qed

subsection \<open>The target\<close>

definition target_ready :: "s5_transport \<Rightarrow> Streamhost \<Rightarrow> s5 \<Rightarrow> bool" where
  "target_ready t h s \<longleftrightarrow>
     s5_state s = SOCKS5_STATE_TARGET_AUTH_REQUEST_SENT \<and> s5_transport s = Some t
     \<and> tr_connected t \<and> tr_empty t \<and> \<not> s5_write_blocked s \<and> \<not> s5_timer s \<and> \<not> s5_read_blocked s
     \<and> s5_bytestream_state s \<noteq> GABBLE_BYTESTREAM_STATE_CLOSING \<and> s5_read_buffer s = Some []
     \<and> (\<exists>hs. s5_streamhosts s = h # hs) \<and> s5_msg_for_acknowledge_connection s"

definition target_requested :: "bytes \<Rightarrow> s5 \<Rightarrow> s5" where
  "target_requested d s =
     (s5_emit (S5_write (connect_message SOCKS5_CMD_CONNECT d)) s)
       \<lparr>s5_state := SOCKS5_STATE_TARGET_CONNECT_REQUESTED, s5_timer := True\<rparr>"

definition target_done :: "bytes \<Rightarrow> Streamhost \<Rightarrow> s5 \<Rightarrow> s5" where
  "target_done d h s =
     s5_emit (S5_iq_ack (streamhost_used_query (sh_jid h))) (s5_set_state GABBLE_BYTESTREAM_STATE_OPEN
       ((target_requested d s)\<lparr>s5_timer := False, s5_state := SOCKS5_STATE_CONNECTED\<rparr>))"

definition target_after :: "bytes \<Rightarrow> Streamhost \<Rightarrow> bytes \<Rightarrow> s5 \<Rightarrow> s5" where
  "target_after d h p s =
     (if length p < 2 then s\<lparr>s5_read_buffer := Some p\<rparr>
      else if length p < 49 then (target_requested d s)\<lparr>s5_read_buffer := Some (drop 2 p)\<rparr>
      else target_done d h s)"

lemma target_requested_fields [simp]:
  "s5_transport (target_requested d s) = s5_transport s"
  "s5_streamhosts (target_requested d s) = s5_streamhosts s"
  "s5_read_blocked (target_requested d s) = s5_read_blocked s"
  "s5_msg_for_acknowledge_connection (target_requested d s) = s5_msg_for_acknowledge_connection s"
  "s5_bytestream_state (target_requested d s) = s5_bytestream_state s"
  "s5_read_buffer (target_requested d s) = s5_read_buffer s"
  "s5_state (target_requested d s) = SOCKS5_STATE_TARGET_CONNECT_REQUESTED"
  "domain_for ck tgt (target_requested d s) = domain_for ck tgt s"
  by (simp_all add: target_requested_def s5_emit_def domain_for_def)

lemma domain_for_trace [simp]: "domain_for ck tgt (s\<lparr>s5_trace := x\<rparr>) = domain_for ck tgt s"
  by (simp add: domain_for_def)

lemma target_reply_loop:
  assumes s: "target_ready t h s" and d: "domain_for ck True s = Some d"
    and r: "connect_message SOCKS5_STATUS_OK d = r @ q"
  shows "transport_handler_loop ck [] ((target_requested d s)\<lparr>s5_read_buffer := Some r\<rparr>) =
    Some (if length r < 47 then (target_requested d s)\<lparr>s5_read_buffer := Some r\<rparr>
          else target_done d h s)"
proof -
  let ?s = "(target_requested d s)\<lparr>s5_read_buffer := Some r\<rparr>"
  have l: "length d = 40" using domain_length [OF d] by simp
  have lr: "length r + length q = 47" using r connect_message_length [OF l, of SOCKS5_STATUS_OK]
    by simp
  have a: "reply_addr_len SOCKS5_ATYP_DOMAIN 40 = Some 41"
    by (simp add: reply_addr_len_def)
  show ?thesis
  proof (cases "length r < 47")
    case True
    have "socks5_handle_received_data ck W_all r ?s = Some (0, ?s)"
    proof (cases "length r < 6")
      case False
      then have "r ! 0 = SOCKS5_VERSION" "r ! 1 = SOCKS5_STATUS_OK" "r ! 2 = SOCKS5_RESERVED"
        "r ! 3 = SOCKS5_ATYP_DOMAIN" "r ! 4 = 40" "\<not> length r < SOCKS5_MIN_LENGTH"
        using connect_message_header [OF r] by (auto simp: SOCKS5_MIN_LENGTH_def)
      with packet_incomplete_connect [of r] lr True a show ?thesis
        by (simp add: socks5_handle_received_data_def handle_connect_reply_def str_at_header)
    qed (simp add: socks5_handle_received_data_def handle_connect_reply_def SOCKS5_MIN_LENGTH_def)
    with True show ?thesis by (simp add: loop_waits)
  next
    case False
    then have l47: "length r = 47" and "length q = 0" using lr by linarith+
    then have m: "r = connect_message SOCKS5_STATUS_OK d" using r by simp
    have h: "r ! 0 = SOCKS5_VERSION" "r ! 1 = SOCKS5_STATUS_OK" "r ! 2 = SOCKS5_RESERVED"
      "r ! 3 = SOCKS5_ATYP_DOMAIN" "r ! 4 = 40" "\<not> length r < SOCKS5_MIN_LENGTH"
      using connect_message_header [OF r] l47 by (auto simp: SOCKS5_MIN_LENGTH_def)
    have p: "str_at r 45 = Some 0" "str_at r 46 = Some 0"
      using connect_message_port [OF l] l47 by (simp_all add: str_at_def m)
    have i: "\<not> packet_incomplete r 41" using packet_incomplete_connect [of r] l47 by simp
    have "socks5_handle_received_data ck W_all r ?s
        = Some (int 47, (target_done d h s)\<lparr>s5_read_buffer := Some r\<rparr>)"
      using s d h p i a
      by (auto simp: socks5_handle_received_data_def handle_connect_reply_def str_at_header Let_def
          target_ready_def target_got_connect_reply_def target_done_def SOCKS5_MIN_LENGTH_def
          s5_emit_def s5_set_state_def stop_timer_def target_requested_def)
    moreover have "(target_done d h s)\<lparr>s5_read_buffer := Some []\<rparr> = target_done d h s"
      using s by (simp add: target_done_def target_requested_def target_ready_def s5_emit_def
          s5_set_state_def)
    ultimately show ?thesis using l47
      by (simp add: loop_consumes [where n = 47 and str = r])
  qed
qed

lemma target_auth_loop:
  assumes s: "target_ready t h s" and d: "domain_for ck True s = Some d"
    and p: "[SOCKS5_VERSION, SOCKS5_AUTH_NONE] @ connect_message SOCKS5_STATUS_OK d = p @ q"
  shows "transport_handler_loop ck [] (s\<lparr>s5_read_buffer := Some p\<rparr>) = Some (target_after d h p s)"
proof -
  let ?s = "s\<lparr>s5_read_buffer := Some p\<rparr>"
  have l: "length d = 40" using domain_length [OF d] by simp
  show ?thesis
  proof (cases "length p < 2")
    case True
    then have "socks5_handle_received_data ck W_all p ?s = Some (0, ?s)"
      using s by (simp add: socks5_handle_received_data_def handle_auth_reply_def target_ready_def)
    with True show ?thesis by (simp add: loop_waits target_after_def)
  next
    case False
    obtain r where r: "p = [SOCKS5_VERSION, SOCKS5_AUTH_NONE] @ r"
        "connect_message SOCKS5_STATUS_OK d = r @ q"
      using p False by (auto simp: Cons_eq_append_conv)
    have h: "socks5_handle_received_data ck W_all p ?s
        = Some (int 2, (target_requested d s)\<lparr>s5_read_buffer := Some p\<rparr>)"
      using s d False
      by (simp add: socks5_handle_received_data_def handle_auth_reply_def target_ready_def
          str_at_header r(1) write_plain target_requested_def s5_emit_def start_timer_def
          SOCKS5_AUTH_NONE_def SOCKS5_STATUS_OK_def)
    have n: "length r + length q = 47" using r(2) connect_message_length [OF l, of SOCKS5_STATUS_OK]
      by simp
    show ?thesis
      using h r(1) target_reply_loop [OF s d r(2)] n
      by (simp add: loop_consumes [where n = 2 and str = p] target_after_def)
  qed
qed

lemma target_feed_one:
  assumes s: "target_ready t h s" and d: "domain_for ck True s = Some d"
    and m: "m = [SOCKS5_VERSION, SOCKS5_AUTH_NONE] @ connect_message SOCKS5_STATUS_OK d"
    and p: "m = p @ c @ q" and c: "c \<noteq> []"
  shows "transport_handler ck [] c (target_after d h p s) = Some (target_after d h (p @ c) s)"
proof -
  have l: "length d = 40" using domain_length [OF d] by simp
  have "length m = 49" using connect_message_length [OF l, of SOCKS5_STATUS_OK] by (simp add: m)
  then have "length p + length c + length q = 49" by (simp add: p)
  then have n: "length p < 49" using c by (cases c) auto
  show ?thesis
  proof (cases "length p < 2")
    case True
    then show ?thesis
      using target_auth_loop [OF s d, of "p @ c" q] p m
      by (simp add: transport_handler_def target_after_def)
  next
    case False
    obtain r where r: "p = [SOCKS5_VERSION, SOCKS5_AUTH_NONE] @ r"
        "connect_message SOCKS5_STATUS_OK d = (r @ c) @ q"
      using p False by (auto simp: m Cons_eq_append_conv)
    from target_reply_loop [OF s d r(2)] r(1) n show ?thesis
      by (simp add: transport_handler_def target_after_def)
  qed
qed

lemma target_feed:
  assumes s: "target_ready t h s" and d: "domain_for ck True s = Some d"
    and m: "m = [SOCKS5_VERSION, SOCKS5_AUTH_NONE] @ connect_message SOCKS5_STATUS_OK d"
    and "m = p @ concat cs @ q" and "[] \<notin> set cs"
  shows "feed ck cs (target_after d h p s) = Some (target_after d h (p @ concat cs) s)"
  using assms(4,5)
proof (induction cs arbitrary: p)
  case Nil
  then show ?case by (simp add: feed_def)
next
  case (Cons c cs)
  then have "transport_handler ck [] c (target_after d h p s) = Some (target_after d h (p @ c) s)"
    by (intro target_feed_one [OF s d m, where q = "concat cs @ q"]) auto
  then show ?case using Cons.IH [of "p @ c"] Cons.prems by (simp add: feed_def)
qed


section \<open>Properties\<close>

text \<open>C17. The SOCKS5 negotiation between two instances of the code succeeds, however TCP cuts the bytes
  into pieces: a target that has just connected to the initiator's streamhost and an initiator that
  has just accepted the connection, whose stream identifiers and JIDs agree, exchange exactly the
  bytes the other one expects; after the four messages both are in \<open>SOCKS5_STATE_CONNECTED\<close>, the
  target's bytestream is open, it has acknowledged the streamhost it used and stopped its timer, and
  the initiator has stopped listening, holds back incoming data and opens its bytestream when that
  acknowledgement arrives.\<close>

theorem socks5_handshake:
  assumes ini: "initiator_ready ti i" and tgt: "target_ready tt h g"
    and jids: "s5_stream_id g = s5_stream_id i" "s5_peer_jid g = s5_self_full_jid i"
      "s5_self_full_jid g = s5_peer_jid i" "sh_jid h = s5_self_full_jid i"
    and d: "domain_for ck False i = Some d"
    and as: "concat as = [SOCKS5_VERSION, 1, SOCKS5_AUTH_NONE]" "[] \<notin> set as"
    and bs: "concat bs = [SOCKS5_VERSION, SOCKS5_AUTH_NONE]" "[] \<notin> set bs"
    and cs: "concat cs = connect_message SOCKS5_CMD_CONNECT d" "[] \<notin> set cs"
    and es: "concat es = connect_message SOCKS5_STATUS_OK d" "[] \<notin> set es"
  shows "\<exists>i1 g1 i2 g2 i3.
    feed ck as i = Some i1 \<and> s5_trace i1 = s5_trace i @ [S5_write (concat bs)]
    \<and> feed ck bs g = Some g1 \<and> s5_trace g1 = s5_trace g @ [S5_write (concat cs)]
    \<and> feed ck cs i1 = Some i2 \<and> s5_trace i2 = s5_trace i1 @ [S5_write (concat es)]
    \<and> feed ck es g1 = Some g2
    \<and> s5_state i2 = SOCKS5_STATE_CONNECTED \<and> \<not> s5_listener i2
    \<and> s5_transport i2 = Some (ti\<lparr>tr_blocked := True\<rparr>)
    \<and> s5_state g2 = SOCKS5_STATE_CONNECTED \<and> \<not> s5_timer g2
    \<and> s5_bytestream_state g2 = GABBLE_BYTESTREAM_STATE_OPEN
    \<and> last (s5_trace g2) = S5_iq_ack (streamhost_used_query (sh_jid h))
    \<and> socks5_init_reply_cb proxies
         (Some (WockyNode ''iq'' None ns attrs [streamhost_used_query (sh_jid h)])) i2 = Some i3
    \<and> s5_bytestream_state i3 = GABBLE_BYTESTREAM_STATE_OPEN
    \<and> s5_transport i3 = Some (ti\<lparr>tr_blocked := False\<rparr>)"
proof -
  let ?i0 = "initiator_after ti d [] i" and ?g0 = "target_after d h [] g"
  have z: "?i0 = i" "?g0 = g" using ini tgt
    by (simp_all add: initiator_after_def target_after_def initiator_ready_def target_ready_def)
  have e: "(initiator_authed i)\<lparr>s5_read_buffer := Some []\<rparr> = initiator_authed i"
    "(target_requested d g)\<lparr>s5_read_buffer := Some []\<rparr> = target_requested d g"
    using ini tgt by (simp_all add: initiator_authed_def target_requested_def s5_emit_def
        initiator_ready_def target_ready_def)
  have d': "domain_for ck True g = Some d" using d jids by (simp add: domain_for_def)
  have l: "length d = 40" using domain_length [OF d] by simp
  note i_feed = initiator_feed [OF ini d refl] and g_feed = target_feed [OF tgt d' refl]
  have i1: "feed ck as i = Some (initiator_authed i)"
    using i_feed [of "[]" as "connect_message SOCKS5_CMD_CONNECT d"] as z
    by (simp add: initiator_after_def e)
  have g1: "feed ck bs g = Some (target_requested d g)"
    using g_feed [of "[]" bs "connect_message SOCKS5_STATUS_OK d"] bs z
    by (simp add: target_after_def e)
  have i2: "feed ck cs (initiator_authed i) = Some (initiator_done ti d i)"
    using i_feed [of "[SOCKS5_VERSION, 1, SOCKS5_AUTH_NONE]" cs "[]"] cs
      connect_message_length [OF l, of SOCKS5_CMD_CONNECT]
    by (simp add: initiator_after_def e)
  have g2: "feed ck es (target_requested d g) = Some (target_done d h g)"
    using g_feed [of "[SOCKS5_VERSION, SOCKS5_AUTH_NONE]" es "[]"] es
      connect_message_length [OF l, of SOCKS5_STATUS_OK]
    by (simp add: target_after_def e)
  have i_self: "s5_self_full_jid (initiator_done ti d i) = s5_self_full_jid i"
    by (simp add: initiator_done_def initiator_authed_def s5_emit_def)
  let ?i3 = "(s5_set_state GABBLE_BYTESTREAM_STATE_OPEN (initiator_done ti d i))
      \<lparr>s5_transport := Some (ti\<lparr>tr_blocked := False\<rparr>)\<rparr>"
  have i3: "socks5_init_reply_cb proxies
      (Some (WockyNode ''iq'' None ns attrs [streamhost_used_query (sh_jid h)])) (initiator_done ti d i)
      = Some ?i3"
    using jids(4) i_self
    by (simp add: socks5_init_reply_cb_def wocky_node_defs streamhost_used_query_def tp_strdiff_def
        block_receiving_def) (simp_all add: initiator_done_def)
  show ?thesis
    by (intro exI [of _ "initiator_authed i"] exI [of _ "target_requested d g"]
        exI [of _ "initiator_done ti d i"] exI [of _ "target_done d h g"] exI [of _ ?i3] conjI
        i1 g1 i2 g2 i3)
      (use bs(1) cs(1) es(1) in \<open>simp_all add: initiator_done_def initiator_authed_def
        target_done_def target_requested_def s5_emit_def s5_set_state_def\<close>)
qed


text \<open>A connected initiator and target, for the examples.\<close>

definition example_initiator :: s5 where
  "example_initiator =
     (gabble_bytestream_socks5_init GABBLE_BYTESTREAM_STATE_INITIATING ''sid'' ''bob'' ''alice'' False)
       \<lparr>s5_state := SOCKS5_STATE_INITIATOR_AWAITING_AUTH_REQUEST, s5_listener := True,
        s5_transport := Some \<lparr>tr_connected = True, tr_empty = True, tr_blocked = False\<rparr>,
        s5_read_buffer := Some []\<rparr>"

definition example_streamhost :: Streamhost where
  "example_streamhost = \<lparr>sh_jid = ''alice'', sh_host = ''10.0.0.1'', sh_port = 5086\<rparr>"

definition example_target :: s5 where
  "example_target =
     (gabble_bytestream_socks5_init GABBLE_BYTESTREAM_STATE_ACCEPTED ''sid'' ''alice'' ''bob'' False)
       \<lparr>s5_state := SOCKS5_STATE_TARGET_AUTH_REQUEST_SENT,
        s5_streamhosts := [example_streamhost], s5_msg_for_acknowledge_connection := True,
        s5_transport := Some \<lparr>tr_connected = True, tr_empty = True, tr_blocked = False\<rparr>,
        s5_read_buffer := Some []\<rparr>"

lemmas example_defs = example_initiator_def example_target_def example_streamhost_def
  gabble_bytestream_socks5_init_def

theorem socks5_handshake_witness:
  "\<exists>i1 g1 i2 g2.
     feed (\<lambda>_. replicate 40 97) [[5], [1, 0]] example_initiator = Some i1
     \<and> feed (\<lambda>_. replicate 40 97) [[5, 0]] example_target = Some g1
     \<and> feed (\<lambda>_. replicate 40 97) [[5, 1, 0], 3 # 40 # replicate 40 97, [0, 0]] i1 = Some i2
     \<and> feed (\<lambda>_. replicate 40 97) [[5, 0, 0, 3, 40], replicate 40 97 @ [0], [0]] g1 = Some g2
     \<and> s5_state i2 = SOCKS5_STATE_CONNECTED
     \<and> s5_bytestream_state g2 = GABBLE_BYTESTREAM_STATE_OPEN"
proof -
  have d: "domain_for (\<lambda>_. replicate 40 97) False example_initiator = Some (replicate 40 97)"
    by (simp add: domain_for_def compute_domain_def sha1_hex_def SHA1_HASH_SIZE_def g_ascii_tolower_def)
  have i: "initiator_ready \<lparr>tr_connected = True, tr_empty = True, tr_blocked = False\<rparr> example_initiator"
    by (simp add: initiator_ready_def example_defs)
  have g: "target_ready \<lparr>tr_connected = True, tr_empty = True, tr_blocked = False\<rparr> example_streamhost
      example_target"
    by (simp add: target_ready_def example_defs)
  from socks5_handshake [OF i g _ _ _ _ d, of "[[5], [1, 0]]" "[[5, 0]]"
      "[[5, 1, 0], 3 # 40 # replicate 40 97, [0, 0]]" "[[5, 0, 0, 3, 40], replicate 40 97 @ [0], [0]]"
      "[]" None "[]"]
  show ?thesis
    by (simp add: example_defs socks5_constants connect_message_def) blast
qed


lemma strncmp_eq_take:
  "strncmp_eq n a d \<Longrightarrow> length d = n \<Longrightarrow> 0 \<notin> set d \<Longrightarrow> take n a = d"
proof (induction n arbitrary: a d)
  case (Suc n)
  then obtain x d' where d: "d = x # d'" "length d' = n" "x \<noteq> 0" "0 \<notin> set d'"
    by (cases d) auto
  with Suc.prems(1) obtain a' where a: "a = x # a'" by (cases a) (auto simp: c_at_def)
  with d Suc.prems(1) have "strncmp_eq n a' d'" by (simp add: c_at_def)
  with Suc.IH d a show ?case by simp
qed simp

lemma connect_message_of_bytes:
  assumes "\<not> packet_incomplete str 41" and "str ! 0 = SOCKS5_VERSION" "str ! 1 = c"
    "str ! 2 = SOCKS5_RESERVED" "str ! 3 = SOCKS5_ATYP_DOMAIN" "str ! 4 = 40"
    "str ! 45 = 0" "str ! 46 = 0" and d: "take 40 (drop 5 str) = d" "length d = 40"
  shows "take 47 str = connect_message c d"
proof -
  have l: "47 \<le> length str" using packet_complete_length [OF assms(1)]
    by (simp add: SOCKS5_MIN_LENGTH_def)
  have "take (5 + (40 + 2)) str = take 5 str @ take 40 (drop 5 str) @ take 2 (drop 45 str)"
    by (simp only: take_add drop_drop) simp
  then have "take 47 str = take 5 str @ take 40 (drop 5 str) @ take 2 (drop 45 str)" by simp
  moreover have e: "length (take 5 str) = 5" "length (take 2 (drop 45 str)) = 2" using l by auto
  have "take 5 str = [str ! 0, str ! 1, str ! 2, str ! 3, str ! 4]"
    using map_nth [of "take 5 str", unfolded e]
    by (simp add: upt_conv_Cons numeral_eq_Suc)
  moreover have "take 2 (drop 45 str) = [str ! 45, str ! 46]"
    using map_nth [of "take 2 (drop 45 str)", unfolded e] l by (simp add: upt_conv_Cons)
  ultimately show ?thesis using assms by (simp add: connect_message_def)
qed

lemma awaiting_error:
  "awaiting_peer (s5_state s) \<Longrightarrow>
   socks5_error s = Some ((stop_timer s)\<lparr>s5_state := SOCKS5_STATE_ERROR\<rparr>)"
  by (auto simp: socks5_error_def Let_def)

lemma domain_length_of: "compute_domain ck a b c = Some d \<Longrightarrow> length d = 40 \<and> 0 \<notin> set d"
  by (auto simp: compute_domain_def sha1_hex_def SHA1_HASH_SIZE_def Let_def
      g_ascii_tolower_zero split: if_splits)

text \<open>The only way to \<open>SOCKS5_STATE_CONNECTED\<close> for the initiator that waits for the command.\<close>

lemma connect_command_connected:
  assumes st: "s5_state s = SOCKS5_STATE_INITIATOR_AWAITING_COMMAND"
    and h: "handle_connect_command ck w str s = Some (n, s')"
    and c: "s5_state s' = SOCKS5_STATE_CONNECTED"
  shows "n = 47 \<and> (\<exists>d. domain_for ck False s = Some d \<and> take 47 str = connect_message SOCKS5_CMD_CONNECT d)"
proof -
  have l: "\<not> length str < SOCKS5_MIN_LENGTH" and p: "\<not> packet_incomplete str (str ! 4 + 1)"
    using h st c by (auto simp: handle_connect_command_def str_at_header Let_def split: if_splits)
  obtain a b where ab: "str_at str (4 + unat (str ! 4 + 1)) = Some a"
    "str_at str (5 + unat (str ! 4 + 1)) = Some b" using str_at_port [OF p] by blast
  obtain d where d: "domain_for ck False s = Some d"
    and f: "str ! 0 = SOCKS5_VERSION" "str ! 1 = SOCKS5_CMD_CONNECT" "str ! 2 = SOCKS5_RESERVED"
      "str ! 3 = SOCKS5_ATYP_DOMAIN" "a = 0" "b = 0"
    and k: "check_domain (drop 5 str) (str ! 4) d"
    and n: "n = int (SOCKS5_MIN_LENGTH + unat (str ! 4 + 1))"
    using h st c l p ab
    by (auto simp: handle_connect_command_def str_at_header Let_def awaiting_error
        split: if_splits bind_splits)
  have four: "str ! 4 = 40"
    using k by (simp add: check_domain_def SHA1_LENGTH_def word_unat_eq_iff split: if_splits)
  moreover have "take 40 (drop 5 str) = d"
    using k domain_length [OF d]
    by (intro strncmp_eq_take) (auto simp: check_domain_def SHA1_LENGTH_def split: if_splits)
  ultimately show ?thesis
    using n d f ab p domain_length [OF d] packet_complete_length [OF p]
      connect_message_of_bytes [of str SOCKS5_CMD_CONNECT d]
    by (auto simp: SOCKS5_MIN_LENGTH_def str_at_def)
qed

lemma connect_command_rejected:
  assumes st: "s5_state s = SOCKS5_STATE_INITIATOR_AWAITING_COMMAND"
    and d: "domain_for ck False s = Some d" and x: "length x = 40" "x \<noteq> d"
  shows "handle_connect_command ck w (connect_message SOCKS5_CMD_CONNECT x) s =
    Some (- 1, (stop_timer (socks5_close_transport s))\<lparr>s5_state := SOCKS5_STATE_ERROR\<rparr>)"
proof -
  let ?m = "connect_message SOCKS5_CMD_CONNECT x"
  have l: "length ?m = 47" using connect_message_length [OF x(1)] by simp
  then have n: "\<not> length ?m < SOCKS5_MIN_LENGTH" by (simp add: SOCKS5_MIN_LENGTH_def)
  note h = connect_message_header [of SOCKS5_CMD_CONNECT x ?m "[]"]
  have "?m ! 4 = 40" using h l by simp
  moreover have "\<not> packet_incomplete ?m 41" using packet_incomplete_connect [of ?m] l by simp
  moreover have "str_at ?m 45 = Some 0" "str_at ?m 46 = Some 0"
    using connect_message_port [OF x(1), of SOCKS5_CMD_CONNECT] l by (simp_all add: str_at_def)
  moreover have "take 40 (drop 5 ?m) = x" using x(1) by (simp add: connect_message_def)
  then have "\<not> check_domain (drop 5 ?m) 40 d"
    using strncmp_eq_take [of 40 "drop 5 ?m" d] domain_length [OF d] x(2)
    by (auto simp: check_domain_def SHA1_LENGTH_def)
  ultimately show ?thesis
    using st d h l n by (simp add: handle_connect_command_def str_at_header Let_def awaiting_error)
qed

text \<open>C19. A peer gets the connection only with the right domain: when the initiator, waiting for the
  command, goes to \<open>SOCKS5_STATE_CONNECTED\<close>, the first 47 bytes it received are exactly the CONNECT
  command for the hash of stream identifier, initiator and target, whatever the bytes and whatever
  happens to the reply; and a complete command for another domain makes it drop the connection while
  it goes on listening.\<close>

theorem socks5_spoofing_rejected:
  assumes st: "s5_state s = SOCKS5_STATE_INITIATOR_AWAITING_COMMAND"
    and h: "socks5_handle_received_data ck w str s = Some (n, s')"
  shows "(s5_state s' = SOCKS5_STATE_CONNECTED \<longrightarrow> n = 47 \<and>
      (\<exists>d. compute_domain ck (s5_stream_id s) (s5_self_full_jid s) (s5_peer_jid s) = Some d
         \<and> take 47 str = connect_message SOCKS5_CMD_CONNECT d))
    \<and> (\<forall>x d. compute_domain ck (s5_stream_id s) (s5_self_full_jid s) (s5_peer_jid s) = Some d \<longrightarrow>
         str = connect_message SOCKS5_CMD_CONNECT x \<longrightarrow> length x = 40 \<longrightarrow> x \<noteq> d \<longrightarrow>
         s5_state s' = SOCKS5_STATE_ERROR \<and> s5_transport s' = None
         \<and> s5_listener s' = s5_listener s \<and> s5_trace s' = s5_trace s)"
  using connect_command_connected [OF st, of ck w str n s'] connect_command_rejected [OF st, of ck]
    h st
  by (auto simp: socks5_handle_received_data_def domain_for_def socks5_close_transport_def)


lemma example_domain:
  "compute_domain (\<lambda>_. replicate 40 97) a b c = Some (replicate 40 97)"
  by (simp add: compute_domain_def sha1_hex_def SHA1_HASH_SIZE_def g_ascii_tolower_def)

theorem socks5_spoofing_rejected_witness:
  "\<exists>s'. socks5_handle_received_data (\<lambda>_. replicate 40 97) W_all
      (connect_message SOCKS5_CMD_CONNECT (replicate 40 98)) (initiator_authed example_initiator)
      = Some (- 1, s') \<and> s5_state s' = SOCKS5_STATE_ERROR \<and> s5_transport s' = None
      \<and> s5_listener s'"
proof -
  let ?s = "initiator_authed example_initiator"
  have st: "s5_state ?s = SOCKS5_STATE_INITIATOR_AWAITING_COMMAND" by simp
  obtain n s' where h: "socks5_handle_received_data (\<lambda>_. replicate 40 97) W_all
      (connect_message SOCKS5_CMD_CONNECT (replicate 40 98)) ?s = Some (n, s')" and n: "n = - 1"
    using connect_command_rejected [OF st, of "\<lambda>_. replicate 40 97" "replicate 40 97" "replicate 40 98"]
    by (simp add: socks5_handle_received_data_def domain_for_def example_domain)
  from socks5_spoofing_rejected [OF st h] have "s5_state s' = SOCKS5_STATE_ERROR \<and> s5_transport s' = None
      \<and> s5_listener s' = s5_listener ?s"
    by (simp add: example_domain)
  with h n show ?thesis by (simp add: example_initiator_def)
qed

lemma initiator_receives_auth:
  assumes s: "initiator_ready t s" and d: "domain_for ck False s = Some d"
  shows "transport_handler ck [] [5, 1, 0] s = Some (initiator_authed s)"
proof -
  have e: "(initiator_authed s)\<lparr>s5_read_buffer := Some []\<rparr> = initiator_authed s"
    using s by (simp add: initiator_authed_def s5_emit_def initiator_ready_def)
  show ?thesis
    using initiator_auth_loop [OF s d, of "[5, 1, 0]" "connect_message SOCKS5_CMD_CONNECT d"] s
    by (simp add: transport_handler_def initiator_ready_def initiator_after_def socks5_constants e)
qed

lemma example_legal_run:
  "legal_run s5_legal (s5_step (\<lambda>_. replicate 40 97))
     [In_initiate [] [''10.0.0.1''] (Some 5086), In_new_connection, In_received [] [5, 1, 0], In_close]
     (gabble_bytestream_socks5_init GABBLE_BYTESTREAM_STATE_INITIATING ''sid'' ''bob'' ''alice'' False)"
proof -
  let ?ck = "\<lambda>_ :: bytes. replicate 40 (97 :: byte)"
  let ?s0 = "gabble_bytestream_socks5_init GABBLE_BYTESTREAM_STATE_INITIATING ''sid'' ''bob'' ''alice''
      False"
  let ?s1 = "send_streamhosts [] [''10.0.0.1''] 5086 (?s0\<lparr>s5_listener := True\<rparr>)"
  let ?t = "\<lparr>tr_connected = True, tr_empty = True, tr_blocked = False\<rparr>"
  let ?s2 = "?s1\<lparr>s5_state := SOCKS5_STATE_INITIATOR_AWAITING_AUTH_REQUEST, s5_transport := Some ?t,
      s5_read_buffer := Some []\<rparr>"
  have s1: "s5_step ?ck (In_initiate [] [''10.0.0.1''] (Some 5086)) ?s0 = Some ?s1"
    by (simp add: s5_step_def gabble_bytestream_socks5_initiate_def gabble_bytestream_socks5_init_def)
  have f: "s5_listener ?s1" "s5_transport ?s1 = None" "s5_state ?s1 = SOCKS5_STATE_INITIATOR_OFFER_SENT"
    "s5_bytestream_state ?s1 = GABBLE_BYTESTREAM_STATE_INITIATING" "\<not> s5_dispose_has_run ?s1"
    "s5_read_buffer ?s1 = None" "\<not> s5_write_blocked ?s1"
    by (simp_all add: send_streamhosts_def gabble_bytestream_socks5_init_def s5_emit_def)
  have s2: "s5_step ?ck In_new_connection ?s1 = Some ?s2"
    using f by (simp add: s5_step_def new_connection_cb_def set_transport_def)
  have "initiator_ready ?t ?s2" using f by (simp add: initiator_ready_def)
  then have s3: "s5_step ?ck (In_received [] [5, 1, 0]) ?s2 = Some (initiator_authed ?s2)"
    using initiator_receives_auth [of ?t ?s2 ?ck]
    by (simp add: s5_step_def domain_for_def example_domain)
  have l: "s5_legal (In_initiate [] [''10.0.0.1''] (Some 5086)) ?s0"
    "s5_legal In_new_connection ?s1" "s5_legal (In_received [] [5, 1, 0]) ?s2"
    "s5_legal In_close (initiator_authed ?s2)"
    using f by (simp_all add: s5_legal_def s5_gone_def gabble_bytestream_socks5_init_def proxy_quiet_def)
  show ?thesis using s1 s2 s3 l by (simp split: option.split)
qed


definition trying_hosts :: "Streamhost list \<Rightarrow> s5 \<Rightarrow> bool" where
  "trying_hosts hs s \<longleftrightarrow>
     s5_state s = SOCKS5_STATE_TARGET_TRYING_CONNECT \<and> s5_streamhosts s = hs
     \<and> s5_msg_for_acknowledge_connection s"

definition gave_up :: "s5 \<Rightarrow> bool" where
  "gave_up s \<longleftrightarrow> s5_state s = SOCKS5_STATE_ERROR \<and> s5_transport s = None \<and> s5_streamhosts s = []
     \<and> \<not> s5_timer s \<and> \<not> s5_msg_for_acknowledge_connection s"

definition connect_event :: "Streamhost \<Rightarrow> s5_event" where
  "connect_event h = S5_connect_to (sh_host h) (sh_port h)"

lemma connect_first_trace:
  assumes "s5_streamhosts s = h # hs" "s5_read_buffer s = None" "\<not> s5_timer s"
    "s5_msg_for_acknowledge_connection s"
  shows "\<exists>s'. socks5_connect_first s = Some s' \<and> trying_hosts (h # hs) s'
    \<and> s5_trace s' = s5_trace s @ [connect_event h]"
  using assms by (simp add: socks5_connect_first_def set_transport_def start_timer_def
      trying_hosts_def connect_event_def)

lemma trying_error:
  assumes "trying_hosts (h # hs) s"
  shows "\<exists>s'. socks5_error s = Some s' \<and> (if hs = [] then gave_up s' else trying_hosts hs s')
    \<and> s5_trace s' = s5_trace s @
        (case hs of [] \<Rightarrow> [S5_connection_error, S5_iq_error] | h' # _ \<Rightarrow> [connect_event h'])"
proof (cases hs)
  case Nil
  with assms show ?thesis
    by (simp add: trying_hosts_def socks5_error_def Let_def gave_up_def socks5_close_transport_def
        stop_timer_def s5_emit_def)
next
  case (Cons h' hs')
  let ?s = "(socks5_close_transport ((stop_timer s)\<lparr>s5_state := SOCKS5_STATE_ERROR\<rparr>))
      \<lparr>s5_streamhosts := hs\<rparr>"
  have "socks5_error s = socks5_connect_first ?s"
    using assms Cons by (simp add: trying_hosts_def socks5_error_def Let_def)
  moreover have "s5_trace ?s = s5_trace s" by (simp add: socks5_close_transport_def stop_timer_def)
  ultimately show ?thesis
    using connect_first_trace [of ?s h' hs'] assms Cons by (auto simp: trying_hosts_def)
qed

definition attempt_fails :: "s5_input \<Rightarrow> bool" where
  "attempt_fails x \<longleftrightarrow> x = In_disconnected \<or> x = In_timeout"

lemma trying_step:
  assumes "trying_hosts (h # hs) s" "attempt_fails x"
  shows "\<exists>s'. s5_step ck x s = Some s' \<and> (if hs = [] then gave_up s' else trying_hosts hs s')
    \<and> s5_trace s' = s5_trace s @
        (case hs of [] \<Rightarrow> [S5_connection_error, S5_iq_error] | h' # _ \<Rightarrow> [connect_event h'])"
proof -
  let ?s = "stop_timer (with_transport (tr_connected_update (\<lambda>_. False)
      \<circ> tr_empty_update (\<lambda>_. True)) s)"
  have "trying_hosts (h # hs) ?s" "s5_trace ?s = s5_trace s"
    using assms(1) by (simp_all add: trying_hosts_def with_transport_def stop_timer_def)
  then show ?thesis
    using assms(2) trying_error [OF assms(1)] trying_error [of h hs ?s]
    by (auto simp: attempt_fails_def s5_step_def socks5_timer_cb_def transport_disconnected_cb_def)
qed

lemma trying_run:
  assumes "trying_hosts (h # hs) s" "\<forall>x \<in> set xs. attempt_fails x" "length xs = Suc (length hs)"
  shows "\<exists>s'. run (s5_step ck) xs s = Some s' \<and> gave_up s'
    \<and> s5_trace s' = s5_trace s @ map connect_event hs @ [S5_connection_error, S5_iq_error]"
  using assms
proof (induction hs arbitrary: h s xs)
  case Nil
  then obtain x where "xs = [x]" "attempt_fails x" by (cases xs) auto
  with trying_step [OF Nil.prems(1), of x ck] show ?case by auto
next
  case (Cons h' hs)
  then obtain x xs' where x: "xs = x # xs'" "attempt_fails x" "\<forall>x \<in> set xs'. attempt_fails x"
      "length xs' = Suc (length hs)" by (cases xs) auto
  from trying_step [OF Cons.prems(1) x(2), of ck] obtain s1 where
    s1: "s5_step ck x s = Some s1" "trying_hosts (h' # hs) s1"
      "s5_trace s1 = s5_trace s @ [connect_event h']" by auto
  from Cons.IH [OF s1(2) x(3,4)] s1 x(1) show ?case by auto
qed

text \<open>C20. A target tries every streamhost it was offered, in the order of the offer and each of them
  once, as long as the attempts fail or time out; when the last one has failed it reports
  \<open>connection-error\<close> and answers the query with exactly one error, the connection is released and no
  timer is left.\<close>

theorem socks5_tries_all_streamhosts:
  assumes "s5_state s = SOCKS5_STATE_INVALID" "s5_read_buffer s = None" "\<not> s5_timer s"
    and "s5_streamhosts s \<noteq> []"
    and "\<forall>x \<in> set xs. attempt_fails x" "length xs = length (s5_streamhosts s)"
  shows "\<exists>s'. run (s5_step ck) (In_connect_to_streamhost # xs) s = Some s' \<and> gave_up s'
    \<and> s5_trace s' = s5_trace s @ map connect_event (s5_streamhosts s)
         @ [S5_connection_error, S5_iq_error]"
proof -
  obtain h hs where h: "s5_streamhosts s = h # hs" using assms(4) by (cases "s5_streamhosts s") auto
  from connect_first_trace [of "s\<lparr>s5_msg_for_acknowledge_connection := True\<rparr>" h hs] h assms
  obtain s1 where s1: "s5_step ck In_connect_to_streamhost s = Some s1" "trying_hosts (h # hs) s1"
    "s5_trace s1 = s5_trace s @ [connect_event h]"
    by (auto simp: s5_step_def gabble_bytestream_socks5_connect_to_streamhost_def socks5_connect_def)
  from trying_run [OF s1(2), of xs ck] assms(5,6) h s1 show ?thesis by auto
qed

theorem socks5_tries_all_streamhosts_witness:
  "\<exists>s'. run (s5_step (\<lambda>_. [])) [In_connect_to_streamhost, In_timeout, In_disconnected]
     ((gabble_bytestream_socks5_init GABBLE_BYTESTREAM_STATE_ACCEPTED ''sid'' ''alice'' ''bob'' False)
        \<lparr>s5_streamhosts := [example_streamhost, \<lparr>sh_jid = ''proxy'', sh_host = ''p'', sh_port = 7777\<rparr>]\<rparr>)
     = Some s' \<and> gave_up s'
   \<and> s5_trace s' = [S5_connect_to ''10.0.0.1'' 5086, S5_connect_to ''p'' 7777,
       S5_connection_error, S5_iq_error]"
  using socks5_tries_all_streamhosts [of
      "(gabble_bytestream_socks5_init GABBLE_BYTESTREAM_STATE_ACCEPTED ''sid'' ''alice'' ''bob'' False)
        \<lparr>s5_streamhosts := [example_streamhost, \<lparr>sh_jid = ''proxy'', sh_host = ''p'', sh_port = 7777\<rparr>]\<rparr>"
      "[In_timeout, In_disconnected]" "\<lambda>_. []"]
  by (simp add: gabble_bytestream_socks5_init_def attempt_fails_def connect_event_def
      example_streamhost_def)

lemma streamhost_node_attributes:
  "node_name (streamhost_node j h p) = ''streamhost''"
  "wocky_node_get_attribute (streamhost_node j h p) ''zeroconf'' = None"
  "wocky_node_get_attribute (streamhost_node j h p) ''jid'' = Some j"
  "wocky_node_get_attribute (streamhost_node j h p) ''host'' = Some h"
  "wocky_node_get_attribute (streamhost_node j h p) ''port'' = Some p"
  by (simp_all add: streamhost_node_def wocky_node_defs)

definition accepts_streamhost :: "s5 \<Rightarrow> Streamhost \<Rightarrow> bool" where
  "accepts_streamhost s h \<longleftrightarrow> sh_port h \<noteq> 0 \<and> (s5_muc_contact s \<longrightarrow> sh_jid h = s5_peer_jid s)"

lemma add_offered_streamhost:
  "gabble_bytestream_socks5_add_streamhost
     (streamhost_node (sh_jid h) (sh_host h) (show_int (uint (sh_port h)))) s =
   (if accepts_streamhost s h then s\<lparr>s5_streamhosts := s5_streamhosts s @ [h]\<rparr> else s)"
proof -
  have u: "0 \<le> uint (sh_port h)" "uint (sh_port h) < 65536"
    using uint_bounded [of "sh_port h"] by simp_all
  then have "strtol (show_int (uint (sh_port h))) = (uint (sh_port h), [])"
    by (intro strtol_show_int) (simp add: LONG_MAX_def)
  moreover have "uint (sh_port h) \<le> 0 \<longleftrightarrow> sh_port h = 0"
    using u(1) by (metis order.antisym order_refl unsigned_0 unsigned_eq_0_iff)
  ultimately show ?thesis using u
    by (auto simp: gabble_bytestream_socks5_add_streamhost_def streamhost_node_attributes
        tp_strdiff_def accepts_streamhost_def)
qed

definition streamhost_offer :: "GabbleSocks5Proxy list \<Rightarrow> string list \<Rightarrow> guint16 \<Rightarrow> s5 \<Rightarrow> Streamhost list" where
  "streamhost_offer proxies ips port s =
     (if port \<noteq> 0 then map (\<lambda>ip. \<lparr>sh_jid = s5_self_full_jid s, sh_host = ip, sh_port = port\<rparr>) ips
      else [])
     @ (if s5_muc_contact s then [] else proxies)"

lemma offered_streamhosts_nodes:
  "offered_streamhosts proxies ips (unat port) s =
   map (\<lambda>h. streamhost_node (sh_jid h) (sh_host h) (show_int (uint (sh_port h))))
     (streamhost_offer proxies ips port s)"
  by (simp add: offered_streamhosts_def streamhost_offer_def comp_def unat_eq_zero)

lemma add_offered_streamhosts:
  "fold gabble_bytestream_socks5_add_streamhost
     (map (\<lambda>h. streamhost_node (sh_jid h) (sh_host h) (show_int (uint (sh_port h)))) hs) s =
   s\<lparr>s5_streamhosts := s5_streamhosts s @ filter (accepts_streamhost s) hs\<rparr>"
proof (induction hs arbitrary: s)
  case (Cons h hs)
  have "accepts_streamhost (s\<lparr>s5_streamhosts := x\<rparr>) = accepts_streamhost s" for x
    by (simp add: accepts_streamhost_def fun_eq_iff)
  with Cons show ?case by (simp add: add_offered_streamhost)
qed simp

text \<open>C21. A target gets the streamhosts the initiator offers: reading the children of the query that
  \<open>gabble_bytestream_socks5_initiate\<close> sends, one after the other, appends the initiator's own
  addresses with its listening port, if it listens, and then the proxies, if the target is not a room
  contact, in this order; only proxies without a port, and in a room everything that is not the peer
  itself, are left out.\<close>

theorem socks5_offer_roundtrip:
  assumes "gabble_bytestream_socks5_initiate proxies ips port i = Some (True, i')"
  shows "\<exists>q. last (s5_trace i') = S5_send_offer q
    \<and> wocky_node_get_attribute q ''sid'' = Some (s5_stream_id i)
    \<and> wocky_node_get_attribute q ''mode'' = Some ''tcp''
    \<and> fold gabble_bytestream_socks5_add_streamhost (node_children q) g =
      g\<lparr>s5_streamhosts := s5_streamhosts g @
          filter (accepts_streamhost g) (streamhost_offer proxies ips (case port of None \<Rightarrow> 0 | Some p \<Rightarrow> p) i)\<rparr>"
proof -
  have u: "unat (0 :: guint16) = 0" by simp
  note o = offered_streamhosts_nodes [of proxies _ 0 i, unfolded u]
    offered_streamhosts_nodes [of proxies ips _ i]
  have [simp]: "offered_streamhosts p x n (i\<lparr>s5_listener := l\<rparr>) = offered_streamhosts p x n i" for p x n l
    by (simp add: offered_streamhosts_def)
  from assms show ?thesis
    by (auto simp: gabble_bytestream_socks5_initiate_def Let_def send_streamhosts_def wocky_node_defs
        s5_emit_def o add_offered_streamhosts split: if_splits option.splits)
      (simp_all add: streamhost_offer_def)
qed


theorem socks5_offer_roundtrip_witness:
  "\<exists>i' q. gabble_bytestream_socks5_initiate [\<lparr>sh_jid = ''proxy'', sh_host = ''p'', sh_port = 7777\<rparr>]
       [''10.0.0.1''] (Some 5086)
       (gabble_bytestream_socks5_init GABBLE_BYTESTREAM_STATE_INITIATING ''sid'' ''bob'' ''alice'' False)
     = Some (True, i') \<and> last (s5_trace i') = S5_send_offer q
   \<and> s5_streamhosts (fold gabble_bytestream_socks5_add_streamhost (node_children q)
       (gabble_bytestream_socks5_init GABBLE_BYTESTREAM_STATE_ACCEPTED ''sid'' ''alice'' ''bob'' False))
     = [example_streamhost, \<lparr>sh_jid = ''proxy'', sh_host = ''p'', sh_port = 7777\<rparr>]"
proof -
  let ?i = "gabble_bytestream_socks5_init GABBLE_BYTESTREAM_STATE_INITIATING ''sid'' ''bob'' ''alice'' False"
  let ?g = "gabble_bytestream_socks5_init GABBLE_BYTESTREAM_STATE_ACCEPTED ''sid'' ''alice'' ''bob'' False"
  obtain i' where i: "gabble_bytestream_socks5_initiate
      [\<lparr>sh_jid = ''proxy'', sh_host = ''p'', sh_port = 7777\<rparr>] [''10.0.0.1''] (Some 5086) ?i = Some (True, i')"
    by (simp add: gabble_bytestream_socks5_initiate_def gabble_bytestream_socks5_init_def Let_def)
  from socks5_offer_roundtrip [OF i, of ?g] obtain q where "last (s5_trace i') = S5_send_offer q"
    and f: "fold gabble_bytestream_socks5_add_streamhost (node_children q) ?g =
      ?g\<lparr>s5_streamhosts := s5_streamhosts ?g @ filter (accepts_streamhost ?g)
        (streamhost_offer [\<lparr>sh_jid = ''proxy'', sh_host = ''p'', sh_port = 7777\<rparr>] [''10.0.0.1''] 5086 ?i)\<rparr>"
    by auto
  moreover have "s5_streamhosts (fold gabble_bytestream_socks5_add_streamhost (node_children q) ?g)
      = [example_streamhost, \<lparr>sh_jid = ''proxy'', sh_host = ''p'', sh_port = 7777\<rparr>]"
    unfolding f by (simp add: gabble_bytestream_socks5_init_def streamhost_offer_def
        accepts_streamhost_def example_streamhost_def)
  ultimately show ?thesis using i by blast
qed

section \<open>The bytestream contract\<close>

lemma error_closes:
  assumes "socks5_error s = Some s'"
  shows "s5_bytestream_state s' \<in> {s5_bytestream_state s, GABBLE_BYTESTREAM_STATE_CLOSING,
    GABBLE_BYTESTREAM_STATE_CLOSED}"
proof -
  have c: "s5_bytestream_state (gabble_bytestream_socks5_close e x)
      \<in> {GABBLE_BYTESTREAM_STATE_CLOSING, GABBLE_BYTESTREAM_STATE_CLOSED}" for e x
    by (cases rule: close_cases [of x e]) simp_all
  have f: "socks5_connect_first x = Some s' \<Longrightarrow> s5_bytestream_state s' = s5_bytestream_state x" for x
    by (auto simp: socks5_connect_first_def set_transport_def start_timer_def Let_def
        split: list.splits if_splits bind_splits)
  show ?thesis
    using assms c
    by (auto simp: socks5_error_def Let_def dest!: f split: Socks5State.splits if_splits)
qed

lemma close_shuts_state:
  "s5_bytestream_state (gabble_bytestream_socks5_close e s)
     \<in> {GABBLE_BYTESTREAM_STATE_CLOSING, GABBLE_BYTESTREAM_STATE_CLOSED}"
  by (cases rule: close_cases [of s e]) simp_all

lemma close_not_closed:
  "s5_bytestream_state (gabble_bytestream_socks5_close e s) \<noteq> GABBLE_BYTESTREAM_STATE_CLOSED \<Longrightarrow>
   s5_bytestream_state (gabble_bytestream_socks5_close e s) = GABBLE_BYTESTREAM_STATE_CLOSING"
  using close_shuts_state [of e s] by blast

lemma write_open_state:
  assumes "write_to_transport w d s = Some (r, s')"
    and "s5_bytestream_state s = GABBLE_BYTESTREAM_STATE_OPEN"
  shows "s5_bytestream_state s' \<in> {GABBLE_BYTESTREAM_STATE_OPEN, GABBLE_BYTESTREAM_STATE_CLOSING,
    GABBLE_BYTESTREAM_STATE_CLOSED}"
  using assms
  by (auto simp: write_to_transport_def transport_disconnected_cb_def transport_buffer_empty_cb_def
      dest!: error_closes split: option.splits if_splits)

lemma send_open_state:
  assumes "gabble_bytestream_socks5_send w d s = Some (r, s')"
    and "s5_bytestream_state s = GABBLE_BYTESTREAM_STATE_OPEN"
  shows "s5_bytestream_state s' \<in> {GABBLE_BYTESTREAM_STATE_OPEN, GABBLE_BYTESTREAM_STATE_CLOSING,
    GABBLE_BYTESTREAM_STATE_CLOSED}"
  using assms
  by (auto simp: gabble_bytestream_socks5_send_def close_not_closed dest!: write_open_state
      split: if_splits option.splits bind_splits)

interpretation s5_stream: bytestream s5_bytestream_state
  "\<lambda>d s r s'. \<exists>w. gabble_bytestream_socks5_send w d s = Some (r, s')"
  "\<lambda>s s'. s' = gabble_bytestream_socks5_close err s"
  for err :: cstring
proof
  fix d s r s'
  assume "\<exists>w. gabble_bytestream_socks5_send w d s = Some (r, s')"
    and "s5_bytestream_state s \<noteq> GABBLE_BYTESTREAM_STATE_OPEN"
  then show "\<not> r \<and> s' = s" by (auto simp: gabble_bytestream_socks5_send_def)
next
  fix s s'
  assume "s' = gabble_bytestream_socks5_close err s"
  then show "s5_bytestream_state s' \<in> {GABBLE_BYTESTREAM_STATE_CLOSING, GABBLE_BYTESTREAM_STATE_CLOSED}"
    by (simp only: close_shuts_state)
qed (auto dest: send_open_state simp: gabble_bytestream_socks5_close_def)

section \<open>Where the negotiation goes wrong\<close>

text \<open>Three things a remote party can do make the process abort: connect a second time to the port
  the initiator listens on (the second connection runs into the assertion that there is no read
  buffer), send the streamhost query again while a connection is being tried, and, for a proxy, send
  data together with its reply to CONNECT (the loop hands the rest of the bytes to
  \<open>socks5_handle_received_data\<close> in a state in which it does not expect any).\<close>

theorem socks5_remote_aborts:
  "(ips \<noteq> [] \<longrightarrow>
     run (s5_step ck) [In_initiate proxies ips port, In_new_connection, In_new_connection]
       (gabble_bytestream_socks5_init GABBLE_BYTESTREAM_STATE_INITIATING sid peer self muc) = None)
   \<and> (s5_read_buffer s \<noteq> None \<longrightarrow> s5_streamhosts s \<noteq> [] \<longrightarrow>
     s5_step ck In_connect_to_streamhost s = None)
   \<and> (sha1_like ck \<longrightarrow> s5_state s = SOCKS5_STATE_INITIATOR_CONNECT_REQUESTED \<longrightarrow>
     s5_read_buffer s = Some [] \<longrightarrow> s5_transport s \<noteq> None \<longrightarrow> length x = 40 \<longrightarrow>
     d \<noteq> [] \<longrightarrow> length d < 200 \<longrightarrow>
     s5_step ck (In_received ws (connect_message SOCKS5_STATUS_OK x @ d)) s = None)"
proof (intro conjI impI)
  let ?i = "gabble_bytestream_socks5_init GABBLE_BYTESTREAM_STATE_INITIATING sid peer self muc"
  assume "ips \<noteq> []"
  then obtain s1 where "s5_step ck (In_initiate proxies ips port) ?i = Some s1"
    and "s5_read_buffer s1 = None"
    by (auto simp: s5_step_def gabble_bytestream_socks5_initiate_def gabble_bytestream_socks5_init_def
        Let_def send_streamhosts_def s5_emit_def split: option.splits)
  moreover from this(2) have "Option.bind (s5_step ck In_new_connection s1) (s5_step ck In_new_connection)
      = None"
    by (simp add: s5_step_def new_connection_cb_def set_transport_def)
  ultimately show "run (s5_step ck) [In_initiate proxies ips port, In_new_connection, In_new_connection] ?i
      = None" by (auto simp: bind_eq_None_conv)
next
  assume "s5_read_buffer s \<noteq> None" "s5_streamhosts s \<noteq> []"
  then show "s5_step ck In_connect_to_streamhost s = None"
    by (auto simp: s5_step_def gabble_bytestream_socks5_connect_to_streamhost_def socks5_connect_def
        socks5_connect_first_def set_transport_def split: list.split)
next
  assume ck: "sha1_like ck" and st: "s5_state s = SOCKS5_STATE_INITIATOR_CONNECT_REQUESTED"
    and b: "s5_read_buffer s = Some []" and t: "s5_transport s \<noteq> None"
    and x: "length x = 40" and d: "d \<noteq> []" "length d < 200"
  let ?m = "connect_message SOCKS5_STATUS_OK x" and ?s = "s\<lparr>s5_read_buffer := Some (connect_message SOCKS5_STATUS_OK x @ d)\<rparr>"
  have l: "length ?m = 47" by (rule connect_message_length [OF x])
  from t obtain tr where tr: "s5_transport s = Some tr" by blast
  obtain dom where dom: "domain_for ck False (stop_timer ?s) = Some dom"
    using domain_for_defined [OF ck] by blast
  have h: "(?m @ d) ! 0 = SOCKS5_VERSION" "(?m @ d) ! 1 = SOCKS5_STATUS_OK"
    "(?m @ d) ! 2 = SOCKS5_RESERVED" "(?m @ d) ! 3 = SOCKS5_ATYP_DOMAIN" "(?m @ d) ! 4 = 40"
    "\<not> length (?m @ d) < SOCKS5_MIN_LENGTH"
    using connect_message_header [of SOCKS5_STATUS_OK x ?m "[]"] l
    by (simp_all add: nth_append SOCKS5_MIN_LENGTH_def)
  have p: "str_at (?m @ d) 45 = Some 0" "str_at (?m @ d) 46 = Some 0"
    using connect_message_port [OF x, of SOCKS5_STATUS_OK] l by (simp_all add: str_at_def nth_append)
  have "unat (of_nat (47 + length d) :: guint8) = 47 + length d"
    unfolding unat_of_nat using d(2) by simp
  then have i: "\<not> packet_incomplete (?m @ d) 41" using l
    by (simp add: packet_incomplete_def SOCKS5_MIN_LENGTH_def)
  have a: "reply_addr_len SOCKS5_ATYP_DOMAIN 40 = Some 41" by (simp add: reply_addr_len_def)
  obtain s1 where s1: "handle_connect_reply ck (?m @ d) ?s = Some (47, s1)"
    "s5_state s1 = SOCKS5_STATE_INITIATOR_ACTIVATION_SENT" "s5_read_buffer s1 = Some (?m @ d)"
    using h p i a st dom tr
    by (auto simp: handle_connect_reply_def str_at_header Let_def initiator_got_connect_reply_def
        block_receiving_def SOCKS5_MIN_LENGTH_def)
  have "transport_handler_loop ck ws ?s = None"
    using s1 st d l
    by (simp add: transport_handler_loop.simps [of ck ws ?s] socks5_handle_received_data_def
        g_string_erase_def Let_def transport_handler_loop.simps [of ck "tl ws" "s1\<lparr>s5_read_buffer := x\<rparr>" for x])
  then show "s5_step ck (In_received ws (?m @ d)) s = None"
    using b by (simp add: s5_step_def transport_handler_def)
qed


theorem socks5_remote_aborts_witness:
  "run (s5_step (\<lambda>_. replicate 40 97))
     [In_initiate [] [''10.0.0.1''] (Some 5086), In_new_connection, In_new_connection]
     (gabble_bytestream_socks5_init GABBLE_BYTESTREAM_STATE_INITIATING ''sid'' ''bob'' ''alice'' False)
   = None
   \<and> s5_step (\<lambda>_. replicate 40 97) In_connect_to_streamhost example_target = None
   \<and> s5_step (\<lambda>_. replicate 40 97)
       (In_received [] (connect_message SOCKS5_STATUS_OK (replicate 40 97) @ [1]))
       (example_target\<lparr>s5_state := SOCKS5_STATE_INITIATOR_CONNECT_REQUESTED\<rparr>) = None"
proof (intro conjI)
  have ck: "sha1_like (\<lambda>_. replicate 40 97)" by (simp add: sha1_like_def)
  note r = socks5_remote_aborts [where ck = "\<lambda>_. replicate 40 97"]
  show "run (s5_step (\<lambda>_. replicate 40 97))
     [In_initiate [] [''10.0.0.1''] (Some 5086), In_new_connection, In_new_connection]
     (gabble_bytestream_socks5_init GABBLE_BYTESTREAM_STATE_INITIATING ''sid'' ''bob'' ''alice'' False)
   = None"
    using r by blast
  show "s5_step (\<lambda>_. replicate 40 97) In_connect_to_streamhost example_target = None"
    using r [of _ _ _ _ _ _ _ example_target] by (simp add: example_defs)
  show "s5_step (\<lambda>_. replicate 40 97)
       (In_received [] (connect_message SOCKS5_STATUS_OK (replicate 40 97) @ [1]))
       (example_target\<lparr>s5_state := SOCKS5_STATE_INITIATOR_CONNECT_REQUESTED\<rparr>) = None"
    using r [of _ _ _ _ _ _ _ "example_target\<lparr>s5_state := SOCKS5_STATE_INITIATOR_CONNECT_REQUESTED\<rparr>"
        "replicate 40 97" "[1]" "[]"] ck
    by (simp add: example_defs)
qed

lemma auth_request_len_large:
  assumes "128 \<le> unat c" "unat c \<le> 253"
  shows "unat (auth_request_len c) = unat c + 4294967042"
proof -
  define k where "k = uint c"
  have k: "k = int (unat c)" unfolding k_def by (rule uint_nat)
  then have r: "128 \<le> k" "k \<le> 253" using assms by linarith+
  then have "k div 128 = 1" by presburger
  moreover have "take_bit 8 k = k" using r by (simp add: take_bit_int_eq_self)
  ultimately have "sint c = k - 256"
    by (simp add: sint_uint signed_take_bit_eq_take_bit_minus bit_iff_odd flip: k_def)
  then have "auth_request_len c = word_of_int (k - 254)" by (simp only: auth_request_len_def) simp
  then have "uint (auth_request_len c) = (k - 254) mod 2 ^ 32"
    by (simp only: uint_word_of_int) simp
  also have "\<dots> = (k - 254 + 2 ^ 32) mod 2 ^ 32" by (simp only: mod_add_self2)
  also have "\<dots> = k - 254 + 2 ^ 32" using r by (intro mod_pos_pos_trivial) auto
  also have "\<dots> = k + 4294967042" by simp
  finally have "int (unat (auth_request_len c)) = k + 4294967042" by (simp only: uint_nat)
  with k show ?thesis by linarith
qed

text \<open>The arithmetic on lengths stalls the negotiation: an authentication request with 128 to 253
  methods is waited for for ever, because the signed \<open>gchar\<close> becomes a huge \<open>guint\<close>, and a CONNECT
  command is waited for although it is there completely, when the number of buffered bytes modulo 256
  is too small, because it is compared as a \<open>guint8\<close>.\<close>

theorem socks5_length_stalls:
  "(s5_state s = SOCKS5_STATE_INITIATOR_AWAITING_AUTH_REQUEST \<longrightarrow>
     128 \<le> unat c \<longrightarrow> unat c \<le> 253 \<longrightarrow> length methods < 4294967040 \<longrightarrow>
     socks5_handle_received_data ck w (SOCKS5_VERSION # c # methods) s = Some (0, s))
   \<and> (s5_state s = SOCKS5_STATE_INITIATOR_AWAITING_COMMAND \<longrightarrow> length x = 40 \<longrightarrow>
     (47 + length d) mod 256 < 47 \<longrightarrow>
     socks5_handle_received_data ck w (connect_message SOCKS5_CMD_CONNECT x @ d) s = Some (0, s))"
proof (intro conjI impI)
  assume st: "s5_state s = SOCKS5_STATE_INITIATOR_AWAITING_AUTH_REQUEST"
    and c: "128 \<le> unat c" "unat c \<le> 253" and m: "length methods < 4294967040"
  have "unat (auth_request_len c) = unat c + 4294967042"
    by (rule auth_request_len_large [OF c])
  with st m c show "socks5_handle_received_data ck w (SOCKS5_VERSION # c # methods) s = Some (0, s)"
    by (simp add: socks5_handle_received_data_def handle_auth_request_def str_at_def Let_def)
next
  assume st: "s5_state s = SOCKS5_STATE_INITIATOR_AWAITING_COMMAND" and x: "length x = 40"
    and d: "(47 + length d) mod 256 < 47"
  let ?m = "connect_message SOCKS5_CMD_CONNECT x"
  have l: "length ?m = 47" by (rule connect_message_length [OF x])
  have "(?m @ d) ! 4 = 40" "\<not> length (?m @ d) < SOCKS5_MIN_LENGTH"
    using connect_message_header [of SOCKS5_CMD_CONNECT x ?m "[]"] l
    by (simp_all add: nth_append SOCKS5_MIN_LENGTH_def)
  moreover have "unat (of_nat (length (?m @ d)) :: guint8) = (47 + length d) mod 256"
    unfolding unat_of_nat using l by simp
  then have "packet_incomplete (?m @ d) 41"
    using d by (simp only: packet_incomplete_def SOCKS5_MIN_LENGTH_def) simp
  ultimately show "socks5_handle_received_data ck w (?m @ d) s = Some (0, s)"
    using st by (simp add: socks5_handle_received_data_def handle_connect_command_def str_at_header)
qed


theorem socks5_length_stalls_witness:
  "socks5_handle_received_data (\<lambda>_. []) W_all (SOCKS5_VERSION # 200 # replicate 200 0) example_initiator
     = Some (0, example_initiator)
   \<and> socks5_handle_received_data (\<lambda>_. []) W_all
       (connect_message SOCKS5_CMD_CONNECT (replicate 40 97) @ replicate 209 0)
       (initiator_authed example_initiator) = Some (0, initiator_authed example_initiator)"
  using socks5_length_stalls [of example_initiator 200 "replicate 200 0" "\<lambda>_. []" W_all]
    socks5_length_stalls [of "initiator_authed example_initiator" _ _ "\<lambda>_. []" W_all
      "replicate 40 97" "replicate 209 0"]
  by (simp add: example_defs)

end
