(* ===== verification/Bytestream_Substreams.thy ===== *)
theory Bytestream_Substreams
  imports Bytestream_Multiple Bytestream_IBB Socks5_Negotiation
begin

text \<open>
  The bytestreams the factory puts behind a bytestream with fallback: in-band and SOCKS5 bytestreams,
  seen through \<open>GabbleBytestreamIface\<close> (\<open>gabble_bytestream_factory_create_from_method\<close> in
  \<open>src/bytestream-factory.c\<close>). The interpretation \<open>sub\<close> discharges the contract the fallback relies
  on for both of them.
\<close>

datatype sub_stream = Sub_ibb ibb | Sub_socks5 s5

fun sub_state :: "sub_stream \<Rightarrow> GabbleBytestreamState" where
  "sub_state (Sub_ibb s) = ibb_state s"
| "sub_state (Sub_socks5 s) = s5_bytestream_state s"

text \<open>The signals among the events of a bytestream.\<close>

fun ibb_signal :: "ibb_event \<Rightarrow> bytestream_signal list" where
  "ibb_signal (IBB_state_changed st) = [Sig_state_changed st]"
| "ibb_signal (IBB_write_blocked_changed b) = [Sig_write_blocked b]"
| "ibb_signal (IBB_data_received d) = [Sig_data_received d]"
| "ibb_signal _ = []"

fun s5_signal :: "s5_event \<Rightarrow> bytestream_signal list" where
  "s5_signal (S5_state_changed st) = [Sig_state_changed st]"
| "s5_signal (S5_write_blocked b) = [Sig_write_blocked b]"
| "s5_signal (S5_data_received d) = [Sig_data_received d]"
| "s5_signal S5_connection_error = [Sig_connection_error]"
| "s5_signal _ = []"

definition ibb_new_signals :: "ibb \<Rightarrow> ibb \<Rightarrow> bytestream_signal list" where
  "ibb_new_signals s s' = concat (map ibb_signal (drop (length (ibb_trace s)) (ibb_trace s')))"

definition s5_new_signals :: "s5 \<Rightarrow> s5 \<Rightarrow> bytestream_signal list" where
  "s5_new_signals s s' = concat (map s5_signal (drop (length (s5_trace s)) (s5_trace s')))"

definition sub_ibb :: "ibb \<Rightarrow> ibb \<Rightarrow> sub_stream \<times> bytestream_signal list" where
  "sub_ibb s s' = (Sub_ibb s', ibb_new_signals s s')"

definition sub_socks5 :: "s5 \<Rightarrow> s5 \<Rightarrow> sub_stream \<times> bytestream_signal list" where
  "sub_socks5 s s' = (Sub_socks5 s', s5_new_signals s s')"

text \<open>What the surroundings decide: how writes to the socket end, whether stanzas can be sent, the known
  proxies, the addresses of the host and the port the listener gets.\<close>

record sub_env =
  env_enc :: "bytes \<Rightarrow> string"
  env_write :: write_outcome
  env_sent :: bool
  env_proxies :: "GabbleSocks5Proxy list"
  env_ips :: "string list"
  env_port :: "guint16 option"

fun sub_initiate :: "sub_env \<Rightarrow> sub_stream \<Rightarrow> (bool \<times> sub_stream \<times> bytestream_signal list) option" where
  "sub_initiate e (Sub_ibb s) =
     (let (r, s') = gabble_bytestream_ibb_initiate (env_sent e) s in Some (r, sub_ibb s s'))"
| "sub_initiate e (Sub_socks5 s) =
     map_option (\<lambda>(r, s'). (r, sub_socks5 s s'))
       (gabble_bytestream_socks5_initiate (env_proxies e) (env_ips e) (env_port e) s)"

fun sub_send :: "sub_env \<Rightarrow> bytes \<Rightarrow> sub_stream \<Rightarrow> (bool \<times> sub_stream \<times> bytestream_signal list) option"
  where
  "sub_send e d (Sub_ibb s) =
     (let (r, s') = gabble_bytestream_ibb_send (env_enc e) d s in Some (r, sub_ibb s s'))"
| "sub_send e d (Sub_socks5 s) =
     map_option (\<lambda>(r, s'). (r, sub_socks5 s s')) (gabble_bytestream_socks5_send (env_write e) d s)"

fun sub_close :: "cstring \<Rightarrow> sub_stream \<Rightarrow> sub_stream \<times> bytestream_signal list" where
  "sub_close err (Sub_ibb s) = sub_ibb s (gabble_bytestream_ibb_close err s)"
| "sub_close err (Sub_socks5 s) = sub_socks5 s (gabble_bytestream_socks5_close err s)"

fun sub_block_reading :: "bool \<Rightarrow> sub_stream \<Rightarrow> (sub_stream \<times> bytestream_signal list) option" where
  "sub_block_reading b (Sub_ibb s) = Some (sub_ibb s (gabble_bytestream_ibb_block_reading b s))"
| "sub_block_reading b (Sub_socks5 s) =
     map_option (sub_socks5 s) (gabble_bytestream_socks5_block_reading b s)"

fun sub_set_state :: "GabbleBytestreamState \<Rightarrow> sub_stream \<Rightarrow> sub_stream \<times> bytestream_signal list" where
  "sub_set_state st (Sub_ibb s) = sub_ibb s (ibb_set_state st s)"
| "sub_set_state st (Sub_socks5 s) = sub_socks5 s (s5_set_state st s)"

fun sub_protocol :: "sub_stream \<Rightarrow> string" where
  "sub_protocol (Sub_ibb s) = NS_IBB"
| "sub_protocol (Sub_socks5 s) = NS_BYTESTREAMS"

definition sub_ops :: "sub_env \<Rightarrow> sub_stream iface" where
  "sub_ops e =
     \<lparr>bs_initiate = sub_initiate e, bs_send = sub_send e, bs_close = sub_close,
      bs_block_reading = sub_block_reading, bs_set_state = sub_set_state,
      bs_protocol = sub_protocol\<rparr>"

text \<open>The identity of a stream: its identifier, the peer and our own full JID, and whether the peer is
  in a room. In-band bytestreams start with the default block size of 4096 bytes.\<close>

record stream_ids =
  ids_stream_id :: string
  ids_peer_jid :: string
  ids_self_jid :: string
  ids_muc_contact :: bool

definition gabble_bytestream_factory_create_from_method :: "stream_ids \<Rightarrow> sub_stream factory" where
  "gabble_bytestream_factory_create_from_method ids stream_method state =
     (if \<not> tp_strdiff (Some stream_method) (Some NS_IBB)
      then Some (Sub_ibb (gabble_bytestream_ibb_init 4096 state))
      else if \<not> tp_strdiff (Some stream_method) (Some NS_BYTESTREAMS)
      then Some (Sub_socks5 (gabble_bytestream_socks5_init state (ids_stream_id ids)
             (ids_peer_jid ids) (ids_self_jid ids) (ids_muc_contact ids)))
      else None)"

section \<open>The contract\<close>

definition ibb_tells :: "ibb \<Rightarrow> ibb \<Rightarrow> bool" where
  "ibb_tells s s' \<longleftrightarrow>
     (\<exists>evs. ibb_trace s' = ibb_trace s @ evs
        \<and> state_after (concat (map ibb_signal evs)) (ibb_state s) = ibb_state s'
        \<and> Sig_connection_error \<notin> set (concat (map ibb_signal evs)))"

lemma state_after_append: "state_after (xs @ ys) st = state_after ys (state_after xs st)"
  by (induction xs st rule: state_after.induct) simp_all

lemma ibb_tells_refl [intro]: "ibb_tells s s"
  by (simp add: ibb_tells_def)

lemma ibb_tells_trans: "ibb_tells s s' \<Longrightarrow> ibb_tells s' s'' \<Longrightarrow> ibb_tells s s''"
  by (fastforce simp: ibb_tells_def state_after_append)

lemma ibb_tells_same: "ibb_trace s' = ibb_trace s \<Longrightarrow> ibb_state s' = ibb_state s \<Longrightarrow> ibb_tells s s'"
  by (simp add: ibb_tells_def)

lemma ibb_tells_emit:
  "ibb_signal e = [] \<or> (\<exists>b. e = IBB_write_blocked_changed b) \<Longrightarrow> ibb_tells s (ibb_emit e s)"
  by (auto simp: ibb_tells_def ibb_emit_def)

lemma ibb_tells_set_state: "ibb_tells s (ibb_set_state st s)"
  by (auto simp: ibb_tells_def ibb_set_state_def ibb_emit_def)

lemma ibb_tells_write_blocked: "ibb_tells s (ibb_change_write_blocked_state b s)"
  by (auto simp: ibb_tells_def ibb_change_write_blocked_state_def ibb_emit_def)

lemma ibb_tells_send_one: "ibb_tells s (ibb_send_one enc c s)"
  by (auto simp: ibb_tells_def ibb_send_one_def ibb_emit_def)

lemma ibb_tells_fold: "ibb_tells s (fold (ibb_send_one enc) cs s)"
  by (induction cs arbitrary: s) (auto intro: ibb_tells_trans ibb_tells_send_one)

lemma ibb_tells_close_stanza: "ibb_tells s (send_close_stanza s)"
  by (auto simp: ibb_tells_def send_close_stanza_def ibb_emit_def split: option.split)

lemma ibb_tells_silent:
  assumes "ibb_trace s' = ibb_trace s @ evs" "\<forall>e \<in> set evs. ibb_signal e = []"
    and "ibb_state s' = ibb_state s"
  shows "ibb_tells s s'"
proof -
  have "concat (map ibb_signal evs) = []" using assms(2) by simp
  with assms(1,3) show ?thesis unfolding ibb_tells_def by (metis empty_iff list.set(1) state_after.simps(1))
qed

lemma ibb_tells_close: "ibb_tells s (gabble_bytestream_ibb_close e s)"
proof -
  let ?s = "s\<lparr>ibb_trace := ibb_trace s @ map (\<lambda>iq. IBB_iq_error iq IBB_ITEM_NOT_FOUND)
      (rev (ibb_received_stanzas_not_acked s)), ibb_received_stanzas_not_acked := []\<rparr>"
  have s: "ibb_tells s ?s" by (rule ibb_tells_silent) auto
  have "ibb_tells s (ibb_set_state st ?s)" "ibb_tells s (ibb_set_state st (send_close_stanza ?s))"
    "ibb_tells s (ibb_set_state st (ibb_emit (IBB_send_decline x) ?s))" for st x
    by (intro ibb_tells_trans [OF s] ibb_tells_set_state
        ibb_tells_trans [OF ibb_tells_close_stanza ibb_tells_set_state]
        ibb_tells_trans [OF ibb_tells_emit ibb_tells_set_state]; simp)+
  then show ?thesis
    by (auto simp: gabble_bytestream_ibb_close_def gabble_bytestream_ibb_decline_def Let_def)
qed

lemma ibb_tells_send:
  assumes "gabble_bytestream_ibb_send enc d s = (r, s')" shows "ibb_tells s s'"
proof -
  obtain s1 n where e: "send_data enc s d = (s1, n)" by fastforce
  then obtain cs where "s1 = fold (ibb_send_one enc) cs s"
    using send_data_loop_chunks [of enc s d 0 s1 n] by (auto simp: send_data_def)
  then have "ibb_tells s s1" by (simp add: ibb_tells_fold)
  moreover have "ibb_tells s1 (ibb_change_write_blocked_state b (s1\<lparr>ibb_write_buffer := x\<rparr>))" for b x
    by (rule ibb_tells_trans [OF ibb_tells_same ibb_tells_write_blocked]) simp_all
  ultimately have "ibb_tells s (ibb_change_write_blocked_state b (s1\<lparr>ibb_write_buffer := x\<rparr>))"
    "ibb_tells s s1" for b x using ibb_tells_trans by blast+
  with assms e show ?thesis
    by (auto simp: gabble_bytestream_ibb_send_def intro: ibb_tells_same
        split: if_splits option.splits)
qed

lemma ibb_new_signals_tell:
  assumes "ibb_tells s s'"
  shows "state_after (ibb_new_signals s s') (ibb_state s) = ibb_state s'"
    and "Sig_connection_error \<notin> set (ibb_new_signals s s')"
  using assms by (auto simp: ibb_tells_def ibb_new_signals_def)

definition s5_tells :: "s5 \<Rightarrow> s5 \<Rightarrow> bool" where
  "s5_tells s s' \<longleftrightarrow>
     (\<exists>evs. s5_trace s' = s5_trace s @ evs
        \<and> state_after (concat (map s5_signal evs)) (s5_bytestream_state s) = s5_bytestream_state s'
        \<and> Sig_connection_error \<notin> set (concat (map s5_signal evs)))"

lemma s5_tells_same:
  "s5_trace s' = s5_trace s \<Longrightarrow> s5_bytestream_state s' = s5_bytestream_state s \<Longrightarrow> s5_tells s s'"
  by (simp add: s5_tells_def)

lemma s5_tells_trans: "s5_tells s s' \<Longrightarrow> s5_tells s' s'' \<Longrightarrow> s5_tells s s''"
  by (fastforce simp: s5_tells_def state_after_append)

lemma s5_tells_set_state: "s5_tells s (s5_set_state st s)"
  by (auto simp: s5_tells_def s5_set_state_def s5_emit_def)

lemma s5_tells_write_blocked: "s5_tells s (s5_change_write_blocked_state b s)"
  by (auto simp: s5_tells_def s5_change_write_blocked_state_def s5_emit_def)

lemma s5_tells_emit: "s5_signal e = [] \<Longrightarrow> s5_tells s (s5_emit e s)"
  by (auto simp: s5_tells_def s5_emit_def)

lemma s5_tells_closed: "s5_tells s (bytestream_closed s)"
  unfolding bytestream_closed_def
  by (rule s5_tells_trans [OF s5_tells_same s5_tells_set_state])
    (simp_all add: socks5_close_transport_def)

lemma s5_tells_close: "s5_tells s (gabble_bytestream_socks5_close e s)"
proof -
  have "s5_tells s (s5_set_state st (s5_emit (S5_send_decline x) s))" for st x
    by (rule s5_tells_trans [OF s5_tells_emit s5_tells_set_state]) simp
  moreover have "s5_tells s (bytestream_closed (s5_set_state st s))" for st
    by (rule s5_tells_trans [OF s5_tells_set_state s5_tells_closed])
  ultimately show ?thesis
    by (auto simp: gabble_bytestream_socks5_close_def gabble_bytestream_socks5_decline_def Let_def
        intro: s5_tells_same s5_tells_set_state split: option.split)
qed

lemma s5_tells_buffer_empty: "s5_tells s (transport_buffer_empty_cb s)"
  by (auto simp: transport_buffer_empty_cb_def intro: s5_tells_same s5_tells_closed
      s5_tells_write_blocked)

lemma s5_tells_write:
  assumes "write_to_transport w d s = Some (r, s')" "s5_state s = SOCKS5_STATE_CONNECTED"
  shows "s5_tells s s'"
proof -
  have c: "s5_tells s (gabble_bytestream_socks5_close e
      ((stop_timer (stop_timer (s\<lparr>s5_transport := t\<rparr>)))\<lparr>s5_state := st\<rparr>))" for e t st
    by (rule s5_tells_trans [OF s5_tells_same s5_tells_close]) (simp_all add: stop_timer_def)
  have b: "s5_tells s (transport_buffer_empty_cb (s5_emit (S5_write d) s))"
    by (rule s5_tells_trans [OF s5_tells_emit s5_tells_buffer_empty]) simp
  have p: "s5_tells s (s5_emit (S5_write d) (s\<lparr>s5_transport := t\<rparr>))" for t
    by (rule s5_tells_trans [OF s5_tells_same s5_tells_emit]) simp_all
  show ?thesis using assms b c p
    by (auto simp: write_to_transport_def transport_disconnected_cb_def socks5_error_def Let_def
        split: option.splits if_splits)
qed

lemma s5_tells_send:
  assumes "gabble_bytestream_socks5_send w d s = Some (r, s')" "s5_inv s" "\<not> s5_dispose_has_run s"
  shows "s5_tells s s'"
proof (cases "s5_bytestream_state s = GABBLE_BYTESTREAM_STATE_OPEN")
  case True
  then have st: "s5_state s = SOCKS5_STATE_CONNECTED"
    using assms(2,3) by (auto simp: s5_inv_def s5_gone_def s5_negotiation_ok_def)
  show ?thesis using assms(1) True
    by (auto simp: gabble_bytestream_socks5_send_def dest!: s5_tells_write [OF _ st]
        intro: s5_tells_trans [OF _ s5_tells_close] s5_tells_trans [OF _ s5_tells_write_blocked]
        split: bind_splits if_splits option.splits)
qed (use assms in \<open>simp add: gabble_bytestream_socks5_send_def s5_tells_same\<close>)

lemma s5_new_signals_tell:
  assumes "s5_tells s s'"
  shows "state_after (s5_new_signals s s') (s5_bytestream_state s) = s5_bytestream_state s'"
    and "Sig_connection_error \<notin> set (s5_new_signals s s')"
  using assms by (auto simp: s5_tells_def s5_new_signals_def)


fun sub_ok :: "sub_stream \<Rightarrow> bool" where
  "sub_ok (Sub_ibb s) = True"
| "sub_ok (Sub_socks5 s) = (s5_inv s \<and> \<not> s5_dispose_has_run s)"

lemma s5_close_dispose:
  "s5_dispose_has_run (gabble_bytestream_socks5_close e s) = s5_dispose_has_run s"
  by (auto simp: gabble_bytestream_socks5_close_def gabble_bytestream_socks5_decline_def Let_def
      bytestream_closed_def split: option.split)

lemma s5_error_dispose:
  assumes "socks5_error s = Some s'" shows "s5_dispose_has_run s' = s5_dispose_has_run s"
proof -
  have "socks5_connect_first x = Some y \<Longrightarrow> s5_dispose_has_run y = s5_dispose_has_run x" for x y
    by (auto simp: socks5_connect_first_def set_transport_def start_timer_def Let_def
        split: list.splits if_splits bind_splits)
  with assms show ?thesis
    by (fastforce simp: socks5_error_def Let_def s5_close_dispose split: Socks5State.splits if_splits)
qed

lemma s5_send_dispose:
  "gabble_bytestream_socks5_send w d s = Some (r, s') \<Longrightarrow> s5_dispose_has_run s' = s5_dispose_has_run s"
  by (auto simp: gabble_bytestream_socks5_send_def write_to_transport_def s5_close_dispose
      transport_disconnected_cb_def transport_buffer_empty_cb_def bytestream_closed_def
      dest!: s5_error_dispose split: bind_splits if_splits option.splits)

interpretation sub: signalling_bytestream "sub_ops e" sub_state sub_ok
  for e :: sub_env
proof
  fix b d r b' sigs
  assume ok: "sub_ok b"
  show "bs_send (sub_ops e) d b \<noteq> None"
  proof (cases b)
    case (Sub_socks5 s)
    with ok send_safe [of s "env_write e" d] show ?thesis by (auto simp: sub_ops_def)
  qed (simp add: sub_ops_def split: prod.split)
  assume "bs_send (sub_ops e) d b = Some (r, b', sigs)"
  then have s: "sub_send e d b = Some (r, b', sigs)" by (simp add: sub_ops_def)
  show "sub_ok b' \<and> state_after sigs (sub_state b) = sub_state b'"
  proof (cases b)
    case (Sub_ibb x)
    with s show ?thesis
      using ibb_new_signals_tell(1) [OF ibb_tells_send, of "env_enc e" d x]
      by (auto simp: sub_ibb_def split: prod.splits)
  next
    case (Sub_socks5 x)
    then obtain x' where x': "gabble_bytestream_socks5_send (env_write e) d x = Some (r, x')"
      "b' = Sub_socks5 x'" "sigs = s5_new_signals x x'"
      using s by (auto simp: sub_socks5_def)
    with ok Sub_socks5 have "s5_inv x'" "\<not> s5_dispose_has_run x'" "s5_tells x x'"
      using send_safe [of x "env_write e" d] s5_send_dispose [OF x'(1)] s5_tells_send [OF x'(1)] by auto
    with x' Sub_socks5 s5_new_signals_tell(1) [of x x'] show ?thesis by simp
  qed
  assume o: "sub_state b = GABBLE_BYTESTREAM_STATE_OPEN"
  show "Sig_connection_error \<notin> set sigs"
    using s ok
    by (cases b) (auto simp: sub_ibb_def sub_socks5_def dest: s5_new_signals_tell(2) [OF s5_tells_send]
        ibb_new_signals_tell(2) [OF ibb_tells_send] split: prod.splits)
  show "sub_state b' \<in> {GABBLE_BYTESTREAM_STATE_OPEN, GABBLE_BYTESTREAM_STATE_CLOSING,
      GABBLE_BYTESTREAM_STATE_CLOSED}"
    using s o
    by (cases b) (auto simp: sub_ibb_def sub_socks5_def dest: ibb_send_open_state send_open_state
        split: prod.splits)
next
  fix b err b' sigs
  assume ok: "sub_ok b" and "bs_close (sub_ops e) err b = (b', sigs)"
  then have c: "sub_close err b = (b', sigs)" by (simp add: sub_ops_def)
  show "sub_ok b' \<and> state_after sigs (sub_state b) = sub_state b' \<and> Sig_connection_error \<notin> set sigs"
    using c ok ibb_new_signals_tell [OF ibb_tells_close] s5_new_signals_tell [OF s5_tells_close]
    by (cases b) (auto simp: sub_ibb_def sub_socks5_def s5_close_inv s5_close_dispose)
  show "sub_state b' \<in> {GABBLE_BYTESTREAM_STATE_CLOSING, GABBLE_BYTESTREAM_STATE_CLOSED}"
  proof (cases b)
    case (Sub_ibb x)
    have "ibb_state (gabble_bytestream_ibb_close err x)
        \<in> {GABBLE_BYTESTREAM_STATE_CLOSING, GABBLE_BYTESTREAM_STATE_CLOSED}"
      by (rule ibb_stream.close_shuts) (rule refl)
    with c Sub_ibb show ?thesis by (auto simp: sub_ibb_def)
  next
    case (Sub_socks5 x)
    with c close_shuts_state [of err x] show ?thesis by (auto simp: sub_socks5_def)
  qed
qed

interpretation mult_stream: bytestream mu_state
  "\<lambda>d m r m'. mu_synced sub_state sub_ok m
     \<and> gabble_bytestream_multiple_send (sub_ops e) create d m = Some (r, m')"
  "\<lambda>m m'. mu_synced sub_state sub_ok m
     \<and> gabble_bytestream_multiple_close (sub_ops e) create err m = Some m'"
  for e :: sub_env and create :: "sub_stream factory" and err :: cstring
  by (rule sub.multiple_is_bytestream)

section \<open>Properties\<close>


definition example_env :: sub_env where
  "example_env = \<lparr>env_enc = (\<lambda>_. []), env_write = W_all, env_sent = True, env_proxies = [],
     env_ips = [], env_port = None\<rparr>"

definition example_ids :: stream_ids where
  "example_ids = \<lparr>ids_stream_id = ''sid'', ids_peer_jid = ''bob'', ids_self_jid = ''alice'',
     ids_muc_contact = False\<rparr>"

text \<open>A bytestream that offers SOCKS5 and falls back to in-band data.\<close>

definition example_multiple :: "sub_stream mult" where
  "example_multiple =
     (gabble_bytestream_multiple_init GABBLE_BYTESTREAM_STATE_INITIATING)
       \<lparr>mu_fallback_stream_methods := [NS_IBB],
        mu_active_bytestream := gabble_bytestream_factory_create_from_method example_ids NS_BYTESTREAMS
          GABBLE_BYTESTREAM_STATE_INITIATING\<rparr>"

lemma example_multiple_started:
  "started (sub_ops example_env) (gabble_bytestream_factory_create_from_method example_ids) False NS_IBB =
   Some (Sub_ibb (ibb_emit (IBB_send_open 4096)
     (gabble_bytestream_ibb_init 4096 GABBLE_BYTESTREAM_STATE_INITIATING)))"
  by (simp add: started_def gabble_bytestream_factory_create_from_method_def tp_strdiff_def sub_ops_def
      sub_ibb_def gabble_bytestream_ibb_block_reading_def gabble_bytestream_ibb_initiate_def
      gabble_bytestream_ibb_init_def example_env_def ibb_new_signals_def ibb_emit_def)


text \<open>A peer can abort the process before its offer has been accepted: a bytestream with fallback that
  waits for the user, with SOCKS5 in front, gets the streamhost query at once; when the streamhosts
  cannot be reached, or there are none, the SOCKS5 bytestream reports \<open>connection-error\<close>, and the
  handler of the fallback asserts that the stream is being initiated or has been accepted.\<close>

theorem multiple_pending_aborts:
  assumes "mu_state m = GABBLE_BYTESTREAM_STATE_LOCAL_PENDING"
    and "mu_active_bytestream m = Some (Sub_socks5 s)" "s5_state s = SOCKS5_STATE_INVALID"
    and "s5_streamhosts s = []"
  shows "\<exists>s'. gabble_bytestream_socks5_connect_to_streamhost s = Some s'
    \<and> mu_update ops create (sub_socks5 s s') m = None"
proof -
  let ?s = "s\<lparr>s5_msg_for_acknowledge_connection := True, s5_state := SOCKS5_STATE_TARGET_TRYING_CONNECT\<rparr>"
  obtain s' where s': "gabble_bytestream_socks5_connect_to_streamhost s = Some s'"
    "s5_trace s' = s5_trace s @ [S5_connection_error, S5_iq_error]"
    using assms(3,4)
    by (simp add: gabble_bytestream_socks5_connect_to_streamhost_def socks5_connect_def socks5_error_def
        Let_def s5_emit_def socks5_close_transport_def stop_timer_def)
  then have "s5_new_signals s s' = [Sig_connection_error]" by (simp add: s5_new_signals_def)
  then have "mu_update ops create (sub_socks5 s s') m = None"
    using assms(1) by (simp add: mu_update_def sub_socks5_def)
  with s'(1) show ?thesis by blast
qed

theorem multiple_pending_aborts_witness:
  "\<exists>s s'. gabble_bytestream_factory_create_from_method example_ids NS_BYTESTREAMS
       GABBLE_BYTESTREAM_STATE_LOCAL_PENDING = Some (Sub_socks5 s)
     \<and> gabble_bytestream_socks5_connect_to_streamhost s = Some s'
     \<and> mu_update (sub_ops example_env) (gabble_bytestream_factory_create_from_method example_ids)
         (sub_socks5 s s')
         ((gabble_bytestream_multiple_init GABBLE_BYTESTREAM_STATE_LOCAL_PENDING)
            \<lparr>mu_active_bytestream := Some (Sub_socks5 s)\<rparr>) = None"
proof -
  let ?s = "gabble_bytestream_socks5_init GABBLE_BYTESTREAM_STATE_LOCAL_PENDING ''sid'' ''bob'' ''alice'' False"
  have c: "gabble_bytestream_factory_create_from_method example_ids NS_BYTESTREAMS
       GABBLE_BYTESTREAM_STATE_LOCAL_PENDING = Some (Sub_socks5 ?s)"
    by (simp add: gabble_bytestream_factory_create_from_method_def tp_strdiff_def NS_IBB_def
        NS_BYTESTREAMS_def example_ids_def)
  have "s5_state ?s = SOCKS5_STATE_INVALID" "s5_streamhosts ?s = []"
    by (simp_all add: gabble_bytestream_socks5_init_def)
  with multiple_pending_aborts [of "(gabble_bytestream_multiple_init GABBLE_BYTESTREAM_STATE_LOCAL_PENDING)
      \<lparr>mu_active_bytestream := Some (Sub_socks5 ?s)\<rparr>" ?s "sub_ops example_env"
      "gabble_bytestream_factory_create_from_method example_ids"]
  show ?thesis using c by (auto simp: gabble_bytestream_multiple_init_def)
qed

end
