(* ===== verification/Bytestream_Factory.thy ===== *)
theory Bytestream_Factory
  imports Stream_Initiation Jids Bytestream_MUC Bytestream_Substreams Wocky_Errors
begin

text \<open>
  The bytestream factory (\<open>src/bytestream-factory.c\<close>): its tables of bytestreams, the stanzas it routes
  to them, and stream initiation on both sides.

  A bytestream is found by the JID of the peer and the stream identifier. In the table of bytestreams with
  fallback the active bytestream is named by its method: the object itself is the entry with the same
  identifier in the table of that method. The \<open>stream-init-id\<close> of a bytestream, the \<open>id\<close> of the request
  that created it, stands beside it in the table. Entries are replaced when a bytestream with the same
  identifier is created; the destruction of the replaced object is not modelled. Requests are numbered,
  and everything that is sent or handed on is recorded in order, together with what the bytestreams
  record. \<open>None\<close> is a failed assertion.
\<close>

type_synonym bsid = "string \<times> string"

datatype bs_kind = K_ibb | K_socks5 | K_muc | K_multiple

type_synonym fac_error = stanza_error

datatype si_handler = Tube_offer | Tube_stream | Muc_tube_stream | File_transfer

datatype fac_event =
    FAC_iq_error nat fac_error
  | FAC_ibb bsid ibb_event
  | FAC_socks5 bsid s5_event
  | FAC_muc bsid muc_event
  | FAC_multiple bsid mult_event
  | FAC_si_request si_handler bs_kind bsid
  | FAC_negotiated "(bs_kind \<times> bsid) option"

record fac =
  fac_ibb :: "bsid \<rightharpoonup> cstring \<times> ibb"
  fac_socks5 :: "bsid \<rightharpoonup> cstring \<times> s5"
  fac_muc :: "bsid \<rightharpoonup> muc"
  fac_multiple :: "bsid \<rightharpoonup> cstring \<times> string mult"
  fac_dispose_has_run :: bool
  fac_trace :: "fac_event list"

definition gabble_bytestream_factory_init :: fac where
  "gabble_bytestream_factory_init =
     \<lparr>fac_ibb = Map.empty, fac_socks5 = Map.empty, fac_muc = Map.empty, fac_multiple = Map.empty,
      fac_dispose_has_run = False, fac_trace = []\<rparr>"

definition fac_emit :: "fac_event list \<Rightarrow> fac \<Rightarrow> fac" where
  "fac_emit es f = f\<lparr>fac_trace := fac_trace f @ es\<rparr>"

definition fac_iq_error :: "nat \<Rightarrow> fac_error \<Rightarrow> fac \<Rightarrow> bool \<times> fac" where
  "fac_iq_error n e f = (True, fac_emit [FAC_iq_error n e] f)"

section \<open>The tables\<close>

fun remove_bytestream :: "bs_kind \<Rightarrow> bsid \<Rightarrow> fac \<Rightarrow> fac" where
  "remove_bytestream K_ibb bsid f = f\<lparr>fac_ibb := (fac_ibb f)(bsid := None)\<rparr>"
| "remove_bytestream K_socks5 bsid f = f\<lparr>fac_socks5 := (fac_socks5 f)(bsid := None)\<rparr>"
| "remove_bytestream K_muc bsid f = f\<lparr>fac_muc := (fac_muc f)(bsid := None)\<rparr>"
| "remove_bytestream K_multiple bsid f = f\<lparr>fac_multiple := (fac_multiple f)(bsid := None)\<rparr>"

definition factory_state_changed_cb :: "bs_kind \<Rightarrow> bsid \<Rightarrow> GabbleBytestreamState \<Rightarrow> fac \<Rightarrow> fac" where
  "factory_state_changed_cb kind bsid state f =
     (if fac_dispose_has_run f then f
      else if state = GABBLE_BYTESTREAM_STATE_CLOSED then remove_bytestream kind bsid f
      else f)"

text \<open>A bytestream of a table after one of its operations: what it recorded since is added to the record of
  the factory, and the factory is told when the bytestream closed.\<close>

definition update_ibb :: "bsid \<Rightarrow> cstring \<Rightarrow> ibb \<Rightarrow> ibb \<Rightarrow> fac \<Rightarrow> fac" where
  "update_ibb bsid init_id s s' f =
     (let new = drop (length (ibb_trace s)) (ibb_trace s');
          f1 = fac_emit (map (FAC_ibb bsid) new) (f\<lparr>fac_ibb := (fac_ibb f)(bsid \<mapsto> (init_id, s'))\<rparr>)
      in if IBB_state_changed GABBLE_BYTESTREAM_STATE_CLOSED \<in> set new
         then factory_state_changed_cb K_ibb bsid GABBLE_BYTESTREAM_STATE_CLOSED f1 else f1)"

definition update_socks5 :: "bsid \<Rightarrow> cstring \<Rightarrow> s5 \<Rightarrow> s5 \<Rightarrow> fac \<Rightarrow> fac" where
  "update_socks5 bsid init_id s s' f =
     (let new = drop (length (s5_trace s)) (s5_trace s');
          f1 = fac_emit (map (FAC_socks5 bsid) new) (f\<lparr>fac_socks5 := (fac_socks5 f)(bsid \<mapsto> (init_id, s'))\<rparr>)
      in if S5_state_changed GABBLE_BYTESTREAM_STATE_CLOSED \<in> set new
         then factory_state_changed_cb K_socks5 bsid GABBLE_BYTESTREAM_STATE_CLOSED f1 else f1)"

definition update_muc :: "bsid \<Rightarrow> muc \<Rightarrow> muc \<Rightarrow> fac \<Rightarrow> fac" where
  "update_muc bsid s s' f =
     (let new = drop (length (muc_trace s)) (muc_trace s');
          f1 = fac_emit (map (FAC_muc bsid) new) (f\<lparr>fac_muc := (fac_muc f)(bsid \<mapsto> s')\<rparr>)
      in if MUC_state_changed GABBLE_BYTESTREAM_STATE_CLOSED \<in> set new
         then factory_state_changed_cb K_muc bsid GABBLE_BYTESTREAM_STATE_CLOSED f1 else f1)"

section \<open>Routing\<close>

text \<open>\<open>n\<close> is the number of the request in \<open>msg\<close>. The result says whether the stanza was handled.\<close>

definition handle_ibb_open_iq :: "nat \<Rightarrow> WockyNode \<Rightarrow> fac \<Rightarrow> bool \<times> fac" where
  "handle_ibb_open_iq n msg f =
     (if snd (wocky_stanza_get_type_info msg) \<noteq> WOCKY_STANZA_SUB_TYPE_SET then (False, f)
      else case wocky_node_get_child_ns msg (Some ''open'') (Some NS_IBB) of
        None \<Rightarrow> (False, f)
      | Some open_node \<Rightarrow>
          (case wocky_node_get_attribute msg ''from'' of
             None \<Rightarrow> fac_iq_error n (XMPP_ERROR WOCKY_XMPP_ERROR_BAD_REQUEST) f
           | Some jid \<Rightarrow>
               (case wocky_node_get_attribute open_node ''sid'' of
                  None \<Rightarrow> fac_iq_error n (XMPP_ERROR WOCKY_XMPP_ERROR_BAD_REQUEST) f
                | Some stream \<Rightarrow>
                    (case fac_ibb f (jid, stream) of
                       None \<Rightarrow> fac_iq_error n (XMPP_ERROR WOCKY_XMPP_ERROR_BAD_REQUEST) f
                     | Some (init_id, s) \<Rightarrow>
                         let block_size = map_option (\<lambda>tmp. word_of_int (strtoul tmp) :: guint)
                               (wocky_node_get_attribute open_node ''block-size'')
                         in (True, update_ibb (jid, stream) init_id s (ibb_handle_open n block_size s) f)))))"

definition handle_ibb_close_iq :: "nat \<Rightarrow> WockyNode \<Rightarrow> fac \<Rightarrow> bool \<times> fac" where
  "handle_ibb_close_iq n msg f =
     (if snd (wocky_stanza_get_type_info msg) \<noteq> WOCKY_STANZA_SUB_TYPE_SET then (False, f)
      else case wocky_node_get_child_ns msg (Some ''close'') (Some NS_IBB) of
        None \<Rightarrow> (False, f)
      | Some close_node \<Rightarrow>
          (case wocky_node_get_attribute msg ''from'' of
             None \<Rightarrow> fac_iq_error n (XMPP_ERROR WOCKY_XMPP_ERROR_BAD_REQUEST) f
           | Some jid \<Rightarrow>
               (case wocky_node_get_attribute close_node ''sid'' of
                  None \<Rightarrow> fac_iq_error n (XMPP_ERROR WOCKY_XMPP_ERROR_BAD_REQUEST) f
                | Some stream \<Rightarrow>
                    (case fac_ibb f (jid, stream) of
                       None \<Rightarrow> fac_iq_error n (XMPP_ERROR WOCKY_XMPP_ERROR_ITEM_NOT_FOUND) f
                     | Some (init_id, s) \<Rightarrow>
                         (True, update_ibb (jid, stream) init_id s
                            (gabble_bytestream_ibb_close_received n s) f)))))"

text \<open>\<open>is_iq\<close>: data comes in requests, which are answered, or in messages.\<close>

definition handle_ibb_data :: "(string \<Rightarrow> bytes) \<Rightarrow> nat \<Rightarrow> bool \<Rightarrow> WockyNode \<Rightarrow> fac \<Rightarrow> (bool \<times> fac) option"
  where
  "handle_ibb_data dec n is_iq msg f =
     (let reply = (\<lambda>e. if is_iq then fac_iq_error n e f else (True, f))
      in if is_iq \<and> snd (wocky_stanza_get_type_info msg) \<noteq> WOCKY_STANZA_SUB_TYPE_SET then Some (False, f)
         else case wocky_node_get_child_ns msg (Some ''data'') (Some NS_IBB) of
           None \<Rightarrow> Some (False, f)
         | Some data \<Rightarrow>
             (case wocky_node_get_attribute msg ''from'' of
                None \<Rightarrow> Some (reply (XMPP_ERROR WOCKY_XMPP_ERROR_BAD_REQUEST))
              | Some jid \<Rightarrow>
                  (case wocky_node_get_attribute data ''sid'' of
                     None \<Rightarrow> Some (reply (XMPP_ERROR WOCKY_XMPP_ERROR_BAD_REQUEST))
                   | Some stream \<Rightarrow>
                       (case fac_ibb f (jid, stream) of
                          None \<Rightarrow> Some (reply (XMPP_ERROR WOCKY_XMPP_ERROR_BAD_REQUEST))
                        | Some (init_id, s) \<Rightarrow>
                            map_option (\<lambda>s'. (True, update_ibb (jid, stream) init_id s s' f))
                              (gabble_bytestream_ibb_receive dec (node_content data)
                                 (if is_iq then Some n else None) s)))))"

definition handle_muc_data :: "(string \<Rightarrow> bytes) \<Rightarrow> (string \<Rightarrow> nat) \<Rightarrow> WockyNode \<Rightarrow> fac \<Rightarrow> (bool \<times> fac) option"
  where
  "handle_muc_data dec lookup msg f =
     (case wocky_node_get_child_ns msg (Some ''data'') (Some NS_MUC_BYTESTREAM) of
        None \<Rightarrow> Some (False, f)
      | Some data \<Rightarrow>
          (case wocky_node_get_attribute msg ''from'' of
             None \<Rightarrow> Some (True, f)
           | Some from \<Rightarrow>
               (case wocky_node_get_attribute data ''sid'' of
                  None \<Rightarrow> Some (True, f)
                | Some stream \<Rightarrow>
                    let bsid = (gabble_remove_resource from, stream)
                    in (case fac_muc f bsid of
                          None \<Rightarrow> Some (True, f)
                        | Some s \<Rightarrow>
                            map_option (\<lambda>s'. (True, update_muc bsid s s' f))
                              (gabble_bytestream_muc_receive dec lookup msg s)))))"

definition bytestream_factory_iq_ibb_cb ::
    "(string \<Rightarrow> bytes) \<Rightarrow> nat \<Rightarrow> WockyNode \<Rightarrow> fac \<Rightarrow> (bool \<times> fac) option" where
  "bytestream_factory_iq_ibb_cb dec n msg f =
     (let (handled, f1) = handle_ibb_open_iq n msg f
      in if handled then Some (True, f1)
         else let (handled, f1) = handle_ibb_close_iq n msg f
              in if handled then Some (True, f1) else handle_ibb_data dec n True msg f)"

definition bytestream_factory_msg_data_cb ::
    "(string \<Rightarrow> bytes) \<Rightarrow> (string \<Rightarrow> nat) \<Rightarrow> WockyNode \<Rightarrow> fac \<Rightarrow> (bool \<times> fac) option" where
  "bytestream_factory_msg_data_cb dec lookup msg f =
     (case handle_ibb_data dec 0 False msg f of
        None \<Rightarrow> None
      | Some (handled, f1) \<Rightarrow> if handled then Some (True, f1) else handle_muc_data dec lookup msg f)"

definition handle_socks5_query_iq :: "nat \<Rightarrow> WockyNode \<Rightarrow> fac \<Rightarrow> (bool \<times> fac) option" where
  "handle_socks5_query_iq n msg f =
     (case wocky_node_get_child_ns msg (Some ''query'') (Some NS_BYTESTREAMS) of
        None \<Rightarrow> Some (False, f)
      | Some query_node \<Rightarrow>
          (case wocky_node_get_attribute msg ''from'' of
             None \<Rightarrow> Some (fac_iq_error n (XMPP_ERROR WOCKY_XMPP_ERROR_BAD_REQUEST) f)
           | Some jid \<Rightarrow>
               (case wocky_node_get_attribute query_node ''sid'' of
                  None \<Rightarrow> Some (fac_iq_error n (XMPP_ERROR WOCKY_XMPP_ERROR_BAD_REQUEST) f)
                | Some stream \<Rightarrow>
                    (case fac_socks5 f (jid, stream) of
                       None \<Rightarrow> Some (fac_iq_error n (XMPP_ERROR WOCKY_XMPP_ERROR_ITEM_NOT_FOUND) f)
                     | Some (init_id, s) \<Rightarrow>
                         if (case wocky_node_get_attribute query_node ''mode'' of
                               None \<Rightarrow> False | Some tmp \<Rightarrow> tp_strdiff (Some tmp) (Some ''tcp''))
                         then Some (fac_iq_error n (XMPP_ERROR WOCKY_XMPP_ERROR_BAD_REQUEST) f)
                         else
                           let s1 = fold gabble_bytestream_socks5_add_streamhost
                                 (wocky_node_iter query_node (Some ''streamhost'') None) s
                           in map_option (\<lambda>s'. (True, update_socks5 (jid, stream) init_id s s' f))
                                (gabble_bytestream_socks5_connect_to_streamhost s1)))))"

section \<open>Isolation of peers\<close>

text \<open>What a stanza may change: the bytestreams of its sender, and the room bytestreams of its sender's
  room. Everything recorded is an answer to it or comes from one of these.\<close>

definition sender :: "WockyNode \<Rightarrow> bsid \<Rightarrow> bool" where
  "sender msg bsid \<longleftrightarrow> wocky_node_get_attribute msg ''from'' = Some (fst bsid)"

definition sender_room :: "WockyNode \<Rightarrow> bsid \<Rightarrow> bool" where
  "sender_room msg bsid \<longleftrightarrow>
     map_option gabble_remove_resource (wocky_node_get_attribute msg ''from'') = Some (fst bsid)"

fun event_for :: "nat \<Rightarrow> WockyNode \<Rightarrow> fac_event \<Rightarrow> bool" where
  "event_for n msg (FAC_iq_error m e) = (m = n)"
| "event_for n msg (FAC_ibb bsid e) = sender msg bsid"
| "event_for n msg (FAC_socks5 bsid e) = sender msg bsid"
| "event_for n msg (FAC_muc bsid e) = sender_room msg bsid"
| "event_for n msg _ = False"

definition only_sender :: "nat \<Rightarrow> WockyNode \<Rightarrow> fac \<Rightarrow> fac \<Rightarrow> bool" where
  "only_sender n msg f f' \<longleftrightarrow>
     (\<forall>bsid. \<not> sender msg bsid \<longrightarrow> fac_ibb f' bsid = fac_ibb f bsid \<and> fac_socks5 f' bsid = fac_socks5 f bsid)
     \<and> (\<forall>bsid. \<not> sender_room msg bsid \<longrightarrow> fac_muc f' bsid = fac_muc f bsid)
     \<and> fac_multiple f' = fac_multiple f \<and> fac_dispose_has_run f' = fac_dispose_has_run f
     \<and> (\<exists>es. fac_trace f' = fac_trace f @ es \<and> (\<forall>e \<in> set es. event_for n msg e))"

lemma only_sender_refl [simp]: "only_sender n msg f f"
  by (simp add: only_sender_def)

lemma only_sender_error [simp]: "only_sender n msg f (snd (fac_iq_error n e f))"
  by (simp add: only_sender_def fac_iq_error_def fac_emit_def)

lemma only_sender_ibb: "sender msg bsid \<Longrightarrow> only_sender n msg f (update_ibb bsid i s s' f)"
  by (auto simp: only_sender_def update_ibb_def fac_emit_def factory_state_changed_cb_def Let_def)

lemma only_sender_socks5: "sender msg bsid \<Longrightarrow> only_sender n msg f (update_socks5 bsid i s s' f)"
  by (auto simp: only_sender_def update_socks5_def fac_emit_def factory_state_changed_cb_def Let_def)

lemma only_sender_muc: "sender_room msg bsid \<Longrightarrow> only_sender n msg f (update_muc bsid s s' f)"
  by (auto simp: only_sender_def update_muc_def fac_emit_def factory_state_changed_cb_def Let_def)

lemma open_only_sender:
  "only_sender n msg f (snd (handle_ibb_open_iq n msg f))"
  "\<not> fst (handle_ibb_open_iq n msg f) \<Longrightarrow> snd (handle_ibb_open_iq n msg f) = f"
  by (auto simp: handle_ibb_open_iq_def sender_def fac_iq_error_def Let_def
      only_sender_error [unfolded fac_iq_error_def, simplified]
      intro!: only_sender_ibb split: option.splits)

lemma close_only_sender:
  "only_sender n msg f (snd (handle_ibb_close_iq n msg f))"
  "\<not> fst (handle_ibb_close_iq n msg f) \<Longrightarrow> snd (handle_ibb_close_iq n msg f) = f"
  by (auto simp: handle_ibb_close_iq_def sender_def fac_iq_error_def Let_def
      only_sender_error [unfolded fac_iq_error_def, simplified]
      intro!: only_sender_ibb split: option.splits)

lemma data_only_sender:
  assumes "handle_ibb_data dec n is_iq msg f = Some (h, f')"
  shows "only_sender n msg f f' \<and> (\<not> h \<longrightarrow> f' = f)"
  using assms
  by (auto simp: handle_ibb_data_def sender_def fac_iq_error_def Let_def
      only_sender_error [unfolded fac_iq_error_def, simplified]
      intro!: only_sender_ibb split: option.splits if_splits)

lemma muc_only_sender:
  assumes "handle_muc_data dec lookup msg f = Some (h, f')"
  shows "only_sender n msg f f' \<and> (\<not> h \<longrightarrow> f' = f)"
  using assms
  by (auto simp: handle_muc_data_def sender_room_def Let_def
      intro!: only_sender_muc split: option.splits if_splits)

lemma query_only_sender:
  assumes "handle_socks5_query_iq n msg f = Some (h, f')"
  shows "only_sender n msg f f' \<and> (\<not> h \<longrightarrow> f' = f)"
  using assms
  by (auto simp: handle_socks5_query_iq_def sender_def fac_iq_error_def Let_def
      only_sender_error [unfolded fac_iq_error_def, simplified]
      intro!: only_sender_socks5 split: option.splits if_splits)

lemma iq_ibb_only_sender:
  assumes "bytestream_factory_iq_ibb_cb dec n msg f = Some (h, f')"
  shows "only_sender n msg f f' \<and> (\<not> h \<longrightarrow> f' = f)"
  using assms open_only_sender [of n msg f] close_only_sender [of n msg f]
    data_only_sender [of dec n True msg f h f']
  by (auto simp: bytestream_factory_iq_ibb_cb_def split: prod.splits if_splits)

lemma msg_data_only_sender:
  assumes "bytestream_factory_msg_data_cb dec lookup msg f = Some (h, f')"
  shows "only_sender 0 msg f f' \<and> (\<not> h \<longrightarrow> f' = f)"
  using assms data_only_sender [of dec 0 False msg f] muc_only_sender [of dec lookup msg f h f' 0]
  by (auto simp: bytestream_factory_msg_data_cb_def split: option.splits prod.splits if_splits)

lemma iq_ibb_total:
  assumes "\<And>data. wocky_node_get_child_ns msg (Some ''data'') (Some NS_IBB) = Some data \<Longrightarrow> node_content data \<noteq> None"
  shows "bytestream_factory_iq_ibb_cb dec n msg f \<noteq> None"
  using assms
  by (auto simp: bytestream_factory_iq_ibb_cb_def handle_ibb_data_def Let_def
      gabble_bytestream_ibb_receive_def split: option.splits prod.splits if_splits)



text \<open>Two peers with bytestreams of the same identifier, and a \<open>close\<close> request from one of them.\<close>

definition example_factory :: fac where
  "example_factory = gabble_bytestream_factory_init\<lparr>fac_ibb :=
     [(''alice/a'', ''sid'') \<mapsto> (None, gabble_bytestream_ibb_init 4096 GABBLE_BYTESTREAM_STATE_OPEN),
      (''mallory/m'', ''sid'') \<mapsto> (None, gabble_bytestream_ibb_init 4096 GABBLE_BYTESTREAM_STATE_OPEN)]\<rparr>"

definition example_close_iq :: WockyNode where
  "example_close_iq = WockyNode ''iq'' None (Some ''jabber:client'')
     [\<lparr>attr_key = ''from'', attr_value = ''mallory/m'', attr_ns = None\<rparr>,
      \<lparr>attr_key = ''type'', attr_value = ''set'', attr_ns = None\<rparr>]
     [WockyNode ''close'' None (Some NS_IBB)
        [\<lparr>attr_key = ''sid'', attr_value = ''sid'', attr_ns = None\<rparr>] []]"


end
