(* ===== verification/SI_Negotiation.thy ===== *)
theory SI_Negotiation
  imports Bytestream_Factory
begin

text \<open>
  Stream initiation on both sides (\<open>src/bytestream-factory.c\<close>): the creation of bytestreams, what a request
  of a peer leads to (\<open>bytestream_factory_iq_si_cb\<close>), and what the reply to a request of ours leads to
  (\<open>streaminit_reply_cb\<close>).
\<close>

section \<open>Who the peer is\<close>

text \<open>What the surroundings provide: case mapping and normalisation, the rooms that have a handle, the JIDs
  seen as room members, our own JID in the rooms we are in, and whether file transfer is compiled in.\<close>

record si_env =
  se_strdown :: "string \<Rightarrow> string"
  se_nfkc :: "string \<Rightarrow> string"
  se_room_lookup :: "string \<Rightarrow> nat"
  se_seen :: "string \<Rightarrow> bool"
  se_muc_self_jid :: "nat \<Rightarrow> cstring"
  se_file_transfer :: bool

text \<open>A contact handle is the normalised JID it stands for, \<open>None\<close> is the handle 0.\<close>

datatype si_peer =
    Peer_ignored
  | Peer (peer_handle: cstring) (peer_resource: cstring) (peer_self_jid: cstring) (peer_room: nat)

definition si_request_peer :: "si_env \<Rightarrow> WockyNode \<Rightarrow> string \<Rightarrow> si_peer" where
  "si_request_peer env msg from =
     (let room_handle = gabble_get_room_handle_from_jid (se_room_lookup env) from
      in if room_handle = 0
         then (case wocky_decode_jid (se_strdown env) from of
                 None \<Rightarrow> Peer_ignored
               | Some (_, _, None) \<Rightarrow> Peer_ignored
               | Some (_, _, Some resource) \<Rightarrow>
                   Peer (gabble_normalize_contact (se_strdown env) (se_nfkc env) (se_seen env)
                           GABBLE_JID_ANY from)
                     (Some resource) (wocky_node_get_attribute msg ''to'') 0)
         else (case se_muc_self_jid env room_handle of
                 None \<Rightarrow> Peer_ignored
               | Some self_jid \<Rightarrow>
                   Peer (gabble_normalize_contact (se_strdown env) (se_nfkc env) (se_seen env)
                           GABBLE_JID_ROOM_MEMBER from)
                     None (Some self_jid) room_handle))"

text \<open>The property \<open>peer-jid\<close> the constructors of the bytestreams compute.\<close>

definition stream_peer_jid :: "string \<Rightarrow> cstring \<Rightarrow> string" where
  "stream_peer_jid jid resource =
     (case resource of Some r \<Rightarrow> jid @ CHR ''/'' # r | None \<Rightarrow> jid)"

section \<open>Creating bytestreams\<close>

text \<open>The arguments all constructors share. The constructors of SOCKS5 bytestreams and of bytestreams with
  fallback assert that our own JID is known.\<close>

record si_ids =
  id_peer_jid :: string
  id_stream_id :: string
  id_stream_init_id :: cstring
  id_self_jid :: cstring
  id_muc_contact :: bool

abbreviation bsid_of :: "si_ids \<Rightarrow> bsid" where
  "bsid_of ids \<equiv> (id_peer_jid ids, id_stream_id ids)"

definition gabble_bytestream_factory_create_ibb :: "si_ids \<Rightarrow> GabbleBytestreamState \<Rightarrow> fac \<Rightarrow> fac" where
  "gabble_bytestream_factory_create_ibb ids state f =
     f\<lparr>fac_ibb := (fac_ibb f)(bsid_of ids \<mapsto> (id_stream_init_id ids, gabble_bytestream_ibb_init 4096 state))\<rparr>"

definition gabble_bytestream_factory_create_socks5 ::
    "si_ids \<Rightarrow> GabbleBytestreamState \<Rightarrow> fac \<Rightarrow> fac option" where
  "gabble_bytestream_factory_create_socks5 ids state f =
     (case id_self_jid ids of
        None \<Rightarrow> None
      | Some self_jid \<Rightarrow>
          Some (f\<lparr>fac_socks5 := (fac_socks5 f)(bsid_of ids \<mapsto>
             (id_stream_init_id ids, gabble_bytestream_socks5_init state (id_stream_id ids)
                (id_peer_jid ids) self_jid (id_muc_contact ids)))\<rparr>))"

definition gabble_bytestream_factory_create_multiple ::
    "si_ids \<Rightarrow> GabbleBytestreamState \<Rightarrow> fac \<Rightarrow> fac option" where
  "gabble_bytestream_factory_create_multiple ids state f =
     (if id_self_jid ids = None then None
      else Some (f\<lparr>fac_multiple := (fac_multiple f)(bsid_of ids \<mapsto>
        (id_stream_init_id ids, gabble_bytestream_multiple_init state))\<rparr>))"

definition gabble_bytestream_factory_create_muc ::
    "string \<Rightarrow> string \<Rightarrow> GabbleBytestreamState \<Rightarrow> fac \<Rightarrow> fac" where
  "gabble_bytestream_factory_create_muc room_jid stream_id state f =
     f\<lparr>fac_muc := (fac_muc f)((room_jid, stream_id) \<mapsto> gabble_bytestream_muc_init stream_id room_jid state)\<rparr>"

text \<open>\<open>gabble_bytestream_factory_create_from_method\<close> with its effect on the tables: which kind of bytestream
  was created, if any.\<close>

definition create_from_method ::
    "si_ids \<Rightarrow> cstring \<Rightarrow> GabbleBytestreamState \<Rightarrow> fac \<Rightarrow> (bs_kind option \<times> fac) option" where
  "create_from_method ids stream_method state f =
     (if \<not> tp_strdiff stream_method (Some NS_IBB)
      then Some (Some K_ibb, gabble_bytestream_factory_create_ibb ids state f)
      else if \<not> tp_strdiff stream_method (Some NS_BYTESTREAMS)
      then map_option (\<lambda>f'. (Some K_socks5, f')) (gabble_bytestream_factory_create_socks5 ids state f)
      else Some (None, f))"

text \<open>Adding a method to the bytestream with fallback: when it has no active bytestream yet, the bytestream
  of the first method in its list is created in the factory. The new bytestream is not blocked, so
  telling it not to block changes nothing.\<close>

definition method_ops :: "string iface" where
  "method_ops =
     \<lparr>bs_initiate = (\<lambda>m. None), bs_send = (\<lambda>_ m. None), bs_close = (\<lambda>_ m. (m, [])),
      bs_block_reading = (\<lambda>b m. if b then None else Some (m, [])),
      bs_set_state = (\<lambda>_ m. (m, [])), bs_protocol = (\<lambda>m. m)\<rparr>"

definition add_stream_method :: "si_ids \<Rightarrow> string \<Rightarrow> fac \<Rightarrow> fac option" where
  "add_stream_method ids method f =
     (case fac_multiple f (bsid_of ids) of
        None \<Rightarrow> None
      | Some (init_id, m) \<Rightarrow>
          do { m' \<leftarrow> gabble_bytestream_multiple_add_stream_method method_ops (\<lambda>x st. Some x) method m;
               f1 \<leftarrow> (if mu_active_bytestream m = None
                      then map_option snd
                        (create_from_method ids (Some (hd (mu_fallback_stream_methods m @ [method])))
                           (mu_state m) f)
                      else Some f);
               Some (f1\<lparr>fac_multiple := (fac_multiple f1)(bsid_of ids \<mapsto> (init_id, m'))\<rparr>) })"

primrec add_supported_methods :: "si_ids \<Rightarrow> cstring list \<Rightarrow> fac \<Rightarrow> fac option" where
  "add_supported_methods ids [] f = Some f"
| "add_supported_methods ids (m # ms) f =
     (case m of
        Some method \<Rightarrow>
          if stream_method_supported m
          then Option.bind (add_stream_method ids method f) (add_supported_methods ids ms)
          else add_supported_methods ids ms f
      | None \<Rightarrow> add_supported_methods ids ms f)"

primrec create_first_supported ::
    "si_ids \<Rightarrow> cstring list \<Rightarrow> GabbleBytestreamState \<Rightarrow> fac \<Rightarrow> (bs_kind option \<times> fac) option" where
  "create_first_supported ids [] state f = Some (None, f)"
| "create_first_supported ids (m # ms) state f =
     (case create_from_method ids m state f of
        None \<Rightarrow> None
      | Some (Some kind, f1) \<Rightarrow> Some (Some kind, f1)
      | Some (None, f1) \<Rightarrow> create_first_supported ids ms state f1)"

section \<open>Closing a bytestream\<close>

text \<open>\<open>gabble_bytestream_iface_close\<close>. Declining a request builds a stanza with the \<open>id\<close> of the request,
  which must not be \<open>NULL\<close>.\<close>

definition close_ibb :: "bsid \<Rightarrow> string \<Rightarrow> fac \<Rightarrow> fac option" where
  "close_ibb bsid err f =
     (case fac_ibb f bsid of
        None \<Rightarrow> None
      | Some (init_id, s) \<Rightarrow>
          if ibb_state s = GABBLE_BYTESTREAM_STATE_LOCAL_PENDING \<and> init_id = None then None
          else Some (update_ibb bsid init_id s (gabble_bytestream_ibb_close (Some err) s) f))"

definition close_socks5 :: "bsid \<Rightarrow> string \<Rightarrow> fac \<Rightarrow> fac option" where
  "close_socks5 bsid err f =
     (case fac_socks5 f bsid of
        None \<Rightarrow> None
      | Some (init_id, s) \<Rightarrow>
          if s5_bytestream_state s = GABBLE_BYTESTREAM_STATE_LOCAL_PENDING \<and> init_id = None then None
          else Some (update_socks5 bsid init_id s (gabble_bytestream_socks5_close (Some err) s) f))"

text \<open>The state the bytestream with fallback takes over from its active bytestream, and the factory's
  reaction when that is \<open>CLOSED\<close>.\<close>

definition multiple_set_state :: "bsid \<Rightarrow> GabbleBytestreamState \<Rightarrow> fac \<Rightarrow> fac" where
  "multiple_set_state bsid state f =
     (case fac_multiple f bsid of
        None \<Rightarrow> f
      | Some (init_id, m) \<Rightarrow>
          let m' = mu_set_state state m;
              f1 = fac_emit (map (FAC_multiple bsid) (drop (length (mu_trace m)) (mu_trace m')))
                     (f\<lparr>fac_multiple := (fac_multiple f)(bsid \<mapsto> (init_id, m'))\<rparr>)
          in if mu_state m \<noteq> state then factory_state_changed_cb K_multiple bsid state f1 else f1)"

fun signalled_state :: "bytestream_signal \<Rightarrow> GabbleBytestreamState option" where
  "signalled_state (Sig_state_changed st) = Some st"
| "signalled_state _ = None"

text \<open>The states the active bytestream goes through when it is closed.\<close>

definition close_states :: "string \<Rightarrow> bsid \<Rightarrow> string \<Rightarrow> fac \<Rightarrow> GabbleBytestreamState list" where
  "close_states method bsid err f =
     List.map_filter signalled_state
       (if method = NS_IBB
        then (case fac_ibb f bsid of
                Some (_, s) \<Rightarrow> ibb_new_signals s (gabble_bytestream_ibb_close (Some err) s) | None \<Rightarrow> [])
        else (case fac_socks5 f bsid of
                Some (_, s) \<Rightarrow> s5_new_signals s (gabble_bytestream_socks5_close (Some err) s) | None \<Rightarrow> []))"

definition close_multiple :: "bsid \<Rightarrow> string \<Rightarrow> fac \<Rightarrow> fac option" where
  "close_multiple bsid err f =
     (case fac_multiple f bsid of
        None \<Rightarrow> None
      | Some (_, m) \<Rightarrow>
          if mu_state m = GABBLE_BYTESTREAM_STATE_CLOSED then Some f
          else case mu_active_bytestream m of
            Some method \<Rightarrow>
              map_option (fold (multiple_set_state bsid) (close_states method bsid err f))
                (if method = NS_IBB then close_ibb bsid err f else close_socks5 bsid err f)
          | None \<Rightarrow> Some (multiple_set_state bsid GABBLE_BYTESTREAM_STATE_CLOSED f))"

fun close_stream :: "bs_kind \<Rightarrow> bsid \<Rightarrow> string \<Rightarrow> fac \<Rightarrow> fac option" where
  "close_stream K_ibb bsid err f = close_ibb bsid err f"
| "close_stream K_socks5 bsid err f = close_socks5 bsid err f"
| "close_stream K_multiple bsid err f = close_multiple bsid err f"
| "close_stream K_muc bsid err f =
     map_option (\<lambda>s. update_muc bsid s (gabble_bytestream_muc_close s) f) (fac_muc f bsid)"

section \<open>Requests of a peer\<close>

definition si_tube_received ::
    "WockyNode \<Rightarrow> bs_kind \<Rightarrow> bsid \<Rightarrow> nat \<Rightarrow> fac \<Rightarrow> fac option" where
  "si_tube_received si kind bsid room_handle f =
     (if wocky_node_get_child_ns si (Some ''tube'') (Some NS_TUBES) \<noteq> None
      then Some (fac_emit [FAC_si_request Tube_offer kind bsid] f)
      else if wocky_node_get_child_ns si (Some ''stream'') (Some NS_TUBES) \<noteq> None
      then Some (fac_emit [FAC_si_request Tube_stream kind bsid] f)
      else if wocky_node_get_child_ns si (Some ''muc-stream'') (Some NS_TUBES) \<noteq> None
      then (if room_handle = 0 then close_stream kind bsid ''bad-request'' f
            else Some (fac_emit [FAC_si_request Muc_tube_stream kind bsid] f))
      else close_stream kind bsid ''bad-request'' f)"

definition si_dispatch ::
    "si_env \<Rightarrow> WockyNode \<Rightarrow> string \<Rightarrow> bs_kind \<Rightarrow> bsid \<Rightarrow> nat \<Rightarrow> fac \<Rightarrow> fac option" where
  "si_dispatch env si profile kind bsid room_handle f =
     (if \<not> tp_strdiff (Some profile) (Some NS_TUBES) then si_tube_received si kind bsid room_handle f
      else if se_file_transfer env \<and> \<not> tp_strdiff (Some profile) (Some NS_FILE_TRANSFER)
      then Some (fac_emit [FAC_si_request File_transfer kind bsid] f)
      else close_stream kind bsid ''bad-profile'' f)"

definition si_ids_of :: "si_env \<Rightarrow> string \<Rightarrow> cstring \<Rightarrow> cstring \<Rightarrow> string \<Rightarrow> cstring \<Rightarrow> si_ids" where
  "si_ids_of env jid resource self_jid stream_id stream_init_id =
     \<lparr>id_peer_jid = stream_peer_jid jid resource, id_stream_id = stream_id,
      id_stream_init_id = stream_init_id, id_self_jid = self_jid,
      id_muc_contact = gabble_get_room_handle_from_jid (se_room_lookup env)
        (stream_peer_jid jid resource) \<noteq> 0\<rparr>"

definition si_create ::
    "si_ids \<Rightarrow> si_request \<Rightarrow> fac \<Rightarrow> (bs_kind option \<times> fac) option" where
  "si_create ids req f =
     (if si_multiple req
      then do { f1 \<leftarrow> gabble_bytestream_factory_create_multiple ids
                  GABBLE_BYTESTREAM_STATE_LOCAL_PENDING f;
                f2 \<leftarrow> add_supported_methods ids (si_stream_methods req) f1;
                Some (Some K_multiple, f2) }
      else create_first_supported ids (si_stream_methods req) GABBLE_BYTESTREAM_STATE_LOCAL_PENDING f)"

definition bytestream_factory_iq_si_cb :: "si_env \<Rightarrow> nat \<Rightarrow> WockyNode \<Rightarrow> fac \<Rightarrow> (bool \<times> fac) option" where
  "bytestream_factory_iq_si_cb env n msg f =
     (case wocky_node_get_child_ns msg (Some ''si'') (Some NS_SI) of
        None \<Rightarrow> Some (False, f)
      | Some si \<Rightarrow>
          (case streaminit_parse_request msg si of
             None \<Rightarrow> Some (fac_iq_error n (XMPP_ERROR WOCKY_XMPP_ERROR_BAD_REQUEST) f)
           | Some req \<Rightarrow>
               (case si_request_peer env msg (si_from req) of
                  Peer_ignored \<Rightarrow> Some (True, f)
                | Peer None _ _ _ \<Rightarrow> Some (fac_iq_error n (XMPP_ERROR WOCKY_XMPP_ERROR_JID_MALFORMED) f)
                | Peer (Some jid) resource self_jid room_handle \<Rightarrow>
                    let ids = si_ids_of env jid resource self_jid (si_stream_id req)
                                (si_stream_init_id req)
                    in (case si_create ids req f of
                          None \<Rightarrow> None
                        | Some (None, f1) \<Rightarrow> Some (fac_iq_error n (SI_ERROR WOCKY_SI_ERROR_NO_VALID_STREAMS) f1)
                        | Some (Some kind, f1) \<Rightarrow>
                            map_option (\<lambda>f'. (True, f'))
                              (if kind = K_multiple
                                  \<and> (case fac_multiple f1 (bsid_of ids) of
                                       Some (_, m) \<Rightarrow> \<not> gabble_bytestream_multiple_has_stream_method m
                                     | None \<Rightarrow> False)
                               then close_stream kind (bsid_of ids) ''no-valid-streams'' f1
                               else si_dispatch env si (si_profile req) kind (bsid_of ids)
                                      room_handle f1)))))"

section \<open>The reply to a request of ours\<close>

definition streaminit_get_multiple_bytestream ::
    "si_ids \<Rightarrow> WockyNode \<Rightarrow> fac \<Rightarrow> (bs_kind option \<times> fac) option" where
  "streaminit_get_multiple_bytestream ids si f =
     (case multiple_reply_methods si of
        None \<Rightarrow> Some (None, f)
      | Some methods \<Rightarrow>
          do { f1 \<leftarrow> gabble_bytestream_factory_create_multiple ids GABBLE_BYTESTREAM_STATE_INITIATING f;
               f2 \<leftarrow> add_supported_methods ids methods f1;
               Some (Some K_multiple, f2) })"

definition streaminit_get_bytestream ::
    "si_ids \<Rightarrow> WockyNode \<Rightarrow> fac \<Rightarrow> (bs_kind option \<times> fac) option" where
  "streaminit_get_bytestream ids si f =
     (case reply_method si of
        None \<Rightarrow> Some (None, f)
      | Some stream_method \<Rightarrow> create_from_method ids stream_method GABBLE_BYTESTREAM_STATE_INITIATING f)"

text \<open>\<open>gabble_bytestream_iface_initiate\<close> on a bytestream of a table.\<close>

definition initiate_sub :: "sub_env \<Rightarrow> string \<Rightarrow> bsid \<Rightarrow> fac \<Rightarrow> (bool \<times> fac) option" where
  "initiate_sub e method bsid f =
     (if method = NS_IBB
      then (case fac_ibb f bsid of
              None \<Rightarrow> None
            | Some (init_id, s) \<Rightarrow>
                let (r, s') = gabble_bytestream_ibb_initiate (env_sent e) s
                in Some (r, update_ibb bsid init_id s s' f))
      else (case fac_socks5 f bsid of
              None \<Rightarrow> None
            | Some (init_id, s) \<Rightarrow>
                map_option (\<lambda>(r, s'). (r, update_socks5 bsid init_id s s' f))
                  (gabble_bytestream_socks5_initiate (env_proxies e) (env_ips e) (env_port e) s)))"

fun initiate_stream :: "sub_env \<Rightarrow> bs_kind \<Rightarrow> bsid \<Rightarrow> fac \<Rightarrow> (bool \<times> fac) option" where
  "initiate_stream e K_ibb bsid f = initiate_sub e NS_IBB bsid f"
| "initiate_stream e K_socks5 bsid f = initiate_sub e NS_BYTESTREAMS bsid f"
| "initiate_stream e K_multiple bsid f =
     (case fac_multiple f bsid of
        None \<Rightarrow> None
      | Some (_, m) \<Rightarrow>
          if mu_state m \<noteq> GABBLE_BYTESTREAM_STATE_INITIATING then Some (False, f)
          else case mu_active_bytestream m of
            None \<Rightarrow> Some (False, f)
          | Some method \<Rightarrow> initiate_sub e method bsid f)"
| "initiate_stream e K_muc bsid f = None"

text \<open>\<open>alive\<close>: the object that asked for the bytestream still exists. \<open>reply\<close> is \<open>None\<close> when the request was
  declined or could not be sent.\<close>

definition streaminit_finish :: "bool \<Rightarrow> bs_kind option \<Rightarrow> bsid \<Rightarrow> bool \<Rightarrow> fac \<Rightarrow> fac" where
  "streaminit_finish alive kind bsid success f =
     (let f1 = (case kind of Some k \<Rightarrow> if \<not> success then remove_bytestream k bsid f else f | None \<Rightarrow> f)
      in if alive
         then fac_emit [FAC_negotiated (if success then map_option (\<lambda>k. (k, bsid)) kind else None)] f1
         else f1)"

text \<open>The end of \<open>streaminit_reply_cb\<close>: the bytestream is created and its initiation started.\<close>

definition streaminit_start :: "sub_env \<Rightarrow> si_ids \<Rightarrow> WockyNode \<Rightarrow> fac \<Rightarrow> fac option" where
  "streaminit_start e ids si f =
     do { (multi, f1) \<leftarrow> streaminit_get_multiple_bytestream ids si f;
          (kind, f2) \<leftarrow> (if multi = None then streaminit_get_bytestream ids si f1 else Some (multi, f1));
          case kind of
            None \<Rightarrow> Some (streaminit_finish True None (bsid_of ids) False f2)
          | Some k \<Rightarrow>
              do { (success, f3) \<leftarrow> initiate_stream e k (bsid_of ids) f2;
                   Some (streaminit_finish True (Some k) (bsid_of ids) success f3) } }"

text \<open>The resource of the peer and our own JID, \<open>None\<close> when the reply is ignored.\<close>

definition si_reply_peer :: "si_env \<Rightarrow> WockyNode \<Rightarrow> string \<Rightarrow> (cstring \<times> cstring) option" where
  "si_reply_peer env reply_msg from =
     (let room_handle = gabble_get_room_handle_from_jid (se_room_lookup env) from
      in if room_handle = 0
         then (case wocky_decode_jid (se_strdown env) from of
                 Some (_, _, Some resource) \<Rightarrow>
                   Some (Some resource, wocky_node_get_attribute reply_msg ''to'')
               | _ \<Rightarrow> None)
         else map_option (\<lambda>self_jid. (None, Some self_jid)) (se_muc_self_jid env room_handle))"

text \<open>Without a handle for the peer the constructor of whatever bytestream is created fails its
  assertion.\<close>

definition streaminit_reply_cb ::
    "si_env \<Rightarrow> sub_env \<Rightarrow> bool \<Rightarrow> string \<Rightarrow> WockyNode option \<Rightarrow> fac \<Rightarrow> fac option" where
  "streaminit_reply_cb env e alive stream_id reply f =
     (let failed = Some (streaminit_finish alive None ([], []) False f)
      in if \<not> alive then failed
         else case reply of
           None \<Rightarrow> failed
         | Some reply_msg \<Rightarrow>
             (case wocky_node_get_attribute reply_msg ''from'' of
                None \<Rightarrow> failed
              | Some from \<Rightarrow>
                  (case (si_reply_peer env reply_msg from,
                         wocky_node_get_child_ns reply_msg (Some ''si'') (Some NS_SI)) of
                     (Some (resource, self_jid), Some si) \<Rightarrow>
                       (case gabble_normalize_contact (se_strdown env) (se_nfkc env) (se_seen env)
                               GABBLE_JID_ANY from of
                          Some jid \<Rightarrow>
                            streaminit_start e (si_ids_of env jid resource self_jid stream_id None) si f
                        | None \<Rightarrow>
                            if multiple_reply_methods si = None
                               \<and> (case reply_method si of
                                    Some m \<Rightarrow> \<not> stream_method_supported m | None \<Rightarrow> True)
                            then failed else None)
                   | _ \<Rightarrow> failed)))"

section \<open>The bytestreams created\<close>

definition supported_methods :: "cstring list \<Rightarrow> string list" where
  "supported_methods ms = map the (filter stream_method_supported ms)"

lemma supported_simps [simp]:
  "supported_methods [] = []"
  "supported_methods (m # ms) =
     (if stream_method_supported m then the m # supported_methods ms else supported_methods ms)"
  by (simp_all add: supported_methods_def)

lemma supported_cases:
  "stream_method_supported m \<longleftrightarrow> m = Some NS_IBB \<or> m = Some NS_BYTESTREAMS"
  by (auto simp: stream_method_supported_def tp_strdiff_def)

lemma not_supported_None [simp]: "\<not> stream_method_supported None"
  by (simp add: supported_cases)

lemma ns_ibb_bytestreams [simp]: "NS_BYTESTREAMS \<noteq> NS_IBB" "NS_IBB \<noteq> NS_BYTESTREAMS"
  by (simp_all add: NS_IBB_def NS_BYTESTREAMS_def)

definition with_stream :: "si_ids \<Rightarrow> string \<Rightarrow> GabbleBytestreamState \<Rightarrow> fac \<Rightarrow> fac" where
  "with_stream ids method state f =
     (if method = NS_IBB then gabble_bytestream_factory_create_ibb ids state f
      else the (gabble_bytestream_factory_create_socks5 ids state f))"

definition method_kind :: "string \<Rightarrow> bs_kind" where
  "method_kind method = (if method = NS_IBB then K_ibb else K_socks5)"

lemma create_supported:
  assumes "id_self_jid ids = Some self" "stream_method_supported m"
  shows "create_from_method ids m state f = Some (Some (method_kind (the m)), with_stream ids (the m) state f)"
  using assms by (auto simp: supported_cases create_from_method_def tp_strdiff_def with_stream_def
      method_kind_def gabble_bytestream_factory_create_socks5_def)

lemma create_unsupported:
  "\<not> stream_method_supported m \<Longrightarrow> create_from_method ids m state f = Some (None, f)"
  by (simp add: supported_cases create_from_method_def tp_strdiff_def)

lemma with_stream_multiple [simp]:
  "id_self_jid ids = Some self \<Longrightarrow> fac_multiple (with_stream ids method state f) = fac_multiple f"
  "id_self_jid ids = Some self \<Longrightarrow> fac_trace (with_stream ids method state f) = fac_trace f"
  by (simp_all add: with_stream_def gabble_bytestream_factory_create_ibb_def
      gabble_bytestream_factory_create_socks5_def)

lemma create_first:
  assumes "id_self_jid ids = Some self"
  shows "create_first_supported ids ms state f =
    Some (case supported_methods ms of
            [] \<Rightarrow> (None, f)
          | x # _ \<Rightarrow> (Some (method_kind x), with_stream ids x state f))"
  by (induction ms) (auto simp: create_supported [OF assms] create_unsupported)

lemma add_stream_method_more:
  assumes "fac_multiple f (bsid_of ids) = Some (i, m)" "mu_active_bytestream m = Some b"
  shows "add_stream_method ids x f = Some (f\<lparr>fac_multiple := (fac_multiple f)
    (bsid_of ids \<mapsto> (i, m\<lparr>mu_fallback_stream_methods := mu_fallback_stream_methods m @ [x]\<rparr>))\<rparr>)"
  using assms
  by (simp add: add_stream_method_def gabble_bytestream_multiple_add_stream_method_def Let_def)

lemma add_stream_method_first:
  assumes "fac_multiple f (bsid_of ids) = Some (i, m)" "mu_active_bytestream m = None"
    "mu_fallback_stream_methods m = []" "\<not> mu_read_blocked m"
    "id_self_jid ids = Some self" "stream_method_supported (Some x)"
  shows "add_stream_method ids x f = Some ((with_stream ids x (mu_state m) f)
    \<lparr>fac_multiple := (fac_multiple f)(bsid_of ids \<mapsto>
       (i, m\<lparr>mu_fallback_stream_methods := [], mu_active_bytestream := Some x\<rparr>))\<rparr>)"
  using assms create_supported [OF assms(5,6), of "mu_state m" f]
  by (simp add: add_stream_method_def gabble_bytestream_multiple_add_stream_method_def
      bytestream_activate_next_def method_ops_def)

lemma add_methods_more:
  assumes "fac_multiple f (bsid_of ids) = Some (i, m)" "mu_active_bytestream m = Some b"
  shows "add_supported_methods ids ms f = Some (f\<lparr>fac_multiple := (fac_multiple f)
    (bsid_of ids \<mapsto> (i, m\<lparr>mu_fallback_stream_methods := mu_fallback_stream_methods m @ supported_methods ms\<rparr>))\<rparr>)"
  using assms
proof (induction ms arbitrary: f m)
  case Nil
  then have "(fac_multiple f)(bsid_of ids \<mapsto> (i, m)) = fac_multiple f" by (simp add: fun_upd_idem)
  then show ?case by simp
next
  case (Cons x xs)
  show ?case
  proof (cases "stream_method_supported x")
    case True
    then obtain y where y: "x = Some y" by (cases x) auto
    let ?m = "m\<lparr>mu_fallback_stream_methods := mu_fallback_stream_methods m @ [y]\<rparr>"
    let ?f = "f\<lparr>fac_multiple := (fac_multiple f)(bsid_of ids \<mapsto> (i, ?m))\<rparr>"
    have "add_supported_methods ids (x # xs) f = add_supported_methods ids xs ?f"
      using True y add_stream_method_more [OF Cons.prems, of y] by simp
    with Cons.IH [of ?f ?m] Cons.prems True y show ?thesis by (simp cong: if_cong)
  next
    case False
    with Cons show ?thesis by (cases x) simp_all
  qed
qed

lemma add_methods_first:
  assumes "fac_multiple f (bsid_of ids) = Some (i, m)" "mu_active_bytestream m = None"
    "mu_fallback_stream_methods m = []" "\<not> mu_read_blocked m" "id_self_jid ids = Some self"
  shows "add_supported_methods ids ms f = Some (case supported_methods ms of
      [] \<Rightarrow> f
    | x # xs \<Rightarrow> (with_stream ids x (mu_state m) f)\<lparr>fac_multiple := (fac_multiple f)
        (bsid_of ids \<mapsto> (i, m\<lparr>mu_active_bytestream := Some x, mu_fallback_stream_methods := xs\<rparr>))\<rparr>)"
  using assms
proof (induction ms)
  case (Cons y ys)
  show ?case
  proof (cases "stream_method_supported y")
    case True
    then obtain x where y: "y = Some x" by (cases y) auto
    let ?m = "m\<lparr>mu_fallback_stream_methods := [], mu_active_bytestream := Some x\<rparr>"
    let ?f = "(with_stream ids x (mu_state m) f)\<lparr>fac_multiple := (fac_multiple f)(bsid_of ids \<mapsto> (i, ?m))\<rparr>"
    have "add_supported_methods ids (y # ys) f = add_supported_methods ids ys ?f"
      using add_stream_method_first [OF Cons.prems(1-5)] True y by simp
    with True y add_methods_more [of ?f ids i ?m x ys] show ?thesis by simp
  next
    case False
    with Cons show ?thesis by (cases y) simp_all
  qed
qed simp

text \<open>A request from, or a reply of, a contact in no room, whose full JID is in normal form.\<close>

definition plain_peer :: "si_env \<Rightarrow> string \<Rightarrow> bool" where
  "plain_peer env jid \<longleftrightarrow>
     se_room_lookup env (gabble_remove_resource jid) = 0
     \<and> (case wocky_decode_jid (se_strdown env) jid of
          Some (_, _, Some res) \<Rightarrow>
            (case gabble_normalize_contact (se_strdown env) (se_nfkc env) (se_seen env) GABBLE_JID_ANY jid of
               Some bare \<Rightarrow> stream_peer_jid bare (Some res) = jid
             | None \<Rightarrow> False)
        | _ \<Rightarrow> False)"

definition plain_ids :: "string \<Rightarrow> string \<Rightarrow> cstring \<Rightarrow> cstring \<Rightarrow> si_ids" where
  "plain_ids jid sid init_id self =
     \<lparr>id_peer_jid = jid, id_stream_id = sid, id_stream_init_id = init_id, id_self_jid = self,
      id_muc_contact = False\<rparr>"

lemma plain_ids_simps [simp]:
  "id_peer_jid (plain_ids jid sid i self) = jid" "id_stream_id (plain_ids jid sid i self) = sid"
  "id_stream_init_id (plain_ids jid sid i self) = i" "id_self_jid (plain_ids jid sid i self) = self"
  "id_muc_contact (plain_ids jid sid i self) = False"
  by (simp_all add: plain_ids_def)

lemma plain_peer_parts:
  assumes "plain_peer env jid"
  obtains bare res where
    "si_request_peer env msg jid = Peer (Some bare) (Some res) (wocky_node_get_attribute msg ''to'') 0"
    "si_reply_peer env msg jid = Some (Some res, wocky_node_get_attribute msg ''to'')"
    "gabble_normalize_contact (se_strdown env) (se_nfkc env) (se_seen env) GABBLE_JID_ANY jid = Some bare"
    "\<And>self sid init_id. si_ids_of env bare (Some res) self sid init_id = plain_ids jid sid init_id self"
  using assms
  by (auto simp: plain_peer_def si_request_peer_def si_reply_peer_def gabble_get_room_handle_from_jid_def
      si_ids_of_def plain_ids_def Let_def split: option.splits)

section \<open>Outcome of a request\<close>

definition multiple_with :: "si_ids \<Rightarrow> GabbleBytestreamState \<Rightarrow> string list \<Rightarrow> fac \<Rightarrow> fac" where
  "multiple_with ids state methods f =
     (case methods of
        [] \<Rightarrow> f\<lparr>fac_multiple := (fac_multiple f)(bsid_of ids \<mapsto>
          (id_stream_init_id ids, gabble_bytestream_multiple_init state))\<rparr>
      | x # xs \<Rightarrow> (with_stream ids x state f)
          \<lparr>fac_multiple := (fac_multiple f)(bsid_of ids \<mapsto> (id_stream_init_id ids,
             (gabble_bytestream_multiple_init state)
               \<lparr>mu_active_bytestream := Some x, mu_fallback_stream_methods := xs\<rparr>))\<rparr>)"

lemma create_multiple_with:
  assumes "id_self_jid ids = Some self"
  shows "Option.bind (gabble_bytestream_factory_create_multiple ids state f) (add_supported_methods ids ms) =
    Some (multiple_with ids state (supported_methods ms) f)"
proof -
  let ?m = "gabble_bytestream_multiple_init state :: string mult"
  let ?f = "f\<lparr>fac_multiple := (fac_multiple f)(bsid_of ids \<mapsto> (id_stream_init_id ids, ?m))\<rparr>"
  have w: "(with_stream ids x st ?f)\<lparr>fac_multiple := g\<rparr> = (with_stream ids x st f)\<lparr>fac_multiple := g\<rparr>" for x st g
    using assms by (simp add: with_stream_def gabble_bytestream_factory_create_ibb_def
        gabble_bytestream_factory_create_socks5_def)
  have m: "fac_multiple ?f (bsid_of ids) = Some (id_stream_init_id ids, ?m)"
    "mu_active_bytestream ?m = None" "mu_fallback_stream_methods ?m = []" "\<not> mu_read_blocked ?m"
    "mu_state ?m = state"
    by (simp_all add: gabble_bytestream_multiple_init_def)
  have "Option.bind (gabble_bytestream_factory_create_multiple ids state f) (add_supported_methods ids ms) =
      add_supported_methods ids ms ?f"
    using assms by (simp add: gabble_bytestream_factory_create_multiple_def)
  then show ?thesis
    by (simp add: add_methods_first [OF m(1-4) assms] w m(5) multiple_with_def fun_upd_upd del: fun_upd_apply
        split: list.split)
qed

lemma si_create_multiple:
  assumes "id_self_jid ids = Some self" "si_multiple req"
  shows "si_create ids req f = Some (Some K_multiple,
    multiple_with ids GABBLE_BYTESTREAM_STATE_LOCAL_PENDING (supported_methods (si_stream_methods req)) f)"
  using create_multiple_with [OF assms(1), of GABBLE_BYTESTREAM_STATE_LOCAL_PENDING f "si_stream_methods req"]
    assms(2)
  by (auto simp: si_create_def split: bind_splits)

lemma si_create_single:
  assumes "id_self_jid ids = Some self" "\<not> si_multiple req"
  shows "si_create ids req f = Some (case supported_methods (si_stream_methods req) of
      [] \<Rightarrow> (None, f)
    | x # _ \<Rightarrow> (Some (method_kind x), with_stream ids x GABBLE_BYTESTREAM_STATE_LOCAL_PENDING f))"
  using assms by (simp add: si_create_def create_first)

lemma si_cb_plain:
  assumes "wocky_node_get_child_ns msg (Some ''si'') (Some NS_SI) = Some si"
    and "streaminit_parse_request msg si = Some req" and "plain_peer env (si_from req)"
    and "ids = plain_ids (si_from req) (si_stream_id req) (si_stream_init_id req)
      (wocky_node_get_attribute msg ''to'')"
    and "si_create ids req f = Some (k, f1)"
  shows "bytestream_factory_iq_si_cb env n msg f =
    (case k of
       None \<Rightarrow> Some (fac_iq_error n (SI_ERROR WOCKY_SI_ERROR_NO_VALID_STREAMS) f1)
     | Some kind \<Rightarrow> map_option (\<lambda>f'. (True, f'))
         (if kind = K_multiple
             \<and> (case fac_multiple f1 (bsid_of ids) of
                  Some (_, m) \<Rightarrow> \<not> gabble_bytestream_multiple_has_stream_method m | None \<Rightarrow> False)
          then close_stream kind (bsid_of ids) ''no-valid-streams'' f1
          else si_dispatch env si (si_profile req) kind (bsid_of ids) 0 f1))"
proof -
  obtain bare res where p:
    "si_request_peer env msg (si_from req) = Peer (Some bare) (Some res) (wocky_node_get_attribute msg ''to'') 0"
    "\<And>self sid init_id. si_ids_of env bare (Some res) self sid init_id = plain_ids (si_from req) sid init_id self"
    using plain_peer_parts [OF assms(3)] by metis
  show ?thesis using assms(1,2,4,5) by (simp add: bytestream_factory_iq_si_cb_def p Let_def split: option.split)
qed


text \<open>The events that answer the request: an error reply of the factory, or the decline of the bytestream.\<close>

fun si_answer :: "nat \<Rightarrow> fac_event \<Rightarrow> bool" where
  "si_answer n (FAC_iq_error m e) = (m = n)"
| "si_answer n (FAC_ibb _ (IBB_send_decline e)) = True"
| "si_answer n (FAC_socks5 _ (S5_send_decline e)) = True"
| "si_answer n _ = False"

definition registered :: "string \<Rightarrow> si_ids \<Rightarrow> fac \<Rightarrow> bool" where
  "registered method ids f \<longleftrightarrow>
     (if method = NS_IBB
      then fac_ibb f (bsid_of ids) = Some (id_stream_init_id ids,
             gabble_bytestream_ibb_init 4096 GABBLE_BYTESTREAM_STATE_LOCAL_PENDING)
      else fac_socks5 f (bsid_of ids) = Some (id_stream_init_id ids,
             gabble_bytestream_socks5_init GABBLE_BYTESTREAM_STATE_LOCAL_PENDING (id_stream_id ids)
               (id_peer_jid ids) (the (id_self_jid ids)) (id_muc_contact ids)))"

lemma registered_with_stream:
  assumes "id_self_jid ids = Some self"
  shows "registered x ids (with_stream ids x GABBLE_BYTESTREAM_STATE_LOCAL_PENDING f)"
    "registered x ids ((with_stream ids x GABBLE_BYTESTREAM_STATE_LOCAL_PENDING f)\<lparr>fac_multiple := g\<rparr>)"
    "registered x ids (f\<lparr>fac_trace := t\<rparr>) = registered x ids f"
  using assms by (simp_all add: registered_def with_stream_def gabble_bytestream_factory_create_ibb_def
      gabble_bytestream_factory_create_socks5_def fac_emit_def)

text \<open>Declining the bytestream of a request.\<close>

lemma decline_ibb:
  assumes "fac_ibb f bsid = Some (Some i, gabble_bytestream_ibb_init 4096 GABBLE_BYTESTREAM_STATE_LOCAL_PENDING)"
    and "\<not> fac_dispose_has_run f"
  shows "close_ibb bsid err f = Some (f\<lparr>fac_ibb := (fac_ibb f)(bsid := None), fac_trace := fac_trace f
      @ [FAC_ibb bsid (IBB_send_decline (Some err)), FAC_ibb bsid (IBB_state_changed GABBLE_BYTESTREAM_STATE_CLOSED)]\<rparr>)"
    and "close_states NS_IBB bsid err f = [GABBLE_BYTESTREAM_STATE_CLOSED]"
  using assms
  by (simp_all add: close_ibb_def gabble_bytestream_ibb_init_def ibb_op_defs ibb_emit_def update_ibb_def
      fac_emit_def factory_state_changed_cb_def close_states_def ibb_new_signals_def map_filter_simps)

lemma decline_socks5:
  assumes "fac_socks5 f bsid = Some (Some i,
      gabble_bytestream_socks5_init GABBLE_BYTESTREAM_STATE_LOCAL_PENDING sid peer self muc)"
    and "\<not> fac_dispose_has_run f" "method \<noteq> NS_IBB"
  shows "close_socks5 bsid err f = Some (f\<lparr>fac_socks5 := (fac_socks5 f)(bsid := None), fac_trace := fac_trace f
      @ [FAC_socks5 bsid (S5_send_decline (Some err)), FAC_socks5 bsid (S5_state_changed GABBLE_BYTESTREAM_STATE_CLOSED)]\<rparr>)"
    and "close_states method bsid err f = [GABBLE_BYTESTREAM_STATE_CLOSED]"
  using assms
  by (simp_all add: close_socks5_def gabble_bytestream_socks5_init_def gabble_bytestream_socks5_close_def
      gabble_bytestream_socks5_decline_def s5_set_state_def s5_emit_def update_socks5_def
      fac_emit_def factory_state_changed_cb_def close_states_def s5_new_signals_def map_filter_simps)

lemma decline_registered:
  assumes "registered x ids f" "id_stream_init_id ids = Some i" "\<not> fac_dispose_has_run f"
  shows "\<exists>f' es. close_stream (method_kind x) (bsid_of ids) err f = Some f'
    \<and> fac_trace f' = fac_trace f @ es \<and> length (filter (si_answer n) es) = 1
    \<and> \<not> registered x ids f' \<and> fac_multiple f' = fac_multiple f"
proof (cases "x = NS_IBB")
  case True
  with decline_ibb(1) [of f "bsid_of ids" i err] assms show ?thesis
    by (simp add: registered_def method_kind_def)
next
  case False
  with decline_socks5(1) [of f "bsid_of ids" i] assms show ?thesis
    by (simp add: registered_def method_kind_def)
qed


lemma decline_multiple:
  assumes "registered x ids f" "id_stream_init_id ids = Some i" "\<not> fac_dispose_has_run f"
    and "fac_multiple f (bsid_of ids) = Some (j, m)" "mu_active_bytestream m = Some x"
    and "mu_state m = GABBLE_BYTESTREAM_STATE_LOCAL_PENDING"
  shows "\<exists>f' es. close_stream K_multiple (bsid_of ids) err f = Some f'
    \<and> fac_trace f' = fac_trace f @ es \<and> length (filter (si_answer n) es) = 1
    \<and> \<not> registered x ids f' \<and> fac_multiple f' (bsid_of ids) = None"
proof -
  note closed = close_multiple_def multiple_set_state_def factory_state_changed_cb_def fac_emit_def
    mu_set_state_def mu_emit_def registered_def
  show ?thesis
  proof (cases "x = NS_IBB")
    case True
    with decline_ibb [of f "bsid_of ids" i err] assms show ?thesis by (simp add: closed Let_def)
  next
    case False
    with decline_socks5(1) [of f "bsid_of ids" i _ _ _ _ x err]
      decline_socks5(2) [of f "bsid_of ids" i _ _ _ _ x err] assms
    show ?thesis by (simp add: closed Let_def)
  qed
qed

lemma si_cb_supported:
  assumes "wocky_node_get_child_ns msg (Some ''si'') (Some NS_SI) = Some si"
    and "streaminit_parse_request msg si = Some req" and "plain_peer env (si_from req)"
    and "wocky_node_get_attribute msg ''to'' = Some self"
    and "ids = plain_ids (si_from req) (si_stream_id req) (si_stream_init_id req) (Some self)"
    and "bsid = (si_from req, si_stream_id req)"
    and "supported_methods (si_stream_methods req) = x # xs"
    and "k = (if si_multiple req then K_multiple else method_kind x)"
  obtains f1 where "bytestream_factory_iq_si_cb env n msg f =
      map_option (\<lambda>f'. (True, f')) (si_dispatch env si (si_profile req) k bsid 0 f1)"
    "registered x ids f1" "fac_trace f1 = fac_trace f" "fac_dispose_has_run f1 = fac_dispose_has_run f"
    "si_multiple req \<Longrightarrow> fac_multiple f1 bsid = Some (si_stream_init_id req,
       (gabble_bytestream_multiple_init GABBLE_BYTESTREAM_STATE_LOCAL_PENDING)
         \<lparr>mu_active_bytestream := Some x, mu_fallback_stream_methods := xs\<rparr>)"
proof -
  let ?init = "gabble_bytestream_multiple_init GABBLE_BYTESTREAM_STATE_LOCAL_PENDING :: string mult"
  have ids: "id_self_jid ids = Some self" "bsid_of ids = bsid" "id_stream_init_id ids = si_stream_init_id req"
    using assms(5,6) by simp_all
  define f1 where "f1 = (if si_multiple req
    then (with_stream ids x GABBLE_BYTESTREAM_STATE_LOCAL_PENDING f)\<lparr>fac_multiple := (fac_multiple f)
      (bsid \<mapsto> (si_stream_init_id req, ?init\<lparr>mu_active_bytestream := Some x, mu_fallback_stream_methods := xs\<rparr>))\<rparr>
    else with_stream ids x GABBLE_BYTESTREAM_STATE_LOCAL_PENDING f)"
  have cr: "si_create ids req f = Some (Some k, f1)"
    using si_create_multiple [OF ids(1), of req f] si_create_single [OF ids(1), of req f] assms(7,8)
    by (simp add: f1_def ids multiple_with_def)
  have f1: "registered x ids f1" "fac_trace f1 = fac_trace f" "fac_dispose_has_run f1 = fac_dispose_has_run f"
    "si_multiple req \<Longrightarrow> fac_multiple f1 bsid = Some (si_stream_init_id req,
       ?init\<lparr>mu_active_bytestream := Some x, mu_fallback_stream_methods := xs\<rparr>)"
    using registered_with_stream [OF ids(1)] ids(1)
    by (auto simp: f1_def with_stream_def gabble_bytestream_factory_create_ibb_def
        gabble_bytestream_factory_create_socks5_def)
  have "bytestream_factory_iq_si_cb env n msg f =
      map_option (\<lambda>f'. (True, f')) (si_dispatch env si (si_profile req) k bsid 0 f1)"
    using si_cb_plain [OF assms(1-3), of ids, unfolded assms(4), OF assms(5) cr, of n] f1(4) assms(8)
    by (auto simp: ids(2) gabble_bytestream_multiple_init_def gabble_bytestream_multiple_has_stream_method_def
        method_kind_def split: if_splits)
  with f1 that show thesis by blast
qed

lemma decline_created:
  assumes "registered x ids f" "id_stream_init_id ids = Some i" "\<not> fac_dispose_has_run f"
    and "multiple \<Longrightarrow> fac_multiple f (bsid_of ids) = Some (j,
      (gabble_bytestream_multiple_init GABBLE_BYTESTREAM_STATE_LOCAL_PENDING)
        \<lparr>mu_active_bytestream := Some x, mu_fallback_stream_methods := xs\<rparr>)"
  shows "\<exists>f' es. close_stream (if multiple then K_multiple else method_kind x) (bsid_of ids) err f = Some f'
    \<and> fac_trace f' = fac_trace f @ es \<and> length (filter (si_answer n) es) = 1
    \<and> \<not> registered x ids f' \<and> (multiple \<longrightarrow> fac_multiple f' (bsid_of ids) = None)"
proof (cases multiple)
  case True
  with decline_multiple [OF assms(1-3) assms(4), where err = err and n = n] show ?thesis
    by (simp add: gabble_bytestream_multiple_init_def)
next
  case False
  with decline_registered [OF assms(1-3), where err = err and n = n] show ?thesis by auto
qed

lemma undeclinable:
  assumes "registered x ids f" "id_stream_init_id ids = None"
    and "multiple \<Longrightarrow> fac_multiple f (bsid_of ids) = Some (j,
      (gabble_bytestream_multiple_init GABBLE_BYTESTREAM_STATE_LOCAL_PENDING)
        \<lparr>mu_active_bytestream := Some x, mu_fallback_stream_methods := xs\<rparr>)"
  shows "close_stream (if multiple then K_multiple else method_kind x) (bsid_of ids) err f = None"
  using assms by (auto simp: registered_def method_kind_def close_ibb_def close_socks5_def close_multiple_def
      gabble_bytestream_ibb_init_def gabble_bytestream_socks5_init_def gabble_bytestream_multiple_init_def
      split: if_splits)

section \<open>Properties\<close>


text \<open>Alice, whose JID is in normal form, and two requests of hers.\<close>

definition example_si_env :: si_env where
  "example_si_env = \<lparr>se_strdown = ascii_strdown, se_nfkc = (\<lambda>s. s), se_room_lookup = (\<lambda>_. 0),
     se_seen = (\<lambda>_. False), se_muc_self_jid = (\<lambda>_. None), se_file_transfer = True\<rparr>"

lemma example_decode:
  "wocky_decode_jid ascii_strdown ''a@b/c'' = Some (Some ''a'', ''b'', Some ''c'')"
  "wocky_decode_jid ascii_strdown ''d@e/f'' = Some (Some ''d'', ''e'', Some ''f'')"
  by (simp_all add: wocky_decode_jid_def ascii_strdown_def validate_jid_node_def node_excluded_def
      validate_jid_domain_def g_ascii_isalnum_def)

lemma example_plain_peers:
  "plain_peer example_si_env ''a@b/c''" "plain_peer example_si_env ''d@e/f''"
  by (simp_all add: plain_peer_def example_si_env_def example_decode gabble_normalize_contact_def
      gabble_encode_jid_def stream_peer_jid_def)



text \<open>A request without an \<open>id\<close> aborts the process, without the user having a say: \<open>streaminit_parse_request\<close>
  accepts it, and when its profile is not known the bytestream is declined with a stanza whose \<open>id\<close> is
  \<open>NULL\<close>, which \<open>wocky_stanza_build\<close> asserts against; so do both ways of accepting it.\<close>

theorem si_missing_id_aborts:
  assumes "wocky_node_get_child_ns msg (Some ''si'') (Some NS_SI) = Some si"
    and "streaminit_parse_request msg si = Some req" and "plain_peer env (si_from req)"
    and "wocky_node_get_attribute msg ''to'' = Some self" and "wocky_node_get_attribute msg ''id'' = None"
    and "supported_methods (si_stream_methods req) \<noteq> []"
    and "si_profile req \<notin> {NS_TUBES, NS_FILE_TRANSFER}"
  shows "bytestream_factory_iq_si_cb env n msg f = None
    \<and> gabble_bytestream_factory_make_accept_iq (si_from req) (si_stream_init_id req) m = None
    \<and> gabble_bytestream_factory_make_multi_accept_iq (si_from req) (si_stream_init_id req) ms = None"
proof -
  have init: "si_stream_init_id req = None"
    using assms(2,5) by (auto simp: streaminit_parse_request_def split: bind_splits if_splits)
  obtain x xs where ms: "supported_methods (si_stream_methods req) = x # xs"
    using assms(6) by (cases "supported_methods (si_stream_methods req)") auto
  let ?ids = "plain_ids (si_from req) (si_stream_id req) (si_stream_init_id req) (Some self)"
  obtain f1 where "bytestream_factory_iq_si_cb env n msg f = map_option (\<lambda>f'. (True, f'))
      (si_dispatch env si (si_profile req) (if si_multiple req then K_multiple else method_kind x)
         (si_from req, si_stream_id req) 0 f1)"
    "registered x ?ids f1"
    "si_multiple req \<Longrightarrow> fac_multiple f1 (si_from req, si_stream_id req) = Some (si_stream_init_id req,
       (gabble_bytestream_multiple_init GABBLE_BYTESTREAM_STATE_LOCAL_PENDING)
         \<lparr>mu_active_bytestream := Some x, mu_fallback_stream_methods := xs\<rparr>)"
    using si_cb_supported [OF assms(1-4) refl refl ms refl] by metis
  with undeclinable [of x ?ids f1 "si_multiple req" "si_stream_init_id req" xs "''bad-profile''"] init assms(7)
  show ?thesis by (simp add: si_dispatch_def tp_strdiff_def acceptance_built)
qed

definition example_request :: WockyNode where
  "example_request = WockyNode ''iq'' None (Some ''jabber:client'')
     [\<lparr>attr_key = ''from'', attr_value = ''a@b/c'', attr_ns = None\<rparr>,
      \<lparr>attr_key = ''to'', attr_value = ''d@e/f'', attr_ns = None\<rparr>]
     [WockyNode ''si'' None (Some NS_SI)
        [\<lparr>attr_key = ''id'', attr_value = ''sid'', attr_ns = None\<rparr>,
         \<lparr>attr_key = ''profile'', attr_value = ''p'', attr_ns = None\<rparr>]
        [WockyNode ''feature'' None (Some NS_FEATURENEG) []
           [WockyNode ''x'' None (Some NS_X_DATA) []
              [WockyNode ''field'' None (Some NS_X_DATA)
                 [\<lparr>attr_key = ''var'', attr_value = ''stream-method'', attr_ns = None\<rparr>,
                  \<lparr>attr_key = ''type'', attr_value = ''list-single'', attr_ns = None\<rparr>]
                 [WockyNode ''option'' None (Some NS_X_DATA) []
                    [WockyNode ''value'' (Some NS_IBB) (Some NS_X_DATA) [] []]]]]]]"

theorem si_missing_id_aborts_witness:
  "bytestream_factory_iq_si_cb example_si_env 1 example_request gabble_bytestream_factory_init = None"
proof -
  let ?req = "\<lparr>si_profile = ''p'', si_from = ''a@b/c'', si_stream_id = ''sid'', si_stream_init_id = None,
    si_mime_type = None, si_stream_methods = [Some NS_IBB], si_multiple = False\<rparr>"
  obtain si where si: "wocky_node_get_child_ns example_request (Some ''si'') (Some NS_SI) = Some si"
    "streaminit_parse_request example_request si = Some ?req"
    by (simp add: example_request_def parse_eval NS_IBB_def)
  have a: "wocky_node_get_attribute example_request ''to'' = Some ''d@e/f''"
    "wocky_node_get_attribute example_request ''id'' = None"
    by (simp_all add: example_request_def wocky_node_defs)
  have p: "si_profile ?req \<notin> {NS_TUBES, NS_FILE_TRANSFER}" "plain_peer example_si_env (si_from ?req)"
    "supported_methods (si_stream_methods ?req) \<noteq> []"
    using example_plain_peers by (simp_all add: NS_TUBES_def NS_FILE_TRANSFER_def supported_cases)
  from si_missing_id_aborts [OF si p(2) a p(3,1)] show ?thesis by blast
qed


lemma reply_cb_plain:
  assumes "plain_peer env jid" "wocky_node_get_attribute reply ''from'' = Some jid"
    and "wocky_node_get_child_ns reply (Some ''si'') (Some NS_SI) = Some si"
  shows "streaminit_reply_cb env e True sid (Some reply) g =
    streaminit_start e (plain_ids jid sid None (wocky_node_get_attribute reply ''to'')) si g"
proof -
  obtain bare res where
    "si_reply_peer env reply jid = Some (Some res, wocky_node_get_attribute reply ''to'')"
    "gabble_normalize_contact (se_strdown env) (se_nfkc env) (se_seen env) GABBLE_JID_ANY jid = Some bare"
    "\<And>self sid init_id. si_ids_of env bare (Some res) self sid init_id = plain_ids jid sid init_id self"
    using plain_peer_parts [OF assms(1)] by metis
  with assms(2,3) show ?thesis by (simp add: streaminit_reply_cb_def)
qed

text \<open>The initiation of a SOCKS5 bytestream succeeds and only sends its streamhosts.\<close>

lemma socks5_initiate_new:
  assumes "s = gabble_bytestream_socks5_init GABBLE_BYTESTREAM_STATE_INITIATING sid peer self muc"
  obtains s' q where "gabble_bytestream_socks5_initiate proxies ips port s = Some (True, s')"
    "s5_trace s' = s5_trace s @ [S5_send_offer q]"
proof (cases "ips = []")
  case True
  with that assms show thesis
    by (simp add: gabble_bytestream_socks5_initiate_def gabble_bytestream_socks5_init_def send_streamhosts_def
        s5_emit_def)
next
  case False
  with that assms show thesis
    by (cases port) (simp_all add: gabble_bytestream_socks5_initiate_def gabble_bytestream_socks5_init_def
        send_streamhosts_def s5_emit_def)
qed

lemma start_multiple_socks5:
  assumes "multiple_reply_methods si = Some [Some NS_BYTESTREAMS, Some NS_IBB]"
    and "ids = plain_ids jid sid None (Some self)"
  obtains g1 s' es where "streaminit_start e ids si g = Some g1"
    "gabble_bytestream_socks5_initiate (env_proxies e) (env_ips e) (env_port e)
       (gabble_bytestream_socks5_init GABBLE_BYTESTREAM_STATE_INITIATING sid jid self False) = Some (True, s')"
    "fac_socks5 g1 (jid, sid) = Some (None, s')"
    "fac_multiple g1 (jid, sid) = Some (None, (gabble_bytestream_multiple_init GABBLE_BYTESTREAM_STATE_INITIATING)
       \<lparr>mu_active_bytestream := Some NS_BYTESTREAMS, mu_fallback_stream_methods := [NS_IBB]\<rparr>)"
    "fac_trace g1 = fac_trace g @ es @ [FAC_negotiated (Some (K_multiple, jid, sid))]"
proof -
  let ?s = "gabble_bytestream_socks5_init GABBLE_BYTESTREAM_STATE_INITIATING sid jid self False"
  obtain s' q where s': "gabble_bytestream_socks5_initiate (env_proxies e) (env_ips e) (env_port e) ?s = Some (True, s')"
    "s5_trace s' = s5_trace ?s @ [S5_send_offer q]"
    using socks5_initiate_new [OF refl] by metis
  let ?g = "multiple_with ids GABBLE_BYTESTREAM_STATE_INITIATING [NS_BYTESTREAMS, NS_IBB] g"
  have g: "streaminit_get_multiple_bytestream ids si g = Some (Some K_multiple, ?g)"
    using create_multiple_with [of ids self GABBLE_BYTESTREAM_STATE_INITIATING g "[Some NS_BYTESTREAMS, Some NS_IBB]"]
      assms
    by (auto simp: streaminit_get_multiple_bytestream_def supported_cases split: bind_splits)
  show thesis
    using that s' g assms(2)
    by (simp add: streaminit_start_def multiple_with_def with_stream_def
        gabble_bytestream_factory_create_socks5_def gabble_bytestream_multiple_init_def initiate_sub_def
        update_socks5_def streaminit_finish_def fac_emit_def Let_def)
qed




end
