(* ===== verification/Private_Tubes.thy ===== *)
theory Private_Tubes
  imports Tube_DBus Bytestream_MUC SI_Negotiation
begin

text \<open>
  Tubes to single contacts (\<open>src/private-tubes-factory.c\<close>): the table of tubes by identifier, offers that
  arrive as stream initiation requests (D-Bus tubes) or as messages (stream tubes), further bytestreams for a
  stream tube, close messages, and the requests of clients. The tubes themselves are entries with what the
  factory reads of them.

  A contact handle is the normalised JID it stands for. Normalisation (\<open>tp_handle_ensure\<close>), the handles
  that exist (\<open>tp_handle_lookup\<close>) and the random numbers are arguments.
\<close>

section \<open>State\<close>

datatype TpTubeType = TP_TUBE_TYPE_DBUS | TP_TUBE_TYPE_STREAM

record tube_entry =
  ent_type :: TpTubeType
  ent_handle :: string
  ent_service :: cstring
  ent_stream_id :: cstring
  ent_parameters :: "string \<rightharpoonup> GValue"
  ent_requested :: bool

datatype pt_event =
    PT_new_channel nat
  | PT_close_tube nat bool
  | PT_channel_closed nat
  | PT_close_bytestream
  | PT_add_bytestream nat
  | PT_send WockyNode
  | PT_already_satisfied nat
  | PT_request_failed

text \<open>The table in the order an iteration visits it.\<close>

record pt =
  pt_tubes :: "(nat \<times> tube_entry) list"
  pt_trace :: "pt_event list"

definition pt_emit :: "pt_event \<Rightarrow> pt \<Rightarrow> pt" where
  "pt_emit e p = p\<lparr>pt_trace := pt_trace p @ [e]\<rparr>"

definition gabble_private_tubes_factory_init :: pt where
  "gabble_private_tubes_factory_init = \<lparr>pt_tubes = [], pt_trace = []\<rparr>"

section \<open>What an offer says\<close>

definition extract_tube_type :: "WockyNode \<Rightarrow> TpTubeType option" where
  "extract_tube_type tube_node =
     (let type = wocky_node_get_attribute tube_node ''type''
      in if \<not> tp_strdiff type (Some ''stream'') then Some TP_TUBE_TYPE_STREAM
         else if \<not> tp_strdiff type (Some ''dbus'') then Some TP_TUBE_TYPE_DBUS
         else None)"

text \<open>A number in an attribute: \<open>None\<close> when it is missing, not a number, 0 or beyond 32 bits.\<close>

definition tube_id_attribute :: "WockyNode \<Rightarrow> string \<Rightarrow> nat option" where
  "tube_id_attribute node key =
     (case wocky_node_get_attribute node key of
        None \<Rightarrow> None
      | Some str \<Rightarrow> let tmp = strtoul str in if tmp = 0 \<or> tmp > 4294967295 then None else Some (nat tmp))"

definition extract_tube_parameters :: "(string \<Rightarrow> bytes option) \<Rightarrow> WockyNode \<Rightarrow> (string \<rightharpoonup> GValue)" where
  "extract_tube_parameters unb64 tube_node =
     lm_message_node_extract_properties unb64 (wocky_node_get_child tube_node ''parameters'') ''parameter''"

section \<open>Closing\<close>

definition channel_closed_cb :: "nat \<Rightarrow> pt \<Rightarrow> pt" where
  "channel_closed_cb tube_id p =
     (pt_emit (PT_channel_closed tube_id) p)\<lparr>pt_tubes := AList.delete tube_id (pt_tubes p)\<rparr>"

text \<open>The stanza both \<open>send_tube_close_msg\<close> and \<open>gabble_tube_iface_stream_close\<close> (\<open>src/tube-stream.c\<close>) send.\<close>

definition tube_close_msg :: "string \<Rightarrow> nat \<Rightarrow> WockyNode" where
  "tube_close_msg jid tube_id =
     wocky_node_set_attribute
       (WockyNode ''message'' None (Some WOCKY_XMPP_NS_JABBER_CLIENT) []
          [wocky_node_set_attribute (WockyNode ''close'' None (Some NS_TUBES) [] []) ''tube'' (show_nat tube_id),
           GABBLE_AMP_DO_NOT_STORE_SPEC])
       ''to'' jid"

definition send_tube_close_msg :: "string \<Rightarrow> nat \<Rightarrow> pt \<Rightarrow> pt" where
  "send_tube_close_msg jid tube_id p = pt_emit (PT_send (tube_close_msg jid tube_id)) p"

text \<open>\<open>gabble_tube_iface_close\<close>. A stream tube tells the contact, unless it was the contact who closed, and
  is closed at once; a D-Bus tube when its bytestream is, which is the argument.\<close>

definition close_tube :: "bool \<Rightarrow> nat \<Rightarrow> bool \<Rightarrow> pt \<Rightarrow> pt" where
  "close_tube at_once tube_id closed_remotely p =
     (case map_of (pt_tubes p) tube_id of
        None \<Rightarrow> p
      | Some e \<Rightarrow>
          let p1 = pt_emit (PT_close_tube tube_id closed_remotely) p
          in if ent_type e = TP_TUBE_TYPE_STREAM
             then channel_closed_cb tube_id
                    (if closed_remotely then p1
                     else pt_emit (PT_send (tube_close_msg (ent_handle e) tube_id)) p1)
             else if at_once then channel_closed_cb tube_id p1 else p1)"

section \<open>Offers of a contact\<close>

record pt_env =
  pe_ensure :: "string \<Rightarrow> cstring"
  pe_lookup :: "string \<Rightarrow> cstring"
  pe_unb64 :: "string \<Rightarrow> bytes option"
  pe_at_once :: bool

text \<open>\<open>with_bytestream\<close>: the offer came with a bytestream. The failed \<open>g_return_val_if_fail\<close> leave everything as it
  is. A tube of the same identifier is replaced.\<close>

definition new_channel_from_stanza :: "pt_env \<Rightarrow> WockyNode \<Rightarrow> WockyNode \<Rightarrow> nat \<Rightarrow> bool \<Rightarrow> pt \<Rightarrow> pt" where
  "new_channel_from_stanza env stanza tube_node tube_id with_bytestream p =
     (case Option.bind (wocky_node_get_attribute stanza ''from'') (\<lambda>from. map_option (Pair from) (pe_ensure env from)) of
        None \<Rightarrow> p
      | Some (from, handle) \<Rightarrow>
          (case extract_tube_type tube_node of
             None \<Rightarrow> send_tube_close_msg from tube_id p
           | Some type \<Rightarrow>
               if \<not> with_bytestream \<and> type \<noteq> TP_TUBE_TYPE_STREAM then send_tube_close_msg from tube_id p
               else if with_bytestream \<and> type \<noteq> TP_TUBE_TYPE_DBUS then pt_emit PT_close_bytestream p
               else
                 let entry = (\<lambda>stream_id. \<lparr>ent_type = type, ent_handle = handle,
                       ent_service = wocky_node_get_attribute tube_node ''service'',
                       ent_stream_id = stream_id,
                       ent_parameters = extract_tube_parameters (pe_unb64 env) tube_node,
                       ent_requested = False\<rparr>);
                     add = (\<lambda>e. pt_emit (PT_new_channel tube_id)
                              (p\<lparr>pt_tubes := AList.update tube_id e (pt_tubes p)\<rparr>))
                 in if type = TP_TUBE_TYPE_STREAM then add (entry None)
                    else (case Option.bind (wocky_node_get_child_ns stanza (Some ''si'') (Some NS_SI))
                                 (\<lambda>si. wocky_node_get_attribute si ''id'') of
                            None \<Rightarrow> p
                          | Some stream_id \<Rightarrow> add (entry (Some stream_id)))))"

definition gabble_private_tubes_factory_handle_si_tube_request :: "pt_env \<Rightarrow> WockyNode \<Rightarrow> pt \<Rightarrow> pt" where
  "gabble_private_tubes_factory_handle_si_tube_request env msg p =
     (if wocky_stanza_get_type_info msg \<noteq> (WOCKY_STANZA_TYPE_IQ, WOCKY_STANZA_SUB_TYPE_SET) then p
      else case Option.bind (wocky_node_get_child_ns msg (Some ''si'') (Some NS_SI))
                  (\<lambda>si. wocky_node_get_child_ns si (Some ''tube'') (Some NS_TUBES)) of
        None \<Rightarrow> p
      | Some tube_node \<Rightarrow>
          (case tube_id_attribute tube_node ''id'' of
             None \<Rightarrow> pt_emit PT_close_bytestream p
           | Some tube_id \<Rightarrow>
               if map_of (pt_tubes p) tube_id \<noteq> None then pt_emit PT_close_bytestream p
               else new_channel_from_stanza env msg tube_node tube_id True p))"

definition gabble_private_tubes_factory_handle_si_stream_request :: "WockyNode \<Rightarrow> pt \<Rightarrow> pt" where
  "gabble_private_tubes_factory_handle_si_stream_request msg p =
     (if wocky_stanza_get_type_info msg \<noteq> (WOCKY_STANZA_TYPE_IQ, WOCKY_STANZA_SUB_TYPE_SET) then p
      else case Option.bind (wocky_node_get_child_ns msg (Some ''si'') (Some NS_SI))
                  (\<lambda>si. wocky_node_get_child_ns si (Some ''stream'') (Some NS_TUBES)) of
        None \<Rightarrow> p
      | Some stream_node \<Rightarrow>
          (case tube_id_attribute stream_node ''tube'' of
             None \<Rightarrow> pt_emit PT_close_bytestream p
           | Some tube_id \<Rightarrow>
               if map_of (pt_tubes p) tube_id = None then pt_emit PT_close_bytestream p
               else pt_emit (PT_add_bytestream tube_id) p))"

definition tube_msg_checks :: "pt_env \<Rightarrow> WockyNode \<Rightarrow> WockyNode \<Rightarrow> (string \<times> nat) option" where
  "tube_msg_checks env msg node =
     do { from \<leftarrow> wocky_node_get_attribute msg ''from'';
          handle \<leftarrow> pe_lookup env from;
          tube_id \<leftarrow> tube_id_attribute node ''id'';
          Some (handle, tube_id) }"

definition private_tubes_factory_msg_tube_cb :: "pt_env \<Rightarrow> WockyNode \<Rightarrow> pt \<Rightarrow> bool \<times> pt" where
  "private_tubes_factory_msg_tube_cb env msg p =
     (case wocky_node_get_child_ns msg (Some ''tube'') (Some NS_TUBES) of
        None \<Rightarrow> (False, p)
      | Some node \<Rightarrow>
          (case tube_msg_checks env msg node of
             None \<Rightarrow> (False, p)
           | Some (handle, tube_id) \<Rightarrow>
               (case map_of (pt_tubes p) tube_id of
                  Some channel \<Rightarrow>
                    (True, if handle = ent_handle channel then close_tube (pe_at_once env) tube_id False p else p)
                | None \<Rightarrow> (True, new_channel_from_stanza env msg node tube_id False p))))"

definition private_tubes_factory_tube_close_cb :: "pt_env \<Rightarrow> WockyNode \<Rightarrow> pt \<Rightarrow> bool \<times> pt" where
  "private_tubes_factory_tube_close_cb env msg p =
     (case wocky_node_get_child_ns msg (Some ''close'') (Some NS_TUBES) of
        None \<Rightarrow> (False, p)
      | Some node \<Rightarrow>
          (case tube_msg_checks env msg node of
             None \<Rightarrow> (False, p)
           | Some (_, tube_id) \<Rightarrow>
               (case map_of (pt_tubes p) tube_id of
                  None \<Rightarrow> (True, p)
                | Some channel \<Rightarrow>
                    if ent_type channel \<noteq> TP_TUBE_TYPE_STREAM then (True, p)
                    else (True, close_tube (pe_at_once env) tube_id True p))))"

section \<open>Requests of clients\<close>

definition gabble_private_tubes_factory_lookup :: "TpTubeType \<Rightarrow> string \<Rightarrow> string \<Rightarrow> pt \<Rightarrow> nat option" where
  "gabble_private_tubes_factory_lookup type handle service p =
     map_option fst (find (\<lambda>(_, e). ent_type e = type \<and> ent_handle e = handle
       \<and> \<not> tp_strdiff (Some service) (ent_service e)) (pt_tubes p))"

text \<open>\<open>ids\<close> are the numbers \<open>g_random_int_range (1, G_MAXINT32)\<close> gives, one after the other; \<open>None\<close> stands for
  numbers that are all in use.\<close>

primrec generate_tube_id :: "nat list \<Rightarrow> pt \<Rightarrow> nat option" where
  "generate_tube_id [] p = None"
| "generate_tube_id (i # ids) p = (if map_of (pt_tubes p) i \<noteq> None then generate_tube_id ids p else Some i)"

definition new_channel_from_request ::
    "nat list \<Rightarrow> string \<Rightarrow> TpTubeType \<Rightarrow> string \<Rightarrow> string \<Rightarrow> pt \<Rightarrow> (nat \<times> pt) option" where
  "new_channel_from_request ids new_stream_id type handle service p =
     map_option (\<lambda>tube_id. (tube_id, p\<lparr>pt_tubes := AList.update tube_id
         \<lparr>ent_type = type, ent_handle = handle, ent_service = Some service,
          ent_stream_id = (case type of TP_TUBE_TYPE_DBUS \<Rightarrow> Some new_stream_id | TP_TUBE_TYPE_STREAM \<Rightarrow> None),
          ent_parameters = Map.empty, ent_requested = True\<rparr> (pt_tubes p)\<rparr>))
       (generate_tube_id ids p)"

text \<open>A request for a contact, as far as it passed the checks of telepathy-glib: the channel type \<open>None\<close> is
  neither of the two tube types, the service \<open>None\<close> is missing. \<open>valid_name\<close> is
  \<open>tp_dbus_check_valid_bus_name\<close>. The result \<open>False\<close> leaves the request to other managers.\<close>

record tube_request =
  req_type :: "TpTubeType option"
  req_handle :: string
  req_service :: cstring
  req_unknown_properties :: bool

definition gabble_private_tubes_factory_requestotron ::
    "(string \<Rightarrow> bool) \<Rightarrow> nat list \<Rightarrow> string \<Rightarrow> string \<Rightarrow> tube_request \<Rightarrow> bool \<Rightarrow> pt \<Rightarrow> (bool \<times> pt) option" where
  "gabble_private_tubes_factory_requestotron valid_name ids new_stream_id self_handle req require_new p =
     (case req_type req of
        None \<Rightarrow> Some (False, p)
      | Some type \<Rightarrow>
          if req_unknown_properties req then Some (True, pt_emit PT_request_failed p)
          else case req_service req of
            None \<Rightarrow> Some (True, pt_emit PT_request_failed p)
          | Some service \<Rightarrow>
              if type = TP_TUBE_TYPE_DBUS \<and> \<not> valid_name service then Some (True, pt_emit PT_request_failed p)
              else if req_handle req = self_handle then Some (True, pt_emit PT_request_failed p)
              else (case gabble_private_tubes_factory_lookup type (req_handle req) service p of
                      None \<Rightarrow>
                        map_option (\<lambda>(tube_id, p1). (True, pt_emit (PT_new_channel tube_id) p1))
                          (new_channel_from_request ids new_stream_id type (req_handle req) service p)
                    | Some tube_id \<Rightarrow>
                        Some (True, pt_emit (if require_new then PT_request_failed else PT_already_satisfied tube_id) p)))"

section \<open>Offers that are understood\<close>

lemma publish_eval:
  "gabble_tube_iface_publish_in_node b64 off None (WockyNode ''tube'' None (Some NS_TUBES) [] []) =
   WockyNode ''tube'' None (Some NS_TUBES)
     [\<lparr>attr_key = ''service'', attr_value = to_service off, attr_ns = None\<rparr>,
      \<lparr>attr_key = ''id'', attr_value = show_nat (to_id off), attr_ns = None\<rparr>,
      \<lparr>attr_key = ''type'', attr_value = ''dbus'', attr_ns = None\<rparr>,
      \<lparr>attr_key = ''stream-id'', attr_value = to_stream_id off, attr_ns = None\<rparr>,
      \<lparr>attr_key = ''initiator'', attr_value = to_initiator off, attr_ns = None\<rparr>]
     [lm_message_node_add_children_from_properties b64 ''parameter'' (to_parameters off)
        (WockyNode ''parameters'' None (Some NS_TUBES) [] [])]"
  by (simp add: gabble_tube_iface_publish_in_node_def wocky_node_set_attribute_def)

text \<open>The request as it is built, with \<open>tube\<close> as the last child of \<open>si\<close>.\<close>

definition offer_stanza :: "string \<Rightarrow> string \<Rightarrow> WockyNode \<Rightarrow> WockyNode" where
  "offer_stanza full_jid stream_id tube =
     WockyNode ''iq'' None (Some WOCKY_XMPP_NS_JABBER_CLIENT)
       [\<lparr>attr_key = ''type'', attr_value = ''set'', attr_ns = None\<rparr>,
        \<lparr>attr_key = ''to'', attr_value = full_jid, attr_ns = None\<rparr>]
       [WockyNode ''si'' None (Some NS_SI)
          [\<lparr>attr_key = ''id'', attr_value = stream_id, attr_ns = None\<rparr>,
           \<lparr>attr_key = ''profile'', attr_value = NS_TUBES, attr_ns = None\<rparr>]
          [WockyNode ''feature'' None (Some NS_FEATURENEG) []
             [WockyNode ''x'' None (Some NS_X_DATA) [\<lparr>attr_key = ''type'', attr_value = ''form'', attr_ns = None\<rparr>]
                [WockyNode ''field'' None (Some NS_X_DATA)
                   [\<lparr>attr_key = ''var'', attr_value = ''stream-method'', attr_ns = None\<rparr>,
                    \<lparr>attr_key = ''type'', attr_value = ''list-single'', attr_ns = None\<rparr>]
                   [WockyNode ''option'' None (Some NS_X_DATA) []
                      [WockyNode ''value'' (Some NS_BYTESTREAMS) (Some NS_X_DATA) [] []],
                    WockyNode ''option'' None (Some NS_X_DATA) []
                      [WockyNode ''value'' (Some NS_IBB) (Some NS_X_DATA) [] []]]]],
           WockyNode ''si-multiple'' None (Some NS_SI_MULTIPLE) [] [],
           tube]]"

lemma tube_offer_stanza:
  "tube_offer_iq b64 off full_jid = Some (offer_stanza full_jid (to_stream_id off)
     (gabble_tube_iface_publish_in_node b64 off None (WockyNode ''tube'' None (Some NS_TUBES) [] [])))"
  by (simp add: tube_offer_iq_def build_eval add_tube_node_def wocky_node_get_child_ns_def node_compare_child_def
      offer_stanza_def)

lemma offer_stanza_read:
  assumes "node_name tube = ''tube''" "node_ns tube = Some NS_TUBES"
  shows "\<exists>si. wocky_node_get_child_ns (sent_iq i from (offer_stanza j sid tube)) (Some ''si'') (Some NS_SI) = Some si
    \<and> wocky_node_get_child_ns si (Some ''tube'') (Some NS_TUBES) = Some tube
    \<and> streaminit_parse_request (sent_iq i from (offer_stanza j sid tube)) si =
       Some \<lparr>si_profile = NS_TUBES, si_from = from, si_stream_id = sid, si_stream_init_id = Some i,
         si_mime_type = None, si_stream_methods = [Some NS_BYTESTREAMS, Some NS_IBB], si_multiple = True\<rparr>
    \<and> wocky_node_get_attribute si ''id'' = Some sid
    \<and> wocky_node_get_attribute (sent_iq i from (offer_stanza j sid tube)) ''from'' = Some from
    \<and> wocky_stanza_get_type_info (sent_iq i from (offer_stanza j sid tube)) =
        (WOCKY_STANZA_TYPE_IQ, WOCKY_STANZA_SUB_TYPE_SET)"
proof -
  have ns: "NS_BYTESTREAMS \<noteq> []" "NS_IBB \<noteq> []" "NS_FEATURENEG \<noteq> NS_TUBES" "NS_SI_MULTIPLE \<noteq> NS_TUBES"
    by (simp_all add: NS_BYTESTREAMS_def NS_IBB_def NS_TUBES_def NS_FEATURENEG_def NS_SI_MULTIPLE_def)
  show ?thesis
    using assms ns by (simp add: offer_stanza_def parse_eval)
      (simp add: stanza_type_defs wocky_node_get_attribute_def wocky_node_get_attribute_ns_def)
qed

lemma published_tube:
  assumes "\<forall>b. unb64 (b64 b) = Some b" "distinct (map fst (to_parameters off))" "0 < to_id off" "to_id off < 2 ^ 32"
    and "tube = gabble_tube_iface_publish_in_node b64 off None (WockyNode ''tube'' None (Some NS_TUBES) [] [])"
  shows "node_name tube = ''tube''" "node_ns tube = Some NS_TUBES"
    "extract_tube_type tube = Some TP_TUBE_TYPE_DBUS" "tube_id_attribute tube ''id'' = Some (to_id off)"
    "wocky_node_get_attribute tube ''service'' = Some (to_service off)"
    "extract_tube_parameters unb64 tube = map_of (filter (known_value \<circ> snd) (to_parameters off))"
proof -
  let ?ps = "lm_message_node_add_children_from_properties b64 ''parameter'' (to_parameters off)
        (WockyNode ''parameters'' None (Some NS_TUBES) [] [])"
  have "node_name ?ps = ''parameters''" by (simp add: properties_written)
  then have "wocky_node_get_child tube ''parameters'' = Some ?ps"
    by (simp add: assms(5) publish_eval wocky_node_get_child_def wocky_node_get_child_ns_def node_compare_child_def)
  then show "extract_tube_parameters unb64 tube = map_of (filter (known_value \<circ> snd) (to_parameters off))"
    using properties_read [OF assms(1,2)] by (simp add: extract_tube_parameters_def)
  have "strtoul (show_nat (to_id off)) = int (to_id off)" using assms(4) by (intro strtoul_show_nat) simp
  with assms(3,4) show "tube_id_attribute tube ''id'' = Some (to_id off)"
    by (simp add: tube_id_attribute_def assms(5) publish_eval wocky_node_get_attribute_def
        wocky_node_get_attribute_ns_def)
  show "node_name tube = ''tube''" "node_ns tube = Some NS_TUBES"
    "extract_tube_type tube = Some TP_TUBE_TYPE_DBUS" "wocky_node_get_attribute tube ''service'' = Some (to_service off)"
    by (simp_all add: assms(5) publish_eval extract_tube_type_def tp_strdiff_def wocky_node_get_attribute_def
        wocky_node_get_attribute_ns_def)
qed


definition example_offer :: tube_offer where
  "example_offer = \<lparr>to_service = ''org.s'', to_id = 7, to_stream_id = ''sid'', to_initiator = ''a@b'',
     to_parameters = [(''x'', G_INT (- 5)), (''y'', G_STRING ''z''), (''w'', G_OTHER)]\<rparr>"

definition example_pt_env :: pt_env where
  "example_pt_env = \<lparr>pe_ensure = Some, pe_lookup = Some, pe_unb64 = (\<lambda>s. Some (latin1_decode s)), pe_at_once = True\<rparr>"



section \<open>Who may do what to a tube\<close>

lemma new_channel_keeps:
  assumes "map_of (pt_tubes p) i = Some e" "map_of (pt_tubes p) k = None"
  shows "map_of (pt_tubes (new_channel_from_stanza env msg node k b p)) i = Some e"
proof -
  have "k \<noteq> i" using assms by auto
  with assms(1) show ?thesis
    by (auto simp: new_channel_from_stanza_def send_tube_close_msg_def pt_emit_def update_conv' Let_def
        split: option.split)
qed

lemma close_tube_keeps:
  "k \<noteq> i \<Longrightarrow> map_of (pt_tubes (close_tube at_once k remote p)) i = map_of (pt_tubes p) i"
  by (auto simp: close_tube_def channel_closed_cb_def pt_emit_def delete_conv' Let_def split: option.split)

lemma msg_tube_keeps:
  assumes "wocky_node_get_attribute msg ''from'' = Some from" "\<forall>h. pe_lookup env from = Some h \<longrightarrow> h = contact"
    and "map_of (pt_tubes p) i = Some e" "ent_handle e \<noteq> contact"
  shows "map_of (pt_tubes (snd (private_tubes_factory_msg_tube_cb env msg p))) i = Some e"
proof (cases "Option.bind (wocky_node_get_child_ns msg (Some ''tube'') (Some NS_TUBES))
    (\<lambda>node. map_option (Pair node) (tube_msg_checks env msg node))")
  case None
  with assms(3) show ?thesis
    by (auto simp: private_tubes_factory_msg_tube_cb_def split: option.splits bind_splits)
next
  case (Some r)
  then obtain node handle k where r: "wocky_node_get_child_ns msg (Some ''tube'') (Some NS_TUBES) = Some node"
    "tube_msg_checks env msg node = Some (handle, k)"
    by (auto split: bind_splits)
  have h: "handle = contact" using r(2) assms(1,2) by (auto simp: tube_msg_checks_def split: bind_splits)
  show ?thesis
  proof (cases "map_of (pt_tubes p) k")
    case None
    with new_channel_keeps [OF assms(3) None] r show ?thesis by (simp add: private_tubes_factory_msg_tube_cb_def)
  next
    case (Some c)
    then have "k \<noteq> i \<or> ent_handle c \<noteq> contact" using assms(3,4) by auto
    with Some r h assms(3) close_tube_keeps [of k i] show ?thesis
      by (auto simp: private_tubes_factory_msg_tube_cb_def)
  qed
qed

lemma generated_id_free: "generate_tube_id ids p = Some k \<Longrightarrow> map_of (pt_tubes p) k = None"
  by (induction ids) (auto split: if_splits)

lemma request_outcome:
  assumes "gabble_private_tubes_factory_requestotron valid ids sid self req new p = Some (handled, p')"
    and "distinct (map fst (pt_tubes p))"
  shows "map_of (pt_tubes p) i = Some e \<longrightarrow> map_of (pt_tubes p') i = Some e"
    and "handled \<and> PT_request_failed \<notin> set (drop (length (pt_trace p)) (pt_trace p')) \<longrightarrow>
      (\<exists>j e'. map_of (pt_tubes p') j = Some e' \<and> Some (ent_type e') = req_type req
         \<and> ent_handle e' = req_handle req \<and> ent_service e' = req_service req)"
proof -
  have lookup: "\<exists>e'. map_of (pt_tubes p) j = Some e' \<and> ent_type e' = type \<and> ent_handle e' = h \<and> ent_service e' = Some s"
    if "gabble_private_tubes_factory_lookup type h s p = Some j" for type h s j
    using that assms(2) by (auto simp: gabble_private_tubes_factory_lookup_def tp_strdiff_def dest!: find_Some_in)
  show "map_of (pt_tubes p) i = Some e \<longrightarrow> map_of (pt_tubes p') i = Some e"
    using assms(1) generated_id_free [of ids p i]
    by (auto simp: gabble_private_tubes_factory_requestotron_def new_channel_from_request_def pt_emit_def update_conv'
        split: option.splits if_splits)
  show "handled \<and> PT_request_failed \<notin> set (drop (length (pt_trace p)) (pt_trace p')) \<longrightarrow>
      (\<exists>j e'. map_of (pt_tubes p') j = Some e' \<and> Some (ent_type e') = req_type req
         \<and> ent_handle e' = req_handle req \<and> ent_service e' = req_service req)"
    using assms(1) lookup
    by (fastforce simp: gabble_private_tubes_factory_requestotron_def new_channel_from_request_def pt_emit_def
        update_conv' split: option.splits if_splits)
qed

text \<open>C29. An offer of one contact leaves the tubes of the others alone: neither an offer with a stream initiation
  request nor one in a message, whatever it says, removes or changes a tube to another contact, even when it
  reuses its identifier. A request of a client neither removes nor changes any tube, and unless it fails
  leaves a tube of that type and service to that contact in the table.\<close>

theorem private_tubes_isolated:
  assumes "wocky_node_get_attribute msg ''from'' = Some from"
    and "\<forall>h. pe_lookup env from = Some h \<longrightarrow> h = contact"
    and "distinct (map fst (pt_tubes p))" "map_of (pt_tubes p) i = Some e"
  shows "(ent_handle e \<noteq> contact \<longrightarrow>
      map_of (pt_tubes (gabble_private_tubes_factory_handle_si_tube_request env msg p)) i = Some e
      \<and> map_of (pt_tubes (snd (private_tubes_factory_msg_tube_cb env msg p))) i = Some e)
    \<and> (gabble_private_tubes_factory_requestotron valid ids sid self req new p = Some (handled, p') \<longrightarrow>
        map_of (pt_tubes p') i = Some e
        \<and> (handled \<and> PT_request_failed \<notin> set (drop (length (pt_trace p)) (pt_trace p')) \<longrightarrow>
             (\<exists>j e'. map_of (pt_tubes p') j = Some e' \<and> Some (ent_type e') = req_type req
                \<and> ent_handle e' = req_handle req \<and> ent_service e' = req_service req)))"
proof -
  have "map_of (pt_tubes (gabble_private_tubes_factory_handle_si_tube_request env msg p)) i = Some e"
    using new_channel_keeps [OF assms(4)] assms(4)
    by (auto simp: gabble_private_tubes_factory_handle_si_tube_request_def pt_emit_def split: option.split bind_splits)
  with msg_tube_keeps [OF assms(1,2,4)] request_outcome [OF _ assms(3)] assms(4) show ?thesis by blast
qed

theorem private_tubes_isolated_witness:
  "\<exists>p e. map_of (pt_tubes p) 7 = Some e \<and> ent_handle e = ''c@d''
     \<and> map_of (pt_tubes (snd (private_tubes_factory_msg_tube_cb example_pt_env
          (WockyNode ''message'' None (Some ''jabber:client'') [\<lparr>attr_key = ''from'', attr_value = ''a@b'', attr_ns = None\<rparr>]
             [WockyNode ''tube'' None (Some NS_TUBES) [\<lparr>attr_key = ''id'', attr_value = ''7'', attr_ns = None\<rparr>] []]) p))) 7
        = Some e"
proof -
  let ?e = "\<lparr>ent_type = TP_TUBE_TYPE_STREAM, ent_handle = ''c@d'', ent_service = Some ''http'', ent_stream_id = None,
    ent_parameters = Map.empty, ent_requested = True\<rparr>"
  let ?p = "\<lparr>pt_tubes = [(7, ?e)], pt_trace = []\<rparr>"
  let ?m = "WockyNode ''message'' None (Some ''jabber:client'') [\<lparr>attr_key = ''from'', attr_value = ''a@b'', attr_ns = None\<rparr>]
     [WockyNode ''tube'' None (Some NS_TUBES) [\<lparr>attr_key = ''id'', attr_value = ''7'', attr_ns = None\<rparr>] []]"
  have a: "wocky_node_get_attribute ?m ''from'' = Some ''a@b''" by (simp add: wocky_node_defs)
  have "\<forall>h. pe_lookup example_pt_env ''a@b'' = Some h \<longrightarrow> h = ''a@b''" by (simp add: example_pt_env_def)
  from private_tubes_isolated [OF a this, of ?p 7 ?e] show ?thesis
    by (intro exI [of _ ?p] exI [of _ ?e]) simp
qed

text \<open>The message with which a tube is closed is not understood by the code that should read it: it carries the
  identifier in the attribute \<open>tube\<close>, and \<open>tube_msg_checks\<close> looks for \<open>id\<close>. So a stream tube a contact closed stays
  open here. A close message with an \<open>id\<close>, on the other hand, closes the stream tube of that identifier whoever
  sends it, and a request for another bytestream of a tube is handed to it whoever sends it.\<close>

theorem tube_close_not_understood:
  "private_tubes_factory_tube_close_cb env (delivered from (tube_close_msg jid tube_id)) p = (False, p)
   \<and> (pe_lookup env from \<noteq> None \<and> map_of (pt_tubes p) tube_id = Some e \<and> ent_type e = TP_TUBE_TYPE_STREAM
        \<and> 0 < tube_id \<and> tube_id < 2 ^ 32 \<longrightarrow>
      map_of (pt_tubes (snd (private_tubes_factory_tube_close_cb env
        (delivered from (WockyNode ''message'' None (Some ns) []
           [wocky_node_set_attribute (WockyNode ''close'' None (Some NS_TUBES) [] []) ''id'' (show_nat tube_id)]))
        p))) tube_id = None)"
proof
  show "private_tubes_factory_tube_close_cb env (delivered from (tube_close_msg jid tube_id)) p = (False, p)"
    by (simp add: private_tubes_factory_tube_close_cb_def tube_close_msg_def tube_msg_checks_def tube_id_attribute_def
        parse_eval split: bind_splits)
  have "strtoul (show_nat tube_id) = int tube_id" if "tube_id < 2 ^ 32" using that by (intro strtoul_show_nat) simp
  then show "pe_lookup env from \<noteq> None \<and> map_of (pt_tubes p) tube_id = Some e \<and> ent_type e = TP_TUBE_TYPE_STREAM
        \<and> 0 < tube_id \<and> tube_id < 2 ^ 32 \<longrightarrow>
      map_of (pt_tubes (snd (private_tubes_factory_tube_close_cb env
        (delivered from (WockyNode ''message'' None (Some ns) []
           [wocky_node_set_attribute (WockyNode ''close'' None (Some NS_TUBES) [] []) ''id'' (show_nat tube_id)]))
        p))) tube_id = None"
    by (auto simp: private_tubes_factory_tube_close_cb_def tube_msg_checks_def tube_id_attribute_def parse_eval
        close_tube_def channel_closed_cb_def pt_emit_def delete_conv' Let_def)
qed


theorem tube_close_not_understood_witness:
  "\<exists>p e. map_of (pt_tubes p) 7 = Some e \<and> ent_handle e = ''c@d''
     \<and> private_tubes_factory_tube_close_cb example_pt_env (delivered ''c@d'' (tube_close_msg ''me@e'' 7)) p = (False, p)
     \<and> map_of (pt_tubes (snd (private_tubes_factory_tube_close_cb example_pt_env
        (delivered ''a@b'' (WockyNode ''message'' None (Some ''jabber:client'') []
           [wocky_node_set_attribute (WockyNode ''close'' None (Some NS_TUBES) [] []) ''id'' (show_nat 7)])) p))) 7 = None"
proof -
  let ?e = "\<lparr>ent_type = TP_TUBE_TYPE_STREAM, ent_handle = ''c@d'', ent_service = Some ''http'', ent_stream_id = None,
    ent_parameters = Map.empty, ent_requested = True\<rparr>"
  let ?p = "\<lparr>pt_tubes = [(7, ?e)], pt_trace = []\<rparr>"
  have "pe_lookup example_pt_env ''a@b'' \<noteq> None" by (simp add: example_pt_env_def)
  with tube_close_not_understood [of example_pt_env "''a@b''" "''me@e''" 7 ?p ?e "''jabber:client''"]
    tube_close_not_understood [of example_pt_env "''c@d''" "''me@e''" 7 ?p ?e "''jabber:client''"]
  show ?thesis by (intro exI [of _ ?p] exI [of _ ?e]) simp
qed

end
