(* ===== verification/Tube_Reassembly.thy ===== *)
theory Tube_Reassembly
  imports Tube_DBus
begin

text \<open>
  D-Bus tubes to a contact: the messages of the peer are put together again from the byte stream and reach the
  local application in order (\<open>tube_delivers_messages\<close>); two flaws in reading message headers
  (\<open>tube_header_aborts\<close>, \<open>tube_big_endian_stalls\<close>).
\<close>

section \<open>Message headers\<close>

text \<open>The lengths a header stands for, by the D-Bus specification: the number in four bytes, least or most
  significant first.\<close>

definition le_number :: "bytes \<Rightarrow> nat" where
  "le_number b = unat (b ! 0) + 256 * unat (b ! 1) + 65536 * unat (b ! 2) + 16777216 * unat (b ! 3)"

definition be_number :: "bytes \<Rightarrow> nat" where
  "be_number b = 16777216 * unat (b ! 0) + 65536 * unat (b ! 1) + 256 * unat (b ! 2) + unat (b ! 3)"

definition header_lengths :: "bytes \<Rightarrow> (nat \<times> nat) option" where
  "header_lengths f =
     (if f ! 0 = DBUS_BIG_ENDIAN then Some (be_number (drop 4 f), be_number (drop 12 f))
      else if f ! 0 = DBUS_LITTLE_ENDIAN then Some (le_number (drop 4 f), le_number (drop 12 f))
      else None)"

definition pad_8 :: "nat \<Rightarrow> nat" where
  "pad_8 m = 8 * ((m + 7) div 8)"

text \<open>A whole message within the limits, and one whose lengths the code reads as they are meant.\<close>

definition dbus_frame :: "'m dbus_lib \<Rightarrow> bytes \<Rightarrow> bool" where
  "dbus_frame lib f \<longleftrightarrow> 16 \<le> length f \<and>
     (case header_lengths f of
        None \<Rightarrow> False
      | Some (n, m) \<Rightarrow> length f = 16 + pad_8 m + n \<and> pad_8 m \<le> unat (DBUS_MAXIMUM_ARRAY_LENGTH lib)
          \<and> length f \<le> unat (DBUS_MAXIMUM_MESSAGE_LENGTH lib))"

definition be_short :: "bytes \<Rightarrow> bool" where
  "be_short f \<longleftrightarrow> (f ! 0 = DBUS_BIG_ENDIAN \<longrightarrow> f ! 6 = 0 \<and> f ! 14 = 0)"

text \<open>The limits of the D-Bus specification: 128 MiB for a message, 64 MiB for an array.\<close>

definition dbus_limits :: "'m dbus_lib \<Rightarrow> bool" where
  "dbus_limits lib \<longleftrightarrow> unat (DBUS_MAXIMUM_MESSAGE_LENGTH lib) \<le> 2 ^ 27
     \<and> unat (DBUS_MAXIMUM_ARRAY_LENGTH lib) \<le> 2 ^ 26"

lemma or_disjoint_bytes:
  fixes x y :: guint
  assumes "unat x < 2 ^ k" "k \<le> 24"
  shows "x OR push_bit k y = x + push_bit k y"
proof -
  have "\<not> bit x n \<or> \<not> bit (push_bit k y) n" for n
  proof (cases "n < k")
    case True then show ?thesis by (simp add: bit_push_bit_iff)
  next
    case False
    have "unat (take_bit k x) = unat x" using assms(1)
      by (simp add: unsigned_take_bit_eq take_bit_nat_eq_self)
    then have "take_bit k x = x" by (simp only: word_unat_eq_iff)
    with False show ?thesis by (metis bit_take_bit_iff)
  qed
  then show ?thesis by (metis disjunctive_add)
qed

lemma unat_push_byte:
  fixes b :: byte
  assumes "k \<le> 24"
  shows "unat (push_bit k (ucast b :: guint)) = 2 ^ k * unat b"
proof -
  have b: "unat b < 2 ^ 8" using unsigned_less [of b, where ?'a = nat] by simp
  have "(2 :: nat) ^ k \<le> 2 ^ 24" using assms by (rule power_increasing) simp
  with b have "2 ^ k * unat b < 2 ^ 24 * 2 ^ 8" by (intro mult_le_less_imp_less) auto
  then have "2 ^ k * unat b < 2 ^ 32" by simp
  moreover have "unat (ucast b :: guint) = unat b"
    using b by (simp add: unsigned_ucast_eq take_bit_nat_eq_self)
  moreover have "unat (push_bit k (ucast b :: guint)) = take_bit 32 (push_bit k (unat (ucast b :: guint)))"
    by (simp add: unsigned_push_bit_eq)
  ultimately show ?thesis by (simp add: push_bit_eq_mult take_bit_nat_eq_self mult.commute)
qed

lemma unat_byte: "unat (b :: byte) < 256"
  using unsigned_less [of b, where ?'a = nat] by simp

text \<open>Putting a byte on top of a number that ends below it.\<close>

lemma unat_or_byte:
  fixes x :: guint and b :: byte
  assumes "unat x < 2 ^ k" "k \<le> 24"
  shows "unat (x OR push_bit k (ucast b)) = unat x + 2 ^ k * unat b" and "unat x + 2 ^ k * unat b < 2 ^ (k + 8)"
proof -
  have "unat x + 2 ^ k * unat b < 2 ^ k + 2 ^ k * unat b" using assms(1) by simp
  also have "\<dots> = 2 ^ k * Suc (unat b)" by simp
  also have "\<dots> \<le> 2 ^ k * 256" using unat_byte [of b] by (intro mult_le_mono2) simp
  finally show lt: "unat x + 2 ^ k * unat b < 2 ^ (k + 8)" by (simp add: power_add)
  also have "\<dots> \<le> 2 ^ 32" using assms(2) by (intro power_increasing) auto
  finally show "unat (x OR push_bit k (ucast b)) = unat x + 2 ^ k * unat b"
    using assms by (simp add: or_disjoint_bytes unat_word_ariths unat_push_byte)
qed

lemma collect_le32: "unat (collect_le32 b) = le_number b"
proof -
  let ?x = "ucast (b ! 0) :: guint"
  let ?y = "?x OR push_bit 8 (ucast (b ! 1))"
  let ?z = "?y OR push_bit 16 (ucast (b ! 2))"
  have x: "unat ?x = unat (b ! 0)" using unat_push_byte [of 0 "b ! 0"] by simp
  then have "unat ?x < 2 ^ 8" using unat_byte [of "b ! 0"] by simp
  from unat_or_byte [OF this, of "b ! 1"] have y: "unat ?y = unat (b ! 0) + 256 * unat (b ! 1)" "unat ?y < 2 ^ 16"
    using x by simp_all
  from unat_or_byte [OF y(2), of "b ! 2"] have z: "unat ?z = unat ?y + 65536 * unat (b ! 2)" "unat ?z < 2 ^ 24"
    by simp_all
  from unat_or_byte(1) [OF z(2), of "b ! 3"] y(1) z(1) show ?thesis
    by (simp add: collect_le32_def le_number_def or.assoc)
qed

text \<open>The big-endian reading is right when the third byte is 0.\<close>

lemma collect_be32:
  assumes "b ! 2 = 0"
  shows "unat (collect_be32 b) = be_number b"
proof -
  have "collect_be32 b = collect_le32 [b ! 3, 0, b ! 1, b ! 0]"
    using assms by (simp add: collect_be32_def collect_le32_def or.assoc or.commute or.left_commute)
  with assms show ?thesis by (simp add: collect_le32 le_number_def be_number_def)
qed

lemma message_lengths_prefix:
  assumes "16 \<le> length r" shows "message_lengths (r @ t) = message_lengths r"
proof -
  have "(r @ t) ! i = r ! i" if "i < 16" for i using that assms by (simp add: nth_append)
  with assms show ?thesis
    by (simp add: message_lengths_def collect_le32_def collect_be32_def nth_drop del: drop_append)
qed

lemma pad_8_bounds: "m \<le> pad_8 m" "pad_8 m < m + 8" "pad_8 m mod 8 = 0"
  by (simp_all add: pad_8_def)

lemma pad_8_eq: "pad_8 m = m + (8 - m mod 8) mod 8"
proof -
  have "8 * ((8 * q + r + 7) div 8) = 8 * q + r + (8 - r) mod 8" if "r < 8" for q r :: nat
  proof (cases "r = 0")
    case False
    with that have "(8 * q + r + 7) div 8 = q + 1" "(8 - r) mod 8 = 8 - r" by simp_all
    with that show ?thesis by simp
  qed simp
  from this [of "m mod 8" "m div 8"] show ?thesis by (simp add: pad_8_def)
qed

lemma params_padded:
  assumes "unat m \<le> 2 ^ 26"
  shows "unat (params_padded m) = pad_8 (unat m)"
    and "params_padded m mod 8 = 0" "m \<le> params_padded m" "params_padded m < m + 8"
proof -
  have "unat m mod 8 \<le> 8" by (simp add: less_imp_le)
  then have "unat (8 - m mod 8) = 8 - unat m mod 8"
    by (subst unat_sub) (simp_all add: word_le_nat_alt unat_mod_distrib)
  then have a: "unat ((8 - m mod 8) mod 8) = (8 - unat m mod 8) mod 8"
    by (simp add: unat_mod_distrib)
  moreover have "(8 - unat m mod 8) mod 8 < 8" by simp
  ultimately show p: "unat (params_padded m) = pad_8 (unat m)"
    using assms by (simp add: params_padded_def pad_8_eq unat_word_ariths)
  have m8: "unat (m + 8) = unat m + 8" using assms by (simp add: unat_word_ariths)
  show "m \<le> params_padded m" "params_padded m < m + 8"
    using pad_8_bounds [of "unat m"] by (simp_all add: word_le_nat_alt word_less_nat_alt p m8)
  show "params_padded m mod 8 = 0"
    using pad_8_bounds(3) [of "unat m"] by (simp add: word_unat_eq_iff unat_mod_distrib p)
qed

lemma frame_header:
  assumes "dbus_limits lib" "dbus_frame lib f" "be_short f"
  obtains body m where "message_lengths f = Some (body, m)"
    "params_padded m mod 8 = 0" "m \<le> params_padded m" "params_padded m < m + 8"
    "\<not> DBUS_MAXIMUM_MESSAGE_LENGTH lib < body" "\<not> DBUS_MAXIMUM_ARRAY_LENGTH lib < params_padded m"
    "\<not> DBUS_MAXIMUM_MESSAGE_LENGTH lib < params_padded m + body + 16"
    "unat (params_padded m + body + 16) = length f"
proof -
  have len: "16 \<le> length f" using assms(2) by (simp add: dbus_frame_def)
  from assms(2) obtain n k where nk: "header_lengths f = Some (n, k)"
    "length f = 16 + pad_8 k + n" "pad_8 k \<le> unat (DBUS_MAXIMUM_ARRAY_LENGTH lib)"
    "length f \<le> unat (DBUS_MAXIMUM_MESSAGE_LENGTH lib)"
    by (auto simp: dbus_frame_def split: option.splits)
  have "\<exists>body m. message_lengths f = Some (body, m) \<and> unat body = n \<and> unat m = k"
    using nk(1) assms(3) len
    by (auto simp: header_lengths_def message_lengths_def be_short_def collect_le32 collect_be32 nth_drop
        split: if_splits)
  then obtain body m where bm: "message_lengths f = Some (body, m)" "unat body = n" "unat m = k" by blast
  have "unat m \<le> 2 ^ 26" using pad_8_bounds(1) [of k] nk(3) assms(1) bm(3) by (simp add: dbus_limits_def)
  note p = params_padded [OF this]
  have l: "unat (params_padded m + body + 16) = length f"
    using p(1) bm(2,3) nk assms(1) by (simp add: unat_word_ariths dbus_limits_def)
  show thesis
    using that [OF bm(1) p(2-4)] l nk p(1) bm(2,3) by (simp add: word_less_nat_alt)
qed

section \<open>Reassembly\<close>

text \<open>One turn of the loop.\<close>

lemma loop_short: "length (tb_reassembly_buffer t) < 16 \<Longrightarrow> data_received_loop lib at_once sender t = Some t"
  by (simp add: data_received_loop.simps)

lemma loop_wait:
  "length (tb_reassembly_buffer t) < unat (tb_reassembly_bytes_needed t) \<Longrightarrow> data_received_loop lib at_once sender t = Some t"
  by (subst data_received_loop.simps) auto

lemma loop_consume:
  assumes "n = unat (tb_reassembly_bytes_needed t)" "n \<noteq> 0" "n \<le> length (tb_reassembly_buffer t)"
    "16 \<le> length (tb_reassembly_buffer t)"
  shows "data_received_loop lib at_once sender t = data_received_loop lib at_once sender
    ((message_received lib sender (take n (tb_reassembly_buffer t)) t)
      \<lparr>tb_reassembly_buffer := drop n (tb_reassembly_buffer t), tb_reassembly_bytes_needed := 0\<rparr>)"
    (is "?l = data_received_loop lib at_once sender ?t1")
proof -
  have "tb_reassembly_bytes_needed t \<noteq> 0" using assms(1,2) by auto
  with assms(2-4) have "?l = (if length (drop n (tb_reassembly_buffer t)) < 16 then Some ?t1
    else data_received_loop lib at_once sender ?t1)"
    unfolding assms(1) by (subst (1 2) data_received_loop.simps) (simp add: Let_def)
  then show ?thesis using loop_short [of ?t1] by (simp split: if_splits)
qed

lemma loop_header:
  assumes "dbus_limits lib" "dbus_frame lib f" "be_short f"
    and "tb_reassembly_bytes_needed t = 0" "16 \<le> length (tb_reassembly_buffer t)"
    and "message_lengths (tb_reassembly_buffer t) = message_lengths f"
  shows "data_received_loop lib at_once sender t =
    data_received_loop lib at_once sender (t\<lparr>tb_reassembly_bytes_needed := of_nat (length f)\<rparr>)"
    and "unat (of_nat (length f) :: guint) = length f" "16 \<le> length f"
proof -
  obtain body m where h: "message_lengths f = Some (body, m)"
    "params_padded m mod 8 = 0" "m \<le> params_padded m" "params_padded m < m + 8"
    "\<not> DBUS_MAXIMUM_MESSAGE_LENGTH lib < body" "\<not> DBUS_MAXIMUM_ARRAY_LENGTH lib < params_padded m"
    "\<not> DBUS_MAXIMUM_MESSAGE_LENGTH lib < params_padded m + body + 16"
    "unat (params_padded m + body + 16) = length f"
    using frame_header [OF assms(1-3)] by metis
  have e: "params_padded m + body + 16 = of_nat (length f)"
    by (simp flip: h(8))
  show l: "16 \<le> length f" using assms(2) by (simp add: dbus_frame_def)
  show "unat (of_nat (length f) :: guint) = length f" using e h(8) by simp
  have "params_padded m + body + 16 \<noteq> 0" using h(8) l by auto
  then show "data_received_loop lib at_once sender t =
    data_received_loop lib at_once sender (t\<lparr>tb_reassembly_bytes_needed := of_nat (length f)\<rparr>)"
    using h(1-7) assms(4-6) by (subst data_received_loop.simps) (simp add: Let_def e [symmetric])
qed

lemma message_received_commutes [simp]:
  "message_received lib sender data (t\<lparr>tb_reassembly_bytes_needed := n\<rparr>) =
   (message_received lib sender data t)\<lparr>tb_reassembly_bytes_needed := n\<rparr>"
  "message_received lib sender data (t\<lparr>tb_reassembly_buffer := b\<rparr>) =
   (message_received lib sender data t)\<lparr>tb_reassembly_buffer := b\<rparr>"
  by (auto simp: message_received_def tb_emit_def split: option.split)

lemma needed_same: "tb_reassembly_bytes_needed t = n \<Longrightarrow> t\<lparr>tb_reassembly_bytes_needed := n\<rparr> = t"
  by (cases t) simp

lemma fold_message_received_commutes [simp]:
  "fold (message_received lib sender) ms (t\<lparr>tb_reassembly_bytes_needed := n\<rparr>) =
   (fold (message_received lib sender) ms t)\<lparr>tb_reassembly_bytes_needed := n\<rparr>"
  "fold (message_received lib sender) ms (t\<lparr>tb_reassembly_buffer := b\<rparr>) =
   (fold (message_received lib sender) ms t)\<lparr>tb_reassembly_buffer := b\<rparr>"
  by (induction ms arbitrary: t) simp_all

definition waiting_size :: "bytes \<Rightarrow> bytes list \<Rightarrow> guint" where
  "waiting_size r left = (if length r < 16 then 0 else case left of f # _ \<Rightarrow> of_nat (length f) | [] \<Rightarrow> 0)"

text \<open>\<open>r\<close> is the part of the first message of \<open>left\<close> that has arrived.\<close>

definition partial :: "bytes \<Rightarrow> bytes list \<Rightarrow> bool" where
  "partial r left \<longleftrightarrow> (case left of [] \<Rightarrow> r = [] | f # _ \<Rightarrow> \<exists>s. s \<noteq> [] \<and> f = r @ s)"

lemma loop_partial:
  assumes "dbus_limits lib" "\<forall>f \<in> set left. dbus_frame lib f \<and> be_short f" "partial r left"
    and "tb_reassembly_buffer t = r" "tb_reassembly_bytes_needed t \<in> {0, waiting_size r left}"
  shows "data_received_loop lib at_once sender t = Some (t\<lparr>tb_reassembly_bytes_needed := waiting_size r left\<rparr>)"
proof (cases "length r < 16")
  case True
  with assms(4,5) show ?thesis by (simp add: loop_short waiting_size_def)
next
  case False
  then obtain f fs s where f: "left = f # fs" "s \<noteq> []" "f = r @ s"
    using assms(3) by (auto simp: partial_def split: list.splits)
  have ok: "dbus_frame lib f" "be_short f" using assms(2) f(1) by auto
  have ml: "message_lengths r = message_lengths f" using False f(3) by (simp add: message_lengths_prefix)
  let ?w = "of_nat (length f) :: guint"
  have w: "waiting_size r left = ?w" using False f(1) by (simp add: waiting_size_def)
  have u: "unat ?w = length f"
    using loop_header(2) [OF assms(1) ok, of "t\<lparr>tb_reassembly_bytes_needed := 0\<rparr>"] assms(4) False ml by simp
  have "data_received_loop lib at_once sender (t\<lparr>tb_reassembly_bytes_needed := ?w\<rparr>) =
      Some (t\<lparr>tb_reassembly_bytes_needed := ?w\<rparr>)"
    using u f(2,3) assms(4) by (intro loop_wait) simp
  moreover have "t\<lparr>tb_reassembly_bytes_needed := ?w\<rparr> = t" if "tb_reassembly_bytes_needed t = ?w"
    using that by (rule needed_same)
  moreover have "data_received_loop lib at_once sender t =
      data_received_loop lib at_once sender (t\<lparr>tb_reassembly_bytes_needed := ?w\<rparr>)"
    if "tb_reassembly_bytes_needed t = 0"
    using loop_header(1) [OF assms(1) ok that] assms(4) False ml by simp
  ultimately show ?thesis using assms(5) w by (metis insertE singletonD)
qed

lemma loop_frames:
  assumes "dbus_limits lib" "\<forall>f \<in> set (got @ left). dbus_frame lib f \<and> be_short f" "partial r left"
    and "tb_reassembly_buffer t = concat got @ r"
    and "tb_reassembly_bytes_needed t = 0
      \<or> tb_reassembly_bytes_needed t = waiting_size (concat got @ r) (got @ left)"
  shows "data_received_loop lib at_once sender t = Some ((fold (message_received lib sender) got t)
    \<lparr>tb_reassembly_buffer := r, tb_reassembly_bytes_needed := waiting_size r left\<rparr>)"
  using assms
proof (induction got arbitrary: t)
  case Nil
  from loop_partial [OF Nil(1) _ Nil(3), of t] Nil show ?case by simp
next
  case (Cons f got)
  let ?buf = "f @ concat got @ r" and ?w = "of_nat (length f) :: guint"
  have ok: "dbus_frame lib f" "be_short f" using Cons.prems(2) by auto
  then have l: "16 \<le> length f" by (simp add: dbus_frame_def)
  have b: "tb_reassembly_buffer t = ?buf" using Cons.prems(4) by simp
  have ml: "message_lengths ?buf = message_lengths f" using l by (simp add: message_lengths_prefix)
  let ?t0 = "t\<lparr>tb_reassembly_bytes_needed := 0\<rparr>" and ?t1 = "t\<lparr>tb_reassembly_bytes_needed := ?w\<rparr>"
  have u: "unat ?w = length f" using loop_header(2) [OF Cons.prems(1) ok, of ?t0] b ml l by simp
  have "data_received_loop lib at_once sender t = data_received_loop lib at_once sender ?t1"
  proof (cases "tb_reassembly_bytes_needed t = 0")
    case True
    from loop_header(1) [OF Cons.prems(1) ok this] b ml l show ?thesis by simp
  next
    case False
    with Cons.prems(5) l have "tb_reassembly_bytes_needed t = ?w" by (simp add: waiting_size_def split: if_splits)
    from needed_same [OF this] show ?thesis by simp
  qed
  also have "\<dots> = data_received_loop lib at_once sender ((message_received lib sender f t)
      \<lparr>tb_reassembly_buffer := concat got @ r, tb_reassembly_bytes_needed := 0\<rparr>)"
    using loop_consume [of "length f" ?t1 lib at_once sender] b l u by (cases "f = []") simp_all
  also have "\<dots> = Some ((fold (message_received lib sender) got (message_received lib sender f t))
      \<lparr>tb_reassembly_buffer := r, tb_reassembly_bytes_needed := waiting_size r left\<rparr>)"
    using Cons.IH [of "(message_received lib sender f t)
      \<lparr>tb_reassembly_buffer := concat got @ r, tb_reassembly_bytes_needed := 0\<rparr>"] Cons.prems(1-3) by simp
  finally show ?case by simp
qed


text \<open>The messages that are complete when \<open>n\<close> bytes have arrived.\<close>

primrec arrived :: "nat \<Rightarrow> bytes list \<Rightarrow> bytes list" where
  "arrived n [] = []"
| "arrived n (f # fs) = (if length f \<le> n then f # arrived (n - length f) fs else [])"

lemma arrived_split:
  "a @ later = concat fs \<Longrightarrow>
   \<exists>r left. fs = arrived (length a) fs @ left \<and> a = concat (arrived (length a) fs) @ r
     \<and> r @ later = concat left \<and> partial r left"
proof (induction fs arbitrary: a)
  case Nil
  then show ?case by (simp add: partial_def)
next
  case (Cons f fs)
  show ?case
  proof (cases "length f \<le> length a")
    case True
    then have a: "a = f @ drop (length f) a" "drop (length f) a @ later = concat fs"
      using arg_cong [OF Cons.prems, of "take (length f)"] arg_cong [OF Cons.prems, of "drop (length f)"]
      by (metis append_take_drop_id diff_is_0_eq append_Nil2 take0 take_append append_eq_conv_conj concat.simps(2),
          simp)
    from Cons.IH [OF a(2)] a(1) True show ?thesis
      by (metis append.assoc append_Cons arrived.simps(2) concat.simps(2) length_drop)
  next
    case False
    then have "\<exists>s. s \<noteq> [] \<and> f = a @ s"
      using Cons.prems by (metis append_eq_append_conv_if append_take_drop_id concat.simps(2) drop_eq_Nil)
    with False Cons.prems show ?thesis by (intro exI [of _ a] exI [of _ "f # fs"]) (auto simp: partial_def)
  qed
qed

text \<open>Data that comes in piece by piece.\<close>

primrec feed_tube :: "'m dbus_lib \<Rightarrow> bool \<Rightarrow> nat \<Rightarrow> bytes list \<Rightarrow> 'm tube \<Rightarrow> 'm tube option" where
  "feed_tube lib at_once sender [] t = Some t"
| "feed_tube lib at_once sender (d # ds) t =
     Option.bind (data_received_cb lib at_once sender d t) (feed_tube lib at_once sender ds)"

lemma message_received_kind [simp]:
  "tb_room (message_received lib sender data t) = tb_room t"
  "tb_dbus_conn (message_received lib sender data t) = tb_dbus_conn t"
  by (simp_all add: message_received_def tb_emit_def split: option.split)

lemma fold_message_received_kind [simp]:
  "tb_room (fold (message_received lib sender) ms t) = tb_room t"
  "tb_dbus_conn (fold (message_received lib sender) ms t) = tb_dbus_conn t"
  by (induction ms arbitrary: t) simp_all

lemma arrived_append: "arrived (length (concat got) + k) (got @ left) = got @ arrived k left"
  by (induction got) auto

lemma feed_tube_frames:
  assumes "dbus_limits lib" "\<forall>f \<in> set fs. dbus_frame lib f \<and> be_short f" "\<not> tb_room t"
    and "r @ concat ds @ later = concat fs" "partial r fs"
    and "tb_reassembly_buffer t = r" "tb_reassembly_bytes_needed t = waiting_size r fs"
  shows "\<exists>r' left. feed_tube lib at_once sender ds t =
      Some ((fold (message_received lib sender) (arrived (length (r @ concat ds)) fs) t)
        \<lparr>tb_reassembly_buffer := r', tb_reassembly_bytes_needed := waiting_size r' left\<rparr>)
    \<and> fs = arrived (length (r @ concat ds)) fs @ left
    \<and> r @ concat ds = concat (arrived (length (r @ concat ds)) fs) @ r'
    \<and> r' @ later = concat left \<and> partial r' left"
  using assms(2-)
proof (induction ds arbitrary: r fs t)
  case Nil
  then have "arrived (length r) fs = []" by (cases fs) (auto simp: partial_def)
  with Nil show ?case by (intro exI [of _ r] exI [of _ fs]) (simp add: needed_same)
next
  case (Cons d ds)
  define got where "got = arrived (length (r @ d)) fs"
  have "(r @ d) @ concat ds @ later = concat fs" using Cons.prems(3) by simp
  from arrived_split [OF this, folded got_def] obtain r1 left where s: "fs = got @ left" "r @ d = concat got @ r1" "r1 @ concat ds @ later = concat left"
    "partial r1 left"
    by blast
  let ?t1 = "(fold (message_received lib sender) got t)
      \<lparr>tb_reassembly_buffer := r1, tb_reassembly_bytes_needed := waiting_size r1 left\<rparr>"
  have "waiting_size r fs = 0 \<or> waiting_size r fs = waiting_size (r @ d) fs" by (simp add: waiting_size_def)
  then have "data_received_loop lib at_once sender (t\<lparr>tb_reassembly_buffer := r @ d\<rparr>) = Some ?t1"
    using loop_frames [OF assms(1), of got left r1 "t\<lparr>tb_reassembly_buffer := r @ d\<rparr>" at_once sender]
      s(1,2,4) Cons.prems(1,6) by simp
  then have d: "data_received_cb lib at_once sender d t = Some ?t1"
    using Cons.prems(2,5) by (simp add: data_received_cb_def)
  define rest where "rest = arrived (length (r1 @ concat ds)) left"
  have "length (r @ concat (d # ds)) = length (concat got) + length (r1 @ concat ds)"
    using arg_cong [OF s(2), of length] by simp
  then have all: "arrived (length (r @ concat (d # ds))) fs = got @ rest"
    unfolding rest_def s(1) by (simp only: arrived_append)
  have "\<exists>r' left'. feed_tube lib at_once sender ds ?t1 = Some ((fold (message_received lib sender) rest ?t1)
        \<lparr>tb_reassembly_buffer := r', tb_reassembly_bytes_needed := waiting_size r' left'\<rparr>)
      \<and> left = rest @ left' \<and> r1 @ concat ds = concat rest @ r' \<and> r' @ later = concat left' \<and> partial r' left'"
    unfolding rest_def using s Cons.prems(1,2) by (intro Cons.IH) auto
  then obtain r' left' where f: "feed_tube lib at_once sender ds ?t1 = Some ((fold (message_received lib sender) rest ?t1)
        \<lparr>tb_reassembly_buffer := r', tb_reassembly_bytes_needed := waiting_size r' left'\<rparr>)"
    "left = rest @ left'" "r1 @ concat ds = concat rest @ r'" "r' @ later = concat left'" "partial r' left'"
    by blast
  show ?case
    unfolding all using d f s(1,2)
    by (intro exI [of _ r'] exI [of _ left']) (simp, metis append.assoc)
qed

section \<open>Delivery to the local application\<close>

definition decoded :: "'m dbus_lib \<Rightarrow> bytes \<Rightarrow> 'm list" where
  "decoded lib f = (case dbus_message_demarshal lib f of None \<Rightarrow> [] | Some m \<Rightarrow> [m])"

text \<open>A tube to a contact no application has connected to, with nothing received.\<close>

definition idle_tube :: "'m tube \<Rightarrow> bool" where
  "idle_tube t \<longleftrightarrow> \<not> tb_room t \<and> \<not> tb_dbus_conn t \<and> tb_dbus_msg_queue t = [] \<and> tb_dbus_msg_queue_size t = 0
     \<and> tb_reassembly_buffer t = [] \<and> tb_reassembly_bytes_needed t = 0"

lemma messages_queued:
  assumes "\<not> tb_room t" "\<not> tb_dbus_conn t" "tb_dbus_msg_queue_size t + length (concat ms) \<le> MAX_QUEUE_SIZE"
  shows "tb_dbus_msg_queue (fold (message_received lib sender) ms t) =
      rev (concat (map (decoded lib) ms)) @ tb_dbus_msg_queue t
    \<and> tb_trace (fold (message_received lib sender) ms t) = tb_trace t"
  using assms
proof (induction ms arbitrary: t)
  case (Cons f ms)
  let ?t = "message_received lib sender f t"
  have t: "tb_dbus_msg_queue ?t = decoded lib f @ tb_dbus_msg_queue t" "tb_trace ?t = tb_trace t"
    "tb_dbus_msg_queue_size ?t \<le> tb_dbus_msg_queue_size t + length f"
    using Cons.prems by (auto simp: message_received_def decoded_def split: option.split)
  have p: "\<not> tb_room ?t" "\<not> tb_dbus_conn ?t" "tb_dbus_msg_queue_size ?t + length (concat ms) \<le> MAX_QUEUE_SIZE"
    using Cons.prems t(3) by simp_all
  have d: "rev (decoded lib f) = decoded lib f" by (simp add: decoded_def split: option.split)
  show ?case using Cons.IH [OF p] t d by simp
qed simp

lemma messages_delivered:
  assumes "\<not> tb_room t" "tb_dbus_conn t"
  shows "tb_trace (fold (message_received lib sender) ms t) =
      tb_trace t @ map TB_deliver (concat (map (decoded lib) ms))
    \<and> tb_dbus_msg_queue (fold (message_received lib sender) ms t) = tb_dbus_msg_queue t"
  using assms
proof (induction ms arbitrary: t)
  case (Cons f ms)
  let ?t = "message_received lib sender f t"
  have t: "tb_trace ?t = tb_trace t @ map TB_deliver (decoded lib f)" "tb_dbus_msg_queue ?t = tb_dbus_msg_queue t"
    using Cons.prems by (auto simp: message_received_def decoded_def tb_emit_def split: option.split)
  have p: "\<not> tb_room ?t" "tb_dbus_conn ?t" using Cons.prems by simp_all
  show ?case using Cons.IH [OF p] t by simp
qed simp

lemma partial_Nil [simp]: "\<forall>f \<in> set fs. f \<noteq> [] \<Longrightarrow> partial [] fs"
  by (auto simp: partial_def split: list.split)

lemma arrived_all: "arrived (length (concat fs)) fs = fs"
  using arrived_append [of fs 0 "[]"] by simp

text \<open>C26. A D-Bus tube to a contact neither loses, reorders nor merges messages. However the byte stream of
  the peer's messages is cut into pieces, with some of them arriving before the local application
  connects (up to the 4 MB the queue holds) and the rest after, the application gets exactly the messages
  that can be demarshalled, in the order they were sent, and nothing is left behind. The messages may be
  little-endian, or big-endian with lengths whose second lowest byte is 0.\<close>

theorem tube_delivers_messages:
  assumes "dbus_limits lib" "\<forall>f \<in> set ms. dbus_frame lib f \<and> be_short f" "idle_tube t"
    and "concat (before @ after) = concat ms" "length (concat before) \<le> MAX_QUEUE_SIZE"
  shows "\<exists>t1 t2. feed_tube lib at_once sender before t = Some t1
    \<and> feed_tube lib at_once sender after (tube_new_connection_cb t1) = Some t2
    \<and> tb_trace t2 = tb_trace t @ map TB_deliver (concat (map (decoded lib) ms))
    \<and> tb_dbus_msg_queue t2 = [] \<and> tb_reassembly_buffer t2 = []"
proof -
  have ne: "\<forall>f \<in> set ms. f \<noteq> []" using assms(2) by (auto simp: dbus_frame_def)
  have i: "\<not> tb_room t" "\<not> tb_dbus_conn t" "tb_dbus_msg_queue t = []" "tb_dbus_msg_queue_size t = 0"
    "tb_reassembly_buffer t = []" "tb_reassembly_bytes_needed t = waiting_size [] ms"
    using assms(3) by (simp_all add: idle_tube_def waiting_size_def)
  define got where "got = arrived (length (concat before)) ms"
  let ?t = "fold (message_received lib sender) got t"
  obtain r left where f: "feed_tube lib at_once sender before t =
      Some (?t\<lparr>tb_reassembly_buffer := r, tb_reassembly_bytes_needed := waiting_size r left\<rparr>)"
    "ms = got @ left" "concat before = concat got @ r" "r @ concat after = concat left" "partial r left"
    using feed_tube_frames [OF assms(1,2) i(1), of "[]" before "concat after" at_once sender, unfolded append_Nil,
        folded got_def, OF _ partial_Nil [OF ne] i(5,6)] assms(4) unfolding concat_append by blast
  define t1 where "t1 = ?t\<lparr>tb_reassembly_buffer := r, tb_reassembly_bytes_needed := waiting_size r left\<rparr>"
  have "tb_dbus_msg_queue_size t + length (concat got) \<le> MAX_QUEUE_SIZE" using assms(5) f(3) i(4) by simp
  note q = messages_queued [OF i(1,2) this, of lib sender]
  have t1: "\<not> tb_room t1" "\<not> tb_dbus_conn t1" "tb_dbus_msg_queue t1 = rev (concat (map (decoded lib) got))"
    "tb_trace t1 = tb_trace t" "tb_reassembly_buffer t1 = r" "tb_reassembly_bytes_needed t1 = waiting_size r left"
    using q i(1-3) by (simp_all add: t1_def)
  let ?t2 = "tube_new_connection_cb t1"
  have t2: "\<not> tb_room ?t2" "tb_dbus_conn ?t2" "tb_dbus_msg_queue ?t2 = []"
    "tb_trace ?t2 = tb_trace t @ map TB_deliver (concat (map (decoded lib) got))"
    "tb_reassembly_buffer ?t2 = r" "tb_reassembly_bytes_needed ?t2 = waiting_size r left"
    using t1 by (simp_all add: tube_new_connection_cb_def)
  have l: "\<forall>f \<in> set left. dbus_frame lib f \<and> be_short f" using assms(2) f(2) by auto
  have "arrived (length (r @ concat after)) left = left" using f(4) by (simp add: arrived_all)
  with feed_tube_frames [OF assms(1) l t2(1), of r after "[]" at_once sender] f(4,5) t2(5,6)
  have "feed_tube lib at_once sender after ?t2 = Some ((fold (message_received lib sender) left ?t2)
      \<lparr>tb_reassembly_buffer := [], tb_reassembly_bytes_needed := 0\<rparr>)"
    by (auto simp: waiting_size_def)
  moreover note messages_delivered [OF t2(1,2), of lib sender left]
  ultimately show ?thesis using f(1,2) t2(3,4) by (auto simp: t1_def [symmetric])
qed

text \<open>Messages that are their own marshalled form, and a little-endian message with a body of one byte.\<close>

definition example_lib :: "bytes dbus_lib" where
  "example_lib = \<lparr>dbus_message_demarshal = Some, dbus_message_marshal = Some,
     dbus_message_get_sender = (\<lambda>_. Some ''a''), dbus_message_get_destination = (\<lambda>_. None),
     dbus_message_set_sender = (\<lambda>_ m. Some m), dbus_disconnected = (\<lambda>_. False),
     DBUS_MAXIMUM_MESSAGE_LENGTH = 134217728, DBUS_MAXIMUM_ARRAY_LENGTH = 67108864\<rparr>"

definition example_message :: bytes where
  "example_message = [108, 0, 0, 1, 1, 0, 0, 0, 0, 0, 0, 0, 0, 0, 0, 0, 7]"

definition example_tube :: "bytes tube" where
  "example_tube = \<lparr>tb_room = False, tb_self_handle = 1, tb_bytestream = Some GABBLE_BYTESTREAM_STATE_OPEN,
     tb_access_control = TP_SOCKET_ACCESS_CONTROL_CREDENTIALS, tb_offered = True, tb_dbus_local_name = None,
     tb_dbus_srv = True, tb_dbus_conn = False, tb_dbus_msg_queue = [], tb_dbus_msg_queue_size = 0,
     tb_dbus_names = [], tb_dbus_name_to_handle = [], tb_reassembly_buffer = [], tb_reassembly_bytes_needed = 0,
     tb_dispose_has_run = False, tb_trace = []\<rparr>"

lemma example_tube_facts:
  "dbus_limits example_lib" "dbus_frame example_lib example_message" "be_short example_message"
  "idle_tube example_tube"
  by (simp_all add: dbus_limits_def example_lib_def dbus_frame_def example_message_def header_lengths_def
      DBUS_BIG_ENDIAN_def DBUS_LITTLE_ENDIAN_def le_number_def pad_8_def be_short_def idle_tube_def example_tube_def)

theorem tube_delivers_messages_witness:
  "\<exists>t1 t2. feed_tube example_lib True 2 [take 5 example_message] example_tube = Some t1
     \<and> feed_tube example_lib True 2 [drop 5 example_message @ example_message] (tube_new_connection_cb t1) = Some t2
     \<and> tb_trace t2 = [TB_deliver example_message, TB_deliver example_message]"
proof -
  have "decoded example_lib f = [f]" for f by (simp add: decoded_def example_lib_def)
  moreover have "tb_trace example_tube = []" "length example_message = 17"
    by (simp_all add: example_tube_def example_message_def)
  ultimately show ?thesis
    using tube_delivers_messages [of example_lib "[example_message, example_message]" example_tube
      "[take 5 example_message]" "[drop 5 example_message @ example_message]" True 2] example_tube_facts
    by (auto simp: MAX_QUEUE_SIZE_def simp del: feed_tube.simps)
qed

section \<open>Headers that are misread\<close>

text \<open>The fields of a received header of a tube that waits for one.\<close>

lemma loop_at_header:
  assumes "\<not> tb_room t" "tb_reassembly_buffer t = []" "tb_reassembly_bytes_needed t = 0" "16 \<le> length f"
    and "message_lengths f = Some (body, m)"
  shows "data_received_cb lib at_once sender f t =
    (let t2 = t\<lparr>tb_reassembly_buffer := f, tb_reassembly_bytes_needed := params_padded m + body + 16\<rparr>
     in if \<not> (params_padded m mod 8 = 0 \<and> m \<le> params_padded m \<and> params_padded m < m + 8) then None
        else if DBUS_MAXIMUM_MESSAGE_LENGTH lib < body \<or> DBUS_MAXIMUM_ARRAY_LENGTH lib < params_padded m
             \<or> DBUS_MAXIMUM_MESSAGE_LENGTH lib < params_padded m + body + 16
        then Some (gabble_tube_dbus_close at_once t2)
        else if params_padded m + body + 16 = 0 then None
        else data_received_loop lib at_once sender t2)"
  using assms by (subst data_received_cb_def, subst data_received_loop.simps) (simp add: Let_def)

lemma padding_overflows:
  fixes m :: guint
  assumes "4294967288 \<le> unat m"
  shows "\<not> (m \<le> params_padded m \<and> params_padded m < m + 8)"
proof -
  have "unat m < 4294967296" using unsigned_less [of m, where ?'a = nat] by simp
  with assms have "unat m \<in> {4294967288, 4294967289, 4294967290, 4294967291, 4294967292, 4294967293, 4294967294, 4294967295}"
    by auto
  then have "m \<in> {4294967288, 4294967289, 4294967290, 4294967291, 4294967292, 4294967293, 4294967294, 4294967295}"
    by (auto simp: word_unat_eq_iff)
  then show ?thesis by (auto simp: params_padded_def)
qed

text \<open>C40. A peer can abort the process with 16 bytes: the assertions on the padded length of the header fields
  come before the check that the length is within the limits of D-Bus, and a length of \<open>2 ^ 32 - 8\<close> or more
  makes the padding overflow.\<close>

theorem tube_header_aborts:
  assumes "\<not> tb_room t" "tb_reassembly_buffer t = []" "tb_reassembly_bytes_needed t = 0"
    and "16 \<le> length f" "f ! 0 = DBUS_LITTLE_ENDIAN" "2 ^ 32 - 8 \<le> le_number (drop 12 f)"
  shows "data_received_cb lib at_once sender f t = None"
proof -
  have ml: "message_lengths f = Some (collect_le32 (drop 4 f), collect_le32 (drop 12 f))"
    using assms(5) by (simp add: message_lengths_def DBUS_LITTLE_ENDIAN_def DBUS_BIG_ENDIAN_def)
  have "4294967288 \<le> unat (collect_le32 (drop 12 f))" using assms(6) by (simp add: collect_le32)
  from padding_overflows [OF this] show ?thesis
    by (auto simp: loop_at_header [OF assms(1-4) ml] Let_def)
qed

theorem tube_header_aborts_witness:
  "data_received_cb example_lib True 2
     [108, 0, 0, 1, 0, 0, 0, 0, 0, 0, 0, 0, 255, 255, 255, 255] example_tube = None"
  by (rule tube_header_aborts)
    (simp_all add: example_tube_def DBUS_LITTLE_ENDIAN_def le_number_def)

text \<open>C0. \<open>collect_be32\<close> shifts the third byte by 24 instead of 8. A whole, valid big-endian message with a body
  of 256 to 65535 bytes and no header fields is therefore not delivered, even when the application is
  connected: the tube waits for more than 16 million bytes that never come, or closes.\<close>

theorem tube_big_endian_stalls:
  assumes "dbus_frame lib f" "f ! 0 = DBUS_BIG_ENDIAN" "header_lengths f = Some (n, 0)" "256 \<le> n" "n < 65536"
    and "\<not> tb_room t" "tb_reassembly_buffer t = []" "tb_reassembly_bytes_needed t = 0"
  shows "\<exists>t'. data_received_cb lib at_once sender f t = Some t'
    \<and> 2 ^ 24 < unat (tb_reassembly_bytes_needed t') \<and> length f < 2 ^ 24
    \<and> (\<forall>m. TB_deliver m \<in> set (tb_trace t') \<longrightarrow> TB_deliver m \<in> set (tb_trace t))"
proof -
  have len: "16 \<le> length f" "length f = 16 + n" using assms(1,3) by (auto simp: dbus_frame_def pad_8_def)
  have n: "n = be_number (drop 4 f)" "be_number (drop 12 f) = 0"
    using assms(2,3) by (simp_all add: header_lengths_def)
  let ?b = "drop 4 f"
  have b: "unat (?b ! 0) = 0" "unat (?b ! 1) = 0"
    using n(1) assms(5) unfolding be_number_def by linarith+
  have b3: "0 < unat (?b ! 2)"
    using n(1) assms(4) unat_byte [of "?b ! 3"] b unfolding be_number_def by linarith
  have "collect_be32 (drop 4 f) = collect_le32 [?b ! 3, 0, 0, ?b ! 2]"
    using b(1,2) by (simp add: collect_be32_def collect_le32_def or.commute unat_eq_0)
  then have body: "unat (collect_be32 ?b) = unat (?b ! 3) + 2 ^ 24 * unat (?b ! 2)"
    by (simp add: collect_le32 le_number_def)
  have "collect_be32 (drop 12 f) = 0"
    using n(2) by (simp add: be_number_def collect_be32_def unat_eq_0)
  then have ml: "message_lengths f = Some (collect_be32 ?b, 0)"
    using assms(2) by (simp add: message_lengths_def)
  let ?w = "collect_be32 ?b + 16"
  have "unat (?b ! 3) + 2 ^ 24 * unat (?b ! 2) + 16 < 2 ^ 32"
    using unat_byte [of "?b ! 2"] unat_byte [of "?b ! 3"] by simp
  then have w: "unat ?w = unat (?b ! 3) + 2 ^ 24 * unat (?b ! 2) + 16"
    using body by (simp add: unat_word_ariths)
  then have big: "2 ^ 24 < unat ?w" "length f < 2 ^ 24" "?w \<noteq> 0" using b3 len(2) assms(5) by auto
  let ?t = "t\<lparr>tb_reassembly_buffer := f, tb_reassembly_bytes_needed := ?w\<rparr>"
  have "data_received_loop lib at_once sender ?t = Some ?t" using big(1,2) by (intro loop_wait) simp
  then have "data_received_cb lib at_once sender f t \<in> {Some (gabble_tube_dbus_close at_once ?t), Some ?t}"
    using big(3) by (simp add: loop_at_header [OF assms(6-8) len(1) ml] Let_def params_padded_def)
  moreover have "tb_reassembly_bytes_needed (gabble_tube_dbus_close at_once ?t) = ?w"
    "TB_deliver m \<in> set (tb_trace (gabble_tube_dbus_close at_once ?t)) \<Longrightarrow> TB_deliver m \<in> set (tb_trace t)" for m
    by (auto simp: gabble_tube_dbus_close_def close_bytestream_def tube_bytestream_closed_def tb_emit_def Let_def
        split: if_splits)
  ultimately show ?thesis using big(1,2) by auto
qed


theorem tube_big_endian_stalls_witness:
  "\<exists>t'. data_received_cb example_lib True 2
       ([66, 0, 0, 1, 0, 0, 1, 0, 0, 0, 0, 0, 0, 0, 0, 0] @ replicate 256 0) example_tube = Some t'
     \<and> 2 ^ 24 < unat (tb_reassembly_bytes_needed t') \<and> (\<forall>m. TB_deliver m \<notin> set (tb_trace t'))"
proof -
  let ?f = "[66, 0, 0, 1, 0, 0, 1, 0, 0, 0, 0, 0, 0, 0, 0, 0] @ replicate 256 0 :: bytes"
  have h: "header_lengths ?f = Some (256, 0)" "?f ! 0 = DBUS_BIG_ENDIAN"
    by (simp_all add: header_lengths_def DBUS_BIG_ENDIAN_def be_number_def)
  then have f: "dbus_frame example_lib ?f"
    unfolding dbus_frame_def h(1) by (simp add: pad_8_def example_lib_def)
  have t: "\<not> tb_room example_tube" "tb_reassembly_buffer example_tube = []"
    "tb_reassembly_bytes_needed example_tube = 0" "tb_trace example_tube = []"
    by (simp_all add: example_tube_def)
  from tube_big_endian_stalls [OF f h(2,1) _ _ t(1-3), of True 2] t(4) show ?thesis by auto
qed

end
