(* ===== verification/Tube_Room.thy ===== *)
theory Tube_Room
  imports Tube_Reassembly
begin

text \<open>
  D-Bus tubes in a room: the tables of D-Bus names stay consistent whatever happens, as the interpretation
  \<open>tube_room\<close> of \<open>safe_system\<close> sums up, and no participant can send in the name of another.
\<close>

section \<open>Names in a room\<close>

text \<open>What happens to a tube in a room after it was created.\<close>

datatype 'm room_op =
    Room_add_name nat string
  | Room_remove_name nat
  | Room_data nat bytes
  | Room_local 'm
  | Room_connect
  | Room_state GabbleBytestreamState
  | Room_accept
  | Room_close
  | Room_dispose

definition room_step :: "'m dbus_lib \<Rightarrow> tube_env \<Rightarrow> 'm room_op \<Rightarrow> 'm tube \<Rightarrow> 'm tube option" where
  "room_step lib env ev t =
     (case ev of
        Room_add_name h n \<Rightarrow> map_option snd (gabble_tube_dbus_add_name (te_gen env) (te_nick_of env) h n t)
      | Room_remove_name h \<Rightarrow> map_option snd (gabble_tube_dbus_remove_name h t)
      | Room_data h d \<Rightarrow> data_received_cb lib (te_at_once env) h d t
      | Room_local m \<Rightarrow> Some (filter_cb lib m t)
      | Room_connect \<Rightarrow> Some (tube_new_connection_cb t)
      | Room_state st \<Rightarrow> bytestream_state_changed_cb env st t
      | Room_accept \<Rightarrow> map_option snd (gabble_tube_dbus_accept env t)
      | Room_close \<Rightarrow> Some (gabble_tube_dbus_close (te_at_once env) t)
      | Room_dispose \<Rightarrow> Some (gabble_tube_dbus_dispose (te_at_once env) t))"

text \<open>The surroundings know a name for every member; the bytestream changes state and the tube is accepted only
  while it has one; after disposal nothing happens but, possibly, another disposal.\<close>

definition room_legal :: "tube_env \<Rightarrow> 'm room_op \<Rightarrow> 'm tube \<Rightarrow> bool" where
  "room_legal env ev t \<longleftrightarrow>
     (case ev of
        Room_add_name h n \<Rightarrow> (case te_nick_of env h of None \<Rightarrow> False | Some nick \<Rightarrow> te_gen env nick \<noteq> None)
      | Room_state st \<Rightarrow> tb_bytestream t \<noteq> None
      | Room_accept \<Rightarrow> tb_bytestream t \<noteq> None
      | _ \<Rightarrow> True)
     \<and> (ev = Room_dispose \<or> \<not> tb_dispose_has_run t)"

definition room_inv :: "tube_env \<Rightarrow> 'm tube \<Rightarrow> bool" where
  "room_inv env t \<longleftrightarrow> tb_room t
     \<and> distinct (map fst (tb_dbus_names t)) \<and> distinct (map fst (tb_dbus_name_to_handle t))
     \<and> set (tb_dbus_name_to_handle t) = prod.swap ` set (tb_dbus_names t)
     \<and> (tb_dispose_has_run t \<or> tb_dbus_local_name t \<noteq> None)
     \<and> (case te_nick_of env (tb_self_handle t) of None \<Rightarrow> False | Some nick \<Rightarrow> te_gen env nick \<noteq> None)"

lemma names_lengths: "room_inv env t \<Longrightarrow> length (tb_dbus_names t) = length (tb_dbus_name_to_handle t)"
  unfolding room_inv_def
  by (metis card_image distinct_card distinct_map inj_on_subset inj_swap subset_UNIV)

lemma names_inverse:
  assumes "room_inv env t"
  shows "map_of (tb_dbus_names t) h = Some n \<longleftrightarrow> map_of (tb_dbus_name_to_handle t) n = Some h"
proof -
  have "map_of (tb_dbus_names t) h = Some n \<longleftrightarrow> (h, n) \<in> set (tb_dbus_names t)"
    "map_of (tb_dbus_name_to_handle t) n = Some h \<longleftrightarrow> (n, h) \<in> set (tb_dbus_name_to_handle t)"
    using assms by (simp_all add: room_inv_def)
  then show ?thesis using assms by (auto simp: room_inv_def)
qed

lemma update_new: "map_of al k = None \<Longrightarrow> AList.update k v al = al @ [(k, v)]"
  by (induction al) (auto split: if_splits)

lemma names_added:
  assumes "room_inv env t" "map_of (tb_dbus_names t) h = None" "map_of (tb_dbus_name_to_handle t) n = None"
  shows "room_inv env (t\<lparr>tb_dbus_names := AList.update h n (tb_dbus_names t),
      tb_dbus_name_to_handle := AList.update n h (tb_dbus_name_to_handle t)\<rparr>)"
  using assms by (auto simp: room_inv_def update_new map_of_eq_None_iff)

lemma names_removed:
  assumes "room_inv env t" "map_of (tb_dbus_names t) h = Some n"
  shows "room_inv env (t\<lparr>tb_dbus_name_to_handle := AList.delete n (tb_dbus_name_to_handle t),
      tb_dbus_names := AList.delete h (tb_dbus_names t)\<rparr>)"
proof -
  have d: "distinct (map fst (tb_dbus_names t))" "distinct (map fst (tb_dbus_name_to_handle t))"
    and s: "set (tb_dbus_name_to_handle t) = prod.swap ` set (tb_dbus_names t)"
    using assms(1) by (simp_all add: room_inv_def)
  have "(h, n) \<in> set (tb_dbus_names t)" using assms(2) by (rule map_of_SomeD)
  then have k: "(h, b) \<in> set (tb_dbus_names t) \<Longrightarrow> b = n" "(a, n) \<in> set (tb_dbus_names t) \<Longrightarrow> a = h" for a b
    using d s by (metis eq_key_imp_eq_value, metis eq_key_imp_eq_value imageI swap_simp)
  have "set (AList.delete n (tb_dbus_name_to_handle t)) = prod.swap ` set (AList.delete h (tb_dbus_names t))"
    using s by (auto simp: AList.delete_eq image_iff dest: k)
  with assms(1) show ?thesis by (auto simp: room_inv_def distinct_delete)
qed

lemma emit_room_inv [simp]:
  "room_inv env (tb_emit e t) = room_inv env t"
  "room_inv env (t\<lparr>tb_bytestream := b\<rparr>) = room_inv env t"
  "room_inv env (t\<lparr>tb_dbus_srv := c\<rparr>) = room_inv env t"
  by (simp_all add: room_inv_def tb_emit_def)

text \<open>What no operation but \<open>dispose\<close> changes.\<close>

lemma add_name_safe:
  assumes "room_inv env t" "\<exists>nick. te_nick_of env h = Some nick \<and> te_gen env nick \<noteq> None"
  shows "\<exists>ok t'. gabble_tube_dbus_add_name (te_gen env) (te_nick_of env) h n t = Some (ok, t') \<and> room_inv env t'"
proof (cases "map_of (tb_dbus_names t) h = None \<and> map_of (tb_dbus_name_to_handle t) n = None")
  case True
  then have "room_inv env (t\<lparr>tb_dbus_names := AList.update h n (tb_dbus_names t),
      tb_dbus_name_to_handle := AList.update n h (tb_dbus_name_to_handle t)\<rparr>)"
    using assms(1) by (intro names_added) auto
  moreover have "tb_room t" using assms(1) by (simp add: room_inv_def)
  ultimately show ?thesis
    using True assms names_lengths [OF assms(1)]
    by (auto simp: gabble_tube_dbus_add_name_def Let_def simp del: map_of_eq_None_iff)
next
  case False
  moreover have "tb_room t" using assms(1) by (simp add: room_inv_def)
  ultimately show ?thesis
    using assms names_lengths [OF assms(1)]
    by (auto simp: gabble_tube_dbus_add_name_def Let_def simp del: map_of_eq_None_iff)
qed

lemma remove_name_safe:
  assumes "room_inv env t"
  shows "\<exists>ok t'. gabble_tube_dbus_remove_name h t = Some (ok, t') \<and> room_inv env t'"
proof (cases "map_of (tb_dbus_names t) h")
  case None
  then show ?thesis using assms by (auto simp: gabble_tube_dbus_remove_name_def room_inv_def)
next
  case (Some n)
  from names_removed [OF assms this] names_lengths [OF names_removed [OF assms this]] Some assms
  show ?thesis by (intro exI [of _ True]) (simp add: gabble_tube_dbus_remove_name_def Let_def room_inv_def tb_emit_def)
qed


lemma close_room_inv: "room_inv env t \<Longrightarrow> room_inv env (gabble_tube_dbus_close at_once t)"
  by (simp add: gabble_tube_dbus_close_def close_bytestream_def tube_bytestream_closed_def Let_def)

lemma close_keeps:
  "tb_self_handle (gabble_tube_dbus_close at_once t) = tb_self_handle t"
  "tb_dbus_local_name (gabble_tube_dbus_close at_once t) = tb_dbus_local_name t"
  by (simp_all add: gabble_tube_dbus_close_def close_bytestream_def tube_bytestream_closed_def tb_emit_def Let_def)

lemma tube_open_safe:
  assumes "room_inv env t" "\<not> tb_dispose_has_run t"
  shows "\<exists>t'. tube_dbus_open env t = Some t' \<and> room_inv env t'"
proof -
  obtain ok t1 where t1: "create_dbus_server (te_listens env) t = (ok, t1)" by (cases "create_dbus_server (te_listens env) t")
  then have "room_inv env t1" "tb_self_handle t1 = tb_self_handle t" "tb_dbus_local_name t1 = tb_dbus_local_name t"
    using assms(1) by (auto simp: create_dbus_server_def split: if_splits)
  define t2 where "t2 = (if ok then t1 else gabble_tube_dbus_close (te_at_once env) t1)"
  have t2: "room_inv env t2" "tb_self_handle t2 = tb_self_handle t" "tb_dbus_local_name t2 = tb_dbus_local_name t"
    using \<open>room_inv env t1\<close> \<open>tb_self_handle t1 = _\<close> \<open>tb_dbus_local_name t1 = _\<close>
    by (auto simp: t2_def close_room_inv close_keeps)
  obtain name where name: "tb_dbus_local_name t2 = Some name" using assms t2(3) by (auto simp: room_inv_def)
  have r: "tb_room t2" using t2(1) by (simp add: room_inv_def)
  have "\<exists>nick. te_nick_of env (tb_self_handle t2) = Some nick \<and> te_gen env nick \<noteq> None"
    using assms(1) t2(2) by (auto simp: room_inv_def split: option.splits)
  from add_name_safe [OF t2(1) this, of name] obtain b t3 where
    "gabble_tube_dbus_add_name (te_gen env) (te_nick_of env) (tb_self_handle t2) name t2 = Some (b, t3)" "room_inv env t3"
    by blast
  with name r show ?thesis by (simp add: tube_dbus_open_def t1 Let_def flip: t2_def)
qed

lemma state_changed_safe:
  assumes "room_inv env t" "\<not> tb_dispose_has_run t"
  shows "\<exists>t'. bytestream_state_changed_cb env st t = Some t' \<and> room_inv env t'"
  using assms tube_open_safe [of env "t\<lparr>tb_bytestream := Some st\<rparr>"]
  by (auto simp: bytestream_state_changed_cb_def tube_bytestream_closed_def Let_def)

lemma message_room_inv: "room_inv env t \<Longrightarrow> room_inv env (message_received lib h d t)"
  by (auto simp: message_received_def room_inv_def tb_emit_def split: option.split)

lemma create_server_inv: "create_dbus_server ls t = (ok, t1) \<Longrightarrow> room_inv env t \<Longrightarrow> room_inv env t1"
  by (auto simp: create_dbus_server_def split: if_splits)

lemma room_step_safe:
  assumes "room_inv env t" "room_legal env ev t"
  shows "\<exists>t'. room_step lib env ev t = Some t' \<and> room_inv env t'"
proof (cases ev)
  case (Room_add_name h n)
  with add_name_safe [OF assms(1), of h n] assms(2) show ?thesis
    by (auto simp: room_step_def room_legal_def split: option.splits)
next
  case (Room_remove_name h)
  with remove_name_safe [OF assms(1), of h] show ?thesis by (auto simp: room_step_def)
next
  case (Room_data h d)
  have "tb_room t" using assms(1) by (simp add: room_inv_def)
  with Room_data message_room_inv [OF assms(1)] show ?thesis by (simp add: room_step_def data_received_cb_def)
next
  case (Room_local m)
  have "room_inv env (filter_cb lib m t)"
    using assms(1) by (auto simp: filter_cb_def room_inv_def tb_emit_def Let_def split: option.split)
  with Room_local show ?thesis by (simp add: room_step_def)
next
  case Room_connect
  then show ?thesis using assms(1) by (auto simp: room_step_def tube_new_connection_cb_def room_inv_def)
next
  case (Room_state st)
  with state_changed_safe [OF assms(1)] assms(2) show ?thesis by (simp add: room_step_def room_legal_def)
next
  case Room_accept
  then have p: "tb_bytestream t \<noteq> None" "\<not> tb_dispose_has_run t" "tb_room t"
    using assms by (simp_all add: room_inv_def room_legal_def)
  let ?t = "tb_emit TB_bytestream_open t"
  have d: "\<not> tb_dispose_has_run ?t" using p(2) by (simp add: tb_emit_def)
  obtain t1 where "bytestream_state_changed_cb env GABBLE_BYTESTREAM_STATE_OPEN ?t = Some t1" "room_inv env t1"
    using state_changed_safe [of env ?t GABBLE_BYTESTREAM_STATE_OPEN] assms(1) d by auto
  moreover obtain ok t2 where "create_dbus_server (te_listens env) t1 = (ok, t2)" by fastforce
  moreover note create_server_inv [OF this \<open>room_inv env t1\<close>]
  ultimately show ?thesis
    using Room_accept p assms(1) by (auto simp: room_step_def gabble_tube_dbus_accept_def)
next
  case Room_close
  then show ?thesis using close_room_inv [OF assms(1)] by (simp add: room_step_def)
next
  case Room_dispose
  then show ?thesis
    using assms(1) by (auto simp: room_step_def gabble_tube_dbus_dispose_def close_bytestream_def
        tube_bytestream_closed_def room_inv_def tb_emit_def Let_def)
qed

interpretation tube_room: safe_system "room_legal env" "room_step lib env" "room_inv env"
  by unfold_locales (rule room_step_safe)

lemma constructed_room_inv:
  assumes "gabble_tube_dbus_constructed env True self initiated requested = Some t"
  shows "room_inv env t"
  using assms
  by (auto simp: gabble_tube_dbus_constructed_def tube_set_bytestream_def room_inv_def Let_def
      split: if_splits bind_splits)

lemma message_in_room:
  assumes "tb_room t" "message_received lib h d t \<noteq> t"
  obtains m where "dbus_message_demarshal lib d = Some m"
    "tb_trace (message_received lib h d t) = tb_trace t @ [TB_deliver m]
      \<or> tb_dbus_msg_queue (message_received lib h d t) = m # tb_dbus_msg_queue t"
    "dbus_message_get_destination lib m \<in> {None, tb_dbus_local_name t}"
    "map_of (tb_dbus_names t) h = dbus_message_get_sender lib m"
proof -
  obtain m where m: "dbus_message_demarshal lib d = Some m"
    using assms(2) by (cases "dbus_message_demarshal lib d") (auto simp: message_received_def)
  have d: "dbus_message_get_destination lib m \<in> {None, tb_dbus_local_name t}"
    "map_of (tb_dbus_names t) h = dbus_message_get_sender lib m"
    using assms m by (auto simp: message_received_def tp_strdiff_def split: if_splits)
  moreover have "tb_trace (message_received lib h d t) = tb_trace t @ [TB_deliver m]
      \<or> tb_dbus_msg_queue (message_received lib h d t) = m # tb_dbus_msg_queue t"
    using assms m d by (auto simp: message_received_def tp_strdiff_def tb_emit_def split: if_splits)
  ultimately show thesis using that m by blast
qed



definition example_tube_env :: tube_env where
  "example_tube_env = \<lparr>te_listens = [True], te_at_once = True, te_gen = Some, te_nick_of = (\<lambda>h. Some ''nick''),
     te_accept_sent = True\<rparr>"


end
