(* ===== verification/Socks5_Proxies.thy ===== *)
theory Socks5_Proxies
  imports Bytestream_Socks5 "HOL-Library.Multiset"
begin

text \<open>
  The SOCKS5 proxies the bytestream factory knows (\<open>src/bytestream-factory.c\<close>): proxies discovered on
  the server, a bounded cache of fallback proxies, and the list of potential proxies that are asked for
  their address one after the other.

  \<open>socks5_potential_proxies\<close> is a linked list and \<open>next_query\<close> points to one of its cells, so a cell is
  an address with the JID it holds; reading a cell that is no longer in the list is a use after free and
  gives \<open>None\<close>. The outcome of \<open>g_random_int_range\<close> and the current time are arguments.
\<close>

definition NB_MIN_SOCKS5_PROXIES :: nat where
  "NB_MIN_SOCKS5_PROXIES = 3"

definition FALLBACK_PROXY_CACHE_SIZE :: nat where
  "FALLBACK_PROXY_CACHE_SIZE = 5"

definition PROXIES_LIST_LIFE_TIME :: int where
  "PROXIES_LIST_LIFE_TIME = 6 * 60 * 60"

datatype proxy_event =
    PX_query string bool
  | PX_request_list

type_synonym cell = "nat \<times> string"

record proxy_cache =
  px_socks5_proxies :: "GabbleSocks5Proxy list"
  px_fallback_proxies :: "GabbleSocks5Proxy list"
  px_potential_proxies :: "cell list"
  px_next_query :: "nat option"
  px_list_stamp :: int
  px_fresh :: nat
  px_trace :: "proxy_event list"

definition proxy_cache_init :: proxy_cache where
  "proxy_cache_init =
     \<lparr>px_socks5_proxies = [], px_fallback_proxies = [], px_potential_proxies = [],
      px_next_query = None, px_list_stamp = 0, px_fresh = 0, px_trace = []\<rparr>"

definition px_emit :: "proxy_event \<Rightarrow> proxy_cache \<Rightarrow> proxy_cache" where
  "px_emit e c = c\<lparr>px_trace := px_trace c @ [e]\<rparr>"

text \<open>Streamhosts are identified by their JID.\<close>

definition cmp_proxy :: "GabbleSocks5Proxy \<Rightarrow> GabbleSocks5Proxy \<Rightarrow> bool" where
  "cmp_proxy a b \<longleftrightarrow> sh_jid a = sh_jid b"

definition add_to_proxy_list :: "bool \<Rightarrow> GabbleSocks5Proxy \<Rightarrow> GabbleSocks5Proxy list \<Rightarrow> GabbleSocks5Proxy list"
  where
  "add_to_proxy_list fallback proxy list =
     (proxy #
       (if find (cmp_proxy proxy) list \<noteq> None then delete_first (cmp_proxy proxy) list
        else if fallback \<and> FALLBACK_PROXY_CACHE_SIZE \<le> length list then butlast list
        else list))"

definition add_proxy_to_list :: "GabbleSocks5Proxy \<Rightarrow> bool \<Rightarrow> proxy_cache \<Rightarrow> proxy_cache" where
  "add_proxy_to_list proxy fallback c =
     (if fallback
      then c\<lparr>px_fallback_proxies := add_to_proxy_list True proxy (px_fallback_proxies c)\<rparr>
      else c\<lparr>px_socks5_proxies := add_to_proxy_list False proxy (px_socks5_proxies c)\<rparr>)"

definition send_proxy_query :: "string \<Rightarrow> bool \<Rightarrow> proxy_cache \<Rightarrow> proxy_cache" where
  "send_proxy_query jid fallback c = px_emit (PX_query jid fallback) c"

definition disco_item_found_cb :: "cstring \<Rightarrow> cstring \<Rightarrow> string \<Rightarrow> proxy_cache \<Rightarrow> proxy_cache" where
  "disco_item_found_cb category type jid c =
     (if tp_strdiff category (Some ''proxy'') \<or> tp_strdiff type (Some ''bytestreams'') then c
      else send_proxy_query jid False c)"

text \<open>The cell an address points to, and the cell behind it (\<open>g_slist_next\<close>).\<close>

primrec cell_after :: "nat \<Rightarrow> cell list \<Rightarrow> (string \<times> nat option) option" where
  "cell_after a [] = None"
| "cell_after a (x # xs) =
     (if fst x = a then Some (snd x, map_option fst (if xs = [] then None else Some (hd xs)))
      else cell_after a xs)"

definition first_cell :: "cell list \<Rightarrow> nat option" where
  "first_cell xs = (if xs = [] then None else Some (fst (hd xs)))"

text \<open>The loop of \<open>query_proxies\<close>.\<close>

primrec query_proxies_loop :: "nat \<Rightarrow> proxy_cache \<Rightarrow> proxy_cache option" where
  "query_proxies_loop 0 c = Some c"
| "query_proxies_loop (Suc n) c =
     do { a \<leftarrow> (case px_next_query c of None \<Rightarrow> first_cell (px_potential_proxies c) | Some a \<Rightarrow> Some a);
          (jid, next) \<leftarrow> cell_after a (px_potential_proxies c);
          query_proxies_loop n ((send_proxy_query jid True c)\<lparr>px_next_query := next\<rparr>) }"

definition query_proxies :: "nat \<Rightarrow> proxy_cache \<Rightarrow> proxy_cache option" where
  "query_proxies nb_proxies_needed c =
     query_proxies_loop (min nb_proxies_needed (length (px_potential_proxies c))) c"

definition get_proxies_list :: "proxy_cache \<Rightarrow> proxy_cache" where
  "get_proxies_list c = px_emit PX_request_list c"

definition gabble_bytestream_factory_query_socks5_proxies :: "int \<Rightarrow> proxy_cache \<Rightarrow> proxy_cache option" where
  "gabble_bytestream_factory_query_socks5_proxies now c =
     (if px_potential_proxies c = [] then Some (get_proxies_list c)
      else
        let c1 = (if now - px_list_stamp c > PROXIES_LIST_LIFE_TIME then get_proxies_list c else c);
            nb_proxies_found = length (px_socks5_proxies c1) + length (px_fallback_proxies c1);
            nb_proxies_needed = (if NB_MIN_SOCKS5_PROXIES \<le> nb_proxies_found then 1
                                 else NB_MIN_SOCKS5_PROXIES - nb_proxies_found)
        in query_proxies nb_proxies_needed c1)"

text \<open>\<open>is_error\<close> is what \<open>wocky_stanza_extract_errors\<close> returns for the reply. The fallback proxy that did
  not answer as it should is taken off the list of potential proxies, and another one is asked.\<close>

definition parse_proxy_reply :: "bool \<Rightarrow> WockyNode \<Rightarrow> GabbleSocks5Proxy option" where
  "parse_proxy_reply is_error reply =
     (if wocky_node_get_attribute reply ''from'' = None \<or> is_error then None
      else
        do { query \<leftarrow> wocky_node_get_child_ns reply (Some ''query'') (Some NS_BYTESTREAMS);
             streamhost \<leftarrow> wocky_node_get_child query ''streamhost'';
             jid \<leftarrow> wocky_node_get_attribute streamhost ''jid'';
             host \<leftarrow> wocky_node_get_attribute streamhost ''host'';
             portstr \<leftarrow> wocky_node_get_attribute streamhost ''port'';
             let port = fst (strtol portstr)
             in if port \<le> 0 \<or> port > 65535 then None
                else Some \<lparr>sh_jid = jid, sh_host = host, sh_port = word_of_int port\<rparr> })"

definition socks5_proxy_query_reply_cb :: "bool \<Rightarrow> bool \<Rightarrow> WockyNode \<Rightarrow> proxy_cache \<Rightarrow> proxy_cache option" where
  "socks5_proxy_query_reply_cb fallback is_error reply c =
     (case parse_proxy_reply is_error reply of
        Some proxy \<Rightarrow> Some (add_proxy_to_list proxy fallback c)
      | None \<Rightarrow>
          let c1 = (case wocky_node_get_attribute reply ''from'' of
                      Some from \<Rightarrow>
                        if fallback
                        then c\<lparr>px_potential_proxies :=
                                 delete_first (\<lambda>x. snd x = from) (px_potential_proxies c)\<rparr>
                        else c
                    | None \<Rightarrow> c)
          in query_proxies 1 c1)"

text \<open>\<open>i\<close> is the outcome of \<open>g_random_int_range (0, len)\<close>.\<close>

definition randomize_g_slist :: "nat \<Rightarrow> 'a list \<Rightarrow> 'a list" where
  "randomize_g_slist i list =
     (if length list \<le> 1 then list else if i = 0 then list else drop i list @ take i list)"

text \<open>A list of JIDs, copied into new cells one after the other, each put in front of the list.\<close>

primrec prepend_cells :: "string list \<Rightarrow> nat \<Rightarrow> cell list \<Rightarrow> cell list" where
  "prepend_cells [] a cells = cells"
| "prepend_cells (jid # jids) a cells = prepend_cells jids (Suc a) ((a, jid) # cells)"

text \<open>\<open>items\<close> are the children named \<open>item\<close> of the discovery result.\<close>

definition proxies_disco_cb :: "bool \<Rightarrow> WockyNode list \<Rightarrow> int \<Rightarrow> nat \<Rightarrow> proxy_cache \<Rightarrow> proxy_cache option"
  where
  "proxies_disco_cb error items now i c =
     (if error then Some c
      else
        let jids = List.map_filter (\<lambda>node. wocky_node_get_attribute node ''jid'') items;
            new_list = prepend_cells jids (px_fresh c) [];
            c1 = c\<lparr>px_list_stamp := now, px_fresh := px_fresh c + length jids\<rparr>
        in if new_list = [] then Some c1
           else
             let cells = randomize_g_slist i new_list
             in gabble_bytestream_factory_query_socks5_proxies now
                  (c1\<lparr>px_potential_proxies := cells, px_next_query := first_cell cells\<rparr>))"

text \<open>\<open>conn_status_changed_cb\<close> once the connection is \<open>CONNECTED\<close>; \<open>jids\<close> is the connection's property
  \<open>fallback-socks5-proxies\<close>.\<close>

definition conn_status_changed_cb :: "string list \<Rightarrow> nat \<Rightarrow> proxy_cache \<Rightarrow> proxy_cache" where
  "conn_status_changed_cb jids i c =
     (let cells = randomize_g_slist i (prepend_cells jids (px_fresh c) (px_potential_proxies c))
      in c\<lparr>px_potential_proxies := cells, px_next_query := first_cell cells,
           px_fresh := px_fresh c + length jids\<rparr>)"

definition gabble_bytestream_factory_get_socks5_proxies :: "proxy_cache \<Rightarrow> GabbleSocks5Proxy list" where
  "gabble_bytestream_factory_get_socks5_proxies c = px_socks5_proxies c @ px_fallback_proxies c"

section \<open>The operations as one step function\<close>

datatype proxy_op =
    PX_ItemFound cstring cstring string
  | PX_Reply bool bool WockyNode
  | PX_Disco bool "WockyNode list" int nat
  | PX_Connected "string list" nat
  | PX_Query int

fun px_step :: "proxy_op \<Rightarrow> proxy_cache \<Rightarrow> proxy_cache option" where
  "px_step (PX_ItemFound category type jid) c = Some (disco_item_found_cb category type jid c)"
| "px_step (PX_Reply fallback is_error reply) c = socks5_proxy_query_reply_cb fallback is_error reply c"
| "px_step (PX_Disco error items now i) c = proxies_disco_cb error items now i c"
| "px_step (PX_Connected jids i) c = Some (conn_status_changed_cb jids i c)"
| "px_step (PX_Query now) c = gabble_bytestream_factory_query_socks5_proxies now c"

text \<open>The replies after which the code is safe: a fallback proxy that does not answer as it should is not
  the one \<open>next_query\<close> points to.\<close>

fun px_legal :: "proxy_op \<Rightarrow> proxy_cache \<Rightarrow> bool" where
  "px_legal (PX_Reply fallback is_error reply) c \<longleftrightarrow>
     \<not> (fallback \<and> parse_proxy_reply is_error reply = None
        \<and> (\<exists>x. find (\<lambda>x. Some (snd x) = wocky_node_get_attribute reply ''from'')
                (px_potential_proxies c) = Some x
             \<and> px_next_query c = Some (fst x)))"
| "px_legal _ c \<longleftrightarrow> True"

definition px_inv :: "proxy_cache \<Rightarrow> bool" where
  "px_inv c \<longleftrightarrow>
     distinct (map sh_jid (px_socks5_proxies c))
     \<and> distinct (map sh_jid (px_fallback_proxies c))
     \<and> length (px_fallback_proxies c) \<le> FALLBACK_PROXY_CACHE_SIZE
     \<and> (\<forall>p \<in> set (px_socks5_proxies c) \<union> set (px_fallback_proxies c). sh_port p \<noteq> 0)
     \<and> distinct (map fst (px_potential_proxies c))
     \<and> (\<forall>x \<in> set (px_potential_proxies c). fst x < px_fresh c)
     \<and> (\<forall>a. px_next_query c = Some a \<longrightarrow> a \<in> fst ` set (px_potential_proxies c))"

section \<open>The cache stays bounded and the pointer stays valid\<close>

lemma delete_first_subset: "set (delete_first P xs) \<subseteq> set xs"
  by (induction xs) auto

lemma delete_first_distinct: "distinct (map f xs) \<Longrightarrow> distinct (map f (delete_first P xs))"
proof (induction xs)
  case (Cons x xs)
  then show ?case using delete_first_subset [of P xs] by auto
qed simp

lemma length_delete_first:
  "find P xs \<noteq> None \<Longrightarrow> Suc (length (delete_first P xs)) = length xs"
  by (induction xs) (auto split: if_splits)

lemma delete_first_key:
  assumes "distinct (map f xs)" shows "k \<notin> f ` set (delete_first (\<lambda>x. k = f x) xs)"
  using assms by (induction xs) auto

lemma add_to_proxy_list_ok:
  assumes "distinct (map sh_jid xs)"
  shows "distinct (map sh_jid (add_to_proxy_list fb p xs))"
    and "set (add_to_proxy_list fb p xs) \<subseteq> insert p (set xs)"
    and "length xs \<le> FALLBACK_PROXY_CACHE_SIZE \<Longrightarrow>
      length (add_to_proxy_list True p xs) \<le> FALLBACK_PROXY_CACHE_SIZE"
proof -
  let ?P = "cmp_proxy p"
  have P: "?P = (\<lambda>x. sh_jid p = sh_jid x)" by (simp add: cmp_proxy_def fun_eq_iff)
  have absent: "find ?P xs = None \<Longrightarrow> sh_jid p \<notin> sh_jid ` set xs"
    by (auto simp: find_None_all cmp_proxy_def)
  have "distinct (map sh_jid (butlast xs))"
    using assms by (simp add: map_butlast distinct_butlast)
  then show "distinct (map sh_jid (add_to_proxy_list fb p xs))"
    using assms absent delete_first_distinct [OF assms, of ?P] delete_first_key [OF assms, of "sh_jid p"]
    by (auto simp: add_to_proxy_list_def P dest: in_set_butlastD)
  show "set (add_to_proxy_list fb p xs) \<subseteq> insert p (set xs)"
    using delete_first_subset [of ?P xs] by (auto simp: add_to_proxy_list_def dest: in_set_butlastD)
  show "length (add_to_proxy_list True p xs) \<le> FALLBACK_PROXY_CACHE_SIZE"
    if "length xs \<le> FALLBACK_PROXY_CACHE_SIZE"
    using that length_delete_first [of ?P xs]
    by (auto simp: add_to_proxy_list_def FALLBACK_PROXY_CACHE_SIZE_def)
qed

lemma px_emit_fields [simp]:
  "px_socks5_proxies (px_emit e c) = px_socks5_proxies c"
  "px_fallback_proxies (px_emit e c) = px_fallback_proxies c"
  "px_potential_proxies (px_emit e c) = px_potential_proxies c"
  "px_next_query (px_emit e c) = px_next_query c"
  "px_list_stamp (px_emit e c) = px_list_stamp c"
  "px_fresh (px_emit e c) = px_fresh c"
  "px_trace (px_emit e c) = px_trace c @ [e]"
  by (simp_all add: px_emit_def)

lemma px_inv_init: "px_inv proxy_cache_init"
  by (simp add: px_inv_def proxy_cache_init_def)

lemma px_inv_emit [simp]: "px_inv (px_emit e c) = px_inv c"
  by (simp add: px_inv_def)

lemma add_proxy_inv:
  assumes "px_inv c" "sh_port p \<noteq> 0" shows "px_inv (add_proxy_to_list p fb c)"
  using assms add_to_proxy_list_ok(1,2) [of "px_fallback_proxies c" fb p]
    add_to_proxy_list_ok(3) [of "px_fallback_proxies c" p]
    add_to_proxy_list_ok(1,2) [of "px_socks5_proxies c" fb p]
  by (cases fb) (auto simp: px_inv_def add_proxy_to_list_def)

lemma parse_proxy_port: "parse_proxy_reply e r = Some p \<Longrightarrow> sh_port p \<noteq> 0"
proof -
  have "0 < i \<Longrightarrow> i \<le> 65535 \<Longrightarrow> word_of_int i \<noteq> (0 :: guint16)" for i :: int
  proof
    assume i: "0 < i" "i \<le> 65535" and z: "word_of_int i = (0 :: guint16)"
    then have "uint (word_of_int i :: guint16) = 0" by simp
    with i show False by (simp add: uint_word_of_int)
  qed
  then show "parse_proxy_reply e r = Some p \<Longrightarrow> sh_port p \<noteq> 0"
    by (auto simp: parse_proxy_reply_def Let_def split: if_splits bind_splits)
qed

text \<open>One round of queries: the proxies are asked in the order of the list, from the pointer on, and the
  pointer is left behind the last one asked.\<close>

definition rest_from :: "proxy_cache \<Rightarrow> cell list" where
  "rest_from c = (case px_next_query c of
      None \<Rightarrow> px_potential_proxies c
    | Some a \<Rightarrow> dropWhile (\<lambda>x. fst x \<noteq> a) (px_potential_proxies c))"

lemma cell_after_split:
  "distinct (map fst (xs @ (a, jid) # ys)) \<Longrightarrow>
   cell_after a (xs @ (a, jid) # ys) = Some (jid, first_cell ys)"
  by (induction xs) (auto simp: first_cell_def)

lemma rest_from_next:
  assumes "distinct (map fst (xs @ (a, jid) # ys))" "px_potential_proxies c = xs @ (a, jid) # ys"
    "px_next_query c = first_cell ys"
  shows "rest_from c = (if ys = [] then px_potential_proxies c else ys)"
proof (cases ys)
  case (Cons y zs)
  with assms(1) have "\<forall>x \<in> set (xs @ [(a, jid)]). fst x \<noteq> fst y" by (auto simp: image_iff)
  then have "dropWhile (\<lambda>x. fst x \<noteq> fst y) ((xs @ [(a, jid)]) @ y # zs) = y # zs"
    by (subst dropWhile_append2) auto
  with Cons assms(2,3) show ?thesis by (simp add: rest_from_def first_cell_def)
qed (use assms in \<open>simp add: rest_from_def first_cell_def\<close>)

lemma rest_from_suffix:
  assumes "px_inv c" obtains xs where "px_potential_proxies c = xs @ rest_from c"
    "px_potential_proxies c \<noteq> [] \<Longrightarrow> rest_from c \<noteq> []"
    "case px_next_query c of None \<Rightarrow> xs = [] | Some a \<Rightarrow> rest_from c \<noteq> [] \<and> fst (hd (rest_from c)) = a"
proof (cases "px_next_query c")
  case None
  with that [of "[]"] show thesis by (simp add: rest_from_def)
next
  case (Some a)
  let ?P = "\<lambda>x :: cell. fst x \<noteq> a"
  from Some assms have "a \<in> fst ` set (px_potential_proxies c)" by (auto simp: px_inv_def)
  then have "dropWhile ?P (px_potential_proxies c) \<noteq> []" by (auto simp: dropWhile_eq_Nil_conv)
  moreover from hd_dropWhile [OF this] have "fst (hd (dropWhile ?P (px_potential_proxies c))) = a" by simp
  ultimately show thesis using Some that [of "takeWhile ?P (px_potential_proxies c)"]
    by (simp add: rest_from_def)
qed

lemma query_step:
  assumes "px_inv c" and ne: "px_potential_proxies c \<noteq> []"
  obtains c1 where "query_proxies_loop (Suc n) c = query_proxies_loop n c1" "px_inv c1"
    "px_potential_proxies c1 = px_potential_proxies c"
    "px_trace c1 = px_trace c @ [PX_query (snd (hd (rest_from c))) True]"
    "rest_from c1 = (if tl (rest_from c) = [] then px_potential_proxies c else tl (rest_from c))"
    "px_socks5_proxies c1 = px_socks5_proxies c" "px_fallback_proxies c1 = px_fallback_proxies c"
proof -
  from rest_from_suffix [OF assms(1)] obtain xs where xs: "px_potential_proxies c = xs @ rest_from c"
    "rest_from c \<noteq> []"
    "case px_next_query c of None \<Rightarrow> xs = [] | Some a \<Rightarrow> rest_from c \<noteq> [] \<and> fst (hd (rest_from c)) = a"
    using ne by metis
  then obtain a jid ys where r: "rest_from c = (a, jid) # ys" by (cases "rest_from c") auto
  with xs assms(1) have d: "distinct (map fst (xs @ (a, jid) # ys))"
    and p: "px_potential_proxies c = xs @ (a, jid) # ys"
    by (simp_all add: px_inv_def)
  have a: "(case px_next_query c of None \<Rightarrow> first_cell (px_potential_proxies c) | Some a \<Rightarrow> Some a) = Some a"
    using xs(3) r p by (auto simp: first_cell_def split: option.splits)
  let ?c = "(send_proxy_query jid True c)\<lparr>px_next_query := first_cell ys\<rparr>"
  have "query_proxies_loop (Suc n) c = query_proxies_loop n ?c"
    using cell_after_split [OF d] by (simp add: a p)
  moreover have "px_inv ?c" using assms(1) p
    by (auto simp: px_inv_def send_proxy_query_def first_cell_def split: if_splits)
  moreover have "rest_from ?c = (if tl (rest_from c) = [] then px_potential_proxies c else tl (rest_from c))"
    using rest_from_next [OF d, of ?c] r p by (simp add: send_proxy_query_def)
  ultimately show thesis using that [of ?c] r by (simp add: send_proxy_query_def)
qed

lemma query_loop:
  assumes "px_inv c" "n \<le> length (px_potential_proxies c)"
  obtains c' where "query_proxies_loop n c = Some c'" "px_inv c'"
    "px_potential_proxies c' = px_potential_proxies c"
    "px_socks5_proxies c' = px_socks5_proxies c" "px_fallback_proxies c' = px_fallback_proxies c"
    "px_trace c' = px_trace c @
       map (\<lambda>x. PX_query (snd x) True) (take n (rest_from c @ px_potential_proxies c))"
proof -
  have "\<exists>c'. query_proxies_loop n c = Some c' \<and> px_inv c'
      \<and> px_potential_proxies c' = px_potential_proxies c
      \<and> px_socks5_proxies c' = px_socks5_proxies c \<and> px_fallback_proxies c' = px_fallback_proxies c
      \<and> px_trace c' = px_trace c @
         map (\<lambda>x. PX_query (snd x) True) (take n (rest_from c @ px_potential_proxies c))"
    using assms
  proof (induction n arbitrary: c)
    case (Suc n)
    then have ne: "px_potential_proxies c \<noteq> []" by auto
    from rest_from_suffix [OF Suc.prems(1)] ne have r: "rest_from c \<noteq> []" by metis
    obtain c1 where c1: "query_proxies_loop (Suc n) c = query_proxies_loop n c1" "px_inv c1"
      "px_potential_proxies c1 = px_potential_proxies c"
      "px_trace c1 = px_trace c @ [PX_query (snd (hd (rest_from c))) True]"
      "rest_from c1 = (if tl (rest_from c) = [] then px_potential_proxies c else tl (rest_from c))"
      "px_socks5_proxies c1 = px_socks5_proxies c" "px_fallback_proxies c1 = px_fallback_proxies c"
      using query_step [OF Suc.prems(1) ne] by metis
    have "take (Suc n) (rest_from c @ px_potential_proxies c) =
        hd (rest_from c) # take n (rest_from c1 @ px_potential_proxies c1)"
      using r c1(3,5) Suc.prems(2) by (cases "rest_from c") auto
    moreover from Suc.IH [of c1] c1(2,3) Suc.prems(2) obtain c' where
      "query_proxies_loop n c1 = Some c'" "px_inv c'" "px_potential_proxies c' = px_potential_proxies c1"
      "px_socks5_proxies c' = px_socks5_proxies c1" "px_fallback_proxies c' = px_fallback_proxies c1"
      "px_trace c' = px_trace c1 @
         map (\<lambda>x. PX_query (snd x) True) (take n (rest_from c1 @ px_potential_proxies c1))"
      by auto
    ultimately show ?case using c1 by simp
  qed simp
  with that show thesis by blast
qed

lemma query_proxies_safe:
  assumes "px_inv c" obtains c' where "query_proxies n c = Some c'" "px_inv c'"
  using query_loop [OF assms, of "min n (length (px_potential_proxies c))"] that
  by (auto simp: query_proxies_def)

lemma query_socks5_proxies_safe:
  assumes "px_inv c"
  obtains c' where "gabble_bytestream_factory_query_socks5_proxies now c = Some c'" "px_inv c'"
proof (cases "px_potential_proxies c = []")
  case True
  with assms that show thesis
    by (simp add: gabble_bytestream_factory_query_socks5_proxies_def get_proxies_list_def)
next
  case False
  let ?c = "if now - px_list_stamp c > PROXIES_LIST_LIFE_TIME then get_proxies_list c else c"
  have "px_inv ?c" using assms by (simp add: get_proxies_list_def)
  from query_proxies_safe [OF this] that False show thesis
    by (metis gabble_bytestream_factory_query_socks5_proxies_def)
qed

lemma prepend_cells_fst:
  "map fst (prepend_cells jids a cells) = rev [a..<a + length jids] @ map fst cells"
proof (induction jids arbitrary: a cells)
  case (Cons j js)
  have "[a..<a + length (j # js)] = a # [Suc a..<Suc a + length js]"
    by (subst upt_conv_Cons) auto
  with Cons show ?case by simp
qed simp

lemma randomize_perm: "mset (randomize_g_slist i xs) = mset xs"
proof -
  have "mset (drop i xs @ take i xs) = mset (take i xs @ drop i xs)"
    by (simp only: mset_append add.commute)
  then show ?thesis by (simp add: randomize_g_slist_def)
qed

lemma new_cells_inv:
  assumes "px_inv c" "cells0 = [] \<or> cells0 = px_potential_proxies c"
    and "cells = randomize_g_slist i (prepend_cells jids (px_fresh c) cells0)"
    and "px_potential_proxies c' = cells" "px_next_query c' = first_cell cells"
    and "px_fresh c' = px_fresh c + length jids"
    and "px_socks5_proxies c' = px_socks5_proxies c" "px_fallback_proxies c' = px_fallback_proxies c"
  shows "px_inv c'"
proof -
  let ?new = "prepend_cells jids (px_fresh c) cells0"
  have m: "mset (map fst cells) = mset (map fst ?new)" by (simp add: assms(3) randomize_perm)
  have old: "distinct (map fst cells0)" "\<forall>x \<in> set cells0. fst x < px_fresh c"
    using assms(1,2) by (auto simp: px_inv_def)
  then have "distinct (map fst ?new)" by (auto simp: prepend_cells_fst)
  then have d: "distinct (map fst cells)" using m mset_eq_imp_distinct_iff by metis
  have "set (map fst cells) = set (map fst ?new)" using m mset_eq_setD by blast
  also have "\<dots> \<subseteq> {..<px_fresh c + length jids}" using old(2) by (auto simp: prepend_cells_fst)
  finally have "\<forall>x \<in> set cells. fst x < px_fresh c + length jids" by auto
  with d assms(1) show ?thesis by (auto simp: px_inv_def first_cell_def assms(4-))
qed

lemma delete_cell_inv:
  assumes "px_inv c" "px_potential_proxies c' = delete_first P (px_potential_proxies c)"
    "\<not> (\<exists>x. find P (px_potential_proxies c) = Some x \<and> px_next_query c = Some (fst x))"
    "px_next_query c' = px_next_query c" "px_fresh c' = px_fresh c"
    "px_socks5_proxies c' = px_socks5_proxies c" "px_fallback_proxies c' = px_fallback_proxies c"
  shows "px_inv c'"
proof -
  have keep: "y \<in> set (delete_first P xs)" if "y \<in> set xs" "find P xs \<noteq> Some y" for y and xs :: "cell list"
    using that by (induction xs) (auto split: if_splits)
  have "a \<in> fst ` set (delete_first P (px_potential_proxies c))" if "px_next_query c = Some a" for a
  proof -
    from that assms(1) obtain x where "x \<in> set (px_potential_proxies c)" "fst x = a"
      by (auto simp: px_inv_def)
    with keep [of x "px_potential_proxies c"] assms(3) that show ?thesis by (metis imageI)
  qed
  with assms delete_first_distinct [of fst "px_potential_proxies c" P]
    delete_first_subset [of P "px_potential_proxies c"]
  show ?thesis by (auto simp: px_inv_def)
qed

lemma proxy_reply_safe:
  assumes "px_inv c" "px_legal (PX_Reply fb e r) c"
  obtains c' where "socks5_proxy_query_reply_cb fb e r c = Some c'" "px_inv c'"
proof (cases "parse_proxy_reply e r")
  case (Some p)
  with that add_proxy_inv [OF assms(1) parse_proxy_port [OF Some]] show thesis
    by (simp add: socks5_proxy_query_reply_cb_def)
next
  case None
  define c1 where "c1 = (case wocky_node_get_attribute r ''from'' of
      Some from \<Rightarrow> if fb then c\<lparr>px_potential_proxies :=
          delete_first (\<lambda>x. snd x = from) (px_potential_proxies c)\<rparr> else c
    | None \<Rightarrow> c)"
  have "px_inv c1"
  proof (cases "fb \<and> wocky_node_get_attribute r ''from'' \<noteq> None")
    case True
    then obtain jid where f: "wocky_node_get_attribute r ''from'' = Some jid" "fb" by auto
    show ?thesis
      by (rule delete_cell_inv [OF assms(1), where P = "\<lambda>x. snd x = jid"])
        (use f None assms(2) in \<open>auto simp: c1_def\<close>)
  qed (use assms(1) in \<open>auto simp: c1_def split: option.split\<close>)
  from query_proxies_safe [OF this, of 1] that None show thesis
    by (auto simp: socks5_proxy_query_reply_cb_def c1_def Let_def)
qed

interpretation px_sys: safe_system px_legal px_step px_inv
proof
  fix c x
  assume inv: "px_inv c" and legal: "px_legal x c"
  show "\<exists>c'. px_step x c = Some c' \<and> px_inv c'"
  proof (cases x)
    case (PX_ItemFound category type jid)
    with inv show ?thesis by (simp add: disco_item_found_cb_def send_proxy_query_def)
  next
    case (PX_Reply fb e r)
    with proxy_reply_safe [OF inv] legal show ?thesis by (metis px_step.simps(2))
  next
    case (PX_Disco error items now i)
    let ?jids = "List.map_filter (\<lambda>node. wocky_node_get_attribute node ''jid'') items"
    let ?cells = "randomize_g_slist i (prepend_cells ?jids (px_fresh c) [])"
    have "px_inv (c\<lparr>px_list_stamp := now, px_fresh := px_fresh c + length ?jids\<rparr>)"
      using inv by (force simp: px_inv_def)
    moreover have "px_inv (c\<lparr>px_list_stamp := now, px_fresh := px_fresh c + length ?jids,
        px_potential_proxies := ?cells, px_next_query := first_cell ?cells\<rparr>)"
      by (rule new_cells_inv [OF inv, of "[]" _ i ?jids]) simp_all
    ultimately show ?thesis using PX_Disco query_socks5_proxies_safe inv
      by (simp add: proxies_disco_cb_def Let_def) metis
  next
    case (PX_Connected jids i)
    then show ?thesis
      using new_cells_inv [OF inv, of "px_potential_proxies c" _ i jids]
      by (simp add: conn_status_changed_cb_def Let_def)
  next
    case (PX_Query now)
    with query_socks5_proxies_safe [OF inv, of now] show ?thesis by auto
  qed
qed

section \<open>Properties\<close>

text \<open>C32. The proxy lists never get out of hand. Whatever proxies are discovered, asked and answer, in any
  order, as long as no failing fallback proxy is the one to be asked next: the code does not touch a
  freed list cell, the cache of fallback proxies holds at most five entries, neither list has two
  entries for a JID, every known port is usable, and a proxy that answered last is the first of its
  list.\<close>

theorem proxy_cache_bounded:
  assumes "legal_run px_legal px_step es proxy_cache_init"
  shows "\<exists>c. run px_step es proxy_cache_init = Some c
    \<and> length (px_fallback_proxies c) \<le> FALLBACK_PROXY_CACHE_SIZE
    \<and> distinct (map sh_jid (px_socks5_proxies c)) \<and> distinct (map sh_jid (px_fallback_proxies c))
    \<and> (\<forall>p \<in> set (gabble_bytestream_factory_get_socks5_proxies c). sh_port p \<noteq> 0)
    \<and> (\<forall>e r p. parse_proxy_reply e r = Some p \<longrightarrow>
         (\<exists>c'. px_step (PX_Reply True e r) c = Some c' \<and> hd (px_fallback_proxies c') = p
            \<and> length (px_fallback_proxies c') \<le> FALLBACK_PROXY_CACHE_SIZE))"
proof -
  from px_sys.run_safe [OF px_inv_init assms] obtain c where
    c: "run px_step es proxy_cache_init = Some c" "px_inv c" by blast
  have "length (add_to_proxy_list True p (px_fallback_proxies c)) \<le> FALLBACK_PROXY_CACHE_SIZE" for p
    using c(2) by (intro add_to_proxy_list_ok(3)) (simp_all add: px_inv_def)
  moreover have "hd (add_to_proxy_list True p xs) = p" for p xs by (simp add: add_to_proxy_list_def)
  ultimately show ?thesis using c
    by (simp add: px_inv_def gabble_bytestream_factory_get_socks5_proxies_def
        socks5_proxy_query_reply_cb_def add_proxy_to_list_def)
qed

text \<open>Queries go round the list of potential proxies: a request for \<open>n\<close> more proxies asks
  \<open>min n (length potential)\<close> of them, starting with the one after the last one asked and in the order of
  the list, so none is asked twice for one request, and a request for at least as many as there are asks
  every one of them exactly once.\<close>

theorem proxy_round_robin:
  assumes "px_inv c" and "L = px_potential_proxies c"
  shows "\<exists>c' k. query_proxies n c = Some c' \<and> px_inv c' \<and> px_potential_proxies c' = L
    \<and> (case px_next_query c of None \<Rightarrow> k = 0 | Some a \<Rightarrow> k < length L \<and> fst (L ! k) = a)
    \<and> px_trace c' = px_trace c @ map (\<lambda>x. PX_query (snd x) True) (take n (rotate k L))
    \<and> distinct (map fst (take n (rotate k L)))
    \<and> (length L \<le> n \<longrightarrow> mset (map snd (take n (rotate k L))) = mset (map snd L))"
proof -
  obtain xs where xs: "L = xs @ rest_from c"
    "case px_next_query c of None \<Rightarrow> xs = [] | Some a \<Rightarrow> rest_from c \<noteq> [] \<and> fst (hd (rest_from c)) = a"
    using rest_from_suffix [OF assms(1)] assms(2) by metis
  obtain c' where c': "query_proxies n c = Some c'" "px_inv c'" "px_potential_proxies c' = L"
    "px_trace c' = px_trace c @ map (\<lambda>x. PX_query (snd x) True) (take (min n (length L)) (rest_from c @ L))"
    using query_loop [OF assms(1), of "min n (length L)"] assms(2) by (auto simp: query_proxies_def)
  have r: "rotate (length xs) L = rest_from c @ xs" by (simp add: xs(1) rotate_append)
  then have "take (min n (length L)) (rest_from c @ L) = take n (rotate (length xs) L)"
    by (simp add: xs(1) min_def)
  moreover have "distinct (map fst (rotate (length xs) L))"
    using assms by (simp add: px_inv_def rotate_map [symmetric])
  then have "distinct (map fst (take n (rotate (length xs) L)))" by (simp add: take_map [symmetric])
  moreover have "mset (map snd (rotate (length xs) L)) = mset (map snd L)" unfolding r by (simp add: xs(1))
  moreover have "case px_next_query c of None \<Rightarrow> length xs = 0
      | Some a \<Rightarrow> length xs < length L \<and> fst (L ! length xs) = a"
    using xs(2) by (auto simp: xs(1) nth_append hd_conv_nth split: option.splits)
  ultimately show ?thesis using c' by (intro exI [of _ c'] exI [of _ "length xs"]) simp
qed

text \<open>Four fallback proxies, and their replies.\<close>

definition example_cache :: proxy_cache where
  "example_cache = conn_status_changed_cb [''d'', ''c'', ''b'', ''a''] 0 proxy_cache_init"

definition proxy_error_reply :: "string \<Rightarrow> WockyNode" where
  "proxy_error_reply jid =
     WockyNode ''iq'' None (Some ''jabber:client'')
       [\<lparr>attr_key = ''from'', attr_value = jid, attr_ns = None\<rparr>] []"

definition proxy_good_reply :: "string \<Rightarrow> WockyNode" where
  "proxy_good_reply jid =
     WockyNode ''iq'' None (Some ''jabber:client'')
       [\<lparr>attr_key = ''from'', attr_value = jid, attr_ns = None\<rparr>]
       [WockyNode ''query'' None (Some NS_BYTESTREAMS) []
         [WockyNode ''streamhost'' None (Some NS_BYTESTREAMS)
            [\<lparr>attr_key = ''jid'', attr_value = jid, attr_ns = None\<rparr>,
             \<lparr>attr_key = ''host'', attr_value = ''h'', attr_ns = None\<rparr>,
             \<lparr>attr_key = ''port'', attr_value = ''1080'', attr_ns = None\<rparr>] []]]"

lemma example_cache_cells [simp]:
  "px_potential_proxies example_cache = [(3, ''a''), (2, ''b''), (1, ''c''), (0, ''d'')]"
  "px_next_query example_cache = Some 3" "px_fallback_proxies example_cache = []"
  "px_socks5_proxies example_cache = []" "px_trace example_cache = []" "px_fresh example_cache = 4"
  "px_list_stamp example_cache = 0"
  by (simp_all add: example_cache_def conn_status_changed_cb_def randomize_g_slist_def first_cell_def
      proxy_cache_init_def numeral_eq_Suc)

lemma proxy_error_reply_from [simp]:
  "wocky_node_get_attribute (proxy_error_reply jid) ''from'' = Some jid"
  "parse_proxy_reply True (proxy_error_reply jid) = None"
  by (simp_all add: proxy_error_reply_def wocky_node_defs parse_proxy_reply_def)

lemma proxy_good_reply_parsed:
  "parse_proxy_reply False (proxy_good_reply jid) =
     Some \<lparr>sh_jid = jid, sh_host = ''h'', sh_port = 1080\<rparr>"
proof -
  have "strtol ''1080'' = (1080, [])"
    by (simp add: strtol_def is_space_def is_digit_def digits_value_def LONG_MAX_def)
  then show ?thesis by (simp add: proxy_good_reply_def wocky_node_defs parse_proxy_reply_def)
qed

theorem proxy_cache_bounded_witness:
  "\<exists>c. run px_step [PX_Connected [''d'', ''c'', ''b'', ''a''] 0, PX_Query 0] proxy_cache_init = Some c
     \<and> length (px_fallback_proxies c) \<le> 5
     \<and> (\<exists>c'. px_step (PX_Reply True False (proxy_good_reply ''a'')) c = Some c'
          \<and> sh_port (hd (px_fallback_proxies c')) = 1080)"
proof -
  have "legal_run px_legal px_step [PX_Connected [''d'', ''c'', ''b'', ''a''] 0, PX_Query 0] proxy_cache_init"
    by (simp split: option.split)
  from proxy_cache_bounded [OF this] proxy_good_reply_parsed [of "''a''"]
  show ?thesis unfolding FALLBACK_PROXY_CACHE_SIZE_def by (metis Streamhost.select_convs(3))
qed

theorem proxy_round_robin_witness:
  "\<exists>c'. query_proxies 3 example_cache = Some c'
     \<and> px_trace c' = [PX_query ''a'' True, PX_query ''b'' True, PX_query ''c'' True]"
proof -
  have "px_inv example_cache" by (auto simp: px_inv_def)
  from proxy_round_robin [OF this refl, of 3] obtain c' k where
    "query_proxies 3 example_cache = Some c'" "k < Suc (Suc (Suc (Suc 0)))"
    "fst (px_potential_proxies example_cache ! k) = 3"
    "px_trace c' = map (\<lambda>x. PX_query (snd x) True) (take 3 (rotate k (px_potential_proxies example_cache)))"
    by auto
  moreover from this(2,3) have "k = 0" by (auto simp: less_Suc_eq)
  ultimately show ?thesis by simp
qed

text \<open>A fallback proxy can make the code read freed memory: when the proxy that is to be asked next
  answers an earlier query with an error, or with a reply that cannot be used, its cell is freed but
  \<open>next_query\<close> still points to it, and as long as another potential proxy is left \<open>query_proxies\<close> reads
  the cell at once.\<close>

theorem proxy_next_query_freed:
  assumes "px_inv c" and "px_next_query c = Some a" and "2 \<le> length (px_potential_proxies c)"
    and "wocky_node_get_attribute reply ''from'' = Some jid" and "parse_proxy_reply is_error reply = None"
    and "find (\<lambda>x. snd x = jid) (px_potential_proxies c) = Some (a, jid)"
  shows "socks5_proxy_query_reply_cb True is_error reply c = None"
proof -
  let ?L = "delete_first (\<lambda>x. snd x = jid) (px_potential_proxies c)"
  have "a \<notin> fst ` set (delete_first P xs)" if "distinct (map fst xs)" "find P xs = Some (a, jid)"
    for P and xs :: "cell list"
    using that by (induction xs) (fastforce simp: image_iff dest: find_Some_in split: if_splits)+
  with assms(1,6) have "a \<notin> fst ` set ?L" by (simp add: px_inv_def)
  moreover have "a \<notin> fst ` set xs \<Longrightarrow> cell_after a xs = None" for xs by (induction xs) auto
  ultimately have "cell_after a ?L = None" by blast
  moreover have "Suc 0 \<le> length ?L"
    using length_delete_first [of "\<lambda>x. snd x = jid" "px_potential_proxies c"] assms(3,6) by simp
  ultimately show ?thesis
    using assms(2,4,5) by (simp add: socks5_proxy_query_reply_cb_def query_proxies_def)
qed

theorem proxy_next_query_freed_witness:
  "run px_step [PX_Connected [''d'', ''c'', ''b'', ''a''] 0, PX_Query 0,
     PX_Reply True True (proxy_error_reply ''a''), PX_Reply True True (proxy_error_reply ''b''),
     PX_Reply True True (proxy_error_reply ''d'')] proxy_cache_init = None"
proof -
  let ?es = "[PX_Query 0, PX_Reply True True (proxy_error_reply ''a''),
     PX_Reply True True (proxy_error_reply ''b'')]"
  obtain c where c: "run px_step ?es example_cache = Some c"
    "px_potential_proxies c = [(1, ''c''), (0, ''d'')]" "px_next_query c = Some 0" "px_inv c"
    by (simp add: gabble_bytestream_factory_query_socks5_proxies_def query_proxies_def Let_def
        PROXIES_LIST_LIFE_TIME_def NB_MIN_SOCKS5_PROXIES_def send_proxy_query_def numeral_3_eq_3
        first_cell_def socks5_proxy_query_reply_cb_def px_inv_def)
  have "socks5_proxy_query_reply_cb True True (proxy_error_reply ''d'') c = None"
    by (rule proxy_next_query_freed [OF c(4,3), where jid = "''d''"]) (simp_all add: c)
  with c(1) run_append [of px_step ?es "[PX_Reply True True (proxy_error_reply ''d'')]" example_cache]
  have "run px_step (?es @ [PX_Reply True True (proxy_error_reply ''d'')]) example_cache = None" by simp
  then show ?thesis by (simp add: example_cache_def)
qed

end
