(* ===== verification/Request_Pipeline.thy ===== *)
theory Request_Pipeline
  imports Gabble_Prelude
begin

text \<open>
  The request pipeline (\<open>src/request-pipeline.c\<close>): IQ requests are queued, at most
  \<open>REQUEST_PIPELINE_SIZE\<close> of them are in flight at a time, and each request's callback is called with
  the reply or with an error (cancelled, timed out, disconnected, not sent).

  The heap of \<open>GabbleRequestPipelineItem\<close>s is the map \<open>rp_items\<close>, addresses are numbers drawn from a
  counter; the three lists of \<open>struct _GabbleRequestPipelinePrivate\<close> hold addresses. Reading an item
  that is not in the map is a use after free, the crash value \<open>None\<close>. The callbacks called and the
  messages sent are kept in the trace; a callback is not re-entrant. Whether
  \<open>_gabble_connection_send_with_reply\<close> succeeds for an item is given by \<open>sends\<close>.
\<close>

definition DEFAULT_REQUEST_TIMEOUT :: guint where
  "DEFAULT_REQUEST_TIMEOUT = 180"

definition REQUEST_PIPELINE_SIZE :: nat where
  "REQUEST_PIPELINE_SIZE = 10"

text \<open>What a callback is told: the reply, with the outcome of \<open>wocky_stanza_extract_errors\<close>, or the
  error that prevented one.\<close>

datatype rp_result =
    RP_reply bool
  | RP_cancelled
  | RP_timed_out
  | RP_disconnected
  | RP_not_sent

datatype rp_event = RP_sent nat | RP_callback nat rp_result

record rp_item =
  item_timer :: bool
  item_timeout :: guint
  item_in_flight :: bool
  item_zombie :: bool

record rp =
  rp_pending_items :: "nat list"
  rp_items_in_flight :: "nat list"
  rp_crypt_items :: "nat list"
  rp_dispose_has_run :: bool
  rp_items :: "nat \<rightharpoonup> rp_item"
  rp_next :: nat
  rp_idle :: nat
  rp_trace :: "rp_event list"

definition gabble_request_pipeline_init :: rp where
  "gabble_request_pipeline_init =
     \<lparr>rp_pending_items = [], rp_items_in_flight = [], rp_crypt_items = [],
      rp_dispose_has_run = False, rp_items = Map.empty, rp_next = 0, rp_idle = 0, rp_trace = []\<rparr>"

definition rp_emit :: "rp_event \<Rightarrow> rp \<Rightarrow> rp" where
  "rp_emit e s = s\<lparr>rp_trace := rp_trace s @ [e]\<rparr>"

definition delete_item :: "nat \<Rightarrow> rp \<Rightarrow> rp option" where
  "delete_item i s =
     (case rp_items s i of
        None \<Rightarrow> None
      | Some item \<Rightarrow>
          let s1 =
            (if item_zombie item
             then s\<lparr>rp_crypt_items := remove1 i (rp_crypt_items s)\<rparr>
             else if item_in_flight item
             then s\<lparr>rp_items_in_flight := remove1 i (rp_items_in_flight s)\<rparr>
             else s\<lparr>rp_pending_items := remove1 i (rp_pending_items s)\<rparr>)
          in Some (s1\<lparr>rp_items := (rp_items s1)(i := None)\<rparr>))"

lemma delete_item_pending:
  "delete_item i s = Some s' \<Longrightarrow> length (rp_pending_items s') \<le> length (rp_pending_items s)"
  by (auto simp: delete_item_def Let_def length_remove1 split: option.splits if_splits)

function send_next_request :: "(nat \<Rightarrow> bool) \<Rightarrow> rp \<Rightarrow> rp option" where
  "send_next_request sends s =
     (case rp_pending_items s of
        [] \<Rightarrow> Some s
      | i # rest \<Rightarrow>
          (case rp_items s i of
             None \<Rightarrow> None
           | Some item \<Rightarrow>
               if item_in_flight item then None
               else if \<not> sends i
               then (case delete_item i
                            (rp_emit (RP_callback i RP_not_sent) (s\<lparr>rp_pending_items := rest\<rparr>)) of
                       None \<Rightarrow> None
                     | Some s1 \<Rightarrow> send_next_request sends s1)
               else Some (rp_emit (RP_sent i)
                      (s\<lparr>rp_pending_items := rest,
                         rp_items_in_flight := i # rp_items_in_flight s,
                         rp_items := (rp_items s)(i \<mapsto>
                           item\<lparr>item_in_flight := True, item_timer := True\<rparr>)\<rparr>))))"
  by pat_completeness auto
termination
  by (relation "measure (\<lambda>(sends, s). length (rp_pending_items s))")
    (auto simp: rp_emit_def dest!: delete_item_pending)

declare send_next_request.simps [simp del]

lemma send_next_request_pending:
  "send_next_request sends s = Some s' \<Longrightarrow> rp_pending_items s \<noteq> [] \<Longrightarrow>
   length (rp_pending_items s') < length (rp_pending_items s)"
proof (induction sends s arbitrary: s' rule: send_next_request.induct)
  case (1 sends s)
  then obtain i rest item where i: "rp_pending_items s = i # rest" "rp_items s i = Some item"
      "\<not> item_in_flight item"
    by (auto simp: send_next_request.simps [of sends s] split: list.splits option.splits if_splits)
  show ?case
  proof (cases "sends i")
    case True
    with "1.prems" i show ?thesis
      by (auto simp: send_next_request.simps [of sends s] rp_emit_def)
  next
    case False
    with "1.prems" i obtain s1 where
      s1: "delete_item i (rp_emit (RP_callback i RP_not_sent) (s\<lparr>rp_pending_items := rest\<rparr>)) = Some s1"
        "send_next_request sends s1 = Some s'"
      by (auto simp: send_next_request.simps [of sends s] split: option.splits)
    then have le: "length (rp_pending_items s1) \<le> length rest"
      using delete_item_pending by (fastforce simp: rp_emit_def)
    show ?thesis
    proof (cases "rp_pending_items s1 = []")
      case True
      with s1(2) i(1) show ?thesis by (simp add: send_next_request.simps [of sends s1])
    next
      case ne: False
      with "1.IH" [OF i(1,2,3) False s1] le i(1) show ?thesis by simp
    qed
  qed
qed

function gabble_request_pipeline_go :: "(nat \<Rightarrow> bool) \<Rightarrow> rp \<Rightarrow> rp option" where
  "gabble_request_pipeline_go sends s =
     (if rp_pending_items s \<noteq> [] \<and> length (rp_items_in_flight s) < REQUEST_PIPELINE_SIZE
      then (case send_next_request sends s of
              None \<Rightarrow> None
            | Some s1 \<Rightarrow> gabble_request_pipeline_go sends s1)
      else Some s)"
  by pat_completeness auto
termination
  by (relation "measure (\<lambda>(sends, s). length (rp_pending_items s))")
    (auto dest: send_next_request_pending)

declare gabble_request_pipeline_go.simps [simp del]

definition gabble_request_pipeline_create_zombie ::
    "(nat \<Rightarrow> bool) \<Rightarrow> nat \<Rightarrow> rp_result \<Rightarrow> rp \<Rightarrow> rp option" where
  "gabble_request_pipeline_create_zombie sends i error s =
     (case rp_items s i of
        None \<Rightarrow> None
      | Some item \<Rightarrow>
          if item_zombie item then None
          else
            let item1 = item\<lparr>item_timer := False\<rparr>;
                s1 = rp_emit (RP_callback i error) (s\<lparr>rp_items := (rp_items s)(i \<mapsto> item1)\<rparr>)
            in if item_in_flight item1
               then gabble_request_pipeline_go sends
                      (s1\<lparr>rp_items := (rp_items s1)(i \<mapsto> item1\<lparr>item_zombie := True\<rparr>),
                          rp_items_in_flight := remove1 i (rp_items_in_flight s1),
                          rp_crypt_items := i # rp_crypt_items s1\<rparr>)
               else delete_item i s1)"

definition gabble_request_pipeline_item_cancel :: "(nat \<Rightarrow> bool) \<Rightarrow> nat \<Rightarrow> rp \<Rightarrow> rp option" where
  "gabble_request_pipeline_item_cancel sends i s =
     gabble_request_pipeline_create_zombie sends i RP_cancelled s"

definition timeout_cb :: "(nat \<Rightarrow> bool) \<Rightarrow> nat \<Rightarrow> rp \<Rightarrow> rp option" where
  "timeout_cb sends i s = gabble_request_pipeline_create_zombie sends i RP_timed_out s"

definition response_cb :: "(nat \<Rightarrow> bool) \<Rightarrow> nat \<Rightarrow> bool \<Rightarrow> rp \<Rightarrow> rp option" where
  "response_cb sends i is_error s =
     (case rp_items s i of
        None \<Rightarrow> None
      | Some item \<Rightarrow>
          if i \<notin> set (rp_items_in_flight s) then Some s
          else if \<not> item_in_flight item then None
          else
            let s1 = s\<lparr>rp_items_in_flight := remove1 i (rp_items_in_flight s)\<rparr>;
                s2 = (if \<not> item_zombie item
                      then rp_emit (RP_callback i (RP_reply is_error)) s1 else s1)
            in (case delete_item i s2 of
                  None \<Rightarrow> None
                | Some s3 \<Rightarrow> gabble_request_pipeline_go sends s3))"

text \<open>\<open>gabble_request_pipeline_flush\<close>: the loop runs until the list is empty, which it would never
  be if \<open>delete_item\<close> took an item off another list; not returning is \<open>None\<close> too. The argument names
  the list.\<close>

datatype rp_list = RP_in_flight | RP_pending | RP_crypt

fun rp_list_of :: "rp_list \<Rightarrow> rp \<Rightarrow> nat list" where
  "rp_list_of RP_in_flight s = rp_items_in_flight s"
| "rp_list_of RP_pending s = rp_pending_items s"
| "rp_list_of RP_crypt s = rp_crypt_items s"

partial_function (option) gabble_request_pipeline_flush :: "rp_list \<Rightarrow> rp \<Rightarrow> rp option" where
  "gabble_request_pipeline_flush l s =
     (case rp_list_of l s of
        [] \<Rightarrow> Some s
      | i # rest \<Rightarrow>
          (case rp_items s i of
             None \<Rightarrow> None
           | Some item \<Rightarrow>
               Option.bind
                 (delete_item i
                    (if \<not> item_zombie item then rp_emit (RP_callback i RP_disconnected) s else s))
                 (gabble_request_pipeline_flush l)))"

definition gabble_request_pipeline_dispose :: "rp \<Rightarrow> rp option" where
  "gabble_request_pipeline_dispose s =
     (if rp_dispose_has_run s then Some s
      else do {
        s1 \<leftarrow> gabble_request_pipeline_flush RP_in_flight (s\<lparr>rp_dispose_has_run := True\<rparr>);
        s2 \<leftarrow> gabble_request_pipeline_flush RP_pending s1;
        gabble_request_pipeline_flush RP_crypt s2
      })"

text \<open>One of the runs scheduled with \<open>gabble_idle_add_weak\<close> happens.\<close>

definition delayed_run_pipeline :: "(nat \<Rightarrow> bool) \<Rightarrow> rp \<Rightarrow> rp option" where
  "delayed_run_pipeline sends s =
     gabble_request_pipeline_go sends (s\<lparr>rp_idle := rp_idle s - 1\<rparr>)"

definition gabble_request_pipeline_enqueue :: "guint \<Rightarrow> rp \<Rightarrow> nat \<times> rp" where
  "gabble_request_pipeline_enqueue timeout s =
     (let i = rp_next s;
          item = \<lparr>item_timer = False,
                  item_timeout = (if timeout = 0 then DEFAULT_REQUEST_TIMEOUT else timeout),
                  item_in_flight = False, item_zombie = False\<rparr>;
          s1 = s\<lparr>rp_items := (rp_items s)(i \<mapsto> item), rp_next := Suc i,
                 rp_pending_items := rp_pending_items s @ [i]\<rparr>
      in (i, if length (rp_items_in_flight s1) < REQUEST_PIPELINE_SIZE
             then s1\<lparr>rp_idle := Suc (rp_idle s1)\<rparr> else s1))"

section \<open>The operations as one step function\<close>

datatype rp_op =
    RP_Enqueue guint
  | RP_Cancel nat
  | RP_Timeout nat
  | RP_Response nat bool
  | RP_Idle
  | RP_Dispose

fun rp_step :: "(nat \<Rightarrow> bool) \<Rightarrow> rp_op \<Rightarrow> rp \<Rightarrow> rp option" where
  "rp_step sends (RP_Enqueue t) s = Some (snd (gabble_request_pipeline_enqueue t s))"
| "rp_step sends (RP_Cancel i) s = gabble_request_pipeline_item_cancel sends i s"
| "rp_step sends (RP_Timeout i) s = timeout_cb sends i s"
| "rp_step sends (RP_Response i e) s = response_cb sends i e s"
| "rp_step sends RP_Idle s = delayed_run_pipeline sends s"
| "rp_step sends RP_Dispose s = gabble_request_pipeline_dispose s"

text \<open>A user cancels only a request whose callback it has not seen; a timer that fires is one that
  is set; a reply is to a message that was sent, and reaches \<open>response_cb\<close> only while the item has
  not been freed with the pipeline; an idle run is one that was scheduled.\<close>

fun rp_legal :: "rp_op \<Rightarrow> rp \<Rightarrow> bool" where
  "rp_legal (RP_Enqueue t) s \<longleftrightarrow> True"
| "rp_legal (RP_Cancel i) s \<longleftrightarrow> i \<in> set (rp_pending_items s) \<or> i \<in> set (rp_items_in_flight s)"
| "rp_legal (RP_Timeout i) s \<longleftrightarrow> (case rp_items s i of None \<Rightarrow> False | Some x \<Rightarrow> item_timer x)"
| "rp_legal (RP_Response i e) s \<longleftrightarrow>
     i \<in> set (rp_items_in_flight s) \<or> i \<in> set (rp_crypt_items s)"
| "rp_legal RP_Idle s \<longleftrightarrow> 0 < rp_idle s"
| "rp_legal RP_Dispose s \<longleftrightarrow> True"

section \<open>The invariant\<close>

fun rp_sent_items :: "rp_event list \<Rightarrow> nat list" where
  "rp_sent_items [] = []"
| "rp_sent_items (RP_sent i # es) = i # rp_sent_items es"
| "rp_sent_items (e # es) = rp_sent_items es"

fun rp_called_items :: "rp_event list \<Rightarrow> nat list" where
  "rp_called_items [] = []"
| "rp_called_items (RP_callback i r # es) = i # rp_called_items es"
| "rp_called_items (e # es) = rp_called_items es"

lemma rp_sent_items_append [simp]:
  "rp_sent_items (es @ fs) = rp_sent_items es @ rp_sent_items fs"
  by (induction es rule: rp_sent_items.induct) auto

lemma rp_called_items_append [simp]:
  "rp_called_items (es @ fs) = rp_called_items es @ rp_called_items fs"
  by (induction es rule: rp_called_items.induct) auto

text \<open>The shape of the heap: each item is on the list its flags say, and nowhere else.\<close>

definition rp_heap_ok :: "rp \<Rightarrow> bool" where
  "rp_heap_ok s \<longleftrightarrow>
     distinct (rp_pending_items s @ rp_items_in_flight s @ rp_crypt_items s)
     \<and> dom (rp_items s) =
         set (rp_pending_items s) \<union> set (rp_items_in_flight s) \<union> set (rp_crypt_items s)
     \<and> (\<forall>i item. rp_items s i = Some item \<longrightarrow>
          (item_zombie item \<longleftrightarrow> i \<in> set (rp_crypt_items s))
        \<and> (item_in_flight item \<longleftrightarrow> i \<notin> set (rp_pending_items s))
        \<and> (item_timer item \<longleftrightarrow> i \<in> set (rp_items_in_flight s)))"

text \<open>The requests: sent in the order they were enqueued, each answered once, and answered exactly
  when it is no longer pending or in flight.\<close>

definition rp_requests_ok :: "rp \<Rightarrow> bool" where
  "rp_requests_ok s \<longleftrightarrow>
     sorted_wrt (<) (rp_sent_items (rp_trace s) @ rp_pending_items s)
     \<and> set (rp_items_in_flight s) \<subseteq> set (rp_sent_items (rp_trace s))
     \<and> distinct (rp_called_items (rp_trace s))
     \<and> set (rp_called_items (rp_trace s)) =
         {..<rp_next s} - (set (rp_pending_items s) \<union> set (rp_items_in_flight s))
     \<and> set (rp_pending_items s) \<union> set (rp_items_in_flight s) \<union> set (rp_crypt_items s)
         \<union> set (rp_sent_items (rp_trace s)) \<subseteq> {..<rp_next s}"

definition rp_base :: "rp \<Rightarrow> bool" where
  "rp_base s \<longleftrightarrow> rp_heap_ok s \<and> rp_requests_ok s
     \<and> length (rp_items_in_flight s) \<le> REQUEST_PIPELINE_SIZE"

text \<open>No stall: while requests wait and there is room, a run is scheduled.\<close>

definition rp_inv :: "rp \<Rightarrow> bool" where
  "rp_inv s \<longleftrightarrow> rp_base s
     \<and> (rp_pending_items s \<noteq> [] \<longrightarrow> length (rp_items_in_flight s) < REQUEST_PIPELINE_SIZE \<longrightarrow>
        0 < rp_idle s)"

lemmas rp_ok_defs = rp_base_def rp_heap_ok_def rp_requests_ok_def

lemma rp_inv_init: "rp_inv gabble_request_pipeline_init"
  by (simp add: rp_inv_def rp_ok_defs gabble_request_pipeline_init_def)

section \<open>Answering an item and freeing it\<close>

text \<open>The state after an item that is not a zombie has been answered and freed.\<close>

definition rp_answered :: "nat \<Rightarrow> rp_result \<Rightarrow> rp \<Rightarrow> rp" where
  "rp_answered i r s =
     s\<lparr>rp_pending_items := remove1 i (rp_pending_items s),
       rp_items_in_flight := remove1 i (rp_items_in_flight s),
       rp_items := (rp_items s)(i := None),
       rp_trace := rp_trace s @ [RP_callback i r]\<rparr>"

lemma rp_heap_item:
  assumes "rp_heap_ok s" and "rp_items s i = Some item"
  shows "item_zombie item \<longleftrightarrow> i \<in> set (rp_crypt_items s)"
    and "item_in_flight item \<longleftrightarrow> i \<notin> set (rp_pending_items s)"
    and "item_timer item \<longleftrightarrow> i \<in> set (rp_items_in_flight s)"
    and "i \<in> set (rp_pending_items s) \<Longrightarrow> i \<notin> set (rp_items_in_flight s)"
    and "i \<in> set (rp_pending_items s) \<union> set (rp_items_in_flight s) \<union> set (rp_crypt_items s)"
  using assms by (auto simp: rp_heap_ok_def)

lemma sorted_wrt_remove1: "sorted_wrt P xs \<Longrightarrow> sorted_wrt P (remove1 x xs)"
  by (induction xs) (auto dest: notin_set_remove1 simp: subset_iff in_set_remove1 split: if_splits
      dest!: set_remove1_subset [THEN subsetD])

lemma rp_answered_heap:
  assumes "rp_heap_ok s" and "i \<notin> set (rp_crypt_items s)"
  shows "rp_heap_ok (rp_answered i r s)"
  using assms by (auto simp: rp_heap_ok_def rp_answered_def split: if_splits)

lemma rp_answered_requests:
  assumes "rp_heap_ok s" and "rp_requests_ok s"
    and "i \<in> set (rp_pending_items s) \<union> set (rp_items_in_flight s)"
  shows "rp_requests_ok (rp_answered i r s)"
proof -
  have d: "distinct (rp_pending_items s)" "distinct (rp_items_in_flight s)"
    using assms(1) by (auto simp: rp_heap_ok_def)
  have "sorted_wrt (<) (rp_sent_items (rp_trace s) @ remove1 i (rp_pending_items s))"
    using assms(2) sorted_wrt_remove1 [of "(<)" "rp_pending_items s" i]
    by (auto simp: rp_requests_ok_def sorted_wrt_append dest: notin_set_remove1
        dest!: set_remove1_subset [THEN subsetD])
  with assms d show ?thesis
    by (auto simp: rp_requests_ok_def rp_answered_def)
qed

lemma rp_answered_base:
  assumes "rp_base s" and "i \<in> set (rp_pending_items s) \<union> set (rp_items_in_flight s)"
  shows "rp_base (rp_answered i r s)"
proof -
  have "i \<notin> set (rp_crypt_items s)"
    using assms by (auto simp: rp_base_def rp_heap_ok_def)
  with assms rp_answered_heap rp_answered_requests show ?thesis
    by (auto simp: rp_base_def rp_answered_def length_remove1)
qed

text \<open>The ways the code answers and frees an item all lead there.\<close>

lemma delete_answered:
  assumes "rp_heap_ok s" and "i \<in> set (rp_pending_items s) \<union> set (rp_items_in_flight s)"
  shows "delete_item i (rp_emit (RP_callback i r) s) = Some (rp_answered i r s)"
    and "i \<in> set (rp_items_in_flight s) \<Longrightarrow>
      delete_item i (rp_emit (RP_callback i r)
        (s\<lparr>rp_items_in_flight := remove1 i (rp_items_in_flight s)\<rparr>)) = Some (rp_answered i r s)"
    and "rp_pending_items s = i # rest \<Longrightarrow>
      delete_item i (rp_emit (RP_callback i r) (s\<lparr>rp_pending_items := rest\<rparr>))
        = Some (rp_answered i r s)"
    and "delete_item i (rp_emit (RP_callback i r)
        (s\<lparr>rp_items := (rp_items s)(i \<mapsto> (the (rp_items s i))\<lparr>item_timer := b\<rparr>)\<rparr>))
        = Some (rp_answered i r s)"
proof -
  from assms obtain item where item: "rp_items s i = Some item" "\<not> item_zombie item"
      "item_in_flight item \<longleftrightarrow> i \<notin> set (rp_pending_items s)"
    unfolding rp_heap_ok_def by (auto simp: dom_def set_eq_iff) blast+
  have d: "distinct (rp_pending_items s)" "distinct (rp_items_in_flight s)"
      "i \<in> set (rp_pending_items s) \<Longrightarrow> i \<notin> set (rp_items_in_flight s)"
    using assms(1) by (auto simp: rp_heap_ok_def)
  show "delete_item i (rp_emit (RP_callback i r) s) = Some (rp_answered i r s)"
    using item d assms(2)
    by (cases s) (auto simp: delete_item_def rp_answered_def rp_emit_def remove1_idem)
  show "i \<in> set (rp_items_in_flight s) \<Longrightarrow>
      delete_item i (rp_emit (RP_callback i r)
        (s\<lparr>rp_items_in_flight := remove1 i (rp_items_in_flight s)\<rparr>)) = Some (rp_answered i r s)"
    using item d assms(2)
    by (cases s) (auto simp: delete_item_def rp_answered_def rp_emit_def remove1_idem)
  show "rp_pending_items s = i # rest \<Longrightarrow>
      delete_item i (rp_emit (RP_callback i r) (s\<lparr>rp_pending_items := rest\<rparr>))
        = Some (rp_answered i r s)"
    using item d assms(2)
    by (cases s) (auto simp: delete_item_def rp_answered_def rp_emit_def remove1_idem)
  show "delete_item i (rp_emit (RP_callback i r)
        (s\<lparr>rp_items := (rp_items s)(i \<mapsto> (the (rp_items s i))\<lparr>item_timer := b\<rparr>)\<rparr>))
        = Some (rp_answered i r s)"
    using item d assms(2)
    by (cases s) (auto simp: delete_item_def rp_answered_def rp_emit_def remove1_idem)
qed

section \<open>Sending\<close>

lemma rp_live:
  "rp_heap_ok s \<Longrightarrow>
   i \<in> set (rp_pending_items s) \<union> set (rp_items_in_flight s) \<union> set (rp_crypt_items s) \<Longrightarrow>
   \<exists>item. rp_items s i = Some item"
  by (auto simp: rp_heap_ok_def dom_def set_eq_iff)

text \<open>The state after the first pending item has been sent.\<close>

definition rp_sent_first :: "nat \<Rightarrow> rp_item \<Rightarrow> nat list \<Rightarrow> rp \<Rightarrow> rp" where
  "rp_sent_first i item rest s =
     rp_emit (RP_sent i)
       (s\<lparr>rp_pending_items := rest, rp_items_in_flight := i # rp_items_in_flight s,
          rp_items := (rp_items s)(i \<mapsto> item\<lparr>item_in_flight := True, item_timer := True\<rparr>)\<rparr>)"

lemma rp_sent_first_base:
  assumes "rp_base s" and "rp_pending_items s = i # rest" and "rp_items s i = Some item"
    and "length (rp_items_in_flight s) < REQUEST_PIPELINE_SIZE"
  shows "rp_base (rp_sent_first i item rest s)"
proof -
  have "rp_heap_ok (rp_sent_first i item rest s)"
    using assms by (auto simp: rp_base_def rp_heap_ok_def rp_sent_first_def rp_emit_def split: if_splits)
  moreover have "rp_requests_ok (rp_sent_first i item rest s)"
    using assms
    by (auto simp: rp_base_def rp_heap_ok_def rp_requests_ok_def rp_sent_first_def rp_emit_def
        sorted_wrt_append)
  ultimately show ?thesis using assms by (simp add: rp_base_def rp_sent_first_def rp_emit_def)
qed

lemma send_next_request_base:
  "rp_base s \<Longrightarrow> length (rp_items_in_flight s) < REQUEST_PIPELINE_SIZE \<Longrightarrow>
   \<exists>s'. send_next_request sends s = Some s' \<and> rp_base s' \<and> rp_next s' = rp_next s
     \<and> rp_dispose_has_run s' = rp_dispose_has_run s \<and> rp_idle s' = rp_idle s"
proof (induction sends s rule: send_next_request.induct)
  case (1 sends s)
  show ?case
  proof (cases "rp_pending_items s")
    case Nil
    with "1.prems" show ?thesis by (simp add: send_next_request.simps [of sends s])
  next
    case (Cons i rest)
    have heap: "rp_heap_ok s" using "1.prems"(1) by (simp add: rp_base_def)
    with Cons obtain item where item: "rp_items s i = Some item"
      using rp_live [of s i] by auto
    then have nf: "\<not> item_in_flight item" using rp_heap_item(2) [OF heap item] Cons by simp
    note item = item nf
    show ?thesis
    proof (cases "sends i")
      case True
      have "send_next_request sends s = Some (rp_sent_first i item rest s)"
        using Cons item True by (simp add: send_next_request.simps [of sends s] rp_sent_first_def)
      with rp_sent_first_base [OF "1.prems"(1) Cons item(1) "1.prems"(2)] show ?thesis
        by (simp add: rp_sent_first_def rp_emit_def)
    next
      case False
      let ?s = "rp_answered i RP_not_sent s"
      have del: "delete_item i (rp_emit (RP_callback i RP_not_sent) (s\<lparr>rp_pending_items := rest\<rparr>))
          = Some ?s"
        using delete_answered(3) [OF heap _ Cons] Cons by simp
      have "rp_base ?s" "length (rp_items_in_flight ?s) < REQUEST_PIPELINE_SIZE"
        using rp_answered_base [OF "1.prems"(1), of i] Cons "1.prems"(2)
        by (auto simp: rp_answered_def length_remove1)
      from "1.IH" [OF Cons item False del this] del Cons item False show ?thesis
        by (simp add: send_next_request.simps [of sends s] rp_answered_def)
    qed
  qed
qed

lemma go_base:
  "rp_base s \<Longrightarrow> \<exists>s'. gabble_request_pipeline_go sends s = Some s' \<and> rp_base s'
     \<and> (rp_pending_items s' = [] \<or> length (rp_items_in_flight s') = REQUEST_PIPELINE_SIZE)
     \<and> rp_next s' = rp_next s \<and> rp_dispose_has_run s' = rp_dispose_has_run s"
proof (induction sends s rule: gabble_request_pipeline_go.induct)
  case (1 sends s)
  show ?case
  proof (cases "rp_pending_items s \<noteq> [] \<and> length (rp_items_in_flight s) < REQUEST_PIPELINE_SIZE")
    case True
    with "1.prems" send_next_request_base obtain s1 where
      s1: "send_next_request sends s = Some s1" "rp_base s1" "rp_next s1 = rp_next s"
        "rp_dispose_has_run s1 = rp_dispose_has_run s" by metis
    from "1.IH" [OF True s1(1,2)] s1 True show ?thesis
      by (simp add: gabble_request_pipeline_go.simps [of sends s])
  next
    case False
    with "1.prems" show ?thesis
      by (auto simp: gabble_request_pipeline_go.simps [of sends s] rp_base_def)
  qed
qed

lemma go_inv:
  assumes "rp_base s"
  shows "\<exists>s'. gabble_request_pipeline_go sends s = Some s' \<and> rp_inv s'"
  using go_base [OF assms, of sends] by (auto simp: rp_inv_def)

section \<open>Zombies\<close>

text \<open>The state after an item in flight has been answered with an error and buried.\<close>

definition rp_buried :: "nat \<Rightarrow> rp_result \<Rightarrow> rp \<Rightarrow> rp" where
  "rp_buried i r s =
     s\<lparr>rp_items := (rp_items s)(i \<mapsto> (the (rp_items s i))\<lparr>item_timer := False, item_zombie := True\<rparr>),
       rp_items_in_flight := remove1 i (rp_items_in_flight s),
       rp_crypt_items := i # rp_crypt_items s,
       rp_trace := rp_trace s @ [RP_callback i r]\<rparr>"

lemma rp_buried_base:
  assumes "rp_base s" and i: "i \<in> set (rp_items_in_flight s)"
  shows "rp_base (rp_buried i r s)"
proof -
  have "rp_heap_ok (rp_buried i r s)"
    using assms by (auto simp: rp_base_def rp_heap_ok_def rp_buried_def split: if_splits)
  moreover have "rp_requests_ok (rp_buried i r s)"
    using assms by (auto simp: rp_base_def rp_heap_ok_def rp_requests_ok_def rp_buried_def)
  ultimately show ?thesis
    using assms by (auto simp: rp_base_def rp_buried_def length_remove1)
qed

lemma create_zombie_inv:
  assumes "rp_inv s" and i: "i \<in> set (rp_pending_items s) \<union> set (rp_items_in_flight s)"
  shows "\<exists>s'. gabble_request_pipeline_create_zombie sends i r s = Some s' \<and> rp_inv s'"
proof -
  have base: "rp_base s" and heap: "rp_heap_ok s" using assms(1) by (auto simp: rp_inv_def rp_base_def)
  from heap i obtain item where item: "rp_items s i = Some item" "\<not> item_zombie item"
      "item_in_flight item \<longleftrightarrow> i \<notin> set (rp_pending_items s)"
    unfolding rp_heap_ok_def by (auto simp: dom_def set_eq_iff) blast+
  show ?thesis
  proof (cases "item_in_flight item")
    case True
    with item i have f: "i \<in> set (rp_items_in_flight s)" by auto
    have "gabble_request_pipeline_create_zombie sends i r s =
        gabble_request_pipeline_go sends (rp_buried i r s)"
      using item True
      by (cases s) (simp add: gabble_request_pipeline_create_zombie_def rp_buried_def rp_emit_def Let_def)
    then show ?thesis using go_inv [OF rp_buried_base [OF base f]] by simp
  next
    case False
    then have "gabble_request_pipeline_create_zombie sends i r s = Some (rp_answered i r s)"
      using item delete_answered(4) [OF heap i]
      by (simp add: gabble_request_pipeline_create_zombie_def Let_def)
    moreover have "i \<notin> set (rp_items_in_flight s)"
      using False item heap by (auto simp: rp_heap_ok_def)
    ultimately show ?thesis
      using rp_answered_base [OF base i, of r] assms(1)
      by (auto simp: rp_inv_def rp_answered_def remove1_idem)
  qed
qed

lemma response_cb_inv:
  assumes "rp_inv s" and i: "i \<in> set (rp_items_in_flight s) \<or> i \<in> set (rp_crypt_items s)"
  shows "\<exists>s'. response_cb sends i e s = Some s' \<and> rp_inv s'"
proof -
  have base: "rp_base s" and heap: "rp_heap_ok s" using assms(1) by (auto simp: rp_inv_def rp_base_def)
  from heap i obtain item where item: "rp_items s i = Some item"
    unfolding rp_heap_ok_def by (auto simp: dom_def set_eq_iff)
  show ?thesis
  proof (cases "i \<in> set (rp_items_in_flight s)")
    case True
    then have "item_in_flight item" "\<not> item_zombie item"
      using item heap by (auto simp: rp_heap_ok_def)
    then have "response_cb sends i e s =
        gabble_request_pipeline_go sends (rp_answered i (RP_reply e) s)"
      using item True delete_answered(2) [OF heap] by (simp add: response_cb_def Let_def)
    with go_inv rp_answered_base [OF base] True show ?thesis by auto
  next
    case False
    with item assms(1) show ?thesis by (auto simp: response_cb_def)
  qed
qed

section \<open>Disposal\<close>

text \<open>A zombie is freed without another callback.\<close>

definition rp_freed :: "nat \<Rightarrow> rp \<Rightarrow> rp" where
  "rp_freed i s =
     s\<lparr>rp_crypt_items := remove1 i (rp_crypt_items s), rp_items := (rp_items s)(i := None)\<rparr>"

lemma rp_freed_base:
  assumes "rp_base s" and "i \<in> set (rp_crypt_items s)"
  shows "rp_base (rp_freed i s)" and "delete_item i s = Some (rp_freed i s)"
proof -
  have heap: "rp_heap_ok s" using assms(1) by (simp add: rp_base_def)
  obtain item where item: "rp_items s i = Some item" using rp_live [OF heap] assms(2) by blast
  with rp_heap_item(1) [OF heap item] assms(2) show "delete_item i s = Some (rp_freed i s)"
    by (simp add: delete_item_def rp_freed_def)
  have "rp_heap_ok (rp_freed i s)"
    using heap assms(2) by (auto simp: rp_heap_ok_def rp_freed_def split: if_splits)
  moreover have "rp_requests_ok (rp_freed i s)"
    using assms by (auto simp: rp_base_def rp_heap_ok_def rp_requests_ok_def rp_freed_def)
  ultimately show "rp_base (rp_freed i s)" using assms(1) by (simp add: rp_base_def rp_freed_def)
qed

lemma flush_base:
  "rp_base s \<Longrightarrow> \<exists>s'. gabble_request_pipeline_flush l s = Some s' \<and> rp_base s' \<and> rp_list_of l s' = []
     \<and> (\<forall>k. rp_list_of k s = [] \<longrightarrow> rp_list_of k s' = []) \<and> rp_next s' = rp_next s
     \<and> rp_dispose_has_run s' = rp_dispose_has_run s"
proof (induction "length (rp_list_of l s)" arbitrary: s rule: less_induct)
  case less
  show ?case
  proof (cases "rp_list_of l s")
    case Nil
    then show ?thesis using less.prems by (simp add: gabble_request_pipeline_flush.simps [of l s])
  next
    case (Cons i rest)
    have heap: "rp_heap_ok s" using less.prems by (simp add: rp_base_def)
    have mem: "i \<in> set (rp_pending_items s) \<union> set (rp_items_in_flight s) \<union> set (rp_crypt_items s)"
      using Cons by (cases l) auto
    then obtain item where item: "rp_items s i = Some item" using rp_live [OF heap] by blast
    note flags = rp_heap_item [OF heap item]
    define t where "t = (if item_zombie item then rp_freed i s else rp_answered i RP_disconnected s)"
    have t: "delete_item i
        (if \<not> item_zombie item then rp_emit (RP_callback i RP_disconnected) s else s) = Some t"
      using flags mem rp_freed_base(2) [OF less.prems] delete_answered(1) [OF heap, of i]
      by (auto simp: t_def)
    have base: "rp_base t"
      using flags mem rp_freed_base(1) [OF less.prems] rp_answered_base [OF less.prems, of i]
      by (auto simp: t_def)
    have "length (rp_list_of l t) < length (rp_list_of l s)"
      using flags Cons heap
      by (cases l) (auto simp: t_def rp_freed_def rp_answered_def rp_heap_ok_def)
    from less.hyps [OF this base] obtain s' where s': "gabble_request_pipeline_flush l t = Some s'"
      "rp_base s'" "rp_list_of l s' = []" "\<forall>k. rp_list_of k t = [] \<longrightarrow> rp_list_of k s' = []"
      "rp_next s' = rp_next t" "rp_dispose_has_run s' = rp_dispose_has_run t" by blast
    have "gabble_request_pipeline_flush l s = Some s'"
      using Cons item t s'(1)
      by (simp add: gabble_request_pipeline_flush.simps [of l s] split: if_splits)
    moreover have "rp_list_of k s = [] \<Longrightarrow> rp_list_of k t = []" for k
      by (cases k) (auto simp: t_def rp_freed_def rp_answered_def)
    moreover have "rp_next t = rp_next s" "rp_dispose_has_run t = rp_dispose_has_run s"
      by (auto simp: t_def rp_freed_def rp_answered_def)
    ultimately show ?thesis using s' by auto
  qed
qed

lemma dispose_base:
  assumes "rp_base s" and "\<not> rp_dispose_has_run s"
  shows "\<exists>s'. gabble_request_pipeline_dispose s = Some s' \<and> rp_base s' \<and> rp_pending_items s' = []
    \<and> rp_items_in_flight s' = [] \<and> rp_crypt_items s' = [] \<and> rp_next s' = rp_next s"
proof -
  have "rp_base (s\<lparr>rp_dispose_has_run := True\<rparr>)"
    using assms(1) by (simp add: rp_ok_defs)
  from flush_base [OF this, of RP_in_flight] obtain s1 where
    s1: "gabble_request_pipeline_flush RP_in_flight (s\<lparr>rp_dispose_has_run := True\<rparr>) = Some s1"
      "rp_base s1" "rp_items_in_flight s1 = []" "rp_next s1 = rp_next s" by auto
  from flush_base [OF s1(2), of RP_pending] obtain s2 where
    s2: "gabble_request_pipeline_flush RP_pending s1 = Some s2" "rp_base s2"
      "rp_pending_items s2 = []" "\<forall>k. rp_list_of k s1 = [] \<longrightarrow> rp_list_of k s2 = []"
      "rp_next s2 = rp_next s1" by auto
  have f2: "rp_items_in_flight s2 = []" using s2(4) [rule_format, of RP_in_flight] s1(3) by simp
  from flush_base [OF s2(2), of RP_crypt] obtain s3 where
    s3: "gabble_request_pipeline_flush RP_crypt s2 = Some s3" "rp_base s3"
      "rp_crypt_items s3 = []" "\<forall>k. rp_list_of k s2 = [] \<longrightarrow> rp_list_of k s3 = []"
      "rp_next s3 = rp_next s2" by auto
  have "rp_items_in_flight s3 = []" "rp_pending_items s3 = []"
    using s3(4) [rule_format, of RP_in_flight] s3(4) [rule_format, of RP_pending] f2 s2(3) by auto
  with s1 s2 s3 assms(2) show ?thesis by (simp add: gabble_request_pipeline_dispose_def)
qed

lemma enqueue_inv:
  assumes "rp_inv s" shows "rp_inv (snd (gabble_request_pipeline_enqueue t s))"
proof -
  have base: "rp_heap_ok s" "rp_requests_ok s" using assms by (auto simp: rp_inv_def rp_base_def)
  then have fresh: "rp_next s \<notin> dom (rp_items s)" "rp_next s \<notin> set (rp_pending_items s)"
    "rp_next s \<notin> set (rp_items_in_flight s)" "rp_next s \<notin> set (rp_crypt_items s)"
    by (auto simp: rp_heap_ok_def rp_requests_ok_def)
  let ?s = "snd (gabble_request_pipeline_enqueue t s)"
  have "rp_heap_ok ?s"
    using base(1) fresh
    by (auto simp: rp_heap_ok_def gabble_request_pipeline_enqueue_def Let_def split: if_splits)
  moreover have "rp_requests_ok ?s"
    using base fresh
    by (auto simp: rp_requests_ok_def gabble_request_pipeline_enqueue_def Let_def sorted_wrt_append)
  ultimately show ?thesis
    using assms by (auto simp: rp_inv_def rp_base_def gabble_request_pipeline_enqueue_def Let_def)
qed

interpretation rp_sys: safe_system rp_legal "rp_step sends" rp_inv
  for sends :: "nat \<Rightarrow> bool"
proof
  fix s x
  assume inv: "rp_inv s" and legal: "rp_legal x s"
  then have base: "rp_base s" by (simp add: rp_inv_def)
  show "\<exists>s'. rp_step sends x s = Some s' \<and> rp_inv s'"
  proof (cases x)
    case (RP_Enqueue t)
    then show ?thesis using enqueue_inv [OF inv] by simp
  next
    case (RP_Cancel i)
    then show ?thesis using create_zombie_inv [OF inv, of i] legal
      by (simp add: gabble_request_pipeline_item_cancel_def)
  next
    case (RP_Timeout i)
    with legal obtain item where "rp_items s i = Some item" "item_timer item"
      by (auto split: option.splits)
    then have "i \<in> set (rp_items_in_flight s)"
      using rp_heap_item(3) [of s i item] base by (simp add: rp_base_def)
    then show ?thesis using create_zombie_inv [OF inv, of i] RP_Timeout
      by (simp add: timeout_cb_def)
  next
    case (RP_Response i e)
    then show ?thesis using response_cb_inv [OF inv] legal by simp
  next
    case RP_Idle
    have "rp_base (s\<lparr>rp_idle := rp_idle s - 1\<rparr>)" using base by (simp add: rp_ok_defs)
    with RP_Idle go_inv show ?thesis by (simp add: delayed_run_pipeline_def)
  next
    case RP_Dispose
    then show ?thesis
      using dispose_base [OF base] inv
      by (cases "rp_dispose_has_run s") (auto simp: rp_inv_def gabble_request_pipeline_dispose_def)
  qed
qed

section \<open>Properties\<close>

fun rp_is_enqueue :: "rp_op \<Rightarrow> bool" where
  "rp_is_enqueue (RP_Enqueue t) \<longleftrightarrow> True"
| "rp_is_enqueue _ \<longleftrightarrow> False"

lemma delete_item_next: "delete_item i s = Some s' \<Longrightarrow> rp_next s' = rp_next s"
  by (auto simp: delete_item_def Let_def split: option.splits if_splits)

lemma go_next:
  assumes "rp_base s" and "gabble_request_pipeline_go sends s = Some s'"
  shows "rp_next s' = rp_next s"
  using go_base [OF assms(1), of sends] assms(2) by auto

lemma create_zombie_next:
  assumes "rp_base s" and "i \<in> set (rp_pending_items s) \<union> set (rp_items_in_flight s)"
    and "gabble_request_pipeline_create_zombie sends i r s = Some s'"
  shows "rp_next s' = rp_next s"
proof -
  have heap: "rp_heap_ok s" using assms(1) by (simp add: rp_base_def)
  obtain item where item: "rp_items s i = Some item" using rp_live [OF heap] assms(2) by blast
  show ?thesis
  proof (cases "item_in_flight item")
    case True
    with assms(2) rp_heap_item(2) [OF heap item] have f: "i \<in> set (rp_items_in_flight s)" by auto
    with rp_heap_item(1) [OF heap item] heap have "\<not> item_zombie item" by (auto simp: rp_heap_ok_def)
    then have "gabble_request_pipeline_create_zombie sends i r s =
        gabble_request_pipeline_go sends (rp_buried i r s)"
      using item True
      by (cases s) (simp add: gabble_request_pipeline_create_zombie_def rp_buried_def rp_emit_def Let_def)
    with assms(3) go_next [OF rp_buried_base [OF assms(1) f]] show ?thesis
      by (fastforce simp: rp_buried_def)
  next
    case False
    with assms(3) item show ?thesis
      by (auto simp: gabble_request_pipeline_create_zombie_def Let_def rp_emit_def
          dest!: delete_item_next split: if_splits)
  qed
qed

lemma response_cb_next:
  assumes "rp_base s" and "response_cb sends i e s = Some s'"
  shows "rp_next s' = rp_next s"
proof (cases "i \<in> set (rp_items_in_flight s)")
  case True
  have heap: "rp_heap_ok s" using assms(1) by (simp add: rp_base_def)
  obtain item where item: "rp_items s i = Some item" using rp_live [OF heap] True by blast
  have "item_in_flight item" "\<not> item_zombie item"
    using rp_heap_item [OF heap item] True heap by (auto simp: rp_heap_ok_def)
  then have "response_cb sends i e s =
      gabble_request_pipeline_go sends (rp_answered i (RP_reply e) s)"
    using item True delete_answered(2) [OF heap] by (simp add: response_cb_def Let_def)
  with assms(2) go_next [OF rp_answered_base [OF assms(1), of i]] True show ?thesis
    by (fastforce simp: rp_answered_def)
next
  case False
  with assms(2) show ?thesis by (auto simp: response_cb_def split: option.splits)
qed

lemma rp_step_next:
  assumes "rp_inv s" and "rp_legal x s" and "rp_step sends x s = Some s'"
  shows "rp_next s' = rp_next s + (if rp_is_enqueue x then 1 else 0)"
proof -
  have base: "rp_base s" using assms(1) by (simp add: rp_inv_def)
  show ?thesis
  proof (cases x)
    case (RP_Timeout i)
    with assms(2) obtain item where "rp_items s i = Some item" "item_timer item"
      by (auto split: option.splits)
    then have "i \<in> set (rp_items_in_flight s)"
      using rp_heap_item(3) [of s i item] base by (simp add: rp_base_def)
    with RP_Timeout assms(3) create_zombie_next [OF base] show ?thesis
      by (auto simp: timeout_cb_def)
  next
    case RP_Idle
    have "rp_base (s\<lparr>rp_idle := rp_idle s - 1\<rparr>)" using base by (simp add: rp_ok_defs)
    with RP_Idle assms(3) go_next show ?thesis by (fastforce simp: delayed_run_pipeline_def)
  next
    case RP_Dispose
    with assms(3) dispose_base [OF base] show ?thesis
      by (cases "rp_dispose_has_run s") (auto simp: gabble_request_pipeline_dispose_def)
  qed (use assms create_zombie_next [OF base] response_cb_next [OF base] in
      \<open>auto simp: gabble_request_pipeline_item_cancel_def gabble_request_pipeline_enqueue_def Let_def\<close>)
qed

lemma rp_run_next:
  "rp_inv s \<Longrightarrow> legal_run rp_legal (rp_step sends) xs s \<Longrightarrow> run (rp_step sends) xs s = Some s' \<Longrightarrow>
   rp_next s' = rp_next s + length (filter rp_is_enqueue xs)"
proof (induction xs arbitrary: s)
  case (Cons x xs)
  from Cons.prems obtain s1 where s1: "rp_step sends x s = Some s1" "run (rp_step sends) xs s1 = Some s'"
    by (auto simp: bind_eq_Some_conv)
  moreover have "rp_inv s1" using Cons.prems s1 rp_sys.step_inv [of s x sends s1] by simp
  ultimately show ?case using Cons.IH [of s1] Cons.prems rp_step_next [of s x sends s1] by auto
qed simp

text \<open>Twelve requests; the first is refused by the connection, the second cancelled while in flight,
  the third answered, the fourth times out.\<close>

definition rp_demo :: "rp_op list" where
  "rp_demo = replicate 12 (RP_Enqueue 0) @
     [RP_Idle, RP_Cancel 1, RP_Response 2 False, RP_Timeout 3, RP_Response 1 True]"

definition rp_demo_sends :: "nat \<Rightarrow> bool" where
  "rp_demo_sends i \<longleftrightarrow> i \<noteq> 0"

lemmas rp_exec = rp_demo_def rp_demo_sends_def gabble_request_pipeline_init_def
  gabble_request_pipeline_enqueue_def gabble_request_pipeline_item_cancel_def timeout_cb_def
  response_cb_def gabble_request_pipeline_create_zombie_def gabble_request_pipeline_go.simps
  send_next_request.simps delete_item_def delayed_run_pipeline_def rp_emit_def Let_def
  REQUEST_PIPELINE_SIZE_def numeral_eq_Suc

lemma rp_demo_run:
  "legal_run rp_legal (rp_step rp_demo_sends) rp_demo gabble_request_pipeline_init"
  "\<exists>s. run (rp_step rp_demo_sends) rp_demo gabble_request_pipeline_init = Some s
    \<and> rp_crypt_items s = [3, 1] \<and> rp_pending_items s = [] \<and> \<not> rp_dispose_has_run s
    \<and> 7 \<in> set (rp_items_in_flight s)"
  by (simp_all add: rp_exec)

text \<open>C3. Every request is answered exactly once: after any history of enqueueing, cancelling, replies,
  timeouts, idle runs and disposal the pipeline has not crashed, and the callback of each request
  ever enqueued has been called once, except for those still pending or in flight, whose callback
  has not been called.\<close>

theorem rp_callbacks_exactly_once:
  assumes "legal_run rp_legal (rp_step sends) xs gabble_request_pipeline_init"
  shows "\<exists>s. run (rp_step sends) xs gabble_request_pipeline_init = Some s
    \<and> (\<forall>i. count_list (rp_called_items (rp_trace s)) i =
        (if i < length (filter rp_is_enqueue xs)
           \<and> i \<notin> set (rp_pending_items s) \<and> i \<notin> set (rp_items_in_flight s) then 1 else 0))"
proof -
  from rp_sys.run_safe [OF rp_inv_init assms] obtain s where
    s: "run (rp_step sends) xs gabble_request_pipeline_init = Some s" "rp_inv s" by blast
  have "rp_next s = length (filter rp_is_enqueue xs)"
    using rp_run_next [OF rp_inv_init assms s(1)] by (simp add: gabble_request_pipeline_init_def)
  with s show ?thesis
    by (auto simp: rp_inv_def rp_base_def rp_requests_ok_def count_list_distinct)
qed

theorem rp_callbacks_exactly_once_witness:
  "\<exists>s. run (rp_step rp_demo_sends) rp_demo gabble_request_pipeline_init = Some s
    \<and> map (count_list (rp_called_items (rp_trace s))) [0, 7, 12] = [1, 0, 0]"
proof -
  from rp_demo_run(2) obtain s where
    s: "run (rp_step rp_demo_sends) rp_demo gabble_request_pipeline_init = Some s"
      "rp_pending_items s = []" "7 \<in> set (rp_items_in_flight s)" by blast
  have "0 \<notin> set (rp_items_in_flight s)" using s(1) by (auto simp: rp_exec)
  moreover have "length (filter rp_is_enqueue rp_demo) = 12" by (simp add: rp_demo_def)
  ultimately show ?thesis using rp_callbacks_exactly_once [OF rp_demo_run(1)] s by auto
qed

text \<open>C33. Disposing of the pipeline always completes; it answers every request that had not been
  answered and frees all items, zombies included.\<close>

theorem rp_dispose_answers_all:
  assumes "legal_run rp_legal (rp_step sends) xs gabble_request_pipeline_init"
    and "run (rp_step sends) xs gabble_request_pipeline_init = Some s"
    and "\<not> rp_dispose_has_run s"
  shows "\<exists>s'. gabble_request_pipeline_dispose s = Some s'
    \<and> set (rp_called_items (rp_trace s')) = {..<length (filter rp_is_enqueue xs)}
    \<and> distinct (rp_called_items (rp_trace s')) \<and> rp_items s' = Map.empty"
proof -
  have inv: "rp_inv s" by (rule rp_sys.run_inv [OF rp_inv_init assms(1,2)])
  have "rp_next s = length (filter rp_is_enqueue xs)"
    using rp_run_next [OF rp_inv_init assms(1,2)] by (simp add: gabble_request_pipeline_init_def)
  moreover from inv have "rp_base s" by (simp add: rp_inv_def)
  from dispose_base [OF this assms(3)] obtain s' where
    "gabble_request_pipeline_dispose s = Some s'" "rp_base s'" "rp_pending_items s' = []"
    "rp_items_in_flight s' = []" "rp_crypt_items s' = []" "rp_next s' = rp_next s" by blast
  ultimately show ?thesis
    by (auto simp: rp_base_def rp_requests_ok_def rp_heap_ok_def)
qed

theorem rp_dispose_answers_all_witness:
  "\<exists>s s'. run (rp_step rp_demo_sends) rp_demo gabble_request_pipeline_init = Some s
    \<and> gabble_request_pipeline_dispose s = Some s'
    \<and> set (rp_called_items (rp_trace s')) = {..<12} \<and> rp_items s' = Map.empty"
proof -
  from rp_demo_run(2) obtain s where
    s: "run (rp_step rp_demo_sends) rp_demo gabble_request_pipeline_init = Some s"
      "\<not> rp_dispose_has_run s" by blast
  have "length (filter rp_is_enqueue rp_demo) = 12" by (simp add: rp_demo_def)
  then show ?thesis using rp_dispose_answers_all [OF rp_demo_run(1) s] s(1) by auto
qed

text \<open>The window and the order: at most \<open>REQUEST_PIPELINE_SIZE\<close> requests are in flight, requests
  are sent in the order they were enqueued and never twice, and none is sent once another enqueued
  before it is still waiting.\<close>

theorem rp_window_and_order:
  assumes "legal_run rp_legal (rp_step sends) xs gabble_request_pipeline_init"
    and "run (rp_step sends) xs gabble_request_pipeline_init = Some s"
  shows "length (rp_items_in_flight s) \<le> REQUEST_PIPELINE_SIZE
    \<and> sorted_wrt (<) (rp_sent_items (rp_trace s) @ rp_pending_items s)"
  using rp_sys.run_inv [OF rp_inv_init assms] by (simp add: rp_inv_def rp_base_def rp_requests_ok_def)

theorem rp_window_and_order_witness:
  "\<exists>s. run (rp_step rp_demo_sends) rp_demo gabble_request_pipeline_init = Some s
    \<and> length (rp_items_in_flight s) \<le> REQUEST_PIPELINE_SIZE
    \<and> sorted_wrt (<) (rp_sent_items (rp_trace s) @ rp_pending_items s)"
  using rp_demo_run(2) rp_window_and_order [OF rp_demo_run(1)] by blast

text \<open>C4. The pipeline does not stall: whenever requests wait although there is room, an idle run is
  scheduled, and that run sends requests until the queue is empty or the window is full.\<close>

theorem rp_no_stall:
  assumes "legal_run rp_legal (rp_step sends) xs gabble_request_pipeline_init"
    and "run (rp_step sends) xs gabble_request_pipeline_init = Some s"
    and "rp_pending_items s \<noteq> []" and "length (rp_items_in_flight s) < REQUEST_PIPELINE_SIZE"
  shows "0 < rp_idle s \<and> (\<exists>s'. delayed_run_pipeline sends s = Some s'
    \<and> (rp_pending_items s' = [] \<or> length (rp_items_in_flight s') = REQUEST_PIPELINE_SIZE))"
proof -
  have inv: "rp_inv s" by (rule rp_sys.run_inv [OF rp_inv_init assms(1,2)])
  then have "rp_base (s\<lparr>rp_idle := rp_idle s - 1\<rparr>)" by (simp add: rp_inv_def rp_ok_defs)
  from go_base [OF this] inv assms(3,4) show ?thesis
    by (auto simp: rp_inv_def delayed_run_pipeline_def)
qed

theorem rp_no_stall_witness:
  "\<exists>s. run (rp_step rp_demo_sends) (take 12 rp_demo) gabble_request_pipeline_init = Some s
    \<and> 0 < rp_idle s \<and> (\<exists>s'. delayed_run_pipeline rp_demo_sends s = Some s'
      \<and> (rp_pending_items s' = [] \<or> length (rp_items_in_flight s') = REQUEST_PIPELINE_SIZE))"
proof -
  have l: "legal_run rp_legal (rp_step rp_demo_sends) (take 12 rp_demo) gabble_request_pipeline_init"
    by (simp add: rp_exec)
  obtain s where s:
      "run (rp_step rp_demo_sends) (take 12 rp_demo) gabble_request_pipeline_init = Some s"
      "rp_pending_items s \<noteq> []" "length (rp_items_in_flight s) < REQUEST_PIPELINE_SIZE"
    by (simp add: rp_exec)
  from rp_no_stall [OF l s] s(1) show ?thesis by blast
qed

text \<open>A late reply to a cancelled or timed-out request changes nothing: the item stays in
  \<open>crypt_items\<close> until the pipeline is disposed of.\<close>

theorem rp_zombie_reply_ignored:
  assumes "legal_run rp_legal (rp_step sends) xs gabble_request_pipeline_init"
    and "run (rp_step sends) xs gabble_request_pipeline_init = Some s"
    and "i \<in> set (rp_crypt_items s)"
  shows "response_cb sends i e s = Some s \<and> rp_items s i \<noteq> None"
proof -
  have heap: "rp_heap_ok s"
    using rp_sys.run_inv [OF rp_inv_init assms(1,2)] by (simp add: rp_inv_def rp_base_def)
  with assms(3) rp_live [OF heap, of i] show ?thesis
    by (auto simp: rp_heap_ok_def response_cb_def)
qed

theorem rp_zombie_reply_ignored_witness:
  "\<exists>s. run (rp_step rp_demo_sends) rp_demo gabble_request_pipeline_init = Some s
    \<and> response_cb rp_demo_sends 3 False s = Some s \<and> rp_items s 3 \<noteq> None"
proof -
  from rp_demo_run(2) obtain s where
    s: "run (rp_step rp_demo_sends) rp_demo gabble_request_pipeline_init = Some s"
      "rp_crypt_items s = [3, 1]" by blast
  with rp_zombie_reply_ignored [OF rp_demo_run(1) s(1), of 3 False] show ?thesis by auto
qed

end
