(* ===== verification/Presence_Stanza.thy ===== *)
theory Presence_Stanza
  imports Presence
begin

text \<open>
  Presence stanzas: how our own presence is written (\<open>gabble_presence_add_status_and_vcard\<close> and
  \<open>gabble_presence_as_message\<close> in \<open>src/presence.c\<close>) and how a contact's is read
  (\<open>_presence_node_get_status\<close> and the beginning of \<open>gabble_presence_parse_presence_message\<close> in
  \<open>src/presence-cache.c\<close>). \<open>conn_presence_get_type\<close>, which maps a plugin's status to a Telepathy
  presence type, is the parameter \<open>get_type\<close>.
\<close>

datatype TpConnectionPresenceType =
    TP_CONNECTION_PRESENCE_TYPE_AVAILABLE
  | TP_CONNECTION_PRESENCE_TYPE_OFFLINE
  | TP_CONNECTION_PRESENCE_TYPE_HIDDEN
  | TP_CONNECTION_PRESENCE_TYPE_AWAY
  | TP_CONNECTION_PRESENCE_TYPE_BUSY
  | TP_CONNECTION_PRESENCE_TYPE_EXTENDED_AWAY
  | TP_CONNECTION_PRESENCE_TYPE_OTHER

definition JABBER_PRESENCE_SHOW_AWAY :: string where "JABBER_PRESENCE_SHOW_AWAY = ''away''"
definition JABBER_PRESENCE_SHOW_CHAT :: string where "JABBER_PRESENCE_SHOW_CHAT = ''chat''"
definition JABBER_PRESENCE_SHOW_DND :: string where "JABBER_PRESENCE_SHOW_DND = ''dnd''"
definition JABBER_PRESENCE_SHOW_XA :: string where "JABBER_PRESENCE_SHOW_XA = ''xa''"

lemmas presence_shows = JABBER_PRESENCE_SHOW_AWAY_def JABBER_PRESENCE_SHOW_CHAT_def
  JABBER_PRESENCE_SHOW_DND_def JABBER_PRESENCE_SHOW_XA_def

text \<open>The two nested switches on the status: what goes into \<open>show\<close>, if anything.\<close>

definition presence_show :: "(nat \<Rightarrow> TpConnectionPresenceType) \<Rightarrow> nat \<Rightarrow> cstring" where
  "presence_show get_type status =
     (if status = GABBLE_PRESENCE_AVAILABLE \<or> status = GABBLE_PRESENCE_OFFLINE
         \<or> status = GABBLE_PRESENCE_HIDDEN then None
      else if status = GABBLE_PRESENCE_AWAY then Some JABBER_PRESENCE_SHOW_AWAY
      else if status = GABBLE_PRESENCE_CHAT then Some JABBER_PRESENCE_SHOW_CHAT
      else if status = GABBLE_PRESENCE_DND then Some JABBER_PRESENCE_SHOW_DND
      else if status = GABBLE_PRESENCE_XA then Some JABBER_PRESENCE_SHOW_XA
      else case get_type status of
             TP_CONNECTION_PRESENCE_TYPE_AWAY \<Rightarrow> Some JABBER_PRESENCE_SHOW_AWAY
           | TP_CONNECTION_PRESENCE_TYPE_BUSY \<Rightarrow> Some JABBER_PRESENCE_SHOW_DND
           | TP_CONNECTION_PRESENCE_TYPE_EXTENDED_AWAY \<Rightarrow> Some JABBER_PRESENCE_SHOW_XA
           | _ \<Rightarrow> None)"

definition add_child_opt :: "string \<Rightarrow> cstring \<Rightarrow> WockyNode \<Rightarrow> WockyNode" where
  "add_child_opt name content node =
     (case content of None \<Rightarrow> node | Some c \<Rightarrow> wocky_node_add_child_with_content node name c)"

definition gabble_presence_add_status_and_vcard ::
    "(nat \<Rightarrow> TpConnectionPresenceType) \<Rightarrow> presence \<Rightarrow> WockyNode \<Rightarrow> WockyNode option" where
  "gabble_presence_add_status_and_vcard get_type p node =
     (case presence_message p of
        None \<Rightarrow> None
      | Some message \<Rightarrow>
          let node1 = add_child_opt ''show'' (presence_show get_type (pres_status p)) node;
              node2 = add_child_opt ''status'' message node1
          in Some (wocky_node_add_child_with_content_ns node2 ''x'' None (Some NS_VCARD_TEMP_UPDATE)
               (case pres_avatar_sha1 p of
                  None \<Rightarrow> []
                | Some sha1 \<Rightarrow>
                    [WockyNode ''photo'' (Some sha1) (Some NS_VCARD_TEMP_UPDATE) [] []])))"

definition gabble_presence_as_message ::
    "(nat \<Rightarrow> TpConnectionPresenceType) \<Rightarrow> cstring \<Rightarrow> presence \<Rightarrow> WockyNode option" where
  "gabble_presence_as_message get_type to p =
     (case pres_resources p of
        [] \<Rightarrow> None
      | res # _ \<Rightarrow>
          let top = WockyNode ''presence'' None (Some ''jabber:client'') [] [];
              top1 = (if pres_status p = GABBLE_PRESENCE_OFFLINE
                      then wocky_node_set_attribute top ''type'' ''unavailable'' else top);
              top2 = (case to of None \<Rightarrow> top1 | Some t \<Rightarrow> wocky_node_set_attribute top1 ''to'' t)
          in (case gabble_presence_add_status_and_vcard get_type p top2 of
                None \<Rightarrow> None
              | Some message \<Rightarrow>
                  Some (if res_priority res \<noteq> 0
                        then wocky_node_add_child_with_content message ''priority''
                               (show_int (sint (res_priority res)))
                        else message)))"

section \<open>Reading\<close>

definition presence_node_get_status :: "WockyNode \<Rightarrow> nat" where
  "presence_node_get_status pres_node =
     (case wocky_node_get_content_from_child pres_node ''show'' of
        None \<Rightarrow> GABBLE_PRESENCE_AVAILABLE
      | Some show \<Rightarrow>
          if show = JABBER_PRESENCE_SHOW_AWAY then GABBLE_PRESENCE_AWAY
          else if show = JABBER_PRESENCE_SHOW_CHAT then GABBLE_PRESENCE_CHAT
          else if show = JABBER_PRESENCE_SHOW_DND then GABBLE_PRESENCE_DND
          else if show = JABBER_PRESENCE_SHOW_XA then GABBLE_PRESENCE_XA
          else GABBLE_PRESENCE_AVAILABLE)"

definition clamp :: "int \<Rightarrow> int \<Rightarrow> int \<Rightarrow> int" where
  "clamp x lo hi = (if x > hi then hi else if x < lo then lo else x)"

definition parse_priority :: "cstring \<Rightarrow> gint8" where
  "parse_priority prio =
     (case prio of None \<Rightarrow> 0 | Some s \<Rightarrow> word_of_int (clamp (atoi s) (- 128) 127))"

text \<open>The status, message and priority a presence stanza without type, or of type \<open>unavailable\<close>, hands
  to \<open>gabble_presence_cache_update\<close>; \<open>sends_to_us\<close> is what the roster says of the contact's
  subscription. Other types do not get here or take other paths.\<close>

definition parse_presence_fields :: "bool \<Rightarrow> WockyNode \<Rightarrow> (nat \<times> cstring \<times> gint8) option" where
  "parse_presence_fields sends_to_us node =
     (let status_message = wocky_node_get_content_from_child node ''status'';
          priority = parse_priority (wocky_node_get_content_from_child node ''priority'')
      in case wocky_node_get_attribute node ''type'' of
           None \<Rightarrow> Some (presence_node_get_status node, status_message, priority)
         | Some t \<Rightarrow>
             if t = ''unavailable''
             then Some (if sends_to_us then GABBLE_PRESENCE_OFFLINE else GABBLE_PRESENCE_UNKNOWN,
                        status_message, priority)
             else None)"

lemma parse_priority_show: "parse_priority (Some (show_int (sint (p :: gint8)))) = p"
proof -
  have b: "- 128 \<le> sint p" "sint p \<le> 127"
    using sint_greater_eq [of p] sint_less [of p] by auto
  then have "strtol (show_int (sint p)) = (sint p, [])"
    by (intro strtol_show_int) (simp add: LONG_MAX_def)
  moreover have "sint (word_of_int (sint p) :: 32 word) = sint p"
    unfolding sint_sbintrunc' using b by (intro signed_take_bit_int_eq_self) auto
  ultimately show ?thesis using b by (simp add: parse_priority_def atoi_def clamp_def)
qed

section \<open>Writing and reading\<close>

lemma content_from_added_child:
  "wocky_node_get_content_from_child (wocky_node_add_child_with_content_ns node n c ns sub) name =
     (case wocky_node_get_child node name of
        Some child \<Rightarrow> node_content child
      | None \<Rightarrow> if n = name then c else None)"
  by (cases node)
    (auto simp: wocky_node_get_content_from_child_def wocky_node_get_child_def
      wocky_node_get_child_ns_def node_compare_child_def find_append split: option.splits)

lemma child_of_added:
  "wocky_node_get_child (wocky_node_add_child_with_content_ns node n c ns sub) name =
     (case wocky_node_get_child node name of
        Some child \<Rightarrow> Some child
      | None \<Rightarrow> if n = name
                then Some (WockyNode n c (case ns of None \<Rightarrow> node_ns node | Some x \<Rightarrow> Some x) [] sub)
                else None)"
  by (cases node)
    (auto simp: wocky_node_get_child_def wocky_node_get_child_ns_def node_compare_child_def
      find_append split: option.splits)

lemma attribute_of_added [simp]:
  "wocky_node_get_attribute (wocky_node_add_child_with_content_ns node n c ns sub) key =
     wocky_node_get_attribute node key"
  by (cases node) (simp add: wocky_node_get_attribute_def wocky_node_get_attribute_ns_def)

lemma child_of_attribute [simp]:
  "wocky_node_get_child (wocky_node_set_attribute node k v) name = wocky_node_get_child node name"
  by (cases node) (simp add: wocky_node_set_attribute_def wocky_node_get_child_def
      wocky_node_get_child_ns_def)

text \<open>The status a reader gets for the status a writer had: being hidden reads as available.\<close>

definition presence_seen_as :: "nat \<Rightarrow> nat" where
  "presence_seen_as status =
     (if status = GABBLE_PRESENCE_HIDDEN then GABBLE_PRESENCE_AVAILABLE else status)"



end
