(* ===== verification/Presence_Cache.thy ===== *)
theory Presence_Cache
  imports Presence_Stanza Jids "HOL-Library.AList" "HOL-Library.Sublist"
begin

text \<open>
  The presence cache (\<open>src/presence-cache.c\<close>): the presences of all contacts, and what the capability nodes they
  announce mean. A node is looked up by service discovery; its meaning is trusted when the reply matches the
  announced hash, or when five contacts gave the same reply, and is then applied to everybody who
  announces the node.

  A \<open>TpHandle\<close> is a number; the repository that gives contacts their handles is the parameter \<open>pc_ensure\<close>
  (0 for an invalid JID) and \<open>pc_inspect\<close>. The roster, the settings of the connection and the checksum are
  parameters too. The cache of discovery replies shared by all connections (\<open>WockyCapsCache\<close>, a database) is
  the field \<open>pc_shared\<close>: entries are added here and may disappear at any time. \<open>pc_discos\<close> are the discovery
  requests that have not been answered. Request counts and the number of waiters are taken to be
  below the limit of a \<open>guint\<close>. The events \<open>EV_report\<close>, \<open>EV_own\<close> and \<open>EV_caps_set\<close> are not visible outside; they record which
  replies were taken into account (with whether the fragment of the node is the hash of the reply), which
  capabilities we announced ourselves and which were given to a contact.
\<close>

section \<open>State\<close>

definition CAPABILITY_BUNDLE_ENOUGH_TRUST :: guint where
  "CAPABILITY_BUNDLE_ENOUGH_TRUST = 5"

definition NS_CAPS :: string where "NS_CAPS = ''http://jabber.org/protocol/caps''"
definition NS_GABBLE_CAPS :: string where "NS_GABBLE_CAPS = ''http://telepathy.freedesktop.org/caps''"
definition NS_TEMPPRES :: string where "NS_TEMPPRES = ''urn:xmpp:temppres:0''"
definition BUNDLE_SHARE_V1 :: string where "BUNDLE_SHARE_V1 = ''share-v1''"
definition BUNDLE_VOICE_V1 :: string where "BUNDLE_VOICE_V1 = ''voice-v1''"
definition BUNDLE_VIDEO_V1 :: string where "BUNDLE_VIDEO_V1 = ''video-v1''"
definition BUNDLE_CAMERA_V1 :: string where "BUNDLE_CAMERA_V1 = ''camera-v1''"
definition BUNDLE_PMUC_V1 :: string where "BUNDLE_PMUC_V1 = ''pmuc-v1''"

definition GABBLE_PRESENCE_ERROR :: nat where
  "GABBLE_PRESENCE_ERROR = GABBLE_PRESENCE_LAST_UNAVAILABLE"

definition GABBLE_CLIENT_TYPE_PHONE :: guint where
  "GABBLE_CLIENT_TYPE_PHONE = 32"

definition QUIRK_GOOGLE_WEBMAIL_CLIENT :: string where
  "QUIRK_GOOGLE_WEBMAIL_CLIENT = QUIRK_PREFIX_CHAR # ''google-webmail-client''"

definition QUIRK_ANDROID_GTALK_CLIENT :: string where
  "QUIRK_ANDROID_GTALK_CLIENT = QUIRK_PREFIX_CHAR # ''android-gtalk-client''"

record DiscoWaiter =
  dw_handle :: nat
  dw_resource :: cstring
  dw_serial :: guint
  dw_disco_requested :: bool
  dw_hash :: cstring
  dw_ver :: cstring

record GabbleCapabilityInfo =
  ci_cap_set :: "GabbleCapabilitySet option"
  ci_identities :: "WockyDiscoIdentity list option"
  ci_data_forms :: "WockyDataForm list option"
  ci_guys :: "nat set"
  ci_trust :: guint
  ci_client_types :: guint
  ci_complete :: bool

text \<open>The fields of a \<open>GabblePresence\<close> that only the cache and its callers use are kept beside it.\<close>

record cached_presence =
  cp_presence :: presence
  cp_nickname :: cstring
  cp_keep_unavailable :: bool

datatype pc_event =
    EV_presences_updated "nat list"
  | EV_nickname_update nat
  | EV_capabilities_update nat GabbleCapabilitySet GabbleCapabilitySet
  | EV_avatar_update nat string
  | EV_capabilities_discovered nat
  | EV_location_updated nat
  | EV_unsure_period_ended
  | EV_client_types_updated nat
  | EV_disco_request string string
  | EV_invalidate_vcard nat
  | EV_request_vcard nat
  | EV_signal_own_presence
  | EV_decloak_requested nat string bool
  | EV_send_capabilities string
  | EV_request_decloak string string
  | EV_report string nat GabbleCapabilitySet bool
  | EV_own string GabbleCapabilitySet
  | EV_caps_set nat string GabbleCapabilitySet

datatype connection_status =
    TP_CONNECTION_STATUS_CONNECTING | TP_CONNECTION_STATUS_CONNECTED | TP_CONNECTION_STATUS_DISCONNECTED

record presence_cache =
  pc_status :: connection_status
  pc_self_avatar :: cstring
  pc_presence :: "nat \<rightharpoonup> cached_presence"
  pc_presence_handles :: "nat set"
  pc_capabilities :: "string \<rightharpoonup> GabbleCapabilityInfo"
  pc_disco_pending :: "(string \<times> DiscoWaiter list) list"
  pc_caps_serial :: guint
  pc_unsure :: bool
  pc_decloak_requests :: "(nat \<times> string) list"
  pc_decloak_handles :: "nat set"
  pc_location :: "nat \<rightharpoonup> nat"
  pc_avatar_reset_pending :: bool
  pc_shared :: "string \<rightharpoonup> WockyNode"
  pc_discos :: "(string \<times> string) list"
  pc_events :: "pc_event list"

record pc_env =
  pc_ensure :: "string \<Rightarrow> nat"
  pc_inspect :: "nat \<Rightarrow> string"
  pc_strdown :: "string \<Rightarrow> string"
  pc_digest :: "string \<Rightarrow> string"
  pc_self_handle :: nat
  pc_full_jid :: string
  pc_sends_presence_to_us :: "nat \<Rightarrow> bool"
  pc_decloak_automatically :: bool

definition pc_emit :: "pc_event list \<Rightarrow> presence_cache \<Rightarrow> presence_cache" where
  "pc_emit es c = c\<lparr>pc_events := pc_events c @ es\<rparr>"

section \<open>Waiters and capability infos\<close>

definition disco_waiter_new :: "nat \<Rightarrow> cstring \<Rightarrow> cstring \<Rightarrow> cstring \<Rightarrow> guint \<Rightarrow> DiscoWaiter" where
  "disco_waiter_new handle resource hash ver serial =
     \<lparr>dw_handle = handle, dw_resource = resource, dw_serial = serial, dw_disco_requested = False, dw_hash = hash,
      dw_ver = ver\<rparr>"

definition waiter_trust :: "DiscoWaiter \<Rightarrow> nat" where
  "waiter_trust w =
     (if dw_disco_requested w
      then if dw_hash w = Some ''sha-1'' then unat CAPABILITY_BUNDLE_ENOUGH_TRUST else 1 else 0)"

definition disco_waiter_list_get_request_count :: "DiscoWaiter list \<Rightarrow> nat" where
  "disco_waiter_list_get_request_count ws = sum_list (map waiter_trust ws)"

definition capability_info_new :: GabbleCapabilityInfo where
  "capability_info_new =
     \<lparr>ci_cap_set = None, ci_identities = None, ci_data_forms = None, ci_guys = {}, ci_trust = 0,
      ci_client_types = 0, ci_complete = False\<rparr>"

text \<open>The info of a node, created if there is none.\<close>

definition capability_info_get :: "string \<Rightarrow> presence_cache \<Rightarrow> GabbleCapabilityInfo \<times> presence_cache" where
  "capability_info_get node c =
     (case pc_capabilities c node of
        Some info \<Rightarrow> (info, c)
      | None \<Rightarrow> (capability_info_new, c\<lparr>pc_capabilities := (pc_capabilities c)(node \<mapsto> capability_info_new)\<rparr>))"

definition put_info :: "string \<Rightarrow> GabbleCapabilityInfo \<Rightarrow> presence_cache \<Rightarrow> presence_cache" where
  "put_info node info c = c\<lparr>pc_capabilities := (pc_capabilities c)(node \<mapsto> info)\<rparr>"

text \<open>The data forms are replaced, or cleared, as \<open>replace_data_forms\<close> does.\<close>

definition info_recvd ::
    "nat \<Rightarrow> GabbleCapabilitySet \<Rightarrow> guint \<Rightarrow> guint \<Rightarrow> WockyDataForm list \<Rightarrow> GabbleCapabilityInfo \<Rightarrow> GabbleCapabilityInfo" where
  "info_recvd handle cap_set trust_inc client_types data_forms info =
     (let info1 = (if ci_cap_set info \<noteq> Some cap_set
                   then info\<lparr>ci_guys := {}, ci_cap_set := Some cap_set, ci_trust := 0\<rparr> else info);
          info2 = (if handle \<notin> ci_guys info1
                   then info1\<lparr>ci_guys := insert handle (ci_guys info1), ci_trust := ci_trust info1 + trust_inc\<rparr>
                   else info1)
      in info2\<lparr>ci_client_types := client_types, ci_data_forms := Some data_forms\<rparr>)"

definition capability_info_recvd ::
    "string \<Rightarrow> nat \<Rightarrow> GabbleCapabilitySet \<Rightarrow> guint \<Rightarrow> guint \<Rightarrow> WockyDataForm list \<Rightarrow> presence_cache \<Rightarrow>
     guint \<times> presence_cache" where
  "capability_info_recvd node handle cap_set trust_inc client_types data_forms c =
     (let (info, c1) = capability_info_get node c;
          info1 = info_recvd handle cap_set trust_inc client_types data_forms info
      in (ci_trust info1, put_info node info1 c1))"

definition waiters_for :: "string \<Rightarrow> presence_cache \<Rightarrow> DiscoWaiter list" where
  "waiters_for uri c = (case map_of (pc_disco_pending c) uri of None \<Rightarrow> [] | Some ws \<Rightarrow> ws)"

definition find_matching_waiter :: "DiscoWaiter list \<Rightarrow> nat \<Rightarrow> cstring \<Rightarrow> DiscoWaiter option" where
  "find_matching_waiter waiters godot resource =
     find (\<lambda>w. dw_handle w = godot \<and> dw_resource w = resource) waiters"

section \<open>The table of presences\<close>

definition cache_insert :: "nat \<Rightarrow> presence_cache \<Rightarrow> presence_cache" where
  "cache_insert handle c =
     c\<lparr>pc_presence := (pc_presence c)(handle \<mapsto>
         \<lparr>cp_presence = gabble_presence_init, cp_nickname = None, cp_keep_unavailable = False\<rparr>),
       pc_presence_handles := insert handle (pc_presence_handles c)\<rparr>"

definition put_presence :: "nat \<Rightarrow> presence \<Rightarrow> presence_cache \<Rightarrow> presence_cache" where
  "put_presence handle p c =
     c\<lparr>pc_presence := (pc_presence c)(handle := map_option (\<lambda>cp. cp\<lparr>cp_presence := p\<rparr>) (pc_presence c handle))\<rparr>"

definition gabble_presence_cache_really_remove :: "nat \<Rightarrow> presence_cache \<Rightarrow> presence_cache" where
  "gabble_presence_cache_really_remove handle c =
     c\<lparr>pc_presence := (pc_presence c)(handle := None), pc_presence_handles := pc_presence_handles c - {handle}\<rparr>"

text \<open>Reading the status message of a presence may be a use after free; freeing the presence, too.\<close>

definition gabble_presence_cache_maybe_remove :: "nat \<Rightarrow> presence_cache \<Rightarrow> presence_cache option" where
  "gabble_presence_cache_maybe_remove handle c =
     (case pc_presence c handle of
        None \<Rightarrow> Some c
      | Some cp \<Rightarrow>
          let p = cp_presence cp
          in if pres_status p = GABBLE_PRESENCE_OFFLINE \<or> pres_status p = GABBLE_PRESENCE_UNKNOWN
             then do {
               m \<leftarrow> presence_message p;
               if m = None \<and> \<not> cp_keep_unavailable cp
               then do { gabble_presence_finalize p; Some (gabble_presence_cache_really_remove handle c) }
               else Some c
             }
             else Some c)"

definition emit_capabilities_update ::
    "nat \<Rightarrow> GabbleCapabilitySet \<Rightarrow> GabbleCapabilitySet \<Rightarrow> presence_cache \<Rightarrow> presence_cache" where
  "emit_capabilities_update handle old_cap_set new_cap_set c =
     (if old_cap_set = new_cap_set then c
      else pc_emit [EV_capabilities_update handle old_cap_set new_cap_set] c)"

text \<open>Returns whether status or message changed, and \<open>update_client_types\<close>.\<close>

definition gabble_presence_cache_do_update ::
    "nat \<Rightarrow> cstring \<Rightarrow> nat \<Rightarrow> cstring \<Rightarrow> gint8 \<Rightarrow> int \<Rightarrow> presence_cache \<Rightarrow> (bool \<times> bool option \<times> presence_cache) option" where
  "gabble_presence_cache_do_update handle resource presence_id status_message priority now c =
     (let c1 = (if pc_presence c handle = None then cache_insert handle c else c)
      in case pc_presence c1 handle of
           None \<Rightarrow> None
         | Some cp \<Rightarrow>
             do {
               (ret, uct, p) \<leftarrow> gabble_presence_update resource presence_id status_message priority now (cp_presence cp);
               Some (ret, uct, emit_capabilities_update handle (pres_cap_set (cp_presence cp)) (pres_cap_set p)
                 (put_presence handle p c1))
             })"

definition gabble_presence_cache_update ::
    "nat \<Rightarrow> cstring \<Rightarrow> nat \<Rightarrow> cstring \<Rightarrow> gint8 \<Rightarrow> int \<Rightarrow> presence_cache \<Rightarrow> presence_cache option" where
  "gabble_presence_cache_update handle resource presence_id status_message priority now c =
     do {
       (ret, uct, c1) \<leftarrow> gabble_presence_cache_do_update handle resource presence_id status_message priority now c;
       gabble_presence_cache_maybe_remove handle
         (pc_emit ((if ret then [EV_presences_updated [handle]] else [])
             @ (if uct = Some True then [EV_client_types_updated handle] else [])) c1)
     }"

fun do_update_many ::
    "nat list \<Rightarrow> cstring \<Rightarrow> nat \<Rightarrow> cstring \<Rightarrow> gint8 \<Rightarrow> int \<Rightarrow> presence_cache \<Rightarrow> (nat list \<times> presence_cache) option" where
  "do_update_many [] resource presence_id status_message priority now c = Some ([], c)"
| "do_update_many (h # hs) resource presence_id status_message priority now c =
     do {
       (ret, _, c1) \<leftarrow> gabble_presence_cache_do_update h resource presence_id status_message priority now c;
       (updated, c2) \<leftarrow> do_update_many hs resource presence_id status_message priority now c1;
       Some (if ret then h # updated else updated, c2)
     }"

primrec maybe_remove_many :: "nat list \<Rightarrow> presence_cache \<Rightarrow> presence_cache option" where
  "maybe_remove_many [] c = Some c"
| "maybe_remove_many (h # hs) c = Option.bind (gabble_presence_cache_maybe_remove h c) (maybe_remove_many hs)"

definition gabble_presence_cache_update_many ::
    "nat list \<Rightarrow> cstring \<Rightarrow> nat \<Rightarrow> cstring \<Rightarrow> gint8 \<Rightarrow> int \<Rightarrow> presence_cache \<Rightarrow> presence_cache option" where
  "gabble_presence_cache_update_many handles resource presence_id status_message priority now c =
     do {
       (updated, c1) \<leftarrow> do_update_many handles resource presence_id status_message priority now c;
       maybe_remove_many handles (if updated \<noteq> [] then pc_emit [EV_presences_updated updated] c1 else c1)
     }"

section \<open>Reading presence stanzas\<close>

definition grab_nickname :: "nat \<Rightarrow> WockyNode \<Rightarrow> presence_cache \<Rightarrow> presence_cache" where
  "grab_nickname handle node c =
     (case wocky_node_get_child_ns node (Some ''nick'') (Some NS_NICK) of
        None \<Rightarrow> c
      | Some nick \<Rightarrow>
          (case pc_presence c handle of
             None \<Rightarrow> c
           | Some cp \<Rightarrow>
               if tp_strdiff (cp_nickname cp) (node_content nick)
               then pc_emit [EV_nickname_update handle]
                 (c\<lparr>pc_presence := (pc_presence c)(handle \<mapsto> cp\<lparr>cp_nickname := node_content nick\<rparr>)\<rparr>)
               else c))"

definition self_avatar_resolve_conflict :: "pc_env \<Rightarrow> presence_cache \<Rightarrow> presence_cache" where
  "self_avatar_resolve_conflict env c =
     (if pc_status c \<noteq> TP_CONNECTION_STATUS_CONNECTED then c
      else if pc_avatar_reset_pending c then c
      else pc_emit [EV_signal_own_presence, EV_invalidate_vcard (pc_self_handle env), EV_request_vcard (pc_self_handle env)]
        (c\<lparr>pc_avatar_reset_pending := True, pc_self_avatar := None\<rparr>))"

text \<open>The vCard arrived (with this photo hash) or not.\<close>

definition self_vcard_request_cb :: "nat \<Rightarrow> string option \<Rightarrow> presence_cache \<Rightarrow> presence_cache" where
  "self_vcard_request_cb handle sha1 c =
     (let c1 = c\<lparr>pc_avatar_reset_pending := False\<rparr>
      in case sha1 of None \<Rightarrow> c1 | Some s \<Rightarrow> pc_emit [EV_avatar_update handle s] c1)"

definition grab_avatar_sha1 :: "pc_env \<Rightarrow> nat \<Rightarrow> WockyNode \<Rightarrow> presence_cache \<Rightarrow> presence_cache" where
  "grab_avatar_sha1 env handle node c =
     (case (if handle = pc_self_handle env then Some (pc_self_avatar c)
            else map_option (\<lambda>cp. pres_avatar_sha1 (cp_presence cp)) (pc_presence c handle)) of
        None \<Rightarrow> c
      | Some avatar \<Rightarrow>
          (case Option.bind (wocky_node_get_child_ns node (Some ''x'') (Some NS_VCARD_TEMP_UPDATE))
                  (\<lambda>x. wocky_node_get_child x ''photo'') of
             None \<Rightarrow> c
           | Some photo \<Rightarrow>
               let sha1 = str_or_empty (node_content photo)
               in if tp_strdiff avatar (Some sha1)
                  then if handle = pc_self_handle env then self_avatar_resolve_conflict env c
                       else if pc_status c = TP_CONNECTION_STATUS_CONNECTED
                       then pc_emit [EV_invalidate_vcard handle, EV_avatar_update handle sha1]
                         (case pc_presence c handle of
                            None \<Rightarrow> c
                          | Some cp \<Rightarrow> put_presence handle ((cp_presence cp)\<lparr>pres_avatar_sha1 := Some sha1\<rparr>) c)
                       else c
                  else c))"

text \<open>\<open>g_strsplit (ext, " ", 0)\<close>.\<close>

fun strsplit_space :: "string \<Rightarrow> string list" where
  "strsplit_space [] = [[]]"
| "strsplit_space (x # xs) =
     (if x = CHR '' '' then [] # strsplit_space xs
      else case strsplit_space xs of w # ws \<Rightarrow> (x # w) # ws | [] \<Rightarrow> [[x]])"

definition g_strsplit_space :: "string \<Rightarrow> string list" where
  "g_strsplit_space s = (if s = [] then [] else strsplit_space s)"

text \<open>The fragments, with \<open>hash\<close>, \<open>ver\<close> and \<open>node\<close>; \<open>node\<close> is not set when there are no fragments.\<close>

definition parse_cap_bundles :: "WockyNode \<Rightarrow> string list \<times> cstring \<times> cstring \<times> string" where
  "parse_cap_bundles lm_node =
     (case wocky_node_get_child_ns lm_node (Some ''c'') (Some NS_CAPS) of
        None \<Rightarrow> ([], None, None, [])
      | Some cap_node \<Rightarrow>
          let hash = wocky_node_get_attribute cap_node ''hash''
          in (case wocky_node_get_attribute cap_node ''node'' of
                None \<Rightarrow> ([], hash, None, [])
              | Some node \<Rightarrow>
                  let ver = wocky_node_get_attribute cap_node ''ver'';
                      uris = (case ver of None \<Rightarrow> [] | Some v \<Rightarrow> [v])
                  in if hash \<noteq> None then (uris, hash, ver, node)
                     else (case wocky_node_get_attribute cap_node ''ext'' of
                             None \<Rightarrow> (uris, hash, ver, node)
                           | Some ext \<Rightarrow> (rev (g_strsplit_space ext) @ uris, hash, ver, node))))"

definition set_presence_caps ::
    "nat \<Rightarrow> cstring \<Rightarrow> GabbleCapabilitySet \<Rightarrow> WockyDataForm list \<Rightarrow> guint \<Rightarrow> presence_cache \<Rightarrow> presence_cache" where
  "set_presence_caps handle resource cap_set data_forms serial c =
     (case pc_presence c handle of
        None \<Rightarrow> c
      | Some cp \<Rightarrow>
          put_presence handle
            (snd (gabble_presence_set_capabilities resource cap_set data_forms serial (cp_presence cp))) c)"

definition parse_node :: "nat \<Rightarrow> WockyNode \<Rightarrow> cstring \<Rightarrow> guint \<Rightarrow> presence_cache \<Rightarrow> presence_cache" where
  "parse_node handle lm_node resource serial c =
     (case wocky_node_get_child_ns lm_node (Some ''c'') (Some NS_CAPS) of
        None \<Rightarrow> c
      | Some cap_node \<Rightarrow>
          let node = wocky_node_get_attribute cap_node ''node'';
              c1 = (if node = Some ''http://mail.google.com/xmpp/client/caps''
                    then set_presence_caps handle resource
                      {QUIRK_GOOGLE_WEBMAIL_CLIENT, QUIRK_OMITS_CONTENT_CREATORS} [] serial c
                    else c)
          in if node = Some ''http://www.android.com/gtalk/client/caps''
                \<or> node = Some ''http://www.android.com/gtalk/client/caps2''
             then set_presence_caps handle resource {QUIRK_ANDROID_GTALK_CLIENT} [] serial c1
             else c1)"

unbundle bit_operations_syntax

definition client_type_of :: "cstring \<Rightarrow> WockyNode \<Rightarrow> guint" where
  "client_type_of resource identity =
     (case (wocky_node_get_attribute identity ''category'', wocky_node_get_attribute identity ''type'') of
        (Some category, Some type) \<Rightarrow>
          if category = ''account'' \<and> map_option (take 7) resource = Some ''android'' \<and> type = ''registered''
          then GABBLE_CLIENT_TYPE_PHONE
          else if category = ''client'' then
            (case find (\<lambda>v. snd v = type) client_type_values of None \<Rightarrow> 0 | Some v \<Rightarrow> fst v)
          else 0
      | _ \<Rightarrow> 0)"

definition client_types_from_message :: "WockyNode \<Rightarrow> cstring \<Rightarrow> guint" where
  "client_types_from_message query_result resource =
     fold (\<lambda>identity types. types OR client_type_of resource identity)
       (wocky_node_iter query_result (Some ''identity'') (Some NS_DISCO_INFO)) 0"

definition data_forms_from_message :: "WockyNode \<Rightarrow> WockyDataForm list" where
  "data_forms_from_message node =
     List.map_filter (\<lambda>x. case wocky_data_form_new_from_node x of Inl _ \<Rightarrow> None | Inr form \<Rightarrow> Some form)
       (wocky_node_iter node (Some ''x'') (Some WOCKY_XMPP_NS_DATA))"

section \<open>Service discovery\<close>

definition gabble_disco_request :: "string \<Rightarrow> string \<Rightarrow> presence_cache \<Rightarrow> presence_cache" where
  "gabble_disco_request jid node c =
     pc_emit [EV_disco_request jid node] (c\<lparr>pc_discos := pc_discos c @ [(jid, node)]\<rparr>)"

definition redisco :: "pc_env \<Rightarrow> DiscoWaiter \<Rightarrow> string \<Rightarrow> presence_cache \<Rightarrow> presence_cache" where
  "redisco env waiter node c =
     (let waiter_jid = pc_inspect env (dw_handle waiter);
          full_jid = (case dw_resource waiter of None \<Rightarrow> waiter_jid | Some r \<Rightarrow> waiter_jid @ ''/'' @ r)
      in gabble_disco_request full_jid node c)"

definition put_waiters :: "string \<Rightarrow> DiscoWaiter list \<Rightarrow> presence_cache \<Rightarrow> presence_cache" where
  "put_waiters node ws c = c\<lparr>pc_disco_pending := AList.update node ws (pc_disco_pending c)\<rparr>"

definition remove_waiters :: "string \<Rightarrow> presence_cache \<Rightarrow> presence_cache" where
  "remove_waiters node c = c\<lparr>pc_disco_pending := AList.delete node (pc_disco_pending c)\<rparr>"

primrec request_first :: "DiscoWaiter list \<Rightarrow> (DiscoWaiter \<times> DiscoWaiter list) option" where
  "request_first [] = None"
| "request_first (w # ws) =
     (if \<not> dw_disco_requested w then Some (w, w\<lparr>dw_disco_requested := True\<rparr> # ws)
      else map_option (\<lambda>(v, vs). (v, w # vs)) (request_first ws))"

definition disco_failed :: "pc_env \<Rightarrow> string \<Rightarrow> presence_cache \<Rightarrow> presence_cache" where
  "disco_failed env node c =
     (case request_first (waiters_for node c) of
        Some (w, ws) \<Rightarrow> redisco env w node (put_waiters node ws c)
      | None \<Rightarrow> remove_waiters node c)"

definition set_caps_for ::
    "string \<Rightarrow> GabbleCapabilitySet \<Rightarrow> guint \<Rightarrow> WockyDataForm list \<Rightarrow> DiscoWaiter \<Rightarrow> presence_cache \<Rightarrow> presence_cache option" where
  "set_caps_for node cap_set client_types data_forms waiter c =
     (case pc_presence c (dw_handle waiter) of
        None \<Rightarrow> Some c
      | Some cp \<Rightarrow>
          let h = dw_handle waiter;
              p1 = snd (gabble_presence_set_capabilities (dw_resource waiter) cap_set data_forms (dw_serial waiter) (cp_presence cp));
              c1 = emit_capabilities_update h (pres_cap_set (cp_presence cp)) (pres_cap_set p1)
                     (pc_emit [EV_caps_set h node cap_set] (put_presence h p1 c))
          in do {
               (changed, p2) \<leftarrow> gabble_presence_update_client_types (dw_resource waiter) client_types p1;
               Some (pc_emit (if changed then [EV_client_types_updated h] else []) (put_presence h p2 c1))
             })"

text \<open>The loop that serves all waiters of a trusted node.\<close>

primrec serve_waiters ::
    "string \<Rightarrow> GabbleCapabilitySet \<Rightarrow> guint \<Rightarrow> WockyDataForm list \<Rightarrow> DiscoWaiter list \<Rightarrow> presence_cache \<Rightarrow> presence_cache option" where
  "serve_waiters node cap_set client_types data_forms [] c = Some c"
| "serve_waiters node cap_set client_types data_forms (w # ws) c =
     do {
       c1 \<leftarrow> set_caps_for node cap_set client_types data_forms w c;
       serve_waiters node cap_set client_types data_forms ws (pc_emit [EV_capabilities_discovered (dw_handle w)] c1)
     }"

text \<open>The loop that asks further waiters until the expected replies suffice: the waiters asked, and all of
  them.\<close>

fun ensure_requests :: "nat \<Rightarrow> DiscoWaiter list \<Rightarrow> DiscoWaiter list \<Rightarrow> DiscoWaiter list \<times> DiscoWaiter list" where
  "ensure_requests trust seen [] = ([], seen)"
| "ensure_requests trust seen (w # ws) =
     (if trust + disco_waiter_list_get_request_count (seen @ w # ws) \<ge> unat CAPABILITY_BUNDLE_ENOUGH_TRUST
      then ([], seen @ w # ws)
      else if \<not> dw_disco_requested w
      then (case ensure_requests trust (seen @ [w\<lparr>dw_disco_requested := True\<rparr>]) ws of (asked, all) \<Rightarrow> (w # asked, all))
      else ensure_requests trust (seen @ [w]) ws)"

text \<open>How much a reply is trusted: \<open>None\<close> when the hash is wrong or cannot be computed. A crash in the
  computation of the hash is the outer \<open>None\<close>; so is \<open>g_str_equal\<close> with a \<open>NULL\<close> version.\<close>

definition reply_trust_inc :: "pc_env \<Rightarrow> DiscoWaiter \<Rightarrow> WockyNode \<Rightarrow> guint option option" where
  "reply_trust_inc env waiter query_result =
     (if dw_hash waiter = Some ''sha-1'' then
        do {
          computed_hash \<leftarrow> wocky_caps_hash_compute_from_node (pc_digest env) query_result;
          case computed_hash of
            None \<Rightarrow> Some None
          | Some h \<Rightarrow>
              (case dw_ver waiter of
                 None \<Rightarrow> None
               | Some ver \<Rightarrow> Some (if ver = h then Some CAPABILITY_BUNDLE_ENOUGH_TRUST else None))
        }
      else Some (Some 1))"

text \<open>Not in the code: whether the reply is what a hashed node stands for. It is recorded in \<open>EV_report\<close>
  only.\<close>

definition matches_hash :: "pc_env \<Rightarrow> string \<Rightarrow> WockyNode \<Rightarrow> bool" where
  "matches_hash env uri query_result =
     (case wocky_caps_hash_compute_from_node (pc_digest env) query_result of
        Some (Some h) \<Rightarrow> suffix (''#'' @ h) uri
      | _ \<Rightarrow> False)"

text \<open>The part of \<open>_caps_disco_cb\<close> after the waiter has been found and the reply recorded.\<close>

definition caps_disco_finish ::
    "pc_env \<Rightarrow> string \<Rightarrow> WockyNode \<Rightarrow> DiscoWaiter \<Rightarrow> guint option \<Rightarrow> presence_cache \<Rightarrow> presence_cache option" where
  "caps_disco_finish env node query_result waiter_self trust c =
     (let waiters = waiters_for node c;
          cap_set = gabble_capability_set_new_from_stanza query_result;
          client_types = client_types_from_message query_result (dw_resource waiter_self);
          data_forms = data_forms_from_message query_result;
          t = (case trust of None \<Rightarrow> 0 | Some t \<Rightarrow> t)
      in if map_of (pc_disco_pending c) node = None then None
         else if t \<ge> CAPABILITY_BUNDLE_ENOUGH_TRUST
         then serve_waiters node cap_set client_types data_forms waiters
                ((remove_waiters node c)\<lparr>pc_shared := (pc_shared c)(node \<mapsto> query_result)\<rparr>)
         else do {
           c1 \<leftarrow> (if trust \<noteq> None then set_caps_for node cap_set client_types data_forms waiter_self (remove_waiters node c)
                  else Some (remove_waiters node c));
           (let (asked, ws) = ensure_requests (unat t) [] (remove1 waiter_self waiters);
                c2 = pc_emit [EV_capabilities_discovered (dw_handle waiter_self)] (put_waiters node ws c1)
            in Some (fold (\<lambda>w. redisco env w node) asked c2))
         })"

text \<open>\<open>query_result\<close> is \<open>None\<close> when the request failed.\<close>

definition caps_disco_cb :: "pc_env \<Rightarrow> string \<Rightarrow> cstring \<Rightarrow> WockyNode option \<Rightarrow> presence_cache \<Rightarrow> presence_cache option" where
  "caps_disco_cb env jid node query_result c =
     (case node of
        None \<Rightarrow> Some c
      | Some uri \<Rightarrow>
          (case query_result of
             None \<Rightarrow> Some (disco_failed env uri c)
           | Some reply \<Rightarrow>
               let handle = pc_ensure env jid
               in if handle = 0 then Some c
                  else case wocky_decode_jid (pc_strdown env) jid of
                    None \<Rightarrow> None
                  | Some (_, _, resource) \<Rightarrow>
                      (case find_matching_waiter (waiters_for uri c) handle resource of
                         None \<Rightarrow> Some c
                       | Some waiter_self \<Rightarrow>
                           do {
                             inc \<leftarrow> reply_trust_inc env waiter_self reply;
                             (let cap_set = gabble_capability_set_new_from_stanza reply
                              in case inc of
                                   None \<Rightarrow> caps_disco_finish env uri reply waiter_self None c
                                 | Some i \<Rightarrow>
                                     (let (trust, c1) = capability_info_recvd uri handle cap_set i
                                            (client_types_from_message reply (dw_resource waiter_self))
                                            (data_forms_from_message reply) c
                                      in caps_disco_finish env uri reply waiter_self (Some trust)
                                           (pc_emit [EV_report uri handle cap_set (matches_hash env uri reply)] c1)))
                           })))"

text \<open>The fragments Google's clients use; the inner option is the feature, if the fragment has one.\<close>

definition get_google_cap :: "string \<Rightarrow> string option option" where
  "get_google_cap fragment =
     (if fragment = ''voice-v1'' then Some (Some NS_GOOGLE_FEAT_VOICE)
      else if fragment = ''video-v1'' then Some (Some NS_GOOGLE_FEAT_VIDEO)
      else if fragment = ''share-v1'' then Some (Some NS_GOOGLE_FEAT_SHARE)
      else if fragment = ''sms-v1'' \<or> fragment = ''pmuc-v1'' \<or> fragment = ''camera-v1'' then Some None
      else None)"

definition forms_or_none :: "WockyDataForm list option \<Rightarrow> WockyDataForm list" where
  "forms_or_none forms = (case forms of None \<Rightarrow> [] | Some fs \<Rightarrow> fs)"

text \<open>The branch for a node whose meaning is known.\<close>

definition apply_known_caps ::
    "nat \<Rightarrow> cstring \<Rightarrow> guint \<Rightarrow> string \<Rightarrow> GabbleCapabilityInfo \<Rightarrow> WockyNode option \<Rightarrow> presence_cache \<Rightarrow> presence_cache option" where
  "apply_known_caps handle resource serial uri info cached_query_reply c =
     (case pc_presence c handle of
        None \<Rightarrow> Some c
      | Some cp \<Rightarrow>
          (case (case cached_query_reply of
                   Some query \<Rightarrow> Some (gabble_capability_set_new_from_stanza query)
                 | None \<Rightarrow> ci_cap_set info) of
             None \<Rightarrow> None
           | Some cap_set \<Rightarrow>
               let p1 = snd (gabble_presence_set_capabilities resource cap_set (forms_or_none (ci_data_forms info)) serial
                          (cp_presence cp));
                   types = (case cached_query_reply of
                              Some query \<Rightarrow> client_types_from_message query resource
                            | None \<Rightarrow> ci_client_types info)
               in do {
                    (changed, p2) \<leftarrow> gabble_presence_update_client_types resource types p1;
                    Some (pc_emit (EV_caps_set handle uri cap_set # (if changed then [EV_client_types_updated handle] else []))
                      (put_presence handle p2 c))
                  }))"

text \<open>The branch that waits for discovery.\<close>

definition wait_for_caps ::
    "string \<Rightarrow> string \<Rightarrow> guint \<Rightarrow> cstring \<Rightarrow> cstring \<Rightarrow> nat \<Rightarrow> cstring \<Rightarrow> guint \<Rightarrow> presence_cache \<Rightarrow> presence_cache" where
  "wait_for_caps jid uri trust hash ver handle resource serial c =
     (let waiters = waiters_for uri c
      in case find_matching_waiter waiters handle resource of
           Some waiter \<Rightarrow>
             put_waiters uri (map_first (\<lambda>w. dw_handle w = handle \<and> dw_resource w = resource)
               (\<lambda>w. w\<lparr>dw_serial := serial\<rparr>) waiters) c
         | None \<Rightarrow>
             let waiter = disco_waiter_new handle resource hash ver serial
             in if unat trust + disco_waiter_list_get_request_count waiters < unat CAPABILITY_BUNDLE_ENOUGH_TRUST
                then gabble_disco_request jid uri (put_waiters uri (waiter\<lparr>dw_disco_requested := True\<rparr> # waiters) c)
                else put_waiters uri (waiter # waiters) c)"

definition process_caps_uri ::
    "string \<Rightarrow> string \<Rightarrow> cstring \<Rightarrow> cstring \<Rightarrow> nat \<Rightarrow> cstring \<Rightarrow> guint \<Rightarrow> string \<Rightarrow> presence_cache \<Rightarrow> presence_cache option" where
  "process_caps_uri jid node hash ver handle resource serial fragment c =
     (let uri = node @ ''#'' @ fragment;
          (info, c1) = capability_info_get uri c
      in if pc_shared c1 uri \<noteq> None \<or> ci_trust info \<ge> CAPABILITY_BUNDLE_ENOUGH_TRUST \<or> handle \<in> ci_guys info
         then apply_known_caps handle resource serial uri info (pc_shared c1 uri) c1
         else case (if hash = None then get_google_cap fragment else None) of
           Some ns \<Rightarrow>
             Some (set_presence_caps handle resource (case ns of None \<Rightarrow> {} | Some n \<Rightarrow> {n}) [] serial c1)
         | None \<Rightarrow> Some (wait_for_caps jid uri (ci_trust info) hash ver handle resource serial c1))"

primrec process_caps_uris ::
    "string \<Rightarrow> string \<Rightarrow> cstring \<Rightarrow> cstring \<Rightarrow> nat \<Rightarrow> cstring \<Rightarrow> guint \<Rightarrow> string list \<Rightarrow> presence_cache \<Rightarrow> presence_cache option" where
  "process_caps_uris jid node hash ver handle resource serial [] c = Some c"
| "process_caps_uris jid node hash ver handle resource serial (u # us) c =
     Option.bind (process_caps_uri jid node hash ver handle resource serial u c)
       (process_caps_uris jid node hash ver handle resource serial us)"

text \<open>\<open>strchr (from, '/')\<close>, one character on.\<close>

definition resource_of :: "string \<Rightarrow> cstring" where
  "resource_of jid = snd (split_at (CHR ''/'') jid)"

text \<open>\<open>has_presence\<close> is whether the caller holds a pointer to the contact's presence; using it when the
  presence has been dropped from the table is a use after free.\<close>

definition process_caps :: "bool \<Rightarrow> nat \<Rightarrow> string \<Rightarrow> WockyNode \<Rightarrow> presence_cache \<Rightarrow> presence_cache option" where
  "process_caps has_presence handle jid lm_node c =
     (let serial = pc_caps_serial c;
          c1 = c\<lparr>pc_caps_serial := serial + 1\<rparr>;
          resource = resource_of jid;
          (uris, hash, ver, node) = parse_cap_bundles lm_node
      in if has_presence
         then (case pc_presence c1 handle of
                 None \<Rightarrow> None
               | Some cp \<Rightarrow>
                   do {
                     c2 \<leftarrow> process_caps_uris jid node hash ver handle resource serial uris
                            (parse_node handle lm_node resource serial c1);
                     case pc_presence c2 handle of
                       None \<Rightarrow> None
                     | Some cp' \<Rightarrow>
                         Some (emit_capabilities_update handle (pres_cap_set (cp_presence cp)) (pres_cap_set (cp_presence cp')) c2)
                   })
         else process_caps_uris jid node hash ver handle resource serial uris c1)"

definition presence_cache_check_for_decloak_request ::
    "pc_env \<Rightarrow> WockyNode \<Rightarrow> nat \<Rightarrow> string \<Rightarrow> presence_cache \<Rightarrow> presence_cache" where
  "presence_cache_check_for_decloak_request env presence_node handle jid c =
     (let c1 = (if map_of (pc_decloak_requests c) handle = None then c
                else c\<lparr>pc_decloak_requests := AList.delete handle (pc_decloak_requests c),
                       pc_decloak_handles := pc_decloak_handles c - {handle}\<rparr>)
      in case wocky_node_get_child_ns presence_node (Some ''temppres'') (Some NS_TEMPPRES) of
           None \<Rightarrow> c1
         | Some child \<Rightarrow>
             let decloak = pc_decloak_automatically env;
                 reason = str_or_empty (wocky_node_get_attribute child ''reason'')
             in pc_emit (EV_decloak_requested handle reason decloak # (if decloak then [EV_send_capabilities jid] else [])) c1)"

definition gabble_presence_parse_presence_message ::
    "pc_env \<Rightarrow> nat \<Rightarrow> string \<Rightarrow> WockyNode \<Rightarrow> int \<Rightarrow> presence_cache \<Rightarrow> (bool \<times> presence_cache) option" where
  "gabble_presence_parse_presence_message env handle jid message now c =
     (if jid = pc_full_jid env then Some (True, c)
      else if node_name message \<noteq> ''presence'' then None
      else
        let resource = resource_of jid;
            had_presence = (pc_presence c handle \<noteq> None);
            c1 = c\<lparr>pc_presence := (pc_presence c)(handle :=
                   map_option (\<lambda>cp. cp\<lparr>cp_keep_unavailable := False\<rparr>) (pc_presence c handle))\<rparr>;
            status_message = wocky_node_get_content_from_child message ''status'';
            priority = parse_priority (wocky_node_get_content_from_child message ''priority'');
            c2 = presence_cache_check_for_decloak_request env message handle jid c1;
            sub_type = snd (wocky_stanza_get_type_info message)
        in if sub_type = WOCKY_STANZA_SUB_TYPE_NONE \<or> sub_type = WOCKY_STANZA_SUB_TYPE_AVAILABLE then
             do {
               c3 \<leftarrow> gabble_presence_cache_update handle resource (presence_node_get_status message) status_message priority
                      now c2;
               c4 \<leftarrow> process_caps (had_presence \<or> pc_presence c3 handle \<noteq> None) handle jid message
                      (grab_avatar_sha1 env handle message (grab_nickname handle message c3));
               Some (True, c4)
             }
           else if sub_type = WOCKY_STANZA_SUB_TYPE_ERROR then
             (case wocky_stanza_extract_errors message of
                None \<Rightarrow> None
              | Some err \<Rightarrow>
                  map_option (Pair True)
                    (gabble_presence_cache_update handle resource GABBLE_PRESENCE_ERROR
                       (Some (if ex_message err = [] then wocky_xmpp_error_string (ex_core err) else ex_message err))
                       priority now c2))
           else if sub_type = WOCKY_STANZA_SUB_TYPE_UNAVAILABLE then
             map_option (Pair True)
               (gabble_presence_cache_update handle resource
                  (if pc_sends_presence_to_us env handle then GABBLE_PRESENCE_OFFLINE else GABBLE_PRESENCE_UNKNOWN)
                  status_message priority now c2)
           else Some (False, c2))"

text \<open>The handlers of the porter; they return whether the stanza was handled.\<close>

definition gabble_presence_cache_presence_cb ::
    "pc_env \<Rightarrow> WockyNode \<Rightarrow> int \<Rightarrow> presence_cache \<Rightarrow> (bool \<times> presence_cache) option" where
  "gabble_presence_cache_presence_cb env message now c =
     (case wocky_node_get_attribute message ''from'' of
        None \<Rightarrow> Some (False, c)
      | Some jid \<Rightarrow>
          let handle = pc_ensure env jid
          in if handle = 0 then Some (False, c)
             else gabble_presence_parse_presence_message env handle jid message now c)"

definition parse_message_message :: "pc_env \<Rightarrow> WockyNode \<Rightarrow> presence_cache \<Rightarrow> bool \<times> presence_cache" where
  "parse_message_message env message c =
     (case wocky_node_get_attribute message ''from'' of
        None \<Rightarrow> (False, c)
      | Some jid \<Rightarrow>
          let handle = pc_ensure env jid;
              sub_type = snd (wocky_stanza_get_type_info message)
          in if handle = 0 then (False, c)
             else if sub_type \<notin> {WOCKY_STANZA_SUB_TYPE_NONE, WOCKY_STANZA_SUB_TYPE_NORMAL, WOCKY_STANZA_SUB_TYPE_CHAT,
                 WOCKY_STANZA_SUB_TYPE_GROUPCHAT} then (False, c)
             else
               let c1 = (if pc_presence c handle = None
                         then (let c0 = cache_insert handle c
                               in c0\<lparr>pc_presence := (pc_presence c0)(handle :=
                                    map_option (\<lambda>cp. cp\<lparr>cp_keep_unavailable := True\<rparr>) (pc_presence c0 handle))\<rparr>)
                         else c)
               in (False, grab_nickname handle message c1))"

section \<open>Our own capabilities\<close>

definition gabble_presence_cache_add_bundle_caps :: "string \<Rightarrow> string \<Rightarrow> presence_cache \<Rightarrow> presence_cache" where
  "gabble_presence_cache_add_bundle_caps node namespace c =
     (let (info, c1) = capability_info_get node c;
          caps = (case ci_cap_set info of None \<Rightarrow> {} | Some s \<Rightarrow> s)
      in pc_emit [EV_own node (gabble_capability_set_add caps namespace)]
           (put_info node (info\<lparr>ci_cap_set := Some (gabble_capability_set_add caps namespace),
              ci_trust := CAPABILITY_BUNDLE_ENOUGH_TRUST\<rparr>) c1))"

definition gabble_presence_cache_add_bundles :: "presence_cache \<Rightarrow> presence_cache" where
  "gabble_presence_cache_add_bundles c =
     fold (\<lambda>(bundle, ns). gabble_presence_cache_add_bundle_caps (NS_GABBLE_CAPS @ ''#'' @ bundle) ns)
       [(BUNDLE_VOICE_V1, NS_GOOGLE_FEAT_VOICE), (BUNDLE_VIDEO_V1, NS_GOOGLE_FEAT_VIDEO),
        (BUNDLE_SHARE_V1, NS_GOOGLE_FEAT_SHARE), (BUNDLE_CAMERA_V1, NS_GOOGLE_FEAT_CAMERA)] c"

definition gabble_presence_cache_init :: presence_cache where
  "gabble_presence_cache_init =
     \<lparr>pc_status = TP_CONNECTION_STATUS_CONNECTING, pc_self_avatar = None, pc_presence = Map.empty, pc_presence_handles = {},
      pc_capabilities = Map.empty, pc_disco_pending = [], pc_caps_serial = 1, pc_unsure = False,
      pc_decloak_requests = [], pc_decloak_handles = {}, pc_location = Map.empty, pc_avatar_reset_pending = False,
      pc_shared = Map.empty, pc_discos = [], pc_events = []\<rparr>"

definition gabble_presence_cache_constructor :: "(string \<rightharpoonup> WockyNode) \<Rightarrow> presence_cache" where
  "gabble_presence_cache_constructor shared =
     gabble_presence_cache_add_bundles (gabble_presence_cache_init\<lparr>pc_shared := shared\<rparr>)"

definition gabble_presence_cache_add_own_caps ::
    "pc_env \<Rightarrow> string \<Rightarrow> GabbleCapabilitySet \<Rightarrow> WockyDiscoIdentity list option \<Rightarrow> WockyDataForm list option \<Rightarrow>
     presence_cache \<Rightarrow> presence_cache" where
  "gabble_presence_cache_add_own_caps env ver cap_set identities data_forms c =
     (let uri = NS_GABBLE_CAPS @ ''#'' @ ver;
          (info, c1) = capability_info_get uri c
      in if ci_complete info then c1
         else pc_emit [EV_own uri cap_set]
           (put_info uri (info\<lparr>ci_cap_set := Some cap_set, ci_identities := identities, ci_complete := True,
              ci_trust := CAPABILITY_BUNDLE_ENOUGH_TRUST, ci_guys := insert (pc_self_handle env) (ci_guys info),
              ci_data_forms := data_forms\<rparr>) c1))"

text \<open>The outer option is the assertion that a complete info has capabilities.\<close>

definition gabble_presence_cache_peek_own_caps ::
    "string \<Rightarrow> presence_cache \<Rightarrow> (GabbleCapabilityInfo option \<times> presence_cache) option" where
  "gabble_presence_cache_peek_own_caps ver c =
     (let (info, c1) = capability_info_get (NS_GABBLE_CAPS @ ''#'' @ ver) c
      in if ci_complete info
         then if ci_cap_set info = None then None else Some (Some info, c1)
         else Some (None, c1))"

section \<open>Questions about contacts\<close>

definition gabble_presence_cache_caps_pending :: "nat \<Rightarrow> presence_cache \<Rightarrow> bool" where
  "gabble_presence_cache_caps_pending handle c \<longleftrightarrow>
     list_ex (\<lambda>(_, ws). list_ex (\<lambda>w. dw_handle w = handle) ws) (pc_disco_pending c)"

definition gabble_presence_cache_is_unsure :: "nat \<Rightarrow> presence_cache \<Rightarrow> bool" where
  "gabble_presence_cache_is_unsure handle c =
     (if (pc_status c \<noteq> TP_CONNECTION_STATUS_CONNECTED \<or> pc_unsure c)
         \<and> (case pc_presence c handle of None \<Rightarrow> True | Some cp \<Rightarrow> cp_keep_unavailable cp)
      then True
      else if gabble_presence_cache_caps_pending handle c then True
      else handle \<in> pc_decloak_handles c)"

definition gabble_presence_cache_disco_in_progress :: "nat \<Rightarrow> cstring \<Rightarrow> presence_cache \<Rightarrow> bool" where
  "gabble_presence_cache_disco_in_progress handle resource c \<longleftrightarrow>
     list_ex (\<lambda>(_, ws). list_ex (\<lambda>w. dw_handle w = handle \<and> dw_resource w = resource) ws) (pc_disco_pending c)"

section \<open>Timers, decloaking, locations and views\<close>

definition gabble_presence_cache_status_changed_cb :: "connection_status \<Rightarrow> presence_cache \<Rightarrow> presence_cache" where
  "gabble_presence_cache_status_changed_cb status c =
     (case status of
        TP_CONNECTION_STATUS_CONNECTED \<Rightarrow> c\<lparr>pc_status := status, pc_unsure := True\<rparr>
      | _ \<Rightarrow> c\<lparr>pc_status := status\<rparr>)"

definition gabble_presence_cache_end_unsure_period :: "presence_cache \<Rightarrow> presence_cache" where
  "gabble_presence_cache_end_unsure_period c = pc_emit [EV_unsure_period_ended] (c\<lparr>pc_unsure := False\<rparr>)"

text \<open>Freeing the context takes the handle off \<open>decloak_handles\<close>; the assertion checks it.\<close>

definition gabble_presence_cache_decloak_timeout_cb :: "nat \<Rightarrow> presence_cache \<Rightarrow> presence_cache option" where
  "gabble_presence_cache_decloak_timeout_cb handle c =
     (let c1 = (if map_of (pc_decloak_requests c) handle = None then c
                else c\<lparr>pc_decloak_requests := AList.delete handle (pc_decloak_requests c),
                       pc_decloak_handles := pc_decloak_handles c - {handle}\<rparr>)
      in if handle \<in> pc_decloak_handles c1 then None
         else Some (pc_emit [EV_capabilities_discovered handle] c1))"

text \<open>Replacing a context frees the old one, which takes the handle off the set before it is added again.\<close>

definition gabble_presence_cache_request_decloaking ::
    "pc_env \<Rightarrow> nat \<Rightarrow> string \<Rightarrow> presence_cache \<Rightarrow> bool \<times> presence_cache" where
  "gabble_presence_cache_request_decloaking env handle reason c =
     (if (case pc_presence c handle of
            None \<Rightarrow> False
          | Some cp \<Rightarrow> pres_status (cp_presence cp) \<noteq> GABBLE_PRESENCE_OFFLINE
              \<and> pres_status (cp_presence cp) \<noteq> GABBLE_PRESENCE_UNKNOWN)
      then (False, c)
      else if handle \<in> pc_decloak_handles c \<and> map_of (pc_decloak_requests c) handle = Some reason
      then (True, c)
      else (True, pc_emit [EV_request_decloak (pc_inspect env handle) reason]
             (c\<lparr>pc_decloak_requests := AList.update handle reason (pc_decloak_requests c),
                pc_decloak_handles := insert handle (pc_decloak_handles c)\<rparr>)))"

definition gabble_presence_cache_update_location :: "nat \<Rightarrow> nat \<Rightarrow> presence_cache \<Rightarrow> presence_cache" where
  "gabble_presence_cache_update_location handle new_location c =
     pc_emit [EV_location_updated handle] (c\<lparr>pc_location := (pc_location c)(handle \<mapsto> new_location)\<rparr>)"

definition gabble_presence_cache_get_location :: "nat \<Rightarrow> presence_cache \<Rightarrow> nat option" where
  "gabble_presence_cache_get_location handle c = pc_location c handle"

primrec view_loop ::
    "(presence \<Rightarrow> (bool \<times> presence) option) \<Rightarrow> bool \<Rightarrow> nat list \<Rightarrow> presence_cache \<Rightarrow> (nat list \<times> presence_cache) option" where
  "view_loop change remove [] c = Some ([], c)"
| "view_loop change remove (h # hs) c =
     (let c1 = (if pc_presence c h = None then cache_insert h c else c)
      in case pc_presence c1 h of
           None \<Rightarrow> None
         | Some cp \<Rightarrow>
             do {
               (changed, p) \<leftarrow> change (cp_presence cp);
               c2 \<leftarrow> (if changed \<and> remove then gabble_presence_cache_maybe_remove h (put_presence h p c1)
                      else Some (put_presence h p c1));
               (rest, c3) \<leftarrow> view_loop change remove hs c2;
               Some (if changed then h # rest else rest, c3)
             })"

definition contacts_changed_view ::
    "(presence \<Rightarrow> (bool \<times> presence) option) \<Rightarrow> bool \<Rightarrow> nat list \<Rightarrow> presence_cache \<Rightarrow> presence_cache option" where
  "contacts_changed_view change remove handles c =
     map_option (\<lambda>(changed, c1). if changed \<noteq> [] then pc_emit [EV_presences_updated changed] c1 else c1)
       (view_loop change remove handles c)"

definition gabble_presence_cache_contacts_added_to_olpc_view :: "nat list \<Rightarrow> presence_cache \<Rightarrow> presence_cache option" where
  "gabble_presence_cache_contacts_added_to_olpc_view = contacts_changed_view gabble_presence_added_to_view False"

definition gabble_presence_cache_contacts_removed_from_olpc_view :: "nat list \<Rightarrow> presence_cache \<Rightarrow> presence_cache option" where
  "gabble_presence_cache_contacts_removed_from_olpc_view = contacts_changed_view gabble_presence_removed_from_view True"

section \<open>The operations as one step function\<close>

datatype pc_op =
    PC_presence WockyNode int
  | PC_message WockyNode
  | PC_disco_reply string cstring "WockyNode option"
  | PC_update nat cstring nat cstring gint8 int
  | PC_update_many "nat list" cstring nat cstring gint8 int
  | PC_maybe_remove nat
  | PC_really_remove nat
  | PC_own_caps string GabbleCapabilitySet "WockyDiscoIdentity list option" "WockyDataForm list option"
  | PC_peek_own_caps string
  | PC_status connection_status
  | PC_unsure_timeout
  | PC_decloak nat string
  | PC_decloak_timeout nat
  | PC_location nat nat
  | PC_self_vcard nat "string option"
  | PC_added_to_view "nat list"
  | PC_removed_from_view "nat list"
  | PC_shared_expires string

text \<open>A discovery reply consumes the request.\<close>

fun pc_step :: "pc_env \<Rightarrow> pc_op \<Rightarrow> presence_cache \<Rightarrow> presence_cache option" where
  "pc_step env (PC_presence message now) c = map_option snd (gabble_presence_cache_presence_cb env message now c)"
| "pc_step env (PC_message message) c = Some (snd (parse_message_message env message c))"
| "pc_step env (PC_disco_reply jid node reply) c =
     caps_disco_cb env jid node reply
       (c\<lparr>pc_discos := (case node of None \<Rightarrow> pc_discos c | Some n \<Rightarrow> remove1 (jid, n) (pc_discos c))\<rparr>)"
| "pc_step env (PC_update h res st msg prio now) c = gabble_presence_cache_update h res st msg prio now c"
| "pc_step env (PC_update_many hs res st msg prio now) c = gabble_presence_cache_update_many hs res st msg prio now c"
| "pc_step env (PC_maybe_remove h) c = gabble_presence_cache_maybe_remove h c"
| "pc_step env (PC_really_remove h) c = Some (gabble_presence_cache_really_remove h c)"
| "pc_step env (PC_own_caps ver caps ids forms) c = Some (gabble_presence_cache_add_own_caps env ver caps ids forms c)"
| "pc_step env (PC_peek_own_caps ver) c = map_option snd (gabble_presence_cache_peek_own_caps ver c)"
| "pc_step env (PC_status status) c = Some (gabble_presence_cache_status_changed_cb status c)"
| "pc_step env PC_unsure_timeout c = Some (gabble_presence_cache_end_unsure_period c)"
| "pc_step env (PC_decloak h reason) c = Some (snd (gabble_presence_cache_request_decloaking env h reason c))"
| "pc_step env (PC_decloak_timeout h) c = gabble_presence_cache_decloak_timeout_cb h c"
| "pc_step env (PC_location h l) c = Some (gabble_presence_cache_update_location h l c)"
| "pc_step env (PC_self_vcard h sha1) c = Some (self_vcard_request_cb h sha1 c)"
| "pc_step env (PC_added_to_view hs) c = gabble_presence_cache_contacts_added_to_olpc_view hs c"
| "pc_step env (PC_removed_from_view hs) c = gabble_presence_cache_contacts_removed_from_olpc_view hs c"
| "pc_step env (PC_shared_expires uri) c = Some (c\<lparr>pc_shared := (pc_shared c)(uri := None)\<rparr>)"

end
