(* ===== verification/Caps_Trust.thy ===== *)
theory Caps_Trust
  imports Presence_Cache
begin

text \<open>
  What the presence cache guarantees about capabilities: no history of stanzas, discovery replies and calls
  makes it abort, and every set of capabilities it gives to a contact was reported by that contact itself, or
  matched the announced hash, or was reported by five different contacts, or is one we announced ourselves
  or found in the shared cache (\<open>caps_trust_sound\<close>). A trusted reply serves everybody who waits for it. The
  theory ends with what goes wrong when discovery requests fail.
\<close>

section \<open>What justifies a set of capabilities\<close>

definition reported_by :: "presence_cache \<Rightarrow> string \<Rightarrow> GabbleCapabilitySet \<Rightarrow> nat set" where
  "reported_by c uri caps = {h. \<exists>v. EV_report uri h caps v \<in> set (pc_events c)}"

definition strong :: "presence_cache \<Rightarrow> string \<Rightarrow> GabbleCapabilitySet \<Rightarrow> bool" where
  "strong c uri caps \<longleftrightarrow>
     (\<exists>h. EV_report uri h caps True \<in> set (pc_events c)) \<or> EV_own uri caps \<in> set (pc_events c)"

definition justified :: "(string \<rightharpoonup> WockyNode) \<Rightarrow> presence_cache \<Rightarrow> string \<Rightarrow> GabbleCapabilitySet \<Rightarrow> bool" where
  "justified shared c uri caps \<longleftrightarrow>
     strong c uri caps \<or> 5 \<le> card (reported_by c uri caps)
     \<or> (\<exists>q. shared uri = Some q \<and> caps = gabble_capability_set_new_from_stanza q)"

definition earlier :: "presence_cache \<Rightarrow> presence_cache \<Rightarrow> bool" where
  "earlier c c' \<longleftrightarrow> (\<exists>es. pc_events c' = pc_events c @ es)"

lemma earlier_trans: "earlier a b \<Longrightarrow> earlier b c \<Longrightarrow> earlier a c"
  by (auto simp: earlier_def)

lemma finite_reported: "finite (reported_by c uri caps)"
proof -
  have "reported_by c uri caps \<subseteq> (\<lambda>e. case e of EV_report _ h _ _ \<Rightarrow> h | _ \<Rightarrow> 0) ` set (pc_events c)"
    by (force simp: reported_by_def)
  then show ?thesis by (rule finite_subset) simp
qed

lemma reported_mono: "earlier c c' \<Longrightarrow> reported_by c uri caps \<subseteq> reported_by c' uri caps"
  by (auto simp: earlier_def reported_by_def)

lemma strong_mono: "earlier c c' \<Longrightarrow> strong c uri caps \<Longrightarrow> strong c' uri caps"
  by (auto simp: earlier_def strong_def)

lemma justified_mono: "earlier c c' \<Longrightarrow> justified sh c uri caps \<Longrightarrow> justified sh c' uri caps"
  unfolding justified_def
  using strong_mono card_mono [OF finite_reported reported_mono] order_trans by blast

section \<open>The invariant\<close>

definition info_ok :: "presence_cache \<Rightarrow> string \<Rightarrow> GabbleCapabilityInfo \<Rightarrow> bool" where
  "info_ok c uri info \<longleftrightarrow>
     (case ci_cap_set info of
        None \<Rightarrow> ci_guys info = {} \<and> ci_trust info = 0 \<and> \<not> ci_complete info
      | Some caps \<Rightarrow>
          strong c uri caps
          \<or> (ci_guys info \<subseteq> reported_by c uri caps \<and> unat (ci_trust info) = card (ci_guys info)))"

definition untrusted :: "presence_cache \<Rightarrow> string \<Rightarrow> bool" where
  "untrusted c uri \<longleftrightarrow>
     (\<exists>info. pc_capabilities c uri = Some info
        \<and> (ci_trust info < 5 \<or> (\<exists>caps. ci_cap_set info = Some caps \<and> strong c uri caps)))"

definition waiter_ok :: "string \<Rightarrow> DiscoWaiter \<Rightarrow> bool" where
  "waiter_ok uri w \<longleftrightarrow> (dw_hash w = Some ''sha-1'' \<longrightarrow> (\<exists>ver. dw_ver w = Some ver \<and> suffix (''#'' @ ver) uri))"

definition waiters_ok :: "presence_cache \<Rightarrow> string \<Rightarrow> bool" where
  "waiters_ok c uri \<longleftrightarrow>
     (\<forall>w \<in> set (waiters_for uri c). waiter_ok uri w) \<and> (waiters_for uri c \<noteq> [] \<longrightarrow> untrusted c uri)"

definition caps_set_ok :: "(string \<rightharpoonup> WockyNode) \<Rightarrow> presence_cache \<Rightarrow> nat \<Rightarrow> string \<Rightarrow> GabbleCapabilitySet \<Rightarrow> bool" where
  "caps_set_ok sh c h uri caps \<longleftrightarrow> h \<in> reported_by c uri caps \<or> justified sh c uri caps"

definition caps_core :: "(string \<rightharpoonup> WockyNode) \<Rightarrow> presence_cache \<Rightarrow> bool" where
  "caps_core sh c \<longleftrightarrow>
     (\<forall>uri info. pc_capabilities c uri = Some info \<longrightarrow> info_ok c uri info)
     \<and> (\<forall>uri q. pc_shared c uri = Some q \<longrightarrow> justified sh c uri (gabble_capability_set_new_from_stanza q))
     \<and> (\<forall>h uri caps. EV_caps_set h uri caps \<in> set (pc_events c) \<longrightarrow> caps_set_ok sh c h uri caps)"

definition presences_ok :: "presence_cache \<Rightarrow> bool" where
  "presences_ok c \<longleftrightarrow>
     (\<forall>h cp. pc_presence c h = Some cp \<longrightarrow> presence_ok (cp_presence cp))
     \<and> pc_decloak_handles c = dom (map_of (pc_decloak_requests c))"

definition cache_inv :: "(string \<rightharpoonup> WockyNode) \<Rightarrow> presence_cache \<Rightarrow> bool" where
  "cache_inv sh c \<longleftrightarrow> caps_core sh c \<and> (\<forall>uri. waiters_ok c uri) \<and> presences_ok c"

text \<open>Operations that leave the capability tables alone.\<close>

fun is_caps_set :: "pc_event \<Rightarrow> bool" where
  "is_caps_set (EV_caps_set _ _ _) = True"
| "is_caps_set _ = False"

definition quiet :: "presence_cache \<Rightarrow> presence_cache \<Rightarrow> bool" where
  "quiet c c' \<longleftrightarrow>
     pc_capabilities c' = pc_capabilities c \<and> pc_disco_pending c' = pc_disco_pending c \<and> pc_shared c' = pc_shared c
     \<and> (\<exists>es. pc_events c' = pc_events c @ es \<and> \<not> list_ex is_caps_set es)"

lemma quiet_refl [simp]: "quiet c c"
  by (simp add: quiet_def)

lemma quiet_trans [trans]: "quiet a b \<Longrightarrow> quiet b c \<Longrightarrow> quiet a c"
  by (auto simp: quiet_def list_ex_iff)

lemma quiet_earlier: "quiet c c' \<Longrightarrow> earlier c c'"
  by (auto simp: quiet_def earlier_def)

lemma caps_set_ok_mono: "earlier c c' \<Longrightarrow> caps_set_ok sh c h uri caps \<Longrightarrow> caps_set_ok sh c' h uri caps"
  unfolding caps_set_ok_def using justified_mono reported_mono by blast

lemma info_ok_mono: "earlier c c' \<Longrightarrow> info_ok c uri info \<Longrightarrow> info_ok c' uri info"
  unfolding info_ok_def using strong_mono reported_mono by (fastforce split: option.splits)

lemma untrusted_mono: "earlier c c' \<Longrightarrow> pc_capabilities c' uri = pc_capabilities c uri \<Longrightarrow> untrusted c uri \<Longrightarrow> untrusted c' uri"
  unfolding untrusted_def using strong_mono by fastforce

lemma caps_core_quiet:
  assumes "caps_core sh c" "quiet c c'"
  shows "caps_core sh c'"
proof -
  note e = quiet_earlier [OF assms(2)]
  have "EV_caps_set h uri caps \<in> set (pc_events c') \<longleftrightarrow> EV_caps_set h uri caps \<in> set (pc_events c)" for h uri caps
    using assms(2) by (fastforce simp: quiet_def list_ex_iff)
  moreover have "pc_capabilities c' = pc_capabilities c" "pc_shared c' = pc_shared c"
    using assms(2) by (simp_all add: quiet_def)
  ultimately show ?thesis
    using assms(1) e info_ok_mono justified_mono caps_set_ok_mono unfolding caps_core_def by metis
qed

lemma waiters_for_cong: "pc_disco_pending c' = pc_disco_pending c \<Longrightarrow> waiters_for uri c' = waiters_for uri c"
  by (simp add: waiters_for_def)

lemma waiters_ok_quiet: "waiters_ok c uri \<Longrightarrow> quiet c c' \<Longrightarrow> waiters_ok c' uri"
  using untrusted_mono [of c c' uri] quiet_earlier [of c c']
  by (auto simp: waiters_ok_def quiet_def waiters_for_def)

lemma cache_inv_quiet: "cache_inv sh c \<Longrightarrow> quiet c c' \<Longrightarrow> presences_ok c' \<Longrightarrow> cache_inv sh c'"
  unfolding cache_inv_def using caps_core_quiet waiters_ok_quiet by blast

section \<open>Presences\<close>

lemma quiet_emit [simp]: "quiet b c \<Longrightarrow> \<not> list_ex is_caps_set es \<Longrightarrow> quiet b (pc_emit es c)"
  by (erule quiet_trans) (simp add: quiet_def pc_emit_def)

lemma presences_ok_emit [simp]: "presences_ok (pc_emit es c) = presences_ok c"
  by (simp add: presences_ok_def pc_emit_def)

lemma pc_presence_emit [simp]: "pc_presence (pc_emit es c) = pc_presence c"
  by (simp add: pc_emit_def)

lemma quiet_put_presence [simp]: "quiet b c \<Longrightarrow> quiet b (put_presence h p c)"
  by (erule quiet_trans) (simp add: quiet_def put_presence_def)

lemma presences_ok_put [simp]: "presences_ok c \<Longrightarrow> presence_ok p \<Longrightarrow> presences_ok (put_presence h p c)"
  by (auto simp: presences_ok_def put_presence_def split: if_splits)

lemma quiet_insert [simp]: "quiet b c \<Longrightarrow> quiet b (cache_insert h c)"
  by (erule quiet_trans) (simp add: quiet_def cache_insert_def)

lemma presences_ok_insert [simp]: "presences_ok c \<Longrightarrow> presences_ok (cache_insert h c)"
  by (auto simp: presences_ok_def cache_insert_def presence_ok_init)

lemma quiet_update_caps [simp]: "quiet d c \<Longrightarrow> quiet d (emit_capabilities_update h a b c)"
  by (simp add: emit_capabilities_update_def)

lemma presences_ok_update_caps [simp]: "presences_ok (emit_capabilities_update h a b c) = presences_ok c"
  by (simp add: emit_capabilities_update_def)

lemma pc_presence_update_caps [simp]: "pc_presence (emit_capabilities_update h a b c) = pc_presence c"
  by (simp add: emit_capabilities_update_def)

lemma maybe_remove_ok:
  assumes "presences_ok c"
  shows "\<exists>c'. gabble_presence_cache_maybe_remove h c = Some c' \<and> quiet c c' \<and> presences_ok c'
    \<and> (\<forall>cp. pc_presence c h = Some cp \<and> GABBLE_PRESENCE_UNKNOWN < pres_status (cp_presence cp) \<longrightarrow> c' = c)"
proof (cases "pc_presence c h")
  case (Some cp)
  then have ok: "presence_ok (cp_presence cp)" using assms by (simp add: presences_ok_def)
  then obtain m where m: "presence_message (cp_presence cp) = Some m" using presence_message_ok by blast
  have "gabble_presence_finalize (cp_presence cp) = Some ()"
    using ok resources_free_ok
    by (cases "pres_no_resource_status_message (cp_presence cp)")
      (auto simp: presence_ok_def resources_ok_def gabble_presence_finalize_def)
  moreover have "presences_ok (gabble_presence_cache_really_remove h c)" "quiet c (gabble_presence_cache_really_remove h c)"
    using assms by (auto simp: presences_ok_def gabble_presence_cache_really_remove_def quiet_def split: if_splits)
  ultimately show ?thesis
    using Some m assms by (auto simp: gabble_presence_cache_maybe_remove_def Let_def presence_ids)
qed (use assms in \<open>simp add: gabble_presence_cache_maybe_remove_def\<close>)

lemma presence_update_status:
  assumes "presence_ok p"
  shows "\<exists>ret uct q. gabble_presence_update res st msg prio now p = Some (ret, uct, q) \<and> presence_ok q
    \<and> (GABBLE_PRESENCE_LAST_UNAVAILABLE < st \<longrightarrow> GABBLE_PRESENCE_LAST_UNAVAILABLE < pres_status q)"
proof -
  obtain ret uct q where q: "gabble_presence_update res st msg prio now p = Some (ret, uct, q)" "presence_ok q"
    and r: "case res of
         None \<Rightarrow> pres_resources q = [] \<and> pres_status q = st \<and> presence_message q = Some msg
       | Some name \<Rightarrow>
           if st \<le> GABBLE_PRESENCE_LAST_UNAVAILABLE
           then pres_resources q = filter (\<lambda>r. res_name r \<noteq> name) (pres_resources p)
           else \<exists>r'. resource_update st msg prio now
                  (case find_resource p name of None \<Rightarrow> resource_new name | Some r \<Rightarrow> r) = Some r'
                \<and> pres_resources q = replace_resource name r'
                    (pres_resources p
                       @ (if find_resource p name = None then [resource_new name] else []))"
    using presence_update_ok [OF assms, of res st msg prio now] by blast
  have "GABBLE_PRESENCE_LAST_UNAVAILABLE < pres_status q" if st: "GABBLE_PRESENCE_LAST_UNAVAILABLE < st"
  proof (cases res)
    case (Some name)
    have "pres_resources q \<noteq> []"
      using r Some st by (cases "pres_resources p") (auto simp: find_resource_None resource_new_def split: if_splits)
    then obtain b where "best_resource (pres_resources q) = Some b"
      by (cases "best_resource (pres_resources q)") (auto simp: best_resource_None)
    with q(2) best_resource_in show ?thesis by (force simp: presence_ok_def resources_ok_def aggregate_ok_def)
  qed (use r st in simp)
  with q show ?thesis by blast
qed

lemma do_update_ok:
  assumes "presences_ok c"
  shows "\<exists>ret uct c'. gabble_presence_cache_do_update h res st msg prio now c = Some (ret, uct, c') \<and> quiet c c'
    \<and> presences_ok c' \<and> (\<exists>cp. pc_presence c' h = Some cp
      \<and> (GABBLE_PRESENCE_LAST_UNAVAILABLE < st \<longrightarrow> GABBLE_PRESENCE_LAST_UNAVAILABLE < pres_status (cp_presence cp)))"
proof -
  let ?c = "if pc_presence c h = None then cache_insert h c else c"
  have c: "presences_ok ?c" "quiet c ?c" using assms by simp_all
  obtain cp where cp: "pc_presence ?c h = Some cp" by (cases "pc_presence c h") (auto simp: cache_insert_def)
  have ok: "presence_ok (cp_presence cp)" using cp c(1) by (simp add: presences_ok_def split: if_splits)
  obtain ret uct q where q: "gabble_presence_update res st msg prio now (cp_presence cp) = Some (ret, uct, q)" "presence_ok q"
      "GABBLE_PRESENCE_LAST_UNAVAILABLE < st \<longrightarrow> GABBLE_PRESENCE_LAST_UNAVAILABLE < pres_status q"
    using presence_update_status [OF ok] by blast
  let ?c' = "emit_capabilities_update h (pres_cap_set (cp_presence cp)) (pres_cap_set q) (put_presence h q ?c)"
  have "gabble_presence_cache_do_update h res st msg prio now c = Some (ret, uct, ?c')"
    using cp q(1) by (simp add: gabble_presence_cache_do_update_def Let_def)
  moreover have "quiet c ?c'" using c(2) by simp
  moreover have "presences_ok ?c'" using c(1) q(2) by simp
  moreover have "pc_presence ?c' h = Some (cp\<lparr>cp_presence := q\<rparr>)" using cp by (simp add: put_presence_def)
  ultimately show ?thesis using q(3) by fastforce
qed

lemma presences_okD: "presences_ok c \<Longrightarrow> pc_presence c h = Some cp \<Longrightarrow> presence_ok (cp_presence cp)"
  by (simp add: presences_ok_def)

lemma cache_update_ok:
  assumes "presences_ok c"
  shows "\<exists>c'. gabble_presence_cache_update h res st msg prio now c = Some c' \<and> quiet c c' \<and> presences_ok c'
    \<and> (GABBLE_PRESENCE_LAST_UNAVAILABLE < st \<longrightarrow> pc_presence c' h \<noteq> None)"
proof -
  obtain ret uct c1 cp where u: "gabble_presence_cache_do_update h res st msg prio now c = Some (ret, uct, c1)" "quiet c c1"
      "presences_ok c1" "pc_presence c1 h = Some cp"
      "GABBLE_PRESENCE_LAST_UNAVAILABLE < st \<longrightarrow> GABBLE_PRESENCE_LAST_UNAVAILABLE < pres_status (cp_presence cp)"
    using do_update_ok [OF assms] by blast
  let ?c2 = "pc_emit ((if ret then [EV_presences_updated [h]] else [])
             @ (if uct = Some True then [EV_client_types_updated h] else [])) c1"
  have q2: "quiet c1 ?c2" by simp
  obtain c' where c': "gabble_presence_cache_maybe_remove h ?c2 = Some c'" "quiet ?c2 c'" "presences_ok c'"
      "\<forall>cp. pc_presence ?c2 h = Some cp \<and> GABBLE_PRESENCE_UNKNOWN < pres_status (cp_presence cp) \<longrightarrow> c' = ?c2"
    using maybe_remove_ok [of ?c2 h] u(3) by auto
  have "gabble_presence_cache_update h res st msg prio now c = Some c'"
    using u(1) c'(1) by (simp add: gabble_presence_cache_update_def)
  moreover have "quiet c c'" using u(2) q2 c'(2) quiet_trans by blast
  moreover have "GABBLE_PRESENCE_LAST_UNAVAILABLE < st \<longrightarrow> pc_presence c' h \<noteq> None"
    using u(4,5) c'(4) by (force simp: presence_ids)
  ultimately show ?thesis using c'(3) by blast
qed

lemma do_update_many_ok:
  "presences_ok c \<Longrightarrow> \<exists>hs' c'. do_update_many hs res st msg prio now c = Some (hs', c') \<and> quiet c c' \<and> presences_ok c'"
proof (induction hs arbitrary: c)
  case (Cons h hs)
  obtain ret uct c1 where u: "gabble_presence_cache_do_update h res st msg prio now c = Some (ret, uct, c1)" "quiet c c1"
      "presences_ok c1" using do_update_ok [OF Cons.prems] by blast
  obtain hs' c' where "do_update_many hs res st msg prio now c1 = Some (hs', c')" "quiet c1 c'" "presences_ok c'"
    using Cons.IH [OF u(3)] by blast
  with u quiet_trans [OF u(2)] show ?case by auto
qed simp

lemma maybe_remove_many_ok:
  "presences_ok c \<Longrightarrow> \<exists>c'. maybe_remove_many hs c = Some c' \<and> quiet c c' \<and> presences_ok c'"
proof (induction hs arbitrary: c)
  case (Cons h hs)
  obtain c1 where "gabble_presence_cache_maybe_remove h c = Some c1" "quiet c c1" "presences_ok c1"
    using maybe_remove_ok [OF Cons.prems] by blast
  with Cons.IH [of c1] quiet_trans [of c c1] show ?case by auto
qed simp

lemma update_many_ok:
  assumes "presences_ok c"
  shows "\<exists>c'. gabble_presence_cache_update_many hs res st msg prio now c = Some c' \<and> quiet c c' \<and> presences_ok c'"
proof -
  obtain hs' c1 where u: "do_update_many hs res st msg prio now c = Some (hs', c1)" "quiet c c1" "presences_ok c1"
    using do_update_many_ok [OF assms] by blast
  let ?c2 = "if hs' \<noteq> [] then pc_emit [EV_presences_updated hs'] c1 else c1"
  have p2: "presences_ok ?c2" using u(3) by simp
  obtain c' where c': "maybe_remove_many hs ?c2 = Some c'" "quiet ?c2 c'" "presences_ok c'"
    using maybe_remove_many_ok [OF p2] by blast
  have "quiet c ?c2" using u(2) by simp
  from quiet_trans [OF this c'(2)] u c' show ?thesis by (auto simp: gabble_presence_cache_update_many_def)
qed

lemma grab_nickname_ok [simp]:
  "quiet c (grab_nickname h node c)" "presences_ok c \<Longrightarrow> presences_ok (grab_nickname h node c)"
  "pc_presence (grab_nickname h node c) h' = None \<longleftrightarrow> pc_presence c h' = None"
  by (auto simp: grab_nickname_def quiet_def pc_emit_def presences_ok_def split: option.splits)

lemma presence_ok_avatar [simp]: "presence_ok (p\<lparr>pres_avatar_sha1 := s\<rparr>) = presence_ok p"
  by (simp add: presence_ok_def resources_ok_def aggregate_ok_def split: option.split)

lemma put_presence_none [simp]: "pc_presence (put_presence h p c) h' = None \<longleftrightarrow> pc_presence c h' = None"
  by (simp add: put_presence_def)

lemma grab_avatar_ok [simp]:
  "quiet c (grab_avatar_sha1 env h node c)"
  "presences_ok c \<Longrightarrow> presences_ok (grab_avatar_sha1 env h node c)"
  "pc_presence (grab_avatar_sha1 env h node c) h' = None \<longleftrightarrow> pc_presence c h' = None"
proof -
  have a: "quiet c (self_avatar_resolve_conflict env c)" "presences_ok c \<Longrightarrow> presences_ok (self_avatar_resolve_conflict env c)"
      "pc_presence (self_avatar_resolve_conflict env c) = pc_presence c"
    by (auto simp: self_avatar_resolve_conflict_def quiet_def pc_emit_def presences_ok_def)
  have e: "quiet c (pc_emit [EV_invalidate_vcard h, EV_avatar_update h s] (put_presence h p c))" for s p
    by simp
  have g: "quiet c (grab_avatar_sha1 env h node c) \<and> (presences_ok c \<longrightarrow> presences_ok (grab_avatar_sha1 env h node c))
      \<and> (pc_presence (grab_avatar_sha1 env h node c) h' = None \<longleftrightarrow> pc_presence c h' = None)"
    using a e unfolding grab_avatar_sha1_def Let_def
    by (auto intro!: presences_ok_put intro: presences_okD split: option.splits)
  then show "quiet c (grab_avatar_sha1 env h node c)" "presences_ok c \<Longrightarrow> presences_ok (grab_avatar_sha1 env h node c)"
      "pc_presence (grab_avatar_sha1 env h node c) h' = None \<longleftrightarrow> pc_presence c h' = None" by blast+
qed

lemma set_presence_caps_ok [simp]:
  "quiet b c \<Longrightarrow> quiet b (set_presence_caps h res caps forms serial c)"
  "presences_ok c \<Longrightarrow> presences_ok (set_presence_caps h res caps forms serial c)"
  "pc_presence (set_presence_caps h res caps forms serial c) h' = None \<longleftrightarrow> pc_presence c h' = None"
  by (auto simp: set_presence_caps_def presences_ok_def presence_set_capabilities_ok put_presence_def
      split: option.splits if_splits) (simp add: quiet_def)

lemma parse_node_ok [simp]:
  "quiet c (parse_node h node res serial c)" "presences_ok c \<Longrightarrow> presences_ok (parse_node h node res serial c)"
  "pc_presence (parse_node h node res serial c) h' = None \<longleftrightarrow> pc_presence c h' = None"
  by (auto simp: parse_node_def Let_def split: option.splits)

lemma check_for_decloak_ok [simp]:
  "quiet c (presence_cache_check_for_decloak_request env node h jid c)"
  "presences_ok c \<Longrightarrow> presences_ok (presence_cache_check_for_decloak_request env node h jid c)"
proof -
  define c1 where "c1 = (if map_of (pc_decloak_requests c) h = None then c
                else c\<lparr>pc_decloak_requests := AList.delete h (pc_decloak_requests c),
                       pc_decloak_handles := pc_decloak_handles c - {h}\<rparr>)"
  note d = presence_cache_check_for_decloak_request_def [of env node h jid c, folded c1_def]
  have "quiet c c1" by (simp add: quiet_def c1_def)
  then show "quiet c (presence_cache_check_for_decloak_request env node h jid c)"
    by (simp add: d Let_def split: option.split)
  assume "presences_ok c"
  then have "presences_ok c1" by (auto simp: presences_ok_def delete_conv' c1_def split: if_splits)
  then show "presences_ok (presence_cache_check_for_decloak_request env node h jid c)"
    by (simp add: d Let_def split: option.split)
qed

section \<open>Giving capabilities to contacts\<close>

definition same_tables :: "presence_cache \<Rightarrow> presence_cache \<Rightarrow> bool" where
  "same_tables c c' \<longleftrightarrow>
     pc_capabilities c' = pc_capabilities c \<and> pc_disco_pending c' = pc_disco_pending c \<and> pc_shared c' = pc_shared c
     \<and> earlier c c'"

lemma same_tables_refl [simp]: "same_tables c c"
  by (simp add: same_tables_def earlier_def)

lemma same_tables_trans: "same_tables a b \<Longrightarrow> same_tables b c \<Longrightarrow> same_tables a c"
  using earlier_trans by (auto simp: same_tables_def)

lemma quiet_same_tables: "quiet c c' \<Longrightarrow> same_tables c c'"
  using quiet_earlier by (auto simp: same_tables_def quiet_def)

lemma same_tables_emit: "same_tables b c \<Longrightarrow> same_tables b (pc_emit es c)"
  by (auto simp: same_tables_def pc_emit_def earlier_def)

lemma waiters_ok_same: "same_tables c c' \<Longrightarrow> waiters_ok c uri \<Longrightarrow> waiters_ok c' uri"
  using untrusted_mono [of c c' uri] by (auto simp: waiters_ok_def same_tables_def waiters_for_def)

lemma caps_core_caps_set:
  assumes "caps_core sh c" "caps_set_ok sh c h uri caps"
  shows "caps_core sh (pc_emit [EV_caps_set h uri caps] c)"
proof -
  let ?c = "pc_emit [EV_caps_set h uri caps] c"
  have e: "earlier c ?c" by (simp add: earlier_def pc_emit_def)
  have t: "pc_capabilities ?c = pc_capabilities c" "pc_shared ?c = pc_shared c" by (simp_all add: pc_emit_def)
  have "EV_caps_set h' uri' caps' \<in> set (pc_events ?c) \<Longrightarrow>
      EV_caps_set h' uri' caps' \<in> set (pc_events c) \<or> (h' = h \<and> uri' = uri \<and> caps' = caps)" for h' uri' caps'
    by (auto simp: pc_emit_def)
  then have "caps_set_ok sh ?c h' uri' caps'" if "EV_caps_set h' uri' caps' \<in> set (pc_events ?c)" for h' uri' caps'
    using that assms caps_set_ok_mono [OF e] unfolding caps_core_def by blast
  moreover have "info_ok ?c u i" if "pc_capabilities ?c u = Some i" for u i
    using that assms(1) info_ok_mono [OF e] unfolding caps_core_def t by blast
  moreover have "justified sh ?c u (gabble_capability_set_new_from_stanza q)" if "pc_shared ?c u = Some q" for u q
    using that assms(1) justified_mono [OF e] unfolding caps_core_def t by blast
  ultimately show ?thesis unfolding caps_core_def by blast
qed

lemma set_caps_for_ok:
  assumes "presences_ok c" "caps_core sh c" "caps_set_ok sh c (dw_handle w) node caps"
  shows "\<exists>c'. set_caps_for node caps types forms w c = Some c' \<and> caps_core sh c' \<and> presences_ok c' \<and> same_tables c c'"
proof (cases "pc_presence c (dw_handle w)")
  case (Some cp)
  let ?h = "dw_handle w"
  let ?p1 = "snd (gabble_presence_set_capabilities (dw_resource w) caps forms (dw_serial w) (cp_presence cp))"
  have p1: "presence_ok ?p1" by (rule presence_set_capabilities_ok) (rule presences_okD [OF assms(1) Some])
  obtain changed p2 where p2: "gabble_presence_update_client_types (dw_resource w) types ?p1 = Some (changed, p2)" "presence_ok p2"
    using presence_update_client_types_ok [OF p1] by blast
  let ?c1 = "put_presence ?h ?p1 c"
  let ?c2 = "pc_emit [EV_caps_set ?h node caps] ?c1"
  let ?c' = "pc_emit (if changed then [EV_client_types_updated ?h] else [])
      (put_presence ?h p2 (emit_capabilities_update ?h (pres_cap_set (cp_presence cp)) (pres_cap_set ?p1) ?c2))"
  have q1: "quiet c ?c1" and q2: "quiet ?c2 ?c'" by simp_all
  have "caps_core sh ?c2"
    by (rule caps_core_caps_set [OF caps_core_quiet [OF assms(2) q1]])
      (rule caps_set_ok_mono [OF quiet_earlier [OF q1] assms(3)])
  then have "caps_core sh ?c'" using q2 by (rule caps_core_quiet)
  moreover have "presences_ok ?c'" using assms(1) p1 p2(2) by simp
  moreover have "same_tables c ?c'"
    by (rule same_tables_trans [OF same_tables_emit [OF quiet_same_tables [OF q1]] quiet_same_tables [OF q2]])
  ultimately show ?thesis using Some p2(1) by (simp add: set_caps_for_def Let_def)
qed (use assms in \<open>simp add: set_caps_for_def\<close>)

lemma serve_waiters_ok:
  assumes "presences_ok c" "caps_core sh c" "justified sh c node caps"
  shows "\<exists>c'. serve_waiters node caps types forms ws c = Some c' \<and> caps_core sh c' \<and> presences_ok c' \<and> same_tables c c'"
  using assms
proof (induction ws arbitrary: c)
  case (Cons w ws)
  have "caps_set_ok sh c (dw_handle w) node caps" using Cons.prems(3) by (simp add: caps_set_ok_def)
  then obtain c1 where c1: "set_caps_for node caps types forms w c = Some c1" "caps_core sh c1" "presences_ok c1"
      "same_tables c c1" using set_caps_for_ok [OF Cons.prems(1,2)] by blast
  let ?c2 = "pc_emit [EV_capabilities_discovered (dw_handle w)] c1"
  have s: "same_tables c ?c2" using c1(4) by (rule same_tables_emit)
  have "quiet c1 ?c2" by simp
  then have core: "caps_core sh ?c2" by (rule caps_core_quiet [OF c1(2)])
  have "justified sh ?c2 node caps"
    using justified_mono [OF _ Cons.prems(3)] s by (simp add: same_tables_def)
  then obtain c' where "serve_waiters node caps types forms ws ?c2 = Some c'" "caps_core sh c'" "presences_ok c'"
      "same_tables ?c2 c'" using Cons.IH [of ?c2] core c1(3) by auto
  with c1(1) same_tables_trans [OF s] show ?case by auto
qed simp

section \<open>Recording replies\<close>

lemma info_new_ok [simp]: "info_ok c uri capability_info_new"
  by (simp add: info_ok_def capability_info_new_def)

lemma same_log:
  assumes "pc_events c' = pc_events c"
  shows "info_ok c' = info_ok c" "justified sh c' = justified sh c" "caps_set_ok sh c' = caps_set_ok sh c"
    "strong c' = strong c" "reported_by c' = reported_by c"
proof -
  show s: "strong c' = strong c" "reported_by c' = reported_by c"
    using assms by (simp_all add: fun_eq_iff strong_def reported_by_def)
  then show j: "justified sh c' = justified sh c" by (simp add: fun_eq_iff justified_def)
  with s show "caps_set_ok sh c' = caps_set_ok sh c" "info_ok c' = info_ok c"
    by (simp_all add: fun_eq_iff caps_set_ok_def info_ok_def split: option.split)
qed

lemma put_info_fields [simp]:
  "pc_events (put_info uri info c) = pc_events c" "pc_shared (put_info uri info c) = pc_shared c"
  "pc_capabilities (put_info uri info c) = (pc_capabilities c)(uri \<mapsto> info)"
  "pc_disco_pending (put_info uri info c) = pc_disco_pending c" "presences_ok (put_info uri info c) = presences_ok c"
  "pc_presence (put_info uri info c) = pc_presence c"
  by (simp_all add: put_info_def presences_ok_def)

lemma caps_core_put_info:
  "caps_core sh c \<Longrightarrow> info_ok c uri info \<Longrightarrow> caps_core sh (put_info uri info c)"
  by (simp add: caps_core_def same_log [of "put_info uri info c" c])

lemma info_get_props:
  assumes "capability_info_get uri c = (info, c1)" "caps_core sh c"
  shows "info_ok c uri info" "caps_core sh c1" "pc_capabilities c1 uri = Some info" "pc_events c1 = pc_events c"
    "pc_disco_pending c1 = pc_disco_pending c" "pc_shared c1 = pc_shared c" "presences_ok c1 = presences_ok c"
    "pc_presence c1 = pc_presence c" "\<And>u. pc_capabilities c u \<noteq> None \<Longrightarrow> pc_capabilities c1 u = pc_capabilities c u"
proof -
  show "info_ok c uri info"
    using assms by (auto simp: capability_info_get_def caps_core_def split: option.splits)
  show "caps_core sh c1"
    using assms caps_core_put_info [OF assms(2) info_new_ok, of uri]
    by (auto simp: capability_info_get_def put_info_def split: option.splits)
qed (use assms in \<open>auto simp: capability_info_get_def presences_ok_def split: option.splits\<close>)

lemma waiters_ok_info_get:
  assumes "capability_info_get uri c = (info, c1)" "caps_core sh c" "waiters_ok c u"
  shows "waiters_ok c1 u"
proof -
  note p = info_get_props [OF assms(1,2)]
  have "waiters_for u c1 = waiters_for u c" using p(5) by (simp add: waiters_for_def)
  moreover have "untrusted c u \<Longrightarrow> untrusted c1 u"
    using untrusted_mono [of c c1 u] p(4) p(9) [of u] by (auto simp: earlier_def untrusted_def)
  ultimately show ?thesis using assms(3) by (auto simp: waiters_ok_def)
qed

text \<open>A reply is recorded: the new info is in order once the report is in the log.\<close>

lemma info_recvd_ok:
  assumes info: "info_ok c uri info"
    and inc: "inc = 1 \<or> inc = 5"
    and small: "ci_trust info < 5 \<or> (\<exists>caps. ci_cap_set info = Some caps \<and> strong c uri caps)"
    and v: "inc = 5 \<Longrightarrow> v"
    and c': "c' = pc_emit [EV_report uri h caps v] c"
  shows "info_ok c' uri (info_recvd h caps inc types forms info)"
    "ci_cap_set (info_recvd h caps inc types forms info) = Some caps"
proof -
  show "ci_cap_set (info_recvd h caps inc types forms info) = Some caps"
    by (simp add: info_recvd_def Let_def)
  have e: "earlier c c'" by (simp add: earlier_def c' pc_emit_def)
  have h: "h \<in> reported_by c' uri caps" by (auto simp: reported_by_def c' pc_emit_def)
  show "info_ok c' uri (info_recvd h caps inc types forms info)"
  proof (cases "inc = 5 \<or> strong c uri caps")
    case True
    then have "strong c' uri caps"
      using strong_mono [OF e] v by (auto simp: strong_def c' pc_emit_def)
    then show ?thesis by (simp add: info_ok_def info_recvd_def Let_def)
  next
    case False
    then have i: "inc = 1" using inc by blast
    show ?thesis
    proof (cases "ci_cap_set info = Some caps")
      case True
      then have g: "ci_guys info \<subseteq> reported_by c uri caps" "unat (ci_trust info) = card (ci_guys info)" "ci_trust info < 5"
        using info small False by (auto simp: info_ok_def)
      have fin: "finite (ci_guys info)" using g(1) finite_reported finite_subset by blast
      have "unat (ci_trust info + 1) = Suc (unat (ci_trust info))"
        using g(3) iffD1 [OF unat_add_lem, of "ci_trust info" 1] by (simp add: word_less_nat_alt)
      with g fin i True h reported_mono [OF e, of uri caps] show ?thesis
        by (auto simp: info_ok_def info_recvd_def Let_def)
    next
      case f: False
      then show ?thesis using i h by (simp add: info_ok_def info_recvd_def Let_def)
    qed
  qed
qed

text \<open>Enough trust means that the capabilities are justified.\<close>

lemma trusted_justified:
  assumes "info_ok c uri info" "ci_cap_set info = Some caps" "5 \<le> ci_trust info"
  shows "justified sh c uri caps"
proof (cases "strong c uri caps")
  case False
  then have g: "ci_guys info \<subseteq> reported_by c uri caps" "unat (ci_trust info) = card (ci_guys info)"
    using assms by (auto simp: info_ok_def)
  have "5 \<le> unat (ci_trust info)" using assms(3) by (simp add: word_le_nat_alt)
  also have "\<dots> \<le> card (reported_by c uri caps)" using g card_mono [OF finite_reported g(1)] by simp
  finally show ?thesis by (simp add: justified_def)
qed (simp add: justified_def)

section \<open>Discovery replies\<close>

lemma waiters_fields [simp]:
  "pc_events (put_waiters uri ws c) = pc_events c" "pc_events (remove_waiters uri c) = pc_events c"
  "pc_capabilities (put_waiters uri ws c) = pc_capabilities c" "pc_capabilities (remove_waiters uri c) = pc_capabilities c"
  "pc_shared (put_waiters uri ws c) = pc_shared c" "pc_shared (remove_waiters uri c) = pc_shared c"
  "presences_ok (put_waiters uri ws c) = presences_ok c" "presences_ok (remove_waiters uri c) = presences_ok c"
  "pc_presence (put_waiters uri ws c) = pc_presence c" "pc_presence (remove_waiters uri c) = pc_presence c"
  by (simp_all add: put_waiters_def remove_waiters_def presences_ok_def)

lemma waiters_for_put [simp]: "waiters_for u (put_waiters uri ws c) = (if u = uri then ws else waiters_for u c)"
  by (simp add: waiters_for_def put_waiters_def update_conv')

lemma waiters_for_remove [simp]: "waiters_for u (remove_waiters uri c) = (if u = uri then [] else waiters_for u c)"
  by (simp add: waiters_for_def remove_waiters_def delete_conv')

lemma caps_core_cong:
  "pc_events c' = pc_events c \<Longrightarrow> pc_capabilities c' = pc_capabilities c \<Longrightarrow> pc_shared c' = pc_shared c \<Longrightarrow>
   caps_core sh c' = caps_core sh c"
  by (simp add: caps_core_def same_log [of c' c])

lemma untrusted_cong: "pc_events c' = pc_events c \<Longrightarrow> pc_capabilities c' = pc_capabilities c \<Longrightarrow> untrusted c' = untrusted c"
  by (simp add: fun_eq_iff untrusted_def same_log [of c' c])

lemma waiters_ok_put:
  "waiters_ok (put_waiters uri ws c) u \<longleftrightarrow>
     (if u = uri then (\<forall>w \<in> set ws. waiter_ok u w) \<and> (ws \<noteq> [] \<longrightarrow> untrusted c u) else waiters_ok c u)"
  by (simp add: waiters_ok_def untrusted_cong [of "put_waiters uri ws c" c])

lemma waiters_ok_remove: "waiters_ok (remove_waiters uri c) u \<longleftrightarrow> u = uri \<or> waiters_ok c u"
  by (simp add: waiters_ok_def untrusted_cong [of "remove_waiters uri c" c])

lemma quiet_disco_request: "quiet b c \<Longrightarrow> quiet b (gabble_disco_request jid node c)"
  by (erule quiet_trans) (simp add: gabble_disco_request_def quiet_def pc_emit_def)

lemma presences_ok_disco_request [simp]: "presences_ok (gabble_disco_request jid node c) = presences_ok c"
  by (simp add: gabble_disco_request_def presences_ok_def pc_emit_def)

lemma fold_redisco: "quiet b c \<Longrightarrow> quiet b (fold (\<lambda>w. redisco env w node) ws c)"
    "presences_ok (fold (\<lambda>w. redisco env w node) ws c) = presences_ok c"
  by (induction ws arbitrary: c) (simp_all add: redisco_def Let_def quiet_disco_request)

lemma ensure_requests_waiter_ok:
  "\<forall>w \<in> set seen \<union> set ws. waiter_ok uri w \<Longrightarrow> \<forall>w \<in> set (snd (ensure_requests t seen ws)). waiter_ok uri w"
proof (induction t seen ws rule: ensure_requests.induct)
  case (2 t seen w ws)
  then show ?case by (auto simp: waiter_ok_def split: prod.splits if_splits)
qed simp

lemma request_first_waiter_ok:
  "request_first ws = Some (w, ws') \<Longrightarrow> \<forall>w \<in> set ws. waiter_ok uri w \<Longrightarrow> (\<forall>w \<in> set ws'. waiter_ok uri w) \<and> ws \<noteq> []"
  by (induction ws arbitrary: w ws') (auto simp: waiter_ok_def split: if_splits)

lemma disco_failed_ok:
  assumes "cache_inv sh c" shows "cache_inv sh (disco_failed env node c)"
proof (cases "request_first (waiters_for node c)")
  case None
  have "caps_core sh (remove_waiters node c) = caps_core sh c" by (rule caps_core_cong) simp_all
  with None assms show ?thesis by (simp add: disco_failed_def cache_inv_def waiters_ok_remove)
next
  case (Some p)
  then obtain w ws where p: "request_first (waiters_for node c) = Some (w, ws)" by (cases p) auto
  have ok: "waiters_ok c node" using assms by (simp add: cache_inv_def)
  have "caps_core sh (put_waiters node ws c) = caps_core sh c" by (rule caps_core_cong) simp_all
  then have "cache_inv sh (put_waiters node ws c)"
    using assms request_first_waiter_ok [OF p] ok [unfolded waiters_ok_def] unfolding cache_inv_def waiters_ok_put
    by auto
  moreover have "quiet (put_waiters node ws c) (redisco env w node (put_waiters node ws c))"
    by (simp add: redisco_def Let_def quiet_disco_request)
  ultimately show ?thesis
    using p cache_inv_quiet [of sh "put_waiters node ws c"] 
    by (simp add: disco_failed_def cache_inv_def redisco_def Let_def)
qed

lemma finish_ok:
  assumes core: "caps_core sh c" and pres: "presences_ok c" and others: "\<And>u. u \<noteq> node \<Longrightarrow> waiters_ok c u"
    and ws: "\<forall>w \<in> set (waiters_for node c). waiter_ok node w" "map_of (pc_disco_pending c) node \<noteq> None"
    and trust: "trust = None \<and> untrusted c node
      \<or> (\<exists>info. pc_capabilities c node = Some info \<and> trust = Some (ci_trust info) \<and> ci_cap_set info = Some caps
           \<and> dw_handle w \<in> reported_by c node caps)"
    and caps: "caps = gabble_capability_set_new_from_stanza reply"
  shows "\<exists>c'. caps_disco_finish env node reply w trust c = Some c' \<and> cache_inv sh c'"
proof -
  let ?t = "case trust of None \<Rightarrow> 0 | Some t \<Rightarrow> t"
  let ?types = "client_types_from_message reply (dw_resource w)" and ?forms = "data_forms_from_message reply"
  let ?c0 = "remove_waiters node c"
  have core0: "caps_core sh ?c0" using core caps_core_cong [of ?c0 c sh] by simp
  show ?thesis
  proof (cases "?t \<ge> CAPABILITY_BUNDLE_ENOUGH_TRUST")
    case True
    then obtain info where info: "pc_capabilities c node = Some info" "trust = Some (ci_trust info)" "ci_cap_set info = Some caps"
      using trust by (auto simp: CAPABILITY_BUNDLE_ENOUGH_TRUST_def)
    have just: "justified sh c node caps"
      by (rule trusted_justified [of _ _ info])
        (use core info True in \<open>auto simp: caps_core_def CAPABILITY_BUNDLE_ENOUGH_TRUST_def\<close>)
    let ?c1 = "?c0\<lparr>pc_shared := (pc_shared c)(node \<mapsto> reply)\<rparr>"
    have log: "pc_events ?c1 = pc_events c" by simp
    have core1: "caps_core sh ?c1"
      using core0 just caps unfolding caps_core_def same_log [OF log] same_log [of ?c0 c, simplified] by auto
    have pres1: "presences_ok ?c1" using pres by (simp add: presences_ok_def remove_waiters_def)
    have just1: "justified sh ?c1 node caps" using just same_log(2) [OF log] by simp
    obtain c' where c': "serve_waiters node caps ?types ?forms (waiters_for node c) ?c1 = Some c'" "caps_core sh c'"
        "presences_ok c'" "same_tables ?c1 c'"
      using serve_waiters_ok [OF pres1 core1 just1] by blast
    have "waiters_ok ?c1 u" for u
    proof -
      have "waiters_for u ?c1 = waiters_for u ?c0" by (simp add: waiters_for_def)
      moreover have "untrusted ?c1 = untrusted c" by (rule untrusted_cong) simp_all
      ultimately show ?thesis using others [of u] by (auto simp: waiters_ok_def)
    qed
    then have "cache_inv sh c'" using c' waiters_ok_same by (auto simp: cache_inv_def)
    with c'(1) True ws(2) caps show ?thesis by (simp add: caps_disco_finish_def Let_def)
  next
    case False
    have "\<exists>c1. (if trust \<noteq> None then set_caps_for node caps ?types ?forms w ?c0 else Some ?c0) = Some c1
        \<and> caps_core sh c1 \<and> presences_ok c1 \<and> same_tables ?c0 c1"
    proof (cases "trust = None")
      case False
      then have "caps_set_ok sh c (dw_handle w) node caps" using trust by (auto simp: caps_set_ok_def)
      then have "caps_set_ok sh ?c0 (dw_handle w) node caps" using same_log(3) [of ?c0 c] by simp
      with False set_caps_for_ok [of ?c0 sh w node caps] core0 pres show ?thesis by simp
    qed (use core0 pres in simp)
    then obtain c1 where c1: "(if trust \<noteq> None then set_caps_for node caps ?types ?forms w ?c0 else Some ?c0) = Some c1"
        "caps_core sh c1" "presences_ok c1" "same_tables ?c0 c1" by blast
    obtain asked ws' where er: "ensure_requests (unat ?t) [] (remove1 w (waiters_for node c)) = (asked, ws')"
      by (cases "ensure_requests (unat ?t) [] (remove1 w (waiters_for node c))") blast
    have ws': "\<forall>w \<in> set ws'. waiter_ok node w"
      using ensure_requests_waiter_ok [of "[]" "remove1 w (waiters_for node c)" node "unat ?t"] ws(1) er
        set_remove1_subset [of w "waiters_for node c"] by auto
    have unt: "untrusted c1 node"
    proof -
      have "untrusted c node"
        using trust False by (auto simp: untrusted_def CAPABILITY_BUNDLE_ENOUGH_TRUST_def)
      then have "untrusted ?c0 node" using untrusted_cong [of ?c0 c] by simp
      then show ?thesis using untrusted_mono [of ?c0 c1 node] c1(4) by (simp add: same_tables_def)
    qed
    let ?c2 = "put_waiters node ws' c1"
    have others1: "waiters_ok c1 u" if "u \<noteq> node" for u
      using waiters_ok_same [OF c1(4)] others [OF that] by (simp add: waiters_ok_remove)
    have "caps_core sh ?c2 = caps_core sh c1" by (rule caps_core_cong) simp_all
    then have inv2: "cache_inv sh ?c2"
      using c1(2,3) others1 ws' unt by (auto simp: cache_inv_def waiters_ok_put)
    let ?c3 = "fold (\<lambda>w. redisco env w node) asked (pc_emit [EV_capabilities_discovered (dw_handle w)] ?c2)"
    have "quiet ?c2 ?c3" by (rule fold_redisco) simp
    then have "cache_inv sh ?c3" using inv2 c1(3) cache_inv_quiet fold_redisco(2) by fastforce
    moreover have "caps_disco_finish env node reply w trust c = Some ?c3"
      using False ws(2) c1(1) er caps by (simp add: caps_disco_finish_def Let_def split: if_splits)
    ultimately show ?thesis by blast
  qed
qed

lemma node_identities_sortable: "identities_sortable (List.map_filter node_identity cs)"
proof -
  have "\<forall>i \<in> set is. id_lang i \<noteq> None \<and> id_name i \<noteq> None \<Longrightarrow> identities_sortable is" for "is"
    by (induction "is") (auto simp: wocky_disco_identity_cmp_ok_def)
  moreover have "id_lang i \<noteq> None \<and> id_name i \<noteq> None" if "i \<in> set (List.map_filter node_identity cs)" for i
    using that by (auto simp: List.map_filter_def node_identity_def wocky_disco_identity_new_def split: if_splits)
  ultimately show ?thesis by blast
qed

lemma hash_from_node_total: "wocky_caps_hash_compute_from_node digest node \<noteq> None"
  by (auto simp: wocky_caps_hash_compute_from_node_def wocky_caps_hash_compute_from_lists_def
      node_identities_sortable split: option.splits)

lemma reply_trust_inc_total:
  assumes "waiter_ok uri w"
  shows "\<exists>inc. reply_trust_inc env w reply = Some inc
    \<and> (\<forall>i. inc = Some i \<longrightarrow> i = 1 \<or> i = 5 \<and> matches_hash env uri reply)"
proof -
  obtain h where h: "wocky_caps_hash_compute_from_node (pc_digest env) reply = Some h"
    using hash_from_node_total by blast
  show ?thesis
    using assms h by (cases h; cases "dw_ver w")
      (auto simp: reply_trust_inc_def waiter_ok_def matches_hash_def CAPABILITY_BUNDLE_ENOUGH_TRUST_def)
qed

text \<open>What the code relies on of the repository of handles: the JIDs it accepts can be decoded.\<close>

definition repo_ok :: "pc_env \<Rightarrow> bool" where
  "repo_ok env \<longleftrightarrow> (\<forall>jid. pc_ensure env jid \<noteq> 0 \<longrightarrow> wocky_decode_jid (pc_strdown env) jid \<noteq> None)"

lemma emit_put_info: "pc_emit es (put_info uri info c) = put_info uri info (pc_emit es c)"
  by (simp add: pc_emit_def put_info_def)

lemma caps_disco_cb_ok:
  assumes inv: "cache_inv sh c" and repo: "repo_ok env"
  shows "\<exists>c'. caps_disco_cb env jid node reply c = Some c' \<and> cache_inv sh c'"
proof (cases node)
  case None
  with inv show ?thesis by (simp add: caps_disco_cb_def)
next
  case uri: (Some uri)
  show ?thesis
  proof (cases reply)
    case None
    with uri disco_failed_ok [OF inv] show ?thesis by (simp add: caps_disco_cb_def)
  next
    case reply: (Some reply)
    show ?thesis
    proof (cases "pc_ensure env jid = 0")
      case True
      with inv uri reply show ?thesis by (simp add: caps_disco_cb_def)
    next
      case valid: False
      then obtain n d resource where dec: "wocky_decode_jid (pc_strdown env) jid = Some (n, d, resource)"
        using repo valid unfolding repo_ok_def
        by (metis not_None_eq prod_cases3)
      show ?thesis
      proof (cases "find_matching_waiter (waiters_for uri c) (pc_ensure env jid) resource")
        case None
        with inv uri reply valid dec show ?thesis by (simp add: caps_disco_cb_def Let_def)
      next
        case (Some w)
        then have w: "w \<in> set (waiters_for uri c)" "dw_handle w = pc_ensure env jid"
          using find_Some_in unfolding find_matching_waiter_def by fastforce+
        have wo: "waiters_ok c uri" and core: "caps_core sh c" and pres: "presences_ok c"
            and all: "\<And>u. waiters_ok c u" using inv by (auto simp: cache_inv_def)
        have wok: "\<forall>w \<in> set (waiters_for uri c). waiter_ok uri w" and unt: "untrusted c uri"
          using wo w(1) by (auto simp: waiters_ok_def)
        have pend: "map_of (pc_disco_pending c) uri \<noteq> None" using w(1) by (cases "map_of (pc_disco_pending c) uri") (simp_all add: waiters_for_def)
        let ?caps = "gabble_capability_set_new_from_stanza reply"
        obtain inc where inc: "reply_trust_inc env w reply = Some inc"
            "\<forall>i. inc = Some i \<longrightarrow> i = 1 \<or> i = 5 \<and> matches_hash env uri reply"
          using reply_trust_inc_total wok w(1) by blast
        show ?thesis
        proof (cases inc)
          case None
          with finish_ok [OF core pres all wok pend, where trust = None and w = w and reply = reply] unt inc(1) uri reply
              valid dec Some show ?thesis by (simp add: caps_disco_cb_def Let_def)
        next
          case i: (Some i)
          obtain info c1 where get: "capability_info_get uri c = (info, c1)" by (cases "capability_info_get uri c") blast
          note p = info_get_props [OF get core]
          let ?types = "client_types_from_message reply (dw_resource w)" and ?forms = "data_forms_from_message reply"
          let ?info = "info_recvd (pc_ensure env jid) ?caps i ?types ?forms info"
          let ?e = "EV_report uri (pc_ensure env jid) ?caps (matches_hash env uri reply)"
          let ?d = "pc_emit [?e] c1"
          let ?c3 = "put_info uri ?info ?d"
          have small: "ci_trust info < 5 \<or> (\<exists>caps. ci_cap_set info = Some caps \<and> strong c1 uri caps)"
            using unt get p(4) same_log(4) [of c1 c] by (auto simp: untrusted_def capability_info_get_def split: option.splits)
          have io: "info_ok c1 uri info" using p(1,4) same_log(1) [of c1 c] by simp
          have inc': "i = 1 \<or> i = 5" "i = 5 \<Longrightarrow> matches_hash env uri reply" using inc(2) i by auto
          note r = info_recvd_ok [OF io inc'(1) small inc'(2) refl, of "pc_ensure env jid" ?caps ?types ?forms]
          have qd: "quiet c1 ?d" by simp
          have core3: "caps_core sh ?c3" by (rule caps_core_put_info [OF caps_core_quiet [OF p(2) qd] r(1)])
          have wf: "waiters_for u ?c3 = waiters_for u c" for u
            using p(5) by (simp add: waiters_for_def put_info_def pc_emit_def)
          have "waiters_ok ?c3 u" if "u \<noteq> uri" for u
          proof -
            have "waiters_ok ?d u" by (rule waiters_ok_quiet [OF waiters_ok_info_get [OF get core all] qd])
            moreover have "untrusted ?d u \<Longrightarrow> untrusted ?c3 u"
              using that same_log(4) [of ?c3 ?d] by (auto simp: untrusted_def)
            moreover have "waiters_for u ?d = waiters_for u c" using wf by (simp add: waiters_for_def put_info_def)
            ultimately show ?thesis using wf by (auto simp: waiters_ok_def)
          qed
          moreover have "pc_ensure env jid \<in> reported_by ?c3 uri ?caps" by (auto simp: reported_by_def pc_emit_def)
          ultimately obtain c' where "caps_disco_finish env uri reply w (Some (ci_trust ?info)) ?c3 = Some c'" "cache_inv sh c'"
            using finish_ok [of sh ?c3 uri "Some (ci_trust ?info)" ?caps w reply env] core3 pres p(7) wf wok r(2) w(2) pend p(5)
            by (auto simp: put_info_def pc_emit_def presences_ok_def)
          moreover have "caps_disco_cb env jid node (Some reply) c = caps_disco_finish env uri reply w (Some (ci_trust ?info)) ?c3"
            using uri valid dec Some inc(1) i get
            by (simp add: caps_disco_cb_def Let_def capability_info_recvd_def emit_put_info)
          ultimately show ?thesis using reply by simp
        qed
      qed
    qed
  qed
qed

section \<open>Presence stanzas\<close>

lemma apply_known_caps_ok:
  assumes inv: "cache_inv sh c" and info: "pc_capabilities c uri = Some info"
    and known: "pc_shared c uri \<noteq> None \<or> ci_trust info \<ge> 5 \<or> h \<in> ci_guys info"
  shows "\<exists>c'. apply_known_caps h res serial uri info (pc_shared c uri) c = Some c' \<and> cache_inv sh c'
    \<and> (\<forall>h'. pc_presence c' h' = None \<longleftrightarrow> pc_presence c h' = None)"
proof (cases "pc_presence c h")
  case (Some cp)
  have core: "caps_core sh c" and pres: "presences_ok c" using inv by (simp_all add: cache_inv_def)
  have io: "info_ok c uri info" using core info by (simp add: caps_core_def)
  let ?cs = "case pc_shared c uri of Some query \<Rightarrow> Some (gabble_capability_set_new_from_stanza query) | None \<Rightarrow> ci_cap_set info"
  obtain caps where caps: "?cs = Some caps" "caps_set_ok sh c h uri caps"
  proof (cases "pc_shared c uri")
    case (Some q)
    with core that show thesis by (simp add: caps_core_def caps_set_ok_def)
  next
    case None
    then have k: "ci_trust info \<ge> 5 \<or> h \<in> ci_guys info" using known by simp
    then obtain caps where caps: "ci_cap_set info = Some caps"
      using io by (cases "ci_cap_set info") (auto simp: info_ok_def)
    have "caps_set_ok sh c h uri caps"
      using k trusted_justified [OF io caps] io caps
      by (auto simp: caps_set_ok_def info_ok_def justified_def)
    with None caps that show thesis by simp
  qed
  let ?p1 = "snd (gabble_presence_set_capabilities res caps (forms_or_none (ci_data_forms info)) serial (cp_presence cp))"
  let ?types = "case pc_shared c uri of Some query \<Rightarrow> client_types_from_message query res | None \<Rightarrow> ci_client_types info"
  have p1: "presence_ok ?p1" by (rule presence_set_capabilities_ok) (rule presences_okD [OF pres Some])
  obtain changed p2 where p2: "gabble_presence_update_client_types res ?types ?p1 = Some (changed, p2)" "presence_ok p2"
    using presence_update_client_types_ok [OF p1] by blast
  let ?c1 = "put_presence h p2 c"
  let ?c2 = "pc_emit [EV_caps_set h uri caps] ?c1"
  let ?c' = "pc_emit (if changed then [EV_client_types_updated h] else []) ?c2"
  have q1: "quiet c ?c1" and q2: "quiet ?c2 ?c'" by simp_all
  have st: "same_tables c ?c'"
    by (rule same_tables_emit [OF same_tables_emit [OF quiet_same_tables [OF q1]]])
  have "caps_core sh ?c2"
    by (rule caps_core_caps_set [OF caps_core_quiet [OF core q1]])
      (rule caps_set_ok_mono [OF quiet_earlier [OF q1] caps(2)])
  then have "caps_core sh ?c'" using q2 by (rule caps_core_quiet)
  moreover have "presences_ok ?c'" using pres p2(2) by simp
  moreover have "\<forall>u. waiters_ok ?c' u" using inv waiters_ok_same [OF st] by (simp add: cache_inv_def)
  moreover have "apply_known_caps h res serial uri info (pc_shared c uri) c = Some ?c'"
    using Some caps(1) p2(1) by (simp add: apply_known_caps_def Let_def pc_emit_def)
  moreover have "\<forall>h'. pc_presence ?c' h' = None \<longleftrightarrow> pc_presence c h' = None" by simp
  ultimately show ?thesis by (auto simp: cache_inv_def)
qed (use inv in \<open>simp add: apply_known_caps_def\<close>)

lemma set_map_first: "set (map_first P f xs) \<subseteq> set xs \<union> f ` set xs"
  by (induction xs) auto

lemma wait_for_caps_ok:
  assumes inv: "cache_inv sh c" and unt: "untrusted c uri" 
    and hv: "hash = Some ''sha-1'' \<longrightarrow> (\<exists>v. ver = Some v \<and> suffix (''#'' @ v) uri)"
  shows "cache_inv sh (wait_for_caps jid uri trust hash ver h res serial c)"
    "pc_presence (wait_for_caps jid uri trust hash ver h res serial c) = pc_presence c"
proof -
  have put: "cache_inv sh (put_waiters uri ws c)" if "\<forall>w \<in> set ws. waiter_ok uri w" for ws
  proof -
    have "caps_core sh (put_waiters uri ws c) = caps_core sh c" by (rule caps_core_cong) simp_all
    with inv that unt show ?thesis by (simp add: cache_inv_def waiters_ok_put)
  qed
  have ok: "\<forall>w \<in> set (waiters_for uri c). waiter_ok uri w" using inv by (simp add: cache_inv_def waiters_ok_def)
  let ?m = "map_first (\<lambda>w. dw_handle w = h \<and> dw_resource w = res) (\<lambda>w. w\<lparr>dw_serial := serial\<rparr>) (waiters_for uri c)"
  have "\<forall>w \<in> set ?m. waiter_ok uri w"
    using ok set_map_first by (fastforce simp: waiter_ok_def)
  moreover have "waiter_ok uri (disco_waiter_new h res hash ver serial)"
      "waiter_ok uri ((disco_waiter_new h res hash ver serial)\<lparr>dw_disco_requested := True\<rparr>)"
    using hv by (simp_all add: waiter_ok_def disco_waiter_new_def)
  ultimately have m: "\<forall>w \<in> set ?m. waiter_ok uri w"
    and n: "\<forall>w \<in> set (disco_waiter_new h res hash ver serial # waiters_for uri c). waiter_ok uri w"
      "\<forall>w \<in> set ((disco_waiter_new h res hash ver serial)\<lparr>dw_disco_requested := True\<rparr> # waiters_for uri c). waiter_ok uri w"
    using ok by simp_all
  have req: "cache_inv sh (gabble_disco_request jid uri d)" if "cache_inv sh d" for d
    by (rule cache_inv_quiet [OF that quiet_disco_request [OF quiet_refl]]) (use that in \<open>simp add: cache_inv_def\<close>)
  show "cache_inv sh (wait_for_caps jid uri trust hash ver h res serial c)"
  proof (cases "find_matching_waiter (waiters_for uri c) h res")
    case None
    then show ?thesis
      using put [OF n(1)] req [OF put [OF n(2)]] by (simp add: wait_for_caps_def Let_def)
  next
    case (Some w)
    then show ?thesis using put [OF m] by (simp add: wait_for_caps_def Let_def)
  qed
  show "pc_presence (wait_for_caps jid uri trust hash ver h res serial c) = pc_presence c"
    by (simp add: wait_for_caps_def Let_def gabble_disco_request_def pc_emit_def put_waiters_def split: option.split)
qed

lemma process_caps_uri_ok:
  assumes inv: "cache_inv sh c" and hv: "hash = Some ''sha-1'' \<longrightarrow> ver = Some u"
  shows "\<exists>c'. process_caps_uri jid node hash ver h res serial u c = Some c' \<and> cache_inv sh c'
    \<and> (\<forall>h'. pc_presence c' h' = None \<longleftrightarrow> pc_presence c h' = None)"
proof -
  let ?uri = "node @ ''#'' @ u"
  obtain info c1 where get: "capability_info_get ?uri c = (info, c1)" by (cases "capability_info_get ?uri c") blast
  have core: "caps_core sh c" and ws: "\<And>v. waiters_ok c v" and pres: "presences_ok c"
    using inv by (simp_all add: cache_inv_def)
  note p = info_get_props [OF get core]
  have inv1: "cache_inv sh c1"
    using p(2,7) pres waiters_ok_info_get [OF get core ws] by (simp add: cache_inv_def)
  show ?thesis
  proof (cases "pc_shared c1 ?uri \<noteq> None \<or> 5 \<le> ci_trust info \<or> h \<in> ci_guys info")
    case True
    from apply_known_caps_ok [OF inv1 p(3) True, of res serial] get True p(8) show ?thesis
      by (simp add: process_caps_uri_def CAPABILITY_BUNDLE_ENOUGH_TRUST_def Let_def)
  next
    case False
    then have unt: "untrusted c1 ?uri" using p(3) by (auto simp: untrusted_def)
    have set: "cache_inv sh (set_presence_caps h res s [] serial c1)" for s
      by (rule cache_inv_quiet [OF inv1]) (use inv1 in \<open>simp_all add: cache_inv_def\<close>)
    have hv': "hash = Some ''sha-1'' \<longrightarrow> (\<exists>v. ver = Some v \<and> suffix (''#'' @ v) ?uri)"
      using hv by (simp add: suffix_def)
    show ?thesis
      using False get p(8) wait_for_caps_ok [OF inv1 unt hv'] set
      by (simp add: process_caps_uri_def CAPABILITY_BUNDLE_ENOUGH_TRUST_def Let_def split: option.split) metis
  qed
qed

lemma process_caps_uris_ok:
  assumes "cache_inv sh c" "\<forall>u \<in> set us. hash = Some ''sha-1'' \<longrightarrow> ver = Some u"
  shows "\<exists>c'. process_caps_uris jid node hash ver h res serial us c = Some c' \<and> cache_inv sh c'
    \<and> (\<forall>h'. pc_presence c' h' = None \<longleftrightarrow> pc_presence c h' = None)"
  using assms
proof (induction us arbitrary: c)
  case (Cons u us)
  have "hash = Some ''sha-1'' \<longrightarrow> ver = Some u" using Cons.prems(2) by simp
  then obtain c1 where "process_caps_uri jid node hash ver h res serial u c = Some c1" "cache_inv sh c1"
      "\<forall>h'. pc_presence c1 h' = None \<longleftrightarrow> pc_presence c h' = None"
    using process_caps_uri_ok [OF Cons.prems(1)] by blast
  with Cons.IH [of c1] Cons.prems(2) show ?case by auto
qed simp

text \<open>With a hash, the version is all there is to look up.\<close>

lemma parse_cap_bundles_ver:
  "parse_cap_bundles node = (uris, hash, ver, n) \<Longrightarrow> u \<in> set uris \<Longrightarrow> hash \<noteq> None \<Longrightarrow> ver = Some u"
  by (cases ver) (auto simp: parse_cap_bundles_def Let_def split: option.splits if_splits)

lemma process_caps_ok:
  assumes inv: "cache_inv sh c" and has: "has \<longrightarrow> pc_presence c h \<noteq> None"
  shows "\<exists>c'. process_caps has h jid node c = Some c' \<and> cache_inv sh c'"
proof -
  obtain uris hash ver n where pc: "parse_cap_bundles node = (uris, hash, ver, n)"
    by (cases "parse_cap_bundles node") blast
  let ?c1 = "c\<lparr>pc_caps_serial := pc_caps_serial c + 1\<rparr>" and ?s = "pc_caps_serial c" and ?r = "resource_of jid"
  have "cache_inv sh ?c1"
    by (rule cache_inv_quiet [OF inv]) (use inv in \<open>simp_all add: quiet_def cache_inv_def presences_ok_def\<close>)
  note inv1 = this
  have uris: "\<exists>c'. process_caps_uris jid n hash ver h ?r ?s uris d = Some c' \<and> cache_inv sh c'
      \<and> (\<forall>h'. pc_presence c' h' = None \<longleftrightarrow> pc_presence d h' = None)" if "cache_inv sh d" for d
  proof -
    have "\<forall>u \<in> set uris. hash = Some ''sha-1'' \<longrightarrow> ver = Some u" using parse_cap_bundles_ver [OF pc] by simp
    from process_caps_uris_ok [OF that this] show ?thesis by blast
  qed
  show ?thesis
  proof (cases has)
    case True
    then obtain cp where cp: "pc_presence c h = Some cp" using has by blast
    let ?d = "parse_node h node ?r ?s ?c1"
    have "cache_inv sh ?d" by (rule cache_inv_quiet [OF inv1]) (use inv1 in \<open>simp_all add: cache_inv_def\<close>)
    from uris [OF this] obtain c2 where c2: "process_caps_uris jid n hash ver h ?r ?s uris ?d = Some c2" "cache_inv sh c2"
        "\<forall>h'. pc_presence c2 h' = None \<longleftrightarrow> pc_presence ?d h' = None" by blast
    then obtain cp' where cp': "pc_presence c2 h = Some cp'" using cp by (cases "pc_presence c2 h") auto
    have "cache_inv sh (emit_capabilities_update h a b c2)" for a b
      by (rule cache_inv_quiet [OF c2(2)]) (use c2(2) in \<open>simp_all add: cache_inv_def\<close>)
    with True pc cp c2(1) cp' show ?thesis by (simp add: process_caps_def Let_def)
  next
    case False
    from uris [OF inv1] False pc show ?thesis by (auto simp: process_caps_def Let_def)
  qed
qed

lemma error_extract_total: "node_name e = ''error'' \<Longrightarrow> \<exists>err. wocky_xmpp_error_extract e = Some err"
  by (simp add: wocky_xmpp_error_extract_def Let_def split: prod.split)

lemma parse_presence_ok:
  assumes inv: "cache_inv sh c" and name: "node_name message = ''presence''"
  shows "\<exists>r c'. gabble_presence_parse_presence_message env h jid message now c = Some (r, c') \<and> cache_inv sh c'"
proof (cases "jid = pc_full_jid env")
  case False
  let ?c1 = "c\<lparr>pc_presence := (pc_presence c)(h := map_option (\<lambda>cp. cp\<lparr>cp_keep_unavailable := False\<rparr>) (pc_presence c h))\<rparr>"
  let ?c2 = "presence_cache_check_for_decloak_request env message h jid ?c1"
  let ?msg = "wocky_node_get_content_from_child message ''status''"
  let ?prio = "parse_priority (wocky_node_get_content_from_child message ''priority'')"
  let ?upd = "\<lambda>st msg. gabble_presence_cache_update h (resource_of jid) st msg ?prio now ?c2"
  have pres: "presences_ok c" using inv by (simp add: cache_inv_def)
  have pres1: "presences_ok ?c1" using pres by (auto simp: presences_ok_def)
  have q: "quiet c ?c1" by (simp add: quiet_def)
  have inv2: "cache_inv sh ?c2"
    by (rule cache_inv_quiet [OF cache_inv_quiet [OF inv q pres1]]) (use pres1 in simp_all)
  have upd: "\<exists>c'. ?upd st msg = Some c' \<and> cache_inv sh c' \<and> (GABBLE_PRESENCE_LAST_UNAVAILABLE < st \<longrightarrow> pc_presence c' h \<noteq> None)"
    for st msg
    using cache_update_ok [of ?c2 h "resource_of jid" st msg ?prio now] cache_inv_quiet [OF inv2] pres1 by fastforce
  have st: "GABBLE_PRESENCE_LAST_UNAVAILABLE < presence_node_get_status message"
    by (simp add: presence_node_get_status_def presence_ids Let_def split: option.split)
  obtain c3 where c3: "?upd (presence_node_get_status message) ?msg = Some c3" "cache_inv sh c3" "pc_presence c3 h \<noteq> None"
    using upd [of "presence_node_get_status message" ?msg] st by blast
  let ?c4 = "grab_avatar_sha1 env h message (grab_nickname h message c3)"
  have pres3: "presences_ok c3" using c3(2) by (simp add: cache_inv_def)
  have inv4: "cache_inv sh ?c4"
    by (rule cache_inv_quiet [OF c3(2)]) (use pres3 in \<open>simp_all add: quiet_trans [OF grab_nickname_ok(1) grab_avatar_ok(1)]\<close>)
  have "pc_presence ?c4 h \<noteq> None" using c3(3) by simp
  then obtain c5 where c5: "process_caps (pc_presence c h \<noteq> None \<or> pc_presence c3 h \<noteq> None) h jid message ?c4 = Some c5"
      "cache_inv sh c5" using process_caps_ok [OF inv4] by blast
  have err: "\<exists>err. wocky_stanza_extract_errors message = Some err"
    if "snd (wocky_stanza_get_type_info message) = WOCKY_STANZA_SUB_TYPE_ERROR"
    using that error_extract_total find_Some_in [of _ "node_children message"]
    by (fastforce simp: wocky_stanza_extract_errors_def wocky_node_get_child_def wocky_node_get_child_ns_def
        node_compare_child_def split: option.split)
  note step = gabble_presence_parse_presence_message_def [of env h jid message now c] False name
  consider (up) "snd (wocky_stanza_get_type_info message) \<in> {WOCKY_STANZA_SUB_TYPE_NONE, WOCKY_STANZA_SUB_TYPE_AVAILABLE}"
    | (error) "snd (wocky_stanza_get_type_info message) = WOCKY_STANZA_SUB_TYPE_ERROR"
    | (down) "snd (wocky_stanza_get_type_info message) = WOCKY_STANZA_SUB_TYPE_UNAVAILABLE"
    | (other) "snd (wocky_stanza_get_type_info message) \<notin> {WOCKY_STANZA_SUB_TYPE_NONE, WOCKY_STANZA_SUB_TYPE_AVAILABLE,
        WOCKY_STANZA_SUB_TYPE_ERROR, WOCKY_STANZA_SUB_TYPE_UNAVAILABLE}" by blast
  then show ?thesis
  proof cases
    case up
    with step c3(1) c5 show ?thesis by (auto simp: Let_def)
  next
    case error
    from err [OF this] obtain e where "wocky_stanza_extract_errors message = Some e" by blast
    with step error upd [of GABBLE_PRESENCE_ERROR "Some (if ex_message e = [] then wocky_xmpp_error_string (ex_core e) else ex_message e)"]
    show ?thesis by (auto simp: Let_def)
  next
    case down
    with step upd [of "if pc_sends_presence_to_us env h then GABBLE_PRESENCE_OFFLINE else GABBLE_PRESENCE_UNKNOWN" ?msg]
    show ?thesis by (auto simp: Let_def)
  next
    case other
    with step inv2 show ?thesis by (auto simp: Let_def)
  qed
qed (use inv in \<open>auto simp: gabble_presence_parse_presence_message_def\<close>)

section \<open>Every operation keeps the invariant\<close>

lemma message_ok: "cache_inv sh c \<Longrightarrow> cache_inv sh (snd (parse_message_message env message c))"
proof -
  assume inv: "cache_inv sh c"
  have "quiet c (cache_insert h c\<lparr>pc_presence := m\<rparr>)" for h m
    by (simp add: quiet_def cache_insert_def)
  moreover have "presences_ok (grab_nickname h message
      (cache_insert h c\<lparr>pc_presence := (pc_presence (cache_insert h c))(h :=
         map_option (\<lambda>cp. cp\<lparr>cp_keep_unavailable := True\<rparr>) (pc_presence (cache_insert h c) h))\<rparr>))" for h
    by (rule grab_nickname_ok(2)) (use inv in \<open>auto simp: cache_inv_def presences_ok_def cache_insert_def presence_ok_init\<close>)
  moreover have "presences_ok (grab_nickname h message c)" for h using inv by (simp add: cache_inv_def)
  ultimately show ?thesis
    using cache_inv_quiet [OF inv] quiet_trans [OF _ grab_nickname_ok(1)] inv
    by (auto simp: parse_message_message_def Let_def split: option.split)
qed

lemma own_caps_ok:
  assumes inv: "cache_inv sh c"
  shows "cache_inv sh (gabble_presence_cache_add_own_caps env ver caps ids forms c)"
proof -
  let ?uri = "NS_GABBLE_CAPS @ ''#'' @ ver"
  obtain info c1 where get: "capability_info_get ?uri c = (info, c1)" by (cases "capability_info_get ?uri c") blast
  have core: "caps_core sh c" and ws: "\<And>v. waiters_ok c v" and pres: "presences_ok c"
    using inv by (simp_all add: cache_inv_def)
  note p = info_get_props [OF get core]
  let ?info = "info\<lparr>ci_cap_set := Some caps, ci_identities := ids, ci_complete := True,
      ci_trust := CAPABILITY_BUNDLE_ENOUGH_TRUST, ci_guys := insert (pc_self_handle env) (ci_guys info), ci_data_forms := forms\<rparr>"
  let ?d = "pc_emit [EV_own ?uri caps] c1"
  let ?c2 = "put_info ?uri ?info ?d"
  have inv1: "cache_inv sh c1"
    using p(2,7) pres waiters_ok_info_get [OF get core ws] by (simp add: cache_inv_def)
  have q: "quiet c1 ?d" by simp
  have invd: "cache_inv sh ?d" by (rule cache_inv_quiet [OF inv1 q]) (use p(7) pres in simp)
  have s: "strong ?d ?uri caps" by (simp add: strong_def pc_emit_def)
  have "caps_core sh ?c2" by (rule caps_core_put_info) (use invd s in \<open>simp_all add: cache_inv_def info_ok_def\<close>)
  moreover have "waiters_ok ?c2 u" for u
  proof -
    have "waiters_ok ?d u" using invd by (simp add: cache_inv_def)
    moreover have "waiters_for u ?c2 = waiters_for u ?d" by (simp add: waiters_for_def)
    moreover have "untrusted ?d u \<Longrightarrow> untrusted ?c2 u"
      using s same_log(4) [of ?c2 ?d] by (auto simp: untrusted_def)
    ultimately show ?thesis by (auto simp: waiters_ok_def)
  qed
  ultimately have "cache_inv sh ?c2" using p(7) pres by (simp add: cache_inv_def)
  then show ?thesis
    using get inv1 by (simp add: gabble_presence_cache_add_own_caps_def Let_def emit_put_info)
qed

lemma peek_own_caps_ok:
  assumes inv: "cache_inv sh c"
  shows "\<exists>r c'. gabble_presence_cache_peek_own_caps ver c = Some (r, c') \<and> cache_inv sh c'"
proof -
  let ?uri = "NS_GABBLE_CAPS @ ''#'' @ ver"
  obtain info c1 where get: "capability_info_get ?uri c = (info, c1)" by (cases "capability_info_get ?uri c") blast
  have core: "caps_core sh c" and ws: "\<And>v. waiters_ok c v" and pres: "presences_ok c"
    using inv by (simp_all add: cache_inv_def)
  note p = info_get_props [OF get core]
  have "cache_inv sh c1"
    using p(2,7) pres waiters_ok_info_get [OF get core ws] by (simp add: cache_inv_def)
  then show ?thesis
    using get p(1) by (auto simp: gabble_presence_cache_peek_own_caps_def info_ok_def)
qed

lemma pending_emit: "pc_disco_pending (pc_emit es c) = pc_disco_pending c"
  by (simp add: pc_emit_def)

lemma constructor_ok: "cache_inv shared (gabble_presence_cache_constructor shared)"
proof -
  let ?ok = "\<lambda>c. cache_inv shared c \<and> pc_disco_pending c = []"
  have step: "?ok (gabble_presence_cache_add_bundle_caps node ns c)" if ok: "?ok c" for node ns c
  proof -
    obtain info c1 where get: "capability_info_get node c = (info, c1)" by (cases "capability_info_get node c") blast
    have core: "caps_core shared c" and pres: "presences_ok c" using ok by (simp_all add: cache_inv_def)
    note p = info_get_props [OF get core]
    let ?caps = "gabble_capability_set_add (case ci_cap_set info of None \<Rightarrow> {} | Some s \<Rightarrow> s) ns"
    let ?d = "pc_emit [EV_own node ?caps] c1"
    have s: "strong ?d node ?caps" by (simp add: strong_def pc_emit_def)
    have q: "quiet c1 ?d" by simp
    have "caps_core shared (put_info node (info\<lparr>ci_cap_set := Some ?caps, ci_trust := CAPABILITY_BUNDLE_ENOUGH_TRUST\<rparr>) ?d)"
      by (rule caps_core_put_info [OF caps_core_quiet [OF p(2) q]]) (use s in \<open>simp add: info_ok_def\<close>)
    then show ?thesis
      using get ok p(5,7) pres
      by (simp add: gabble_presence_cache_add_bundle_caps_def Let_def emit_put_info cache_inv_def waiters_ok_def
          waiters_for_def pending_emit)
  qed
  have "?ok (gabble_presence_cache_init\<lparr>pc_shared := shared\<rparr>)"
    by (simp add: gabble_presence_cache_init_def cache_inv_def caps_core_def waiters_ok_def waiters_for_def presences_ok_def
        justified_def)
  then have "?ok (gabble_presence_cache_constructor shared)"
    unfolding gabble_presence_cache_constructor_def gabble_presence_cache_add_bundles_def by (simp add: step)
  then show ?thesis by blast
qed

text \<open>The views of the OLPC extensions may free a presence twice (\<open>view_frees_bare_message\<close>), so they are left out of
  the histories; the porter hands presence stanzas to the handler for presences.\<close>

fun pc_legal :: "pc_op \<Rightarrow> bool" where
  "pc_legal (PC_presence message now) \<longleftrightarrow> node_name message = ''presence''"
| "pc_legal (PC_added_to_view hs) \<longleftrightarrow> False"
| "pc_legal (PC_removed_from_view hs) \<longleftrightarrow> False"
| "pc_legal _ \<longleftrightarrow> True"

lemma decloak_timeout_ok:
  assumes inv: "cache_inv sh c"
  shows "\<exists>c'. gabble_presence_cache_decloak_timeout_cb h c = Some c' \<and> cache_inv sh c'"
proof -
  let ?c1 = "if map_of (pc_decloak_requests c) h = None then c
      else c\<lparr>pc_decloak_requests := AList.delete h (pc_decloak_requests c), pc_decloak_handles := pc_decloak_handles c - {h}\<rparr>"
  have pres: "presences_ok ?c1" "h \<notin> pc_decloak_handles ?c1"
    using inv by (auto simp: cache_inv_def presences_ok_def delete_conv')
  have "quiet c ?c1" by (simp add: quiet_def)
  then have "quiet c (pc_emit [EV_capabilities_discovered h] ?c1)" by simp
  from cache_inv_quiet [OF inv this] pres show ?thesis
    by (simp add: gabble_presence_cache_decloak_timeout_cb_def Let_def)
qed

lemma request_decloaking_ok:
  assumes inv: "cache_inv sh c"
  shows "cache_inv sh (snd (gabble_presence_cache_request_decloaking env h reason c))"
proof -
  let ?d = "c\<lparr>pc_decloak_requests := AList.update h reason (pc_decloak_requests c),
      pc_decloak_handles := insert h (pc_decloak_handles c)\<rparr>"
  have "presences_ok ?d" using inv by (auto simp: cache_inv_def presences_ok_def update_conv' split: if_splits)
  moreover have "quiet c ?d" by (simp add: quiet_def)
  then have "quiet c (pc_emit [EV_request_decloak (pc_inspect env h) reason] ?d)" by simp
  ultimately show ?thesis
    using cache_inv_quiet [OF inv] inv by (simp add: gabble_presence_cache_request_decloaking_def split: option.split)
qed

lemma pc_step_ok:
  assumes inv: "cache_inv sh c" and legal: "pc_legal op" and repo: "repo_ok env"
  shows "\<exists>c'. pc_step env op c = Some c' \<and> cache_inv sh c'"
proof -
  have pres: "presences_ok c" using inv by (simp add: cache_inv_def)
  note quiet = cache_inv_quiet [OF inv]
  show ?thesis
  proof (cases op)
    case (PC_presence message now)
    with legal parse_presence_ok [OF inv] inv show ?thesis
      by (fastforce simp: gabble_presence_cache_presence_cb_def Let_def split: option.split)
  next
    case (PC_disco_reply jid node reply)
    let ?c = "c\<lparr>pc_discos := (case node of None \<Rightarrow> pc_discos c | Some n \<Rightarrow> remove1 (jid, n) (pc_discos c))\<rparr>"
    have "cache_inv sh ?c" by (rule quiet) (use pres in \<open>simp_all add: quiet_def presences_ok_def\<close>)
    from caps_disco_cb_ok [OF this repo] PC_disco_reply show ?thesis by simp
  next
    case (PC_update h res st msg prio now)
    from cache_update_ok [OF pres, of h res st msg prio now] obtain c' where
      "gabble_presence_cache_update h res st msg prio now c = Some c'" "quiet c c'" "presences_ok c'" by blast
    with PC_update quiet show ?thesis by simp
  next
    case (PC_update_many hs res st msg prio now)
    from update_many_ok [OF pres, of hs res st msg prio now] PC_update_many quiet show ?thesis by auto
  next
    case (PC_maybe_remove h)
    from maybe_remove_ok [OF pres, of h] PC_maybe_remove quiet show ?thesis by auto
  next
    case (PC_really_remove h)
    have "cache_inv sh (gabble_presence_cache_really_remove h c)"
      by (rule quiet) (use pres in \<open>auto simp: quiet_def presences_ok_def gabble_presence_cache_really_remove_def\<close>)
    with PC_really_remove show ?thesis by simp
  next
    case (PC_status status)
    have "cache_inv sh (gabble_presence_cache_status_changed_cb status c)"
      by (rule quiet)
        (use pres in \<open>auto simp: quiet_def presences_ok_def gabble_presence_cache_status_changed_cb_def split: connection_status.split\<close>)
    with PC_status show ?thesis by simp
  next
    case PC_unsure_timeout
    have "cache_inv sh (gabble_presence_cache_end_unsure_period c)"
      by (rule quiet) (use pres in \<open>auto simp: quiet_def presences_ok_def gabble_presence_cache_end_unsure_period_def pc_emit_def\<close>)
    with PC_unsure_timeout show ?thesis by simp
  next
    case (PC_location h l)
    have "cache_inv sh (gabble_presence_cache_update_location h l c)"
      by (rule quiet) (use pres in \<open>auto simp: quiet_def presences_ok_def gabble_presence_cache_update_location_def pc_emit_def\<close>)
    with PC_location show ?thesis by simp
  next
    case (PC_self_vcard h sha1)
    have "cache_inv sh (self_vcard_request_cb h sha1 c)"
      by (rule quiet)
        (use pres in \<open>auto simp: quiet_def presences_ok_def self_vcard_request_cb_def pc_emit_def Let_def split: option.splits\<close>)
    with PC_self_vcard show ?thesis by simp
  next
    case (PC_shared_expires uri)
    let ?c = "c\<lparr>pc_shared := (pc_shared c)(uri := None)\<rparr>"
    have log: "pc_events ?c = pc_events c" by simp
    have "waiters_ok ?c u = waiters_ok c u" for u
      using untrusted_cong [of ?c c] by (simp add: waiters_ok_def waiters_for_def)
    with inv have "cache_inv sh ?c" by (simp add: cache_inv_def caps_core_def presences_ok_def same_log [OF log])
    with PC_shared_expires show ?thesis by simp
  next
    case (PC_peek_own_caps ver)
    from peek_own_caps_ok [OF inv, of ver] PC_peek_own_caps show ?thesis by auto
  next
    case (PC_decloak_timeout h)
    from decloak_timeout_ok [OF inv, of h] PC_decloak_timeout show ?thesis by simp
  qed (use legal in \<open>simp_all add: message_ok [OF inv] own_caps_ok [OF inv] request_decloaking_ok [OF inv]\<close>)
qed

interpretation cache_sys: safe_system "\<lambda>op c. repo_ok env \<and> pc_legal op" "pc_step env" "cache_inv sh" for env sh
  by unfold_locales (use pc_step_ok in blast)

lemma legal_run_static: "list_all P es \<Longrightarrow> Q \<Longrightarrow> legal_run (\<lambda>e s. Q \<and> P e) step es s"
  by (induction es arbitrary: s) (auto split: option.split)


section \<open>A trusted reply serves everybody\<close>

lemma set_caps_for_events:
  assumes "set_caps_for node caps types forms w c = Some c'"
  shows "\<exists>es. pc_events c' = pc_events c @ es
      \<and> (pc_presence c (dw_handle w) \<noteq> None \<longrightarrow> EV_caps_set (dw_handle w) node caps \<in> set es)"
    "pc_presence c' h = None \<longleftrightarrow> pc_presence c h = None" "pc_disco_pending c' = pc_disco_pending c"
    "pc_shared c' = pc_shared c"
  using assms
  by (auto simp: set_caps_for_def Let_def pc_emit_def put_presence_def emit_capabilities_update_def
      split: option.splits if_splits Option.bind_splits)

lemma serve_waiters_events:
  "serve_waiters node caps types forms ws c = Some c' \<Longrightarrow>
     (\<exists>es. pc_events c' = pc_events c @ es
       \<and> (\<forall>w \<in> set ws. EV_capabilities_discovered (dw_handle w) \<in> set es
            \<and> (pc_presence c (dw_handle w) \<noteq> None \<longrightarrow> EV_caps_set (dw_handle w) node caps \<in> set es)))
     \<and> pc_disco_pending c' = pc_disco_pending c \<and> pc_shared c' = pc_shared c"
proof (induction ws arbitrary: c)
  case (Cons w ws)
  obtain c1 where c1: "set_caps_for node caps types forms w c = Some c1"
      "serve_waiters node caps types forms ws (pc_emit [EV_capabilities_discovered (dw_handle w)] c1) = Some c'"
    using Cons.prems by (auto split: Option.bind_splits)
  note s = set_caps_for_events [OF c1(1)]
  obtain es where es: "pc_events c1 = pc_events c @ es"
      "pc_presence c (dw_handle w) \<noteq> None \<longrightarrow> EV_caps_set (dw_handle w) node caps \<in> set es" using s(1) by blast
  from Cons.IH [OF c1(2)] obtain fs where fs: "pc_events c' = pc_events c1 @ EV_capabilities_discovered (dw_handle w) # fs"
      "\<forall>v \<in> set ws. EV_capabilities_discovered (dw_handle v) \<in> set fs
         \<and> (pc_presence c1 (dw_handle v) \<noteq> None \<longrightarrow> EV_caps_set (dw_handle v) node caps \<in> set fs)"
      "pc_disco_pending c' = pc_disco_pending c1" "pc_shared c' = pc_shared c1"
    by (auto simp: pc_emit_def)
  let ?es = "es @ EV_capabilities_discovered (dw_handle w) # fs"
  have "pc_events c' = pc_events c @ ?es" using es(1) fs(1) by simp
  moreover have "\<forall>v \<in> set (w # ws). EV_capabilities_discovered (dw_handle v) \<in> set ?es
      \<and> (pc_presence c (dw_handle v) \<noteq> None \<longrightarrow> EV_caps_set (dw_handle v) node caps \<in> set ?es)"
    using es(2) fs(2) s(2) by auto
  ultimately show ?case using fs(3,4) s(3,4) by metis
qed simp

lemma apply_known_shared:
  assumes "presences_ok c" "pc_shared c uri = Some reply"
  shows "\<exists>c'. apply_known_caps h res serial uri info (pc_shared c uri) c = Some c' \<and> pc_discos c' = pc_discos c
    \<and> (pc_presence c h \<noteq> None \<longrightarrow>
         last (filter is_caps_set (pc_events c')) = EV_caps_set h uri (gabble_capability_set_new_from_stanza reply))"
proof (cases "pc_presence c h")
  case (Some cp)
  let ?p = "snd (gabble_presence_set_capabilities res (gabble_capability_set_new_from_stanza reply)
      (forms_or_none (ci_data_forms info)) serial (cp_presence cp))"
  have "presence_ok ?p" by (rule presence_set_capabilities_ok) (rule presences_okD [OF assms(1) Some])
  then obtain changed q where "gabble_presence_update_client_types res (client_types_from_message reply res) ?p = Some (changed, q)"
    using presence_update_client_types_ok by blast
  with Some assms(2) show ?thesis by (auto simp: apply_known_caps_def Let_def pc_emit_def put_presence_def)
qed (use assms in \<open>simp add: apply_known_caps_def\<close>)



section \<open>Examples\<close>

definition caps_env :: pc_env where
  "caps_env =
     \<lparr>pc_ensure = (\<lambda>jid. if wocky_decode_jid id jid = None then 0 else case jid of [] \<Rightarrow> 0 | x # _ \<Rightarrow> Suc (of_char x)),
      pc_inspect = (\<lambda>h. [char_of (h - 1)] @ ''@h''), pc_strdown = id, pc_digest = (\<lambda>_. ''v''), pc_self_handle = 1,
      pc_full_jid = ''me@h/x'', pc_sends_presence_to_us = (\<lambda>_. True), pc_decloak_automatically = False\<rparr>"

definition caps_presence :: "string \<Rightarrow> string \<Rightarrow> string \<Rightarrow> cstring \<Rightarrow> WockyNode" where
  "caps_presence jid node ver hash =
     WockyNode ''presence'' None None [\<lparr>attr_key = ''from'', attr_value = jid, attr_ns = None\<rparr>]
       [WockyNode ''c'' None (Some NS_CAPS)
          ([\<lparr>attr_key = ''node'', attr_value = node, attr_ns = None\<rparr>, \<lparr>attr_key = ''ver'', attr_value = ver, attr_ns = None\<rparr>]
           @ (case hash of None \<Rightarrow> [] | Some h \<Rightarrow> [\<lparr>attr_key = ''hash'', attr_value = h, attr_ns = None\<rparr>])) []]"

definition caps_reply :: "string \<Rightarrow> WockyNode" where
  "caps_reply f =
     WockyNode ''query'' None (Some NS_DISCO_INFO) []
       [WockyNode ''feature'' None (Some NS_DISCO_INFO) [\<lparr>attr_key = ''var'', attr_value = f, attr_ns = None\<rparr>] []]"

lemma caps_repo_ok: "repo_ok caps_env"
  by (simp add: repo_ok_def caps_env_def)

abbreviation announces :: "string \<Rightarrow> string \<Rightarrow> cstring \<Rightarrow> pc_op" where
  "announces jid ver hash \<equiv> PC_presence (caps_presence jid ''n'' ver hash) 0"

abbreviation answers :: "string \<Rightarrow> string \<Rightarrow> string \<Rightarrow> pc_op" where
  "answers jid uri f \<equiv> PC_disco_reply jid (Some uri) (Some (caps_reply f))"

abbreviation no_answer :: "string \<Rightarrow> string \<Rightarrow> pc_op" where
  "no_answer jid uri \<equiv> PC_disco_reply jid (Some uri) None"

definition caps_run :: "pc_op list \<Rightarrow> presence_cache option" where
  "caps_run ops = run (pc_step caps_env) ops (gabble_presence_cache_constructor Map.empty)"



section \<open>Where discovery goes wrong\<close>

text \<open>Two contacts announce the same node without a hash and both are asked. When the first request fails, everybody who
  waits is forgotten, so the good answer of the second contact is ignored and it gets no capabilities.\<close>

theorem failed_request_forgets_others:
  "map_option (\<lambda>c. (waiters_for ''n#v'' c, list_ex is_caps_set (pc_events c)))
     (caps_run [announces ''a@h/r'' ''v'' None, announces ''b@h/r'' ''v'' None, no_answer ''a@h/r'' ''n#v'',
        answers ''b@h/r'' ''n#v'' ''f'']) = Some ([], False)"
  by code_simp

text \<open>Three contacts announce a node with a hash. The first does not answer, another is asked and gives a wrong answer:
  the last is never asked, because the first still counts as asked. No request is under way and it waits for ever.\<close>

theorem failed_request_blocks_others:
  "map_option (\<lambda>c. (map (\<lambda>w. (dw_handle w, dw_disco_requested w)) (waiters_for ''n#w'' c), pc_discos c))
     (caps_run [announces ''a@h/r'' ''w'' (Some ''sha-1''), announces ''b@h/r'' ''w'' (Some ''sha-1''),
        announces ''c@h/r'' ''w'' (Some ''sha-1''), no_answer ''a@h/r'' ''n#w'', answers ''c@h/r'' ''n#w'' ''f'']) =
     Some ([(99, False), (98, True)], [])"
  by code_simp

text \<open>Five contacts that announce a node without a hash, and agree, decide what the node means for a contact that
  announces it with a hash, although the hash is not that of their reply: it is never asked.\<close>

theorem five_outvote_the_hash:
  "map_option (\<lambda>c. (last (filter is_caps_set (pc_events c)), pc_discos c,
       list_ex (\<lambda>e. case e of EV_report _ _ _ v \<Rightarrow> v | _ \<Rightarrow> False) (pc_events c)))
     (caps_run (concat (map (\<lambda>jid. [announces jid ''w'' None, answers jid ''n#w'' ''f''])
          [''a@h/r'', ''b@h/r'', ''c@h/r'', ''d@h/r'', ''e@h/r'']) @ [announces ''z@h/r'' ''w'' (Some ''sha-1'')])) =
     Some (EV_caps_set 123 ''n#w'' {''f''}, [], False)"
  by code_simp

text \<open>A contact announces one of our own nodes before we do. Its answer, when it comes, replaces the capabilities
  we registered for the node, which stays complete: we then tell others that we have the contact's capabilities.\<close>

theorem own_caps_replaced:
  "map_option (map_option ci_cap_set \<circ> fst)
     (Option.bind
       (caps_run [PC_presence (caps_presence ''a@h/r'' NS_GABBLE_CAPS ''o'' None) 0,
          PC_own_caps ''o'' {''g''} None None, answers ''a@h/r'' (NS_GABBLE_CAPS @ ''#o'') ''f''])
       (gabble_presence_cache_peek_own_caps ''o'')) = Some (Some (Some {''f''}))"
  by code_simp

end
