(* ===== verification/Own_Caps.thy ===== *)
theory Own_Caps
  imports Caps_Trust
begin

text \<open>
  Our own capabilities (\<open>src/connection.c\<close>): how a presence announces them
  (\<open>gabble_connection_fill_in_caps\<close>) and how discovery requests for them are answered (\<open>iq_disco_cb\<close>). The theory
  puts the pieces together: what a presence announces can be looked up and verified, whatever happens to the
  presence cache in between, unless somebody was already asked about the node.
\<close>

section \<open>Announcing\<close>

text \<open>What the connection and the build fix: the order in which a set is traversed, \<open>CLIENT_TYPE\<close>,
  \<open>PACKAGE_STRING\<close>, SHA-1 with base64, and the pre-cooked sets.\<close>

record own_env =
  oe_iter :: "GabbleCapabilitySet \<Rightarrow> string list"
  oe_client_type :: string
  oe_package :: string
  oe_digest :: "string \<Rightarrow> string"
  oe_globals :: caps_globals

definition caps_ext :: "presence \<Rightarrow> string" where
  "caps_ext presence =
     BUNDLE_PMUC_V1
     @ (if gabble_presence_has_cap presence NS_GOOGLE_FEAT_SHARE then '' '' @ BUNDLE_SHARE_V1 else [])
     @ (if gabble_presence_has_cap presence NS_GOOGLE_FEAT_VOICE then '' '' @ BUNDLE_VOICE_V1 else [])
     @ (if gabble_presence_has_cap presence NS_GOOGLE_FEAT_VIDEO then '' '' @ BUNDLE_VIDEO_V1 else [])
     @ (if gabble_presence_has_cap presence NS_GOOGLE_FEAT_CAMERA then '' '' @ BUNDLE_CAMERA_V1 else [])"

text \<open>A \<open>NULL\<close> hash ends the list of attributes, and is printed as \<open>(null)\<close> into the name of the node.\<close>

definition gabble_connection_fill_in_caps ::
    "own_env \<Rightarrow> pc_env \<Rightarrow> presence \<Rightarrow> WockyNode \<Rightarrow> presence_cache \<Rightarrow> (WockyNode \<times> presence_cache) option" where
  "gabble_connection_fill_in_caps oe env presence message c =
     do {
       caps_hash \<leftarrow> caps_hash_compute_from_self_presence (oe_digest oe) (oe_iter oe) (oe_client_type oe) (oe_package oe)
                      (pres_cap_set presence) (pres_data_forms presence);
       (let node = set_opt_attribute ''ver'' caps_hash
              (wocky_node_set_attribute
                (wocky_node_set_attribute (WockyNode ''c'' None (Some NS_CAPS) [] []) ''hash'' ''sha-1'')
                ''node'' NS_GABBLE_CAPS);
            ver = (case caps_hash of None \<Rightarrow> ''(null)'' | Some h \<Rightarrow> h)
        in Some (add_child_node message (wocky_node_set_attribute node ''ext'' (caps_ext presence)),
             gabble_presence_cache_add_own_caps env ver (pres_cap_set presence) None (Some (pres_data_forms presence)) c))
     }"

section \<open>Answering\<close>

definition caps_bundle :: "caps_globals \<Rightarrow> cstring \<Rightarrow> GabbleCapabilitySet option" where
  "caps_bundle g fragment =
     (let f1 = (if fragment = Some BUNDLE_SHARE_V1 then share_v1_caps g else None);
          f2 = (if fragment = Some BUNDLE_VOICE_V1 then voice_v1_caps g else f1);
          f3 = (if fragment = Some BUNDLE_VIDEO_V1 then video_v1_caps g else f2)
      in if fragment = Some BUNDLE_CAMERA_V1 then camera_v1_caps g else f3)"

text \<open>The outer option is a crash; then whether the request was handled, the stanza that is sent, and the
  cache. The element \<open>query\<close> of the result is filled through a pointer: here it is added when it is complete.\<close>

definition iq_disco_cb ::
    "own_env \<Rightarrow> presence \<Rightarrow> WockyNode \<Rightarrow> presence_cache \<Rightarrow> (bool \<times> WockyNode option \<times> presence_cache) option" where
  "iq_disco_cb oe self_presence stanza c =
     do {
       query \<leftarrow> wocky_node_get_child stanza ''query'';
       (let node = wocky_node_get_attribute query ''node'';
            start = NS_GABBLE_CAPS @ ''#'';
            fragment = map_option (drop (length start)) node
        in if (case node of None \<Rightarrow> False | Some n \<Rightarrow> take (length start) n \<noteq> start \<or> length n < length start + 1)
           then Some (False, None, c)
           else case create_iq_reply stanza WOCKY_STANZA_SUB_TYPE_RESULT [] of
             None \<Rightarrow> Some (False, None, c)
           | Some result \<Rightarrow>
               do {
                 (info, c1) \<leftarrow> (case fragment of None \<Rightarrow> Some (None, c) | Some s \<Rightarrow> gabble_presence_cache_peek_own_caps s c);
                 (let features = (case info of
                            Some i \<Rightarrow> ci_cap_set i
                          | None \<Rightarrow> if node = None then Some (pres_cap_set self_presence) else caps_bundle (oe_globals oe) fragment);
                      identities = (case info of Some i \<Rightarrow> ci_identities i | None \<Rightarrow> None);
                      data_forms = (case info of
                            Some i \<Rightarrow> forms_or_none (ci_data_forms i)
                          | None \<Rightarrow> if node = None then pres_data_forms self_presence else [])
                  in do {
                       result_query \<leftarrow> fill_disco_reply (oe_iter oe) (oe_client_type oe) (oe_package oe) features
                         (case identities of None \<Rightarrow> [] | Some is \<Rightarrow> is) data_forms
                         (set_opt_attribute ''node'' node (WockyNode ''query'' None (Some NS_DISCO_INFO) [] []));
                       Some (True,
                         if features = None \<and> fragment \<noteq> Some BUNDLE_PMUC_V1
                         then iq_gerror_stanza stanza (XMPP_ERROR WOCKY_XMPP_ERROR_ITEM_NOT_FOUND) []
                         else Some (add_child_node result result_query), c1)
                     })
               })
     }"

section \<open>What we registered stays\<close>

definition kept :: "string \<Rightarrow> GabbleCapabilityInfo \<Rightarrow> presence_cache \<Rightarrow> bool" where
  "kept uri info c \<longleftrightarrow>
     pc_capabilities c uri = Some info \<and> 5 \<le> ci_trust info \<and> ci_complete info \<and> waiters_for uri c = []"

lemma kept_same_tables: "same_tables c c' \<Longrightarrow> kept uri info c \<Longrightarrow> kept uri info c'"
  by (simp add: same_tables_def kept_def waiters_for_def)

lemma kept_quiet: "quiet c c' \<Longrightarrow> kept uri info c \<Longrightarrow> kept uri info c'"
  using kept_same_tables quiet_same_tables by blast

lemma kept_put_info: "u \<noteq> uri \<Longrightarrow> kept uri info (put_info u i c) = kept uri info c"
  by (simp add: kept_def waiters_for_def)

lemma kept_put_waiters: "u \<noteq> uri \<Longrightarrow> kept uri info (put_waiters u ws c) = kept uri info c"
  by (simp add: kept_def)

lemma kept_remove_waiters: "kept uri info c \<Longrightarrow> kept uri info (remove_waiters u c)"
  by (simp add: kept_def)

lemma kept_emit: "kept uri info (pc_emit es c) = kept uri info c"
  by (simp add: kept_def waiters_for_def pc_emit_def)

lemma kept_info_get:
  assumes "capability_info_get u c = (i, c1)" "kept uri info c"
  shows "kept uri info c1" "u = uri \<Longrightarrow> i = info"
  using assms by (auto simp: capability_info_get_def kept_def waiters_for_def split: option.splits)

lemma same_tables_set_caps_for: "set_caps_for node caps types forms w c = Some c' \<Longrightarrow> same_tables c c'"
  by (auto simp: set_caps_for_def Let_def pc_emit_def put_presence_def emit_capabilities_update_def same_tables_def
      earlier_def split: option.splits if_splits Option.bind_splits)

lemma same_tables_serve_waiters: "serve_waiters node caps types forms ws c = Some c' \<Longrightarrow> same_tables c c'"
proof (induction ws arbitrary: c)
  case (Cons w ws)
  then obtain c1 where c1: "set_caps_for node caps types forms w c = Some c1"
      "serve_waiters node caps types forms ws (pc_emit [EV_capabilities_discovered (dw_handle w)] c1) = Some c'"
    by (auto split: Option.bind_splits)
  show ?case
    by (rule same_tables_trans [OF same_tables_emit [OF same_tables_set_caps_for [OF c1(1)]] Cons.IH [OF c1(2)]])
qed simp

lemma kept_finish:
  assumes "caps_disco_finish env node reply w trust c = Some c'" "kept uri info c" "node \<noteq> uri"
  shows "kept uri info c'"
proof -
  let ?c0 = "remove_waiters node c"
  have k0: "kept uri info ?c0" by (rule kept_remove_waiters [OF assms(2)])
  have k1: "kept uri info (?c0\<lparr>pc_shared := m\<rparr>)" for m using k0 by (simp add: kept_def waiters_for_def)
  have "kept uri info (fold (\<lambda>w. redisco env w node) asked (pc_emit es (put_waiters node ws d)))" if "kept uri info d" for asked es ws d
    by (rule kept_quiet [OF fold_redisco(1) [OF quiet_refl]]) (simp add: kept_emit kept_put_waiters [OF assms(3)] that)
  then show ?thesis
    using assms(1) k0 k1 kept_same_tables [OF same_tables_set_caps_for] kept_same_tables [OF same_tables_serve_waiters]
    by (fastforce simp: caps_disco_finish_def Let_def split: if_splits Option.bind_splits prod.splits)
qed

lemma kept_disco_failed: "kept uri info c \<Longrightarrow> kept uri info (disco_failed env node c)"
proof (cases "request_first (waiters_for node c)")
  case None
  then show "kept uri info c \<Longrightarrow> ?thesis" by (simp add: disco_failed_def kept_remove_waiters)
next
  case (Some p)
  assume k: "kept uri info c"
  then have "node \<noteq> uri" using Some by (auto simp: kept_def)
  then have "kept uri info (put_waiters node (snd p) c)" using k by (simp add: kept_put_waiters)
  moreover have q: "quiet d (redisco env w node d)" for w d by (simp add: redisco_def Let_def quiet_disco_request)
  ultimately show ?thesis using Some by (cases p) (simp add: disco_failed_def kept_quiet [OF q])
qed

lemma kept_disco_cb:
  assumes "caps_disco_cb env jid node reply c = Some c'" "kept uri info c"
  shows "kept uri info c'"
proof (cases "node = Some uri")
  case True
  with assms kept_disco_failed [OF assms(2)] show ?thesis
    by (auto simp: caps_disco_cb_def Let_def kept_def find_matching_waiter_def split: option.splits if_splits)
next
  case False
  have recvd: "kept uri info d" if "capability_info_recvd n h caps i types forms c = (t, d)" "n \<noteq> uri" for n h caps i types forms t d
    using that kept_info_get(1) [OF _ assms(2)]
    by (auto simp: capability_info_recvd_def Let_def kept_put_info split: prod.splits)
  show ?thesis
    using assms False kept_disco_failed [OF assms(2)] kept_finish recvd
    by (fastforce simp: caps_disco_cb_def Let_def kept_emit split: option.splits if_splits Option.bind_splits prod.splits)
qed

lemma same_tables_apply_known: "apply_known_caps h res serial u i q c = Some c' \<Longrightarrow> same_tables c c'"
  by (auto simp: apply_known_caps_def Let_def pc_emit_def put_presence_def same_tables_def earlier_def
      split: option.splits if_splits Option.bind_splits)

lemma kept_wait_for_caps: "u \<noteq> uri \<Longrightarrow> kept uri info c \<Longrightarrow> kept uri info (wait_for_caps jid u t hash ver h res serial c)"
  using kept_quiet [OF quiet_disco_request [OF quiet_refl]]
  by (simp add: wait_for_caps_def Let_def kept_put_waiters split: option.split)

lemma kept_process_uri:
  assumes "process_caps_uri jid node hash ver h res serial u c = Some c'" "kept uri info c"
  shows "kept uri info c'"
proof -
  let ?u = "node @ ''#'' @ u"
  obtain i c1 where get: "capability_info_get ?u c = (i, c1)" by (cases "capability_info_get ?u c") blast
  note k = kept_info_get [OF get assms(2)]
  have ne: "?u \<noteq> uri" if "\<not> 5 \<le> ci_trust i" using k(2) assms(2) that by (auto simp: kept_def)
  have set: "kept uri info (set_presence_caps h res s [] serial c1)" for s
    by (rule kept_quiet [OF set_presence_caps_ok(1) [OF quiet_refl] k(1)])
  show ?thesis
  proof (cases "pc_shared c1 ?u \<noteq> None \<or> 5 \<le> ci_trust i \<or> h \<in> ci_guys i")
    case True
    then have "apply_known_caps h res serial ?u i (pc_shared c1 ?u) c1 = Some c'"
      using assms(1) get by (simp add: process_caps_uri_def Let_def CAPABILITY_BUNDLE_ENOUGH_TRUST_def)
    from kept_same_tables [OF same_tables_apply_known [OF this] k(1)] show ?thesis .
  next
    case False
    with ne have "?u \<noteq> uri" by blast
    from kept_wait_for_caps [OF this k(1)] have w: "kept uri info (wait_for_caps jid ?u t hash ver h res serial c1)" for t .
    show ?thesis
      using assms(1) get False set w [of "ci_trust i"]
      by (auto simp: process_caps_uri_def Let_def CAPABILITY_BUNDLE_ENOUGH_TRUST_def split: option.splits if_splits)
  qed
qed

lemma kept_process_uris:
  "process_caps_uris jid node hash ver h res serial us c = Some c' \<Longrightarrow> kept uri info c \<Longrightarrow> kept uri info c'"
  by (induction us arbitrary: c) (auto split: Option.bind_splits dest: kept_process_uri)

lemma kept_process_caps: "process_caps has h jid node c = Some c' \<Longrightarrow> kept uri info c \<Longrightarrow> kept uri info c'"
proof -
  assume p: "process_caps has h jid node c = Some c'" and k: "kept uri info c"
  have q: "quiet c (c\<lparr>pc_caps_serial := n\<rparr>)" for n by (simp add: quiet_def)
  have "quiet c (parse_node h node r s (c\<lparr>pc_caps_serial := n\<rparr>))" for r s n
    by (rule quiet_trans [OF q parse_node_ok(1)])
  with p kept_quiet [OF _ k] q kept_process_uris kept_quiet [OF quiet_update_caps [OF quiet_refl]] show ?thesis
    by (fastforce simp: process_caps_def Let_def split: prod.splits if_splits option.splits Option.bind_splits)
qed

lemma kept_parse_presence:
  assumes pres: "presences_ok c" and k: "kept uri info c"
    and p: "gabble_presence_parse_presence_message env h jid message now c = Some (r, c')"
  shows "kept uri info c'"
proof (cases "jid = pc_full_jid env")
  case False
  let ?c1 = "c\<lparr>pc_presence := (pc_presence c)(h := map_option (\<lambda>cp. cp\<lparr>cp_keep_unavailable := False\<rparr>) (pc_presence c h))\<rparr>"
  let ?c2 = "presence_cache_check_for_decloak_request env message h jid ?c1"
  have pres2: "presences_ok ?c2" by (rule check_for_decloak_ok(2)) (use pres in \<open>auto simp: presences_ok_def\<close>)
  have q: "quiet c ?c1" by (simp add: quiet_def)
  have k2: "kept uri info ?c2" by (rule kept_quiet [OF quiet_trans [OF q check_for_decloak_ok(1)] k])
  have upd: "kept uri info d" if "gabble_presence_cache_update h res st msg prio now ?c2 = Some d" for res st msg prio d
    using cache_update_ok [OF pres2, of h res st msg prio now] that kept_quiet [OF _ k2] by auto
  have grab: "kept uri info (grab_avatar_sha1 env h message (grab_nickname h message d))" if "kept uri info d" for d
    by (rule kept_quiet [OF grab_avatar_ok(1) kept_quiet [OF grab_nickname_ok(1) that]])
  show ?thesis
    using p False k2 upd kept_process_caps [OF _ grab [OF upd]]
    by (auto simp: gabble_presence_parse_presence_message_def Let_def split: if_splits option.splits Option.bind_splits)
qed (use p k in \<open>auto simp: gabble_presence_parse_presence_message_def\<close>)

lemma kept_message: "kept uri info c \<Longrightarrow> kept uri info (snd (parse_message_message env message c))"
proof -
  assume k: "kept uri info c"
  have "quiet c (cache_insert h c\<lparr>pc_presence := m\<rparr>)" for h m
    by (simp add: quiet_def cache_insert_def)
  then show ?thesis
    using kept_quiet [OF grab_nickname_ok(1)] kept_quiet [OF _ k] k
    by (auto simp: parse_message_message_def Let_def split: option.split)
qed

lemma kept_own_caps: "kept uri info c \<Longrightarrow> kept uri info (gabble_presence_cache_add_own_caps env ver caps ids forms c)"
proof -
  assume k: "kept uri info c"
  let ?u = "NS_GABBLE_CAPS @ ''#'' @ ver"
  obtain i c1 where get: "capability_info_get ?u c = (i, c1)" by (cases "capability_info_get ?u c") blast
  note p = kept_info_get [OF get k]
  have "\<not> ci_complete i \<Longrightarrow> ?u \<noteq> uri" using p(2) k by (auto simp: kept_def)
  then show ?thesis
    using get p(1) by (auto simp: gabble_presence_cache_add_own_caps_def Let_def kept_emit kept_put_info)
qed

lemma kept_step:
  assumes inv: "cache_inv sh c" and step: "pc_step env op c = Some c'" and legal: "pc_legal op" and k: "kept uri info c"
  shows "kept uri info c'"
proof -
  have pres: "presences_ok c" using inv by (simp add: cache_inv_def)
  note quiet = kept_quiet [OF _ k]
  show ?thesis
  proof (cases op)
    case (PC_presence message now)
    with step k kept_parse_presence [OF pres k] show ?thesis
      by (auto simp: gabble_presence_cache_presence_cb_def Let_def split: option.splits if_splits)
  next
    case (PC_disco_reply jid node reply)
    let ?c = "c\<lparr>pc_discos := (case node of None \<Rightarrow> pc_discos c | Some n \<Rightarrow> remove1 (jid, n) (pc_discos c))\<rparr>"
    have "kept uri info ?c" by (rule quiet) (simp add: quiet_def)
    with PC_disco_reply step kept_disco_cb show ?thesis by auto
  next
    case (PC_update h res st msg prio now)
    from cache_update_ok [OF pres, of h res st msg prio now] PC_update step quiet show ?thesis by auto
  next
    case (PC_update_many hs res st msg prio now)
    from update_many_ok [OF pres, of hs res st msg prio now] PC_update_many step quiet show ?thesis by auto
  next
    case (PC_maybe_remove h)
    from maybe_remove_ok [OF pres, of h] PC_maybe_remove step quiet show ?thesis by auto
  next
    case (PC_peek_own_caps ver)
    with step kept_info_get(1) [OF _ k] show ?thesis
      by (auto simp: gabble_presence_cache_peek_own_caps_def split: prod.splits if_splits)
  next
    case (PC_shared_expires u)
    with step k show ?thesis by (auto simp: kept_def waiters_for_def)
  next
    case (PC_decloak_timeout h)
    with step quiet show ?thesis
      by (auto simp: gabble_presence_cache_decloak_timeout_cb_def Let_def quiet_def pc_emit_def split: if_splits)
  next
    case (PC_decloak h reason)
    with step quiet show ?thesis
      by (auto simp: gabble_presence_cache_request_decloaking_def quiet_def pc_emit_def split: if_splits)
  next
    case (PC_really_remove h)
    with step quiet show ?thesis by (auto simp: gabble_presence_cache_really_remove_def quiet_def)
  next
    case (PC_status status)
    with step quiet show ?thesis
      by (auto simp: gabble_presence_cache_status_changed_cb_def quiet_def split: connection_status.splits)
  next
    case PC_unsure_timeout
    with step quiet show ?thesis by (auto simp: gabble_presence_cache_end_unsure_period_def quiet_def pc_emit_def)
  next
    case (PC_location h l)
    with step quiet show ?thesis by (auto simp: gabble_presence_cache_update_location_def quiet_def pc_emit_def)
  next
    case (PC_self_vcard h sha1)
    with step quiet show ?thesis by (auto simp: self_vcard_request_cb_def quiet_def pc_emit_def Let_def split: option.splits)
  qed (use legal step kept_message [OF k] kept_own_caps [OF k] in auto)
qed

interpretation own_sys: safe_system "\<lambda>op c. repo_ok env \<and> pc_legal op" "pc_step env" "\<lambda>c. cache_inv sh c \<and> kept uri info c"
  for env sh uri info
  by unfold_locales (use pc_step_ok kept_step in blast)

section \<open>Announcing and answering\<close>

lemma kept_after_own_caps:
  assumes new: "waiters_for (NS_GABBLE_CAPS @ ''#'' @ ver) c = []"
      "\<forall>info. pc_capabilities c (NS_GABBLE_CAPS @ ''#'' @ ver) = Some info \<longrightarrow> \<not> ci_complete info"
  shows "\<exists>info. kept (NS_GABBLE_CAPS @ ''#'' @ ver) info (gabble_presence_cache_add_own_caps env ver caps ids forms c)
    \<and> ci_cap_set info = Some caps \<and> ci_identities info = ids \<and> ci_data_forms info = forms"
proof -
  let ?uri = "NS_GABBLE_CAPS @ ''#'' @ ver"
  obtain i c1 where get: "capability_info_get ?uri c = (i, c1)" by (cases "capability_info_get ?uri c") blast
  have i: "\<not> ci_complete i" and w: "waiters_for ?uri c1 = []"
    using new get by (auto simp: capability_info_get_def capability_info_new_def waiters_for_def split: option.splits)
  let ?info = "i\<lparr>ci_cap_set := Some caps, ci_identities := ids, ci_complete := True, ci_trust := CAPABILITY_BUNDLE_ENOUGH_TRUST,
      ci_guys := insert (pc_self_handle env) (ci_guys i), ci_data_forms := forms\<rparr>"
  have "gabble_presence_cache_add_own_caps env ver caps ids forms c = pc_emit [EV_own ?uri caps] (put_info ?uri ?info c1)"
    using get i by (simp add: gabble_presence_cache_add_own_caps_def Let_def)
  moreover have "kept ?uri ?info (put_info ?uri ?info c1)"
    using w by (simp add: kept_def waiters_for_def CAPABILITY_BUNDLE_ENOUGH_TRUST_def)
  ultimately show ?thesis by (intro exI [of _ ?info]) (simp add: kept_emit)
qed

lemma kept_peek:
  "kept (NS_GABBLE_CAPS @ ''#'' @ ver) info c \<Longrightarrow> ci_cap_set info = Some caps \<Longrightarrow>
   gabble_presence_cache_peek_own_caps ver c = Some (Some info, c)"
  by (simp add: kept_def gabble_presence_cache_peek_own_caps_def capability_info_get_def)

lemma iq_reply_no_children: "create_iq_reply iq st [] = Some r \<Longrightarrow> node_children r = []"
  by (auto simp: create_iq_reply_def stanza_build_defs Let_def split: if_splits option.splits prod.splits)

lemma own_announcement:
  assumes "wocky_node_get_child_ns message (Some ''c'') (Some NS_CAPS) = None"
    "caps_hash_compute_from_self_presence (oe_digest oe) (oe_iter oe) (oe_client_type oe) (oe_package oe)
       (pres_cap_set self) (pres_data_forms self) = Some (Some ver)"
  shows "\<exists>presence. gabble_connection_fill_in_caps oe env self message c = Some (presence,
      gabble_presence_cache_add_own_caps env ver (pres_cap_set self) None (Some (pres_data_forms self)) c)
    \<and> parse_cap_bundles presence = ([ver], Some ''sha-1'', Some ver, NS_GABBLE_CAPS)"
  using assms
  by (simp add: gabble_connection_fill_in_caps_def Let_def parse_cap_bundles_def set_opt_attribute_def
      wocky_node_get_child_ns_def find_append node_compare_child_def get_set_attribute set_attribute_plain)

lemma fill_named_query:
  assumes "fill_disco_reply iter ct pkg feats ids forms query = Some reply"
  shows "node_name reply = node_name query"
proof -
  have f: "node_name (fold add_identity_node is q) = node_name q" for "is" q
    by (induction "is" arbitrary: q) (simp_all add: add_identity_node_def)
  have g: "add_forms fs q = Some r \<Longrightarrow> node_name r = node_name q" for fs q r
    by (induction fs arbitrary: q) (auto simp: wocky_data_form_add_to_node_def split: Option.bind_splits)
  have h: "node_name (gabble_capability_set_foreach iter caps add_feature_node q) = node_name q" for caps q
  proof -
    have "node_name (fold (\<lambda>var s. if \<not> is_quirk var then add_feature_node var s else s) xs q) = node_name q" for xs
      by (induction xs arbitrary: q) (simp_all add: add_feature_node_def)
    then show ?thesis by (simp add: gabble_capability_set_foreach_def)
  qed
  show ?thesis
    using assms by (auto simp: fill_disco_reply_def f h add_default_identity_def dest!: g split: Option.bind_splits option.splits if_splits)
qed

text \<open>C15. What we announce can be looked up and verified. When a presence announces our capabilities for the first time
  and nobody is being asked about the same node, a peer reads from it the hash, the node and the version;
  whatever stanzas, replies, timeouts and calls reach the presence cache afterwards, a request for the node is
  answered, with a result whose hash is the announced version and whose features are those
  we had. The data forms must have values of their type and no list fields.\<close>

theorem announced_caps_answered:
  assumes inv: "cache_inv sh c" and repo: "repo_ok env"
    and caps: "set (oe_iter oe (pres_cap_set self)) = pres_cap_set self"
    and forms: "\<forall>form \<in> set (pres_data_forms self). form_readable form"
    and ver: "caps_hash_compute_from_self_presence (oe_digest oe) (oe_iter oe) (oe_client_type oe) (oe_package oe)
       (pres_cap_set self) (pres_data_forms self) = Some (Some ver)" "ver \<noteq> []"
    and message: "wocky_node_get_child_ns message (Some ''c'') (Some NS_CAPS) = None"
    and fill: "gabble_connection_fill_in_caps oe env self message c = Some (presence, c1)"
    and new: "waiters_for (NS_GABBLE_CAPS @ ''#'' @ ver) c = []"
      "\<forall>info. pc_capabilities c (NS_GABBLE_CAPS @ ''#'' @ ver) = Some info \<longrightarrow> \<not> ci_complete info"
    and ops: "list_all pc_legal ops"
    and query: "wocky_node_get_child stanza ''query'' = Some query"
      "wocky_node_get_attribute query ''node'' = Some (NS_GABBLE_CAPS @ ''#'' @ ver)"
    and iq: "create_iq_reply stanza WOCKY_STANZA_SUB_TYPE_RESULT [] = Some result"
  shows "parse_cap_bundles presence = ([ver], Some ''sha-1'', Some ver, NS_GABBLE_CAPS)
    \<and> (\<exists>c2 reply answer. run (pc_step env) ops c1 = Some c2
         \<and> iq_disco_cb oe self' stanza c2 = Some (True, Some reply, c2)
         \<and> wocky_node_get_child reply ''query'' = Some answer
         \<and> wocky_caps_hash_compute_from_node (oe_digest oe) answer = Some (Some ver)
         \<and> {f \<in> gabble_capability_set_new_from_stanza answer. \<not> is_quirk f} = {f \<in> pres_cap_set self. \<not> is_quirk f})"
proof -
  let ?uri = "NS_GABBLE_CAPS @ ''#'' @ ver" and ?forms = "pres_data_forms self" and ?caps = "pres_cap_set self"
  let ?q = "set_opt_attribute ''node'' (Some ?uri) (WockyNode ''query'' None (Some NS_DISCO_INFO) [] [])"
  have c1: "c1 = gabble_presence_cache_add_own_caps env ver ?caps None (Some ?forms) c"
      "parse_cap_bundles presence = ([ver], Some ''sha-1'', Some ver, NS_GABBLE_CAPS)"
    using own_announcement [OF message ver(1), of env c] fill by auto
  obtain info where info: "kept ?uri info c1" "ci_cap_set info = Some ?caps" "ci_identities info = None"
      "ci_data_forms info = Some ?forms"
    unfolding c1(1) using kept_after_own_caps [OF new] by blast
  have "cache_inv sh c1" unfolding c1(1) by (rule own_caps_ok [OF inv])
  with info(1) own_sys.run_safe [OF _ legal_run_static [OF ops repo]] obtain c2 where
    c2: "run (pc_step env) ops c1 = Some c2" "kept ?uri info c2" by blast
  have h: "own_caps_hash (oe_digest oe) (oe_iter oe) (oe_client_type oe) (oe_package oe) ?caps [] ?forms = Some (Some ver)"
    using ver(1) by (simp add: own_caps_hash_def)
  obtain answer where a: "fill_disco_reply (oe_iter oe) (oe_client_type oe) (oe_package oe) (Some ?caps) [] ?forms ?q = Some answer"
      "wocky_caps_hash_compute_from_node (oe_digest oe) answer = Some (Some ver)"
      "{f \<in> gabble_capability_set_new_from_stanza answer. \<not> is_quirk f} = {f \<in> ?caps. \<not> is_quirk f}"
    using own_caps_reply [OF caps _ forms _ h, of ?q] by (auto simp: set_opt_attribute_def)
  have "iq_disco_cb oe self' stanza c2 = Some (True, Some (add_child_node result answer), c2)"
    using query iq a(1) kept_peek [OF c2(2) info(2)] info ver(2)
    by (simp add: iq_disco_cb_def Let_def forms_or_none_def)
  moreover have "wocky_node_get_child (add_child_node result answer) ''query'' = Some answer"
    using iq_reply_no_children [OF iq] fill_named_query [OF a(1)]
    by (simp add: wocky_node_get_child_def wocky_node_get_child_ns_def node_compare_child_def set_opt_attribute_def)
  ultimately show ?thesis using c1(2) c2(1) a(2,3) by blast
qed

definition own_example :: own_env where
  "own_example = \<lparr>oe_iter = (\<lambda>_. [''urn:a'']), oe_client_type = ''pc'', oe_package = ''Gabble'', oe_digest = (\<lambda>_. ''v''),
     oe_globals = caps_globals_start\<rparr>"

definition own_presence :: presence where
  "own_presence = gabble_presence_init\<lparr>pres_cap_set := {''urn:a''}\<rparr>"

definition own_query :: WockyNode where
  "own_query = WockyNode ''iq'' None (Some ''jabber:client'')
     [\<lparr>attr_key = ''type'', attr_value = ''get'', attr_ns = None\<rparr>, \<lparr>attr_key = ''id'', attr_value = ''7'', attr_ns = None\<rparr>]
     [WockyNode ''query'' None (Some NS_DISCO_INFO)
        [\<lparr>attr_key = ''node'', attr_value = NS_GABBLE_CAPS @ ''#v'', attr_ns = None\<rparr>] []]"

theorem announced_caps_answered_witness:
  "\<exists>presence c1 c2 reply answer.
     gabble_connection_fill_in_caps own_example caps_env own_presence (WockyNode ''presence'' None None [] [])
       (gabble_presence_cache_constructor Map.empty) = Some (presence, c1)
     \<and> run (pc_step caps_env) [announces ''a@h/r'' ''v'' None, answers ''a@h/r'' ''n#v'' ''f''] c1 = Some c2
     \<and> iq_disco_cb own_example own_presence own_query c2 = Some (True, Some reply, c2)
     \<and> wocky_node_get_child reply ''query'' = Some answer
     \<and> wocky_caps_hash_compute_from_node (\<lambda>_. ''v'') answer = Some (Some ''v'')"
proof -
  let ?c = "gabble_presence_cache_constructor Map.empty" and ?m = "WockyNode ''presence'' None None [] []"
  let ?ops = "[announces ''a@h/r'' ''v'' None, answers ''a@h/r'' ''n#v'' ''f'']"
  have ver: "caps_hash_compute_from_self_presence (oe_digest own_example) (oe_iter own_example) (oe_client_type own_example)
      (oe_package own_example) (pres_cap_set own_presence) (pres_data_forms own_presence) = Some (Some ''v'')" "''v'' \<noteq> []"
    by code_simp+
  have caps: "set (oe_iter own_example (pres_cap_set own_presence)) = pres_cap_set own_presence"
      "\<forall>form \<in> set (pres_data_forms own_presence). form_readable form"
    by (simp_all add: own_example_def own_presence_def gabble_presence_init_def)
  have m: "wocky_node_get_child_ns ?m (Some ''c'') (Some NS_CAPS) = None" by code_simp
  have new: "waiters_for (NS_GABBLE_CAPS @ ''#'' @ ''v'') ?c = []" by code_simp
  have "pc_capabilities ?c (NS_GABBLE_CAPS @ ''#'' @ ''v'') = None" by code_simp
  then have new2: "\<forall>info. pc_capabilities ?c (NS_GABBLE_CAPS @ ''#'' @ ''v'') = Some info \<longrightarrow> \<not> ci_complete info" by simp
  obtain presence c1 where fill: "gabble_connection_fill_in_caps own_example caps_env own_presence ?m ?c = Some (presence, c1)"
    using own_announcement [OF m ver(1), of caps_env ?c] by blast
  have ops: "list_all pc_legal ?ops" by (simp add: caps_presence_def)
  have query: "wocky_node_get_child own_query ''query'' = Some (hd (node_children own_query))"
      "wocky_node_get_attribute (hd (node_children own_query)) ''node'' = Some (NS_GABBLE_CAPS @ ''#'' @ ''v'')"
    by code_simp+
  have "create_iq_reply own_query WOCKY_STANZA_SUB_TYPE_RESULT [] \<noteq> None" by code_simp
  then obtain result where iq: "create_iq_reply own_query WOCKY_STANZA_SUB_TYPE_RESULT [] = Some result" by blast
  have "oe_digest own_example = (\<lambda>_. ''v'')" by (simp add: own_example_def)
  with announced_caps_answered [OF constructor_ok caps_repo_ok caps ver m fill new new2 ops query iq, of own_presence] fill
  show ?thesis by auto
qed

end
