(* ===== verification/Wocky_Porter.thy ===== *)
theory Wocky_Porter
  imports Wocky_Errors Jids
begin

text \<open>
  The client-to-server porter (\<open>lib/ext/wocky/wocky/wocky-c2s-porter.c\<close>): the object every stanza Gabble
  sends or receives goes through. It writes stanzas one at a time, matches IQ replies to the requests
  they answer, hands incoming stanzas to the registered handlers in the order of their priority, holds
  unimportant stanzas back in power saving mode, and closes the connection.

  A \<open>GSimpleAsyncResult\<close> is the token of the caller that waits for it; completing it is the event
  \<open>P_completed\<close>. What \<open>g_simple_async_result_complete_in_idle\<close> and \<open>g_simple_async_report_error_in_idle\<close>
  leave to the main loop is the list \<open>po_idle\<close>. Operations handed to the connection that have not called
  back yet are \<open>po_writes\<close>, \<open>po_reading\<close> and \<open>po_force_closing\<close>; a cancellable is a number, and
  \<open>po_cancelled\<close> lists the cancelled ones. What a caller's callback does with the porter is a later
  operation. A \<open>StanzaIqHandler\<close> is found by its id, the key it has in \<open>iq_reply_handlers\<close> as long as it
  exists: using one that is not there any more is a use after free, \<open>None\<close>.
\<close>

section \<open>Pattern matching of nodes\<close>

text \<open>\<open>wocky_node_is_superset\<close>; the child looked up in the node is matched against the pattern's.\<close>

fun wocky_node_is_superset :: "WockyNode \<Rightarrow> WockyNode \<Rightarrow> bool" where
  "wocky_node_is_superset node (WockyNode name content ns attrs children) \<longleftrightarrow>
     node_name node = name
     \<and> (ns = None \<or> node_ns node = ns)
     \<and> (content = None \<or> node_content node = content)
     \<and> (\<forall>a \<in> set attrs. wocky_node_get_attribute_ns node (attr_key a) (attr_ns a) = Some (attr_value a))
     \<and> (\<forall>pattern_child \<in> set children.
          case wocky_node_get_child_ns node (Some (node_name pattern_child)) (node_ns pattern_child) of
            None \<Rightarrow> False
          | Some node_child \<Rightarrow> wocky_node_is_superset node_child pattern_child)"

section \<open>State\<close>

datatype porter_error =
    WOCKY_PORTER_ERROR_NOT_STARTED | WOCKY_PORTER_ERROR_CLOSING | WOCKY_PORTER_ERROR_CLOSED
  | WOCKY_PORTER_ERROR_NOT_IQ | WOCKY_PORTER_ERROR_FORCIBLY_CLOSED
  | G_IO_ERROR_PENDING | G_IO_ERROR_CANCELLED
  | WOCKY_XMPP_CONNECTION_ERROR_CLOSED | WOCKY_XMPP_STREAM_ERROR | CONNECTION_ERROR nat

datatype porter_outcome = P_ok | P_reply WockyNode | P_error porter_error

text \<open>The callback of a send operation: none, a caller's, or \<open>iq_sent_cb\<close> with its handler.\<close>

datatype send_callback = CB_none | CB_user nat | CB_iq_sent string

datatype porter_write = W_stanza | W_ping nat | W_close

datatype porter_event =
    P_queued WockyNode
  | P_send WockyNode
  | P_send_ping
  | P_send_close
  | P_completed nat porter_outcome
  | P_dispatch WockyNode
  | P_handler nat WockyNode
  | P_closing
  | P_remote_closed
  | P_remote_error porter_error

record sending_queue_elem =
  elem_stanza :: WockyNode
  elem_cancellable :: "nat option"
  elem_callback :: send_callback
  elem_cancelled_sig_id :: nat

datatype SenderMatch = MATCH_ANYONE | MATCH_SERVER | MATCH_JID

type_synonym JidTriple = "cstring \<times> cstring \<times> cstring"

datatype porter_handler_func = HANDLE_IQ_REPLY | HANDLE_STREAM_ERROR | HANDLER_USER nat

record StanzaHandler =
  sh_type :: WockyStanzaType
  sh_sub_type :: WockyStanzaSubType
  sh_sender_match :: SenderMatch
  sh_jid :: JidTriple
  sh_priority :: guint
  sh_match :: "WockyNode option"
  sh_callback :: porter_handler_func

record StanzaIqHandler =
  iq_result :: "nat option"
  iq_cancellable :: "nat option"
  iq_cancelled_sig_id :: nat
  iq_recipient :: cstring
  iq_sent :: bool

record WockyC2SPorter =
  forced_shutdown :: bool
  full_jid :: string
  bare_jid :: cstring
  po_domain :: cstring
  sending_queue :: "sending_queue_elem list"
  receive_cancellable :: bool
  sending_whitespace_ping :: bool
  close_result :: "nat option"
  waiting_to_close :: bool
  remote_closed :: bool
  local_closed :: bool
  close_cancellable :: "nat option"
  force_close_result :: "nat option"
  force_close_cancellable :: "nat option"
  po_handlers :: "(guint \<times> StanzaHandler) list"
  next_handler_id :: guint
  iq_reply_handlers :: "(string \<times> StanzaIqHandler) list"
  power_saving_mode :: bool
  unimportant_queue :: "WockyNode list"
  po_writes :: "porter_write list"
  po_reading :: bool
  po_force_closing :: bool
  po_idle :: "(send_callback \<times> porter_outcome) list"
  po_cancelled :: "nat list"
  po_next_sig :: nat
  po_events :: "porter_event list"

text \<open>What the porter calls: \<open>g_utf8_strdown\<close> and the callbacks of the registered handlers.\<close>

record porter_env =
  po_strdown :: "string \<Rightarrow> string"
  po_callback :: "nat \<Rightarrow> WockyNode \<Rightarrow> bool"

definition po_emit :: "porter_event list \<Rightarrow> WockyC2SPorter \<Rightarrow> WockyC2SPorter" where
  "po_emit es p = p\<lparr>po_events := po_events p @ es\<rparr>"

text \<open>\<open>g_simple_async_result_complete_in_idle\<close> and \<open>g_simple_async_report_error_in_idle\<close>.\<close>

definition complete_in_idle :: "send_callback \<Rightarrow> porter_outcome \<Rightarrow> WockyC2SPorter \<Rightarrow> WockyC2SPorter" where
  "complete_in_idle cb out p = p\<lparr>po_idle := po_idle p @ [(cb, out)]\<rparr>"

section \<open>IQ handlers\<close>

definition stanza_iq_handler_new ::
    "porter_env \<Rightarrow> nat \<Rightarrow> nat option \<Rightarrow> cstring \<Rightarrow> StanzaIqHandler" where
  "stanza_iq_handler_new env result cancellable recipient =
     \<lparr>iq_result = Some result, iq_cancellable = cancellable, iq_cancelled_sig_id = 0,
      iq_recipient =
        (case recipient of
           None \<Rightarrow> None
         | Some r \<Rightarrow>
             (case wocky_normalise_jid (po_strdown env) (Some r) of None \<Rightarrow> Some r | Some to \<Rightarrow> Some to)),
      iq_sent = False\<rparr>"

definition stanza_iq_handler_remove_cancellable :: "StanzaIqHandler \<Rightarrow> StanzaIqHandler" where
  "stanza_iq_handler_remove_cancellable h =
     (if iq_cancellable h \<noteq> None then h\<lparr>iq_cancellable := None, iq_cancelled_sig_id := 0\<rparr> else h)"

definition iq_lookup :: "string \<Rightarrow> WockyC2SPorter \<Rightarrow> StanzaIqHandler option" where
  "iq_lookup i p = map_of (iq_reply_handlers p) i"

text \<open>The handler's fields are changed in place.\<close>

definition iq_update :: "string \<Rightarrow> StanzaIqHandler \<Rightarrow> WockyC2SPorter \<Rightarrow> WockyC2SPorter" where
  "iq_update i h p =
     p\<lparr>iq_reply_handlers := map (\<lambda>(j, g). if j = i then (j, h) else (j, g)) (iq_reply_handlers p)\<rparr>"

definition iq_remove :: "string \<Rightarrow> WockyC2SPorter \<Rightarrow> WockyC2SPorter" where
  "iq_remove i p = p\<lparr>iq_reply_handlers := filter (\<lambda>(j, _). j \<noteq> i) (iq_reply_handlers p)\<rparr>"

definition stanza_iq_handler_maybe_remove :: "string \<Rightarrow> StanzaIqHandler \<Rightarrow> WockyC2SPorter \<Rightarrow> WockyC2SPorter" where
  "stanza_iq_handler_maybe_remove i h p =
     (if iq_sent h \<and> iq_result h = None then iq_remove i p else p)"

definition iq_sent_cb :: "string \<Rightarrow> porter_outcome \<Rightarrow> WockyC2SPorter \<Rightarrow> WockyC2SPorter option" where
  "iq_sent_cb i out p =
     (case iq_lookup i p of
        None \<Rightarrow> None
      | Some h \<Rightarrow>
          let h1 = h\<lparr>iq_sent := True\<rparr>
          in if out = P_ok then Some (stanza_iq_handler_maybe_remove i h1 (iq_update i h1 p))
             else case iq_result h1 of
               None \<Rightarrow> Some (stanza_iq_handler_maybe_remove i h1 (iq_update i h1 p))
             | Some r \<Rightarrow>
                 let h2 = stanza_iq_handler_remove_cancellable (h1\<lparr>iq_result := None\<rparr>)
                 in Some (stanza_iq_handler_maybe_remove i h2
                      (po_emit [P_completed r out] (iq_update i h2 p))))"

text \<open>\<open>g_simple_async_result_complete\<close>: the callback is run.\<close>

definition complete_result :: "send_callback \<Rightarrow> porter_outcome \<Rightarrow> WockyC2SPorter \<Rightarrow> WockyC2SPorter option" where
  "complete_result cb out p =
     (case cb of
        CB_none \<Rightarrow> Some p
      | CB_user t \<Rightarrow> Some (po_emit [P_completed t out] p)
      | CB_iq_sent i \<Rightarrow> iq_sent_cb i out p)"

section \<open>Sending\<close>

definition send_head_stanza :: "WockyC2SPorter \<Rightarrow> WockyC2SPorter" where
  "send_head_stanza p =
     (case sending_queue p of
        [] \<Rightarrow> p
      | elem # rest \<Rightarrow>
          po_emit [P_send (elem_stanza elem)]
            (p\<lparr>sending_queue := elem\<lparr>elem_cancelled_sig_id := 0\<rparr> # rest,
               po_writes := po_writes p @ [W_stanza]\<rparr>))"

fun terminate_elems ::
    "porter_error \<Rightarrow> sending_queue_elem list \<Rightarrow> WockyC2SPorter \<Rightarrow> WockyC2SPorter option" where
  "terminate_elems err [] p = Some p"
| "terminate_elems err (elem # rest) p =
     Option.bind (complete_result (elem_callback elem) (P_error err) (p\<lparr>sending_queue := rest\<rparr>))
       (terminate_elems err rest)"

definition terminate_sending_operations :: "porter_error \<Rightarrow> WockyC2SPorter \<Rightarrow> WockyC2SPorter option" where
  "terminate_sending_operations err p = terminate_elems err (sending_queue p) p"

definition sending_in_progress :: "WockyC2SPorter \<Rightarrow> bool" where
  "sending_in_progress p \<longleftrightarrow> length (sending_queue p) > 0 \<or> sending_whitespace_ping p"

definition send_close :: "WockyC2SPorter \<Rightarrow> WockyC2SPorter" where
  "send_close p = po_emit [P_send_close] (p\<lparr>po_writes := po_writes p @ [W_close], waiting_to_close := False\<rparr>)"

definition close_if_waiting :: "WockyC2SPorter \<Rightarrow> WockyC2SPorter" where
  "close_if_waiting p = (if waiting_to_close p \<and> \<not> sending_in_progress p then send_close p else p)"

text \<open>The connection has written the stanza, or failed to (\<open>err\<close>).\<close>

definition send_stanza_cb :: "porter_error option \<Rightarrow> WockyC2SPorter \<Rightarrow> WockyC2SPorter option" where
  "send_stanza_cb err p0 =
     (let p = p0\<lparr>po_writes := remove1 W_stanza (po_writes p0)\<rparr>
      in case err of
           Some e \<Rightarrow> map_option close_if_waiting (terminate_sending_operations e p)
         | None \<Rightarrow>
             (case sending_queue p of
                [] \<Rightarrow> Some p
              | elem # rest \<Rightarrow>
                  (case complete_result (elem_callback elem) P_ok (p\<lparr>sending_queue := rest\<rparr>) of
                     None \<Rightarrow> None
                   | Some p1 \<Rightarrow>
                       Some (close_if_waiting
                         (if length (sending_queue p1) > 0 then send_head_stanza p1 else p1)))))"

definition po_is_closing :: "WockyC2SPorter \<Rightarrow> bool" where
  "po_is_closing p \<longleftrightarrow> close_result p \<noteq> None \<or> force_close_result p \<noteq> None"

text \<open>\<open>g_cancellable_connect\<close> with a cancellable that has been cancelled runs \<open>send_cancelled_cb\<close> at once,
  which frees the element; storing the handler id in it afterwards is a write to freed memory.\<close>

definition wocky_c2s_porter_send_async ::
    "WockyNode \<Rightarrow> nat option \<Rightarrow> send_callback \<Rightarrow> WockyC2SPorter \<Rightarrow> WockyC2SPorter option" where
  "wocky_c2s_porter_send_async stanza cancellable cb p =
     (if po_is_closing p then Some (complete_in_idle cb (P_error WOCKY_PORTER_ERROR_CLOSING) p)
      else
        let elem = \<lparr>elem_stanza = stanza, elem_cancellable = cancellable, elem_callback = cb,
                    elem_cancelled_sig_id = 0\<rparr>;
            p1 = po_emit [P_queued stanza] (p\<lparr>sending_queue := sending_queue p @ [elem]\<rparr>)
        in if length (sending_queue p1) = 1 \<and> \<not> sending_whitespace_ping p1 then Some (send_head_stanza p1)
           else case cancellable of
             None \<Rightarrow> Some p1
           | Some c \<Rightarrow>
               if c \<in> set (po_cancelled p1) then None
               else Some (p1\<lparr>sending_queue := sending_queue p @ [elem\<lparr>elem_cancelled_sig_id := po_next_sig p1\<rparr>],
                             po_next_sig := po_next_sig p1 + 1\<rparr>))"

text \<open>\<open>wocky_porter_send\<close>: nobody waits for the result.\<close>

definition wocky_porter_send :: "WockyNode \<Rightarrow> WockyC2SPorter \<Rightarrow> WockyC2SPorter" where
  "wocky_porter_send stanza p =
     (case wocky_c2s_porter_send_async stanza None CB_none p of None \<Rightarrow> p | Some p' \<Rightarrow> p')"

definition send_cancelled_cb :: "nat \<Rightarrow> WockyC2SPorter \<Rightarrow> WockyC2SPorter" where
  "send_cancelled_cb sig p =
     (case find (\<lambda>elem. elem_cancelled_sig_id elem = sig) (sending_queue p) of
        None \<Rightarrow> p
      | Some elem \<Rightarrow>
          complete_in_idle (elem_callback elem) (P_error G_IO_ERROR_CANCELLED)
            (p\<lparr>sending_queue := delete_first (\<lambda>elem. elem_cancelled_sig_id elem = sig) (sending_queue p)\<rparr>))"

text \<open>\<open>send_iq_cancelled_cb\<close> asserts that the caller has not been answered yet.\<close>

definition send_iq_cancelled_cb :: "string \<Rightarrow> WockyC2SPorter \<Rightarrow> WockyC2SPorter option" where
  "send_iq_cancelled_cb i p =
     (case iq_lookup i p of
        None \<Rightarrow> None
      | Some h \<Rightarrow>
          (case iq_result h of
             None \<Rightarrow> None
           | Some r \<Rightarrow>
               let h1 = h\<lparr>iq_result := None\<rparr>
               in Some (stanza_iq_handler_maybe_remove i h1
                    (complete_in_idle (CB_user r) (P_error G_IO_ERROR_CANCELLED) (iq_update i h1 p)))))"

text \<open>The signal handlers connected to a cancellable, an id and whose they are.\<close>

definition elem_connections :: "nat \<Rightarrow> sending_queue_elem list \<Rightarrow> (nat \<times> string option) list" where
  "elem_connections c q =
     map (\<lambda>elem. (elem_cancelled_sig_id elem, None))
       (filter (\<lambda>elem. elem_cancellable elem = Some c \<and> elem_cancelled_sig_id elem \<noteq> 0) q)"

definition iq_connections :: "nat \<Rightarrow> (string \<times> StanzaIqHandler) list \<Rightarrow> (nat \<times> string option) list" where
  "iq_connections c t =
     map (\<lambda>(i, h). (iq_cancelled_sig_id h, Some i))
       (filter (\<lambda>(i, h). iq_cancellable h = Some c \<and> iq_cancelled_sig_id h \<noteq> 0) t)"

fun emit_cancelled :: "(nat \<times> string option) list \<Rightarrow> WockyC2SPorter \<Rightarrow> WockyC2SPorter option" where
  "emit_cancelled [] p = Some p"
| "emit_cancelled ((sig, None) # cs) p = emit_cancelled cs (send_cancelled_cb sig p)"
| "emit_cancelled ((sig, Some i) # cs) p = Option.bind (send_iq_cancelled_cb i p) (emit_cancelled cs)"

text \<open>\<open>g_cancellable_cancel\<close>: the first time, the handlers are called in the order they were connected.\<close>

definition g_cancellable_cancel :: "nat \<Rightarrow> WockyC2SPorter \<Rightarrow> WockyC2SPorter option" where
  "g_cancellable_cancel c p =
     (if c \<in> set (po_cancelled p) then Some p
      else emit_cancelled
        (sort_key fst (iq_connections c (iq_reply_handlers p) @ elem_connections c (sending_queue p)))
        (p\<lparr>po_cancelled := c # po_cancelled p\<rparr>))"

text \<open>\<open>new_ids\<close> are the ids \<open>wocky_xmpp_connection_new_id\<close> returns, one call after the other; the loop takes
  the first that is not in use, and \<open>None\<close> says that it is none of these.\<close>

definition wocky_c2s_porter_send_iq_async ::
    "porter_env \<Rightarrow> string list \<Rightarrow> WockyNode \<Rightarrow> nat option \<Rightarrow> nat \<Rightarrow> WockyC2SPorter \<Rightarrow> WockyC2SPorter option" where
  "wocky_c2s_porter_send_iq_async env new_ids stanza cancellable t p =
     (let (type, sub_type) = wocky_stanza_get_type_info stanza
      in if po_is_closing p then Some (complete_in_idle (CB_user t) (P_error WOCKY_PORTER_ERROR_CLOSING) p)
         else if type \<noteq> WOCKY_STANZA_TYPE_IQ
            \<or> sub_type \<noteq> WOCKY_STANZA_SUB_TYPE_GET \<and> sub_type \<noteq> WOCKY_STANZA_SUB_TYPE_SET
         then Some (complete_in_idle (CB_user t) (P_error WOCKY_PORTER_ERROR_NOT_IQ) p)
         else case find (\<lambda>i. iq_lookup i p = None) new_ids of
           None \<Rightarrow> None
         | Some i \<Rightarrow>
             let recipient = wocky_node_get_attribute stanza ''to'';
                 stanza1 = wocky_node_set_attribute stanza ''id'' i;
                 h = stanza_iq_handler_new env t cancellable recipient;
                 (h1, p1) =
                   (case cancellable of
                      None \<Rightarrow> (h, p)
                    | Some c \<Rightarrow>
                        if c \<in> set (po_cancelled p)
                        then (h\<lparr>iq_result := None\<rparr>,
                              complete_in_idle (CB_user t) (P_error G_IO_ERROR_CANCELLED) p)
                        else (h\<lparr>iq_cancelled_sig_id := po_next_sig p\<rparr>, p\<lparr>po_next_sig := po_next_sig p + 1\<rparr>))
             in wocky_c2s_porter_send_async stanza1 cancellable (CB_iq_sent i)
                  (p1\<lparr>iq_reply_handlers := (i, h1) # iq_reply_handlers p1\<rparr>))"

definition wocky_c2s_porter_send_whitespace_ping_async :: "nat \<Rightarrow> WockyC2SPorter \<Rightarrow> WockyC2SPorter" where
  "wocky_c2s_porter_send_whitespace_ping_async t p =
     (if po_is_closing p then complete_in_idle (CB_user t) (P_error WOCKY_PORTER_ERROR_CLOSING) p
      else if sending_in_progress p then complete_in_idle (CB_user t) P_ok p
      else po_emit [P_send_ping]
             (p\<lparr>sending_whitespace_ping := True, po_writes := po_writes p @ [W_ping t]\<rparr>))"

definition send_whitespace_ping_cb :: "nat \<Rightarrow> porter_error option \<Rightarrow> WockyC2SPorter \<Rightarrow> WockyC2SPorter option" where
  "send_whitespace_ping_cb t err p0 =
     (let p = p0\<lparr>po_writes := remove1 (W_ping t) (po_writes p0), sending_whitespace_ping := False\<rparr>
      in case err of
           Some e \<Rightarrow>
             map_option close_if_waiting
               (terminate_sending_operations e (po_emit [P_completed t (P_error e)] p))
         | None \<Rightarrow>
             let p1 = po_emit [P_completed t P_ok] p
             in Some (close_if_waiting
                  (if length (sending_queue p1) > 0 then send_head_stanza p1 else p1)))"

section \<open>Receiving\<close>

definition stanza_is_from_server :: "WockyC2SPorter \<Rightarrow> cstring \<Rightarrow> bool" where
  "stanza_is_from_server p nfrom \<longleftrightarrow>
     nfrom = None \<or> nfrom = Some (full_jid p) \<or> nfrom = bare_jid p \<or> nfrom = po_domain p"

text \<open>True if the reply is not spoofed.\<close>

definition check_spoofing :: "porter_env \<Rightarrow> WockyC2SPorter \<Rightarrow> WockyNode \<Rightarrow> cstring \<Rightarrow> bool" where
  "check_spoofing env p reply should_be_from =
     (let from = wocky_node_get_attribute reply ''from''
      in if from = should_be_from then True
         else
           let nfrom = wocky_normalise_jid (po_strdown env) from
           in if nfrom = should_be_from then True
              else if should_be_from = None \<and> stanza_is_from_server p nfrom then True
              else if from = None \<and> should_be_from = po_domain p then True
              else if (from = None \<or> nfrom = Some (full_jid p))
                   \<and> (should_be_from = Some (full_jid p) \<or> should_be_from = bare_jid p) then True
              else False)"

definition handle_iq_reply :: "porter_env \<Rightarrow> WockyNode \<Rightarrow> WockyC2SPorter \<Rightarrow> bool \<times> WockyC2SPorter" where
  "handle_iq_reply env reply p =
     (case wocky_node_get_attribute reply ''id'' of
        None \<Rightarrow> (False, p)
      | Some i \<Rightarrow>
          (case iq_lookup i p of
             None \<Rightarrow> (False, p)
           | Some h \<Rightarrow>
               if \<not> check_spoofing env p reply (iq_recipient h) then (False, p)
               else case iq_result h of
                 None \<Rightarrow> (False, stanza_iq_handler_maybe_remove i h p)
               | Some r \<Rightarrow>
                   let h1 = stanza_iq_handler_remove_cancellable (h\<lparr>iq_result := None\<rparr>)
                   in (True, stanza_iq_handler_maybe_remove i h1
                         (po_emit [P_completed r (P_reply reply)] (iq_update i h1 p)))))"

text \<open>The pending requests are answered with the error; a handler whose request has been written is
  removed.\<close>

definition abort_handler :: "string \<times> StanzaIqHandler \<Rightarrow> string \<times> StanzaIqHandler" where
  "abort_handler = (\<lambda>(i, h).
     if iq_result h = None then (i, h)
     else (i, (stanza_iq_handler_remove_cancellable h)\<lparr>iq_result := None\<rparr>))"

definition abort_pending_iqs :: "porter_error \<Rightarrow> WockyC2SPorter \<Rightarrow> WockyC2SPorter" where
  "abort_pending_iqs err p =
     p\<lparr>po_idle := po_idle p @ concat (map (\<lambda>(i, h).
          case iq_result h of None \<Rightarrow> [] | Some r \<Rightarrow> [(CB_user r, P_error err)]) (iq_reply_handlers p)),
       iq_reply_handlers := map abort_handler
         (filter (\<lambda>(i, h). \<not> (iq_result h \<noteq> None \<and> iq_sent h)) (iq_reply_handlers p))\<rparr>"

definition po_is_cancelled :: "nat option \<Rightarrow> WockyC2SPorter \<Rightarrow> bool" where
  "po_is_cancelled c p \<longleftrightarrow> (case c of None \<Rightarrow> False | Some x \<Rightarrow> x \<in> set (po_cancelled p))"

text \<open>\<open>err\<close> is the error set on the result before.\<close>

definition complete_close :: "porter_error option \<Rightarrow> WockyC2SPorter \<Rightarrow> WockyC2SPorter" where
  "complete_close err p =
     (let out = (if po_is_cancelled (close_cancellable p) p then P_error G_IO_ERROR_CANCELLED
                 else case err of None \<Rightarrow> P_ok | Some e \<Rightarrow> P_error e);
          p1 = p\<lparr>close_cancellable := None, force_close_cancellable := None, close_result := None\<rparr>
      in case close_result p of None \<Rightarrow> p1 | Some t \<Rightarrow> po_emit [P_completed t out] p1)"

definition remote_connection_closed :: "porter_error \<Rightarrow> WockyC2SPorter \<Rightarrow> WockyC2SPorter" where
  "remote_connection_closed err p =
     (let p1 = (abort_pending_iqs err p)\<lparr>remote_closed := True\<rparr>;
          error_occured = (err \<noteq> WOCKY_XMPP_CONNECTION_ERROR_CLOSED);
          p2 = po_emit [if error_occured then P_remote_error err else P_remote_closed] p1;
          p3 = (if close_result p2 \<noteq> None \<and> local_closed p2
                then complete_close (if error_occured then Some err else None) p2 else p2)
      in p3\<lparr>receive_cancellable := False\<rparr>)"

definition handle_stream_error :: "WockyNode \<Rightarrow> WockyC2SPorter \<Rightarrow> bool \<times> WockyC2SPorter" where
  "handle_stream_error stanza p =
     (if fst (wocky_stanza_get_type_info stanza) \<noteq> WOCKY_STANZA_TYPE_STREAM_ERROR then (False, p)
      else (True, remote_connection_closed WOCKY_XMPP_STREAM_ERROR p))"

text \<open>The conditions under which the loop of \<open>handle_stanza\<close> calls a handler; \<open>jid\<close> are the parts of the
  sender's JID, all \<open>NULL\<close> when it has none or an invalid one.\<close>

definition handler_applies ::
    "WockyStanzaType \<Rightarrow> WockyStanzaSubType \<Rightarrow> JidTriple \<Rightarrow> bool \<Rightarrow> WockyNode \<Rightarrow> StanzaHandler \<Rightarrow> bool" where
  "handler_applies type sub_type jid is_from_server stanza handler \<longleftrightarrow>
     \<not> (type \<noteq> sh_type handler \<and> sh_type handler \<noteq> WOCKY_STANZA_TYPE_NONE)
     \<and> \<not> (sub_type \<noteq> sh_sub_type handler \<and> sh_sub_type handler \<noteq> WOCKY_STANZA_SUB_TYPE_NONE)
     \<and> (case sh_sender_match handler of
          MATCH_ANYONE \<Rightarrow> True
        | MATCH_SERVER \<Rightarrow> is_from_server
        | MATCH_JID \<Rightarrow>
            (let (node, domain, resource) = jid; (hnode, hdomain, hresource) = sh_jid handler
             in node = hnode \<and> domain = hdomain \<and> (hresource = None \<or> resource = hresource)))
     \<and> (case sh_match handler of None \<Rightarrow> True | Some pattern \<Rightarrow> wocky_node_is_superset stanza pattern)"

definition call_handler ::
    "porter_env \<Rightarrow> WockyNode \<Rightarrow> StanzaHandler \<Rightarrow> WockyC2SPorter \<Rightarrow> bool \<times> WockyC2SPorter" where
  "call_handler env stanza handler p =
     (case sh_callback handler of
        HANDLE_IQ_REPLY \<Rightarrow> handle_iq_reply env stanza p
      | HANDLE_STREAM_ERROR \<Rightarrow> handle_stream_error stanza p
      | HANDLER_USER n \<Rightarrow> (po_callback env n stanza, po_emit [P_handler n stanza] p))"

fun handler_loop ::
    "porter_env \<Rightarrow> (StanzaHandler \<Rightarrow> bool) \<Rightarrow> WockyNode \<Rightarrow> (guint \<times> StanzaHandler) list \<Rightarrow> WockyC2SPorter \<Rightarrow>
     bool \<times> WockyC2SPorter" where
  "handler_loop env applies stanza [] p = (False, p)"
| "handler_loop env applies stanza ((i, handler) # l) p =
     (if \<not> applies handler then handler_loop env applies stanza l p
      else let (handled, p1) = call_handler env stanza handler p
           in if handled then (True, p1) else handler_loop env applies stanza l p1)"

definition wocky_porter_send_iq_error :: "WockyNode \<Rightarrow> WockyXmppError \<Rightarrow> WockyC2SPorter \<Rightarrow> WockyC2SPorter" where
  "wocky_porter_send_iq_error stanza e p =
     (case iq_gerror_stanza stanza (XMPP_ERROR e) [] of None \<Rightarrow> p | Some result \<Rightarrow> wocky_porter_send result p)"

definition sender_jid :: "porter_env \<Rightarrow> WockyNode \<Rightarrow> JidTriple option" where
  "sender_jid env stanza =
     (case wocky_node_get_attribute stanza ''from'' of
        None \<Rightarrow> Some (None, None, None)
      | Some from \<Rightarrow>
          map_option (\<lambda>(node, domain, resource). (node, Some domain, resource))
            (wocky_decode_jid (po_strdown env) from))"

definition from_server :: "porter_env \<Rightarrow> WockyC2SPorter \<Rightarrow> WockyNode \<Rightarrow> bool" where
  "from_server env p stanza \<longleftrightarrow>
     (case wocky_node_get_attribute stanza ''from'' of
        None \<Rightarrow> True
      | Some from \<Rightarrow>
          (case wocky_decode_jid (po_strdown env) from of
             None \<Rightarrow> False
           | Some (node, domain, resource) \<Rightarrow>
               stanza_is_from_server p (Some (wocky_compose_jid node domain resource))))"

definition stanza_applies :: "porter_env \<Rightarrow> WockyC2SPorter \<Rightarrow> WockyNode \<Rightarrow> StanzaHandler \<Rightarrow> bool" where
  "stanza_applies env p stanza =
     handler_applies (fst (wocky_stanza_get_type_info stanza)) (snd (wocky_stanza_get_type_info stanza))
       (case sender_jid env stanza of None \<Rightarrow> (None, None, None) | Some jid \<Rightarrow> jid)
       (from_server env p stanza) stanza"

definition handle_stanza :: "porter_env \<Rightarrow> WockyNode \<Rightarrow> WockyC2SPorter \<Rightarrow> WockyC2SPorter" where
  "handle_stanza env stanza p0 =
     (let p = po_emit [P_dispatch stanza] p0;
          (type, sub_type) = wocky_stanza_get_type_info stanza;
          (handled, p1) = handler_loop env (stanza_applies env p stanza) stanza (po_handlers p) p
      in if \<not> handled \<and> type = WOCKY_STANZA_TYPE_IQ
            \<and> (sub_type = WOCKY_STANZA_SUB_TYPE_GET \<or> sub_type = WOCKY_STANZA_SUB_TYPE_SET)
         then wocky_porter_send_iq_error stanza WOCKY_XMPP_ERROR_SERVICE_UNAVAILABLE p1
         else p1)"

fun flush_stanzas :: "porter_env \<Rightarrow> WockyNode list \<Rightarrow> WockyC2SPorter \<Rightarrow> WockyC2SPorter" where
  "flush_stanzas env [] p = p"
| "flush_stanzas env (stanza # rest) p =
     flush_stanzas env rest (handle_stanza env stanza (p\<lparr>unimportant_queue := rest\<rparr>))"

definition flush_unimportant_queue :: "porter_env \<Rightarrow> WockyC2SPorter \<Rightarrow> WockyC2SPorter" where
  "flush_unimportant_queue env p = flush_stanzas env (unimportant_queue p) p"

definition queueable_node_names :: "string list" where
  "queueable_node_names =
     [''http://jabber.org/protocol/geoloc'', ''http://jabber.org/protocol/nick'',
      ''http://laptop.org/xmpp/buddy-properties'', ''http://laptop.org/xmpp/activities'',
      ''http://laptop.org/xmpp/current-activity'', ''http://laptop.org/xmpp/activity-properties'']"

definition WOCKY_XMPP_NS_PUBSUB_EVENT :: string where
  "WOCKY_XMPP_NS_PUBSUB_EVENT = ''http://jabber.org/protocol/pubsub#event''"

text \<open>The patterns are built when they are first needed.\<close>

definition build_queueable_stanza_patterns :: "WockyNode list" where
  "build_queueable_stanza_patterns =
     List.map_filter (\<lambda>node_name.
       wocky_stanza_build WOCKY_STANZA_TYPE_MESSAGE WOCKY_STANZA_SUB_TYPE_NONE None None
         [WOCKY_NODE_START ''event'', WOCKY_NODE_XMLNS WOCKY_XMPP_NS_PUBSUB_EVENT,
          WOCKY_NODE_START ''items'', WOCKY_NODE_ATTRIBUTE ''node'' (Some node_name),
          WOCKY_NODE_END, WOCKY_NODE_END])
       queueable_node_names"

definition is_stanza_important :: "WockyNode \<Rightarrow> bool" where
  "is_stanza_important stanza =
     (let (type, sub_type) = wocky_stanza_get_type_info stanza
      in if type = WOCKY_STANZA_TYPE_PRESENCE
            \<and> (sub_type = WOCKY_STANZA_SUB_TYPE_NONE \<or> sub_type = WOCKY_STANZA_SUB_TYPE_UNAVAILABLE)
         then False
         else \<not> (\<exists>pattern \<in> set build_queueable_stanza_patterns. wocky_node_is_superset stanza pattern))"

definition queue_or_handle_stanza :: "porter_env \<Rightarrow> WockyNode \<Rightarrow> WockyC2SPorter \<Rightarrow> WockyC2SPorter" where
  "queue_or_handle_stanza env stanza p =
     (if power_saving_mode p then
        if is_stanza_important stanza then handle_stanza env stanza (flush_unimportant_queue env p)
        else p\<lparr>unimportant_queue := unimportant_queue p @ [stanza]\<rparr>
      else handle_stanza env stanza p)"

definition wocky_c2s_porter_enable_power_saving_mode :: "porter_env \<Rightarrow> bool \<Rightarrow> WockyC2SPorter \<Rightarrow> WockyC2SPorter" where
  "wocky_c2s_porter_enable_power_saving_mode env enable p =
     (let p1 = (if power_saving_mode p \<and> \<not> enable then flush_unimportant_queue env p else p)
      in p1\<lparr>power_saving_mode := enable\<rparr>)"

definition receive_stanza :: "WockyC2SPorter \<Rightarrow> WockyC2SPorter" where
  "receive_stanza p = p\<lparr>po_reading := True\<rparr>"

definition start_force_close :: "WockyC2SPorter \<Rightarrow> WockyC2SPorter" where
  "start_force_close p = p\<lparr>forced_shutdown := True, po_force_closing := True\<rparr>"

text \<open>What the connection has received: a stanza or an error.\<close>

definition stanza_received_cb :: "porter_env \<Rightarrow> porter_error + WockyNode \<Rightarrow> WockyC2SPorter \<Rightarrow> WockyC2SPorter" where
  "stanza_received_cb env res p0 =
     (let p = p0\<lparr>po_reading := False\<rparr>
      in case res of
           Inl err \<Rightarrow>
             if force_close_result p \<noteq> None
             then if \<not> forced_shutdown p then start_force_close p else p
             else remote_connection_closed err p
         | Inr stanza \<Rightarrow>
             let p1 = queue_or_handle_stanza env stanza p
             in if \<not> remote_closed p1 then receive_stanza p1
                else if forced_shutdown p1 then p1
                else if force_close_result p1 \<noteq> None then start_force_close p1
                else p1)"

definition wocky_c2s_porter_start :: "WockyC2SPorter \<Rightarrow> WockyC2SPorter" where
  "wocky_c2s_porter_start p =
     (if receive_cancellable p then p else receive_stanza (p\<lparr>receive_cancellable := True\<rparr>))"

section \<open>Handlers\<close>

text \<open>\<open>g_list_insert_sorted\<close> with \<open>compare_handler\<close>: in front of the first handler whose priority is not
  larger.\<close>

fun insert_handler ::
    "guint \<times> StanzaHandler \<Rightarrow> (guint \<times> StanzaHandler) list \<Rightarrow> (guint \<times> StanzaHandler) list" where
  "insert_handler h [] = [h]"
| "insert_handler h (g # gs) =
     (if sh_priority (snd h) < sh_priority (snd g) then g # insert_handler h gs else h # g # gs)"

text \<open>\<open>None\<close>: the id is in use, after \<open>2 ^ 32\<close> registrations, and the handler that has it is freed while it
  is still on the list.\<close>

definition wocky_c2s_porter_register_handler_internal ::
    "StanzaHandler \<Rightarrow> WockyC2SPorter \<Rightarrow> (guint \<times> WockyC2SPorter) option" where
  "wocky_c2s_porter_register_handler_internal handler p =
     (if next_handler_id p \<in> fst ` set (po_handlers p) then None
      else Some (next_handler_id p,
             p\<lparr>po_handlers := insert_handler (next_handler_id p, handler) (po_handlers p),
               next_handler_id := next_handler_id p + 1\<rparr>))"

text \<open>An invalid JID registers nothing and gives the id 0.\<close>

definition wocky_c2s_porter_register_handler_from_by_stanza ::
    "porter_env \<Rightarrow> WockyStanzaType \<Rightarrow> WockyStanzaSubType \<Rightarrow> string \<Rightarrow> guint \<Rightarrow> nat \<Rightarrow> WockyNode option \<Rightarrow>
     WockyC2SPorter \<Rightarrow> (guint \<times> WockyC2SPorter) option" where
  "wocky_c2s_porter_register_handler_from_by_stanza env type sub_type from priority callback stanza p =
     (case wocky_decode_jid (po_strdown env) from of
        None \<Rightarrow> Some (0, p)
      | Some (node, domain, resource) \<Rightarrow>
          wocky_c2s_porter_register_handler_internal
            \<lparr>sh_type = type, sh_sub_type = sub_type, sh_sender_match = MATCH_JID,
             sh_jid = (node, Some domain, resource), sh_priority = priority, sh_match = stanza,
             sh_callback = HANDLER_USER callback\<rparr> p)"

definition wocky_c2s_porter_register_handler_from_anyone_by_stanza ::
    "WockyStanzaType \<Rightarrow> WockyStanzaSubType \<Rightarrow> guint \<Rightarrow> porter_handler_func \<Rightarrow> WockyNode option \<Rightarrow>
     WockyC2SPorter \<Rightarrow> (guint \<times> WockyC2SPorter) option" where
  "wocky_c2s_porter_register_handler_from_anyone_by_stanza type sub_type priority callback stanza p =
     wocky_c2s_porter_register_handler_internal
       \<lparr>sh_type = type, sh_sub_type = sub_type, sh_sender_match = MATCH_ANYONE,
        sh_jid = (None, None, None), sh_priority = priority, sh_match = stanza, sh_callback = callback\<rparr> p"

definition wocky_c2s_porter_register_handler_from_server_by_stanza ::
    "WockyStanzaType \<Rightarrow> WockyStanzaSubType \<Rightarrow> guint \<Rightarrow> nat \<Rightarrow> WockyNode option \<Rightarrow>
     WockyC2SPorter \<Rightarrow> (guint \<times> WockyC2SPorter) option" where
  "wocky_c2s_porter_register_handler_from_server_by_stanza type sub_type priority callback stanza p =
     (if (if type = WOCKY_STANZA_TYPE_NONE then stanza \<noteq> None else stanza = None) then Some (0, p)
      else wocky_c2s_porter_register_handler_internal
        \<lparr>sh_type = type, sh_sub_type = sub_type, sh_sender_match = MATCH_SERVER,
         sh_jid = (None, None, None), sh_priority = priority, sh_match = stanza,
         sh_callback = HANDLER_USER callback\<rparr> p)"

definition wocky_c2s_porter_unregister_handler :: "guint \<Rightarrow> WockyC2SPorter \<Rightarrow> WockyC2SPorter" where
  "wocky_c2s_porter_unregister_handler i p =
     p\<lparr>po_handlers := delete_first (\<lambda>(j, _). j = i) (po_handlers p)\<rparr>"

section \<open>Closing\<close>

definition wocky_c2s_porter_close_async :: "nat option \<Rightarrow> nat \<Rightarrow> WockyC2SPorter \<Rightarrow> WockyC2SPorter option" where
  "wocky_c2s_porter_close_async cancellable t p =
     (if local_closed p then Some (complete_in_idle (CB_user t) (P_error WOCKY_PORTER_ERROR_CLOSED) p)
      else if \<not> receive_cancellable p \<and> \<not> remote_closed p
      then Some (complete_in_idle (CB_user t) (P_error WOCKY_PORTER_ERROR_NOT_STARTED) p)
      else if close_result p \<noteq> None then Some (complete_in_idle (CB_user t) (P_error G_IO_ERROR_PENDING) p)
      else if force_close_result p \<noteq> None
      then Some (complete_in_idle (CB_user t) (P_error G_IO_ERROR_PENDING) p)
      else if close_cancellable p \<noteq> None then None
      else
        let p1 = po_emit [P_closing] (p\<lparr>close_result := Some t, close_cancellable := cancellable\<rparr>)
        in Some (if sending_in_progress p1 then p1\<lparr>waiting_to_close := True\<rparr> else send_close p1))"

definition close_sent_cb :: "porter_error option \<Rightarrow> WockyC2SPorter \<Rightarrow> WockyC2SPorter" where
  "close_sent_cb err p0 =
     (let p = p0\<lparr>po_writes := remove1 W_close (po_writes p0), local_closed := True\<rparr>
      in if err = None \<and> \<not> po_is_cancelled (close_cancellable p) p \<and> \<not> remote_closed p then p
         else if close_result p \<noteq> None then complete_close err p
         else p)"

definition wocky_c2s_porter_force_close_async ::
    "nat option \<Rightarrow> nat \<Rightarrow> WockyC2SPorter \<Rightarrow> WockyC2SPorter option" where
  "wocky_c2s_porter_force_close_async cancellable t p =
     (let err = WOCKY_PORTER_ERROR_FORCIBLY_CLOSED
      in if force_close_result p \<noteq> None then Some (complete_in_idle (CB_user t) (P_error G_IO_ERROR_PENDING) p)
         else if \<not> receive_cancellable p \<and> local_closed p
         then Some (complete_in_idle (CB_user t) (P_error WOCKY_PORTER_ERROR_CLOSED) p)
         else if \<not> receive_cancellable p \<and> \<not> remote_closed p
         then Some (complete_in_idle (CB_user t) (P_error WOCKY_PORTER_ERROR_NOT_STARTED) p)
         else
           let p1 = (case close_result p of
                       Some c \<Rightarrow> (complete_in_idle (CB_user c) (P_error err) p)\<lparr>close_result := None\<rparr>
                     | None \<Rightarrow> po_emit [P_closing] p);
               p2 = p1\<lparr>force_close_result := Some t\<rparr>
           in if force_close_cancellable p2 \<noteq> None then None
              else case terminate_sending_operations err (p2\<lparr>force_close_cancellable := cancellable\<rparr>) of
                None \<Rightarrow> None
              | Some p3 \<Rightarrow>
                  let p4 = abort_pending_iqs err p3
                  in if remote_closed p4 then
                       if forced_shutdown p4
                       then Some ((complete_in_idle (CB_user t) (P_error err) p4)\<lparr>force_close_result := None\<rparr>)
                       else Some (start_force_close p4)
                     else Some p4)"

text \<open>Asserts that there is an operation to complete.\<close>

definition connection_force_close_cb :: "porter_error option \<Rightarrow> WockyC2SPorter \<Rightarrow> WockyC2SPorter option" where
  "connection_force_close_cb err p =
     (case force_close_result p of
        None \<Rightarrow> None
      | Some t \<Rightarrow>
          Some (po_emit [P_completed t (case err of None \<Rightarrow> P_ok | Some e \<Rightarrow> P_error e)]
            (p\<lparr>force_close_result := None, local_closed := True, po_force_closing := False,
               receive_cancellable := False\<rparr>)))"

section \<open>Construction and operations\<close>

definition wocky_c2s_porter_init :: "porter_env \<Rightarrow> string \<Rightarrow> WockyC2SPorter" where
  "wocky_c2s_porter_init env jid =
     \<lparr>forced_shutdown = False, full_jid = jid,
      bare_jid = map_option (\<lambda>(node, domain, _). wocky_compose_jid node domain None)
                   (wocky_decode_jid (po_strdown env) jid),
      po_domain = map_option (\<lambda>(_, domain, _). domain) (wocky_decode_jid (po_strdown env) jid),
      sending_queue = [], receive_cancellable = False, sending_whitespace_ping = False, close_result = None,
      waiting_to_close = False, remote_closed = False, local_closed = False, close_cancellable = None,
      force_close_result = None, force_close_cancellable = None, po_handlers = [], next_handler_id = 1,
      iq_reply_handlers = [], power_saving_mode = False, unimportant_queue = [], po_writes = [],
      po_reading = False, po_force_closing = False, po_idle = [], po_cancelled = [], po_next_sig = 1,
      po_events = []\<rparr>"

definition WOCKY_PORTER_HANDLER_PRIORITY_MAX :: guint where
  "WOCKY_PORTER_HANDLER_PRIORITY_MAX = - 1"

definition builtin_handler ::
    "WockyStanzaType \<Rightarrow> WockyStanzaSubType \<Rightarrow> porter_handler_func \<Rightarrow> WockyC2SPorter \<Rightarrow> WockyC2SPorter option" where
  "builtin_handler type sub_type callback p =
     map_option snd (wocky_c2s_porter_register_handler_from_anyone_by_stanza type sub_type
       WOCKY_PORTER_HANDLER_PRIORITY_MAX callback
       (wocky_stanza_build type WOCKY_STANZA_SUB_TYPE_NONE None None []) p)"

text \<open>\<open>wocky_c2s_porter_constructed\<close> registers the porter's own handlers.\<close>

definition wocky_c2s_porter_constructed :: "WockyC2SPorter \<Rightarrow> WockyC2SPorter option" where
  "wocky_c2s_porter_constructed p =
     do {
       p1 \<leftarrow> builtin_handler WOCKY_STANZA_TYPE_IQ WOCKY_STANZA_SUB_TYPE_RESULT HANDLE_IQ_REPLY p;
       p2 \<leftarrow> builtin_handler WOCKY_STANZA_TYPE_IQ WOCKY_STANZA_SUB_TYPE_ERROR HANDLE_IQ_REPLY p1;
       builtin_handler WOCKY_STANZA_TYPE_STREAM_ERROR WOCKY_STANZA_SUB_TYPE_NONE HANDLE_STREAM_ERROR p2
     }"


datatype porter_op =
    OpStart
  | OpSend WockyNode "nat option" nat
  | OpSendIq "string list" WockyNode "nat option" nat
  | OpPing nat
  | OpCancel nat
  | OpClose "nat option" nat
  | OpForceClose "nat option" nat
  | OpRegister StanzaHandler
  | OpUnregister guint
  | OpPowerSaving bool
  | OpWritten porter_write "porter_error option"
  | OpReceived "porter_error + WockyNode"
  | OpForceClosed "porter_error option"
  | OpIdle

text \<open>The callers' operations, the callbacks of the connection and the idle callbacks.\<close>

fun porter_step :: "porter_env \<Rightarrow> porter_op \<Rightarrow> WockyC2SPorter \<Rightarrow> WockyC2SPorter option" where
  "porter_step env OpStart p = Some (wocky_c2s_porter_start p)"
| "porter_step env (OpSend stanza c t) p = wocky_c2s_porter_send_async stanza c (CB_user t) p"
| "porter_step env (OpSendIq new_ids stanza c t) p = wocky_c2s_porter_send_iq_async env new_ids stanza c t p"
| "porter_step env (OpPing t) p = Some (wocky_c2s_porter_send_whitespace_ping_async t p)"
| "porter_step env (OpCancel c) p = g_cancellable_cancel c p"
| "porter_step env (OpClose c t) p = wocky_c2s_porter_close_async c t p"
| "porter_step env (OpForceClose c t) p = wocky_c2s_porter_force_close_async c t p"
| "porter_step env (OpRegister h) p = map_option snd (wocky_c2s_porter_register_handler_internal h p)"
| "porter_step env (OpUnregister i) p = Some (wocky_c2s_porter_unregister_handler i p)"
| "porter_step env (OpPowerSaving enable) p = Some (wocky_c2s_porter_enable_power_saving_mode env enable p)"
| "porter_step env (OpWritten W_stanza err) p = send_stanza_cb err p"
| "porter_step env (OpWritten (W_ping t) err) p = send_whitespace_ping_cb t err p"
| "porter_step env (OpWritten W_close err) p = Some (close_sent_cb err p)"
| "porter_step env (OpReceived res) p = Some (stanza_received_cb env res p)"
| "porter_step env (OpForceClosed err) p = connection_force_close_cb err p"
| "porter_step env OpIdle p =
     (case po_idle p of
        [] \<Rightarrow> Some p
      | (cb, out) # rest \<Rightarrow> complete_result cb out (p\<lparr>po_idle := rest\<rparr>))"

end
