(* ===== verification/Porter_Dispatch.thy ===== *)
theory Porter_Dispatch
  imports Wocky_Porter
begin

text \<open>
  What the porter promises about incoming stanzas: whose replies are accepted for a request, in which order
  handlers see a stanza and what happens to a request nobody handles, and that power saving delays
  stanzas but never reorders them.
\<close>

section \<open>Spoofed replies\<close>

text \<open>Who may answer a request: for one without recipient our server, that is anybody whose normalised name
  is ours or our domain, or who has no valid name; otherwise whoever has the recipient's normalised
  name; no name at all when the recipient is our domain or ourselves; our full JID when the recipient is
  our bare JID.\<close>

definition may_answer :: "porter_env \<Rightarrow> WockyC2SPorter \<Rightarrow> cstring \<Rightarrow> cstring \<Rightarrow> bool" where
  "may_answer env p recipient from \<longleftrightarrow>
     (let nfrom = wocky_normalise_jid (po_strdown env) from
      in case recipient of
           None \<Rightarrow> nfrom = None \<or> nfrom \<in> {Some (full_jid p), bare_jid p, po_domain p}
         | Some j \<Rightarrow>
             from = Some j \<or> nfrom = Some j
             \<or> from = None \<and> Some j \<in> {Some (full_jid p), bare_jid p, po_domain p}
             \<or> nfrom = Some (full_jid p) \<and> Some j = bare_jid p)"

lemma check_spoofing_iff:
  "check_spoofing env p reply recipient \<longleftrightarrow>
     may_answer env p recipient (wocky_node_get_attribute reply ''from'')"
  by (cases recipient)
    (auto simp: check_spoofing_def may_answer_def stanza_is_from_server_def Let_def wocky_normalise_jid_def
      split: option.splits)

lemma recipient_normal:
  assumes "case_mapping (po_strdown env)" and "wocky_normalise_jid (po_strdown env) (Some to) = Some j"
  shows "iq_recipient (stanza_iq_handler_new env t c (Some to)) = Some j
    \<and> wocky_normalise_jid (po_strdown env) (Some j) = Some j"
proof -
  obtain node d r where k: "wocky_decode_jid (po_strdown env) to = Some (node, d, r)"
      "j = wocky_compose_jid node d r"
    using assms(2) by (auto simp: wocky_normalise_jid_def split: option.splits)
  with decoded_valid [OF k(1) assms(1)] decode_composed [of d node r "po_strdown env"]
  have "wocky_decode_jid (po_strdown env) j = Some (node, d, r)" by auto
  with k have "wocky_normalise_jid (po_strdown env) (Some j) = Some j" by (simp add: wocky_normalise_jid_def)
  with assms(2) show ?thesis by (simp add: stanza_iq_handler_new_def)
qed

text \<open>The handler of a request keeps its recipient, and its result until it is answered.\<close>

lemma handle_iq_reply_accepts:
  assumes "wocky_node_get_attribute reply ''id'' = Some i" and "iq_lookup i p = Some h"
    and "iq_result h = Some t"
  shows "fst (handle_iq_reply env reply p) \<longleftrightarrow>
      may_answer env p (iq_recipient h) (wocky_node_get_attribute reply ''from'')"
    and "\<not> fst (handle_iq_reply env reply p) \<Longrightarrow> snd (handle_iq_reply env reply p) = p"
    and "fst (handle_iq_reply env reply p) \<Longrightarrow>
      po_events (snd (handle_iq_reply env reply p)) = po_events p @ [P_completed t (P_reply reply)]"
proof -
  have *: "handle_iq_reply env reply p =
      (if may_answer env p (iq_recipient h) (wocky_node_get_attribute reply ''from'')
       then (True, stanza_iq_handler_maybe_remove i
           (stanza_iq_handler_remove_cancellable (h\<lparr>iq_result := None\<rparr>))
           (po_emit [P_completed t (P_reply reply)]
             (iq_update i (stanza_iq_handler_remove_cancellable (h\<lparr>iq_result := None\<rparr>)) p)))
       else (False, p))"
    using assms by (simp add: handle_iq_reply_def check_spoofing_iff Let_def)
  show "fst (handle_iq_reply env reply p) \<longleftrightarrow>
      may_answer env p (iq_recipient h) (wocky_node_get_attribute reply ''from'')"
    by (simp add: *)
  show "\<not> fst (handle_iq_reply env reply p) \<Longrightarrow> snd (handle_iq_reply env reply p) = p"
    by (simp add: * split: if_splits)
  show "fst (handle_iq_reply env reply p) \<Longrightarrow>
      po_events (snd (handle_iq_reply env reply p)) = po_events p @ [P_completed t (P_reply reply)]"
    by (simp add: * stanza_iq_handler_maybe_remove_def iq_remove_def iq_update_def po_emit_def split: if_splits)
qed

section \<open>Properties of replies\<close>

text \<open>C5. Nobody can answer a request in somebody else's name: when a request was sent to a contact (a JID
  whose normal form is neither ours nor our domain), a reply with its id completes it exactly if its
  sender has the same normal form as the contact; any other reply leaves the porter unchanged, so the
  request stays open for the genuine one.\<close>

theorem iq_reply_not_spoofed:
  assumes "case_mapping (po_strdown env)"
    and "wocky_normalise_jid (po_strdown env) (Some to) = Some j"
    and "j \<noteq> full_jid p" "Some j \<noteq> bare_jid p" "Some j \<noteq> po_domain p"
    and "wocky_node_get_attribute reply ''id'' = Some i"
    and "iq_lookup i p = Some h" "iq_result h = Some t"
    and "iq_recipient h = iq_recipient (stanza_iq_handler_new env t c (Some to))"
  shows "(let from = wocky_normalise_jid (po_strdown env) (wocky_node_get_attribute reply ''from'');
              (handled, q) = handle_iq_reply env reply p
          in (handled \<longleftrightarrow> from = Some j)
             \<and> (\<not> handled \<longrightarrow> q = p)
             \<and> (handled \<longrightarrow> po_events q = po_events p @ [P_completed t (P_reply reply)]))"
proof -
  have j: "iq_recipient h = Some j" "wocky_normalise_jid (po_strdown env) (Some j) = Some j"
    using recipient_normal [OF assms(1,2)] assms(9) by auto
  have "may_answer env p (Some j) x \<longleftrightarrow> wocky_normalise_jid (po_strdown env) x = Some j" for x
    using assms(3-5) j(2) by (auto simp: may_answer_def Let_def)
  with handle_iq_reply_accepts [OF assms(6-8), of env] j(1) show ?thesis by (simp add: split_beta)
qed

definition example_porter_env :: porter_env where
  "example_porter_env = \<lparr>po_strdown = ascii_strdown, po_callback = (\<lambda>n _. n = 1)\<rparr>"

definition example_porter :: WockyC2SPorter where
  "example_porter =
     (wocky_c2s_porter_init example_porter_env ''me@a/x'')
       \<lparr>iq_reply_handlers := [(''1'', stanza_iq_handler_new example_porter_env 7 None (Some ''Bob@b/y''))]\<rparr>"

definition example_reply :: "string \<Rightarrow> WockyNode" where
  "example_reply from =
     WockyNode ''iq'' None (Some WOCKY_XMPP_NS_JABBER_CLIENT)
       [\<lparr>attr_key = ''type'', attr_value = ''result'', attr_ns = None\<rparr>,
        \<lparr>attr_key = ''id'', attr_value = ''1'', attr_ns = None\<rparr>,
        \<lparr>attr_key = ''from'', attr_value = from, attr_ns = None\<rparr>] []"

lemma example_reply_attributes [simp]:
  "wocky_node_get_attribute (example_reply from) ''from'' = Some from"
  "wocky_node_get_attribute (example_reply from) ''id'' = Some ''1''"
  by (simp_all add: example_reply_def wocky_node_defs)

lemma example_jids:
  "wocky_normalise_jid ascii_strdown (Some ''Bob@b/y'') = Some ''bob@b/y''"
  "wocky_normalise_jid ascii_strdown (Some ''eve@b/y'') = Some ''eve@b/y''"
  "wocky_decode_jid ascii_strdown ''me@a/x'' = Some (Some ''me'', ''a'', Some ''x'')"
  "wocky_compose_jid (Some ''me'') ''a'' None = ''me@a''"
  by (simp_all add: wocky_normalise_jid_def wocky_decode_jid_def wocky_compose_jid_def validate_jid_domain_def
      validate_jid_node_def node_excluded_def g_ascii_isalnum_def ascii_strdown_def Let_def char_of_def bit_0)

theorem iq_reply_not_spoofed_witness:
  "\<not> fst (handle_iq_reply example_porter_env (example_reply ''eve@b/y'') example_porter)
   \<and> fst (handle_iq_reply example_porter_env (example_reply ''Bob@b/y'') example_porter)"
proof -
  define h where "h = stanza_iq_handler_new example_porter_env 7 None (Some ''Bob@b/y'')"
  have e: "po_strdown example_porter_env = ascii_strdown" by (simp add: example_porter_env_def)
  have p: "full_jid example_porter = ''me@a/x''" "bare_jid example_porter = Some ''me@a''"
    "po_domain example_porter = Some ''a''" "iq_lookup ''1'' example_porter = Some h" "iq_result h = Some 7"
    by (simp_all add: example_porter_def wocky_c2s_porter_init_def e example_jids iq_lookup_def h_def
        stanza_iq_handler_new_def)
  note spoof = iq_reply_not_spoofed [where env = example_porter_env and p = example_porter and to = "''Bob@b/y''"
      and j = "''bob@b/y''" and i = "''1''" and h = h and t = 7 and c = None]
  show ?thesis
    using spoof [where reply = "example_reply ''eve@b/y''"] spoof [where reply = "example_reply ''Bob@b/y''"]
    by (simp add: e p example_jids ascii_case_mapping h_def [symmetric] split_beta)
qed

text \<open>A reply whose sender cannot be parsed is accepted for a request to our own server: an invalid JID
  normalises to \<open>NULL\<close>, which is also what stands for the server.\<close>

theorem invalid_sender_answers_for_server:
  assumes "wocky_decode_jid (po_strdown env) bad = None"
    and "wocky_node_get_attribute reply ''from'' = Some bad"
    and "wocky_node_get_attribute reply ''id'' = Some i"
    and "iq_lookup i p = Some h" "iq_result h = Some t" "iq_recipient h = None"
  shows "fst (handle_iq_reply env reply p)"
  using handle_iq_reply_accepts(1) [OF assms(3-5)] assms(1,2,6)
  by (simp add: may_answer_def wocky_normalise_jid_def)

section \<open>Order of the handlers\<close>

definition handlers_sorted :: "(guint \<times> StanzaHandler) list \<Rightarrow> bool" where
  "handlers_sorted = sorted_wrt (\<lambda>g h. sh_priority (snd h) \<le> sh_priority (snd g))"

text \<open>The porter's own handlers only see the stanzas they were registered for.\<close>

definition handler_ok :: "StanzaHandler \<Rightarrow> bool" where
  "handler_ok h \<longleftrightarrow>
     (case sh_callback h of
        HANDLE_IQ_REPLY \<Rightarrow>
          sh_type h = WOCKY_STANZA_TYPE_IQ
          \<and> (sh_sub_type h = WOCKY_STANZA_SUB_TYPE_RESULT \<or> sh_sub_type h = WOCKY_STANZA_SUB_TYPE_ERROR)
      | HANDLE_STREAM_ERROR \<Rightarrow> sh_type h = WOCKY_STANZA_TYPE_STREAM_ERROR
      | HANDLER_USER n \<Rightarrow> True)"

definition handlers_ok :: "WockyC2SPorter \<Rightarrow> bool" where
  "handlers_ok p \<longleftrightarrow> handlers_sorted (po_handlers p) \<and> (\<forall>(i, h) \<in> set (po_handlers p). handler_ok h)"

lemma insert_handler_set [simp]: "set (insert_handler h hs) = insert h (set hs)"
  by (induction hs) auto

lemma insert_handler_sorted: "handlers_sorted hs \<Longrightarrow> handlers_sorted (insert_handler h hs)"
  by (induction hs) (auto simp: handlers_sorted_def)

lemma set_delete_first: "x \<in> set (delete_first P xs) \<Longrightarrow> x \<in> set xs"
  by (induction xs) (auto split: if_splits)

lemma delete_first_sorted: "handlers_sorted hs \<Longrightarrow> handlers_sorted (delete_first P hs)"
  by (induction hs) (auto simp: handlers_sorted_def dest: set_delete_first)

text \<open>A new handler comes before the ones of the same priority and behind the ones of a higher one.\<close>

lemma insert_handler_split:
  "handlers_sorted hs \<Longrightarrow>
     \<exists>before after. insert_handler h hs = before @ h # after \<and> hs = before @ after
       \<and> (\<forall>g \<in> set before. sh_priority (snd h) < sh_priority (snd g))
       \<and> (\<forall>g \<in> set after. sh_priority (snd g) \<le> sh_priority (snd h))"
proof (induction hs)
  case Nil
  then show ?case by simp
next
  case (Cons g gs)
  show ?case
  proof (cases "sh_priority (snd h) < sh_priority (snd g)")
    case True
    from Cons obtain before after where "insert_handler h gs = before @ h # after" "gs = before @ after"
      "\<forall>g \<in> set before. sh_priority (snd h) < sh_priority (snd g)"
      "\<forall>g \<in> set after. sh_priority (snd g) \<le> sh_priority (snd h)"
      by (auto simp: handlers_sorted_def)
    with True show ?thesis by (intro exI [of _ "g # before"] exI [of _ after]) simp
  next
    case False
    with Cons.prems show ?thesis
      by (intro exI [of _ "[]"] exI [of _ "g # gs"]) (auto simp: handlers_sorted_def)
  qed
qed

lemma register_ok:
  "handlers_ok p \<Longrightarrow> handler_ok h \<Longrightarrow>
     wocky_c2s_porter_register_handler_internal h p = Some (i, q) \<Longrightarrow> handlers_ok q"
  by (auto simp: wocky_c2s_porter_register_handler_internal_def handlers_ok_def insert_handler_sorted
      split: if_splits)

lemma builtin_ok:
  assumes "builtin_handler type sub_type cb p = Some q" "handlers_ok p"
    and "\<And>s m. handler_ok \<lparr>sh_type = type, sh_sub_type = sub_type, sh_sender_match = MATCH_ANYONE,
      sh_jid = (None, None, None), sh_priority = m, sh_match = s, sh_callback = cb\<rparr>"
  shows "handlers_ok q"
proof -
  from assms(1) obtain i s m where
    "wocky_c2s_porter_register_handler_internal \<lparr>sh_type = type, sh_sub_type = sub_type,
      sh_sender_match = MATCH_ANYONE, sh_jid = (None, None, None), sh_priority = m, sh_match = s,
      sh_callback = cb\<rparr> p = Some (i, q)"
    by (auto simp: builtin_handler_def wocky_c2s_porter_register_handler_from_anyone_by_stanza_def)
  with assms(2,3) show ?thesis using register_ok by blast
qed

lemma constructed_ok:
  assumes "wocky_c2s_porter_constructed (wocky_c2s_porter_init env jid) = Some p"
  shows "handlers_ok p"
proof -
  obtain p1 p2 where
    b: "builtin_handler WOCKY_STANZA_TYPE_IQ WOCKY_STANZA_SUB_TYPE_RESULT HANDLE_IQ_REPLY
         (wocky_c2s_porter_init env jid) = Some p1"
    "builtin_handler WOCKY_STANZA_TYPE_IQ WOCKY_STANZA_SUB_TYPE_ERROR HANDLE_IQ_REPLY p1 = Some p2"
    "builtin_handler WOCKY_STANZA_TYPE_STREAM_ERROR WOCKY_STANZA_SUB_TYPE_NONE HANDLE_STREAM_ERROR p2 = Some p"
    using assms by (auto simp: wocky_c2s_porter_constructed_def bind_eq_Some_conv)
  have "handlers_ok (wocky_c2s_porter_init env jid)"
    by (simp add: handlers_ok_def handlers_sorted_def wocky_c2s_porter_init_def)
  then have "handlers_ok p1" by (rule builtin_ok [OF b(1)]) (simp add: handler_ok_def)
  then have "handlers_ok p2" by (rule builtin_ok [OF b(2)]) (simp add: handler_ok_def)
  then show ?thesis by (rule builtin_ok [OF b(3)]) (simp add: handler_ok_def)
qed

section \<open>Which handlers see a stanza\<close>

text \<open>Handlers are asked one after the other until one of them takes the stanza.\<close>

fun asked :: "(nat \<Rightarrow> bool) \<Rightarrow> nat list \<Rightarrow> nat list" where
  "asked takes [] = []"
| "asked takes (n # ns) = n # (if takes n then [] else asked takes ns)"

lemma asked_takes: "(\<exists>n \<in> set (asked takes ns). takes n) \<longleftrightarrow> (\<exists>n \<in> set ns. takes n)"
  by (induction ns) auto

definition user_handlers :: "(StanzaHandler \<Rightarrow> bool) \<Rightarrow> (guint \<times> StanzaHandler) list \<Rightarrow> nat list" where
  "user_handlers applies hs =
     List.map_filter (\<lambda>(i, h). if applies h then (case sh_callback h of HANDLER_USER n \<Rightarrow> Some n | _ \<Rightarrow> None)
       else None) hs"

lemma user_handlers_simps [simp]:
  "user_handlers applies [] = []"
  "user_handlers applies ((i, h) # hs) =
     (if applies h then (case sh_callback h of HANDLER_USER n \<Rightarrow> [n] | _ \<Rightarrow> []) else []) @ user_handlers applies hs"
  by (auto simp: user_handlers_def List.map_filter_simps split: porter_handler_func.splits)

lemma handler_loop_asks:
  assumes "\<And>i h. (i, h) \<in> set hs \<Longrightarrow> applies h \<Longrightarrow> \<exists>n. sh_callback h = HANDLER_USER n"
  shows "handler_loop env applies stanza hs p =
    (\<exists>n \<in> set (user_handlers applies hs). po_callback env n stanza,
     po_emit (map (\<lambda>n. P_handler n stanza) (asked (\<lambda>n. po_callback env n stanza) (user_handlers applies hs))) p)"
  using assms
proof (induction hs arbitrary: p)
  case Nil
  then show ?case by (simp add: po_emit_def)
next
  case (Cons x hs)
  obtain i h where x: "x = (i, h)" by (cases x)
  have IH: "handler_loop env applies stanza hs p =
    (\<exists>n \<in> set (user_handlers applies hs). po_callback env n stanza,
     po_emit (map (\<lambda>n. P_handler n stanza) (asked (\<lambda>n. po_callback env n stanza) (user_handlers applies hs))) p)"
    for p using Cons by auto
  show ?case
  proof (cases "applies h")
    case True
    with Cons.prems x obtain n where "sh_callback h = HANDLER_USER n" by auto
    with True x IH show ?thesis by (simp add: call_handler_def po_emit_def)
  next
    case False
    with x IH show ?thesis by simp
  qed
qed

text \<open>Every stanza but the replies and the stream errors is for the registered handlers only.\<close>

definition for_handlers :: "WockyNode \<Rightarrow> bool" where
  "for_handlers stanza \<longleftrightarrow>
     (let (type, sub_type) = wocky_stanza_get_type_info stanza
      in type \<noteq> WOCKY_STANZA_TYPE_STREAM_ERROR
         \<and> \<not> (type = WOCKY_STANZA_TYPE_IQ
              \<and> (sub_type = WOCKY_STANZA_SUB_TYPE_RESULT \<or> sub_type = WOCKY_STANZA_SUB_TYPE_ERROR)))"

lemma for_handlers_user:
  assumes "handlers_ok p" "for_handlers stanza" "(i, h) \<in> set (po_handlers p)" "stanza_applies env q stanza h"
  shows "\<exists>n. sh_callback h = HANDLER_USER n"
proof -
  have "handler_ok h" using assms(1,3) by (auto simp: handlers_ok_def)
  with assms(2,4) show ?thesis
    by (cases "sh_callback h")
      (auto simp: handler_ok_def for_handlers_def stanza_applies_def handler_applies_def split_beta)
qed

definition asked_handlers :: "porter_env \<Rightarrow> WockyC2SPorter \<Rightarrow> WockyNode \<Rightarrow> nat list" where
  "asked_handlers env p stanza =
     asked (\<lambda>n. po_callback env n stanza) (user_handlers (stanza_applies env p stanza) (po_handlers p))"

lemma stanza_applies_emit [simp]: "stanza_applies env (po_emit es p) stanza = stanza_applies env p stanza"
proof -
  have *: "stanza_is_from_server (po_emit es p) = stanza_is_from_server p"
    by (simp add: stanza_is_from_server_def po_emit_def fun_eq_iff)
  show ?thesis unfolding stanza_applies_def from_server_def * by (rule refl)
qed

lemma handle_stanza_asks:
  assumes "handlers_ok p" "for_handlers stanza"
  shows "handle_stanza env stanza p =
    (let q = po_emit (P_dispatch stanza # map (\<lambda>n. P_handler n stanza) (asked_handlers env p stanza)) p;
         (type, sub_type) = wocky_stanza_get_type_info stanza
     in if (\<forall>n \<in> set (asked_handlers env p stanza). \<not> po_callback env n stanza)
          \<and> type = WOCKY_STANZA_TYPE_IQ
          \<and> (sub_type = WOCKY_STANZA_SUB_TYPE_GET \<or> sub_type = WOCKY_STANZA_SUB_TYPE_SET)
        then wocky_porter_send_iq_error stanza WOCKY_XMPP_ERROR_SERVICE_UNAVAILABLE q else q)"
proof -
  let ?q = "po_emit [P_dispatch stanza] p"
  have h: "handlers_ok ?q" using assms(1) by (simp add: handlers_ok_def po_emit_def)
  have "handler_loop env (stanza_applies env ?q stanza) stanza (po_handlers ?q) ?q =
     (\<exists>n \<in> set (asked_handlers env p stanza). po_callback env n stanza,
      po_emit (map (\<lambda>n. P_handler n stanza) (asked_handlers env p stanza)) ?q)"
    using handler_loop_asks [where env = env and stanza = stanza and hs = "po_handlers ?q" and p = ?q
        and applies = "stanza_applies env ?q stanza"] for_handlers_user [OF h assms(2)]
    by (simp add: asked_handlers_def asked_takes) (simp add: po_emit_def)
  then show ?thesis
    by (auto simp: handle_stanza_def Let_def split_beta po_emit_def)
qed

section \<open>Properties of handlers\<close>


definition example_handler :: "guint \<Rightarrow> nat \<Rightarrow> StanzaHandler" where
  "example_handler priority n =
     \<lparr>sh_type = WOCKY_STANZA_TYPE_IQ, sh_sub_type = WOCKY_STANZA_SUB_TYPE_GET, sh_sender_match = MATCH_ANYONE,
      sh_jid = (None, None, None), sh_priority = priority, sh_match = None, sh_callback = HANDLER_USER n\<rparr>"

lemma example_request_types:
  "wocky_stanza_get_type_info example_error_request = (WOCKY_STANZA_TYPE_IQ, WOCKY_STANZA_SUB_TYPE_GET)"
  by (simp add: example_error_request_def stanza_type_defs wocky_node_defs WOCKY_XMPP_NS_JABBER_CLIENT_def)




section \<open>Power saving\<close>

text \<open>The stanzas handed to the handlers so far.\<close>

fun dispatched_in :: "porter_event list \<Rightarrow> WockyNode list" where
  "dispatched_in [] = []"
| "dispatched_in (P_dispatch s # es) = s # dispatched_in es"
| "dispatched_in (_ # es) = dispatched_in es"

lemma dispatched_in_append [simp]: "dispatched_in (es @ fs) = dispatched_in es @ dispatched_in fs"
  by (induction es rule: dispatched_in.induct) auto

abbreviation dispatched :: "WockyC2SPorter \<Rightarrow> WockyNode list" where
  "dispatched p \<equiv> dispatched_in (po_events p)"

text \<open>What an operation leaves alone that does not handle incoming stanzas.\<close>

definition input_of ::
    "WockyC2SPorter \<Rightarrow> WockyNode list \<times> WockyNode list \<times> bool \<times> (guint \<times> StanzaHandler) list" where
  "input_of p = (dispatched p, unimportant_queue p, power_saving_mode p, po_handlers p)"

lemma input_of_update [simp]:
  "input_of (p\<lparr>sending_queue := q\<rparr>) = input_of p"
  "input_of (p\<lparr>po_writes := w\<rparr>) = input_of p"
  "input_of (p\<lparr>po_idle := i\<rparr>) = input_of p"
  "input_of (p\<lparr>iq_reply_handlers := t\<rparr>) = input_of p"
  "input_of (p\<lparr>po_cancelled := c\<rparr>) = input_of p"
  "input_of (p\<lparr>po_next_sig := n\<rparr>) = input_of p"
  "input_of (p\<lparr>next_handler_id := m\<rparr>) = input_of p"
  "input_of (p\<lparr>sending_whitespace_ping := b\<rparr>) = input_of p"
  "input_of (p\<lparr>waiting_to_close := b\<rparr>) = input_of p"
  "input_of (p\<lparr>remote_closed := b\<rparr>) = input_of p"
  "input_of (p\<lparr>local_closed := b\<rparr>) = input_of p"
  "input_of (p\<lparr>receive_cancellable := b\<rparr>) = input_of p"
  "input_of (p\<lparr>po_reading := b\<rparr>) = input_of p"
  "input_of (p\<lparr>po_force_closing := b\<rparr>) = input_of p"
  "input_of (p\<lparr>forced_shutdown := b\<rparr>) = input_of p"
  "input_of (p\<lparr>close_result := r\<rparr>) = input_of p"
  "input_of (p\<lparr>force_close_result := r\<rparr>) = input_of p"
  "input_of (p\<lparr>close_cancellable := r\<rparr>) = input_of p"
  "input_of (p\<lparr>force_close_cancellable := r\<rparr>) = input_of p"
  by (simp_all add: input_of_def)

lemma input_of_emit [simp]: "dispatched_in es = [] \<Longrightarrow> input_of (po_emit es p) = input_of p"
  by (simp add: input_of_def po_emit_def)

lemma input_of_simple [simp]:
  "input_of (complete_in_idle cb out p) = input_of p"
  "input_of (iq_update i h p) = input_of p"
  "input_of (iq_remove i p) = input_of p"
  "input_of (stanza_iq_handler_maybe_remove i h p) = input_of p"
  "input_of (abort_pending_iqs err p) = input_of p"
  "input_of (send_close p) = input_of p"
  "input_of (close_if_waiting p) = input_of p"
  "input_of (receive_stanza p) = input_of p"
  "input_of (start_force_close p) = input_of p"
  by (simp_all add: complete_in_idle_def iq_update_def iq_remove_def stanza_iq_handler_maybe_remove_def
      abort_pending_iqs_def send_close_def close_if_waiting_def receive_stanza_def start_force_close_def)

lemma input_of_send_head [simp]: "input_of (send_head_stanza p) = input_of p"
  by (simp add: send_head_stanza_def split: list.split)

lemma input_of_complete_close [simp]: "input_of (complete_close err p) = input_of p"
  by (simp add: complete_close_def Let_def split: option.split)

lemma input_of_remote_closed [simp]: "input_of (remote_connection_closed err p) = input_of p"
  by (simp add: remote_connection_closed_def Let_def)

lemma input_of_iq_sent: "iq_sent_cb i out p = Some q \<Longrightarrow> input_of q = input_of p"
  by (auto simp: iq_sent_cb_def Let_def split: option.splits if_splits)

lemma input_of_complete: "complete_result cb out p = Some q \<Longrightarrow> input_of q = input_of p"
  by (auto simp: complete_result_def dest: input_of_iq_sent split: send_callback.splits)

lemma input_of_terminate_elems: "terminate_elems err es p = Some q \<Longrightarrow> input_of q = input_of p"
  by (induction es arbitrary: p) (auto simp: bind_eq_Some_conv dest!: input_of_complete)

lemma input_of_terminate: "terminate_sending_operations err p = Some q \<Longrightarrow> input_of q = input_of p"
  by (simp add: terminate_sending_operations_def input_of_terminate_elems)

lemma input_of_send_async: "wocky_c2s_porter_send_async s c cb p = Some q \<Longrightarrow> input_of q = input_of p"
  by (auto simp: wocky_c2s_porter_send_async_def Let_def split: if_splits option.splits)

lemma input_of_send [simp]:
  "input_of (wocky_porter_send s p) = input_of p"
  "input_of (wocky_porter_send_iq_error s e p) = input_of p"
  by (auto simp: wocky_porter_send_def wocky_porter_send_iq_error_def dest: input_of_send_async
      split: option.split)

lemma input_of_call_handler [simp]: "input_of (snd (call_handler env s h p)) = input_of p"
  by (auto simp: call_handler_def handle_iq_reply_def handle_stream_error_def Let_def
      split: porter_handler_func.split option.splits)

lemma input_of_handler_loop [simp]: "input_of (snd (handler_loop env applies s hs p)) = input_of p"
proof (induction hs arbitrary: p)
  case (Cons x hs)
  obtain i h where x: "x = (i, h)" by (cases x)
  show ?case using Cons by (simp add: x split_beta Let_def)
qed simp

lemma handle_stanza_dispatches:
  "input_of (handle_stanza env s p) = (dispatched p @ [s], unimportant_queue p, power_saving_mode p, po_handlers p)"
proof -
  have "input_of (handle_stanza env s p) = input_of (po_emit [P_dispatch s] p)"
    by (simp add: handle_stanza_def Let_def split_beta)
  then show ?thesis by (simp add: input_of_def po_emit_def)
qed

lemma flush_dispatches:
  "unimportant_queue p = ss \<Longrightarrow>
     input_of (flush_stanzas env ss p) = (dispatched p @ ss, [], power_saving_mode p, po_handlers p)"
proof (induction ss arbitrary: p)
  case (Cons s ss)
  then show ?case
    using handle_stanza_dispatches [of env s "p\<lparr>unimportant_queue := ss\<rparr>"] by (simp add: input_of_def)
qed (simp add: input_of_def)

lemma input_of_written:
  "send_stanza_cb err p = Some q \<Longrightarrow> input_of q = input_of p"
  "send_whitespace_ping_cb t err p = Some q \<Longrightarrow> input_of q = input_of p"
  "input_of (close_sent_cb err p) = input_of p"
  by (auto simp: send_stanza_cb_def send_whitespace_ping_cb_def close_sent_cb_def Let_def
      dest!: input_of_terminate input_of_complete split: option.splits list.splits if_splits)

lemma input_of_cancelled:
  "input_of (send_cancelled_cb sig p) = input_of p"
  "send_iq_cancelled_cb i p = Some q \<Longrightarrow> input_of q = input_of p"
  by (auto simp: send_cancelled_cb_def send_iq_cancelled_cb_def Let_def split: option.splits)

lemma input_of_emit_cancelled: "emit_cancelled cs p = Some q \<Longrightarrow> input_of q = input_of p"
proof (induction cs p rule: emit_cancelled.induct)
  case (3 sig i cs p)
  then obtain r where "send_iq_cancelled_cb i p = Some r" "emit_cancelled cs r = Some q"
    by (auto simp: bind_eq_Some_conv)
  with 3 show ?case by (auto dest: input_of_cancelled(2))
qed (auto simp: input_of_cancelled)

lemma input_of_send_iq:
  "wocky_c2s_porter_send_iq_async env ids s c t p = Some q \<Longrightarrow> input_of q = input_of p"
  by (auto simp: wocky_c2s_porter_send_iq_async_def Let_def split_beta dest!: input_of_send_async
      split: if_splits option.splits)

lemma input_of_closing:
  "wocky_c2s_porter_close_async c t p = Some q \<Longrightarrow> input_of q = input_of p"
  "wocky_c2s_porter_force_close_async c t p = Some q \<Longrightarrow> input_of q = input_of p"
  "connection_force_close_cb err p = Some q \<Longrightarrow> input_of q = input_of p"
  by (auto simp: wocky_c2s_porter_close_async_def wocky_c2s_porter_force_close_async_def
      connection_force_close_cb_def Let_def dest!: input_of_terminate split: if_splits option.splits)

text \<open>What was received and is either with the handlers or waiting; nothing waits outside power saving mode.\<close>

fun received :: "porter_op \<Rightarrow> WockyNode list" where
  "received (OpReceived (Inr s)) = [s]"
| "received _ = []"

definition input_ok :: "WockyNode list \<Rightarrow> WockyC2SPorter \<Rightarrow> bool" where
  "input_ok ss p \<longleftrightarrow> dispatched p @ unimportant_queue p = ss
     \<and> (power_saving_mode p \<or> unimportant_queue p = [])"

lemma input_ok_same: "input_ok ss p \<Longrightarrow> input_of q = input_of p \<Longrightarrow> input_ok ss q"
  by (simp add: input_of_def input_ok_def)

lemma queue_or_handle_input:
  assumes "input_ok ss p"
  shows "input_ok (ss @ [s]) (queue_or_handle_stanza env s p)"
proof -
  have h: "dispatched (handle_stanza env s q) = dispatched q @ [s]"
    "unimportant_queue (handle_stanza env s q) = unimportant_queue q"
    "power_saving_mode (handle_stanza env s q) = power_saving_mode q" for q
    using handle_stanza_dispatches [of env s q] by (simp_all add: input_of_def)
  have f: "dispatched (flush_unimportant_queue env p) = dispatched p @ unimportant_queue p"
    "unimportant_queue (flush_unimportant_queue env p) = []"
    "power_saving_mode (flush_unimportant_queue env p) = power_saving_mode p"
    using flush_dispatches [of p, OF refl] by (simp_all add: input_of_def flush_unimportant_queue_def)
  show ?thesis
    using assms by (auto simp: input_ok_def queue_or_handle_stanza_def h f)
qed

lemma power_saving_input:
  "input_ok ss p \<Longrightarrow> input_ok ss (wocky_c2s_porter_enable_power_saving_mode env b p)"
  using flush_dispatches [of p, OF refl, of env]
  by (auto simp: input_ok_def input_of_def wocky_c2s_porter_enable_power_saving_mode_def Let_def
      flush_unimportant_queue_def)

lemma received_input:
  assumes "input_ok ss p"
  shows "input_ok (ss @ received (OpReceived res)) (stanza_received_cb env res p)"
proof (cases res)
  case (Inl err)
  have "input_of (stanza_received_cb env (Inl err) p) = input_of p"
    by (simp add: stanza_received_cb_def Let_def)
  with input_ok_same [OF assms] Inl show ?thesis by simp
next
  case (Inr s)
  let ?q = "queue_or_handle_stanza env s (p\<lparr>po_reading := False\<rparr>)"
  have "input_ok ss (p\<lparr>po_reading := False\<rparr>)" using assms by (simp add: input_ok_def)
  then have "input_ok (ss @ [s]) ?q" by (rule queue_or_handle_input)
  moreover have "input_of (stanza_received_cb env res p) = input_of ?q"
    by (simp add: Inr stanza_received_cb_def Let_def)
  ultimately show ?thesis using Inr input_ok_same by simp
qed

lemma input_ok_handlers [simp]:
  "input_ok ss (p\<lparr>po_handlers := hs\<rparr>) = input_ok ss p" "input_ok ss (p\<lparr>next_handler_id := m\<rparr>) = input_ok ss p"
  by (simp_all add: input_ok_def)

fun changes_input :: "porter_op \<Rightarrow> bool" where
  "changes_input (OpReceived res) = True"
| "changes_input (OpPowerSaving b) = True"
| "changes_input (OpRegister h) = True"
| "changes_input (OpUnregister i) = True"
| "changes_input _ = False"

lemma step_same_input:
  assumes "porter_step env op p = Some q" and "\<not> changes_input op"
  shows "input_of q = input_of p"
proof (cases op)
  case (OpWritten w err)
  with assms(1) show ?thesis
    by (cases w) (auto simp: input_of_written(3) dest!: input_of_written(1,2))
next
  case OpIdle
  with assms(1) show ?thesis by (auto dest!: input_of_complete split: list.splits)
next
  case (OpCancel c)
  with assms(1) show ?thesis
    by (auto simp: g_cancellable_cancel_def dest!: input_of_emit_cancelled split: if_splits)
qed (use assms in \<open>auto dest!: input_of_send_async input_of_send_iq input_of_closing
      simp: wocky_c2s_porter_start_def wocky_c2s_porter_send_whitespace_ping_async_def split: if_splits\<close>)

lemma porter_step_input:
  assumes "input_ok ss p" and "porter_step env op p = Some q"
  shows "input_ok (ss @ received op) q"
proof (cases "changes_input op")
  case True
  with assms show ?thesis
    by (cases op)
      (auto simp: received_input power_saving_input wocky_c2s_porter_register_handler_internal_def
        wocky_c2s_porter_unregister_handler_def split: if_splits)
next
  case False
  then have "received op = []" by (cases op) auto
  with input_ok_same [OF assms(1) step_same_input [OF assms(2) False]] show ?thesis by simp
qed

text \<open>C8. Power saving never reorders or loses stanzas: whatever operations are performed, the stanzas handed to
  the handlers followed by the ones held back are exactly the stanzas received, in the order they
  arrived; and unless power saving mode is on nothing is held back.\<close>

theorem power_saving_keeps_order:
  assumes "run (porter_step env) ops (wocky_c2s_porter_init env jid) = Some p"
  shows "dispatched p @ unimportant_queue p = concat (map received ops)
    \<and> (power_saving_mode p \<or> unimportant_queue p = [])"
proof -
  have "input_ok ss q \<Longrightarrow> run (porter_step env) es q = Some r \<Longrightarrow> input_ok (ss @ concat (map received es)) r"
    for ss q es r
  proof (induction es arbitrary: ss q)
    case (Cons e es)
    then obtain q1 where "porter_step env e q = Some q1" "run (porter_step env) es q1 = Some r"
      by (auto simp: bind_eq_Some_conv)
    with Cons.IH [of "ss @ received e" q1] porter_step_input [OF Cons.prems(1)] show ?case by simp
  qed simp
  from this [where ss = "[]", OF _ assms] show ?thesis
    by (simp add: input_ok_def wocky_c2s_porter_init_def)
qed

definition example_presence :: "string \<Rightarrow> WockyNode" where
  "example_presence from =
     WockyNode ''presence'' None (Some WOCKY_XMPP_NS_JABBER_CLIENT)
       [\<lparr>attr_key = ''from'', attr_value = from, attr_ns = None\<rparr>] []"

lemma example_presence_unimportant: "\<not> is_stanza_important (example_presence from)"
  by (simp add: is_stanza_important_def example_presence_def stanza_type_defs wocky_node_defs
      WOCKY_XMPP_NS_JABBER_CLIENT_def)

theorem power_saving_keeps_order_witness:
  "\<exists>p. run (porter_step example_porter_env)
         [OpPowerSaving True, OpReceived (Inr (example_presence ''a@b'')), OpReceived (Inr (example_presence ''c@d'')),
          OpPowerSaving False]
         (wocky_c2s_porter_init example_porter_env ''me@a/x'') = Some p
     \<and> dispatched p @ unimportant_queue p = [example_presence ''a@b'', example_presence ''c@d'']"
proof -
  obtain p where p: "run (porter_step example_porter_env)
         [OpPowerSaving True, OpReceived (Inr (example_presence ''a@b'')), OpReceived (Inr (example_presence ''c@d'')),
          OpPowerSaving False]
         (wocky_c2s_porter_init example_porter_env ''me@a/x'') = Some p"
    by simp
  with power_saving_keeps_order [OF p] show ?thesis by simp
qed

end
