(* ===== verification/Porter_Requests.thy ===== *)
theory Porter_Requests
  imports Porter_Dispatch "HOL-Library.Multiset"
begin

text \<open>
  The bookkeeping of pending operations in the porter: the invariant that ties the table of IQ handlers to
  the write operations that will report to them, so that no handler is used after it was freed, and the
  account of the callers: every operation started is either still pending or has been completed once.
\<close>

section \<open>IQ handlers and the writes that report to them\<close>

text \<open>The write operations that have not reported to the handler of an id yet, apart from the ones in
  \<open>hand\<close>, which have been taken off the queue to be completed.\<close>

definition outstanding :: "WockyC2SPorter \<Rightarrow> send_callback \<Rightarrow> nat" where
  "outstanding p cb = count_list (map elem_callback (sending_queue p)) cb + count_list (map fst (po_idle p)) cb"

definition expected :: "StanzaIqHandler option \<Rightarrow> nat" where
  "expected h = (case h of None \<Rightarrow> 0 | Some x \<Rightarrow> if iq_sent x then 0 else 1)"

text \<open>A handler that was told of its write waits for the reply; one connected to a cancellable has a caller
  to answer, unless the cancellable has been cancelled already.\<close>

definition entry_ok :: "nat list \<Rightarrow> StanzaIqHandler \<Rightarrow> bool" where
  "entry_ok cancelled h \<longleftrightarrow>
     (iq_sent h \<longrightarrow> iq_result h \<noteq> None)
     \<and> (iq_cancelled_sig_id h \<noteq> 0 \<longrightarrow>
          (\<exists>c. iq_cancellable h = Some c \<and> (iq_result h \<noteq> None \<or> c \<in> set cancelled)))"

definition iq_ok :: "send_callback list \<Rightarrow> WockyC2SPorter \<Rightarrow> bool" where
  "iq_ok hand p \<longleftrightarrow>
     distinct (map fst (iq_reply_handlers p))
     \<and> (\<forall>i. outstanding p (CB_iq_sent i) + count_list hand (CB_iq_sent i) = expected (iq_lookup i p))
     \<and> (\<forall>(i, h) \<in> set (iq_reply_handlers p). entry_ok (po_cancelled p) h)"

section \<open>The account of the callers\<close>

fun completed_in :: "nat \<Rightarrow> porter_event list \<Rightarrow> nat" where
  "completed_in t [] = 0"
| "completed_in t (P_completed u out # es) = (if u = t then 1 else 0) + completed_in t es"
| "completed_in t (_ # es) = completed_in t es"

lemma completed_in_append [simp]: "completed_in t (es @ fs) = completed_in t es + completed_in t fs"
  by (induction t es rule: completed_in.induct) auto

definition pending_iqs :: "nat \<Rightarrow> (string \<times> StanzaIqHandler) list \<Rightarrow> nat" where
  "pending_iqs t tab = count_list (map (\<lambda>(i, h). iq_result h) tab) (Some t)"

definition is_caller :: "nat \<Rightarrow> nat option \<Rightarrow> nat" where
  "is_caller t r = (if r = Some t then 1 else 0)"

definition pending_calls :: "nat \<Rightarrow> WockyC2SPorter \<Rightarrow> nat" where
  "pending_calls t p =
     outstanding p (CB_user t) + pending_iqs t (iq_reply_handlers p) + is_caller t (close_result p)
     + is_caller t (force_close_result p) + count_list (po_writes p) (W_ping t)"

definition completed_calls :: "nat \<Rightarrow> WockyC2SPorter \<Rightarrow> nat" where
  "completed_calls t p = completed_in t (po_events p)"

definition calls_of :: "nat \<Rightarrow> send_callback list \<Rightarrow> WockyC2SPorter \<Rightarrow> nat" where
  "calls_of t hand p = completed_calls t p + pending_calls t p + count_list hand (CB_user t)"

section \<open>Changing one handler\<close>

lemma iq_table_update:
  fixes tab :: "(string \<times> StanzaIqHandler) list" and h' :: StanzaIqHandler
  assumes "distinct (map fst tab)" and "map_of tab i = Some h"
  defines "u \<equiv> map (\<lambda>(j, g). if j = i then (j, h') else (j, g)) tab"
  shows "map fst u = map fst tab" and "map_of u = (map_of tab)(i \<mapsto> h')"
    and "pending_iqs t u + is_caller t (iq_result h) = pending_iqs t tab + is_caller t (iq_result h')"
    and "(\<forall>(j, g) \<in> set tab. P g) \<Longrightarrow> P h' \<Longrightarrow> \<forall>(j, g) \<in> set u. P g"
proof -
  show "map fst u = map fst tab" by (auto simp: u_def)
  show "map_of u = (map_of tab)(i \<mapsto> h')"
  proof
    fix j
    have "map_of u j = (if j = i then map_option (\<lambda>_. h') (map_of tab i) else map_of tab j)"
      unfolding u_def by (induction tab) auto
    with assms(2) show "map_of u j = ((map_of tab)(i \<mapsto> h')) j" by simp
  qed
  show "pending_iqs t u + is_caller t (iq_result h) = pending_iqs t tab + is_caller t (iq_result h')"
    using assms(1,2) unfolding u_def
  proof (induction tab)
    case (Cons x tab)
    obtain j g where x: "x = (j, g)" by (cases x)
    show ?case
    proof (cases "j = i")
      case True
      then have "map (\<lambda>(j, g). if j = i then (j, h') else (j, g)) tab = tab"
        using Cons.prems(1) x by (intro map_idI) force
      with Cons.prems x True show ?thesis by (simp add: pending_iqs_def is_caller_def)
    next
      case False
      with Cons x show ?thesis by (auto simp: pending_iqs_def is_caller_def)
    qed
  qed simp
  show "(\<forall>(j, g) \<in> set tab. P g) \<Longrightarrow> P h' \<Longrightarrow> \<forall>(j, g) \<in> set u. P g"
    by (auto simp: u_def split: if_splits)
qed

lemma iq_table_remove:
  fixes tab :: "(string \<times> StanzaIqHandler) list"
  assumes "distinct (map fst tab)" and "map_of tab i = Some h"
  defines "u \<equiv> filter (\<lambda>(j, _). j \<noteq> i) tab"
  shows "distinct (map fst u)" and "map_of u = (map_of tab)(i := None)"
    and "pending_iqs t u + is_caller t (iq_result h) = pending_iqs t tab"
    and "(\<forall>(j, g) \<in> set tab. P g) \<Longrightarrow> \<forall>(j, g) \<in> set u. P g"
proof -
  show "distinct (map fst u)" using assms(1) by (simp add: u_def distinct_map_filter)
  show "map_of u = (map_of tab)(i := None)"
    unfolding u_def by (induction tab) (auto simp: fun_eq_iff)
  show "pending_iqs t u + is_caller t (iq_result h) = pending_iqs t tab"
    using assms(1,2) unfolding u_def
  proof (induction tab)
    case (Cons x tab)
    obtain j g where x: "x = (j, g)" by (cases x)
    show ?case
    proof (cases "j = i")
      case True
      then have "filter (\<lambda>(j, _). j \<noteq> i) tab = tab"
        using Cons.prems(1) x by (intro filter_True) force
      with Cons.prems x True show ?thesis by (simp add: pending_iqs_def is_caller_def)
    next
      case False
      with Cons x show ?thesis by (auto simp: pending_iqs_def)
    qed
  qed simp
  show "(\<forall>(j, g) \<in> set tab. P g) \<Longrightarrow> \<forall>(j, g) \<in> set u. P g" by (auto simp: u_def)
qed

section \<open>Completing a write\<close>

lemma expected_simps [simp]: "expected None = 0" "expected (Some h) = (if iq_sent h then 0 else 1)"
  by (simp_all add: expected_def)

lemma outstanding_frame [simp]:
  "outstanding (p\<lparr>iq_reply_handlers := tab, po_events := es\<rparr>) cb = outstanding p cb"
  by (simp add: outstanding_def)

lemma calls_frame:
  "calls_of t hand (p\<lparr>iq_reply_handlers := tab, po_events := po_events p @ es\<rparr>) + pending_iqs t (iq_reply_handlers p) =
     calls_of t hand p + pending_iqs t tab + completed_in t es"
  by (simp add: calls_of_def completed_calls_def pending_calls_def)

text \<open>A handler with its fields changed, and then removed if it is done.\<close>

definition put_handler ::
    "string \<Rightarrow> StanzaIqHandler \<Rightarrow> (string \<times> StanzaIqHandler) list \<Rightarrow> (string \<times> StanzaIqHandler) list" where
  "put_handler i h tab =
     (let u = map (\<lambda>(j, g). if j = i then (j, h) else (j, g)) tab
      in if iq_sent h \<and> iq_result h = None then filter (\<lambda>(j, _). j \<noteq> i) u else u)"

lemma maybe_remove_put:
  "stanza_iq_handler_maybe_remove i h (iq_update i h p) =
     p\<lparr>iq_reply_handlers := put_handler i h (iq_reply_handlers p)\<rparr>"
  "stanza_iq_handler_maybe_remove i h (po_emit es (iq_update i h p)) =
     p\<lparr>iq_reply_handlers := put_handler i h (iq_reply_handlers p), po_events := po_events p @ es\<rparr>"
  "stanza_iq_handler_maybe_remove i h (complete_in_idle cb out (iq_update i h p)) =
     p\<lparr>iq_reply_handlers := put_handler i h (iq_reply_handlers p), po_idle := po_idle p @ [(cb, out)]\<rparr>"
  by (simp_all add: stanza_iq_handler_maybe_remove_def iq_update_def iq_remove_def po_emit_def
      complete_in_idle_def put_handler_def Let_def)

lemma put_handler_table:
  assumes "distinct (map fst tab)" and "map_of tab i = Some h"
  shows "distinct (map fst (put_handler i h' tab))"
    and "expected (map_of (put_handler i h' tab) j) =
      (if j = i then (if iq_sent h' then 0 else 1) else expected (map_of tab j))"
    and "pending_iqs t (put_handler i h' tab) + is_caller t (iq_result h) =
      pending_iqs t tab + is_caller t (iq_result h')"
    and "(\<forall>(j, g) \<in> set tab. entry_ok c g) \<Longrightarrow>
      (\<not> (iq_sent h' \<and> iq_result h' = None) \<Longrightarrow> entry_ok c h') \<Longrightarrow>
      \<forall>(j, g) \<in> set (put_handler i h' tab). entry_ok c g"
proof -
  let ?u = "map (\<lambda>(j, g). if j = i then (j, h') else (j, g)) tab"
  note u = iq_table_update [OF assms, where h' = h']
  have d: "distinct (map fst ?u)" unfolding u(1) by (rule assms(1))
  have m: "map_of ?u i = Some h'" unfolding u(2) by simp
  note r = iq_table_remove [OF d m]
  show "distinct (map fst (put_handler i h' tab))"
    using d r(1) by (simp add: put_handler_def Let_def)
  show "expected (map_of (put_handler i h' tab) j) =
      (if j = i then (if iq_sent h' then 0 else 1) else expected (map_of tab j))"
    by (simp add: put_handler_def Let_def u(2) r(2))
  show "pending_iqs t (put_handler i h' tab) + is_caller t (iq_result h) =
      pending_iqs t tab + is_caller t (iq_result h')"
    using u(3) [of t] r(3) [of t] by (auto simp: put_handler_def Let_def is_caller_def)
  show "\<forall>(j, g) \<in> set (put_handler i h' tab). entry_ok c g"
    if "\<forall>(j, g) \<in> set tab. entry_ok c g" "\<not> (iq_sent h' \<and> iq_result h' = None) \<Longrightarrow> entry_ok c h'"
    using that by (auto simp: put_handler_def Let_def split: if_splits)
qed

lemma iq_sent_cb_ok:
  assumes "iq_ok (CB_iq_sent i # hand) p"
  shows "\<exists>q. iq_sent_cb i out p = Some q \<and> iq_ok hand q \<and> (\<forall>t. calls_of t hand q = calls_of t hand p)
    \<and> (\<exists>tab es. q = p\<lparr>iq_reply_handlers := tab, po_events := po_events p @ es\<rparr>)"
proof -
  let ?tab = "iq_reply_handlers p"
  have d: "distinct (map fst ?tab)" and n: "\<And>j. outstanding p (CB_iq_sent j) + count_list (CB_iq_sent i # hand) (CB_iq_sent j)
      = expected (iq_lookup j p)"
    and e: "\<forall>(j, g) \<in> set ?tab. entry_ok (po_cancelled p) g"
    using assms by (simp_all add: iq_ok_def)
  from n [of i] obtain h where l: "map_of ?tab i = Some h" "\<not> iq_sent h"
    by (cases "iq_lookup i p") (auto simp: iq_lookup_def split: if_splits)
  have he: "entry_ok (po_cancelled p) h" using e map_of_SomeD [OF l(1)] by auto
  define r where "r = (if out = P_ok then None else iq_result h)"
  define h' where "h' = (if r = None then h\<lparr>iq_sent := True\<rparr>
    else stanza_iq_handler_remove_cancellable (h\<lparr>iq_sent := True, iq_result := None\<rparr>))"
  define es where "es = (case r of None \<Rightarrow> [] | Some t \<Rightarrow> [P_completed t out])"
  define q where "q = p\<lparr>iq_reply_handlers := put_handler i h' ?tab, po_events := po_events p @ es\<rparr>"
  have q: "iq_sent_cb i out p = Some q"
    using l by (auto simp: iq_sent_cb_def iq_lookup_def Let_def maybe_remove_put q_def h'_def es_def r_def
        split: option.split)
  have h': "iq_sent h'" by (simp add: h'_def stanza_iq_handler_remove_cancellable_def)
  note put = put_handler_table [OF d l(1), where h' = h']
  have fine: "entry_ok (po_cancelled p) h'" if "\<not> (iq_sent h' \<and> iq_result h' = None)"
    using that he h' by (auto simp: h'_def entry_ok_def stanza_iq_handler_remove_cancellable_def split: if_splits)
  have "expected (map_of (put_handler i h' ?tab) j) = outstanding p (CB_iq_sent j) + count_list hand (CB_iq_sent j)" for j
    using n [of j] l h' by (simp add: put(2) iq_lookup_def split: if_splits)
  with put(1) put(4) [OF e fine] have "iq_ok hand q"
    by (simp add: iq_ok_def q_def iq_lookup_def)
  moreover have "calls_of t hand q = calls_of t hand p" for t
    using calls_frame [where t = t and hand = hand and p = p and tab = "put_handler i h' ?tab" and es = es] put(3) [of t]
    by (auto simp: q_def h'_def es_def r_def is_caller_def stanza_iq_handler_remove_cancellable_def
        split: if_splits option.splits)
  ultimately show ?thesis using q q_def by blast
qed

lemma iq_ok_user [simp]: "iq_ok (CB_user t # hand) p = iq_ok hand p" "iq_ok (CB_none # hand) p = iq_ok hand p"
  by (simp_all add: iq_ok_def)

lemma iq_ok_events [simp]: "iq_ok hand (p\<lparr>po_events := es\<rparr>) = iq_ok hand p"
  by (simp add: iq_ok_def outstanding_def iq_lookup_def)

lemma calls_of_emit: "calls_of t hand (po_emit es p) = calls_of t hand p + completed_in t es"
  by (simp add: calls_of_def completed_calls_def pending_calls_def po_emit_def outstanding_def)

lemma calls_of_hand: "calls_of t (cb # hand) p = calls_of t hand p + (if cb = CB_user t then 1 else 0)"
  by (simp add: calls_of_def)

lemma complete_result_ok:
  assumes "iq_ok (cb # hand) p"
  shows "\<exists>q. complete_result cb out p = Some q \<and> iq_ok hand q
    \<and> (\<forall>t. calls_of t hand q = calls_of t (cb # hand) p)
    \<and> (\<exists>tab es. q = p\<lparr>iq_reply_handlers := tab, po_events := po_events p @ es\<rparr>)"
proof (cases cb)
  case CB_none
  have "p = p\<lparr>iq_reply_handlers := iq_reply_handlers p, po_events := po_events p @ []\<rparr>" by simp
  then have "\<exists>tab es. p = p\<lparr>iq_reply_handlers := tab, po_events := po_events p @ es\<rparr>" by blast
  with CB_none assms show ?thesis by (simp add: complete_result_def calls_of_hand)
next
  case (CB_user u)
  have "po_emit [P_completed u out] p =
      p\<lparr>iq_reply_handlers := iq_reply_handlers p, po_events := po_events p @ [P_completed u out]\<rparr>"
    by (simp add: po_emit_def)
  then have "\<exists>tab es. po_emit [P_completed u out] p = p\<lparr>iq_reply_handlers := tab, po_events := po_events p @ es\<rparr>"
    by blast
  with CB_user assms show ?thesis
    by (simp add: complete_result_def calls_of_hand calls_of_emit) (simp add: po_emit_def)
next
  case (CB_iq_sent i)
  with assms iq_sent_cb_ok [of i hand p out] show ?thesis by (simp add: complete_result_def calls_of_hand)
qed

section \<open>Operations\<close>

text \<open>After an operation of caller \<open>tok\<close> the handlers are consistent and the account has grown by it.\<close>

definition accounts :: "nat option \<Rightarrow> WockyC2SPorter \<Rightarrow> WockyC2SPorter \<Rightarrow> bool" where
  "accounts tok p q \<longleftrightarrow> iq_ok [] q \<and> (\<forall>t. calls_of t [] q = calls_of t [] p + is_caller t tok)"

lemma accounts_trans: "accounts None p q \<Longrightarrow> accounts tok q r \<Longrightarrow> accounts tok p r"
  by (simp add: accounts_def is_caller_def)

lemma accounts_trans': "accounts tok p q \<Longrightarrow> accounts None q r \<Longrightarrow> accounts tok p r"
  by (simp add: accounts_def is_caller_def)

lemma accounts_refl: "iq_ok [] p \<Longrightarrow> accounts None p p"
  by (simp add: accounts_def is_caller_def)

text \<open>What the account and the consistency of the handlers depend on.\<close>

fun is_ping :: "porter_write \<Rightarrow> bool" where
  "is_ping (W_ping t) = True"
| "is_ping _ = False"

definition account_view where
  "account_view p =
     (iq_reply_handlers p, map elem_callback (sending_queue p), map fst (po_idle p), po_cancelled p,
      close_result p, force_close_result p, filter is_ping (po_writes p), \<lambda>t. completed_in t (po_events p))"

lemma count_ping: "count_list ws (W_ping t) = count_list (filter is_ping ws) (W_ping t)"
  by (induction ws) auto

lemma account_view_cong:
  assumes "account_view q = account_view p"
  shows "iq_ok hand q = iq_ok hand p" "calls_of t hand q = calls_of t hand p"
proof -
  have v: "iq_reply_handlers q = iq_reply_handlers p" "map elem_callback (sending_queue q) = map elem_callback (sending_queue p)"
    "map fst (po_idle q) = map fst (po_idle p)" "po_cancelled q = po_cancelled p" "close_result q = close_result p"
    "force_close_result q = force_close_result p" "filter is_ping (po_writes q) = filter is_ping (po_writes p)"
    "\<And>t. completed_in t (po_events q) = completed_in t (po_events p)"
    using assms by (auto simp: account_view_def fun_eq_iff)
  have n: "count_list (po_writes q) (W_ping t) = count_list (po_writes p) (W_ping t)"
    using v(7) count_ping by metis
  have o: "outstanding q cb = outstanding p cb" for cb by (simp only: outstanding_def v(2,3))
  show "iq_ok hand q = iq_ok hand p" by (simp only: iq_ok_def v o iq_lookup_def)
  show "calls_of t hand q = calls_of t hand p"
    by (simp only: calls_of_def completed_calls_def pending_calls_def v n o)
qed

lemma accounts_same: "iq_ok [] p \<Longrightarrow> account_view q = account_view p \<Longrightarrow> accounts None p q"
  using account_view_cong [of q p] by (simp add: accounts_def is_caller_def)

lemma view_simps [simp]:
  "account_view (p\<lparr>po_writes := po_writes p @ [W_stanza]\<rparr>) = account_view p"
  "account_view (p\<lparr>po_writes := po_writes p @ [W_close]\<rparr>) = account_view p"
  "account_view (p\<lparr>waiting_to_close := b\<rparr>) = account_view p"
  "account_view (p\<lparr>sending_whitespace_ping := b\<rparr>) = account_view p"
  "account_view (p\<lparr>remote_closed := b\<rparr>) = account_view p"
  "account_view (p\<lparr>local_closed := b\<rparr>) = account_view p"
  "account_view (p\<lparr>receive_cancellable := b\<rparr>) = account_view p"
  "account_view (p\<lparr>po_reading := b\<rparr>) = account_view p"
  "account_view (p\<lparr>po_force_closing := b\<rparr>) = account_view p"
  "account_view (p\<lparr>forced_shutdown := b\<rparr>) = account_view p"
  "account_view (p\<lparr>power_saving_mode := b\<rparr>) = account_view p"
  "account_view (p\<lparr>unimportant_queue := ss\<rparr>) = account_view p"
  "account_view (p\<lparr>close_cancellable := r\<rparr>) = account_view p"
  "account_view (p\<lparr>force_close_cancellable := r\<rparr>) = account_view p"
  "account_view (p\<lparr>po_next_sig := n\<rparr>) = account_view p"
  "account_view (p\<lparr>po_handlers := hs\<rparr>) = account_view p"
  "account_view (p\<lparr>next_handler_id := m\<rparr>) = account_view p"
  by (simp_all add: account_view_def)

lemma view_removed [simp]:
  "account_view (p\<lparr>po_writes := remove1 W_stanza (po_writes p)\<rparr>) = account_view p"
  "account_view (p\<lparr>po_writes := remove1 W_close (po_writes p)\<rparr>) = account_view p"
proof -
  have "filter is_ping (remove1 w ws) = filter is_ping ws" if "\<not> is_ping w" for w and ws :: "porter_write list"
    using that by (induction ws) auto
  then show "account_view (p\<lparr>po_writes := remove1 W_stanza (po_writes p)\<rparr>) = account_view p"
    "account_view (p\<lparr>po_writes := remove1 W_close (po_writes p)\<rparr>) = account_view p"
    by (simp_all add: account_view_def)
qed

lemma view_emit: "(\<And>t. completed_in t es = 0) \<Longrightarrow> account_view (po_emit es p) = account_view p"
  by (simp add: account_view_def po_emit_def)

lemma view_send_head [simp]: "account_view (send_head_stanza p) = account_view p"
  by (simp add: account_view_def send_head_stanza_def po_emit_def split: list.split)

lemma view_send_close [simp]: "account_view (send_close p) = account_view p"
  by (simp add: send_close_def po_emit_def account_view_def)

lemma view_close_if_waiting [simp]: "account_view (close_if_waiting p) = account_view p"
  by (simp add: close_if_waiting_def)

text \<open>Completing operations.\<close>

lemma outstanding_append:
  "outstanding (complete_in_idle cb out p) x = outstanding p x + (if cb = x then 1 else 0)"
  by (simp add: outstanding_def complete_in_idle_def)

lemma complete_in_idle_hand:
  "iq_ok hand (complete_in_idle cb out p) = iq_ok (cb # hand) p"
  "calls_of t hand (complete_in_idle cb out p) = calls_of t (cb # hand) p"
proof -
  have f: "iq_reply_handlers (complete_in_idle cb out p) = iq_reply_handlers p"
    "po_cancelled (complete_in_idle cb out p) = po_cancelled p" "po_events (complete_in_idle cb out p) = po_events p"
    "close_result (complete_in_idle cb out p) = close_result p" "po_writes (complete_in_idle cb out p) = po_writes p"
    "force_close_result (complete_in_idle cb out p) = force_close_result p"
    by (simp_all add: complete_in_idle_def)
  show "iq_ok hand (complete_in_idle cb out p) = iq_ok (cb # hand) p"
    by (auto simp: iq_ok_def f iq_lookup_def outstanding_append)
  show "calls_of t hand (complete_in_idle cb out p) = calls_of t (cb # hand) p"
    by (auto simp: calls_of_def completed_calls_def pending_calls_def f outstanding_append)
qed

lemma accounts_idle: "iq_ok [] p \<Longrightarrow> accounts (Some t) p (complete_in_idle (CB_user t) out p)"
  by (auto simp: accounts_def complete_in_idle_hand calls_of_hand is_caller_def)

lemma pop_hand:
  assumes "sending_queue p = elem # rest"
  shows "iq_ok (elem_callback elem # hand) (p\<lparr>sending_queue := rest\<rparr>) = iq_ok hand p"
    and "calls_of t (elem_callback elem # hand) (p\<lparr>sending_queue := rest\<rparr>) = calls_of t hand p"
  using assms
  by (auto simp: iq_ok_def outstanding_def iq_lookup_def calls_of_def completed_calls_def pending_calls_def)

lemma pop_idle_hand:
  assumes "po_idle p = (cb, out) # rest"
  shows "iq_ok (cb # hand) (p\<lparr>po_idle := rest\<rparr>) = iq_ok hand p"
    and "calls_of t (cb # hand) (p\<lparr>po_idle := rest\<rparr>) = calls_of t hand p"
  using assms
  by (auto simp: iq_ok_def outstanding_def iq_lookup_def calls_of_def completed_calls_def pending_calls_def)

lemma push_hand:
  "iq_ok hand (p\<lparr>sending_queue := sending_queue p @ [elem]\<rparr>) = iq_ok (elem_callback elem # hand) p"
  "calls_of t hand (p\<lparr>sending_queue := sending_queue p @ [elem]\<rparr>) = calls_of t (elem_callback elem # hand) p"
  by (auto simp: iq_ok_def outstanding_def iq_lookup_def calls_of_def completed_calls_def pending_calls_def)

lemma pop_complete:
  assumes "iq_ok [] p" "sending_queue p = elem # rest"
  shows "\<exists>q. complete_result (elem_callback elem) out (p\<lparr>sending_queue := rest\<rparr>) = Some q \<and> accounts None p q
    \<and> (\<exists>tab es. q = p\<lparr>sending_queue := rest, iq_reply_handlers := tab, po_events := po_events p @ es\<rparr>)"
proof -
  have "iq_ok [elem_callback elem] (p\<lparr>sending_queue := rest\<rparr>)" using pop_hand(1) [OF assms(2)] assms(1) by simp
  from complete_result_ok [OF this, of out] obtain q tab es where
    "complete_result (elem_callback elem) out (p\<lparr>sending_queue := rest\<rparr>) = Some q" "iq_ok [] q"
    "\<forall>t. calls_of t [] q = calls_of t [elem_callback elem] (p\<lparr>sending_queue := rest\<rparr>)"
    "q = p\<lparr>sending_queue := rest, iq_reply_handlers := tab, po_events := po_events p @ es\<rparr>"
    by auto
  then show ?thesis using pop_hand(2) [OF assms(2)] by (auto simp: accounts_def is_caller_def)
qed

lemma terminate_ok:
  assumes "iq_ok [] p"
  shows "\<exists>q. terminate_sending_operations err p = Some q \<and> accounts None p q
    \<and> (\<exists>tab es. q = p\<lparr>sending_queue := [], iq_reply_handlers := tab, po_events := po_events p @ es\<rparr>)"
proof -
  have "iq_ok [] p \<Longrightarrow> sending_queue p = els \<Longrightarrow> \<exists>q. terminate_elems err els p = Some q \<and> accounts None p q
    \<and> (\<exists>tab es. q = p\<lparr>sending_queue := [], iq_reply_handlers := tab, po_events := po_events p @ es\<rparr>)" for els p
  proof (induction els arbitrary: p)
    case Nil
    have "p = p\<lparr>sending_queue := [], iq_reply_handlers := iq_reply_handlers p, po_events := po_events p @ []\<rparr>"
      using Nil.prems(2) by simp
    then have "\<exists>tab es. p = p\<lparr>sending_queue := [], iq_reply_handlers := tab, po_events := po_events p @ es\<rparr>"
      by blast
    with Nil show ?case by (simp add: accounts_refl)
  next
    case (Cons e els)
    obtain q1 tab es where q1: "complete_result (elem_callback e) (P_error err) (p\<lparr>sending_queue := els\<rparr>) = Some q1"
      "accounts None p q1" "q1 = p\<lparr>sending_queue := els, iq_reply_handlers := tab, po_events := po_events p @ es\<rparr>"
      using pop_complete [OF Cons.prems] by blast
    have "iq_ok [] q1" "sending_queue q1 = els" using q1 by (auto simp: accounts_def)
    then obtain q tab2 es2 where q: "terminate_elems err els q1 = Some q" "accounts None q1 q"
      "q = q1\<lparr>sending_queue := [], iq_reply_handlers := tab2, po_events := po_events q1 @ es2\<rparr>"
      using Cons.IH by blast
    then have "q = p\<lparr>sending_queue := [], iq_reply_handlers := tab2, po_events := po_events p @ (es @ es2)\<rparr>"
      by (simp add: q1(3))
    moreover have "terminate_elems err (e # els) p = Some q" by (simp add: q1(1) q(1))
    moreover have "accounts None p q" by (rule accounts_trans [OF q1(2) q(2)])
    ultimately show ?case by blast
  qed
  with assms show ?thesis by (simp add: terminate_sending_operations_def)
qed

text \<open>Starting to send.\<close>

lemma send_async_ok:
  assumes "iq_ok (cb # hand) p" and "\<And>x. c = Some x \<Longrightarrow> x \<notin> set (po_cancelled p)"
  shows "\<exists>q. wocky_c2s_porter_send_async s c cb p = Some q \<and> iq_ok hand q
    \<and> (\<forall>t. calls_of t hand q = calls_of t (cb # hand) p)"
proof (cases "po_is_closing p")
  case True
  with assms show ?thesis by (simp add: wocky_c2s_porter_send_async_def complete_in_idle_hand)
next
  case False
  let ?elem = "\<lparr>elem_stanza = s, elem_cancellable = c, elem_callback = cb, elem_cancelled_sig_id = 0\<rparr>"
  let ?p1 = "p\<lparr>sending_queue := sending_queue p @ [?elem]\<rparr>"
  have "\<exists>q. wocky_c2s_porter_send_async s c cb p = Some q \<and> account_view q = account_view ?p1"
  proof (cases "length (sending_queue ?p1) = 1 \<and> \<not> sending_whitespace_ping p")
    case True
    then have "wocky_c2s_porter_send_async s c cb p = Some (send_head_stanza (po_emit [P_queued s] ?p1))"
      using False by (simp add: wocky_c2s_porter_send_async_def Let_def po_emit_def)
    then show ?thesis by (simp add: view_emit)
  next
    case F: False
    show ?thesis
    proof (cases c)
      case None
      with F False show ?thesis
        by (auto simp: wocky_c2s_porter_send_async_def Let_def po_emit_def account_view_def)
    next
      case (Some x)
      with F False assms(2) [OF Some] show ?thesis
        by (auto simp: wocky_c2s_porter_send_async_def Let_def po_emit_def account_view_def)
    qed
  qed
  then obtain q where "wocky_c2s_porter_send_async s c cb p = Some q" "account_view q = account_view ?p1" by blast
  with push_hand [where p = p and elem = ?elem] assms(1) account_view_cong [of q ?p1] show ?thesis by simp
qed

lemma send_plain_ok: "iq_ok [] p \<Longrightarrow> accounts None p (wocky_porter_send s p)"
  using send_async_ok [of CB_none "[]" p None s]
  by (auto simp: wocky_porter_send_def accounts_def is_caller_def calls_of_hand)

lemma new_handler_hand:
  assumes "iq_ok hand p" "iq_lookup i p = None" "\<not> iq_sent h" "entry_ok (po_cancelled p) h"
  shows "iq_ok (CB_iq_sent i # hand) (p\<lparr>iq_reply_handlers := (i, h) # iq_reply_handlers p\<rparr>)"
    and "calls_of t (CB_iq_sent i # hand) (p\<lparr>iq_reply_handlers := (i, h) # iq_reply_handlers p\<rparr>) =
      calls_of t hand p + is_caller t (iq_result h)"
proof -
  have "i \<notin> fst ` set (iq_reply_handlers p)"
    using assms(2) by (simp add: iq_lookup_def map_of_eq_None_iff)
  with assms show "iq_ok (CB_iq_sent i # hand) (p\<lparr>iq_reply_handlers := (i, h) # iq_reply_handlers p\<rparr>)"
    by (auto simp: iq_ok_def outstanding_def iq_lookup_def)
  show "calls_of t (CB_iq_sent i # hand) (p\<lparr>iq_reply_handlers := (i, h) # iq_reply_handlers p\<rparr>) =
      calls_of t hand p + is_caller t (iq_result h)"
    by (simp add: calls_of_def completed_calls_def pending_calls_def outstanding_def pending_iqs_def is_caller_def)
qed

lemma send_iq_ok:
  assumes "iq_ok [] p" and "\<And>x. c = Some x \<Longrightarrow> x \<notin> set (po_cancelled p)"
    and "\<exists>i \<in> set ids. iq_lookup i p = None"
  shows "\<exists>q. wocky_c2s_porter_send_iq_async env ids s c t p = Some q \<and> accounts (Some t) p q"
proof -
  let ?ty = "wocky_stanza_get_type_info s"
  let ?bad = "fst ?ty \<noteq> WOCKY_STANZA_TYPE_IQ
    \<or> snd ?ty \<noteq> WOCKY_STANZA_SUB_TYPE_GET \<and> snd ?ty \<noteq> WOCKY_STANZA_SUB_TYPE_SET"
  obtain i where i: "find (\<lambda>i. iq_lookup i p = None) ids = Some i"
    using assms(3) by (cases "find (\<lambda>i. iq_lookup i p = None) ids") (auto simp: find_None_all)
  then have fresh: "iq_lookup i p = None" using find_Some_in by fast
  show ?thesis
  proof (cases "po_is_closing p \<or> ?bad")
    case True
    with accounts_idle [OF assms(1)] show ?thesis
      by (auto simp: wocky_c2s_porter_send_iq_async_def split_beta)
  next
    case False
    define h where "h = stanza_iq_handler_new env t c (wocky_node_get_attribute s ''to'')"
    define sig where "sig = (if c = None then 0 else po_next_sig p)"
    define p1 where "p1 = p\<lparr>po_next_sig := (if c = None then po_next_sig p else po_next_sig p + 1)\<rparr>"
    have v: "account_view p1 = account_view p" by (simp add: p1_def)
    define h1 where "h1 = h\<lparr>iq_cancelled_sig_id := sig\<rparr>"
    have eq: "wocky_c2s_porter_send_iq_async env ids s c t p =
      wocky_c2s_porter_send_async (wocky_node_set_attribute s ''id'' i) c (CB_iq_sent i)
        (p1\<lparr>iq_reply_handlers := (i, h1) # iq_reply_handlers p1\<rparr>)"
      using False i assms(2)
      by (auto simp: wocky_c2s_porter_send_iq_async_def split_beta Let_def h_def h1_def p1_def sig_def
          stanza_iq_handler_new_def split: option.split)
    have ok1: "iq_ok [] p1" using account_view_cong(1) [OF v] assms(1) by simp
    have h1: "\<not> iq_sent h1" "iq_result h1 = Some t" "entry_ok (po_cancelled p1) h1"
      by (auto simp: h1_def h_def stanza_iq_handler_new_def entry_ok_def sig_def)
    have l: "iq_lookup i p1 = None" using fresh by (simp add: p1_def iq_lookup_def)
    note new = new_handler_hand [OF ok1 l h1(1,3)]
    have "\<exists>q. wocky_c2s_porter_send_async (wocky_node_set_attribute s ''id'' i) c (CB_iq_sent i)
        (p1\<lparr>iq_reply_handlers := (i, h1) # iq_reply_handlers p1\<rparr>) = Some q \<and> iq_ok [] q
      \<and> (\<forall>u. calls_of u [] q = calls_of u [CB_iq_sent i] (p1\<lparr>iq_reply_handlers := (i, h1) # iq_reply_handlers p1\<rparr>))"
      by (rule send_async_ok [OF new(1)]) (use assms(2) in \<open>simp add: p1_def\<close>)
    then show ?thesis
      using new(2) account_view_cong(2) [OF v] h1(2) by (auto simp: eq accounts_def)
  qed
qed

text \<open>Cancelling.\<close>

lemma put_handler_other: "j \<noteq> i \<Longrightarrow> map_of (put_handler i h tab) j = map_of tab j"
proof -
  assume n: "j \<noteq> i"
  have "map_of (map (\<lambda>(j, g). if j = i then (j, h) else (j, g)) tab) j = map_of tab j"
    using n by (induction tab) auto
  moreover have "map_of (filter (\<lambda>(j, _). j \<noteq> i) u) j = map_of u j" for u :: "(string \<times> StanzaIqHandler) list"
    using n by (induction u) auto
  ultimately show ?thesis by (simp add: put_handler_def Let_def)
qed

lemma send_iq_cancelled_ok:
  assumes "iq_ok [] p" and "iq_lookup i p = Some h" "iq_result h = Some r" "iq_cancellable h = Some c"
    and "c \<in> set (po_cancelled p)"
  shows "\<exists>tab. send_iq_cancelled_cb i p =
      Some (p\<lparr>iq_reply_handlers := tab, po_idle := po_idle p @ [(CB_user r, P_error G_IO_ERROR_CANCELLED)]\<rparr>)
    \<and> accounts None p (p\<lparr>iq_reply_handlers := tab, po_idle := po_idle p @ [(CB_user r, P_error G_IO_ERROR_CANCELLED)]\<rparr>)
    \<and> (\<forall>j. j \<noteq> i \<longrightarrow> map_of tab j = iq_lookup j p)"
proof -
  let ?h = "h\<lparr>iq_result := None\<rparr>"
  let ?tab = "put_handler i ?h (iq_reply_handlers p)"
  let ?q = "p\<lparr>iq_reply_handlers := ?tab, po_idle := po_idle p @ [(CB_user r, P_error G_IO_ERROR_CANCELLED)]\<rparr>"
  have d: "distinct (map fst (iq_reply_handlers p))" and m: "map_of (iq_reply_handlers p) i = Some h"
    and e: "\<forall>(j, g) \<in> set (iq_reply_handlers p). entry_ok (po_cancelled p) g"
    and n: "\<And>j. outstanding p (CB_iq_sent j) = expected (iq_lookup j p)"
    using assms(1,2) by (simp_all add: iq_ok_def iq_lookup_def)
  note put = put_handler_table [OF d m, where h' = ?h]
  have "\<not> (iq_sent ?h \<and> iq_result ?h = None) \<Longrightarrow> entry_ok (po_cancelled p) ?h"
    using assms(4,5) by (simp add: entry_ok_def)
  with put(4) [OF e] have e2: "\<forall>(j, g) \<in> set ?tab. entry_ok (po_cancelled p) g" by blast
  have o: "outstanding ?q (CB_iq_sent j) = outstanding p (CB_iq_sent j)"
    "outstanding ?q (CB_user t) = outstanding p (CB_user t) + is_caller t (Some r)" for j t
    by (simp_all add: outstanding_def is_caller_def)
  have "outstanding p (CB_iq_sent j) = expected (map_of ?tab j)" for j
    using n [of j] m by (simp add: put(2) iq_lookup_def split: if_splits)
  then have "iq_ok [] ?q" using put(1) e2 by (simp add: iq_ok_def o iq_lookup_def)
  moreover have "calls_of t [] ?q = calls_of t [] p" for t
    using put(3) [of t] assms(3) o(2) [of t]
    by (simp add: calls_of_def completed_calls_def pending_calls_def is_caller_def)
  moreover have "send_iq_cancelled_cb i p = Some ?q"
    using assms(2,3) by (simp add: send_iq_cancelled_cb_def maybe_remove_put Let_def)
  moreover have "map_of ?tab j = iq_lookup j p" if "j \<noteq> i" for j
    using put_handler_other [OF that] by (simp add: iq_lookup_def)
  ultimately show ?thesis by (auto simp: accounts_def is_caller_def)
qed

lemma delete_first_split:
  "find P xs = Some x \<Longrightarrow> \<exists>ys zs. xs = ys @ x # zs \<and> delete_first P xs = ys @ zs \<and> P x \<and> (\<forall>y \<in> set ys. \<not> P y)"
proof (induction xs)
  case (Cons y xs)
  show ?case
  proof (cases "P y")
    case True
    with Cons.prems show ?thesis by (intro exI [of _ "[]"] exI [of _ xs]) auto
  next
    case False
    with Cons obtain ys zs where "xs = ys @ x # zs" "delete_first P xs = ys @ zs" "P x" "\<forall>y \<in> set ys. \<not> P y"
      by auto
    with False show ?thesis by (intro exI [of _ "y # ys"] exI [of _ zs]) auto
  qed
qed simp

lemma send_cancelled_ok:
  assumes "iq_ok [] p"
  shows "accounts None p (send_cancelled_cb sig p)"
proof (cases "find (\<lambda>elem. elem_cancelled_sig_id elem = sig) (sending_queue p)")
  case None
  with assms show ?thesis by (simp add: send_cancelled_cb_def accounts_refl)
next
  case (Some e)
  from delete_first_split [OF this] obtain ys zs where
    q: "sending_queue p = ys @ e # zs" "delete_first (\<lambda>elem. elem_cancelled_sig_id elem = sig) (sending_queue p) = ys @ zs"
    by blast
  let ?q = "p\<lparr>sending_queue := ys @ zs\<rparr>"
  have o: "outstanding p x = outstanding ?q x + (if elem_callback e = x then 1 else 0)" for x
    by (simp add: outstanding_def q(1))
  have n: "outstanding p (CB_iq_sent i) = expected (iq_lookup i p)" for i using assms by (simp add: iq_ok_def)
  have "outstanding ?q (CB_iq_sent i) + count_list [elem_callback e] (CB_iq_sent i) = expected (iq_lookup i p)" for i
    using n [of i] o [of "CB_iq_sent i"] by (simp split: if_splits)
  with assms have "iq_ok [elem_callback e] ?q" by (simp add: iq_ok_def iq_lookup_def)
  moreover have "calls_of t [elem_callback e] ?q = calls_of t [] p" for t
    using o [of "CB_user t"] by (simp add: calls_of_def completed_calls_def pending_calls_def split: if_splits)
  ultimately show ?thesis
    by (simp add: send_cancelled_cb_def Some q(2) accounts_def is_caller_def complete_in_idle_hand)
qed

lemma emit_cancelled_ok:
  assumes "iq_ok [] p" and "c \<in> set (po_cancelled p)" and "distinct (List.map_filter snd cs)"
    and "\<And>i. i \<in> set (List.map_filter snd cs) \<Longrightarrow>
      \<exists>h. iq_lookup i p = Some h \<and> iq_result h \<noteq> None \<and> iq_cancellable h = Some c"
  shows "\<exists>q. emit_cancelled cs p = Some q \<and> accounts None p q"
  using assms
proof (induction cs p rule: emit_cancelled.induct)
  case (1 p)
  then show ?case by (simp add: accounts_refl)
next
  case (2 sig cs p)
  let ?p1 = "send_cancelled_cb sig p"
  have a: "accounts None p ?p1" by (rule send_cancelled_ok [OF 2(2)])
  have f: "po_cancelled ?p1 = po_cancelled p" "iq_lookup i ?p1 = iq_lookup i p" for i
    by (simp_all add: send_cancelled_cb_def complete_in_idle_def iq_lookup_def split: option.split)
  have "\<exists>q. emit_cancelled cs ?p1 = Some q \<and> accounts None ?p1 q"
    by (rule 2(1)) (use a 2(3-5) f in \<open>auto simp: accounts_def List.map_filter_simps\<close>)
  with a show ?case using accounts_trans by (simp only: emit_cancelled.simps) blast
next
  case (3 sig i cs p)
  from 3(5) [of i] obtain h r where h: "iq_lookup i p = Some h" "iq_result h = Some r" "iq_cancellable h = Some c"
    by (auto simp: List.map_filter_simps)
  obtain tab where t: "send_iq_cancelled_cb i p =
      Some (p\<lparr>iq_reply_handlers := tab, po_idle := po_idle p @ [(CB_user r, P_error G_IO_ERROR_CANCELLED)]\<rparr>)"
    "accounts None p (p\<lparr>iq_reply_handlers := tab, po_idle := po_idle p @ [(CB_user r, P_error G_IO_ERROR_CANCELLED)]\<rparr>)"
    "\<forall>j. j \<noteq> i \<longrightarrow> map_of tab j = iq_lookup j p"
    using send_iq_cancelled_ok [OF 3(2) h 3(3)] by blast
  let ?p1 = "p\<lparr>iq_reply_handlers := tab, po_idle := po_idle p @ [(CB_user r, P_error G_IO_ERROR_CANCELLED)]\<rparr>"
  have "\<exists>q. emit_cancelled cs ?p1 = Some q \<and> accounts None ?p1 q"
  proof (rule 3(1) [OF t(1)])
    show "iq_ok [] ?p1" using t(2) by (simp add: accounts_def)
    show "c \<in> set (po_cancelled ?p1)" using 3(3) by simp
    show "distinct (List.map_filter snd cs)" using 3(4) by (simp add: List.map_filter_simps)
    show "\<exists>h. iq_lookup j ?p1 = Some h \<and> iq_result h \<noteq> None \<and> iq_cancellable h = Some c"
      if "j \<in> set (List.map_filter snd cs)" for j
    proof -
      have "j \<noteq> i" using that 3(4) by (auto simp: List.map_filter_simps)
      with that 3(5) [of j] t(3) show ?thesis by (auto simp: iq_lookup_def List.map_filter_simps)
    qed
  qed
  then obtain q where "emit_cancelled cs ?p1 = Some q" "accounts None ?p1 q" by blast
  moreover from this t(1) have "emit_cancelled ((sig, Some i) # cs) p = Some q" by simp
  ultimately show ?case using accounts_trans [OF t(2)] by blast
qed

lemma connections_ids:
  "List.map_filter snd (iq_connections c tab @ elem_connections c q) =
     map fst (filter (\<lambda>(i, h). iq_cancellable h = Some c \<and> iq_cancelled_sig_id h \<noteq> 0) tab)"
proof -
  have "List.map_filter snd (iq_connections c tab) =
     map fst (filter (\<lambda>(i, h). iq_cancellable h = Some c \<and> iq_cancelled_sig_id h \<noteq> 0) tab)"
    by (induction tab) (auto simp: iq_connections_def List.map_filter_simps)
  moreover have "List.map_filter snd (elem_connections c q) = []"
    by (induction q) (auto simp: elem_connections_def List.map_filter_simps)
  ultimately show ?thesis by (simp add: List.map_filter_def)
qed

lemma cancel_ok:
  assumes "iq_ok [] p"
  shows "\<exists>q. g_cancellable_cancel c p = Some q \<and> accounts None p q"
proof (cases "c \<in> set (po_cancelled p)")
  case True
  with assms show ?thesis by (simp add: g_cancellable_cancel_def accounts_refl)
next
  case False
  let ?p = "p\<lparr>po_cancelled := c # po_cancelled p\<rparr>"
  let ?cs = "sort_key fst (iq_connections c (iq_reply_handlers p) @ elem_connections c (sending_queue p))"
  have m: "mset (List.map_filter snd ?cs) =
      mset (List.map_filter snd (iq_connections c (iq_reply_handlers p) @ elem_connections c (sending_queue p)))"
    by (simp add: List.map_filter_def mset_filter)
  from mset_eq_setD [OF this] have s: "set (List.map_filter snd ?cs) =
      fst ` set (filter (\<lambda>(i, h). iq_cancellable h = Some c \<and> iq_cancelled_sig_id h \<noteq> 0) (iq_reply_handlers p))"
    unfolding connections_ids by simp
  have d: "distinct (map fst (iq_reply_handlers p))"
    and e: "\<forall>(i, h) \<in> set (iq_reply_handlers p). entry_ok (po_cancelled p) h"
    using assms by (simp_all add: iq_ok_def)
  have ok: "iq_ok [] ?p" "\<And>t. calls_of t [] ?p = calls_of t [] p"
    using assms by (force simp: iq_ok_def outstanding_def iq_lookup_def entry_ok_def calls_of_def
        completed_calls_def pending_calls_def)+
  have "\<exists>q. emit_cancelled ?cs ?p = Some q \<and> accounts None ?p q"
  proof (rule emit_cancelled_ok [OF ok(1), where c = c])
    show "c \<in> set (po_cancelled ?p)" by simp
    have "distinct (List.map_filter snd (iq_connections c (iq_reply_handlers p) @ elem_connections c (sending_queue p)))"
      unfolding connections_ids using d by (simp add: distinct_map_filter)
    then show "distinct (List.map_filter snd ?cs)"
      using m mset_eq_imp_distinct_iff by blast
    show "\<exists>h. iq_lookup i ?p = Some h \<and> iq_result h \<noteq> None \<and> iq_cancellable h = Some c"
      if i: "i \<in> set (List.map_filter snd ?cs)" for i
    proof -
      from i obtain h where h: "(i, h) \<in> set (iq_reply_handlers p)" "iq_cancellable h = Some c" "iq_cancelled_sig_id h \<noteq> 0"
        unfolding s by auto
      with e have "entry_ok (po_cancelled p) h" by auto
      with h False have "iq_result h \<noteq> None" by (auto simp: entry_ok_def)
      with h d show ?thesis by (auto simp: iq_lookup_def)
    qed
  qed
  with False ok(2) show ?thesis by (auto simp: g_cancellable_cancel_def accounts_def)
qed

text \<open>The connection is lost.\<close>

lemma abort_table:
  fixes tab :: "(string \<times> StanzaIqHandler) list" and err :: porter_error
  defines "new \<equiv> map abort_handler (filter (\<lambda>(i, h). \<not> (iq_result h \<noteq> None \<and> iq_sent h)) tab)"
    and "idle \<equiv> concat (map (\<lambda>(i, h). case iq_result h of None \<Rightarrow> [] | Some r \<Rightarrow> [(CB_user r, P_error err)]) tab)"
  shows "count_list (map fst idle) (CB_iq_sent i) = 0"
    and "count_list (map fst idle) (CB_user t) = pending_iqs t tab"
    and "pending_iqs t new = 0"
    and "distinct (map fst tab) \<Longrightarrow> distinct (map fst new)"
    and "distinct (map fst tab) \<Longrightarrow> expected (map_of new i) = expected (map_of tab i)"
    and "\<forall>(i, h) \<in> set tab. entry_ok c h \<Longrightarrow> \<forall>(i, h) \<in> set new. entry_ok c h"
proof -
  have f: "fst (abort_handler x) = fst x" "iq_result (snd (abort_handler x)) = None"
    "iq_sent (snd (abort_handler x)) = iq_sent (snd x)" for x
    by (cases x; simp add: abort_handler_def stanza_iq_handler_remove_cancellable_def)+
  show "count_list (map fst idle) (CB_iq_sent i) = 0"
    unfolding idle_def by (induction tab) (auto split: option.split)
  show "count_list (map fst idle) (CB_user t) = pending_iqs t tab"
    unfolding idle_def by (induction tab) (auto simp: pending_iqs_def split: option.split)
  show "pending_iqs t new = 0"
    unfolding new_def by (induction tab) (auto simp: pending_iqs_def f split_beta)
  show "distinct (map fst new)" if "distinct (map fst tab)"
    using that unfolding new_def by (induction tab) (auto simp: f)
  show "expected (map_of new i) = expected (map_of tab i)" if "distinct (map fst tab)"
    using that unfolding new_def
  proof (induction tab)
    case (Cons x tab)
    obtain j h where x: "x = (j, h)" by (cases x)
    have "j = i \<Longrightarrow> map_of tab i = None" using Cons.prems x by (auto simp: map_of_eq_None_iff)
    with Cons f(1,3) [of x] show ?case
      by (cases "abort_handler x") (auto simp: x)
  qed simp
  show "\<forall>(i, h) \<in> set new. entry_ok c h" if "\<forall>(i, h) \<in> set tab. entry_ok c h"
    using that
    by (auto simp: new_def abort_handler_def entry_ok_def stanza_iq_handler_remove_cancellable_def split: if_splits)
qed

lemma abort_ok:
  assumes "iq_ok [] p"
  shows "accounts None p (abort_pending_iqs err p)"
proof -
  note tab = abort_table [where tab = "iq_reply_handlers p"]
  have "iq_ok [] (abort_pending_iqs err p)"
    using assms tab(4) tab(5) tab(6) [where c = "po_cancelled p"]
    by (simp add: iq_ok_def outstanding_def tab(1) iq_lookup_def abort_pending_iqs_def del: map_map)
  moreover have "calls_of t [] (abort_pending_iqs err p) = calls_of t [] p" for t
    using tab(3) [of t]
    by (simp add: calls_of_def completed_calls_def pending_calls_def outstanding_def abort_pending_iqs_def
        tab(2) del: map_concat map_map)
  ultimately show ?thesis by (simp add: accounts_def is_caller_def)
qed

lemma complete_close_ok: "iq_ok [] p \<Longrightarrow> accounts None p (complete_close err p)"
  by (auto simp: complete_close_def Let_def accounts_def iq_ok_def outstanding_def iq_lookup_def po_emit_def
      calls_of_def completed_calls_def pending_calls_def is_caller_def split: option.split)

lemma remote_closed_ok:
  assumes "iq_ok [] p"
  shows "accounts None p (remote_connection_closed err p)"
proof -
  let ?p2 = "po_emit [if err \<noteq> WOCKY_XMPP_CONNECTION_ERROR_CLOSED then P_remote_error err else P_remote_closed]
    ((abort_pending_iqs err p)\<lparr>remote_closed := True\<rparr>)"
  have a: "accounts None p (abort_pending_iqs err p)" by (rule abort_ok [OF assms])
  then have ok: "iq_ok [] (abort_pending_iqs err p)" by (simp add: accounts_def)
  have "account_view ?p2 = account_view (abort_pending_iqs err p)" by (simp add: view_emit)
  from accounts_trans [OF a accounts_same [OF ok this]] have b: "accounts None p ?p2" .
  then have ok2: "iq_ok [] ?p2" by (simp add: accounts_def)
  let ?p3 = "if close_result ?p2 \<noteq> None \<and> local_closed ?p2
    then complete_close (if err \<noteq> WOCKY_XMPP_CONNECTION_ERROR_CLOSED then Some err else None) ?p2 else ?p2"
  have c: "accounts None ?p2 ?p3" using complete_close_ok [OF ok2] accounts_refl [OF ok2] by simp
  then have "iq_ok [] ?p3" by (simp add: accounts_def)
  from accounts_same [OF this, of "?p3\<lparr>receive_cancellable := False\<rparr>"]
  have "accounts None ?p3 (?p3\<lparr>receive_cancellable := False\<rparr>)" by simp
  with b c have "accounts None p (?p3\<lparr>receive_cancellable := False\<rparr>)" by (blast intro: accounts_trans)
  then show ?thesis by (simp only: remote_connection_closed_def Let_def)
qed

text \<open>Incoming stanzas.\<close>

lemma handle_iq_reply_form:
  assumes "iq_ok [] p"
  obtains "snd (handle_iq_reply env reply p) = p"
  | i h r where "iq_lookup i p = Some h" "iq_result h = Some r"
    "snd (handle_iq_reply env reply p) =
      p\<lparr>iq_reply_handlers :=
          put_handler i (stanza_iq_handler_remove_cancellable (h\<lparr>iq_result := None\<rparr>)) (iq_reply_handlers p),
        po_events := po_events p @ [P_completed r (P_reply reply)]\<rparr>"
proof (cases "\<exists>i h r. wocky_node_get_attribute reply ''id'' = Some i \<and> iq_lookup i p = Some h
    \<and> check_spoofing env p reply (iq_recipient h) \<and> iq_result h = Some r")
  case False
  then have "snd (handle_iq_reply env reply p) = p"
    using assms
    by (auto simp: handle_iq_reply_def stanza_iq_handler_maybe_remove_def iq_ok_def entry_ok_def iq_lookup_def
        dest!: map_of_SomeD split: option.splits)
  with that show ?thesis by blast
next
  case True
  then obtain i h r where h: "wocky_node_get_attribute reply ''id'' = Some i" "iq_lookup i p = Some h"
    "check_spoofing env p reply (iq_recipient h)" "iq_result h = Some r" by blast
  then have "snd (handle_iq_reply env reply p) =
      p\<lparr>iq_reply_handlers :=
          put_handler i (stanza_iq_handler_remove_cancellable (h\<lparr>iq_result := None\<rparr>)) (iq_reply_handlers p),
        po_events := po_events p @ [P_completed r (P_reply reply)]\<rparr>"
    by (simp add: handle_iq_reply_def Let_def maybe_remove_put)
  with that h show ?thesis by blast
qed

lemma handle_iq_reply_ok:
  assumes "iq_ok [] p"
  shows "accounts None p (snd (handle_iq_reply env reply p))"
  using assms
proof (cases rule: handle_iq_reply_form [of p env reply])
  case 1
  with accounts_refl [OF assms] show ?thesis by simp
next
  case (2 i h r)
  let ?h = "stanza_iq_handler_remove_cancellable (h\<lparr>iq_result := None\<rparr>)"
  let ?tab = "put_handler i ?h (iq_reply_handlers p)"
  note h = 2(1,2) and q = 2(3)
  have d: "distinct (map fst (iq_reply_handlers p))" and m: "map_of (iq_reply_handlers p) i = Some h"
    and e: "\<forall>(j, g) \<in> set (iq_reply_handlers p). entry_ok (po_cancelled p) g"
    and n: "\<And>j. outstanding p (CB_iq_sent j) = expected (iq_lookup j p)"
    using assms h(1) by (simp_all add: iq_ok_def iq_lookup_def)
  have h': "iq_sent ?h = iq_sent h" "iq_result ?h = None"
    by (simp_all add: stanza_iq_handler_remove_cancellable_def)
  note put = put_handler_table [OF d m, where h' = ?h]
  have "entry_ok (po_cancelled p) h" using e map_of_SomeD [OF m] by auto
  then have "\<not> (iq_sent ?h \<and> iq_result ?h = None) \<Longrightarrow> entry_ok (po_cancelled p) ?h"
    by (auto simp: entry_ok_def stanza_iq_handler_remove_cancellable_def split: if_splits)
  with put(4) [OF e] have e2: "\<forall>(j, g) \<in> set ?tab. entry_ok (po_cancelled p) g" by blast
  have "outstanding p (CB_iq_sent j) = expected (map_of ?tab j)" for j
    using n [of j] m h'(1) by (simp add: put(2) iq_lookup_def split: if_splits)
  with put(1) e2 have "iq_ok [] (snd (handle_iq_reply env reply p))"
    by (simp add: q iq_ok_def iq_lookup_def)
  moreover have "calls_of t [] (snd (handle_iq_reply env reply p)) = calls_of t [] p" for t
    using calls_frame [where t = t and hand = "[]" and p = p and tab = ?tab
        and es = "[P_completed r (P_reply reply)]"] put(3) [of t] h(2) h'(2)
    by (auto simp: q is_caller_def split: if_splits)
  ultimately show ?thesis by (simp add: accounts_def is_caller_def)
qed

lemma accounts_emit: "iq_ok [] p \<Longrightarrow> (\<And>t. completed_in t es = 0) \<Longrightarrow> accounts None p (po_emit es p)"
  by (rule accounts_same) (simp_all add: view_emit)

lemma accounts_ok: "accounts tok p q \<Longrightarrow> iq_ok [] q"
  by (simp add: accounts_def)

lemma call_handler_ok: "iq_ok [] p \<Longrightarrow> accounts None p (snd (call_handler env s h p))"
  by (cases "sh_callback h")
    (auto simp: call_handler_def handle_iq_reply_ok handle_stream_error_def remote_closed_ok accounts_refl
      accounts_emit)

lemma handler_loop_ok: "iq_ok [] p \<Longrightarrow> accounts None p (snd (handler_loop env applies s hs p))"
proof (induction hs arbitrary: p)
  case (Cons x hs)
  obtain i h where x: "x = (i, h)" by (cases x)
  have c: "accounts None p (snd (call_handler env s h p))" by (rule call_handler_ok [OF Cons.prems])
  have "accounts None (snd (call_handler env s h p)) (snd (handler_loop env applies s hs (snd (call_handler env s h p))))"
    by (rule Cons.IH [OF accounts_ok [OF c]])
  with c accounts_trans Cons show ?case by (auto simp: x split_beta Let_def)
qed (simp add: accounts_refl)

lemma handle_stanza_ok:
  assumes "iq_ok [] p"
  shows "accounts None p (handle_stanza env s p)"
proof -
  let ?p = "po_emit [P_dispatch s] p"
  let ?q = "snd (handler_loop env (stanza_applies env ?p s) s (po_handlers ?p) ?p)"
  have a: "accounts None p ?p" using assms by (simp add: accounts_emit)
  have b: "accounts None p ?q" using accounts_trans [OF a handler_loop_ok [OF accounts_ok [OF a]]] .
  have c: "accounts None p (wocky_porter_send_iq_error s e ?q)" for e
    using accounts_trans [OF b send_plain_ok [OF accounts_ok [OF b]]] b
    by (auto simp: wocky_porter_send_iq_error_def split: option.split)
  show ?thesis using b c by (auto simp: handle_stanza_def Let_def split_beta)
qed

lemma flush_ok: "iq_ok [] p \<Longrightarrow> accounts None p (flush_stanzas env ss p)"
proof (induction ss arbitrary: p)
  case (Cons s ss)
  have a: "accounts None p (p\<lparr>unimportant_queue := ss\<rparr>)" by (rule accounts_same [OF Cons.prems]) simp
  have b: "accounts None p (handle_stanza env s (p\<lparr>unimportant_queue := ss\<rparr>))"
    by (rule accounts_trans [OF a handle_stanza_ok [OF accounts_ok [OF a]]])
  show ?case using accounts_trans [OF b Cons.IH [OF accounts_ok [OF b]]] by simp
qed (simp add: accounts_refl)

lemma queue_or_handle_ok:
  assumes "iq_ok [] p"
  shows "accounts None p (queue_or_handle_stanza env s p)"
proof -
  have f: "accounts None p (flush_unimportant_queue env p)"
    by (simp add: flush_unimportant_queue_def flush_ok [OF assms])
  have "accounts None p (p\<lparr>unimportant_queue := unimportant_queue p @ [s]\<rparr>)"
    by (rule accounts_same [OF assms]) simp
  then show ?thesis
    using accounts_trans [OF f handle_stanza_ok [OF accounts_ok [OF f]]] handle_stanza_ok [OF assms]
    by (simp add: queue_or_handle_stanza_def)
qed

lemma power_saving_ok:
  assumes "iq_ok [] p"
  shows "accounts None p (wocky_c2s_porter_enable_power_saving_mode env b p)"
proof -
  let ?q = "if power_saving_mode p \<and> \<not> b then flush_unimportant_queue env p else p"
  have a: "accounts None p ?q"
    using flush_ok [OF assms] accounts_refl [OF assms] by (simp add: flush_unimportant_queue_def)
  have "accounts None ?q (?q\<lparr>power_saving_mode := b\<rparr>)" by (rule accounts_same [OF accounts_ok [OF a]]) simp
  from accounts_trans [OF a this] show ?thesis
    by (simp only: wocky_c2s_porter_enable_power_saving_mode_def Let_def)
qed

lemma received_ok:
  assumes "iq_ok [] p"
  shows "accounts None p (stanza_received_cb env res p)"
proof -
  let ?p = "p\<lparr>po_reading := False\<rparr>"
  have a: "accounts None p ?p" by (rule accounts_same [OF assms]) simp
  note ok = accounts_ok [OF a]
  have step: "accounts None p q \<Longrightarrow> account_view r = account_view q \<Longrightarrow> accounts None p r" for q r
    using accounts_trans accounts_same accounts_ok by blast
  show ?thesis
  proof (cases res)
    case (Inl err)
    have "accounts None p (remote_connection_closed err ?p)"
      by (rule accounts_trans [OF a remote_closed_ok [OF ok]])
    with a step [OF a, of "start_force_close ?p"] Inl show ?thesis
      by (simp add: stanza_received_cb_def start_force_close_def Let_def)
  next
    case (Inr s)
    let ?q = "queue_or_handle_stanza env s ?p"
    have "accounts None p ?q" by (rule accounts_trans [OF a queue_or_handle_ok [OF ok]])
    with step [OF this, of "receive_stanza ?q"] step [OF this, of "start_force_close ?q"] Inr show ?thesis
      by (simp add: stanza_received_cb_def start_force_close_def receive_stanza_def Let_def)
  qed
qed

text \<open>Writes that have ended.\<close>

lemma send_stanza_cb_ok:
  assumes "iq_ok [] p"
  shows "\<exists>q. send_stanza_cb err p = Some q \<and> accounts None p q"
proof -
  let ?p = "p\<lparr>po_writes := remove1 W_stanza (po_writes p)\<rparr>"
  have a: "accounts None p ?p" by (rule accounts_same [OF assms]) simp
  note ok = accounts_ok [OF a]
  have step: "accounts None p q \<Longrightarrow> account_view r = account_view q \<Longrightarrow> accounts None p r" for q r
    using accounts_trans accounts_same accounts_ok by blast
  show ?thesis
  proof (cases err)
    case (Some e)
    obtain q where q: "terminate_sending_operations e ?p = Some q" "accounts None ?p q"
      using terminate_ok [OF ok] by blast
    with step [OF accounts_trans [OF a q(2)], of "close_if_waiting q"] Some show ?thesis
      by (simp add: send_stanza_cb_def)
  next
    case None
    show ?thesis
    proof (cases "sending_queue ?p")
      case Nil
      with None a show ?thesis by (simp add: send_stanza_cb_def)
    next
      case (Cons e es)
      obtain q where q: "complete_result (elem_callback e) P_ok (?p\<lparr>sending_queue := es\<rparr>) = Some q" "accounts None ?p q"
        using pop_complete [OF ok Cons] by blast
      note s = step [OF accounts_trans [OF a q(2)]]
      show ?thesis
        using s [of "close_if_waiting (send_head_stanza q)"] s [of "close_if_waiting q"] None Cons q(1)
        by (auto simp: send_stanza_cb_def)
    qed
  qed
qed

lemma iq_ok_results [simp]:
  "iq_ok hand (p\<lparr>close_result := r\<rparr>) = iq_ok hand p"
  "iq_ok hand (p\<lparr>force_close_result := r\<rparr>) = iq_ok hand p"
  "iq_ok hand (p\<lparr>close_cancellable := c\<rparr>) = iq_ok hand p"
  "iq_ok hand (p\<lparr>force_close_cancellable := c\<rparr>) = iq_ok hand p"
  "iq_ok hand (p\<lparr>po_writes := ws\<rparr>) = iq_ok hand p"
  "iq_ok hand (p\<lparr>sending_whitespace_ping := b\<rparr>) = iq_ok hand p"
  "iq_ok hand (po_emit es p) = iq_ok hand p"
  by (simp_all add: iq_ok_def outstanding_def iq_lookup_def po_emit_def)

lemma calls_results:
  "calls_of u hand (p\<lparr>force_close_result := r\<rparr>) + is_caller u (force_close_result p) =
     calls_of u hand p + is_caller u r"
  "calls_of u hand (p\<lparr>close_result := r\<rparr>) + is_caller u (close_result p) =
     calls_of u hand p + is_caller u r"
  "calls_of u hand (p\<lparr>force_close_cancellable := c\<rparr>) = calls_of u hand p"
  "calls_of u hand (p\<lparr>close_cancellable := c\<rparr>) = calls_of u hand p"
  by (simp_all add: calls_of_def completed_calls_def pending_calls_def outstanding_def)

lemma remove_ping_calls:
  assumes "W_ping t \<in> set (po_writes p)"
  shows "calls_of u hand (p\<lparr>po_writes := remove1 (W_ping t) (po_writes p), sending_whitespace_ping := b\<rparr>) + is_caller u (Some t)
    = calls_of u hand p"
proof -
  have "0 < count_list (po_writes p) (W_ping t)" using assms count_list_0_iff [of "po_writes p" "W_ping t"] by simp
  then show ?thesis
    by (auto simp: calls_of_def completed_calls_def pending_calls_def outstanding_def is_caller_def)
qed

lemma ping_cb_ok:
  assumes "iq_ok [] p" and "W_ping t \<in> set (po_writes p)"
  shows "\<exists>q. send_whitespace_ping_cb t err p = Some q \<and> accounts None p q"
proof -
  let ?p = "p\<lparr>po_writes := remove1 (W_ping t) (po_writes p), sending_whitespace_ping := False\<rparr>"
  have a: "accounts None p (po_emit [P_completed t out] ?p)" for out
  proof -
    have "calls_of u [] (po_emit [P_completed t out] ?p) = calls_of u [] p" for u
      using remove_ping_calls [OF assms(2), of u "[]" False] by (simp add: calls_of_emit is_caller_def)
    with assms(1) show ?thesis by (simp add: accounts_def is_caller_def)
  qed
  have step: "accounts None p q \<Longrightarrow> account_view r = account_view q \<Longrightarrow> accounts None p r" for q r
    using accounts_trans accounts_same accounts_ok by blast
  show ?thesis
  proof (cases err)
    case (Some e)
    obtain q where q: "terminate_sending_operations e (po_emit [P_completed t (P_error e)] ?p) = Some q"
      "accounts None (po_emit [P_completed t (P_error e)] ?p) q"
      using terminate_ok [OF accounts_ok [OF a]] by blast
    with step [OF accounts_trans [OF a q(2)], of "close_if_waiting q"] Some show ?thesis
      by (simp add: send_whitespace_ping_cb_def)
  next
    case None
    note s = step [OF a [of P_ok]]
    show ?thesis
      using s [of "close_if_waiting (send_head_stanza (po_emit [P_completed t P_ok] ?p))"]
        s [of "close_if_waiting (po_emit [P_completed t P_ok] ?p)"] None
      by (simp add: send_whitespace_ping_cb_def Let_def)
  qed
qed

lemma close_sent_ok:
  assumes "iq_ok [] p"
  shows "accounts None p (close_sent_cb err p)"
proof -
  let ?p = "p\<lparr>po_writes := remove1 W_close (po_writes p), local_closed := True\<rparr>"
  have a: "accounts None p ?p" by (rule accounts_same [OF assms]) simp
  show ?thesis
    using a accounts_trans [OF a complete_close_ok [OF accounts_ok [OF a]]]
    by (simp add: close_sent_cb_def Let_def)
qed

text \<open>Pings and closing.\<close>

lemma ping_ok:
  assumes "iq_ok [] p"
  shows "accounts (Some t) p (wocky_c2s_porter_send_whitespace_ping_async t p)"
proof -
  have "accounts (Some t) p (po_emit [P_send_ping]
      (p\<lparr>sending_whitespace_ping := True, po_writes := po_writes p @ [W_ping t]\<rparr>))"
    using assms by (auto simp: accounts_def calls_of_emit iq_ok_def outstanding_def iq_lookup_def po_emit_def
        calls_of_def completed_calls_def pending_calls_def is_caller_def)
  then show ?thesis
    by (simp add: wocky_c2s_porter_send_whitespace_ping_async_def accounts_idle [OF assms])
qed

lemma close_async_ok:
  assumes "iq_ok [] p" and "wocky_c2s_porter_close_async c t p = Some q"
  shows "accounts (Some t) p q"
proof (cases "local_closed p \<or> \<not> receive_cancellable p \<and> \<not> remote_closed p \<or> close_result p \<noteq> None
    \<or> force_close_result p \<noteq> None")
  case True
  then have "\<exists>out. q = complete_in_idle (CB_user t) out p"
    using assms(2) by (auto simp: wocky_c2s_porter_close_async_def split: if_splits)
  with accounts_idle [OF assms(1)] show ?thesis by auto
next
  case False
  let ?q = "po_emit [P_closing] (p\<lparr>close_result := Some t, close_cancellable := c\<rparr>)"
  have a: "accounts (Some t) p ?q"
    using assms(1) False
    by (auto simp: accounts_def calls_of_emit iq_ok_def outstanding_def iq_lookup_def po_emit_def
        calls_of_def completed_calls_def pending_calls_def is_caller_def)
  have "account_view q = account_view ?q"
    using False assms(2) by (auto simp: wocky_c2s_porter_close_async_def Let_def split: if_splits)
  from accounts_trans' [OF a accounts_same [OF accounts_ok [OF a] this]] show ?thesis .
qed

lemma start_force_close_ok: "accounts tok p q \<Longrightarrow> accounts tok p (start_force_close q)"
  by (rule accounts_trans' [OF _ accounts_same [OF accounts_ok]]) (simp_all add: start_force_close_def)

lemma force_close_async_ok:
  assumes "iq_ok [] p" and "force_close_cancellable p = None"
  shows "\<exists>q. wocky_c2s_porter_force_close_async c t p = Some q \<and> accounts (Some t) p q"
proof (cases "force_close_result p \<noteq> None \<or> \<not> receive_cancellable p \<and> local_closed p
    \<or> \<not> receive_cancellable p \<and> \<not> remote_closed p")
  case True
  with accounts_idle [OF assms(1)] show ?thesis
    by (auto simp: wocky_c2s_porter_force_close_async_def Let_def)
next
  case False
  let ?err = WOCKY_PORTER_ERROR_FORCIBLY_CLOSED
  define p1 where "p1 = (case close_result p of
      Some c \<Rightarrow> (complete_in_idle (CB_user c) (P_error ?err) p)\<lparr>close_result := None\<rparr>
    | None \<Rightarrow> po_emit [P_closing] p)"
  define p2 where "p2 = p1\<lparr>force_close_result := Some t, force_close_cancellable := c\<rparr>"
  have f1: "force_close_result p1 = None" "force_close_cancellable p1 = None"
    using False assms(2) by (auto simp: p1_def complete_in_idle_def po_emit_def split: option.split)
  have "accounts None p p1"
    using assms(1)
    by (auto simp: p1_def accounts_def complete_in_idle_def po_emit_def iq_ok_def outstanding_def iq_lookup_def
        calls_of_def completed_calls_def pending_calls_def is_caller_def split: option.split)
  then have a2: "accounts (Some t) p p2"
    using f1(1) calls_results(1) [where p = p1 and hand = "[]" and r = "Some t"]
    by (simp add: p2_def accounts_def calls_results(3) is_caller_def)
  obtain p3 tab es where p3: "terminate_sending_operations ?err p2 = Some p3" "accounts None p2 p3"
    "p3 = p2\<lparr>sending_queue := [], iq_reply_handlers := tab, po_events := po_events p2 @ es\<rparr>"
    using terminate_ok [OF accounts_ok [OF a2]] by blast
  define p4 where "p4 = abort_pending_iqs ?err p3"
  have a3: "accounts (Some t) p p3" by (rule accounts_trans' [OF a2 p3(2)])
  have a4: "accounts (Some t) p p4"
    unfolding p4_def by (rule accounts_trans' [OF a3 abort_ok [OF accounts_ok [OF a3]]])
  have f4: "force_close_result p4 = Some t"
    by (simp add: p4_def abort_pending_iqs_def p3(3) p2_def)
  have a5: "accounts (Some t) p ((complete_in_idle (CB_user t) (P_error ?err) p4)\<lparr>force_close_result := None\<rparr>)"
  proof -
    let ?i = "complete_in_idle (CB_user t) (P_error ?err) p4"
    have "force_close_result ?i = Some t" using f4 by (simp add: complete_in_idle_def)
    with calls_results(1) [where p = ?i and hand = "[]" and r = None] a4 show ?thesis
      by (simp add: accounts_def complete_in_idle_hand calls_of_hand is_caller_def)
  qed
  have "wocky_c2s_porter_force_close_async c t p =
     (if remote_closed p4 then if forced_shutdown p4
        then Some ((complete_in_idle (CB_user t) (P_error ?err) p4)\<lparr>force_close_result := None\<rparr>)
        else Some (start_force_close p4) else Some p4)"
    using False f1(2) p3(1)
    by (auto simp: wocky_c2s_porter_force_close_async_def Let_def p1_def [symmetric] p2_def p4_def)
  with a4 a5 start_force_close_ok [OF a4] show ?thesis by auto
qed

lemma force_closed_ok: "iq_ok [] p \<Longrightarrow> connection_force_close_cb err p = Some q \<Longrightarrow> accounts None p q"
  by (auto simp: connection_force_close_cb_def accounts_def po_emit_def iq_ok_def outstanding_def iq_lookup_def
      calls_of_def completed_calls_def pending_calls_def is_caller_def split: option.splits)

lemma idle_ok:
  assumes "iq_ok [] p"
  shows "\<exists>q. porter_step env OpIdle p = Some q \<and> accounts None p q"
proof (cases "po_idle p")
  case Nil
  with accounts_refl [OF assms] show ?thesis by simp
next
  case (Cons x rest)
  obtain cb out where x: "x = (cb, out)" by (cases x)
  have i: "po_idle p = (cb, out) # rest" using Cons x by simp
  have "iq_ok [cb] (p\<lparr>po_idle := rest\<rparr>)" using pop_idle_hand(1) [OF i] assms by simp
  from complete_result_ok [OF this, of out] obtain q where
    "complete_result cb out (p\<lparr>po_idle := rest\<rparr>) = Some q" "iq_ok [] q"
    "\<forall>t. calls_of t [] q = calls_of t [cb] (p\<lparr>po_idle := rest\<rparr>)" by blast
  with pop_idle_hand(2) [OF i, of _ "[]"] i show ?thesis by (auto simp: accounts_def is_caller_def)
qed

end
