(* ===== verification/Porter_Closing.thy ===== *)
theory Porter_Closing
  imports Porter_Requests
begin

text \<open>
  The life of the porter: sending, closing and forced closing as a state machine driven by the callers and
  by the connection's callbacks. The invariant of this theory says which operation of the connection every
  pending operation waits for; with the bookkeeping of the requests it shows that no sequence of
  operations makes the porter crash, that everything that waits has something to wait for, and that
  every caller is answered exactly once.
\<close>

section \<open>Control state\<close>

definition ctrl_view where
  "ctrl_view p =
     (forced_shutdown p, receive_cancellable p, sending_whitespace_ping p, close_result p, waiting_to_close p,
      remote_closed p, local_closed p, close_cancellable p, force_close_result p, force_close_cancellable p,
      po_reading p, po_force_closing p)"

text \<open>An operation that at most answers requests: it leaves the control state alone, and the callers waiting
  for a reply do not become more.\<close>

definition tame :: "WockyC2SPorter \<Rightarrow> WockyC2SPorter \<Rightarrow> bool" where
  "tame p q \<longleftrightarrow> ctrl_view q = ctrl_view p
     \<and> (\<forall>t. pending_iqs t (iq_reply_handlers q) \<le> pending_iqs t (iq_reply_handlers p))"

lemma tame_refl [simp]: "tame p p"
  by (simp add: tame_def)

lemma tame_trans: "tame p q \<Longrightarrow> tame q r \<Longrightarrow> tame p r"
  unfolding tame_def by (metis order_trans)

lemma tame_simps [simp]:
  "tame p (po_emit es p)" "tame p (complete_in_idle cb out p)" "tame p (p\<lparr>sending_queue := els\<rparr>)"
  "tame p (p\<lparr>po_writes := ws\<rparr>)" "tame p (p\<lparr>po_cancelled := cs\<rparr>)" "tame p (p\<lparr>unimportant_queue := ss\<rparr>)"
  "tame p (p\<lparr>po_idle := is\<rparr>)"
  by (simp_all add: tame_def ctrl_view_def po_emit_def complete_in_idle_def)

text \<open>What is left of the sending queue: an operation in flight stays at its head.\<close>

definition same_sending :: "WockyC2SPorter \<Rightarrow> WockyC2SPorter \<Rightarrow> bool" where
  "same_sending p q \<longleftrightarrow> sending_queue q = sending_queue p \<and> po_writes q = po_writes p"

lemma put_handler_tame:
  assumes "distinct (map fst (iq_reply_handlers p))" and "iq_lookup i p = Some h"
    and "iq_result h' = None \<or> iq_result h' = iq_result h"
  shows "pending_iqs t (put_handler i h' (iq_reply_handlers p)) \<le> pending_iqs t (iq_reply_handlers p)"
  using put_handler_table(3) [OF assms(1), of i h t h'] assms(2,3)
  by (auto simp: iq_lookup_def is_caller_def split: if_splits)

lemma complete_result_tame:
  assumes "iq_ok hand p" and "complete_result cb out p = Some q"
  shows "tame p q \<and> same_sending p q"
proof (cases cb)
  case (CB_iq_sent i)
  have d: "distinct (map fst (iq_reply_handlers p))" using assms(1) by (simp add: iq_ok_def)
  from assms(2) CB_iq_sent obtain h where l: "iq_lookup i p = Some h"
    by (auto simp: complete_result_def iq_sent_cb_def split: option.splits)
  note t = put_handler_tame [OF d l]
  show ?thesis
    using assms(2) CB_iq_sent l
    by (auto simp: complete_result_def iq_sent_cb_def Let_def maybe_remove_put tame_def ctrl_view_def
        same_sending_def stanza_iq_handler_remove_cancellable_def intro!: t split: if_splits option.splits)
qed (use assms(2) in \<open>auto simp: complete_result_def same_sending_def po_emit_def [of _ p]
      tame_def ctrl_view_def\<close>)

lemma terminate_tame:
  assumes "iq_ok [] p" and "terminate_sending_operations err p = Some q"
  shows "tame p q \<and> sending_queue q = [] \<and> po_writes q = po_writes p"
proof -
  have "iq_ok [] p \<Longrightarrow> sending_queue p = els \<Longrightarrow> terminate_elems err els p = Some q \<Longrightarrow>
      tame p q \<and> sending_queue q = [] \<and> po_writes q = po_writes p" for els p
  proof (induction els arbitrary: p)
    case (Cons e els)
    let ?p = "p\<lparr>sending_queue := els\<rparr>"
    obtain r where r: "complete_result (elem_callback e) (P_error err) ?p = Some r" "accounts None p r"
      using pop_complete [OF Cons.prems(1,2)] by blast
    have "iq_ok [elem_callback e] ?p" using pop_hand(1) [OF Cons.prems(2)] Cons.prems(1) by simp
    from complete_result_tame [OF this r(1)] have t: "tame ?p r" "sending_queue r = els" "po_writes r = po_writes p"
      by (simp_all add: same_sending_def)
    have "tame r q \<and> sending_queue q = [] \<and> po_writes q = po_writes r"
      using Cons.IH [OF accounts_ok [OF r(2)] t(2)] Cons.prems(3) r(1) by simp
    with t show ?case using tame_trans [OF tame_trans [OF tame_simps(3) t(1)]] by simp
  qed simp
  with assms show ?thesis by (simp add: terminate_sending_operations_def)
qed

text \<open>Cancelling only removes elements that are not in flight.\<close>

definition keeps_head :: "WockyC2SPorter \<Rightarrow> WockyC2SPorter \<Rightarrow> bool" where
  "keeps_head p q \<longleftrightarrow> po_writes q = po_writes p \<and> (sending_queue p = [] \<longrightarrow> sending_queue q = [])
     \<and> (sending_queue p \<noteq> [] \<and> elem_cancelled_sig_id (hd (sending_queue p)) = 0 \<longrightarrow>
          sending_queue q \<noteq> [] \<and> hd (sending_queue q) = hd (sending_queue p))"

lemma keeps_head_trans: "keeps_head p q \<Longrightarrow> keeps_head q r \<Longrightarrow> keeps_head p r"
  by (auto simp: keeps_head_def)

lemma keeps_head_refl: "same_sending p q \<Longrightarrow> keeps_head p q"
  by (simp add: keeps_head_def same_sending_def)

lemma send_cancelled_tame:
  "sig \<noteq> 0 \<Longrightarrow> tame p (send_cancelled_cb sig p) \<and> keeps_head p (send_cancelled_cb sig p)"
proof (cases "find (\<lambda>elem. elem_cancelled_sig_id elem = sig) (sending_queue p)")
  case None
  then show ?thesis by (simp add: send_cancelled_cb_def keeps_head_def)
next
  case (Some e)
  assume "sig \<noteq> 0"
  with delete_first_split [OF Some] obtain ys zs where
    q: "sending_queue p = ys @ e # zs" "delete_first (\<lambda>elem. elem_cancelled_sig_id elem = sig) (sending_queue p) = ys @ zs"
    "elem_cancelled_sig_id e \<noteq> 0"
    by auto
  have eq: "send_cancelled_cb sig p =
      complete_in_idle (elem_callback e) (P_error G_IO_ERROR_CANCELLED) (p\<lparr>sending_queue := ys @ zs\<rparr>)"
    by (simp add: send_cancelled_cb_def Some q(2))
  have "tame p (send_cancelled_cb sig p)"
    by (simp add: eq complete_in_idle_def tame_def ctrl_view_def)
  moreover have "keeps_head p (send_cancelled_cb sig p)"
    using q(1,3) by (cases ys) (auto simp: eq keeps_head_def complete_in_idle_def)
  ultimately show ?thesis by simp
qed

lemma put_handler_distinct: "distinct (map fst tab) \<Longrightarrow> distinct (map fst (put_handler i h tab))"
proof -
  assume d: "distinct (map fst tab)"
  have "map fst (map (\<lambda>(j, g). if j = i then (j, h) else (j, g)) tab) = map fst tab" by auto
  then have "distinct (map fst (map (\<lambda>(j, g). if j = i then (j, h) else (j, g)) tab))" by (simp only: d)
  then show ?thesis unfolding put_handler_def Let_def by (auto simp: distinct_map_filter simp del: map_map)
qed

lemma send_iq_cancelled_tame:
  assumes "distinct (map fst (iq_reply_handlers p))" and "send_iq_cancelled_cb i p = Some q"
  shows "tame p q \<and> same_sending p q \<and> distinct (map fst (iq_reply_handlers q))"
proof -
  from assms(2) obtain h r where h: "iq_lookup i p = Some h" "iq_result h = Some r"
    by (auto simp: send_iq_cancelled_cb_def split: option.splits)
  then have "q = p\<lparr>iq_reply_handlers := put_handler i (h\<lparr>iq_result := None\<rparr>) (iq_reply_handlers p),
      po_idle := po_idle p @ [(CB_user r, P_error G_IO_ERROR_CANCELLED)]\<rparr>"
    using assms(2) by (simp add: send_iq_cancelled_cb_def Let_def maybe_remove_put)
  with put_handler_tame [OF assms(1) h(1), where h' = "h\<lparr>iq_result := None\<rparr>"] put_handler_distinct [OF assms(1)]
  show ?thesis by (simp add: tame_def ctrl_view_def same_sending_def)
qed

lemma emit_cancelled_tame:
  assumes "distinct (map fst (iq_reply_handlers p))" and "emit_cancelled cs p = Some q"
    and "\<forall>(sig, _) \<in> set cs. sig \<noteq> 0"
  shows "tame p q \<and> keeps_head p q"
  using assms
proof (induction cs p rule: emit_cancelled.induct)
  case (1 p)
  then show ?case by (simp add: keeps_head_def)
next
  case (2 sig cs p)
  let ?p1 = "send_cancelled_cb sig p"
  have t: "tame p ?p1" "keeps_head p ?p1" using send_cancelled_tame 2(4) by auto
  have "iq_reply_handlers ?p1 = iq_reply_handlers p"
    by (simp add: send_cancelled_cb_def complete_in_idle_def split: option.split)
  with 2 have "tame ?p1 q \<and> keeps_head ?p1 q" by simp
  with t show ?case using tame_trans keeps_head_trans by blast
next
  case (3 sig i cs p)
  then obtain r where r: "send_iq_cancelled_cb i p = Some r" "emit_cancelled cs r = Some q"
    by (auto simp: bind_eq_Some_conv)
  note t = send_iq_cancelled_tame [OF 3(2) r(1)]
  have "tame r q \<and> keeps_head r q" using 3(1) [OF r(1)] t r(2) 3(4) by simp
  with t show ?case using tame_trans keeps_head_trans keeps_head_refl by blast
qed

lemma cancel_tame:
  assumes "iq_ok [] p" and "g_cancellable_cancel c p = Some q"
  shows "tame p q \<and> keeps_head p q"
proof (cases "c \<in> set (po_cancelled p)")
  case True
  with assms(2) show ?thesis by (simp add: g_cancellable_cancel_def keeps_head_def)
next
  case False
  let ?p = "p\<lparr>po_cancelled := c # po_cancelled p\<rparr>"
  let ?cs = "sort_key fst (iq_connections c (iq_reply_handlers p) @ elem_connections c (sending_queue p))"
  have "tame ?p q \<and> keeps_head ?p q"
  proof (rule emit_cancelled_tame)
    show "distinct (map fst (iq_reply_handlers ?p))" using assms(1) by (simp add: iq_ok_def)
    show "emit_cancelled ?cs ?p = Some q" using assms(2) False by (simp add: g_cancellable_cancel_def)
    show "\<forall>(sig, _) \<in> set ?cs. sig \<noteq> 0" by (auto simp: iq_connections_def elem_connections_def)
  qed
  then show ?thesis using tame_trans [OF tame_simps(5)] by (auto simp: keeps_head_def)
qed

lemma handle_iq_reply_tame:
  assumes "iq_ok [] p"
  shows "tame p (snd (handle_iq_reply env reply p)) \<and> same_sending p (snd (handle_iq_reply env reply p))"
  using assms
proof (cases rule: handle_iq_reply_form [of p env reply])
  case 1
  then show ?thesis by (simp add: same_sending_def)
next
  case (2 i h r)
  have "distinct (map fst (iq_reply_handlers p))" using assms by (simp add: iq_ok_def)
  from put_handler_tame [OF this 2(1), where h' = "stanza_iq_handler_remove_cancellable (h\<lparr>iq_result := None\<rparr>)"]
  show ?thesis
    by (simp add: 2(3) tame_def ctrl_view_def same_sending_def stanza_iq_handler_remove_cancellable_def)
qed

section \<open>The invariant\<close>

text \<open>While a received stanza is being handled (\<open>busy\<close>) the connection is not reading, but will be asked to
  read on afterwards.\<close>

definition ctrl_ok :: "bool \<Rightarrow> WockyC2SPorter \<Rightarrow> bool" where
  "ctrl_ok busy p \<longleftrightarrow>
     (po_force_closing p \<longrightarrow> force_close_result p \<noteq> None \<and> forced_shutdown p)
     \<and> (forced_shutdown p \<longrightarrow> po_force_closing p
          \<or> local_closed p \<and> force_close_result p = None \<and> \<not> receive_cancellable p)
     \<and> (forced_shutdown p \<longrightarrow> \<not> (po_reading p \<or> busy))
     \<and> ((po_reading p \<or> busy) \<and> \<not> remote_closed p \<longrightarrow> receive_cancellable p)
     \<and> (po_reading p \<longrightarrow> \<not> remote_closed p)
     \<and> (remote_closed p \<longrightarrow> \<not> receive_cancellable p)
     \<and> (receive_cancellable p \<longrightarrow> po_reading p \<or> busy \<or> po_force_closing p)
     \<and> (force_close_result p \<noteq> None \<longrightarrow> po_reading p \<or> busy \<or> po_force_closing p)
     \<and> (close_result p = None \<and> force_close_result p = None \<and> \<not> local_closed p \<longrightarrow> close_cancellable p = None)
     \<and> (force_close_result p = None \<and> \<not> forced_shutdown p \<longrightarrow> force_close_cancellable p = None)
     \<and> (close_result p \<noteq> None \<longrightarrow> force_close_result p = None)
     \<and> (close_result p \<noteq> None \<longrightarrow> receive_cancellable p \<or> remote_closed p)"

text \<open>What a pending close operation and the queue wait for, and what a forced close leaves.\<close>

definition close_ok :: "bool \<Rightarrow> WockyC2SPorter \<Rightarrow> bool" where
  "close_ok busy p \<longleftrightarrow>
     (close_result p \<noteq> None \<longrightarrow>
        waiting_to_close p \<and> (sending_queue p \<noteq> [] \<or> sending_whitespace_ping p)
        \<or> W_close \<in> set (po_writes p)
        \<or> local_closed p \<and> (po_reading p \<or> busy) \<and> \<not> remote_closed p)"

definition sending_ok :: "WockyC2SPorter \<Rightarrow> bool" where
  "sending_ok p \<longleftrightarrow>
     (sending_whitespace_ping p \<longrightarrow> (\<exists>t. W_ping t \<in> set (po_writes p)))
     \<and> length (filter is_ping (po_writes p)) \<le> 1
     \<and> ((\<exists>t. W_ping t \<in> set (po_writes p)) \<longrightarrow> sending_whitespace_ping p)
     \<and> (sending_queue p \<noteq> [] \<and> \<not> sending_whitespace_ping p \<longrightarrow>
          W_stanza \<in> set (po_writes p) \<and> elem_cancelled_sig_id (hd (sending_queue p)) = 0)
     \<and> (sending_whitespace_ping p \<longrightarrow> W_stanza \<notin> set (po_writes p))
     \<and> count_list (po_writes p) W_stanza \<le> 1
     \<and> (W_stanza \<in> set (po_writes p) \<longrightarrow>
          sending_queue p \<noteq> [] \<or> force_close_result p \<noteq> None \<or> forced_shutdown p)"

definition forced_ok :: "WockyC2SPorter \<Rightarrow> bool" where
  "forced_ok p \<longleftrightarrow>
     (force_close_result p \<noteq> None \<or> forced_shutdown p \<longrightarrow>
        sending_queue p = [] \<and> close_result p = None \<and> (\<forall>t. pending_iqs t (iq_reply_handlers p) = 0))"

definition porter_ok :: "bool \<Rightarrow> WockyC2SPorter \<Rightarrow> bool" where
  "porter_ok busy p \<longleftrightarrow> iq_ok [] p \<and> ctrl_ok busy p \<and> close_ok busy p \<and> sending_ok p \<and> forced_ok p"

lemma porter_okI:
  "iq_ok [] p \<Longrightarrow> ctrl_ok busy p \<Longrightarrow> close_ok busy p \<Longrightarrow> sending_ok p \<Longrightarrow> forced_ok p \<Longrightarrow> porter_ok busy p"
  by (simp add: porter_ok_def)

lemma porter_okD:
  assumes "porter_ok busy p"
  shows "iq_ok [] p" "ctrl_ok busy p" "close_ok busy p" "sending_ok p" "forced_ok p"
  using assms by (simp_all add: porter_ok_def)

lemma ctrl_ok_view: "ctrl_view q = ctrl_view p \<Longrightarrow> ctrl_ok busy p \<Longrightarrow> ctrl_ok busy q"
  by (simp add: ctrl_ok_def ctrl_view_def)

text \<open>An operation that answers requests at most keeps the invariant.\<close>

lemma tame_ok:
  assumes "porter_ok busy p" and "iq_ok [] q" and "tame p q" and "keeps_head p q"
  shows "porter_ok busy q"
proof (rule porter_okI)
  have v: "ctrl_view q = ctrl_view p" using assms(3) by (simp add: tame_def)
  then have f: "close_result q = close_result p" "waiting_to_close q = waiting_to_close p"
    "sending_whitespace_ping q = sending_whitespace_ping p" "local_closed q = local_closed p"
    "po_reading q = po_reading p" "remote_closed q = remote_closed p" "force_close_result q = force_close_result p"
    "forced_shutdown q = forced_shutdown p"
    by (simp_all add: ctrl_view_def)
  have w: "po_writes q = po_writes p" using assms(4) by (simp add: keeps_head_def)
  show "iq_ok [] q" by (rule assms(2))
  show "ctrl_ok busy q" by (rule ctrl_ok_view [OF v porter_okD(2) [OF assms(1)]])
  have s: "sending_ok p" by (rule porter_okD(4) [OF assms(1)])
  have k: "sending_queue p \<noteq> [] \<Longrightarrow> \<not> sending_whitespace_ping p \<Longrightarrow>
      sending_queue q \<noteq> [] \<and> hd (sending_queue q) = hd (sending_queue p)"
    using s assms(4) unfolding sending_ok_def keeps_head_def by blast
  have e: "sending_queue p = [] \<Longrightarrow> sending_queue q = []" using assms(4) by (simp add: keeps_head_def)
  show "close_ok busy q"
    using porter_okD(3) [OF assms(1)] k unfolding close_ok_def f w by blast
  show "sending_ok q"
    using s k e unfolding sending_ok_def f w by metis
  show "forced_ok q"
    using porter_okD(5) [OF assms(1)] e assms(3) unfolding forced_ok_def f tame_def
    by (metis le_zero_eq)
qed

lemma quiet_ok:
  assumes "porter_ok busy p" and "iq_ok [] q" and "tame p q" and "same_sending p q"
  shows "porter_ok busy q"
  by (rule tame_ok [OF assms(1-3) keeps_head_refl [OF assms(4)]])

lemma emit_ok:
  assumes "porter_ok busy p"
  shows "porter_ok busy (po_emit es p)"
  by (rule quiet_ok [OF assms]) (use assms in \<open>simp_all add: porter_ok_def same_sending_def po_emit_def [of es p]\<close>,
      simp add: tame_def ctrl_view_def)

lemma idle_answer_ok:
  assumes "porter_ok busy p" and "cb \<in> {CB_none, CB_user t}"
  shows "porter_ok busy (complete_in_idle cb out p)"
proof (rule quiet_ok [OF assms(1)])
  show "iq_ok [] (complete_in_idle cb out p)" using assms by (auto simp: porter_ok_def complete_in_idle_hand(1))
  show "same_sending p (complete_in_idle cb out p)" by (simp add: same_sending_def complete_in_idle_def)
qed simp

section \<open>Sending\<close>

lemmas sending_defs = ctrl_ok_def close_ok_def sending_ok_def forced_ok_def

lemma send_head_keeps:
  assumes "sending_queue p \<noteq> []" "\<not> sending_whitespace_ping p"
    and "ctrl_ok busy p" "forced_ok p"
    and "close_result p \<noteq> None \<longrightarrow> waiting_to_close p \<or> W_close \<in> set (po_writes p)
      \<or> local_closed p \<and> (po_reading p \<or> busy) \<and> \<not> remote_closed p"
    and "filter is_ping (po_writes p) = []" "W_stanza \<notin> set (po_writes p)"
  shows "ctrl_ok busy (send_head_stanza p) \<and> close_ok busy (send_head_stanza p)
    \<and> sending_ok (send_head_stanza p) \<and> forced_ok (send_head_stanza p)"
proof -
  obtain e es where q: "sending_queue p = e # es" using assms(1) by (cases "sending_queue p") auto
  let ?q = "send_head_stanza p"
  have eq: "?q = p\<lparr>sending_queue := e\<lparr>elem_cancelled_sig_id := 0\<rparr> # es, po_writes := po_writes p @ [W_stanza],
      po_events := po_events p @ [P_send (elem_stanza e)]\<rparr>"
    by (simp add: send_head_stanza_def q po_emit_def)
  have np: "\<forall>t. W_ping t \<notin> set (po_writes p)" using assms(6) by (auto simp: filter_empty_conv)
  have "ctrl_ok busy ?q" by (rule ctrl_ok_view [OF _ assms(3)]) (simp add: eq ctrl_view_def)
  moreover have "close_ok busy ?q" using assms(5) by (auto simp: close_ok_def eq)
  moreover have "sending_ok ?q" using assms(2,6,7) np by (simp add: sending_ok_def eq count_list_0_iff)
  moreover have "forced_ok ?q" using assms(4) q by (auto simp: forced_ok_def eq)
  ultimately show ?thesis by simp
qed

lemma send_async_open:
  assumes "ctrl_ok busy p" "close_ok busy p" "sending_ok p" "forced_ok p"
    and "\<not> po_is_closing p" "\<not> forced_shutdown p"
    and "wocky_c2s_porter_send_async s c cb p = Some q" and "iq_ok [] q"
  shows "porter_ok busy q"
proof -
  let ?elem = "\<lparr>elem_stanza = s, elem_cancellable = c, elem_callback = cb, elem_cancelled_sig_id = 0\<rparr>"
  let ?p1 = "po_emit [P_queued s] (p\<lparr>sending_queue := sending_queue p @ [?elem]\<rparr>)"
  have nf: "force_close_result p = None" "\<not> forced_shutdown p" "close_result p = None"
    using assms(5,6) by (auto simp: po_is_closing_def)
  have c1: "ctrl_ok busy ?p1" by (rule ctrl_ok_view [OF _ assms(1)]) (simp add: ctrl_view_def po_emit_def)
  show ?thesis
  proof (cases "length (sending_queue ?p1) = 1 \<and> \<not> sending_whitespace_ping ?p1")
    case True
    then have q: "q = send_head_stanza ?p1"
      using assms(7) assms(5) by (simp add: wocky_c2s_porter_send_async_def Let_def)
    have "filter is_ping (po_writes ?p1) = []"
      using assms(3) True by (auto simp: sending_ok_def filter_empty_conv po_emit_def elim: is_ping.elims)
    moreover have "W_stanza \<notin> set (po_writes ?p1)"
      using assms(3) True nf by (auto simp: sending_ok_def po_emit_def)
    ultimately show ?thesis
      using send_head_keeps [of ?p1 busy] True c1 nf assms(8)
      by (auto simp: q porter_ok_def forced_ok_def po_emit_def)
  next
    case F: False
    then obtain elem n where q: "q = p\<lparr>sending_queue := sending_queue p @ [elem], po_events := po_events p @ [P_queued s],
        po_next_sig := n\<rparr>"
    proof (cases c)
      case None
      with F assms(7) assms(5) have "q = p\<lparr>sending_queue := sending_queue p @ [?elem], po_events := po_events p @ [P_queued s],
          po_next_sig := po_next_sig p\<rparr>"
        by (auto simp: wocky_c2s_porter_send_async_def Let_def po_emit_def)
      with that show ?thesis by blast
    next
      case (Some x)
      with F assms(7) assms(5) have "q = p\<lparr>sending_queue := sending_queue p @ [?elem\<lparr>elem_cancelled_sig_id := po_next_sig p\<rparr>],
          po_events := po_events p @ [P_queued s], po_next_sig := po_next_sig p + 1\<rparr>"
        by (auto simp: wocky_c2s_porter_send_async_def Let_def po_emit_def split: if_splits)
      with that show ?thesis by blast
    qed
    have sq: "sending_queue p \<noteq> [] \<or> sending_whitespace_ping p" using F by (auto simp: po_emit_def)
    show ?thesis
    proof (rule porter_okI [OF assms(8)])
      show "ctrl_ok busy q" by (rule ctrl_ok_view [OF _ assms(1)]) (simp add: q ctrl_view_def)
      show "close_ok busy q" using nf by (simp add: close_ok_def q)
      show "sending_ok q" using assms(3) sq by (auto simp: sending_ok_def q)
      show "forced_ok q" using nf by (simp add: forced_ok_def q)
    qed
  qed
qed

lemma send_async_keeps:
  assumes "porter_ok busy p" and "\<not> (forced_shutdown p \<and> force_close_result p = None)"
    and "wocky_c2s_porter_send_async s c cb p = Some q" and "iq_ok [] q"
  shows "porter_ok busy q"
proof (cases "po_is_closing p")
  case True
  have q: "q = complete_in_idle cb (P_error WOCKY_PORTER_ERROR_CLOSING) p"
    using assms(3) True by (simp add: wocky_c2s_porter_send_async_def)
  show ?thesis
    by (rule quiet_ok [OF assms(1,4)]) (simp_all add: q same_sending_def, simp_all add: complete_in_idle_def)
next
  case False
  with assms(2) have "\<not> forced_shutdown p" by (auto simp: po_is_closing_def)
  from send_async_open [OF porter_okD(2-5) [OF assms(1)] False this assms(3,4)] show ?thesis .
qed

lemma send_plain_keeps:
  assumes "porter_ok busy p" and "\<not> (forced_shutdown p \<and> force_close_result p = None)"
  shows "porter_ok busy (wocky_porter_send s p)"
proof -
  obtain q where q: "wocky_c2s_porter_send_async s None CB_none p = Some q" "iq_ok [] q"
    using send_async_ok [of CB_none "[]" p None s] porter_okD(1) [OF assms(1)] by auto
  with send_async_keeps [OF assms q] show ?thesis by (simp add: wocky_porter_send_def)
qed

lemma busy_not_forced: "porter_ok True p \<Longrightarrow> \<not> forced_shutdown p"
  by (simp add: porter_ok_def ctrl_ok_def)

section \<open>Receiving\<close>

lemma complete_close_fields:
  "close_result (complete_close err p) = None" "close_cancellable (complete_close err p) = None"
  "force_close_cancellable (complete_close err p) = None"
  "sending_queue (complete_close err p) = sending_queue p" "po_writes (complete_close err p) = po_writes p"
  "iq_reply_handlers (complete_close err p) = iq_reply_handlers p"
  "forced_shutdown (complete_close err p) = forced_shutdown p"
  "receive_cancellable (complete_close err p) = receive_cancellable p"
  "sending_whitespace_ping (complete_close err p) = sending_whitespace_ping p"
  "remote_closed (complete_close err p) = remote_closed p" "local_closed (complete_close err p) = local_closed p"
  "force_close_result (complete_close err p) = force_close_result p"
  "po_reading (complete_close err p) = po_reading p" "po_force_closing (complete_close err p) = po_force_closing p"
  by (auto simp: complete_close_def Let_def po_emit_def split: option.split)

lemma complete_close_keeps:
  assumes "iq_ok [] p" "ctrl_ok busy p" "sending_ok p" "forced_ok p" and "close_result p \<noteq> None" "local_closed p"
  shows "porter_ok busy (complete_close err p)"
proof (rule porter_okI)
  show "iq_ok [] (complete_close err p)" by (rule accounts_ok [OF complete_close_ok [OF assms(1)]])
  show "ctrl_ok busy (complete_close err p)"
    using assms(2,5,6) by (auto simp: ctrl_ok_def complete_close_fields)
  show "close_ok busy (complete_close err p)" by (simp add: close_ok_def complete_close_fields)
  show "sending_ok (complete_close err p)" using assms(3) by (simp add: sending_ok_def complete_close_fields)
  show "forced_ok (complete_close err p)" using assms(4,5) by (auto simp: forced_ok_def complete_close_fields)
qed

lemma abort_fields:
  "sending_queue (abort_pending_iqs err p) = sending_queue p" "po_writes (abort_pending_iqs err p) = po_writes p"
  "ctrl_view (abort_pending_iqs err p) = ctrl_view p"
  "pending_iqs t (iq_reply_handlers (abort_pending_iqs err p)) = 0"
  using abort_table(3) [where tab = "iq_reply_handlers p" and t = t]
  by (simp_all add: abort_pending_iqs_def ctrl_view_def)

lemma abort_keeps:
  assumes "porter_ok busy p"
  shows "porter_ok busy (abort_pending_iqs err p)"
proof (rule quiet_ok [OF assms])
  show "iq_ok [] (abort_pending_iqs err p)" by (rule accounts_ok [OF abort_ok [OF porter_okD(1) [OF assms]]])
  show "tame p (abort_pending_iqs err p)" by (simp add: tame_def abort_fields)
  show "same_sending p (abort_pending_iqs err p)" by (simp add: same_sending_def abort_fields)
qed

text \<open>The connection is lost while a stanza is handled, or when reading failed.\<close>

lemma remote_closed_keeps:
  assumes "porter_ok True p" and "\<not> po_reading p"
  shows "porter_ok True (remote_connection_closed err p)"
    and "remote_closed (remote_connection_closed err p)"
    and "\<not> receive_cancellable (remote_connection_closed err p)"
    and "\<not> po_reading (remote_connection_closed err p)"
    and "close_result (remote_connection_closed err p) \<noteq> None \<Longrightarrow> \<not> local_closed (remote_connection_closed err p)"
    and "force_close_result (remote_connection_closed err p) = force_close_result p"
    and "po_force_closing (remote_connection_closed err p) = po_force_closing p"
    and "forced_shutdown (remote_connection_closed err p) = forced_shutdown p"
proof -
  define p1 where "p1 = abort_pending_iqs err p"
  have ok1: "porter_ok True p1" unfolding p1_def by (rule abort_keeps [OF assms(1)])
  note o1 = porter_okD [OF ok1]
  have f1: "\<not> po_reading p1" "force_close_result p1 = force_close_result p" "po_force_closing p1 = po_force_closing p"
    "forced_shutdown p1 = forced_shutdown p"
    using assms(2) abort_fields(3) [of err p] by (simp_all add: p1_def ctrl_view_def)
  define ev where "ev = (if err \<noteq> WOCKY_XMPP_CONNECTION_ERROR_CLOSED then P_remote_error err else P_remote_closed)"
  define p2 where "p2 = po_emit [ev] (p1\<lparr>remote_closed := True\<rparr>)"
  define fin where "fin \<longleftrightarrow> close_result p1 \<noteq> None \<and> local_closed p1"
  define q where "q = (if fin then complete_close (if err \<noteq> WOCKY_XMPP_CONNECTION_ERROR_CLOSED then Some err else None) p2 else p2)"
  have f2: "close_result p2 = close_result p1" "local_closed p2 = local_closed p1" "sending_queue p2 = sending_queue p1"
    "po_writes p2 = po_writes p1" "iq_reply_handlers p2 = iq_reply_handlers p1" "remote_closed p2"
    "po_reading p2 = po_reading p1" "force_close_result p2 = force_close_result p1" "forced_shutdown p2 = forced_shutdown p1"
    "po_force_closing p2 = po_force_closing p1" "sending_whitespace_ping p2 = sending_whitespace_ping p1"
    "waiting_to_close p2 = waiting_to_close p1" "close_cancellable p2 = close_cancellable p1"
    "force_close_cancellable p2 = force_close_cancellable p1"
    by (simp_all add: p2_def po_emit_def)
  have r: "remote_connection_closed err p = q\<lparr>receive_cancellable := False\<rparr>"
    by (simp add: remote_connection_closed_def Let_def q_def p2_def ev_def p1_def fin_def po_emit_def)
  have iq: "iq_ok [] (remote_connection_closed err p)"
    by (rule accounts_ok [OF remote_closed_ok [OF porter_okD(1) [OF assms(1)]]])
  have ctrl: "ctrl_ok True (q\<lparr>receive_cancellable := False\<rparr>)"
    using o1(2) f1 by (auto simp: ctrl_ok_def q_def fin_def complete_close_fields f2)
  have cl: "close_ok True (q\<lparr>receive_cancellable := False\<rparr>)"
    using o1(3) f1(1) by (auto simp: close_ok_def q_def fin_def complete_close_fields f2)
  have se: "sending_ok (q\<lparr>receive_cancellable := False\<rparr>)"
    using o1(4) by (auto simp: sending_ok_def q_def complete_close_fields f2)
  have fo: "forced_ok (q\<lparr>receive_cancellable := False\<rparr>)"
    using o1(5) by (auto simp: forced_ok_def q_def complete_close_fields f2)
  show "porter_ok True (remote_connection_closed err p)"
    using porter_okI [OF iq] ctrl cl se fo by (simp add: r)
  show "remote_closed (remote_connection_closed err p)" "\<not> receive_cancellable (remote_connection_closed err p)"
    "\<not> po_reading (remote_connection_closed err p)"
    "close_result (remote_connection_closed err p) \<noteq> None \<Longrightarrow> \<not> local_closed (remote_connection_closed err p)"
    "force_close_result (remote_connection_closed err p) = force_close_result p"
    "po_force_closing (remote_connection_closed err p) = po_force_closing p"
    "forced_shutdown (remote_connection_closed err p) = forced_shutdown p"
    using f1 by (auto simp: r q_def fin_def complete_close_fields f2 split: if_splits)
qed

text \<open>Handling a stanza keeps the invariant of the busy porter; the handler of stream errors takes the stanza,
  so the connection is lost at most once.\<close>

definition handling :: "WockyC2SPorter \<Rightarrow> bool" where
  "handling p \<longleftrightarrow> porter_ok True p \<and> \<not> po_reading p"

lemma call_handler_keeps: "handling p \<Longrightarrow> handling (snd (call_handler env s h p))"
proof -
  assume "handling p"
  then have ok: "porter_ok True p" and nr: "\<not> po_reading p" by (simp_all add: handling_def)
  show ?thesis
  proof (cases "sh_callback h")
    case HANDLE_IQ_REPLY
    note t = handle_iq_reply_tame [OF porter_okD(1) [OF ok], of env s]
    have "porter_ok True (snd (handle_iq_reply env s p))"
      using quiet_ok [OF ok accounts_ok [OF handle_iq_reply_ok [OF porter_okD(1) [OF ok]]]] t by blast
    with t nr HANDLE_IQ_REPLY show ?thesis by (simp add: handling_def call_handler_def tame_def ctrl_view_def)
  next
    case HANDLE_STREAM_ERROR
    with ok nr remote_closed_keeps(1,4) [OF ok nr] show ?thesis
      by (simp add: handling_def call_handler_def handle_stream_error_def)
  next
    case (HANDLER_USER n)
    with ok nr emit_ok [OF ok] show ?thesis
      by (simp add: handling_def call_handler_def) (simp add: po_emit_def)
  qed
qed

lemma handler_loop_keeps: "handling p \<Longrightarrow> handling (snd (handler_loop env applies s hs p))"
proof (induction hs arbitrary: p)
  case (Cons x hs)
  obtain i h where x: "x = (i, h)" by (cases x)
  show ?case using Cons call_handler_keeps [OF Cons.prems] by (simp add: x split_beta Let_def)
qed simp

lemma handle_stanza_keeps:
  assumes "handling p"
  shows "handling (handle_stanza env s p)"
proof -
  let ?p = "po_emit [P_dispatch s] p"
  let ?q = "snd (handler_loop env (stanza_applies env ?p s) s (po_handlers ?p) ?p)"
  have "handling ?p" using assms emit_ok by (simp add: handling_def) (simp add: po_emit_def)
  then have q: "handling ?q" by (rule handler_loop_keeps)
  have "handling (wocky_porter_send r ?q)" for r
  proof -
    have "porter_ok True (wocky_porter_send r ?q)"
      using send_plain_keeps busy_not_forced q by (simp add: handling_def)
    moreover have "po_reading (wocky_porter_send r ?q) = po_reading ?q"
      by (auto simp: wocky_porter_send_def wocky_c2s_porter_send_async_def Let_def po_emit_def complete_in_idle_def
          send_head_stanza_def split: list.split)
    ultimately show ?thesis using q by (simp add: handling_def)
  qed
  with q show ?thesis
    by (auto simp: handle_stanza_def Let_def split_beta wocky_porter_send_iq_error_def split: option.split)
qed

section \<open>Held stanzas\<close>

text \<open>Only presences and notifications are held back; the porter's own handlers never see them.\<close>

definition inbox_ok :: "WockyC2SPorter \<Rightarrow> bool" where
  "inbox_ok p \<longleftrightarrow> handlers_ok p \<and> (\<forall>s \<in> set (unimportant_queue p). \<not> is_stanza_important s)"

lemma inbox_ok_same: "inbox_ok p \<Longrightarrow> input_of q = input_of p \<Longrightarrow> inbox_ok q"
  by (simp add: inbox_ok_def handlers_ok_def input_of_def)

lemma pattern_message:
  assumes "pattern \<in> set build_queueable_stanza_patterns" and "wocky_node_is_superset s pattern"
  shows "fst (wocky_stanza_get_type_info s) = WOCKY_STANZA_TYPE_MESSAGE"
proof -
  have "node_name pattern = ''message'' \<and> node_ns pattern = Some WOCKY_XMPP_NS_JABBER_CLIENT"
    using assms(1)
    by (auto simp: build_queueable_stanza_patterns_def queueable_node_names_def List.map_filter_simps
        stanza_build_defs Let_def)
  with assms(2) have "node_name s = ''message''" "node_ns s = Some WOCKY_XMPP_NS_JABBER_CLIENT"
    by (cases pattern; simp)+
  then show ?thesis by (simp add: stanza_type_defs)
qed

lemma unimportant_types:
  assumes "\<not> is_stanza_important s"
  shows "for_handlers s" "fst (wocky_stanza_get_type_info s) \<noteq> WOCKY_STANZA_TYPE_IQ"
  using assms pattern_message [of _ s]
  by (auto simp: is_stanza_important_def for_handlers_def split_beta Let_def split: if_splits)

lemma handle_unimportant:
  assumes "handlers_ok p" and "\<not> is_stanza_important s"
  shows "\<exists>es. handle_stanza env s p = po_emit es p"
  using handle_stanza_asks [OF assms(1) unimportant_types(1) [OF assms(2)], of env] unimportant_types(2) [OF assms(2)]
  by (auto simp: split_beta Let_def)

lemma flush_unimportant:
  "handlers_ok p \<Longrightarrow> \<forall>s \<in> set ss. \<not> is_stanza_important s \<Longrightarrow> ss = unimportant_queue p \<Longrightarrow>
     \<exists>es. flush_stanzas env ss p = (po_emit es p)\<lparr>unimportant_queue := []\<rparr>"
proof (induction ss arbitrary: p)
  case Nil
  have "p = (po_emit [] p)\<lparr>unimportant_queue := []\<rparr>" using Nil by (simp add: po_emit_def)
  then show ?case by (metis flush_stanzas.simps(1))
next
  case (Cons s ss)
  let ?p = "p\<lparr>unimportant_queue := ss\<rparr>"
  have h: "handlers_ok ?p" using Cons.prems(1) by (simp add: handlers_ok_def)
  obtain es where es: "handle_stanza env s ?p = po_emit es ?p"
    using handle_unimportant [OF h, of s env] Cons.prems(2) by auto
  have e: "handlers_ok (po_emit es ?p)" "ss = unimportant_queue (po_emit es ?p)"
    using h by (simp_all add: handlers_ok_def po_emit_def)
  have "\<forall>s \<in> set ss. \<not> is_stanza_important s" using Cons.prems(2) by simp
  from Cons.IH [OF e(1) this e(2)] obtain fs where "flush_stanzas env ss (po_emit es ?p) = (po_emit fs (po_emit es ?p))\<lparr>unimportant_queue := []\<rparr>"
    by blast
  then have "flush_stanzas env (s # ss) p = (po_emit (es @ fs) p)\<lparr>unimportant_queue := []\<rparr>"
    by (simp add: es po_emit_def)
  then show ?case by blast
qed

lemma porter_ok_queue [simp]:
  "porter_ok busy (p\<lparr>unimportant_queue := ss\<rparr>) = porter_ok busy p"
  "porter_ok busy (p\<lparr>power_saving_mode := b\<rparr>) = porter_ok busy p"
  "porter_ok busy (p\<lparr>po_handlers := hs\<rparr>) = porter_ok busy p"
  "porter_ok busy (p\<lparr>next_handler_id := m\<rparr>) = porter_ok busy p"
  by (simp_all add: porter_ok_def iq_ok_def ctrl_ok_def close_ok_def sending_ok_def forced_ok_def outstanding_def
      iq_lookup_def)

lemma flush_keeps:
  assumes "inbox_ok p" and "porter_ok busy p"
  shows "porter_ok busy (flush_unimportant_queue env p) \<and> po_reading (flush_unimportant_queue env p) = po_reading p"
proof -
  have "handlers_ok p" "\<forall>s \<in> set (unimportant_queue p). \<not> is_stanza_important s"
    using assms(1) by (simp_all add: inbox_ok_def)
  then obtain es where "flush_unimportant_queue env p = (po_emit es p)\<lparr>unimportant_queue := []\<rparr>"
    using flush_unimportant [of p, OF _ _ refl] by (auto simp: flush_unimportant_queue_def)
  with emit_ok [OF assms(2)] show ?thesis by simp (simp add: po_emit_def)
qed

lemma queue_or_handle_keeps:
  assumes "inbox_ok p" and "handling p"
  shows "handling (queue_or_handle_stanza env s p) \<and> inbox_ok (queue_or_handle_stanza env s p)"
proof -
  have h: "unimportant_queue (handle_stanza env s q) = unimportant_queue q" "po_handlers (handle_stanza env s q) = po_handlers q" for q
    using handle_stanza_dispatches [of env s q] by (simp_all add: input_of_def)
  have f: "unimportant_queue (flush_unimportant_queue env p) = []" "po_handlers (flush_unimportant_queue env p) = po_handlers p"
    using flush_dispatches [of p, OF refl, of env] by (simp_all add: input_of_def flush_unimportant_queue_def)
  have "handling (flush_unimportant_queue env p)"
    using flush_keeps [OF assms(1), of True env] assms(2) by (simp add: handling_def)
  then have "handling (handle_stanza env s (flush_unimportant_queue env p))" by (rule handle_stanza_keeps)
  moreover have "handling (handle_stanza env s p)" by (rule handle_stanza_keeps [OF assms(2)])
  moreover have "handling (p\<lparr>unimportant_queue := unimportant_queue p @ [s]\<rparr>)"
    using assms(2) by (simp add: handling_def)
  ultimately show ?thesis
    using assms(1) by (auto simp: queue_or_handle_stanza_def inbox_ok_def handlers_ok_def h f)
qed

text \<open>From busy to reading and back.\<close>

lemma not_busy_ok:
  assumes "porter_ok True p" "\<not> po_reading p" "remote_closed p \<or> po_force_closing p"
    "force_close_result p \<noteq> None \<longrightarrow> po_force_closing p"
  shows "porter_ok False p"
  using assms by (auto simp: porter_ok_def ctrl_ok_def close_ok_def)

lemma frame_ok:
  "iq_ok hand (p\<lparr>po_reading := b\<rparr>) = iq_ok hand p" "sending_ok (p\<lparr>po_reading := b\<rparr>) = sending_ok p"
  "forced_ok (p\<lparr>po_reading := b\<rparr>) = forced_ok p" "iq_ok hand (start_force_close p) = iq_ok hand p"
  by (simp_all add: iq_ok_def outstanding_def iq_lookup_def sending_ok_def forced_ok_def start_force_close_def)

lemma start_force_close_keeps:
  assumes "porter_ok True p" "\<not> po_reading p" "force_close_result p \<noteq> None"
  shows "porter_ok False (start_force_close p)"
proof -
  note ok = porter_okD [OF assms(1)]
  have "ctrl_ok False (start_force_close p)" using ok(2) assms(2,3) by (auto simp: ctrl_ok_def start_force_close_def)
  moreover have "close_ok False (start_force_close p)"
    using ok(2) assms(3) by (auto simp: ctrl_ok_def close_ok_def start_force_close_def)
  moreover have "sending_ok (start_force_close p)" using ok(4) by (auto simp: sending_ok_def start_force_close_def)
  moreover have "forced_ok (start_force_close p)" using ok(5) assms(3) by (simp add: forced_ok_def start_force_close_def)
  ultimately show ?thesis using ok(1) by (simp add: porter_ok_def frame_ok)
qed

lemma busy_ok:
  assumes "porter_ok False p" "po_reading p"
  shows "handling (p\<lparr>po_reading := False\<rparr>)"
proof -
  note ok = porter_okD [OF assms(1)]
  have "ctrl_ok True (p\<lparr>po_reading := False\<rparr>)" using ok(2) assms(2) by (auto simp: ctrl_ok_def)
  moreover have "close_ok True (p\<lparr>po_reading := False\<rparr>)" using ok(3) by (auto simp: close_ok_def)
  ultimately show ?thesis using ok by (simp add: handling_def porter_ok_def frame_ok)
qed

lemma receive_keeps:
  assumes "porter_ok True p" "\<not> po_reading p" "\<not> remote_closed p"
  shows "porter_ok False (receive_stanza p)"
proof -
  note ok = porter_okD [OF assms(1)]
  have "ctrl_ok False (receive_stanza p)" using ok(2) assms(3) by (auto simp: ctrl_ok_def receive_stanza_def)
  moreover have "close_ok False (receive_stanza p)" using ok(3) by (auto simp: close_ok_def receive_stanza_def)
  ultimately show ?thesis using ok by (simp add: porter_ok_def frame_ok receive_stanza_def)
qed

lemma received_keeps:
  assumes "porter_ok False p" and "inbox_ok p" and "po_reading p"
  shows "porter_ok False (stanza_received_cb env res p)"
proof -
  let ?p = "p\<lparr>po_reading := False\<rparr>"
  have b: "porter_ok True ?p" "\<not> po_reading ?p" using busy_ok [OF assms(1,3)] by (simp_all add: handling_def)
  show ?thesis
  proof (cases res)
    case (Inl err)
    show ?thesis
    proof (cases "force_close_result ?p")
      case None
      note r = remote_closed_keeps [OF b, of err]
      have "porter_ok False (remote_connection_closed err ?p)"
        by (rule not_busy_ok [OF r(1,4)]) (use r None in auto)
      with None Inl show ?thesis by (simp add: stanza_received_cb_def Let_def)
    next
      case (Some t)
      with start_force_close_keeps [OF b] busy_not_forced [OF b(1)] Inl show ?thesis
        by (simp add: stanza_received_cb_def Let_def)
    qed
  next
    case (Inr s)
    let ?q = "queue_or_handle_stanza env s ?p"
    have "inbox_ok ?p" using assms(2) by (simp add: inbox_ok_def handlers_ok_def)
    then have q: "porter_ok True ?q" "\<not> po_reading ?q"
      using queue_or_handle_keeps busy_ok [OF assms(1,3)] by (auto simp: handling_def)
    show ?thesis
      using receive_keeps [OF q] start_force_close_keeps [OF q] not_busy_ok [OF q] busy_not_forced [OF q(1)] Inr
      by (auto simp: stanza_received_cb_def Let_def)
  qed
qed

section \<open>Writes and closing\<close>

text \<open>The invariant before \<open>close_if_waiting\<close> looks at the queue: a close operation may still be waiting.\<close>

definition almost_ok :: "bool \<Rightarrow> WockyC2SPorter \<Rightarrow> bool" where
  "almost_ok busy p \<longleftrightarrow> iq_ok [] p \<and> ctrl_ok busy p \<and> sending_ok p \<and> forced_ok p
     \<and> (close_result p \<noteq> None \<longrightarrow> waiting_to_close p \<or> W_close \<in> set (po_writes p)
          \<or> local_closed p \<and> (po_reading p \<or> busy) \<and> \<not> remote_closed p)"

lemma close_if_waiting_keeps:
  assumes "almost_ok busy p"
  shows "porter_ok busy (close_if_waiting p)"
proof (cases "waiting_to_close p \<and> \<not> sending_in_progress p")
  case True
  have q: "close_if_waiting p = p\<lparr>po_writes := po_writes p @ [W_close], waiting_to_close := False,
      po_events := po_events p @ [P_send_close]\<rparr>"
    using True by (simp add: close_if_waiting_def send_close_def po_emit_def)
  show ?thesis
  proof (rule porter_okI)
    show "iq_ok [] (close_if_waiting p)"
      using assms account_view_cong(1) [of "close_if_waiting p" p] by (simp add: almost_ok_def)
    show "ctrl_ok busy (close_if_waiting p)" using assms by (simp add: almost_ok_def ctrl_ok_def q)
    show "close_ok busy (close_if_waiting p)" by (simp add: close_ok_def q)
    show "sending_ok (close_if_waiting p)" using assms by (simp add: almost_ok_def sending_ok_def q)
    show "forced_ok (close_if_waiting p)" using assms by (simp add: almost_ok_def forced_ok_def q)
  qed
next
  case False
  then have "close_if_waiting p = p" by (auto simp: close_if_waiting_def)
  moreover have "close_ok busy p"
    using assms False by (auto simp: almost_ok_def close_ok_def sending_in_progress_def)
  ultimately show ?thesis using assms by (simp add: porter_ok_def almost_ok_def)
qed

lemma almost_tame:
  assumes "ctrl_view q = ctrl_view p" "ctrl_ok busy p" "close_ok busy p \<or> almost_ok busy p"
    and "set (po_writes q) \<supseteq> set (po_writes p) - {W_stanza} - range W_ping"
    and "iq_ok [] q" "sending_ok q" "forced_ok q"
  shows "almost_ok busy q"
  using assms ctrl_ok_view [OF assms(1,2)]
  by (auto simp: almost_ok_def close_ok_def ctrl_view_def)

lemma remove1_once: "count_list xs x \<le> 1 \<Longrightarrow> x \<notin> set (remove1 x xs)"
  by (induction xs) (auto simp: count_list_0_iff split: if_splits)

lemma send_stanza_cb_keeps:
  assumes "porter_ok busy p" and "W_stanza \<in> set (po_writes p)" and "send_stanza_cb err p = Some q"
  shows "porter_ok busy q"
proof -
  note ok = porter_okD [OF assms(1)]
  define p1 where "p1 = p\<lparr>po_writes := remove1 W_stanza (po_writes p)\<rparr>"
  have iq1: "iq_ok [] p1" using ok(1) by (simp add: p1_def)
  have v1: "ctrl_view p1 = ctrl_view p" by (simp add: p1_def ctrl_view_def)
  have np: "\<not> sending_whitespace_ping p" using ok(4) assms(2) by (auto simp: sending_ok_def)
  have w1: "W_stanza \<notin> set (po_writes p1)" "filter is_ping (po_writes p1) = []"
    "set (po_writes p1) \<supseteq> set (po_writes p) - {W_stanza}"
  proof -
    have "count_list (po_writes p) W_stanza \<le> 1" using ok(4) by (simp add: sending_ok_def)
    then show "W_stanza \<notin> set (po_writes p1)" using remove1_once by (simp add: p1_def)
    show "filter is_ping (po_writes p1) = []"
      using ok(4) np set_remove1_subset [of W_stanza "po_writes p"]
      by (auto simp: sending_ok_def p1_def filter_empty_conv elim!: is_ping.elims)
    show "set (po_writes p1) \<supseteq> set (po_writes p) - {W_stanza}"
      by (auto simp: p1_def) (metis in_set_remove1)
  qed
  have empty: "sending_ok r \<and> forced_ok r" if "tame p1 r" "sending_queue r = []" "po_writes r = po_writes p1" for r
  proof -
    have f: "sending_whitespace_ping r = sending_whitespace_ping p" "close_result r = close_result p"
      "force_close_result r = force_close_result p" "forced_shutdown r = forced_shutdown p"
      "pending_iqs t (iq_reply_handlers r) \<le> pending_iqs t (iq_reply_handlers p)" for t
      using that(1) v1 by (simp_all add: tame_def ctrl_view_def p1_def)
    have "\<forall>t. W_ping t \<notin> set (po_writes p1)" using w1(2) by (auto simp: filter_empty_conv)
    then have "sending_ok r" using that w1 np f(1) by (simp add: sending_ok_def count_list_0_iff)
    moreover have "forced_ok r"
      using ok(5) that(2) f(2-4) le_zero_eq f(5) unfolding forced_ok_def by metis
    ultimately show ?thesis by simp
  qed
  show ?thesis
  proof (cases err)
    case (Some e)
    obtain r where r: "terminate_sending_operations e p1 = Some r" "accounts None p1 r"
      using terminate_ok [OF iq1] by blast
    note t = terminate_tame [OF iq1 r(1)]
    have "almost_ok busy r"
      by (rule almost_tame [of r p])
        (use t v1 ok w1(3) empty accounts_ok [OF r(2)] in \<open>auto simp: tame_def\<close>)
    with close_if_waiting_keeps r(1) Some assms(3) show ?thesis
      by (auto simp: send_stanza_cb_def p1_def [symmetric] Let_def)
  next
    case None
    show ?thesis
    proof (cases "sending_queue p1")
      case Nil
      with None assms(3) have q: "q = p1" by (simp add: send_stanza_cb_def p1_def Let_def)
      have "close_ok busy p1"
        using ok(3) Nil np w1(3) by (auto simp: close_ok_def p1_def)
      with q iq1 ctrl_ok_view [OF v1 ok(2)] empty [of p1] Nil show ?thesis by (simp add: porter_ok_def)
    next
      case (Cons e es)
      obtain r where r: "complete_result (elem_callback e) P_ok (p1\<lparr>sending_queue := es\<rparr>) = Some r" "accounts None p1 r"
        using pop_complete [OF iq1 Cons] by blast
      have "iq_ok [elem_callback e] (p1\<lparr>sending_queue := es\<rparr>)" using pop_hand(1) [OF Cons] iq1 by simp
      note t = complete_result_tame [OF this r(1)]
      have tr: "tame p1 r" "sending_queue r = es" "po_writes r = po_writes p1"
        using t tame_trans [OF tame_simps(3)] by (auto simp: same_sending_def)
      have vr: "ctrl_view r = ctrl_view p" using tr(1) v1 by (simp add: tame_def)
      have cr: "ctrl_ok busy r" by (rule ctrl_ok_view [OF vr ok(2)])
      have q: "q = close_if_waiting (if es \<noteq> [] then send_head_stanza r else r)"
        using None Cons r(1) tr(2) assms(3) by (simp add: send_stanza_cb_def p1_def [symmetric] Let_def)
      have nf: "force_close_result p = None" "\<not> forced_shutdown p"
        using ok(5) Cons by (auto simp: forced_ok_def p1_def)
      have fr: "forced_ok r" using nf vr by (simp add: forced_ok_def ctrl_view_def)
      have pend: "close_result r \<noteq> None \<longrightarrow> waiting_to_close r \<or> W_close \<in> set (po_writes r)
          \<or> local_closed r \<and> (po_reading r \<or> busy) \<and> \<not> remote_closed r"
        using ok(3) vr w1(3) tr(3) by (auto simp: close_ok_def ctrl_view_def)
      have "almost_ok busy (if es \<noteq> [] then send_head_stanza r else r)"
      proof (cases "es = []")
        case True
        have "sending_ok r" using empty tr True by simp
        with True fr pend cr accounts_ok [OF r(2)] show ?thesis by (simp add: almost_ok_def)
      next
        case False
        have npr: "\<not> sending_whitespace_ping r" using np vr by (simp add: ctrl_view_def)
        have h: "ctrl_ok busy (send_head_stanza r) \<and> close_ok busy (send_head_stanza r)
            \<and> sending_ok (send_head_stanza r) \<and> forced_ok (send_head_stanza r)"
          by (rule send_head_keeps) (use False npr cr fr pend w1 tr in auto)
        have "iq_ok [] (send_head_stanza r)"
          using account_view_cong(1) [of "send_head_stanza r" r] accounts_ok [OF r(2)] by simp
        with h False show ?thesis by (auto simp: almost_ok_def close_ok_def)
      qed
      then show ?thesis unfolding q by (rule close_if_waiting_keeps)
    qed
  qed
qed

lemma ping_gone:
  assumes "sending_ok p" "W_ping t \<in> set (po_writes p)"
  shows "filter is_ping (remove1 (W_ping t) (po_writes p)) = []"
    and "W_stanza \<notin> set (remove1 (W_ping t) (po_writes p))" and "sending_whitespace_ping p"
    and "W_close \<in> set (remove1 (W_ping t) (po_writes p)) \<longleftrightarrow> W_close \<in> set (po_writes p)"
proof -
  have l: "length (filter is_ping (po_writes p)) \<le> 1" and w: "sending_whitespace_ping p"
    and n: "W_stanza \<notin> set (po_writes p)"
    using assms unfolding sending_ok_def by blast+
  have "filter is_ping (remove1 (W_ping t) ws) = remove1 (W_ping t) (filter is_ping ws)" for ws
    by (induction ws) auto
  moreover have "length (remove1 (W_ping t) (filter is_ping (po_writes p))) = length (filter is_ping (po_writes p)) - 1"
    using assms(2) by (simp add: length_remove1)
  ultimately show "filter is_ping (remove1 (W_ping t) (po_writes p)) = []" using l by simp
  show "W_stanza \<notin> set (remove1 (W_ping t) (po_writes p))" using n by (meson notin_set_remove1)
  show "sending_whitespace_ping p" by (rule w)
  show "W_close \<in> set (remove1 (W_ping t) (po_writes p)) \<longleftrightarrow> W_close \<in> set (po_writes p)"
    by (simp add: in_set_remove1)
qed

lemma ping_cb_keeps:
  assumes "porter_ok busy p" and "W_ping t \<in> set (po_writes p)" and "send_whitespace_ping_cb t err p = Some q"
  shows "porter_ok busy q"
proof -
  note ok = porter_okD [OF assms(1)]
  define p1 where "p1 = (\<lambda>out. po_emit [P_completed t out]
    (p\<lparr>po_writes := remove1 (W_ping t) (po_writes p), sending_whitespace_ping := False\<rparr>))"
  note g = ping_gone [OF ok(4) assms(2)]
  have np: "\<forall>u. W_ping u \<notin> set (remove1 (W_ping t) (po_writes p))" using g(1) by (auto simp: filter_empty_conv)
  have iq1: "iq_ok [] (p1 out)" for out using ok(1) by (simp add: p1_def)
  have f: "ctrl_ok busy (p1 out)" "forced_ok (p1 out)" for out
    using ok(2,5) by (simp_all add: p1_def po_emit_def ctrl_ok_def forced_ok_def)
  have pend: "close_result (p1 out) \<noteq> None \<longrightarrow> waiting_to_close (p1 out) \<or> W_close \<in> set (po_writes (p1 out))
      \<or> local_closed (p1 out) \<and> (po_reading (p1 out) \<or> busy) \<and> \<not> remote_closed (p1 out)" for out
    using ok(3) g(4) by (auto simp: p1_def po_emit_def close_ok_def)
  have empty: "sending_ok r" if "sending_queue r = []" "po_writes r = po_writes (p1 out)" "\<not> sending_whitespace_ping r" for r out
    using that g(1,2) np by (simp add: sending_ok_def p1_def po_emit_def count_list_0_iff)
  show ?thesis
  proof (cases err)
    case (Some e)
    obtain r where r: "terminate_sending_operations e (p1 (P_error e)) = Some r" "accounts None (p1 (P_error e)) r"
      using terminate_ok [OF iq1] by blast
    note t = terminate_tame [OF iq1 r(1)]
    have v: "ctrl_view r = ctrl_view (p1 (P_error e))" using t by (simp add: tame_def)
    have se: "sending_ok r" using empty [of r "P_error e"] t v by (simp add: ctrl_view_def p1_def po_emit_def)
    have fo: "forced_ok r"
      using f(2) [of "P_error e"] t v le_zero_eq unfolding forced_ok_def tame_def ctrl_view_def by (metis prod.inject)
    have "almost_ok busy r"
      using ctrl_ok_view [OF v f(1)] se fo accounts_ok [OF r(2)] pend [of "P_error e"] v t
      by (auto simp: almost_ok_def ctrl_view_def)
    with close_if_waiting_keeps r(1) Some assms(3) show ?thesis
      by (auto simp: send_whitespace_ping_cb_def p1_def Let_def)
  next
    case None
    let ?r = "p1 P_ok"
    have q: "q = close_if_waiting (if sending_queue ?r \<noteq> [] then send_head_stanza ?r else ?r)"
      using None assms(3) by (auto simp: send_whitespace_ping_cb_def p1_def Let_def split: if_splits)
    have nping: "\<not> sending_whitespace_ping ?r" by (simp add: p1_def po_emit_def)
    have "almost_ok busy (if sending_queue ?r \<noteq> [] then send_head_stanza ?r else ?r)"
    proof (cases "sending_queue ?r = []")
      case True
      with empty [of ?r P_ok] nping f iq1 pend [of P_ok] show ?thesis by (simp add: almost_ok_def)
    next
      case False
      have w: "filter is_ping (po_writes ?r) = []" "W_stanza \<notin> set (po_writes ?r)"
        using g(1,2) by (simp_all add: p1_def po_emit_def)
      have "iq_ok [] (send_head_stanza ?r)"
        using account_view_cong(1) [of "send_head_stanza ?r" ?r] iq1 by simp
      with send_head_keeps [OF False nping f pend w] False show ?thesis
        by (auto simp: almost_ok_def close_ok_def)
    qed
    then show ?thesis unfolding q by (rule close_if_waiting_keeps)
  qed
qed

lemma close_sent_keeps:
  assumes "porter_ok busy p"
  shows "porter_ok busy (close_sent_cb err p)"
proof -
  note ok = porter_okD [OF assms]
  let ?p = "p\<lparr>po_writes := remove1 W_close (po_writes p), local_closed := True\<rparr>"
  have w: "W_stanza \<in> set (remove1 W_close ws) \<longleftrightarrow> W_stanza \<in> set ws" "W_ping t \<in> set (remove1 W_close ws) \<longleftrightarrow> W_ping t \<in> set ws"
    "filter is_ping (remove1 W_close ws) = filter is_ping ws" "count_list (remove1 W_close ws) W_stanza = count_list ws W_stanza" for ws t
    by (simp_all add: in_set_remove1) (induction ws; auto)
  have iq: "iq_ok [] ?p" using ok(1) by (simp add: iq_ok_def outstanding_def iq_lookup_def)
  have c: "ctrl_ok busy ?p" using ok(2) by (auto simp: ctrl_ok_def)
  have s: "sending_ok ?p" using ok(4) by (simp add: sending_ok_def w)
  have f: "forced_ok ?p" using ok(5) by (simp add: forced_ok_def)
  show ?thesis
  proof (cases "err = None \<and> \<not> po_is_cancelled (close_cancellable ?p) ?p \<and> \<not> remote_closed ?p \<or> close_result ?p = None")
    case True
    then have "close_sent_cb err p = ?p" by (auto simp: close_sent_cb_def Let_def)
    moreover have "close_ok busy ?p" using True ok(2) by (auto simp: close_ok_def ctrl_ok_def)
    ultimately show ?thesis using iq c s f by (simp add: porter_ok_def)
  next
    case False
    then have "close_sent_cb err p = complete_close err ?p" by (auto simp: close_sent_cb_def Let_def)
    with complete_close_keeps [OF iq c s f] False show ?thesis by simp
  qed
qed

lemma ping_keeps:
  assumes "porter_ok False p" and "\<not> (forced_shutdown p \<and> force_close_result p = None)"
  shows "porter_ok False (wocky_c2s_porter_send_whitespace_ping_async t p)"
proof (cases "po_is_closing p \<or> sending_in_progress p")
  case True
  with idle_answer_ok [OF assms(1), of "CB_user t" t] show ?thesis
    by (auto simp: wocky_c2s_porter_send_whitespace_ping_async_def)
next
  case False
  note ok = porter_okD [OF assms(1)]
  have nf: "close_result p = None" "force_close_result p = None" "\<not> forced_shutdown p" "sending_queue p = []"
    "\<not> sending_whitespace_ping p"
    using False assms(2) by (auto simp: po_is_closing_def sending_in_progress_def)
  let ?p = "po_emit [P_send_ping] (p\<lparr>sending_whitespace_ping := True, po_writes := po_writes p @ [W_ping t]\<rparr>)"
  have "\<forall>u. W_ping u \<notin> set (po_writes p)" "W_stanza \<notin> set (po_writes p)" using ok(4) nf by (auto simp: sending_ok_def)
  then have w: "filter is_ping (po_writes p) = []" "count_list (po_writes p) W_stanza = 0" "W_stanza \<notin> set (po_writes p)"
    by (auto simp: filter_empty_conv count_list_0_iff elim: is_ping.elims)
  have "porter_ok False ?p"
  proof (rule porter_okI)
    show "iq_ok [] ?p" using ok(1) by simp
    show "ctrl_ok False ?p" using ok(2) by (simp add: ctrl_ok_def po_emit_def)
    show "close_ok False ?p" using nf by (simp add: close_ok_def po_emit_def)
    show "sending_ok ?p" using w nf by (auto simp: sending_ok_def po_emit_def)
    show "forced_ok ?p" using nf by (simp add: forced_ok_def po_emit_def)
  qed
  with False show ?thesis by (simp add: wocky_c2s_porter_send_whitespace_ping_async_def)
qed

lemma close_async_keeps:
  assumes "porter_ok False p"
  shows "\<exists>q. wocky_c2s_porter_close_async c t p = Some q \<and> porter_ok False q"
proof (cases "local_closed p \<or> \<not> receive_cancellable p \<and> \<not> remote_closed p \<or> close_result p \<noteq> None
    \<or> force_close_result p \<noteq> None")
  case True
  with idle_answer_ok [OF assms, of "CB_user t" t] show ?thesis
    by (auto simp: wocky_c2s_porter_close_async_def)
next
  case False
  note ok = porter_okD [OF assms]
  have nf: "close_cancellable p = None" "\<not> forced_shutdown p" using False ok(2) by (auto simp: ctrl_ok_def)
  define q where "q = p\<lparr>close_result := Some t, close_cancellable := c, waiting_to_close := True,
    po_events := po_events p @ [P_closing]\<rparr>"
  have "iq_ok [] q" using ok(1) by (simp add: q_def iq_ok_def outstanding_def iq_lookup_def)
  moreover have "ctrl_ok False q" using ok(2) False nf by (auto simp: ctrl_ok_def q_def)
  moreover have "sending_ok q" using ok(4) by (simp add: sending_ok_def q_def)
  moreover have "forced_ok q" using False nf by (simp add: forced_ok_def q_def)
  moreover have "waiting_to_close q" by (simp add: q_def)
  ultimately have "almost_ok False q" by (simp add: almost_ok_def)
  moreover have "wocky_c2s_porter_close_async c t p = Some (close_if_waiting q)"
    using False nf
    by (auto simp: wocky_c2s_porter_close_async_def Let_def close_if_waiting_def sending_in_progress_def send_close_def
        po_emit_def q_def)
  ultimately show ?thesis using close_if_waiting_keeps by simp
qed

lemma force_close_keeps:
  assumes "porter_ok False p"
  shows "\<exists>q. wocky_c2s_porter_force_close_async c t p = Some q \<and> porter_ok False q"
proof (cases "force_close_result p \<noteq> None \<or> \<not> receive_cancellable p \<and> local_closed p
    \<or> \<not> receive_cancellable p \<and> \<not> remote_closed p")
  case True
  with idle_answer_ok [OF assms, of "CB_user t" t] show ?thesis
    by (auto simp: wocky_c2s_porter_force_close_async_def Let_def)
next
  case False
  note ok = porter_okD [OF assms]
  have nf: "force_close_cancellable p = None" "\<not> forced_shutdown p" "\<not> po_force_closing p" "\<not> remote_closed p \<Longrightarrow> po_reading p"
    using False ok(2) by (auto simp: ctrl_ok_def)
  obtain q0 where q0: "wocky_c2s_porter_force_close_async c t p = Some q0" "accounts (Some t) p q0"
    using force_close_async_ok [OF ok(1) nf(1)] by blast
  let ?err = WOCKY_PORTER_ERROR_FORCIBLY_CLOSED
  define p1 where "p1 = (case close_result p of
      Some c \<Rightarrow> (complete_in_idle (CB_user c) (P_error ?err) p)\<lparr>close_result := None\<rparr>
    | None \<Rightarrow> po_emit [P_closing] p)"
  define p2 where "p2 = p1\<lparr>force_close_result := Some t, force_close_cancellable := c\<rparr>"
  have f1: "forced_shutdown p1 = forced_shutdown p" "receive_cancellable p1 = receive_cancellable p"
    "sending_whitespace_ping p1 = sending_whitespace_ping p" "close_result p1 = None" "remote_closed p1 = remote_closed p"
    "local_closed p1 = local_closed p" "po_reading p1 = po_reading p" "po_force_closing p1 = po_force_closing p"
    "po_writes p1 = po_writes p" "force_close_cancellable p1 = force_close_cancellable p"
    by (simp_all add: p1_def complete_in_idle_def po_emit_def split: option.split)
  have "iq_ok [] p1" using ok(1) by (auto simp: p1_def complete_in_idle_hand(1) split: option.split)
  then have iq2: "iq_ok [] p2" by (simp add: p2_def)
  then obtain p3 where p3: "terminate_sending_operations ?err p2 = Some p3" "accounts None p2 p3"
    using terminate_ok by blast
  note t = terminate_tame [OF iq2 p3(1)]
  define p4 where "p4 = abort_pending_iqs ?err p3"
  have v: "ctrl_view p4 = ctrl_view p2" using t by (simp add: p4_def abort_fields tame_def)
  have w: "po_writes p4 = po_writes p" "sending_queue p4 = []" "\<And>t. pending_iqs t (iq_reply_handlers p4) = 0"
    using t by (simp_all add: p4_def abort_fields p2_def f1)
  have eq: "wocky_c2s_porter_force_close_async c t p = Some (if remote_closed p then start_force_close p4 else p4)"
    using False nf(1,2) f1(10) p3(1) v
    by (auto simp: wocky_c2s_porter_force_close_async_def Let_def p1_def [symmetric] p2_def p4_def ctrl_view_def f1)
  have iq: "iq_ok [] p4" unfolding p4_def by (rule accounts_ok [OF abort_ok [OF accounts_ok [OF p3(2)]]])
  have fields: "forced_shutdown p4 = False" "receive_cancellable p4 = receive_cancellable p"
    "sending_whitespace_ping p4 = sending_whitespace_ping p" "close_result p4 = None" "remote_closed p4 = remote_closed p"
    "local_closed p4 = local_closed p" "po_reading p4 = po_reading p" "po_force_closing p4 = False"
    "force_close_result p4 = Some t"
    using v nf f1 by (simp_all add: ctrl_view_def p2_def)
  have s: "sending_ok p4" using ok(4) by (auto simp: sending_ok_def w fields)
  have fo: "forced_ok p4" using w by (simp add: forced_ok_def fields)
  have cl: "close_ok b p4" for b by (simp add: close_ok_def fields)
  show ?thesis
  proof (cases "remote_closed p")
    case False
    have "ctrl_ok False p4" using ok(2) nf(4) False by (auto simp: ctrl_ok_def fields)
    with False eq iq s fo cl show ?thesis by (simp add: porter_ok_def)
  next
    case True
    have "ctrl_ok False (start_force_close p4)"
      using ok(2) True by (auto simp: ctrl_ok_def fields start_force_close_def)
    moreover have "sending_ok (start_force_close p4)" using s by (simp add: sending_ok_def start_force_close_def)
    moreover have "forced_ok (start_force_close p4)" using w by (simp add: forced_ok_def start_force_close_def fields)
    moreover have "close_ok False (start_force_close p4)" by (simp add: close_ok_def start_force_close_def fields)
    ultimately show ?thesis using True eq iq by (simp add: porter_ok_def frame_ok)
  qed
qed

lemma force_closed_keeps:
  assumes "porter_ok False p" and "po_force_closing p"
  shows "\<exists>q. connection_force_close_cb err p = Some q \<and> porter_ok False q"
proof -
  note ok = porter_okD [OF assms(1)]
  obtain t where t: "force_close_result p = Some t" and f: "forced_shutdown p" "\<not> po_reading p"
    using ok(2) assms(2) by (auto simp: ctrl_ok_def)
  define q where "q = po_emit [P_completed t (case err of None \<Rightarrow> P_ok | Some e \<Rightarrow> P_error e)]
      (p\<lparr>force_close_result := None, local_closed := True, po_force_closing := False, receive_cancellable := False\<rparr>)"
  have q: "connection_force_close_cb err p = Some q" by (simp add: connection_force_close_cb_def t q_def)
  have "porter_ok False q"
  proof (rule porter_okI)
    show "iq_ok [] q" using accounts_ok [OF force_closed_ok [OF ok(1) q]] .
    show "ctrl_ok False q" using ok(2) f by (auto simp: q_def ctrl_ok_def po_emit_def)
    show "close_ok False q" using ok(5) f by (simp add: q_def close_ok_def forced_ok_def po_emit_def)
    show "sending_ok q" using ok(4) f by (simp add: q_def sending_ok_def po_emit_def)
    show "forced_ok q" using ok(5) f by (simp add: q_def forced_ok_def po_emit_def)
  qed
  with q show ?thesis by simp
qed

lemma start_keeps:
  assumes "porter_ok False p" and "receive_cancellable p \<or> \<not> remote_closed p \<and> \<not> local_closed p \<and> \<not> forced_shutdown p"
  shows "porter_ok False (wocky_c2s_porter_start p)"
proof (cases "receive_cancellable p")
  case True
  with assms(1) show ?thesis by (simp add: wocky_c2s_porter_start_def)
next
  case False
  note ok = porter_okD [OF assms(1)]
  let ?q = "p\<lparr>receive_cancellable := True, po_reading := True\<rparr>"
  have "iq_ok [] ?q" "sending_ok ?q" "forced_ok ?q"
    using ok by (simp_all add: iq_ok_def outstanding_def iq_lookup_def sending_ok_def forced_ok_def)
  moreover have "ctrl_ok False ?q" using ok(2) False assms(2) by (auto simp: ctrl_ok_def)
  moreover have "close_ok False ?q" using ok(3) by (auto simp: close_ok_def)
  ultimately show ?thesis using False
    by (simp add: porter_ok_def wocky_c2s_porter_start_def receive_stanza_def)
qed

lemma idle_keeps:
  assumes "porter_ok False p"
  shows "\<exists>q. porter_step env OpIdle p = Some q \<and> porter_ok False q"
proof -
  note ok = porter_okD [OF assms]
  obtain q where q: "porter_step env OpIdle p = Some q" "accounts None p q" using idle_ok [OF ok(1)] by blast
  have "tame p q \<and> same_sending p q"
  proof (cases "po_idle p")
    case Nil
    with q(1) show ?thesis by (simp add: same_sending_def)
  next
    case (Cons x rest)
    obtain cb out where x: "x = (cb, out)" by (cases x)
    have i: "po_idle p = (cb, out) # rest" using Cons x by simp
    have "iq_ok [cb] (p\<lparr>po_idle := rest\<rparr>)" using pop_idle_hand(1) [OF i] ok(1) by simp
    from complete_result_tame [OF this] q(1) i have "tame (p\<lparr>po_idle := rest\<rparr>) q" "same_sending (p\<lparr>po_idle := rest\<rparr>) q" by auto
    then show ?thesis using tame_trans [OF tame_simps(7)] by (auto simp: same_sending_def)
  qed
  with quiet_ok [OF assms accounts_ok [OF q(2)]] q(1) show ?thesis by blast
qed

lemma send_iq_keeps:
  assumes "porter_ok False p" and "\<not> (forced_shutdown p \<and> force_close_result p = None)"
    and "\<And>x. c = Some x \<Longrightarrow> x \<notin> set (po_cancelled p)"
    and "wocky_c2s_porter_send_iq_async env ids s c t p = Some q" and "iq_ok [] q"
  shows "porter_ok False q"
proof (cases "\<exists>out. q = complete_in_idle (CB_user t) out p")
  case True
  with idle_answer_ok [OF assms(1), of "CB_user t" t] show ?thesis by auto
next
  case False
  note ok = porter_okD [OF assms(1)]
  have nc: "\<not> po_is_closing p" using False assms(4) by (auto simp: wocky_c2s_porter_send_iq_async_def split_beta)
  then have nf: "\<not> forced_shutdown p" using assms(2) by (auto simp: po_is_closing_def)
  from False nc assms(3,4) obtain i h n where
    s: "wocky_c2s_porter_send_async (wocky_node_set_attribute s ''id'' i) c (CB_iq_sent i)
      (p\<lparr>po_next_sig := n, iq_reply_handlers := (i, h) # iq_reply_handlers p\<rparr>) = Some q"
  proof (cases c)
    case None
    have "p = p\<lparr>po_next_sig := po_next_sig p\<rparr>" by simp
    with None False nc assms(4) that [where n = "po_next_sig p"] show ?thesis
      by (auto simp: wocky_c2s_porter_send_iq_async_def split_beta Let_def split: if_splits option.splits)
  next
    case (Some x)
    with False nc assms(3,4) that show ?thesis
      by (auto simp: wocky_c2s_porter_send_iq_async_def split_beta Let_def split: if_splits option.splits)
  qed
  let ?p = "p\<lparr>po_next_sig := n, iq_reply_handlers := (i, h) # iq_reply_handlers p\<rparr>"
  have "ctrl_ok False ?p" by (rule ctrl_ok_view [OF _ ok(2)]) (simp add: ctrl_view_def)
  moreover have "close_ok False ?p" using ok(3) by (simp add: close_ok_def)
  moreover have "sending_ok ?p" using ok(4) by (simp add: sending_ok_def)
  moreover have "forced_ok ?p" using nc nf by (simp add: forced_ok_def po_is_closing_def)
  moreover have "\<not> po_is_closing ?p" "\<not> forced_shutdown ?p" using nc nf by (simp_all add: po_is_closing_def)
  ultimately show ?thesis using send_async_open s assms(5) by blast
qed

section \<open>Runs\<close>

text \<open>What the environment may do: the connection calls back for operations it was given, reading is started
  once, handlers are registered under a free id, cancellables are passed before they are cancelled,
  and nothing is sent after a forced close has finished.\<close>

definition usable :: "WockyC2SPorter \<Rightarrow> bool" where
  "usable p \<longleftrightarrow> \<not> (forced_shutdown p \<and> force_close_result p = None)"

fun porter_legal :: "porter_op \<Rightarrow> WockyC2SPorter \<Rightarrow> bool" where
  "porter_legal OpStart p \<longleftrightarrow> receive_cancellable p \<or> \<not> remote_closed p \<and> \<not> local_closed p \<and> \<not> forced_shutdown p"
| "porter_legal (OpSend s c t) p \<longleftrightarrow> usable p \<and> \<not> po_is_cancelled c p"
| "porter_legal (OpSendIq ids s c t) p \<longleftrightarrow>
     usable p \<and> \<not> po_is_cancelled c p \<and> (\<exists>i \<in> set ids. iq_lookup i p = None)"
| "porter_legal (OpPing t) p \<longleftrightarrow> usable p"
| "porter_legal (OpRegister h) p \<longleftrightarrow> handler_ok h \<and> next_handler_id p \<notin> fst ` set (po_handlers p)"
| "porter_legal (OpWritten w err) p \<longleftrightarrow> w \<in> set (po_writes p)"
| "porter_legal (OpReceived res) p \<longleftrightarrow> po_reading p"
| "porter_legal (OpForceClosed err) p \<longleftrightarrow> po_force_closing p"
| "porter_legal _ p \<longleftrightarrow> True"

fun caller_of :: "porter_op \<Rightarrow> nat option" where
  "caller_of (OpSend s c t) = Some t"
| "caller_of (OpSendIq ids s c t) = Some t"
| "caller_of (OpPing t) = Some t"
| "caller_of (OpClose c t) = Some t"
| "caller_of (OpForceClose c t) = Some t"
| "caller_of _ = None"

definition porter_inv :: "WockyC2SPorter \<Rightarrow> bool" where
  "porter_inv p \<longleftrightarrow> porter_ok False p \<and> inbox_ok p"

lemma not_cancelled: "\<not> po_is_cancelled c p \<Longrightarrow> c = Some x \<Longrightarrow> x \<notin> set (po_cancelled p)"
  by (simp add: po_is_cancelled_def)

lemma step_ok:
  assumes "porter_ok False p" "inbox_ok p" and "porter_legal op p"
  shows "\<exists>q. porter_step env op p = Some q \<and> porter_ok False q \<and> accounts (caller_of op) p q"
proof -
  note ok = porter_okD [OF assms(1)]
  show ?thesis
  proof (cases op)
    case OpStart
    have "accounts None p (wocky_c2s_porter_start p)"
      by (rule accounts_same [OF ok(1)]) (simp add: wocky_c2s_porter_start_def receive_stanza_def)
    with OpStart start_keeps assms show ?thesis by simp
  next
    case (OpSend s c t)
    have i: "iq_ok (CB_user t # []) p" using ok(1) by simp
    have nc: "\<And>x. c = Some x \<Longrightarrow> x \<notin> set (po_cancelled p)" using assms(3) OpSend not_cancelled by auto
    obtain q where q: "wocky_c2s_porter_send_async s c (CB_user t) p = Some q" "iq_ok [] q"
      "\<forall>u. calls_of u [] q = calls_of u [CB_user t] p"
      using send_async_ok [OF i nc, where s = s] by blast
    then have "accounts (Some t) p q" by (auto simp: accounts_def calls_of_hand is_caller_def)
    moreover have "porter_ok False q"
      using send_async_keeps [OF assms(1) _ q(1,2)] assms(3) OpSend by (simp add: usable_def)
    ultimately show ?thesis using OpSend q(1) by simp
  next
    case (OpSendIq ids s c t)
    have nc: "\<And>x. c = Some x \<Longrightarrow> x \<notin> set (po_cancelled p)" using assms(3) OpSendIq not_cancelled by auto
    have "\<exists>i \<in> set ids. iq_lookup i p = None" using assms(3) OpSendIq by simp
    from send_iq_ok [OF ok(1) nc this] obtain q where
      q: "wocky_c2s_porter_send_iq_async env ids s c t p = Some q" "accounts (Some t) p q" by blast
    have "porter_ok False q"
      using send_iq_keeps [OF assms(1) _ nc q(1) accounts_ok [OF q(2)]] assms(3) OpSendIq by (simp add: usable_def)
    with q OpSendIq show ?thesis by simp
  next
    case (OpPing t)
    with ping_keeps [OF assms(1)] ping_ok [OF ok(1)] assms(3) show ?thesis by (simp add: usable_def)
  next
    case (OpCancel c)
    obtain q where q: "g_cancellable_cancel c p = Some q" "accounts None p q" using cancel_ok [OF ok(1)] by blast
    have "porter_ok False q" using tame_ok [OF assms(1) accounts_ok [OF q(2)]] cancel_tame [OF ok(1) q(1)] by blast
    with q OpCancel show ?thesis by simp
  next
    case (OpClose c t)
    obtain q where q: "wocky_c2s_porter_close_async c t p = Some q" "porter_ok False q"
      using close_async_keeps [OF assms(1)] by blast
    with close_async_ok [OF ok(1) q(1)] OpClose show ?thesis by simp
  next
    case (OpForceClose c t)
    obtain q where q: "wocky_c2s_porter_force_close_async c t p = Some q" "porter_ok False q"
      using force_close_keeps [OF assms(1)] by blast
    have "accounts (Some t) p q"
    proof (cases "force_close_result p \<noteq> None \<or> \<not> receive_cancellable p \<and> local_closed p
        \<or> \<not> receive_cancellable p \<and> \<not> remote_closed p")
      case True
      with q(1) accounts_idle [OF ok(1)] show ?thesis
        by (auto simp: wocky_c2s_porter_force_close_async_def Let_def split: if_splits)
    next
      case False
      then have "force_close_cancellable p = None" using ok(2) by (auto simp: ctrl_ok_def)
      from force_close_async_ok [OF ok(1) this, of c t] q(1) show ?thesis by auto
    qed
    with q OpForceClose show ?thesis by simp
  next
    case (OpRegister h)
    have "accounts None p (p\<lparr>po_handlers := hs, next_handler_id := m\<rparr>)" for hs m
      by (rule accounts_same [OF ok(1)]) simp
    with OpRegister assms(1,3) show ?thesis by (simp add: wocky_c2s_porter_register_handler_internal_def)
  next
    case (OpUnregister i)
    have "accounts None p (p\<lparr>po_handlers := hs\<rparr>)" for hs by (rule accounts_same [OF ok(1)]) simp
    with OpUnregister assms(1) show ?thesis by (simp add: wocky_c2s_porter_unregister_handler_def)
  next
    case (OpPowerSaving b)
    have "porter_ok False (wocky_c2s_porter_enable_power_saving_mode env b p)"
      using flush_keeps [OF assms(2,1), of env] assms(1)
      by (simp add: wocky_c2s_porter_enable_power_saving_mode_def Let_def)
    with power_saving_ok [OF ok(1)] OpPowerSaving show ?thesis by simp
  next
    case (OpWritten w err)
    show ?thesis
    proof (cases w)
      case W_stanza
      obtain q where "send_stanza_cb err p = Some q" "accounts None p q" using send_stanza_cb_ok [OF ok(1)] by blast
      with send_stanza_cb_keeps [OF assms(1)] assms(3) OpWritten W_stanza show ?thesis by auto
    next
      case (W_ping t)
      obtain q where "send_whitespace_ping_cb t err p = Some q" "accounts None p q"
        using ping_cb_ok [OF ok(1)] assms(3) OpWritten W_ping by auto
      with ping_cb_keeps [OF assms(1)] assms(3) OpWritten W_ping show ?thesis by auto
    next
      case W_close
      with close_sent_keeps [OF assms(1)] close_sent_ok [OF ok(1)] OpWritten show ?thesis by simp
    qed
  next
    case (OpReceived res)
    with received_keeps [OF assms(1,2)] received_ok [OF ok(1)] assms(3) show ?thesis by simp
  next
    case (OpForceClosed err)
    then obtain q where "connection_force_close_cb err p = Some q" "porter_ok False q"
      using force_closed_keeps [OF assms(1)] assms(3) by auto
    with force_closed_ok [OF ok(1)] OpForceClosed show ?thesis by auto
  next
    case OpIdle
    with idle_keeps [OF assms(1)] idle_ok [OF ok(1)] show ?thesis by fastforce
  qed
qed

lemma inbox_step:
  assumes "inbox_ok p" "porter_ok False p" and "porter_legal op p" and "porter_step env op p = Some q"
  shows "inbox_ok q"
proof (cases "changes_input op")
  case False
  with inbox_ok_same [OF assms(1) step_same_input [OF assms(4)]] show ?thesis by simp
next
  case True
  then show ?thesis
  proof (cases op)
    case (OpReceived res)
    have "inbox_ok (p\<lparr>po_reading := False\<rparr>)" using assms(1) by (simp add: inbox_ok_def handlers_ok_def)
    moreover have "handling (p\<lparr>po_reading := False\<rparr>)" using busy_ok [OF assms(2)] assms(3) OpReceived by simp
    ultimately have i: "inbox_ok (queue_or_handle_stanza env s (p\<lparr>po_reading := False\<rparr>))" for s
      using queue_or_handle_keeps by blast
    have "input_of (stanza_received_cb env (Inl err) p) = input_of p" for err
      by (simp add: stanza_received_cb_def Let_def)
    moreover have "input_of (stanza_received_cb env (Inr s) p) =
        input_of (queue_or_handle_stanza env s (p\<lparr>po_reading := False\<rparr>))" for s
      by (simp add: stanza_received_cb_def Let_def)
    ultimately show ?thesis
      using inbox_ok_same [OF assms(1)] inbox_ok_same [OF i] assms(4) OpReceived
      by (cases res) (auto simp del: input_of_update)
  next
    case (OpPowerSaving b)
    then show ?thesis
      using flush_dispatches [of p, OF refl, of env] assms(1,4)
      by (auto simp: inbox_ok_def handlers_ok_def input_of_def wocky_c2s_porter_enable_power_saving_mode_def Let_def
          flush_unimportant_queue_def split: if_splits)
  next
    case (OpRegister h)
    with assms(1,3,4) register_ok show ?thesis
      by (auto simp: inbox_ok_def wocky_c2s_porter_register_handler_internal_def split: if_splits)
  next
    case (OpUnregister i)
    with assms(1,4) show ?thesis
      by (auto simp: inbox_ok_def handlers_ok_def wocky_c2s_porter_unregister_handler_def delete_first_sorted)
        (use set_delete_first in fastforce)
  qed auto
qed

interpretation porter: safe_system porter_legal "porter_step env" porter_inv for env
proof unfold_locales
  fix p op
  assume "porter_inv p" "porter_legal op p"
  then show "\<exists>q. porter_step env op p = Some q \<and> porter_inv q"
    using step_ok [of p op env] inbox_step [of p op env] by (auto simp: porter_inv_def)
qed

lemma constructed_inv:
  assumes "wocky_c2s_porter_constructed (wocky_c2s_porter_init env jid) = Some p"
  shows "porter_inv p" "calls_of t [] p = 0"
proof -
  have f: "builtin_handler ty st cb a = Some b \<Longrightarrow> \<exists>hs m. b = a\<lparr>po_handlers := hs, next_handler_id := m\<rparr>" for ty st cb a b
    by (auto simp: builtin_handler_def wocky_c2s_porter_register_handler_from_anyone_by_stanza_def
        wocky_c2s_porter_register_handler_internal_def split: if_splits)
  have "\<exists>hs m. p = (wocky_c2s_porter_init env jid)\<lparr>po_handlers := hs, next_handler_id := m\<rparr>"
    using assms by (auto simp: wocky_c2s_porter_constructed_def bind_eq_Some_conv dest!: f) blast
  then obtain hs m where p: "p = (wocky_c2s_porter_init env jid)\<lparr>po_handlers := hs, next_handler_id := m\<rparr>" by blast
  have "porter_ok False (wocky_c2s_porter_init env jid)"
    by (simp add: porter_ok_def iq_ok_def ctrl_ok_def close_ok_def sending_ok_def forced_ok_def
        wocky_c2s_porter_init_def outstanding_def iq_lookup_def)
  with constructed_ok [OF assms] show "porter_inv p"
    by (simp add: porter_inv_def inbox_ok_def p) (simp add: wocky_c2s_porter_init_def)
  show "calls_of t [] p = 0"
    by (simp add: p calls_of_def completed_calls_def pending_calls_def outstanding_def pending_iqs_def is_caller_def
        wocky_c2s_porter_init_def)
qed

definition started_calls :: "nat \<Rightarrow> porter_op list \<Rightarrow> nat" where
  "started_calls t ops = length (filter (\<lambda>op. caller_of op = Some t) ops)"

lemma run_accounts:
  assumes "porter_inv p" and "legal_run porter_legal (porter_step env) ops p"
    and "run (porter_step env) ops p = Some q"
  shows "calls_of t [] q = calls_of t [] p + started_calls t ops"
  using assms
proof (induction ops arbitrary: p)
  case (Cons op ops)
  then obtain p1 where p1: "porter_step env op p = Some p1" "run (porter_step env) ops p1 = Some q"
    by (auto simp: bind_eq_Some_conv)
  have l: "porter_legal op p" "legal_run porter_legal (porter_step env) ops p1"
    using Cons.prems(2) p1(1) by auto
  have "accounts (caller_of op) p p1"
    using step_ok [OF _ _ l(1), of env] Cons.prems(1) p1(1) by (auto simp: porter_inv_def)
  moreover have "porter_inv p1" by (rule porter.step_inv [OF Cons.prems(1) l(1) p1(1)])
  ultimately show ?case
    using Cons.IH [OF _ l(2) p1(2)] by (auto simp: accounts_def is_caller_def started_calls_def)
qed (simp add: started_calls_def)

section \<open>Properties\<close>

text \<open>C6. Every caller is answered exactly once: whatever legal sequence of calls, cancellations, received stanzas,
  finished writes and idle callbacks a new porter goes through, it never crashes, and for every caller the
  number of operations started is the number completed plus the number still pending.\<close>

theorem porter_answers_once:
  assumes "wocky_c2s_porter_constructed (wocky_c2s_porter_init env jid) = Some p0"
    and "legal_run porter_legal (porter_step env) ops p0"
  shows "\<exists>p. run (porter_step env) ops p0 = Some p
    \<and> (\<forall>t. completed_calls t p + pending_calls t p = started_calls t ops)"
proof -
  note inv = constructed_inv(1) [OF assms(1)]
  obtain p where p: "run (porter_step env) ops p0 = Some p" using porter.run_safe [OF inv assms(2)] by blast
  have "completed_calls t p + pending_calls t p = started_calls t ops" for t
    using run_accounts [OF inv assms(2) p, of t] constructed_inv(2) [OF assms(1), of t] by (simp add: calls_of_def)
  with p show ?thesis by blast
qed

text \<open>C7. Nothing waits in vain: in every state a porter can get into, stanzas in the queue wait for a write in
  progress, of which there is at most one, a close operation waits for a write or for the peer, and a
  forced close waits for the pending read or for the connection to be closed.\<close>

theorem porter_never_stalls:
  assumes "wocky_c2s_porter_constructed (wocky_c2s_porter_init env jid) = Some p0"
    and "legal_run porter_legal (porter_step env) ops p0" and "run (porter_step env) ops p0 = Some p"
  shows "(sending_queue p \<noteq> [] \<longrightarrow> W_stanza \<in> set (po_writes p) \<or> (\<exists>t. W_ping t \<in> set (po_writes p)))
    \<and> count_list (po_writes p) W_stanza \<le> 1
    \<and> \<not> (W_stanza \<in> set (po_writes p) \<and> (\<exists>t. W_ping t \<in> set (po_writes p)))
    \<and> (close_result p \<noteq> None \<longrightarrow> po_writes p \<noteq> [] \<or> po_reading p)
    \<and> (force_close_result p \<noteq> None \<longrightarrow> po_reading p \<or> po_force_closing p)"
proof -
  have "porter_inv p" by (rule porter.run_inv [OF constructed_inv(1) [OF assms(1)] assms(2,3)])
  then have c: "ctrl_ok False p" and d: "close_ok False p" and s: "sending_ok p"
    by (simp_all add: porter_inv_def porter_ok_def)
  have q: "sending_queue p \<noteq> [] \<Longrightarrow> W_stanza \<in> set (po_writes p) \<or> (\<exists>t. W_ping t \<in> set (po_writes p))"
    using s unfolding sending_ok_def by blast
  moreover have "count_list (po_writes p) W_stanza \<le> 1" using s by (simp add: sending_ok_def)
  moreover have "\<not> (W_stanza \<in> set (po_writes p) \<and> (\<exists>t. W_ping t \<in> set (po_writes p)))"
    using s unfolding sending_ok_def by blast
  moreover have "po_writes p \<noteq> [] \<or> po_reading p" if "close_result p \<noteq> None"
  proof -
    have "sending_whitespace_ping p \<Longrightarrow> \<exists>t. W_ping t \<in> set (po_writes p)" using s unfolding sending_ok_def by blast
    with q d that show ?thesis unfolding close_ok_def by (metis empty_iff empty_set)
  qed
  moreover have "po_reading p \<or> po_force_closing p" if "force_close_result p \<noteq> None"
    using c that by (auto simp: ctrl_ok_def)
  ultimately show ?thesis by blast
qed

text \<open>C11. A forced close leaves nobody waiting: once it has finished, the idle callbacks have run and no ping is
  being written, every operation ever started on the porter has been completed exactly once.\<close>

theorem force_close_answers_all:
  assumes "wocky_c2s_porter_constructed (wocky_c2s_porter_init env jid) = Some p0"
    and "legal_run porter_legal (porter_step env) ops p0" and "run (porter_step env) ops p0 = Some p"
    and "forced_shutdown p" "\<not> po_force_closing p" "po_idle p = []" "\<not> sending_whitespace_ping p"
  shows "completed_calls t p = started_calls t ops"
proof -
  note inv = constructed_inv(1) [OF assms(1)]
  have "porter_inv p" by (rule porter.run_inv [OF inv assms(2,3)])
  then have c: "ctrl_ok False p" and f: "forced_ok p" and s: "sending_ok p"
    by (simp_all add: porter_inv_def porter_ok_def)
  have "sending_queue p = []" "close_result p = None" "\<And>u. pending_iqs u (iq_reply_handlers p) = 0" "force_close_result p = None"
    using c f assms(4,5) by (auto simp: ctrl_ok_def forced_ok_def)
  moreover have "count_list (po_writes p) (W_ping u) = 0" for u
    using s assms(7) by (auto simp: sending_ok_def count_list_0_iff)
  ultimately have "pending_calls t p = 0"
    using assms(6) by (simp add: pending_calls_def outstanding_def is_caller_def)
  then show ?thesis
    using run_accounts [OF inv assms(2,3), of t] constructed_inv(2) [OF assms(1), of t] by (simp add: calls_of_def)
qed

text \<open>A cancellable that has been cancelled before it is passed with a stanza crashes the porter when another
  stanza is being written: \<open>g_cancellable_connect\<close> runs the callback at once, which frees the element the
  id of the connection is stored in.\<close>

theorem send_cancelled_crashes:
  assumes "c \<in> set (po_cancelled p)" and "\<not> po_is_closing p" and "sending_queue p \<noteq> []"
  shows "wocky_c2s_porter_send_async s (Some c) cb p = None"
  using assms by (simp add: wocky_c2s_porter_send_async_def Let_def po_emit_def)

section \<open>Witnesses\<close>

definition example_new_porter :: WockyC2SPorter where
  "example_new_porter = the (wocky_c2s_porter_constructed (wocky_c2s_porter_init example_porter_env ''me@a/x''))"

lemma builtin_handler_some:
  "next_handler_id p \<notin> fst ` set (po_handlers p) \<Longrightarrow>
   \<exists>h. builtin_handler ty st cb p = Some (p\<lparr>po_handlers := insert_handler (next_handler_id p, h) (po_handlers p),
     next_handler_id := next_handler_id p + 1\<rparr>)"
  by (auto simp: builtin_handler_def wocky_c2s_porter_register_handler_from_anyone_by_stanza_def
      wocky_c2s_porter_register_handler_internal_def)

lemma example_new_porter:
  "wocky_c2s_porter_constructed (wocky_c2s_porter_init example_porter_env ''me@a/x'') = Some example_new_porter"
  "\<exists>hs m. example_new_porter = (wocky_c2s_porter_init example_porter_env ''me@a/x'')\<lparr>po_handlers := hs, next_handler_id := m\<rparr>"
proof -
  let ?p0 = "wocky_c2s_porter_init example_porter_env ''me@a/x''"
  have i: "po_handlers ?p0 = []" "next_handler_id ?p0 = 1" by (simp_all add: wocky_c2s_porter_init_def)
  obtain h1 where b1: "builtin_handler WOCKY_STANZA_TYPE_IQ WOCKY_STANZA_SUB_TYPE_RESULT HANDLE_IQ_REPLY ?p0 =
      Some (?p0\<lparr>po_handlers := [(1, h1)], next_handler_id := 2\<rparr>)"
    using builtin_handler_some [of ?p0 WOCKY_STANZA_TYPE_IQ WOCKY_STANZA_SUB_TYPE_RESULT HANDLE_IQ_REPLY] i by auto
  let ?p1 = "?p0\<lparr>po_handlers := [(1, h1)], next_handler_id := 2\<rparr>"
  obtain h2 where b2: "builtin_handler WOCKY_STANZA_TYPE_IQ WOCKY_STANZA_SUB_TYPE_ERROR HANDLE_IQ_REPLY ?p1 =
      Some (?p1\<lparr>po_handlers := insert_handler (2, h2) [(1, h1)], next_handler_id := 3\<rparr>)"
    using builtin_handler_some [of ?p1 WOCKY_STANZA_TYPE_IQ WOCKY_STANZA_SUB_TYPE_ERROR HANDLE_IQ_REPLY]
    by (auto simp del: insert_handler.simps)
  let ?p2 = "?p1\<lparr>po_handlers := insert_handler (2, h2) [(1, h1)], next_handler_id := 3\<rparr>"
  obtain h3 where b3: "builtin_handler WOCKY_STANZA_TYPE_STREAM_ERROR WOCKY_STANZA_SUB_TYPE_NONE HANDLE_STREAM_ERROR ?p2 =
      Some (?p2\<lparr>po_handlers := insert_handler (3, h3) (insert_handler (2, h2) [(1, h1)]), next_handler_id := 4\<rparr>)"
    using builtin_handler_some [of ?p2 WOCKY_STANZA_TYPE_STREAM_ERROR WOCKY_STANZA_SUB_TYPE_NONE HANDLE_STREAM_ERROR]
    by (auto simp del: insert_handler.simps)
  let ?p3 = "?p0\<lparr>po_handlers := insert_handler (3, h3) (insert_handler (2, h2) [(1, h1)]), next_handler_id := 4\<rparr>"
  have c: "wocky_c2s_porter_constructed ?p0 = Some ?p3"
    using b1 b2 b3 by (simp add: wocky_c2s_porter_constructed_def del: insert_handler.simps)
  then show "wocky_c2s_porter_constructed ?p0 = Some example_new_porter" by (simp add: example_new_porter_def)
  from c have "example_new_porter = ?p3" by (simp add: example_new_porter_def)
  then show "\<exists>hs m. example_new_porter = ?p0\<lparr>po_handlers := hs, next_handler_id := m\<rparr>" by blast
qed

text \<open>Two stanzas are sent, the first is written; then the porter is closed forcibly.\<close>

definition example_ops :: "porter_op list" where
  "example_ops =
     [OpStart, OpSend example_error_request None 1, OpSend example_error_request None 2, OpWritten W_stanza None,
      OpForceClose None 3, OpReceived (Inl WOCKY_XMPP_CONNECTION_ERROR_CLOSED), OpForceClosed None]"

lemmas example_step_defs =
  wocky_c2s_porter_start_def receive_stanza_def wocky_c2s_porter_send_async_def po_is_closing_def send_head_stanza_def
  send_stanza_cb_def complete_result_def close_if_waiting_def wocky_c2s_porter_force_close_async_def
  terminate_sending_operations_def abort_pending_iqs_def stanza_received_cb_def start_force_close_def
  connection_force_close_cb_def usable_def po_is_cancelled_def po_emit_def Let_def

lemma example_run:
  "\<exists>p. run (porter_step example_porter_env) example_ops example_new_porter = Some p
     \<and> legal_run porter_legal (porter_step example_porter_env) example_ops example_new_porter
     \<and> forced_shutdown p \<and> \<not> po_force_closing p \<and> po_idle p = [] \<and> \<not> sending_whitespace_ping p"
proof -
  obtain hs m where n: "example_new_porter = (wocky_c2s_porter_init example_porter_env ''me@a/x'')\<lparr>po_handlers := hs, next_handler_id := m\<rparr>"
    using example_new_porter(2) by blast
  show ?thesis
    by (simp add: n example_ops_def wocky_c2s_porter_init_def example_step_defs)
qed

theorem porter_answers_once_witness:
  "\<exists>p. run (porter_step example_porter_env) example_ops example_new_porter = Some p
     \<and> completed_calls 2 p + pending_calls 2 p = 1"
  using porter_answers_once [OF example_new_porter(1), of example_ops] example_run
  by (force simp: started_calls_def example_ops_def)

theorem porter_never_stalls_witness:
  "\<exists>p. run (porter_step example_porter_env) example_ops example_new_porter = Some p
     \<and> count_list (po_writes p) W_stanza \<le> 1"
  using porter_never_stalls [OF example_new_porter(1), of example_ops] example_run by blast

theorem force_close_answers_all_witness:
  "\<exists>p. run (porter_step example_porter_env) example_ops example_new_porter = Some p
     \<and> completed_calls 1 p = 1 \<and> completed_calls 2 p = 1 \<and> completed_calls 3 p = 1"
proof -
  obtain p where p: "run (porter_step example_porter_env) example_ops example_new_porter = Some p"
    "legal_run porter_legal (porter_step example_porter_env) example_ops example_new_porter"
    "forced_shutdown p" "\<not> po_force_closing p" "po_idle p = []" "\<not> sending_whitespace_ping p"
    using example_run by blast
  have "completed_calls t p = started_calls t example_ops" for t
    using force_close_answers_all [OF example_new_porter(1) p(2,1,3-6)] .
  with p(1) show ?thesis by (simp add: started_calls_def example_ops_def)
qed

end
