(* ===== verification/Spec2Isabelle.thy ===== *)
theory Spec2Isabelle
  imports Private_Tubes Tube_Room Socks5_Proxies Request_Pipeline Own_Caps Porter_Closing
begin

text \<open>
  \<^bold>\<open>Telepathy Gabble, verified.\<close> Gabble (\<open>src/src\<close>) is the XMPP connection manager of Telepathy; it stands on the
  XMPP library Wocky (\<open>src/lib/ext/wocky/wocky\<close>). This library models the parts of both that carry their own
  logic, translated function by function into executable definitions of the same names, and proves
  what makes them correct. Paths below are relative to \<open>src/\<close>; \<open>wocky/\<close> stands for \<open>lib/ext/wocky/wocky/\<close>.

  \<^bold>\<open>The parts and how they interact.\<close> Every stanza goes through the \<^emph>\<open>porter\<close>: it queues and writes stanzas, matches
  replies to requests, and hands requests and messages to handlers in order of priority. Some requests
  go through the \<^emph>\<open>request pipeline\<close>, which limits how many are in flight. The \<^emph>\<open>bytestream factory\<close> registers
  handlers for stream initiation, in-band data, SOCKS5 offers and data in rooms; it keeps the tables of
  \<^emph>\<open>bytestreams\<close> (in-band, SOCKS5, in a room, and with fallback over the first two) and routes stanzas to them.
  \<^emph>\<open>Tubes\<close> are built on bytestreams: a D-Bus tube cuts the byte stream into D-Bus messages, the private tubes
  factory offers, accepts and closes tubes to single contacts. Beside these, \<^emph>\<open>presence\<close> keeps what is known
  of a contact's resources and their \<^emph>\<open>capabilities\<close>, which decide the resource a request is sent to. The \<^emph>\<open>presence cache\<close>
  holds the presences of all contacts; it learns what the nodes contacts announce stand for by service
  discovery, and trusts a reply that has the announced hash or that enough contacts agree on. The connection announces our
  own capabilities in the same way and answers requests for them.

  \<^bold>\<open>Conventions.\<close> An object is a record of its private fields, an operation a function from the old state to the
  new. A failed \<open>g_assert\<close>, a use of freed memory or a NULL dereference is \<open>None\<close>. What an object tells the
  outside (stanzas sent, signals, callbacks) is a list of events in its state. A NULL-able string is a
  \<open>cstring\<close>; \<open>guint\<close>, \<open>guint16\<close> and \<open>guint8\<close> are words. Callbacks of the main loop and of the network are operations of
  their own, in any order their legality predicate allows. What is not under \<open>src/\<close> is a parameter: base64 and
  SHA-1 of GLib, Unicode case mapping, the sockets, libdbus, the callbacks of clients. Loops are
  structural, or recursive functions with a measure; there is no fuel.

  \<^bold>\<open>Shared ground.\<close>
  \<^item> \<open>Gabble_Prelude\<close>: names of C types, the \<open>named_theorems\<close> collections, runs of event-driven components and the locale
    \<open>safe_system\<close>: an invariant that legal steps keep and under which they do not abort holds in whole runs.
  \<^item> \<open>C_Strings\<close>: \<open>strtol\<close>, \<open>atoi\<close>, printing of numbers, with round trips and bounds. \<open>Namespaces\<close>: \<open>src/namespaces.h\<close>.
  \<^item> \<open>Jids\<close>: \<open>wocky/wocky-utils.c\<close> and \<open>src/util.c\<close>; normalising a JID is idempotent, decoding inverts composing.

  \<^bold>\<open>Wocky.\<close>
  \<^item> \<open>Wocky_Node\<close>, \<open>Wocky_Stanza\<close>: \<open>wocky/wocky-node.c\<close> and \<open>wocky-stanza.c\<close>; reading back what was built.
  \<^item> \<open>Wocky_Errors\<close>: \<open>wocky/wocky-xmpp-error.c\<close>; every error of the three domains survives being written into a
    reply and read from it (\<open>stanza_error_roundtrip\<close>).
  \<^item> \<open>Wocky_Porter\<close>: \<open>wocky/wocky-c2s-porter.c\<close>, all operations and callbacks, with \<open>porter_step\<close> as its step function.
    \<open>Porter_Dispatch\<close> shows who can answer a request, that handlers are asked in the order of their priority,
    that requests nobody handles are answered and that power saving keeps the order of stanzas.
    \<open>Porter_Requests\<close> and \<open>Porter_Closing\<close> hold the invariant; the interpretation \<open>porter\<close> of \<open>safe_system\<close> says
    that no sequence of operations crashes the porter, that every caller is answered exactly once, that
    whatever waits has an operation of the connection to wait for, and that a forced close answers all.

  \<^bold>\<open>Requests and bytestreams.\<close>
  \<^item> \<open>Request_Pipeline\<close>: \<open>src/request-pipeline.c\<close> over a heap of items; each callback runs exactly once, the window and
    the order are kept, the pipeline does not stall, disposal answers everything.
  \<^item> \<open>Bytestream_Iface\<close>: the contract of \<open>send\<close> and \<open>close\<close> as the locale \<open>bytestream\<close>, interpreted on all four kinds
    of bytestream; \<open>bytestreams_stay_closed\<close> below states it over their definitions.
  \<^item> \<open>Bytestream_IBB\<close>: \<open>src/bytestream-ibb.c\<close>; the stream refines a byte queue in both directions, within its windows.
  \<^item> \<open>Bytestream_MUC\<close>: \<open>src/bytestream-muc.c\<close>; fragments of any data are put together again at the receivers.
  \<^item> \<open>Bytestream_Socks5\<close>: \<open>src/bytestream-socks5.c\<close>. \<open>Socks5_Safety\<close>: under the conditions it states no event aborts.
    \<open>Socks5_Negotiation\<close>: two instances negotiate however the bytes are cut, wrong domains are refused, all
    streamhosts are tried. \<open>Socks5_Proxies\<close>: the caches of proxies in \<open>src/bytestream-factory.c\<close> and their bounds.
  \<^item> \<open>Bytestream_Multiple\<close>: \<open>src/bytestream-multiple.c\<close> over the locale \<open>signalling_bytestream\<close>; \<open>Bytestream_Substreams\<close>
    interprets it on the in-band and the SOCKS5 model and shows the order of the fallback.
  \<^item> \<open>Stream_Initiation\<close>, \<open>Bytestream_Factory\<close>, \<open>SI_Negotiation\<close>: \<open>src/bytestream-factory.c\<close>; stanzas of one peer never reach
    a stream of another, and both sides of a negotiation agree on the method.

  \<^bold>\<open>Tubes.\<close>
  \<^item> \<open>Tube_Parameters\<close>: typed properties in XML (\<open>src/util.c\<close>). \<open>Tube_DBus\<close>: \<open>src/tube-dbus.c\<close>. \<open>Tube_Reassembly\<close>: the
    messages of the peer reach the application complete and in order. \<open>Tube_Room\<close>: names in room tubes.
  \<^item> \<open>Private_Tubes\<close>: \<open>src/private-tubes-factory.c\<close>; offers are understood, tubes of contacts are isolated.

  \<^bold>\<open>Presence.\<close>
  \<^item> \<open>Capabilities\<close>: \<open>src/capabilities.c\<close>; the set operations satisfy the laws of the locale \<open>capability_sets\<close>.
  \<^item> \<open>Presence\<close>: \<open>src/presence.c\<close> with its strings as owned or borrowed references; the aggregate is that of the best
    resource after every operation. \<open>Presence_Stanza\<close>: presence stanzas written and read back.
  \<^item> \<open>Data_Forms\<close>: \<open>wocky/wocky-data-form.c\<close>; a form that is written and read again has the same fields, types and
    values. \<open>Caps_Hash\<close>: \<open>wocky/wocky-caps-hash.c\<close>, \<open>wocky-disco-identity.c\<close> and \<open>src/caps-hash.c\<close>; the hash does not depend on
    the order of what is hashed, and a reply with our capabilities has the hash we announce.
  \<^item> \<open>Presence_Cache\<close>: \<open>src/presence-cache.c\<close>, all operations, with \<open>pc_step\<close> as its step function. \<open>Caps_Trust\<close> holds the
    invariant; the interpretation \<open>cache_sys\<close> of \<open>safe_system\<close> says that no history aborts, and
    \<open>caps_trust_sound\<close> that contacts get only capabilities that were reported by themselves, verified, agreed on or
    ours. One verified reply settles a node for everybody. The theory ends with histories in which discovery goes wrong.
  \<^item> \<open>Own_Caps\<close>: the part of \<open>src/connection.c\<close> that announces our capabilities and answers requests for them; with
    the interpretation \<open>own_sys\<close>, what is announced can be looked up and verified ever after.

  \<^bold>\<open>Bounds.\<close> Lengths and sequence numbers wrap where the code lets them (\<open>guint16\<close> sequence numbers of in-band data,
  \<open>guint8\<close> lengths in SOCKS5 messages, \<open>guint32\<close> lengths of D-Bus messages). Positions in buffers are natural
  numbers: a buffer of 4 GB is outside the model. Handler numbers of the porter are words and are
  assumed not to wrap around where a theorem says so. The trust of a capability node is a \<open>guint\<close>; the number of
  requests under way is a natural number.

  \<^bold>\<open>Not modelled.\<close> Process, plugins and D-Bus glue; connecting, TLS and SASL, which Gabble leaves to Wocky and
  to clients; the rest of the connection's life cycle; the roster and rooms, whose state is kept by the server
  and by telepathy-glib; sockets; media channels and calls, thin layers over Jingle sessions; stream tubes and file
  transfer beyond the bytestreams they use; the D-Bus properties of channels; object life time beyond
  what the code does by hand (reference counts of GObject).
\<close>

section \<open>Properties across the bytestreams\<close>

text \<open>C23. Whichever bytestream a client of \<open>GabbleBytestreamIface\<close> holds (in-band, room, SOCKS5, or one with
  fallback over the first and the third), once it has called \<open>close\<close> no later \<open>send\<close> is accepted and no
  sequence of further calls of \<open>send\<close> and \<open>close\<close> opens the stream again, whatever the socket
  writes, the stanza sends and the creation of fallback bytestreams do meanwhile.\<close>

theorem bytestreams_stay_closed:
  "(calls (\<lambda>d s r s'. gabble_bytestream_ibb_send enc d s = (r, s'))
      (\<lambda>s s'. s' = gabble_bytestream_ibb_close err s) (gabble_bytestream_ibb_close err ib) cs rs ib'
    \<longrightarrow> True \<notin> set rs \<and> ibb_state ib' \<noteq> GABBLE_BYTESTREAM_STATE_OPEN)
   \<and> (calls (\<lambda>d s r s'. gabble_bytestream_muc_send enc send_ok d s = (r, s'))
      (\<lambda>s s'. s' = gabble_bytestream_muc_close s) (gabble_bytestream_muc_close mc) cs rs mc'
    \<longrightarrow> True \<notin> set rs \<and> muc_state mc' \<noteq> GABBLE_BYTESTREAM_STATE_OPEN)
   \<and> (calls (\<lambda>d s r s'. \<exists>w. gabble_bytestream_socks5_send w d s = Some (r, s'))
      (\<lambda>s s'. s' = gabble_bytestream_socks5_close err s) (gabble_bytestream_socks5_close err sk) cs rs sk'
    \<longrightarrow> True \<notin> set rs \<and> s5_bytestream_state sk' \<noteq> GABBLE_BYTESTREAM_STATE_OPEN)
   \<and> (mu_synced sub_state sub_ok mu
      \<and> gabble_bytestream_multiple_close (sub_ops e) create err mu = Some mu'
      \<and> calls (\<lambda>d m r m'. mu_synced sub_state sub_ok m
            \<and> gabble_bytestream_multiple_send (sub_ops e) create d m = Some (r, m'))
          (\<lambda>m m'. mu_synced sub_state sub_ok m
            \<and> gabble_bytestream_multiple_close (sub_ops e) create err m = Some m') mu' cs rs mu''
    \<longrightarrow> True \<notin> set rs \<and> mu_state mu'' \<noteq> GABBLE_BYTESTREAM_STATE_OPEN)"
  using ibb_stream.no_send_after_close [of _ err ib enc cs rs ib']
    muc_stream.no_send_after_close [of _ mc enc send_ok cs rs mc']
    s5_stream.no_send_after_close [of _ err sk cs rs sk']
    mult_stream.no_send_after_close [of mu e create err mu' cs rs mu'']
  by (intro conjI impI) simp_all

definition open_multiple :: "sub_stream mult" where
  "open_multiple = (gabble_bytestream_multiple_init GABBLE_BYTESTREAM_STATE_OPEN)
     \<lparr>mu_active_bytestream :=
        Some (Sub_ibb (gabble_bytestream_ibb_init 4096 GABBLE_BYTESTREAM_STATE_OPEN))\<rparr>"

theorem bytestreams_stay_closed_witness:
  "ibb_state (gabble_bytestream_ibb_close None (gabble_bytestream_ibb_init 4096 GABBLE_BYTESTREAM_STATE_OPEN))
     \<noteq> GABBLE_BYTESTREAM_STATE_OPEN
   \<and> muc_state (gabble_bytestream_muc_close
       (gabble_bytestream_muc_init ''sid'' ''room'' GABBLE_BYTESTREAM_STATE_OPEN)) \<noteq> GABBLE_BYTESTREAM_STATE_OPEN
   \<and> s5_bytestream_state (gabble_bytestream_socks5_close None
       (gabble_bytestream_socks5_init GABBLE_BYTESTREAM_STATE_OPEN ''sid'' ''bob'' ''alice'' False))
     \<noteq> GABBLE_BYTESTREAM_STATE_OPEN
   \<and> (\<exists>m. gabble_bytestream_multiple_close (sub_ops example_env)
         (gabble_bytestream_factory_create_from_method example_ids) None open_multiple = Some m
       \<and> gabble_bytestream_multiple_send (sub_ops example_env)
         (gabble_bytestream_factory_create_from_method example_ids) [65] m = Some (False, m)
       \<and> mu_state m \<noteq> GABBLE_BYTESTREAM_STATE_OPEN)"
proof -
  let ?i = "gabble_bytestream_ibb_close None (gabble_bytestream_ibb_init 4096 GABBLE_BYTESTREAM_STATE_OPEN)"
  let ?u = "gabble_bytestream_muc_close
       (gabble_bytestream_muc_init ''sid'' ''room'' GABBLE_BYTESTREAM_STATE_OPEN)"
  let ?s = "gabble_bytestream_socks5_close None
       (gabble_bytestream_socks5_init GABBLE_BYTESTREAM_STATE_OPEN ''sid'' ''bob'' ''alice'' False)"
  let ?create = "gabble_bytestream_factory_create_from_method example_ids"
  have synced: "mu_synced sub_state sub_ok open_multiple"
    by (simp add: open_multiple_def gabble_bytestream_multiple_init_def mu_synced_def
        gabble_bytestream_ibb_init_def)
  from sub.multiple_close_synced [OF this, of example_env ?create None] obtain m where
    m: "gabble_bytestream_multiple_close (sub_ops example_env) ?create None open_multiple = Some m"
      "mu_synced sub_state sub_ok m" by blast
  note closed = bytestreams_stay_closed [where err = None and send_ok = "\<lambda>_. True"
      and enc = "\<lambda>_. []" and e = example_env and create = ?create
      and ib = "gabble_bytestream_ibb_init 4096 GABBLE_BYTESTREAM_STATE_OPEN" and ib' = ?i
      and mc = "gabble_bytestream_muc_init ''sid'' ''room'' GABBLE_BYTESTREAM_STATE_OPEN" and mc' = ?u
      and sk = "gabble_bytestream_socks5_init GABBLE_BYTESTREAM_STATE_OPEN ''sid'' ''bob'' ''alice'' False"
      and sk' = ?s and cs = "[]" and rs = "[]" and mu = open_multiple and mu' = m and mu'' = m]
  from closed m synced have "mu_state m \<noteq> GABBLE_BYTESTREAM_STATE_OPEN" by (simp add: calls_nil)
  then have "gabble_bytestream_multiple_send (sub_ops example_env) ?create [65] m = Some (False, m)"
    by (simp add: gabble_bytestream_multiple_send_def)
  with closed m synced show ?thesis by (simp add: calls_nil)
qed

end
